(* ===== verification/Kernel_Prelude.thy ===== *)
theory Kernel_Prelude
  imports Main "HOL-Library.FSet" "HOL-Library.AList" "HOL-Library.Char_ord"
    "HOL-Library.List_Lexorder" "HOL-Library.Product_Lexorder" "HOL-Library.Sublist"
    "HOL-Library.Multiset"
begin

text \<open>
  Shared vocabulary of the development.

  \<^item> Exceptions: a Python call that may raise is a value of \<open>'e + 'a\<close>, \<open>Inl\<close> the exception class.
    \<open>rbind\<close> sequences such calls; \<open>mapM\<close> runs one over a tuple, left to right.
  \<^item> Strings: a Python \<open>str\<close> is a list of code points below 256; \<open>nonblank s\<close> is the truth value of
    \<open>s.strip()\<close>. Strings are ordered as Python orders them (\<open>List_Lexorder\<close>, \<open>Char_ord\<close>).
  \<^item> Dictionaries built by a comprehension are looked up with \<open>dict_from\<close> (a later entry wins), a
    \<open>frozenset\<close> is a finite set (\<open>fset\<close>), \<open>sorted(s)\<close> is \<open>sorted_list_of_fset\<close>.
\<close>

named_theorems res_simps \<open>inversion of results\<close>
named_theorems res_intros \<open>introduction rules for successful results\<close>

section \<open>Results\<close>

fun rbind :: "'e + 'a \<Rightarrow> ('a \<Rightarrow> 'e + 'b) \<Rightarrow> 'e + 'b" where
  "rbind (Inl e) f = Inl e"
| "rbind (Inr x) f = f x"

primrec mapM :: "('a \<Rightarrow> 'e + 'b) \<Rightarrow> 'a list \<Rightarrow> 'e + 'b list" where
  "mapM f [] = Inr []"
| "mapM f (x # xs) = rbind (f x) (\<lambda>y. rbind (mapM f xs) (\<lambda>ys. Inr (y # ys)))"

text \<open>A loop of checks: \<open>for x in xs: f(x)\<close>.\<close>

primrec each :: "('a \<Rightarrow> 'e + unit) \<Rightarrow> 'a list \<Rightarrow> 'e + unit" where
  "each f [] = Inr ()"
| "each f (x # xs) = rbind (f x) (\<lambda>_. each f xs)"

text \<open>\<open>if not b: raise e\<close>\<close>

definition guard :: "bool \<Rightarrow> 'e \<Rightarrow> 'e + unit" where
  "guard b e = (if b then Inr () else Inl e)"

lemma rbind_eq_Inr [res_simps]: "rbind m f = Inr y \<longleftrightarrow> (\<exists>x. m = Inr x \<and> f x = Inr y)"
  by (cases m) auto

lemma Inr_eq_rbind [res_simps]: "Inr y = rbind m f \<longleftrightarrow> (\<exists>x. m = Inr x \<and> f x = Inr y)"
  by (cases m) auto

lemma rbind_eq_Inl [res_simps]:
  "rbind m f = Inl e \<longleftrightarrow> m = Inl e \<or> (\<exists>x. m = Inr x \<and> f x = Inl e)"
  by (cases m) auto

lemma rbind_assoc: "rbind (rbind m f) g = rbind m (\<lambda>x. rbind (f x) g)"
  by (cases m) auto

lemma rbind_cong [fundef_cong]:
  "m = m' \<Longrightarrow> (\<And>x. m' = Inr x \<Longrightarrow> f x = g x) \<Longrightarrow> rbind m f = rbind m' g"
  by (cases m') auto

lemma guard_eq_Inr [res_simps]: "guard b e = Inr u \<longleftrightarrow> b"
  by (simp add: guard_def)

lemma guard_eq_Inl [res_simps]: "guard b e = Inl e' \<longleftrightarrow> \<not> b \<and> e' = e"
  by (auto simp: guard_def)

lemma guard_simps [simp]: "guard True e = Inr ()" "guard False e = Inl e"
  by (simp_all add: guard_def)

lemma each_Inr_iff [res_simps]: "each f xs = Inr u \<longleftrightarrow> (\<forall>x \<in> set xs. f x = Inr ())"
  by (induction xs) (auto simp: rbind_eq_Inr)

lemma mapM_Inr_iff: "mapM f xs = Inr ys \<longleftrightarrow> list_all2 (\<lambda>x y. f x = Inr y) xs ys"
  by (induction xs arbitrary: ys) (auto simp: res_simps list_all2_Cons1)

lemma mapM_total:
  assumes "\<And>x. x \<in> set xs \<Longrightarrow> f x = Inr (g x)"
  shows "mapM f xs = Inr (map g xs)"
  using assms by (induction xs) auto

lemma mapM_map:
  assumes "mapM f xs = Inr ys" and "\<And>x y. x \<in> set xs \<Longrightarrow> f x = Inr y \<Longrightarrow> y = g x"
  shows "ys = map g xs"
  using assms by (induction xs arbitrary: ys) (auto simp: rbind_eq_Inr)

lemma mapM_cong [fundef_cong]:
  "xs = ys \<Longrightarrow> (\<And>x. x \<in> set ys \<Longrightarrow> f x = g x) \<Longrightarrow> mapM f xs = mapM g ys"
proof (induction ys arbitrary: xs)
  case (Cons y ys)
  then have "f y = g y" "mapM f ys = mapM g ys" by auto
  with Cons.prems(1) show ?case by simp
qed simp

section \<open>Python strings\<close>

text \<open>\<open>str.isspace\<close> on one code point below 256.\<close>

definition isspace :: "char \<Rightarrow> bool" where
  "isspace c \<longleftrightarrow> (of_char c :: nat) \<in> {9, 10, 11, 12, 13, 28, 29, 30, 31, 32, 133, 160}"

definition nonblank :: "string \<Rightarrow> bool" where
  "nonblank s \<longleftrightarrow> (\<exists>c \<in> set s. \<not> isspace c)"

definition opt_nonblank :: "string option \<Rightarrow> bool" where
  "opt_nonblank v \<longleftrightarrow> (case v of None \<Rightarrow> True | Some s \<Rightarrow> nonblank s)"

lemma nonblank_not_Nil: "nonblank s \<Longrightarrow> s \<noteq> []"
  by (auto simp: nonblank_def)

lemma nonblank_append [simp]: "nonblank (s @ t) \<longleftrightarrow> nonblank s \<or> nonblank t"
  by (auto simp: nonblank_def)

lemma opt_nonblank_simps [simp]:
  "opt_nonblank None" "opt_nonblank (Some s) \<longleftrightarrow> nonblank s"
  by (simp_all add: opt_nonblank_def)

section \<open>Dictionaries and generators\<close>

definition dict_from :: "('a \<Rightarrow> 'k) \<Rightarrow> 'a list \<Rightarrow> 'k \<Rightarrow> 'a option" where
  "dict_from key xs = map_of (rev (map (\<lambda>x. (key x, x)) xs))"

lemma dict_from_eq_find_rev: "dict_from key xs k = List.find (\<lambda>x. key x = k) (rev xs)"
proof -
  have "map_of (map (\<lambda>x. (key x, x)) ys) k = List.find (\<lambda>x. key x = k) ys" for ys
    by (induction ys) auto
  then show ?thesis by (simp add: dict_from_def rev_map)
qed

lemma find_SomeD: "List.find P xs = Some x \<Longrightarrow> x \<in> set xs \<and> P x"
  by (auto simp: find_Some_iff)

lemma dict_from_SomeD: "dict_from key xs k = Some x \<Longrightarrow> x \<in> set xs \<and> key x = k"
  by (auto simp: dict_from_eq_find_rev dest: find_SomeD)

lemma dict_from_None_iff: "dict_from key xs k = None \<longleftrightarrow> k \<notin> key ` set xs"
  by (auto simp: dict_from_eq_find_rev find_None_iff)

lemma dict_from_distinct:
  assumes "distinct (map key xs)" and "x \<in> set xs"
  shows "dict_from key xs (key x) = Some x"
proof -
  obtain y where y: "dict_from key xs (key x) = Some y"
    using assms(2) dict_from_None_iff[of key xs "key x"] by (cases "dict_from key xs (key x)") auto
  then have "y \<in> set xs" "key y = key x" by (auto dest: dict_from_SomeD)
  with assms have "y = x" by (meson distinct_map inj_onD)
  with y show ?thesis by simp
qed

lemma find_distinct_key:
  assumes "distinct (map key xs)" and "x \<in> set xs"
  shows "List.find (\<lambda>y. key y = key x) xs = Some x"
proof -
  obtain y where y: "List.find (\<lambda>y. key y = key x) xs = Some y"
    using assms(2) by (cases "List.find (\<lambda>y. key y = key x) xs") (auto simp: find_None_iff)
  then have "y \<in> set xs" "key y = key x" by (auto dest: find_SomeD)
  with assms have "y = x" by (meson distinct_map inj_onD)
  with y show ?thesis by simp
qed

lemma find_map_key:
  assumes "\<And>x. x \<in> set xs \<Longrightarrow> P (f x) = P x"
  shows "List.find P (map f xs) = map_option f (List.find P xs)"
  using assms by (induction xs) auto

text \<open>\<open>d[k] = v\<close> for a list of pairs, over a sequence of pairs.\<close>

definition dict_update :: "('k \<times> 'v) list \<Rightarrow> ('k \<times> 'v) list \<Rightarrow> ('k \<times> 'v) list" where
  "dict_update d kvs = fold (\<lambda>(k, v). AList.update k v) kvs d"

lemma dict_update_Nil [simp]: "dict_update d [] = d"
  by (simp add: dict_update_def)

lemma dict_update_Cons [simp]: "dict_update d ((k, v) # kvs) = dict_update (AList.update k v d) kvs"
  by (simp add: dict_update_def)

lemma dict_update_append: "dict_update (dict_update d xs) ys = dict_update d (xs @ ys)"
  by (simp add: dict_update_def)

lemma set_update_subset: "set (AList.update k v al) \<subseteq> insert (k, v) (set al)"
  by (induction al) auto

lemma set_dict_update_subset: "set (dict_update d kvs) \<subseteq> set d \<union> set kvs"
proof (induction kvs arbitrary: d)
  case (Cons kv kvs)
  obtain k v where "kv = (k, v)" by fastforce
  with Cons[of "AList.update k v d"] set_update_subset[of k v d] show ?case by auto
qed simp

lemma keys_dict_update: "fst ` set (dict_update d kvs) = fst ` set d \<union> fst ` set kvs"
proof (induction kvs arbitrary: d)
  case (Cons kv kvs)
  then show ?case by (cases kv) (simp add: dom_update)
qed simp

lemma distinct_dict_update:
  "distinct (map fst d) \<Longrightarrow> distinct (map fst (dict_update d kvs))"
  by (induction kvs arbitrary: d) (auto simp: distinct_update)

lemma map_of_dict_update: "map_of (dict_update d kvs) k =
    (case map_of (rev kvs) k of None \<Rightarrow> map_of d k | Some v \<Rightarrow> Some v)"
  by (induction kvs arbitrary: d) (auto simp: update_conv' map_add_def split: option.splits)

section \<open>Sorted tuples\<close>

lemma sort_key_idem: "sort_key f (sort_key f xs) = sort_key f xs"
  by (simp add: sorted_sort_id sort_key_id_if_sorted)

lemma sort_key_eq_Nil [simp]: "sort_key f xs = [] \<longleftrightarrow> xs = []"
  by (metis set_empty set_sort)

lemma distinct_map_sort_key [simp]: "distinct (map f (sort_key g xs)) \<longleftrightarrow> distinct (map f xs)"
  by (simp add: distinct_map)

lemma length_remdups_distinct [simp]:
  "length (remdups xs) = length xs \<longleftrightarrow> distinct xs" "length xs = length (remdups xs) \<longleftrightarrow> distinct xs"
  using length_remdups_eq[of xs] remdups_id_iff_distinct[of xs] by metis+

lemma card_image_length_iff: "card (f ` set xs) = length xs \<longleftrightarrow> distinct (map f xs)"
  using card_distinct[of "map f xs"] distinct_card[of "map f xs"] by auto

text \<open>A tuple sorted on pairwise different keys is determined by its elements.\<close>

lemma sort_key_set_unique:
  assumes "set xs = set ys" and "distinct (map f xs)" and "distinct (map f ys)"
  shows "sort_key f xs = sort_key f ys"
proof -
  have "mset xs = mset ys"
    using assms by (auto simp: distinct_map set_eq_iff_mset_eq_distinct)
  moreover have "inj_on f (set xs)" using assms(2) by (simp add: distinct_map)
  ultimately show ?thesis
    by (intro sort_key_inj_key_eq) simp_all
qed

end
