(* ===== verification/Canonical_Json.thy ===== *)
theory Canonical_Json
  imports Kernel_Prelude
begin

text \<open>
  Canonical JSON: \<open>json.dumps(value, sort_keys=True, separators=(",", ":"), ensure_ascii=True)\<close>, the
  encoding behind every digest of the kernel (\<open>_digest\<close> of core/domain.py, \<open>encode\<close> of
  core/intake.py). \<open>canon\<close> sorts the fields of every object, \<open>render\<close> prints, \<open>dumps\<close> is both.
  Tuples and lists print alike; the values the kernel digests hold no floating-point number.
  The main result is that \<open>dumps\<close> identifies only values that differ in the order of object fields.
\<close>

datatype json =
    JNull
  | JBool bool
  | JInt int
  | JStr string
  | JList "json list"
  | JObj "(string \<times> json) list"

abbreviation JOptStr :: "string option \<Rightarrow> json" where
  "JOptStr v \<equiv> (case v of None \<Rightarrow> JNull | Some s \<Rightarrow> JStr s)"

section \<open>Printing\<close>

definition digit_char :: "nat \<Rightarrow> char" where
  "digit_char n = char_of (if n < 10 then 48 + n else 87 + n)"

fun show_nat :: "nat \<Rightarrow> string" where
  "show_nat n = (if n < 10 then [digit_char n] else show_nat (n div 10) @ [digit_char (n mod 10)])"

declare show_nat.simps [simp del]

definition show_int :: "int \<Rightarrow> string" where
  "show_int i = (if i < 0 then CHR ''-'' # show_nat (nat (- i)) else show_nat (nat i))"

text \<open>\<open>py_encode_basestring_ascii\<close> on one code point below 256.\<close>

definition escape_char :: "char \<Rightarrow> string" where
  "escape_char c = (let n = of_char c :: nat in
     if n = 34 then [CHR 0x5C, CHR 0x22]
     else if n = 92 then [CHR 0x5C, CHR 0x5C]
     else if n = 10 then [CHR 0x5C, CHR ''n'']
     else if n = 13 then [CHR 0x5C, CHR ''r'']
     else if n = 9 then [CHR 0x5C, CHR ''t'']
     else if n = 12 then [CHR 0x5C, CHR ''f'']
     else if n = 8 then [CHR 0x5C, CHR ''b'']
     else if 32 \<le> n \<and> n \<le> 126 then [c]
     else [CHR 0x5C, CHR ''u'', CHR ''0'', CHR ''0'', digit_char (n div 16), digit_char (n mod 16)])"

definition quote :: "string \<Rightarrow> string" where
  "quote s = [CHR 0x22] @ concat (map escape_char s) @ [CHR 0x22]"

definition join_tail :: "string list \<Rightarrow> string" where
  "join_tail xs = concat (map (\<lambda>x. CHR '','' # x) xs)"

fun join :: "string list \<Rightarrow> string" where
  "join [] = []"
| "join (x # xs) = x @ join_tail xs"

primrec render :: "json \<Rightarrow> string" where
  "render JNull = ''null''"
| "render (JBool b) = (if b then ''true'' else ''false'')"
| "render (JInt i) = show_int i"
| "render (JStr s) = quote s"
| "render (JList xs) = ''['' @ join (map render xs) @ '']''"
| "render (JObj kvs) =
     ''{'' @ join (map (\<lambda>(k, v). quote k @ '':'' @ v) (map (map_prod id render) kvs)) @ ''}''"

primrec canon :: "json \<Rightarrow> json" where
  "canon JNull = JNull"
| "canon (JBool b) = JBool b"
| "canon (JInt i) = JInt i"
| "canon (JStr s) = JStr s"
| "canon (JList xs) = JList (map canon xs)"
| "canon (JObj kvs) = JObj (sort_key fst (map (map_prod id canon) kvs))"

definition dumps :: "json \<Rightarrow> string" where
  "dumps j = render (canon j)"

section \<open>Leaves\<close>

lemma digit_char_inj: "m < 16 \<Longrightarrow> n < 16 \<Longrightarrow> digit_char m = digit_char n \<longleftrightarrow> m = n"
  by (auto simp: digit_char_def char_of_eq_iff take_bit_eq_mod of_char_of split: if_splits)

definition is_digit_char :: "char \<Rightarrow> bool" where
  "is_digit_char c \<longleftrightarrow> (of_char c :: nat) \<in> {48..57}"

lemma is_digit_digit_char: "n < 10 \<Longrightarrow> is_digit_char (digit_char n)"
  by (simp add: is_digit_char_def digit_char_def of_char_of)

lemma show_nat_digits: "\<forall>c \<in> set (show_nat n). is_digit_char c"
proof (induction n rule: show_nat.induct)
  case (1 n)
  then show ?case
    by (cases "n < 10") (auto simp: show_nat.simps[of n] is_digit_digit_char)
qed

lemma show_nat_not_Nil [simp]: "show_nat n \<noteq> []" "[] \<noteq> show_nat n"
  by (simp_all add: show_nat.simps[of n])

lemma show_nat_inj: "show_nat m = show_nat n \<Longrightarrow> m = n"
proof (induction m arbitrary: n rule: show_nat.induct)
  case (1 m)
  show ?case
  proof (cases "m < 10")
    case True
    with "1.prems" show ?thesis
      by (cases "n < 10")
        (auto simp: show_nat.simps[of m] show_nat.simps[of n] digit_char_inj
          append_eq_Cons_conv)
  next
    case False
    with "1.prems" have "\<not> n < 10" and eq: "show_nat (m div 10) = show_nat (n div 10)"
        "digit_char (m mod 10) = digit_char (n mod 10)"
      by (auto simp: show_nat.simps[of m] show_nat.simps[of n]
          append_eq_Cons_conv split: if_splits)
    from False "1.IH" eq(1) have "m div 10 = n div 10" by blast
    moreover from eq(2) have "m mod 10 = n mod 10"
      by (subst (asm) digit_char_inj) auto
    ultimately show ?thesis by (metis div_mult_mod_eq)
  qed
qed


text \<open>What may follow a value inside a document; a number stops there.\<close>

definition stop :: "string \<Rightarrow> bool" where
  "stop r \<longleftrightarrow> r = [] \<or> hd r \<in> {CHR '','', CHR '']'', CHR ''}''}"

lemma stop_simps [simp]:
  "stop []" "stop (CHR '','' # r)" "stop (CHR '']'' # r)" "stop (CHR ''}'' # r)"
  by (simp_all add: stop_def)

lemma stop_not_digit: "stop (c # r) \<Longrightarrow> \<not> is_digit_char c"
  by (auto simp: stop_def is_digit_char_def)

lemma span_unique:
  assumes "xs @ r = ys @ s" and "\<forall>c \<in> set xs. P c" and "\<forall>c \<in> set ys. P c"
    and "r = [] \<or> \<not> P (hd r)" and "s = [] \<or> \<not> P (hd s)"
  shows "xs = ys \<and> r = s"
  using assms
proof (induction xs arbitrary: ys)
  case Nil
  then show ?case by (cases ys) auto
next
  case (Cons x xs)
  then show ?case by (cases ys) (auto simp: append_eq_Cons_conv)
qed

lemma show_nat_prefix:
  assumes "show_nat m @ r = show_nat n @ s" and "stop r" and "stop s"
  shows "m = n \<and> r = s"
proof -
  have "show_nat m = show_nat n \<and> r = s"
    using assms show_nat_digits
    by (intro span_unique [where P = is_digit_char]) (auto simp: stop_def is_digit_char_def)
  then show ?thesis using show_nat_inj by blast
qed

lemma show_nat_hd: "\<exists>c cs. show_nat n = c # cs \<and> is_digit_char c"
  using show_nat_digits[of n] by (cases "show_nat n") auto

lemma show_int_prefix:
  assumes "show_int i @ r = show_int j @ s" and "stop r" and "stop s"
  shows "i = j \<and> r = s"
proof -
  have minus: "\<not> is_digit_char (CHR ''-'')" by (simp add: is_digit_char_def)
  obtain c cs where c: "show_nat (nat i) = c # cs" "is_digit_char c" using show_nat_hd by blast
  obtain d ds where d: "show_nat (nat j) = d # ds" "is_digit_char d" using show_nat_hd by blast
  show ?thesis
  proof (cases "i < 0"; cases "j < 0")
    assume "i < 0" "j < 0"
    with assms show_nat_prefix[of "nat (- i)" r "nat (- j)" s] show ?thesis
      by (auto simp: show_int_def)
  next
    assume "\<not> i < 0" "\<not> j < 0"
    with assms show_nat_prefix[of "nat i" r "nat j" s] show ?thesis
      by (auto simp: show_int_def)
  qed (use assms c d minus in \<open>auto simp: show_int_def\<close>)
qed

lemma show_int_hd: "\<exists>c cs. show_int i = c # cs \<and> (is_digit_char c \<or> c = CHR ''-'')"
  using show_nat_hd[of "nat i"] by (auto simp: show_int_def)

text \<open>Escapes form a prefix code that never opens with a quotation mark: \<open>unescape\<close> reads one back.\<close>

definition hex_val :: "char \<Rightarrow> nat" where
  "hex_val c = (let n = of_char c in if n < 58 then n - 48 else n - 87)"

fun unescape :: "string \<Rightarrow> (char \<times> string) option" where
  "unescape (c # r) =
     (if c = CHR 0x22 then None
      else if c \<noteq> CHR 0x5C then Some (c, r)
      else (case r of
          [] \<Rightarrow> None
        | d # r' \<Rightarrow>
            if d = CHR 0x22 then Some (char_of (34 :: nat), r')
            else if d = CHR 0x5C then Some (char_of (92 :: nat), r')
            else if d = CHR ''n'' then Some (char_of (10 :: nat), r')
            else if d = CHR ''r'' then Some (char_of (13 :: nat), r')
            else if d = CHR ''t'' then Some (char_of (9 :: nat), r')
            else if d = CHR ''f'' then Some (char_of (12 :: nat), r')
            else if d = CHR ''b'' then Some (char_of (8 :: nat), r')
            else (case r' of
                z1 # z2 # x # y # r'' \<Rightarrow> Some (char_of (hex_val x * 16 + hex_val y), r'')
              | _ \<Rightarrow> None)))"
| "unescape [] = None"

lemma hex_val_digit_char: "n < 16 \<Longrightarrow> hex_val (digit_char n) = n"
  by (auto simp: hex_val_def digit_char_def of_char_of Let_def)

lemma of_char_eqD: "(of_char c :: nat) = n \<Longrightarrow> c = char_of n"
  by auto

lemma unescape_escape_char: "unescape (escape_char c @ u) = Some (c, u)"
proof -
  have "(of_char c :: nat) < 256" by simp
  then have "(of_char c :: nat) div 16 < 16" "(of_char c :: nat) mod 16 < 16"
    by (simp_all add: less_mult_imp_div_less)
  moreover have "of_char c \<noteq> (34 :: nat) \<Longrightarrow> c \<noteq> CHR 0x22" "of_char c \<noteq> (92 :: nat) \<Longrightarrow> c \<noteq> CHR 0x5C"
    by auto
  ultimately show ?thesis
    by (auto simp: escape_char_def Let_def hex_val_digit_char dest: of_char_eqD)
qed

lemma escape_char_hd: "\<exists>d ds. escape_char c = d # ds \<and> d \<noteq> CHR 0x22"
proof -
  have "of_char c \<noteq> (34 :: nat) \<Longrightarrow> c \<noteq> CHR 0x22" by auto
  then show ?thesis by (auto simp: escape_char_def Let_def)
qed

lemma escapes_prefix:
  "concat (map escape_char s) @ CHR 0x22 # r = concat (map escape_char t) @ CHR 0x22 # r'
   \<Longrightarrow> s = t \<and> r = r'"
proof (induction s arbitrary: t)
  case Nil
  then show ?case
  proof (cases t)
    case (Cons d t')
    then show ?thesis using Nil escape_char_hd[of d] by auto
  qed simp
next
  case (Cons c s)
  show ?case
  proof (cases t)
    case Nil
    then show ?thesis using Cons.prems escape_char_hd[of c] by auto
  next
    case (Cons d t')
    let ?u = "concat (map escape_char s) @ CHR 0x22 # r"
    let ?v = "concat (map escape_char t') @ CHR 0x22 # r'"
    have "escape_char c @ ?u = escape_char d @ ?v" using Cons.prems Cons by simp
    then have "Some (c, ?u) = Some (d, ?v)" by (metis unescape_escape_char)
    then show ?thesis using Cons.IH[of t'] Cons by simp
  qed
qed

lemma quote_prefix: "quote s @ r = quote t @ r' \<Longrightarrow> s = t \<and> r = r'"
  by (auto simp: quote_def dest: escapes_prefix)

section \<open>Documents\<close>

text \<open>
  The separator argument, for any element printer \<open>enc\<close> that is read back up to what may follow it;
  arrays and objects both use it.
\<close>

lemma join_tail_Cons [simp]: "join_tail (x # xs) = CHR '','' # x @ join_tail xs"
  and join_tail_Nil [simp]: "join_tail [] = []"
  by (simp_all add: join_tail_def)

lemma join_tail_prefix:
  assumes enc: "\<And>x y r r'. x \<in> set xs \<Longrightarrow> stop r \<Longrightarrow> stop r' \<Longrightarrow> enc x @ r = enc y @ r' \<Longrightarrow> x = y \<and> r = r'"
    and eq: "join_tail (map enc xs) @ c # r = join_tail (map enc ys) @ c # r'"
    and c: "c \<in> {CHR '']'', CHR ''}''}"
  shows "xs = ys \<and> r = r'"
  using enc eq
proof (induction xs arbitrary: ys)
  case Nil
  with c show ?case by (cases ys) auto
next
  case (Cons x xs)
  show ?case
  proof (cases ys)
    case Nil
    with Cons.prems(2) c show ?thesis by auto
  next
    case (Cons y ys')
    have st: "stop (join_tail (map enc zs) @ c # s)" for zs s
      using c by (cases zs) auto
    have "enc x @ join_tail (map enc xs) @ c # r = enc y @ join_tail (map enc ys') @ c # r'"
      using Cons.prems(2) Cons by simp
    then have "x = y \<and> join_tail (map enc xs) @ c # r = join_tail (map enc ys') @ c # r'"
      using Cons.prems(1)[of x "join_tail (map enc xs) @ c # r" "join_tail (map enc ys') @ c # r'" y] st
      by auto
    then show ?thesis using Cons.IH[of ys'] Cons.prems(1) Cons by auto
  qed
qed

lemma join_prefix:
  assumes enc: "\<And>x y r r'. x \<in> set xs \<Longrightarrow> stop r \<Longrightarrow> stop r' \<Longrightarrow> enc x @ r = enc y @ r' \<Longrightarrow> x = y \<and> r = r'"
    and hd: "\<And>x r. \<exists>d ds. enc x = d # ds \<and> d \<noteq> c"
    and eq: "join (map enc xs) @ c # r = join (map enc ys) @ c # r'"
    and c: "c \<in> {CHR '']'', CHR ''}''}"
  shows "xs = ys \<and> r = r'"
proof (cases xs)
  case Nil
  show ?thesis
  proof (cases ys)
    case (Cons y ys')
    with Nil eq hd[of y] show ?thesis by auto
  qed (use Nil eq in simp)
next
  case (Cons x xs')
  then show ?thesis
  proof (cases ys)
    case Nil
    with Cons eq hd[of x] show ?thesis by auto
  next
    case (Cons y ys')
    have "join_tail (map enc xs) @ c # r = join_tail (map enc ys) @ c # r'"
      using eq \<open>xs = x # xs'\<close> Cons by simp
    then show ?thesis using join_tail_prefix[OF enc _ c] by blast
  qed
qed

abbreviation render_field :: "string \<times> json \<Rightarrow> string" where
  "render_field \<equiv> (\<lambda>(k, v). quote k @ '':'' @ render v)"

lemma render_JObj: "render (JObj kvs) = ''{'' @ join (map render_field kvs) @ ''}''"
  by (simp add: case_prod_unfold comp_def)

lemma quote_hd: "\<exists>ds. quote s = CHR 0x22 # ds"
  by (simp add: quote_def)

lemma render_hd: "\<exists>d ds. render j = d # ds \<and> d \<noteq> CHR '']'' \<and> d \<noteq> CHR ''}''"
proof (cases j)
  case (JInt i)
  then show ?thesis using show_int_hd[of i] by (auto simp: is_digit_char_def)
qed (auto simp: quote_def)

text \<open>The opening character tells the constructors apart.\<close>

definition json_kind :: "json \<Rightarrow> nat" where
  "json_kind j = (case j of JNull \<Rightarrow> 0 | JBool b \<Rightarrow> if b then 1 else 2 | JInt i \<Rightarrow> 3 | JStr s \<Rightarrow> 4
     | JList xs \<Rightarrow> 5 | JObj kvs \<Rightarrow> 6)"

definition kind_of_hd :: "char \<Rightarrow> nat" where
  "kind_of_hd c = (if c = CHR ''n'' then 0 else if c = CHR ''t'' then 1 else if c = CHR ''f'' then 2
     else if c = CHR 0x22 then 4 else if c = CHR ''['' then 5 else if c = CHR ''{'' then 6 else 3)"

lemma json_kind_render: "kind_of_hd (hd (render j @ r)) = json_kind j"
proof (cases j)
  case (JInt i)
  then show ?thesis
    using show_int_hd[of i] by (auto simp: json_kind_def kind_of_hd_def is_digit_char_def)
qed (auto simp: json_kind_def kind_of_hd_def quote_def)

lemma render_kind: "render j @ r = render j' @ r' \<Longrightarrow> json_kind j = json_kind j'"
  by (metis json_kind_render)

lemma render_prefix:
  "stop r \<Longrightarrow> stop r' \<Longrightarrow> render j @ r = render j' @ r' \<Longrightarrow> j = j' \<and> r = r'"
proof (induction j arbitrary: j' r r')
  case JNull
  note kind = render_kind[OF JNull.prems(3)]
  from kind have "j' = JNull" by (cases j') (simp_all add: json_kind_def split: if_splits)
  with JNull show ?case by simp
next
  case (JBool b)
  note kind = render_kind[OF JBool.prems(3)]
  from kind have "j' = JBool b" by (cases j') (simp_all add: json_kind_def split: if_splits)
  with JBool show ?case by simp
next
  case (JInt i)
  note kind = render_kind[OF JInt.prems(3)]
  from kind obtain i' where "j' = JInt i'" by (cases j') (simp_all add: json_kind_def split: if_splits)
  with JInt show_int_prefix[of i r i' r'] show ?case by simp
next
  case (JStr s)
  note kind = render_kind[OF JStr.prems(3)]
  from kind obtain s' where "j' = JStr s'" by (cases j') (simp_all add: json_kind_def split: if_splits)
  with JStr quote_prefix[of s r s' r'] show ?case by simp
next
  case (JList xs)
  note kind = render_kind[OF JList.prems(3)]
  from kind obtain ys where j': "j' = JList ys"
    by (cases j') (simp_all add: json_kind_def split: if_splits)
  with JList.prems have "join (map render xs) @ CHR '']'' # r = join (map render ys) @ CHR '']'' # r'"
    by simp
  then have "xs = ys \<and> r = r'"
    using JList.IH render_hd by (intro join_prefix[where enc = render]) blast+
  with j' show ?case by simp
next
  case (JObj kvs)
  note kind = render_kind[OF JObj.prems(3)]
  from kind obtain ys where j': "j' = JObj ys"
    by (cases j') (simp_all add: json_kind_def split: if_splits)
  with JObj.prems
  have "join (map render_field kvs) @ CHR ''}'' # r = join (map render_field ys) @ CHR ''}'' # r'"
    by (simp add: render_JObj del: render.simps(6))
  moreover have "x = y \<and> u = u'"
    if x: "x \<in> set kvs" and st: "stop u" "stop u'" and eq: "render_field x @ u = render_field y @ u'"
    for x y u u'
  proof -
    obtain k v l w where xy: "x = (k, v)" "y = (l, w)" by fastforce
    with eq have "quote k @ CHR '':'' # render v @ u = quote l @ CHR '':'' # render w @ u'" by simp
    then have "k = l" "render v @ u = render w @ u'" by (auto dest: quote_prefix)
    then show ?thesis using JObj.IH[of x v u u' w] x st xy by auto
  qed
  ultimately have "kvs = ys \<and> r = r'"
    by (intro join_prefix[where enc = render_field]) (auto simp: quote_def)
  with j' show ?case by simp
qed

theorem render_inj: "render j = render j' \<Longrightarrow> j = j'"
  using render_prefix[of "[]" "[]" j j'] by simp

text \<open>
  Two values with one canonical encoding are equal up to the order of object fields.
\<close>

lemma dumps_eq_iff: "dumps j = dumps j' \<longleftrightarrow> canon j = canon j'"
  unfolding dumps_def using render_inj by auto

end
