(* ===== verification/Domain_Values.thy ===== *)
theory Domain_Values
  imports Canonical_Json
begin

text \<open>
  The immutable values of core/domain.py up to \<open>WorkUnit\<close>: exceptions, lifecycles, budget, authority,
  policy references, input bindings and work units, each with its constructor and its payload.

  A constructor \<open>mk_X\<close> is the class's \<open>__init__\<close>: it raises (\<open>Inl\<close>) or returns the normalised value.
  The run-time type tests and the sealing of the classes have no counterpart, since HOL values are
  typed and immutable. \<open>wf_X\<close> says that a value is one the constructor returns.

  Every digest goes through a hash function \<open>H\<close> (SHA-256 in the program), a parameter of the model.
\<close>

section \<open>Exceptions, lifecycles and actions\<close>

text \<open>The exception classes; the last two are Python's own lookup failures.\<close>

datatype domain_error =
    InvalidDomainValue
  | InvalidGraph
  | MissingReference
  | MissingInput
  | CycleDetected
  | StaleRevision
  | IllegalTransition
  | AuthorityViolation
  | BudgetExceeded
  | DuplicateAttempt
  | KeyError
  | IndexError

type_synonym 'a dres = "domain_error + 'a"
type_synonym hash = "string \<Rightarrow> string"

datatype program_status =
  ProgramDraft | ProgramActive | ProgramPaused | ProgramCompleted | ProgramCancelled

datatype work_unit_status = UnitPending | UnitReady | UnitActive | UnitSatisfied | UnitCancelled

datatype attempt_status =
  AttemptPrepared | AttemptExecuting | AttemptFinished | AttemptFailed | AttemptCancelled

datatype domain_action =
    ACTIVATE_PROGRAM | PAUSE_PROGRAM | RESUME_PROGRAM | CANCEL_PROGRAM | CANCEL_WORK_UNIT
  | PREPARE_ATTEMPT | START_ATTEMPT | FINISH_ATTEMPT | FAIL_ATTEMPT | CANCEL_ATTEMPT
  | SATISFY_WORK_UNIT | AMEND_SPEC

fun action_value :: "domain_action \<Rightarrow> string" where
  "action_value ACTIVATE_PROGRAM = ''activate_program''"
| "action_value PAUSE_PROGRAM = ''pause_program''"
| "action_value RESUME_PROGRAM = ''resume_program''"
| "action_value CANCEL_PROGRAM = ''cancel_program''"
| "action_value CANCEL_WORK_UNIT = ''cancel_work_unit''"
| "action_value PREPARE_ATTEMPT = ''prepare_attempt''"
| "action_value START_ATTEMPT = ''start_attempt''"
| "action_value FINISH_ATTEMPT = ''finish_attempt''"
| "action_value FAIL_ATTEMPT = ''fail_attempt''"
| "action_value CANCEL_ATTEMPT = ''cancel_attempt''"
| "action_value SATISFY_WORK_UNIT = ''satisfy_work_unit''"
| "action_value AMEND_SPEC = ''amend_spec''"

lemma inj_action_value: "inj action_value"
proof (rule injI)
  fix x y assume "action_value x = action_value y"
  then show "x = y" by (cases x; cases y) simp_all
qed

text \<open>\<open>frozenset(DomainAction)\<close>, the default of \<open>AuthorityEnvelope\<close>.\<close>

definition all_actions :: "domain_action fset" where
  "all_actions = {|ACTIVATE_PROGRAM, PAUSE_PROGRAM, RESUME_PROGRAM, CANCEL_PROGRAM, CANCEL_WORK_UNIT,
     PREPARE_ATTEMPT, START_ATTEMPT, FINISH_ATTEMPT, FAIL_ATTEMPT, CANCEL_ATTEMPT,
     SATISFY_WORK_UNIT, AMEND_SPEC|}"

section \<open>Local checks\<close>

text \<open>\<open>_revision\<close>\<close>

definition revision_ok :: "bool \<Rightarrow> int \<Rightarrow> bool" where
  "revision_ok allow_zero v \<longleftrightarrow> \<not> v < (if allow_zero then 0 else 1)"

text \<open>\<open>_immutable_strings\<close>\<close>

definition strings_ok :: "string fset \<Rightarrow> bool" where
  "strings_ok vs \<longleftrightarrow> fBall vs nonblank"

text \<open>\<open>_criteria\<close>\<close>

definition criteria :: "string list \<Rightarrow> string list dres" where
  "criteria vs =
     (if \<not> list_all nonblank vs then Inl InvalidDomainValue
      else if length vs \<noteq> length (remdups vs) then Inl InvalidDomainValue
      else Inr (sort vs))"

text \<open>\<open>_digest\<close>\<close>

definition json_digest :: "hash \<Rightarrow> json \<Rightarrow> string" where
  "json_digest H j = H (dumps j)"

text \<open>A digest is never blank: \<open>hexdigest()\<close> has 64 hexadecimal characters.\<close>

definition digest_like :: "hash \<Rightarrow> bool" where
  "digest_like H \<longleftrightarrow> (\<forall>s. nonblank (H s))"

section \<open>Budget and authority\<close>

record budget_policy =
  bp_max_attempts :: int
  bp_max_active_attempts :: int

definition mk_BudgetPolicy :: "int \<Rightarrow> int \<Rightarrow> budget_policy dres" where
  "mk_BudgetPolicy max_attempts max_active_attempts =
     (if \<not> revision_ok True max_attempts then Inl InvalidDomainValue
      else if \<not> revision_ok True max_active_attempts then Inl InvalidDomainValue
      else Inr \<lparr>bp_max_attempts = max_attempts, bp_max_active_attempts = max_active_attempts\<rparr>)"

definition wf_budget :: "budget_policy \<Rightarrow> bool" where
  "wf_budget b \<longleftrightarrow> 0 \<le> bp_max_attempts b \<and> 0 \<le> bp_max_active_attempts b"

record authority_envelope =
  ae_owner_id :: string
  ae_allowed_actions :: "domain_action fset"
  ae_max_attempts :: int
  ae_trusted_satisfaction_issuers :: "string fset"
  ae_delegated_actor_ids :: "string fset"

definition mk_AuthorityEnvelope ::
  "string \<Rightarrow> domain_action fset \<Rightarrow> int \<Rightarrow> string fset \<Rightarrow> string fset \<Rightarrow> authority_envelope dres" where
  "mk_AuthorityEnvelope owner_id allowed_actions max_attempts issuers delegated =
     (if \<not> nonblank owner_id then Inl InvalidDomainValue
      else if \<not> revision_ok True max_attempts then Inl InvalidDomainValue
      else if \<not> strings_ok issuers then Inl InvalidDomainValue
      else if \<not> strings_ok delegated then Inl InvalidDomainValue
      else if issuers |\<inter>| delegated \<noteq> {||} then Inl InvalidDomainValue
      else Inr \<lparr>ae_owner_id = owner_id, ae_allowed_actions = allowed_actions,
             ae_max_attempts = max_attempts, ae_trusted_satisfaction_issuers = issuers,
             ae_delegated_actor_ids = delegated\<rparr>)"

definition wf_authority :: "authority_envelope \<Rightarrow> bool" where
  "wf_authority a \<longleftrightarrow> nonblank (ae_owner_id a) \<and> 0 \<le> ae_max_attempts a
     \<and> strings_ok (ae_trusted_satisfaction_issuers a) \<and> strings_ok (ae_delegated_actor_ids a)
     \<and> ae_trusted_satisfaction_issuers a |\<inter>| ae_delegated_actor_ids a = {||}"

definition authority_payload :: "authority_envelope \<Rightarrow> json" where
  "authority_payload a = JObj [
     (''owner_id'', JStr (ae_owner_id a)),
     (''allowed_actions'',
       JList (map JStr (sorted_list_of_fset (action_value |`| ae_allowed_actions a)))),
     (''max_attempts'', JInt (ae_max_attempts a)),
     (''trusted_satisfaction_issuers'',
       JList (map JStr (sorted_list_of_fset (ae_trusted_satisfaction_issuers a)))),
     (''delegated_actor_ids'', JList (map JStr (sorted_list_of_fset (ae_delegated_actor_ids a))))]"

section \<open>Policy references\<close>

record policy_reference =
  pr_policy_id :: string
  pr_version :: string
  pr_digest :: string

definition mk_PolicyReference :: "string \<Rightarrow> string \<Rightarrow> string \<Rightarrow> policy_reference dres" where
  "mk_PolicyReference policy_id version digest =
     (if \<not> (nonblank policy_id \<and> nonblank version \<and> nonblank digest) then Inl InvalidDomainValue
      else Inr \<lparr>pr_policy_id = policy_id, pr_version = version, pr_digest = digest\<rparr>)"

definition wf_policy :: "policy_reference \<Rightarrow> bool" where
  "wf_policy r \<longleftrightarrow> nonblank (pr_policy_id r) \<and> nonblank (pr_version r) \<and> nonblank (pr_digest r)"

definition policy_payload :: "policy_reference \<Rightarrow> json" where
  "policy_payload r = JObj [(''policy_id'', JStr (pr_policy_id r)), (''version'', JStr (pr_version r)),
     (''digest'', JStr (pr_digest r))]"

abbreviation policy_key :: "policy_reference \<Rightarrow> string \<times> string \<times> string" where
  "policy_key r \<equiv> (pr_policy_id r, pr_version r, pr_digest r)"

definition policies :: "policy_reference list \<Rightarrow> policy_reference list dres" where
  "policies refs =
     (if length (remdups (map policy_key refs)) \<noteq> length refs then Inl InvalidDomainValue
      else Inr (sort_key policy_key refs))"

section \<open>Input bindings\<close>

record input_binding =
  ib_name :: string
  ib_reference :: string
  ib_source_kind :: string
  ib_source_work_unit_id :: "string option"
  ib_satisfaction_id :: "string option"
  ib_output_name :: "string option"

definition mk_InputBinding ::
  "string \<Rightarrow> string \<Rightarrow> string \<Rightarrow> string option \<Rightarrow> string option \<Rightarrow> string option \<Rightarrow> input_binding dres" where
  "mk_InputBinding name reference source_kind source_work_unit_id satisfaction_id output_name =
     (let binding = \<lparr>ib_name = name, ib_reference = reference, ib_source_kind = source_kind,
          ib_source_work_unit_id = source_work_unit_id, ib_satisfaction_id = satisfaction_id,
          ib_output_name = output_name\<rparr>
      in if \<not> nonblank name then Inl InvalidDomainValue
      else if \<not> nonblank reference then Inl InvalidDomainValue
      else if source_kind = ''initial'' then
        (if source_work_unit_id \<noteq> None \<or> satisfaction_id \<noteq> None \<or> output_name \<noteq> None
         then Inl InvalidDomainValue else Inr binding)
      else if source_kind = ''predecessor'' then
        (case (source_work_unit_id, satisfaction_id, output_name) of
           (Some w, Some s, Some out) \<Rightarrow>
             if \<not> (nonblank w \<and> nonblank s \<and> nonblank out) then Inl InvalidDomainValue
             else if out \<noteq> name then Inl InvalidDomainValue else Inr binding
         | _ \<Rightarrow> Inl InvalidDomainValue)
      else Inl InvalidDomainValue)"

definition wf_binding :: "input_binding \<Rightarrow> bool" where
  "wf_binding b \<longleftrightarrow> nonblank (ib_name b) \<and> nonblank (ib_reference b) \<and>
     (ib_source_kind b = ''initial'' \<and> ib_source_work_unit_id b = None \<and> ib_satisfaction_id b = None
        \<and> ib_output_name b = None
      \<or> ib_source_kind b = ''predecessor'' \<and> ib_output_name b = Some (ib_name b)
        \<and> (\<exists>w s. ib_source_work_unit_id b = Some w \<and> nonblank w
             \<and> ib_satisfaction_id b = Some s \<and> nonblank s))"

definition binding_payload :: "input_binding \<Rightarrow> json" where
  "binding_payload b = JObj [
     (''name'', JStr (ib_name b)),
     (''reference'', JStr (ib_reference b)),
     (''source_kind'', JStr (ib_source_kind b)),
     (''source_work_unit_id'', JOptStr (ib_source_work_unit_id b)),
     (''satisfaction_id'', JOptStr (ib_satisfaction_id b)),
     (''output_name'', JOptStr (ib_output_name b))]"

definition subject ::
  "input_binding \<Rightarrow> string \<times> string \<times> string \<times> string option \<times> string option" where
  "subject b = (ib_name b, ib_reference b, ib_source_kind b, ib_source_work_unit_id b, ib_output_name b)"

definition bindings :: "input_binding list \<Rightarrow> input_binding list dres" where
  "bindings vs =
     (if length (remdups (map ib_name vs)) \<noteq> length vs then Inl InvalidDomainValue
      else Inr (sort_key ib_name vs))"

definition default_budget :: budget_policy where
  "default_budget = \<lparr>bp_max_attempts = 3, bp_max_active_attempts = 1\<rparr>"

definition default_authority :: authority_envelope where
  "default_authority = \<lparr>ae_owner_id = ''owner'', ae_allowed_actions = all_actions,
     ae_max_attempts = 3, ae_trusted_satisfaction_issuers = {||}, ae_delegated_actor_ids = {||}\<rparr>"

section \<open>Work units\<close>

record work_unit =
  wu_work_unit_id :: string
  wu_obligation :: string
  wu_dependencies :: "string list"
  wu_required_inputs :: "string fset"
  wu_outputs :: "string fset"
  wu_acceptance_criteria :: "string list"
  wu_acceptance_policy_reference :: "policy_reference option"

definition mk_WorkUnit ::
  "string \<Rightarrow> string \<Rightarrow> string list \<Rightarrow> string fset \<Rightarrow> string fset \<Rightarrow> string list
   \<Rightarrow> policy_reference option \<Rightarrow> work_unit dres" where
  "mk_WorkUnit work_unit_id obligation dependencies required_inputs outputs acceptance_criteria policy =
     (if \<not> nonblank work_unit_id then Inl InvalidDomainValue
      else if \<not> nonblank obligation then Inl InvalidDomainValue
      else if \<not> list_all nonblank dependencies
        \<or> length (remdups dependencies) \<noteq> length dependencies then Inl InvalidDomainValue
      else if \<not> strings_ok required_inputs then Inl InvalidDomainValue
      else if \<not> strings_ok outputs then Inl InvalidDomainValue
      else rbind (criteria acceptance_criteria) (\<lambda>crit.
        if crit = [] \<and> policy = None then Inl InvalidDomainValue
        else if required_inputs |\<inter>| outputs \<noteq> {||} then Inl InvalidDomainValue
        else Inr \<lparr>wu_work_unit_id = work_unit_id, wu_obligation = obligation,
               wu_dependencies = sort dependencies, wu_required_inputs = required_inputs,
               wu_outputs = outputs, wu_acceptance_criteria = crit,
               wu_acceptance_policy_reference = policy\<rparr>))"

definition work_unit_payload :: "work_unit \<Rightarrow> json" where
  "work_unit_payload u = JObj [
     (''work_unit_id'', JStr (wu_work_unit_id u)),
     (''obligation'', JStr (wu_obligation u)),
     (''dependencies'', JList (map JStr (wu_dependencies u))),
     (''required_inputs'', JList (map JStr (sorted_list_of_fset (wu_required_inputs u)))),
     (''outputs'', JList (map JStr (sorted_list_of_fset (wu_outputs u)))),
     (''acceptance_criteria'', JList (map JStr (wu_acceptance_criteria u))),
     (''acceptance_policy_reference'', (case wu_acceptance_policy_reference u of
        None \<Rightarrow> JNull | Some r \<Rightarrow> policy_payload r))]"

definition work_unit_digest :: "hash \<Rightarrow> work_unit \<Rightarrow> string" where
  "work_unit_digest H u = json_digest H (work_unit_payload u)"

section \<open>What the constructors establish\<close>

definition wf_criteria :: "string list \<Rightarrow> bool" where
  "wf_criteria cs \<longleftrightarrow> list_all nonblank cs \<and> distinct cs \<and> sorted cs"

definition wf_policies :: "policy_reference list \<Rightarrow> bool" where
  "wf_policies rs \<longleftrightarrow> list_all wf_policy rs \<and> distinct (map policy_key rs) \<and> sorted (map policy_key rs)"

definition wf_bindings :: "input_binding list \<Rightarrow> bool" where
  "wf_bindings bs \<longleftrightarrow> list_all wf_binding bs \<and> distinct (map ib_name bs) \<and> sorted (map ib_name bs)"

definition wf_work_unit :: "work_unit \<Rightarrow> bool" where
  "wf_work_unit u \<longleftrightarrow> nonblank (wu_work_unit_id u) \<and> nonblank (wu_obligation u)
     \<and> wf_criteria (wu_dependencies u) \<and> strings_ok (wu_required_inputs u) \<and> strings_ok (wu_outputs u)
     \<and> wf_criteria (wu_acceptance_criteria u) \<and> pred_option wf_policy (wu_acceptance_policy_reference u)
     \<and> (wu_acceptance_criteria u \<noteq> [] \<or> wu_acceptance_policy_reference u \<noteq> None)
     \<and> wu_required_inputs u |\<inter>| wu_outputs u = {||}"

lemma criteria_Inr_iff: "criteria vs = Inr cs \<longleftrightarrow> list_all nonblank vs \<and> distinct vs \<and> cs = sort vs"
  by (auto simp: criteria_def)

lemma policies_Inr_iff:
  "policies rs = Inr ps \<longleftrightarrow> distinct (map policy_key rs) \<and> ps = sort_key policy_key rs"
  using length_remdups_distinct[of "map policy_key rs"] by (auto simp: policies_def)

lemma bindings_Inr_iff:
  "bindings bs = Inr cs \<longleftrightarrow> distinct (map ib_name bs) \<and> cs = sort_key ib_name bs"
  using length_remdups_distinct[of "map ib_name bs"] by (auto simp: bindings_def)

lemma criteria_wf: "criteria vs = Inr cs \<Longrightarrow> wf_criteria cs"
  by (auto simp: criteria_Inr_iff wf_criteria_def list_all_iff)

lemma policies_wf: "policies rs = Inr ps \<Longrightarrow> list_all wf_policy rs \<Longrightarrow> wf_policies ps"
  by (auto simp: policies_Inr_iff wf_policies_def list_all_iff)

lemma bindings_wf: "bindings vs = Inr bs \<Longrightarrow> list_all wf_binding vs \<Longrightarrow> wf_bindings bs"
  by (auto simp: bindings_Inr_iff wf_bindings_def list_all_iff)

lemma criteria_fixpoint: "wf_criteria cs \<Longrightarrow> criteria cs = Inr cs"
  by (simp add: criteria_Inr_iff wf_criteria_def sorted_sort_id)

lemma policies_fixpoint: "wf_policies rs \<Longrightarrow> policies rs = Inr rs"
  by (simp add: policies_Inr_iff wf_policies_def sort_key_id_if_sorted)

lemma bindings_fixpoint: "wf_bindings bs \<Longrightarrow> bindings bs = Inr bs"
  by (simp add: bindings_Inr_iff wf_bindings_def sort_key_id_if_sorted)

lemma mk_BudgetPolicy_wf: "mk_BudgetPolicy a b = Inr v \<Longrightarrow> wf_budget v"
  by (auto simp: mk_BudgetPolicy_def wf_budget_def revision_ok_def split: if_splits)

lemma mk_AuthorityEnvelope_wf: "mk_AuthorityEnvelope a b c d e = Inr v \<Longrightarrow> wf_authority v"
  by (auto simp: mk_AuthorityEnvelope_def wf_authority_def revision_ok_def split: if_splits)

lemma mk_PolicyReference_wf: "mk_PolicyReference a b c = Inr v \<Longrightarrow> wf_policy v"
  by (auto simp: mk_PolicyReference_def wf_policy_def split: if_splits)

lemma mk_InputBinding_wf: "mk_InputBinding a b c d e f = Inr v \<Longrightarrow> wf_binding v"
  by (auto simp: mk_InputBinding_def wf_binding_def Let_def split: if_splits option.splits)

lemma mk_InputBinding_predecessor [simp]:
  "nonblank n \<Longrightarrow> nonblank r \<Longrightarrow> nonblank w \<Longrightarrow> nonblank s \<Longrightarrow>
   mk_InputBinding n r ''predecessor'' (Some w) (Some s) (Some n) =
     Inr \<lparr>ib_name = n, ib_reference = r, ib_source_kind = ''predecessor'',
       ib_source_work_unit_id = Some w, ib_satisfaction_id = Some s, ib_output_name = Some n\<rparr>"
  by (simp add: mk_InputBinding_def)

lemma mk_WorkUnit_wf:
  "mk_WorkUnit a b c d e f g = Inr u \<Longrightarrow> pred_option wf_policy g \<Longrightarrow> wf_work_unit u"
  by (auto simp: mk_WorkUnit_def wf_work_unit_def res_simps wf_criteria_def criteria_Inr_iff
      list_all_iff split: if_splits)

end
