(* ===== verification/Domain_Graph.thy ===== *)
theory Domain_Graph
  imports Domain_Values
begin

text \<open>
  The work-unit graph: \<open>_topological_order\<close> of core/domain.py and the predecessor closure that
  \<open>work_unit_applicability_fingerprint\<close> computes. The loops are proved to stop; the order lists every
  unit once with its dependencies first; a cycle is reported exactly when there is one; the closure is
  the set of transitive predecessors.
\<close>

section \<open>Topological order\<close>

text \<open>
  \<open>remaining\<close> is the dictionary of units not yet placed with the dependencies they still wait for.
\<close>

function topo_loop :: "(string \<times> string list) list \<Rightarrow> string list \<Rightarrow> string list dres" where
  "topo_loop remaining ordered =
     (if remaining = [] then Inr ordered
      else let ready = sort (map fst (filter (\<lambda>(name, deps). deps = []) remaining)) in
        if ready = [] then Inl CycleDetected
        else topo_loop
          (map (\<lambda>(name, deps). (name, filter (\<lambda>d. d \<notin> set ready) deps))
            (filter (\<lambda>(name, deps). name \<notin> set ready) remaining))
          (ordered @ ready))"
  by pat_completeness auto
termination
proof (relation "measure (\<lambda>(remaining, ordered). length remaining)", goal_cases)
  case (2 remaining ordered ready)
  then obtain name where "name \<in> set ready" by (metis list.set_intros(1) neq_Nil_conv)
  with 2(2) have "(name, []) \<in> set remaining" "name \<in> set ready" by auto
  then have "length (filter (\<lambda>(n, deps). n \<notin> set ready) remaining) < length remaining"
    by (intro length_filter_less[of "(name, [])"]) auto
  then show ?case by simp
qed simp

declare topo_loop.simps [simp del]

definition topological_order :: "work_unit list \<Rightarrow> string list dres" where
  "topological_order units = topo_loop (map (\<lambda>u. (wu_work_unit_id u, wu_dependencies u)) units) []"

section \<open>Predecessor closure\<close>

text \<open>
  The \<open>while pending\<close> loop of the fingerprint: \<open>pending\<close> is a stack whose top is the end of the
  Python list, here the head; \<open>closure\<close> lists the set without repetition.
\<close>

function closure_loop ::
  "(string \<times> work_unit) list \<Rightarrow> string list \<Rightarrow> string list \<Rightarrow> string list dres" where
  "closure_loop by_id [] closure = Inr closure"
| "closure_loop by_id (predecessor # pending) closure =
     (if predecessor \<in> set closure then closure_loop by_id pending closure
      else (case map_of by_id predecessor of
          None \<Rightarrow> Inl KeyError
        | Some u \<Rightarrow> closure_loop by_id (rev (wu_dependencies u) @ pending) (closure @ [predecessor])))"
  by pat_completeness auto
termination
proof (relation "measures [\<lambda>(by_id, pending, closure). card (fst ` set by_id - set closure),
    \<lambda>(by_id, pending, closure). length pending]", goal_cases)
  case (3 by_id predecessor pending closure u)
  then have "predecessor \<in> fst ` set by_id - set closure"
    by (metis DiffI image_eqI map_of_SomeD prod.sel(1))
  then have "card (fst ` set by_id - set (closure @ [predecessor])) < card (fst ` set by_id - set closure)"
    by (intro psubset_card_mono) auto
  then show ?case by simp
qed auto

definition closure_of :: "work_unit list \<Rightarrow> work_unit \<Rightarrow> string list dres" where
  "closure_of units target =
     closure_loop (map (\<lambda>u. (wu_work_unit_id u, u)) units)
       (rev (wu_dependencies target)) [wu_work_unit_id target]"

section \<open>The order is topological\<close>

abbreviation unit_ids :: "work_unit list \<Rightarrow> string list" where
  "unit_ids units \<equiv> map wu_work_unit_id units"

text \<open>\<open>places_before d n order\<close>: \<open>d\<close> stands before \<open>n\<close> in the order.\<close>

definition places_before :: "string \<Rightarrow> string \<Rightarrow> string list \<Rightarrow> bool" where
  "places_before d n order \<longleftrightarrow> (\<exists>xs ys. order = xs @ n # ys \<and> d \<in> set xs)"

text \<open>
  The loop invariant: units placed and units remaining are the units of the graph, each once, and a
  remaining unit waits for exactly those of its dependencies that are not placed yet.
\<close>

definition topo_inv :: "(string \<times> string list) list \<Rightarrow> (string \<times> string list) list \<Rightarrow> string list \<Rightarrow> bool"
  where
  "topo_inv g remaining ordered \<longleftrightarrow>
     distinct (map fst remaining @ ordered) \<and> set (map fst remaining) \<union> set ordered = set (map fst g)
     \<and> (\<forall>(n, ds) \<in> set remaining. \<exists>ds0. (n, ds0) \<in> set g \<and> set ds = set ds0 - set ordered)
     \<and> (\<forall>(n, ds) \<in> set g. n \<in> set ordered \<longrightarrow> (\<forall>d \<in> set ds. places_before d n ordered))"

abbreviation topo_ready :: "(string \<times> string list) list \<Rightarrow> string list" where
  "topo_ready remaining \<equiv> sort (map fst (filter (\<lambda>(name, deps). deps = []) remaining))"

abbreviation topo_rest :: "(string \<times> string list) list \<Rightarrow> string list \<Rightarrow> (string \<times> string list) list" where
  "topo_rest remaining ready \<equiv>
     map (\<lambda>(name, deps). (name, filter (\<lambda>d. d \<notin> set ready) deps))
       (filter (\<lambda>(name, deps). name \<notin> set ready) remaining)"

lemma map_fst_topo_rest: "map fst (topo_rest remaining ready) = filter (\<lambda>n. n \<notin> set ready) (map fst remaining)"
  by (induction remaining) auto

lemma topo_rest_mem:
  "(n, ds) \<in> set (topo_rest remaining ready) \<Longrightarrow>
   \<exists>ds1. (n, ds1) \<in> set remaining \<and> set ds = set ds1 - set ready"
  by auto

lemma places_before_append: "places_before d n xs \<Longrightarrow> places_before d n (xs @ ys)"
  by (force simp: places_before_def)

lemma places_before_new:
  assumes "d \<in> set xs" and "n \<in> set ys"
  shows "places_before d n (xs @ ys)"
proof -
  from assms(2) obtain us vs where "ys = us @ n # vs" by (auto dest: split_list)
  then have "xs @ ys = (xs @ us) @ n # vs" "d \<in> set (xs @ us)" using assms(1) by auto
  then show ?thesis unfolding places_before_def by blast
qed

lemma topo_inv_step:
  assumes inv: "topo_inv g remaining ordered" and dg: "distinct (map fst g)"
  shows "topo_inv g (topo_rest remaining (topo_ready remaining)) (ordered @ topo_ready remaining)"
proof -
  let ?ready = "topo_ready remaining"
  let ?rest = "topo_rest remaining ?ready"
  have rdy: "set ?ready = {n. (n, []) \<in> set remaining}" by (force simp: image_iff)
  have dist: "distinct (map fst remaining)" "distinct ordered"
      "set (map fst remaining) \<inter> set ordered = {}"
    using inv by (auto simp: topo_inv_def)
  have "distinct ?ready"
    using dist(1) by (simp add: distinct_map_filter)
  then have 1: "distinct (map fst ?rest @ ordered @ ?ready)"
    using dist rdy by (subst map_fst_topo_rest) (auto simp: rev_image_eqI)
  have 2: "set (map fst ?rest) \<union> set (ordered @ ?ready) = set (map fst g)"
  proof -
    have "set (map fst ?rest) = set (map fst remaining) - set ?ready"
      by (simp only: map_fst_topo_rest set_filter) auto
    moreover have "set ?ready \<subseteq> set (map fst remaining)" by force
    ultimately show ?thesis using inv by (auto simp: topo_inv_def)
  qed
  have 3: "\<exists>ds0. (n, ds0) \<in> set g \<and> set ds = set ds0 - set (ordered @ ?ready)"
    if "(n, ds) \<in> set ?rest" for n ds
  proof -
    from topo_rest_mem[OF that] obtain ds1
      where "(n, ds1) \<in> set remaining" "set ds = set ds1 - set ?ready" by blast
    with inv show ?thesis by (fastforce simp: topo_inv_def)
  qed
  have 4: "places_before d n (ordered @ ?ready)"
    if g: "(n, ds) \<in> set g" "n \<in> set (ordered @ ?ready)" "d \<in> set ds" for n ds d
  proof (cases "n \<in> set ordered")
    case True
    then have "places_before d n ordered" using g inv by (fastforce simp: topo_inv_def)
    then show ?thesis by (rule places_before_append)
  next
    case False
    then have n: "n \<in> set ?ready" "(n, []) \<in> set remaining" using g(2) rdy by auto
    then obtain ds0 where "(n, ds0) \<in> set g" "set ds0 - set ordered = {}"
      using inv by (fastforce simp: topo_inv_def)
    then have "d \<in> set ordered" using g dg by (metis Diff_eq_empty_iff eq_key_imp_eq_value subsetD)
    then show ?thesis using n by (intro places_before_new)
  qed
  show ?thesis unfolding topo_inv_def using 1 2 3 4 by blast
qed

lemma topo_loop_Inr:
  assumes "topo_inv g remaining ordered" and "distinct (map fst g)"
    and "topo_loop remaining ordered = Inr order"
  shows "topo_inv g [] order"
  using assms
proof (induction remaining ordered rule: topo_loop.induct)
  case (1 remaining ordered)
  show ?case
  proof (cases "remaining = []")
    case True
    with "1.prems" show ?thesis by (simp add: topo_loop.simps)
  next
    case False
    with "1.prems" have "topo_ready remaining \<noteq> []"
      "topo_loop (topo_rest remaining (topo_ready remaining)) (ordered @ topo_ready remaining) = Inr order"
      by (auto simp: topo_loop.simps[of remaining] Let_def split: if_splits)
    then show ?thesis
      using "1.IH"[OF False refl] topo_inv_step[OF "1.prems"(1,2)] "1.prems"(2) by blast
  qed
qed

text \<open>The dependency relation of a list of units.\<close>

definition dep_rel :: "work_unit list \<Rightarrow> (string \<times> string) set" where
  "dep_rel units = {(d, wu_work_unit_id u) | d u. u \<in> set units \<and> d \<in> set (wu_dependencies u)}"

abbreviation unit_graph :: "work_unit list \<Rightarrow> (string \<times> string list) list" where
  "unit_graph units \<equiv> map (\<lambda>u. (wu_work_unit_id u, wu_dependencies u)) units"

lemma map_fst_unit_graph [simp]: "map fst (unit_graph units) = unit_ids units"
  by (simp add: comp_def)

lemma topo_inv_start: "distinct (unit_ids units) \<Longrightarrow> topo_inv (unit_graph units) (unit_graph units) []"
  by (auto simp: topo_inv_def comp_def)

lemma topological_order_sound:
  assumes "distinct (unit_ids units)" and "topological_order units = Inr order"
  shows "distinct order" and "set order = set (unit_ids units)"
    and "u \<in> set units \<Longrightarrow> d \<in> set (wu_dependencies u) \<Longrightarrow> places_before d (wu_work_unit_id u) order"
proof -
  have "topo_inv (unit_graph units) [] order"
    using assms topo_inv_start[OF assms(1)]
    by (intro topo_loop_Inr[where remaining = "unit_graph units" and ordered = "[]"])
      (auto simp: topological_order_def comp_def)
  then show "distinct order" "set order = set (unit_ids units)"
      "u \<in> set units \<Longrightarrow> d \<in> set (wu_dependencies u) \<Longrightarrow> places_before d (wu_work_unit_id u) order"
    unfolding topo_inv_def by (auto simp: comp_def)
qed

lemma places_before_distinct:
  assumes "distinct order" and "places_before d n order"
  obtains i j where "i < j" "j < length order" "order ! i = d" "order ! j = n"
proof -
  from assms(2) obtain xs ys where o: "order = xs @ n # ys" and "d \<in> set xs"
    by (auto simp: places_before_def)
  then obtain i where "i < length xs" "xs ! i = d" by (auto simp: in_set_conv_nth)
  then show ?thesis using that[of i "length xs"] o by (auto simp: nth_append)
qed

lemma topological_order_acyclic:
  assumes "distinct (unit_ids units)" and "topological_order units = Inr order"
  shows "acyclic (dep_rel units)"
proof -
  have d: "distinct order" using assms topological_order_sound by blast
  let ?pos = "\<lambda>x. THE i. i < length order \<and> order ! i = x"
  have pos: "?pos (order ! i) = i" if "i < length order" for i
    using d that by (auto intro!: the_equality simp: nth_eq_iff_index_eq)
  have "?pos x < ?pos y" if "(x, y) \<in> dep_rel units" for x y
  proof -
    from that obtain u where "u \<in> set units" "x \<in> set (wu_dependencies u)" "y = wu_work_unit_id u"
      by (auto simp: dep_rel_def)
    then have "places_before x y order" using topological_order_sound[OF assms] by blast
    then obtain i j where ij: "i < j" "j < length order" "order ! i = x" "order ! j = y"
      using places_before_distinct[OF d] by blast
    from pos[of i] pos[of j] ij have "?pos x = i" "?pos y = j" by auto
    with ij show ?thesis by simp
  qed
  then have "dep_rel units \<subseteq> measure ?pos" by (auto simp: measure_def inv_image_def)
  then have "wf (dep_rel units)" using wf_measure wf_subset by blast
  then show ?thesis by (rule wf_acyclic)
qed

lemma topo_loop_acyclic:
  assumes "topo_inv (unit_graph units) remaining ordered" and "distinct (unit_ids units)"
    and closed: "\<And>u d. u \<in> set units \<Longrightarrow> d \<in> set (wu_dependencies u) \<Longrightarrow> d \<in> set (unit_ids units)"
    and "acyclic (dep_rel units)"
  shows "\<exists>order. topo_loop remaining ordered = Inr order"
  using assms(1)
proof (induction remaining ordered rule: topo_loop.induct)
  case (1 remaining ordered)
  show ?case
  proof (cases "remaining = []")
    case True
    then show ?thesis by (simp add: topo_loop.simps)
  next
    case False
    have "finite (dep_rel units)"
      by (rule finite_subset[of _ "set (unit_ids units) \<times> set (unit_ids units)"])
        (use closed in \<open>auto simp: dep_rel_def\<close>)
    then have "wf (dep_rel units)" using assms(4) finite_acyclic_wf by blast
    moreover obtain x where "x \<in> set (map fst remaining)" using False by (cases remaining) auto
    ultimately obtain n where n: "n \<in> set (map fst remaining)"
        and min: "\<And>d. (d, n) \<in> dep_rel units \<Longrightarrow> d \<notin> set (map fst remaining)"
      by (metis wf_eq_minimal)
    then obtain ds where ds: "(n, ds) \<in> set remaining" by auto
    with "1.prems" obtain ds0 where ds0: "(n, ds0) \<in> set (unit_graph units)" "set ds = set ds0 - set ordered"
      by (fastforce simp: topo_inv_def)
    have "d \<in> set ordered" if "d \<in> set ds0" for d
    proof -
      from ds0(1) that have "(d, n) \<in> dep_rel units" by (auto simp: dep_rel_def)
      then have "d \<notin> set (map fst remaining)" by (rule min)
      moreover have "d \<in> set (map fst remaining) \<union> set ordered"
      proof -
        have "d \<in> set (unit_ids units)" using ds0(1) that closed by auto
        then show ?thesis using "1.prems" unfolding topo_inv_def map_fst_unit_graph by blast
      qed
      ultimately show ?thesis by blast
    qed
    then have "set ds0 \<subseteq> set ordered" by (rule subsetI)
    with ds0(2) have "ds = []" by (metis Diff_eq_empty_iff set_empty)
    with ds have "n \<in> set (topo_ready remaining)" by force
    then have ne: "topo_ready remaining \<noteq> []" by (metis empty_iff empty_set)
    then show ?thesis
      using "1.IH"[OF False refl ne] topo_inv_step[OF "1.prems"] False assms(2)
      by (simp add: topo_loop.simps[of remaining] Let_def comp_def)
  qed
qed

lemma topological_order_acyclic_iff:
  assumes "distinct (unit_ids units)"
    and "\<And>u d. u \<in> set units \<Longrightarrow> d \<in> set (wu_dependencies u) \<Longrightarrow> d \<in> set (unit_ids units)"
  shows "(\<exists>order. topological_order units = Inr order) \<longleftrightarrow> acyclic (dep_rel units)"
  using assms topological_order_acyclic topo_loop_acyclic[OF topo_inv_start[OF assms(1)] assms(1)]
  unfolding topological_order_def by blast

lemma topo_loop_error: "topo_loop remaining ordered = Inl e \<Longrightarrow> e = CycleDetected"
proof (induction remaining ordered rule: topo_loop.induct)
  case (1 remaining ordered)
  then show ?case
    by (subst (asm) (2) topo_loop.simps) (auto simp: Let_def split: if_splits)
qed

section \<open>The closure is the set of transitive predecessors\<close>

text \<open>\<open>dep_closed units R\<close>: with a unit, \<open>R\<close> holds everything the unit depends on.\<close>

definition dep_closed :: "work_unit list \<Rightarrow> string set \<Rightarrow> bool" where
  "dep_closed units R \<longleftrightarrow> (\<forall>u \<in> set units. wu_work_unit_id u \<in> R \<longrightarrow> set (wu_dependencies u) \<subseteq> R)"

abbreviation id_units :: "work_unit list \<Rightarrow> (string \<times> work_unit) list" where
  "id_units units \<equiv> map (\<lambda>u. (wu_work_unit_id u, u)) units"

lemma map_of_id_units_SomeD: "map_of (id_units units) k = Some u \<Longrightarrow> u \<in> set units \<and> wu_work_unit_id u = k"
  by (auto dest!: map_of_SomeD)

lemma map_of_id_units:
  "distinct (unit_ids units) \<Longrightarrow> u \<in> set units \<Longrightarrow> map_of (id_units units) (wu_work_unit_id u) = Some u"
  by (intro map_of_is_SomeI) (auto simp: comp_def)

lemma closure_loop_least:
  assumes "closure_loop (id_units units) pending closure = Inr res"
    and "set pending \<union> set closure \<subseteq> R" and "dep_closed units R"
  shows "set res \<subseteq> R"
  using assms
proof (induction "id_units units" pending closure arbitrary: res rule: closure_loop.induct)
  case (2 p pending closure)
  show ?case
  proof (cases "p \<in> set closure")
    case True
    then show ?thesis using 2(1)[OF True] 2(3-5) by simp
  next
    case False
    then obtain u where u: "map_of (id_units units) p = Some u"
      "closure_loop (id_units units) (rev (wu_dependencies u) @ pending) (closure @ [p]) = Inr res"
      using 2(3) by (auto split: option.splits)
    then have "set (wu_dependencies u) \<subseteq> R"
      using 2(4,5) by (auto simp: dep_closed_def dest!: map_of_id_units_SomeD)
    then show ?thesis using 2(2)[OF False u] 2(4,5) by simp
  qed
qed auto

lemma closure_loop_closed:
  assumes "closure_loop (id_units units) pending closure = Inr res" and "distinct (unit_ids units)"
    and "\<And>u. u \<in> set units \<Longrightarrow> wu_work_unit_id u \<in> set closure \<Longrightarrow>
      set (wu_dependencies u) \<subseteq> set closure \<union> set pending"
  shows "set closure \<union> set pending \<subseteq> set res \<and> dep_closed units (set res)"
  using assms
proof (induction "id_units units" pending closure arbitrary: res rule: closure_loop.induct)
  case (1 closure)
  then show ?case by (auto simp: dep_closed_def)
next
  case (2 p pending closure)
  show ?case
  proof (cases "p \<in> set closure")
    case True
    have "set closure \<union> set pending \<subseteq> set res \<and> dep_closed units (set res)"
      using 2(1)[OF True] 2(3-5) True by fastforce
    with True show ?thesis by auto
  next
    case False
    then obtain u where u: "map_of (id_units units) p = Some u"
      "closure_loop (id_units units) (rev (wu_dependencies u) @ pending) (closure @ [p]) = Inr res"
      using 2(3) by (auto split: option.splits)
    have "set (wu_dependencies v) \<subseteq> set (closure @ [p]) \<union> set (rev (wu_dependencies u) @ pending)"
      if v: "v \<in> set units" "wu_work_unit_id v \<in> set (closure @ [p])" for v
    proof (cases "wu_work_unit_id v = p")
      case True
      then have "v = u" using map_of_id_units[OF 2(4) v(1)] u(1) by simp
      then show ?thesis by auto
    next
      case False
      with v have "set (wu_dependencies v) \<subseteq> set closure \<union> set (p # pending)" by (intro 2(5)) auto
      then show ?thesis by auto
    qed
    then have "set (closure @ [p]) \<union> set (rev (wu_dependencies u) @ pending) \<subseteq> set res
        \<and> dep_closed units (set res)"
      by (rule 2(2)[OF False u(1) u(2) 2(4)])
    then show ?thesis by auto
  qed
qed

lemma closure_loop_distinct:
  "closure_loop by_id pending closure = Inr res \<Longrightarrow> distinct closure \<Longrightarrow> distinct res"
proof (induction by_id pending closure arbitrary: res rule: closure_loop.induct)
  case (2 by_id p pending closure)
  then show ?case
    by (cases "p \<in> set closure"; cases "map_of by_id p") simp_all
qed simp

lemma closure_loop_total:
  assumes "set pending \<subseteq> set (unit_ids units)"
    and "\<And>u. u \<in> set units \<Longrightarrow> set (wu_dependencies u) \<subseteq> set (unit_ids units)"
  shows "\<exists>res. closure_loop (id_units units) pending closure = Inr res"
  using assms
proof (induction "id_units units" pending closure rule: closure_loop.induct)
  case (2 p pending closure)
  show ?case
  proof (cases "p \<in> set closure")
    case True
    then show ?thesis using 2(1)[OF True] 2(3,4) by simp
  next
    case False
    have "p \<in> fst ` set (id_units units)" using 2(3) by (auto simp: image_image)
    then obtain u where u: "map_of (id_units units) p = Some u" by (metis map_of_eq_None_iff option.exhaust)
    then have "u \<in> set units" by (auto dest: map_of_id_units_SomeD)
    then show ?thesis using 2(2)[OF False u] 2(3,4) False u by auto
  qed
qed simp

text \<open>Transitive predecessors of a unit, itself included.\<close>

definition ancestors :: "work_unit list \<Rightarrow> string \<Rightarrow> string set" where
  "ancestors units n = {m. (m, n) \<in> (dep_rel units)\<^sup>*}"

lemma dep_closed_ancestors: "dep_closed units (ancestors units n)"
  unfolding dep_closed_def ancestors_def dep_rel_def
  by (auto intro: converse_rtrancl_into_rtrancl)

lemma ancestors_least:
  assumes "dep_closed units R" and "n \<in> R"
  shows "ancestors units n \<subseteq> R"
proof
  fix m assume "m \<in> ancestors units n"
  then have "(m, n) \<in> (dep_rel units)\<^sup>*" by (simp add: ancestors_def)
  then show "m \<in> R"
    by (induction rule: converse_rtrancl_induct)
      (use assms in \<open>auto simp: dep_closed_def dep_rel_def\<close>)
qed

lemma closure_of_ancestors:
  assumes "distinct (unit_ids units)" and "target \<in> set units" and "closure_of units target = Inr res"
  shows "set res = ancestors units (wu_work_unit_id target)" and "distinct res"
proof -
  let ?t = "wu_work_unit_id target"
  have uniq: "v = target" if "v \<in> set units" "wu_work_unit_id v = ?t" for v
    using that assms(1,2) by (meson distinct_map inj_onD)
  have "set [?t] \<union> set (rev (wu_dependencies target)) \<subseteq> set res \<and> dep_closed units (set res)"
    using assms(3) uniq unfolding closure_of_def
    by (intro closure_loop_closed[OF _ assms(1)]) auto
  then have "ancestors units ?t \<subseteq> set res" by (intro ancestors_least) auto
  moreover have "set (rev (wu_dependencies target)) \<union> set [?t] \<subseteq> ancestors units ?t"
    using assms(2) by (auto simp: ancestors_def dep_rel_def)
  then have "set res \<subseteq> ancestors units ?t"
    using assms(3) dep_closed_ancestors unfolding closure_of_def by (rule_tac closure_loop_least)
  ultimately show "set res = ancestors units ?t" by blast
  show "distinct res" using assms(3) unfolding closure_of_def by (rule closure_loop_distinct) simp
qed

lemma closure_of_total:
  assumes "target \<in> set units"
    and "\<And>u. u \<in> set units \<Longrightarrow> set (wu_dependencies u) \<subseteq> set (unit_ids units)"
  shows "\<exists>res. closure_of units target = Inr res"
  using assms unfolding closure_of_def by (intro closure_loop_total) auto

end
