(* ===== verification/Domain_Spec.thy ===== *)
theory Domain_Spec
  imports Domain_Graph
begin

text \<open>
  \<open>ProgramSpec\<close> of core/domain.py: the owner-approved snapshot, its constructor with the graph checks,
  its payloads and digests, the applicability fingerprint of a work unit and \<open>amend\<close> with
  \<open>SpecAmendment\<close>.
\<close>

section \<open>Program specifications\<close>

record program_spec =
  ps_program_id :: string
  ps_objective :: string
  ps_work_units :: "work_unit list"
  ps_initial_inputs :: "input_binding list"
  ps_budget :: budget_policy
  ps_authority :: authority_envelope
  ps_revision :: int
  ps_parent_digest :: "string option"
  ps_acceptance_criteria :: "string list"
  ps_policy_references :: "policy_reference list"

text \<open>
  The \<open>producers\<close> dictionary: \<open>None\<close> marks an approved initial input, \<open>Some u\<close> an output of unit \<open>u\<close>.
  The outputs of a unit are a set; the dictionary does not depend on the order they are visited in.
\<close>

type_synonym producers = "(string \<times> string option) list"

fun add_outputs :: "string \<Rightarrow> string list \<Rightarrow> producers \<Rightarrow> producers dres" where
  "add_outputs unit_id [] producers = Inr producers"
| "add_outputs unit_id (out # outs) producers =
     (if map_of producers out \<noteq> None then Inl InvalidGraph
      else add_outputs unit_id outs (AList.update out (Some unit_id) producers))"

fun collect_producers :: "string list \<Rightarrow> work_unit list \<Rightarrow> producers \<Rightarrow> producers dres" where
  "collect_producers ids [] producers = Inr producers"
| "collect_producers ids (u # us) producers =
     (if list_ex (\<lambda>d. d \<notin> set ids) (wu_dependencies u) then Inl MissingReference
      else rbind (add_outputs (wu_work_unit_id u) (sorted_list_of_fset (wu_outputs u)) producers)
        (collect_producers ids us))"

definition input_available :: "producers \<Rightarrow> work_unit \<Rightarrow> string \<Rightarrow> bool" where
  "input_available producers u name =
     (case map_of producers name of
        None \<Rightarrow> False
      | Some None \<Rightarrow> True
      | Some (Some source) \<Rightarrow> source \<in> set (wu_dependencies u))"

definition mk_ProgramSpec ::
  "string \<Rightarrow> string \<Rightarrow> work_unit list \<Rightarrow> input_binding list \<Rightarrow> budget_policy \<Rightarrow> authority_envelope
   \<Rightarrow> int \<Rightarrow> string option \<Rightarrow> string list \<Rightarrow> policy_reference list \<Rightarrow> program_spec dres" where
  "mk_ProgramSpec program_id objective work_units initial_inputs budget authority revision
     parent_digest acceptance_criteria policy_references =
     (if \<not> nonblank program_id then Inl InvalidDomainValue
      else if \<not> nonblank objective then Inl InvalidDomainValue
      else if work_units = [] then Inl InvalidDomainValue
      else if length (remdups (unit_ids work_units)) \<noteq> length work_units then Inl InvalidGraph
      else rbind (bindings initial_inputs) (\<lambda>inputs.
        if list_ex (\<lambda>i. ib_source_kind i \<noteq> ''initial'') inputs then Inl InvalidDomainValue
        else rbind (criteria acceptance_criteria) (\<lambda>crit.
        rbind (policies policy_references) (\<lambda>pols.
        if crit = [] \<or> pols = [] then Inl InvalidDomainValue
        else if \<not> revision_ok False revision then Inl InvalidDomainValue
        else if \<not> opt_nonblank parent_digest then Inl InvalidDomainValue
        else rbind (collect_producers (unit_ids work_units) work_units
            (map (\<lambda>i. (ib_name i, None)) inputs)) (\<lambda>producers.
        rbind (topological_order work_units) (\<lambda>order.
        if list_ex (\<lambda>u. fBex (wu_required_inputs u) (\<lambda>n. \<not> input_available producers u n)) work_units
        then Inl MissingInput
        else Inr \<lparr>ps_program_id = program_id, ps_objective = objective,
               ps_work_units = sort_key wu_work_unit_id work_units, ps_initial_inputs = inputs,
               ps_budget = budget, ps_authority = authority, ps_revision = revision,
               ps_parent_digest = parent_digest, ps_acceptance_criteria = crit,
               ps_policy_references = pols\<rparr>))))))"

definition semantic_payload :: "program_spec \<Rightarrow> json" where
  "semantic_payload s = JObj [
     (''program_id'', JStr (ps_program_id s)),
     (''objective'', JStr (ps_objective s)),
     (''acceptance_criteria'', JList (map JStr (ps_acceptance_criteria s))),
     (''policy_references'', JList (map policy_payload (ps_policy_references s))),
     (''work_units'', JList (map work_unit_payload (ps_work_units s))),
     (''initial_inputs'', JList (map binding_payload (ps_initial_inputs s))),
     (''budget'', JObj [
        (''max_attempts'', JInt (bp_max_attempts (ps_budget s))),
        (''max_active_attempts'', JInt (bp_max_active_attempts (ps_budget s)))]),
     (''authority'', authority_payload (ps_authority s))]"

definition spec_payload :: "program_spec \<Rightarrow> json" where
  "spec_payload s = (case semantic_payload s of
       JObj kvs \<Rightarrow> JObj (kvs @ [(''revision'', JInt (ps_revision s)),
         (''parent_digest'', JOptStr (ps_parent_digest s))])
     | j \<Rightarrow> j)"

definition spec_digest :: "hash \<Rightarrow> program_spec \<Rightarrow> string" where
  "spec_digest H s = json_digest H (spec_payload s)"

definition spec_topological_order :: "program_spec \<Rightarrow> string list dres" where
  "spec_topological_order s = topological_order (ps_work_units s)"

definition spec_work_unit :: "program_spec \<Rightarrow> string \<Rightarrow> work_unit dres" where
  "spec_work_unit s work_unit_id =
     (case List.find (\<lambda>u. wu_work_unit_id u = work_unit_id) (ps_work_units s) of
        None \<Rightarrow> Inl MissingReference
      | Some u \<Rightarrow> Inr u)"

section \<open>Applicability fingerprint\<close>

definition lookup_unit :: "work_unit list \<Rightarrow> string \<Rightarrow> work_unit dres" where
  "lookup_unit units i = (case map_of (id_units units) i of None \<Rightarrow> Inl KeyError | Some u \<Rightarrow> Inr u)"

definition fingerprint_payload :: "program_spec \<Rightarrow> string \<Rightarrow> json dres" where
  "fingerprint_payload s work_unit_id =
     rbind (spec_work_unit s work_unit_id) (\<lambda>target.
     rbind (closure_of (ps_work_units s) target) (\<lambda>closure.
     rbind (mapM (lookup_unit (ps_work_units s)) (sort closure)) (\<lambda>members.
       let consumed = ffUnion (wu_required_inputs |`| fset_of_list members) in
       Inr (JObj [
         (''encoding'', JStr ''creatidy-k1-work-unit-intent-v1''),
         (''program_id'', JStr (ps_program_id s)),
         (''objective'', JStr (ps_objective s)),
         (''acceptance_criteria'', JList (map JStr (ps_acceptance_criteria s))),
         (''policy_references'', JList (map policy_payload (ps_policy_references s))),
         (''closure'', JList (map work_unit_payload members)),
         (''initial_inputs'', JList (map binding_payload
            (filter (\<lambda>i. ib_name i |\<in>| consumed) (ps_initial_inputs s))))]))))"

definition fingerprint :: "hash \<Rightarrow> program_spec \<Rightarrow> string \<Rightarrow> string dres" where
  "fingerprint H s work_unit_id =
     rbind (fingerprint_payload s work_unit_id) (\<lambda>j. Inr (json_digest H j))"

section \<open>Amendments\<close>

record spec_amendment =
  sa_expected_revision :: int
  sa_objective :: "string option"
  sa_work_units :: "work_unit list option"
  sa_initial_inputs :: "input_binding list option"
  sa_budget :: "budget_policy option"
  sa_authority :: "authority_envelope option"
  sa_reason :: string
  sa_acceptance_criteria :: "string list option"
  sa_policy_references :: "policy_reference list option"

definition mk_SpecAmendment ::
  "int \<Rightarrow> string option \<Rightarrow> work_unit list option \<Rightarrow> input_binding list option \<Rightarrow> budget_policy option
   \<Rightarrow> authority_envelope option \<Rightarrow> string \<Rightarrow> string list option \<Rightarrow> policy_reference list option
   \<Rightarrow> spec_amendment dres" where
  "mk_SpecAmendment expected_revision objective work_units initial_inputs budget authority reason
     acceptance_criteria policy_references =
     (if \<not> revision_ok False expected_revision then Inl InvalidDomainValue
      else if \<not> nonblank reason then Inl InvalidDomainValue
      else if objective = None \<and> work_units = None \<and> initial_inputs = None \<and> budget = None
        \<and> authority = None \<and> acceptance_criteria = None \<and> policy_references = None
      then Inl InvalidDomainValue
      else if \<not> opt_nonblank objective then Inl InvalidDomainValue
      else rbind (case initial_inputs of None \<Rightarrow> Inr [] | Some bs \<Rightarrow> bindings bs) (\<lambda>_.
      rbind (case acceptance_criteria of None \<Rightarrow> Inr [] | Some cs \<Rightarrow> criteria cs) (\<lambda>_.
      rbind (case policy_references of None \<Rightarrow> Inr [] | Some rs \<Rightarrow> policies rs) (\<lambda>_.
        Inr \<lparr>sa_expected_revision = expected_revision, sa_objective = objective,
          sa_work_units = work_units, sa_initial_inputs = initial_inputs, sa_budget = budget,
          sa_authority = authority, sa_reason = reason,
          sa_acceptance_criteria = acceptance_criteria, sa_policy_references = policy_references\<rparr>))))"

text \<open>The candidate that \<open>amend\<close> builds, every replacement taken from the amendment where it has one.\<close>

definition propose :: "hash \<Rightarrow> program_spec \<Rightarrow> spec_amendment \<Rightarrow> program_spec dres" where
  "propose H s a =
     mk_ProgramSpec
       (ps_program_id s)
       (case sa_objective a of None \<Rightarrow> ps_objective s | Some v \<Rightarrow> v)
       (case sa_work_units a of None \<Rightarrow> ps_work_units s | Some v \<Rightarrow> v)
       (case sa_initial_inputs a of None \<Rightarrow> ps_initial_inputs s | Some v \<Rightarrow> v)
       (case sa_budget a of None \<Rightarrow> ps_budget s | Some v \<Rightarrow> v)
       (case sa_authority a of None \<Rightarrow> ps_authority s | Some v \<Rightarrow> v)
       (ps_revision s + 1)
       (Some (spec_digest H s))
       (case sa_acceptance_criteria a of None \<Rightarrow> ps_acceptance_criteria s | Some v \<Rightarrow> v)
       (case sa_policy_references a of None \<Rightarrow> ps_policy_references s | Some v \<Rightarrow> v)"

definition amend :: "hash \<Rightarrow> program_spec \<Rightarrow> spec_amendment \<Rightarrow> program_spec dres" where
  "amend H s a =
     (if sa_expected_revision a \<noteq> ps_revision s then Inl StaleRevision
      else rbind (propose H s a) (\<lambda>proposed.
        Inr (if semantic_payload proposed = semantic_payload s then s else proposed)))"

section \<open>Well-formed specifications\<close>

text \<open>
  Every logical name has one source: an approved initial input or one unit's output; a required input
  comes from an initial input or from a direct dependency.
\<close>

definition sourced :: "work_unit list \<Rightarrow> input_binding list \<Rightarrow> bool" where
  "sourced units inputs \<longleftrightarrow>
     (\<forall>u \<in> set units. \<forall>n \<in> fset (wu_outputs u). n \<notin> ib_name ` set inputs)
     \<and> (\<forall>u \<in> set units. \<forall>v \<in> set units. fset (wu_outputs u) \<inter> fset (wu_outputs v) \<noteq> {} \<longrightarrow> u = v)
     \<and> (\<forall>u \<in> set units. \<forall>n \<in> fset (wu_required_inputs u). n \<in> ib_name ` set inputs
          \<or> (\<exists>v \<in> set units. wu_work_unit_id v \<in> set (wu_dependencies u) \<and> n |\<in>| wu_outputs v))"

definition wf_graph :: "work_unit list \<Rightarrow> bool" where
  "wf_graph units \<longleftrightarrow> distinct (unit_ids units)
     \<and> (\<forall>u \<in> set units. set (wu_dependencies u) \<subseteq> set (unit_ids units))
     \<and> acyclic (dep_rel units)"

definition wf_spec :: "program_spec \<Rightarrow> bool" where
  "wf_spec s \<longleftrightarrow> nonblank (ps_program_id s) \<and> nonblank (ps_objective s)
     \<and> ps_work_units s \<noteq> [] \<and> list_all wf_work_unit (ps_work_units s)
     \<and> wf_graph (ps_work_units s) \<and> sorted (unit_ids (ps_work_units s))
     \<and> wf_bindings (ps_initial_inputs s) \<and> list_all (\<lambda>i. ib_source_kind i = ''initial'') (ps_initial_inputs s)
     \<and> sourced (ps_work_units s) (ps_initial_inputs s)
     \<and> wf_budget (ps_budget s) \<and> wf_authority (ps_authority s)
     \<and> 1 \<le> ps_revision s \<and> opt_nonblank (ps_parent_digest s)
     \<and> wf_criteria (ps_acceptance_criteria s) \<and> ps_acceptance_criteria s \<noteq> []
     \<and> wf_policies (ps_policy_references s) \<and> ps_policy_references s \<noteq> []"

lemma add_outputs_Inr:
  assumes "add_outputs uid outs ps = Inr ps'"
  shows "map_of ps' n = (if n \<in> set outs then Some (Some uid) else map_of ps n)"
    and "n \<in> set outs \<Longrightarrow> map_of ps n = None"
  using assms
proof (induction outs arbitrary: ps)
  case (Cons out outs)
  { case 1
    then show ?case using Cons.IH(1)[of "AList.update out (Some uid) ps"]
      by (auto simp: update_conv' split: if_splits)
  next
    case 2
    then show ?case using Cons.IH(2)[of "AList.update out (Some uid) ps"]
      by (auto simp: update_conv' split: if_splits) }
qed auto

lemma collect_producers_ConsE:
  assumes "collect_producers ids (w # us) ps = Inr ps'"
  obtains ps1 where "set (wu_dependencies w) \<subseteq> set ids"
    and "\<And>n. map_of ps1 n = (if n |\<in>| wu_outputs w then Some (Some (wu_work_unit_id w)) else map_of ps n)"
    and "\<And>n. n |\<in>| wu_outputs w \<Longrightarrow> map_of ps n = None"
    and "collect_producers ids us ps1 = Inr ps'"
proof -
  obtain ps1 where w: "set (wu_dependencies w) \<subseteq> set ids"
    and out: "add_outputs (wu_work_unit_id w) (sorted_list_of_fset (wu_outputs w)) ps = Inr ps1"
    and rest: "collect_producers ids us ps1 = Inr ps'"
    using assms by (auto simp: res_simps list_ex_iff split: if_splits)
  show ?thesis using that[OF w _ _ rest] add_outputs_Inr[OF out] by simp
qed

lemma collect_producers_deps:
  "collect_producers ids us ps = Inr ps' \<Longrightarrow> u \<in> set us \<Longrightarrow> set (wu_dependencies u) \<subseteq> set ids"
  by (induction us arbitrary: ps) (auto elim!: collect_producers_ConsE simp del: collect_producers.simps(2))

lemma collect_producers_mono:
  "collect_producers ids us ps = Inr ps' \<Longrightarrow> map_of ps n = Some x \<Longrightarrow> map_of ps' n = Some x"
proof (induction us arbitrary: ps)
  case (Cons w us)
  from Cons.prems(1) obtain ps1 where ps1:
      "\<And>n. map_of ps1 n = (if n |\<in>| wu_outputs w then Some (Some (wu_work_unit_id w)) else map_of ps n)"
      "\<And>n. n |\<in>| wu_outputs w \<Longrightarrow> map_of ps n = None" "collect_producers ids us ps1 = Inr ps'"
    by (rule collect_producers_ConsE) blast
  have "map_of ps1 n = Some x" using ps1(1)[of n] ps1(2)[of n] Cons.prems(2) by auto
  then show ?case by (rule Cons.IH[OF ps1(3)])
qed simp

lemma collect_producers_source:
  "collect_producers ids us ps = Inr ps' \<Longrightarrow> map_of ps' n = Some y \<Longrightarrow> map_of ps n = Some y
     \<or> (\<exists>u \<in> set us. n |\<in>| wu_outputs u \<and> y = Some (wu_work_unit_id u))"
proof (induction us arbitrary: ps)
  case (Cons w us)
  from Cons.prems(1) show ?case
    by (rule collect_producers_ConsE) (use Cons in \<open>fastforce split: if_splits\<close>)
qed simp

lemma collect_producers_output:
  "collect_producers ids us ps = Inr ps' \<Longrightarrow> u \<in> set us \<Longrightarrow> n |\<in>| wu_outputs u \<Longrightarrow>
   map_of ps n = None \<and> map_of ps' n = Some (Some (wu_work_unit_id u))"
proof (induction us arbitrary: ps)
  case (Cons w us)
  from Cons.prems(1) obtain ps1 where ps1:
      "\<And>n. map_of ps1 n = (if n |\<in>| wu_outputs w then Some (Some (wu_work_unit_id w)) else map_of ps n)"
      "\<And>n. n |\<in>| wu_outputs w \<Longrightarrow> map_of ps n = None" "collect_producers ids us ps1 = Inr ps'"
    by (rule collect_producers_ConsE) blast
  show ?case
  proof (cases "u = w")
    case True
    with Cons.prems(3) ps1(1)[of n] have "map_of ps1 n = Some (Some (wu_work_unit_id u))" by simp
    then show ?thesis using collect_producers_mono[OF ps1(3)] ps1(2) Cons.prems(3) True by blast
  next
    case False
    then have "map_of ps1 n = None \<and> map_of ps' n = Some (Some (wu_work_unit_id u))"
      using Cons.IH[OF ps1(3)] Cons.prems by simp
    then show ?thesis using ps1(1)[of n] by (auto split: if_splits)
  qed
qed simp

lemma collect_producers_sourced:
  assumes ps: "collect_producers (unit_ids units) units (map (\<lambda>i. (ib_name i, None)) inputs) = Inr ps"
    and dist: "distinct (unit_ids units)"
    and avail: "\<And>u n. u \<in> set units \<Longrightarrow> n |\<in>| wu_required_inputs u \<Longrightarrow> input_available ps u n"
  shows "sourced units inputs"
proof -
  have init: "map_of (map (\<lambda>i. (ib_name i, None :: string option)) inputs) n = (if n \<in> ib_name ` set inputs then Some None else None)" for n
    by (induction inputs) auto
  have same: "u = v" if "u \<in> set units" "v \<in> set units" "n |\<in>| wu_outputs u" "n |\<in>| wu_outputs v" for u v n
    using that collect_producers_output[OF ps] dist by (metis distinct_map inj_onD option.inject)
  have src: "n \<in> ib_name ` set inputs \<or> (\<exists>v \<in> set units. wu_work_unit_id v \<in> set (wu_dependencies u) \<and> n |\<in>| wu_outputs v)"
    if "u \<in> set units" "n |\<in>| wu_required_inputs u" for u n
    using avail[OF that] collect_producers_source[OF ps, of n] init[of n]
    by (auto simp: input_available_def split: option.splits if_splits)
  show ?thesis
    unfolding sourced_def using collect_producers_output[OF ps] init same src
    by (metis disjoint_iff option.distinct(1))
qed

lemma sourced_cong: "set units = set units' \<Longrightarrow> set inputs = set inputs' \<Longrightarrow> sourced units inputs = sourced units' inputs'"
  by (simp add: sourced_def)

lemma dep_rel_cong: "set units = set units' \<Longrightarrow> dep_rel units = dep_rel units'"
  by (simp add: dep_rel_def)

lemma mk_ProgramSpec_wf:
  assumes "mk_ProgramSpec pid obj units inputs bud auth rv par crit pols = Inr s"
    and "list_all wf_work_unit units" and "list_all wf_binding inputs" and "wf_budget bud"
    and "wf_authority auth" and "list_all wf_policy pols"
  shows "wf_spec s"
proof -
  have dist: "distinct (unit_ids units)"
    using assms(1) length_remdups_distinct[of "unit_ids units"]
    by (auto simp: mk_ProgramSpec_def split: if_splits)
  obtain ins crit' pols' ps order where
      ins: "bindings inputs = Inr ins" and c: "criteria crit = Inr crit'" and p: "policies pols = Inr pols'"
      and ps: "collect_producers (unit_ids units) units (map (\<lambda>i. (ib_name i, None)) ins) = Inr ps"
      and o: "topological_order units = Inr order"
      and init: "list_all (\<lambda>i. ib_source_kind i = ''initial'') ins"
      and avail: "\<And>u n. u \<in> set units \<Longrightarrow> n |\<in>| wu_required_inputs u \<Longrightarrow> input_available ps u n"
      and ne: "crit' \<noteq> []" "pols' \<noteq> []" "units \<noteq> []" "nonblank pid" "nonblank obj" "1 \<le> rv" "opt_nonblank par"
      and s: "s = \<lparr>ps_program_id = pid, ps_objective = obj,
               ps_work_units = sort_key wu_work_unit_id units, ps_initial_inputs = ins,
               ps_budget = bud, ps_authority = auth, ps_revision = rv,
               ps_parent_digest = par, ps_acceptance_criteria = crit', ps_policy_references = pols'\<rparr>"
    using assms(1)
    by (auto simp: mk_ProgramSpec_def res_simps revision_ok_def list_ex_iff list_all_iff split: if_splits)
  have deps: "set (wu_dependencies u) \<subseteq> set (unit_ids units)" if "u \<in> set units" for u
    using collect_producers_deps[OF ps that] .
  have "acyclic (dep_rel units)" using topological_order_acyclic[OF dist o] .
  then have "wf_graph (sort_key wu_work_unit_id units)"
    using dist deps dep_rel_cong[of units "sort_key wu_work_unit_id units"] by (simp add: wf_graph_def)
  moreover have "sourced (sort_key wu_work_unit_id units) ins"
    using collect_producers_sourced[OF ps dist avail] sourced_cong[of units "sort_key wu_work_unit_id units" ins ins]
    by simp
  ultimately show ?thesis
    using assms(2-) ne init criteria_wf[OF c] policies_wf[OF p] bindings_wf[OF ins]
    by (simp add: s wf_spec_def list_all_iff)
qed

lemma wf_specD:
  assumes "wf_spec s"
  shows "wf_graph (ps_work_units s)" "distinct (unit_ids (ps_work_units s))"
    "\<And>u. u \<in> set (ps_work_units s) \<Longrightarrow> wf_work_unit u"
    "\<And>u. u \<in> set (ps_work_units s) \<Longrightarrow> set (wu_dependencies u) \<subseteq> set (unit_ids (ps_work_units s))"
    "sourced (ps_work_units s) (ps_initial_inputs s)" "wf_bindings (ps_initial_inputs s)"
  using assms by (auto simp: wf_spec_def wf_graph_def list_all_iff)

lemma spec_work_unit_Inr_iff:
  assumes "distinct (unit_ids (ps_work_units s))"
  shows "spec_work_unit s i = Inr u \<longleftrightarrow> u \<in> set (ps_work_units s) \<and> wu_work_unit_id u = i"
  using find_distinct_key[OF assms, of u]
  by (auto simp: spec_work_unit_def dest: find_SomeD split: option.splits)

lemma spec_work_unit_Inl_iff:
  "spec_work_unit s i = Inl e \<longleftrightarrow> e = MissingReference \<and> i \<notin> set (unit_ids (ps_work_units s))"
  by (auto simp: spec_work_unit_def find_None_iff dest: find_SomeD split: option.splits)

lemma spec_work_unit_total:
  "i \<in> set (unit_ids (ps_work_units s)) \<Longrightarrow> \<exists>u. spec_work_unit s i = Inr u"
  using spec_work_unit_Inl_iff[of s i] by (cases "spec_work_unit s i") auto

lemma spec_topological_order_total:
  assumes "wf_spec s"
  shows "\<exists>order. spec_topological_order s = Inr order"
  using assms topological_order_acyclic_iff[of "ps_work_units s"]
  by (fastforce simp: wf_spec_def wf_graph_def spec_topological_order_def)

section \<open>What a fingerprint depends on\<close>

text \<open>The units a fingerprint covers: the unit and its transitive predecessors.\<close>

definition intent_members :: "program_spec \<Rightarrow> string \<Rightarrow> work_unit list" where
  "intent_members s i = filter (\<lambda>u. wu_work_unit_id u \<in> ancestors (ps_work_units s) i) (ps_work_units s)"

definition intent_inputs :: "program_spec \<Rightarrow> string \<Rightarrow> input_binding list" where
  "intent_inputs s i = filter (\<lambda>b. \<exists>u \<in> set (intent_members s i). ib_name b |\<in>| wu_required_inputs u)
     (ps_initial_inputs s)"

definition intent_json :: "program_spec \<Rightarrow> string \<Rightarrow> json" where
  "intent_json s i = JObj [
     (''encoding'', JStr ''creatidy-k1-work-unit-intent-v1''),
     (''program_id'', JStr (ps_program_id s)),
     (''objective'', JStr (ps_objective s)),
     (''acceptance_criteria'', JList (map JStr (ps_acceptance_criteria s))),
     (''policy_references'', JList (map policy_payload (ps_policy_references s))),
     (''closure'', JList (map work_unit_payload (intent_members s i))),
     (''initial_inputs'', JList (map binding_payload (intent_inputs s i)))]"

lemma mapM_lookup_unit:
  assumes "set is \<subseteq> set (unit_ids units)"
  obtains ms where "mapM (lookup_unit units) is = Inr ms" "unit_ids ms = is" "set ms \<subseteq> set units"
proof -
  have "\<exists>ms. mapM (lookup_unit units) is = Inr ms \<and> unit_ids ms = is \<and> set ms \<subseteq> set units"
    using assms
  proof (induction "is")
    case (Cons i "is")
    then have "i \<in> fst ` set (id_units units)" by (auto simp: image_image)
    then obtain u where u: "map_of (id_units units) i = Some u" by (metis map_of_eq_None_iff option.exhaust)
    then have "lookup_unit units i = Inr u" "u \<in> set units" "wu_work_unit_id u = i"
      by (auto simp: lookup_unit_def dest: map_of_id_units_SomeD)
    with Cons show ?case by fastforce
  qed simp
  with that show ?thesis by blast
qed

lemma ancestors_subset:
  assumes "wf_graph units" and "i \<in> set (unit_ids units)"
  shows "ancestors units i \<subseteq> set (unit_ids units)"
  using assms by (intro ancestors_least) (auto simp: wf_graph_def dep_closed_def)

lemma fingerprint_payload_eq:
  assumes "wf_graph (ps_work_units s)" and "sorted (unit_ids (ps_work_units s))"
    and "i \<in> set (unit_ids (ps_work_units s))"
  shows "fingerprint_payload s i = Inr (intent_json s i)"
proof -
  let ?us = "ps_work_units s"
  have dist: "distinct (unit_ids ?us)" using assms(1) by (simp add: wf_graph_def)
  obtain t where t: "spec_work_unit s i = Inr t" using spec_work_unit_total[OF assms(3)] by blast
  then have tu: "t \<in> set ?us" "wu_work_unit_id t = i" using spec_work_unit_Inr_iff[OF dist] by auto
  obtain cl where cl: "closure_of ?us t = Inr cl"
    using closure_of_total[OF tu(1)] assms(1) by (auto simp: wf_graph_def)
  have cls: "set cl = ancestors ?us i" "distinct cl" using closure_of_ancestors[OF dist tu(1) cl] tu by auto
  then have sub: "set (sort cl) \<subseteq> set (unit_ids ?us)" using ancestors_subset[OF assms(1,3)] by simp
  obtain ms where ms: "mapM (lookup_unit ?us) (sort cl) = Inr ms" "unit_ids ms = sort cl" "set ms \<subseteq> set ?us"
    by (rule mapM_lookup_unit[OF sub])
  have eq: "ms = intent_members s i"
  proof -
    let ?F = "intent_members s i"
    have F: "unit_ids ?F = filter (\<lambda>n. n \<in> ancestors ?us i) (unit_ids ?us)"
      by (simp add: intent_members_def filter_map comp_def)
    have "unit_ids ms = unit_ids ?F"
      unfolding ms(2) F
    proof (rule sorted_distinct_set_unique)
      show "set (sort cl) = set (filter (\<lambda>n. n \<in> ancestors ?us i) (unit_ids ?us))"
        using cls(1) sub by auto
    qed (use cls assms(2) dist in \<open>simp_all add: sorted_filter[where f = id, simplified]\<close>)
    moreover have "inj_on wu_work_unit_id (set ms \<union> set ?F)"
      using dist ms(3) by (auto simp: distinct_map intent_members_def intro: inj_on_subset)
    ultimately show ?thesis by (rule map_inj_on)
  qed
  have "fingerprint_payload s i = Inr (JObj [
         (''encoding'', JStr ''creatidy-k1-work-unit-intent-v1''),
         (''program_id'', JStr (ps_program_id s)),
         (''objective'', JStr (ps_objective s)),
         (''acceptance_criteria'', JList (map JStr (ps_acceptance_criteria s))),
         (''policy_references'', JList (map policy_payload (ps_policy_references s))),
         (''closure'', JList (map work_unit_payload ms)),
         (''initial_inputs'', JList (map binding_payload
            (filter (\<lambda>i. ib_name i |\<in>| ffUnion (wu_required_inputs |`| fset_of_list ms)) (ps_initial_inputs s))))])"
    by (simp add: fingerprint_payload_def t cl ms Let_def)
  moreover have "filter (\<lambda>b. ib_name b |\<in>| ffUnion (wu_required_inputs |`| fset_of_list ms)) (ps_initial_inputs s)
      = filter (\<lambda>b. \<exists>u \<in> set ms. ib_name b |\<in>| wu_required_inputs u) (ps_initial_inputs s)"
    by (rule filter_cong) (auto simp: ffUnion.rep_eq fset_of_list.rep_eq)
  ultimately show ?thesis by (simp only: eq intent_json_def intent_inputs_def)
qed

lemma fingerprint_eq:
  assumes "wf_spec s" and "i \<in> set (unit_ids (ps_work_units s))"
  shows "fingerprint H s i = Inr (json_digest H (intent_json s i))"
  using assms fingerprint_payload_eq[of s i] by (simp add: fingerprint_def wf_spec_def)

lemma fingerprint_error:
  assumes "i \<notin> set (unit_ids (ps_work_units s))"
  shows "fingerprint H s i = Inl MissingReference"
proof -
  from assms have "spec_work_unit s i = Inl MissingReference" by (simp only: spec_work_unit_Inl_iff) simp
  then show ?thesis by (simp add: fingerprint_def fingerprint_payload_def)
qed

lemma fingerprint_Inr_iff:
  "wf_spec s \<Longrightarrow> fingerprint H s i = Inr f \<longleftrightarrow>
     i \<in> set (unit_ids (ps_work_units s)) \<and> f = json_digest H (intent_json s i)"
  using fingerprint_eq fingerprint_error by (cases "i \<in> set (unit_ids (ps_work_units s))") auto

section \<open>What an amendment changes\<close>

text \<open>The values an amendment carries come from their constructors.\<close>

definition wf_amendment :: "spec_amendment \<Rightarrow> bool" where
  "wf_amendment a \<longleftrightarrow> pred_option (list_all wf_work_unit) (sa_work_units a)
     \<and> pred_option (list_all wf_binding) (sa_initial_inputs a) \<and> pred_option wf_budget (sa_budget a)
     \<and> pred_option wf_authority (sa_authority a) \<and> pred_option (list_all wf_policy) (sa_policy_references a)"

lemma mk_ProgramSpec_fields:
  assumes "mk_ProgramSpec pid obj units inputs bud auth rv par crit pols = Inr s"
  shows "ps_program_id s = pid" "ps_revision s = rv" "ps_parent_digest s = par" "ps_budget s = bud"
    "ps_authority s = auth" "ps_objective s = obj" "set (ps_work_units s) = set units"
  using assms by (auto simp: mk_ProgramSpec_def res_simps split: if_splits)

lemma amend_stale: "sa_expected_revision a \<noteq> ps_revision s \<Longrightarrow> amend H s a = Inl StaleRevision"
  by (simp add: amend_def)

lemma amend_cases:
  assumes "amend H s a = Inr s'" and "wf_spec s" and "wf_amendment a"
  obtains (noop) "s' = s"
  | (revised) "wf_spec s'" "ps_revision s' = ps_revision s + 1"
      "ps_parent_digest s' = Some (spec_digest H s)" "ps_program_id s' = ps_program_id s"
      "semantic_payload s' \<noteq> semantic_payload s"
proof -
  obtain q where q: "propose H s a = Inr q"
      and s': "s' = (if semantic_payload q = semantic_payload s then s else q)"
    using assms(1) amend_stale[of a s H]
    by (cases "sa_expected_revision a = ps_revision s") (auto simp: amend_def rbind_eq_Inr)
  have "wf_spec q"
    using assms(2,3) by (intro mk_ProgramSpec_wf[OF q[unfolded propose_def]])
      (auto simp: wf_spec_def wf_amendment_def wf_bindings_def wf_policies_def split: option.splits)
  then show ?thesis
    using that mk_ProgramSpec_fields[OF q[unfolded propose_def]] s' by (auto split: if_splits)
qed

lemma wf_budget_default: "wf_budget default_budget"
  by (simp add: wf_budget_def default_budget_def)

lemma wf_authority_default: "wf_authority default_authority"
  by (simp add: wf_authority_def default_authority_def strings_ok_def nonblank_def isspace_def)

end
