(* ===== verification/Domain_Facts.thy ===== *)
theory Domain_Facts
  imports Domain_Spec
begin

text \<open>
  The historical facts of core/domain.py: attempts, trusted satisfactions, cancellations, conclusions,
  the projected state of a work unit, and the commands with the checks of their \<open>__post_init__\<close>.
\<close>

section \<open>Attempts\<close>

record attempt_spec =
  as_attempt_id :: string
  as_program_id :: string
  as_work_unit_id :: string
  as_spec_revision :: int
  as_spec_digest :: string
  as_effective_inputs :: "input_binding list"
  as_allocation_reference :: "string option"
  as_agent_definition_reference :: "string option"
  as_workspace_reference :: "string option"
  as_context_reference :: "string option"
  as_remediation_of :: "string option"

definition mk_AttemptSpec ::
  "string \<Rightarrow> string \<Rightarrow> string \<Rightarrow> int \<Rightarrow> string \<Rightarrow> input_binding list \<Rightarrow> string option \<Rightarrow> string option
   \<Rightarrow> string option \<Rightarrow> string option \<Rightarrow> string option \<Rightarrow> attempt_spec dres" where
  "mk_AttemptSpec attempt_id program_id work_unit_id rv digest effective_inputs allocation agent
     workspace context_ref remediation_of =
     (if \<not> (nonblank attempt_id \<and> nonblank program_id \<and> nonblank work_unit_id \<and> nonblank digest)
      then Inl InvalidDomainValue
      else if \<not> revision_ok False rv then Inl InvalidDomainValue
      else if \<not> (opt_nonblank allocation \<and> opt_nonblank agent \<and> opt_nonblank workspace
        \<and> opt_nonblank context_ref \<and> opt_nonblank remediation_of) then Inl InvalidDomainValue
      else rbind (bindings effective_inputs) (\<lambda>inputs.
        Inr \<lparr>as_attempt_id = attempt_id, as_program_id = program_id, as_work_unit_id = work_unit_id,
          as_spec_revision = rv, as_spec_digest = digest, as_effective_inputs = inputs,
          as_allocation_reference = allocation, as_agent_definition_reference = agent,
          as_workspace_reference = workspace, as_context_reference = context_ref,
          as_remediation_of = remediation_of\<rparr>))"

definition attempt_payload :: "attempt_spec \<Rightarrow> json" where
  "attempt_payload a = JObj ([
     (''attempt_id'', JStr (as_attempt_id a)),
     (''program_id'', JStr (as_program_id a)),
     (''work_unit_id'', JStr (as_work_unit_id a)),
     (''spec_revision'', JInt (as_spec_revision a)),
     (''spec_digest'', JStr (as_spec_digest a)),
     (''effective_inputs'', JList (map binding_payload (as_effective_inputs a))),
     (''allocation_reference'', JOptStr (as_allocation_reference a)),
     (''agent_definition_reference'', JOptStr (as_agent_definition_reference a)),
     (''workspace_reference'', JOptStr (as_workspace_reference a)),
     (''context_reference'', JOptStr (as_context_reference a))]
     @ (case as_remediation_of a of None \<Rightarrow> [] | Some r \<Rightarrow> [(''remediation_of'', JStr r)]))"

definition attempt_digest :: "hash \<Rightarrow> attempt_spec \<Rightarrow> string" where
  "attempt_digest H a = json_digest H (attempt_payload a)"

definition wf_attempt_spec :: "attempt_spec \<Rightarrow> bool" where
  "wf_attempt_spec a \<longleftrightarrow> nonblank (as_attempt_id a) \<and> nonblank (as_program_id a)
     \<and> nonblank (as_work_unit_id a) \<and> nonblank (as_spec_digest a) \<and> 1 \<le> as_spec_revision a
     \<and> opt_nonblank (as_allocation_reference a) \<and> opt_nonblank (as_agent_definition_reference a)
     \<and> opt_nonblank (as_workspace_reference a) \<and> opt_nonblank (as_context_reference a)
     \<and> opt_nonblank (as_remediation_of a) \<and> wf_bindings (as_effective_inputs a)"

record attempt =
  at_spec :: attempt_spec
  at_status :: attempt_status
  at_actor_id :: string

definition mk_Attempt :: "attempt_spec \<Rightarrow> attempt_status \<Rightarrow> string \<Rightarrow> attempt dres" where
  "mk_Attempt sp st actor_id =
     (if \<not> nonblank actor_id then Inl InvalidDomainValue
      else Inr \<lparr>at_spec = sp, at_status = st, at_actor_id = actor_id\<rparr>)"

definition wf_attempt :: "attempt \<Rightarrow> bool" where
  "wf_attempt a \<longleftrightarrow> wf_attempt_spec (at_spec a) \<and> nonblank (at_actor_id a)"

abbreviation at_id :: "attempt \<Rightarrow> string" where
  "at_id a \<equiv> as_attempt_id (at_spec a)"

abbreviation at_unit :: "attempt \<Rightarrow> string" where
  "at_unit a \<equiv> as_work_unit_id (at_spec a)"

text \<open>\<open>status in (PREPARED, EXECUTING)\<close>\<close>

definition live :: "attempt \<Rightarrow> bool" where
  "live a \<longleftrightarrow> at_status a \<in> {AttemptPrepared, AttemptExecuting}"

section \<open>Satisfactions, cancellations and conclusions\<close>

record trusted_satisfaction =
  ts_reference_id :: string
  ts_program_id :: string
  ts_work_unit_id :: string
  ts_spec_revision :: int
  ts_spec_digest :: string
  ts_work_unit_fingerprint :: string
  ts_issuer_id :: string
  ts_source_attempt_id :: string
  ts_output_bindings :: "input_binding list"
  ts_record_order :: int

definition mk_TrustedSatisfaction ::
  "string \<Rightarrow> string \<Rightarrow> string \<Rightarrow> int \<Rightarrow> string \<Rightarrow> string \<Rightarrow> string \<Rightarrow> string \<Rightarrow> input_binding list \<Rightarrow> int
   \<Rightarrow> trusted_satisfaction dres" where
  "mk_TrustedSatisfaction reference_id program_id work_unit_id rv digest fp issuer_id
     source_attempt_id output_bindings record_order =
     (if \<not> (nonblank reference_id \<and> nonblank program_id \<and> nonblank work_unit_id \<and> nonblank digest
        \<and> nonblank fp \<and> nonblank issuer_id \<and> nonblank source_attempt_id) then Inl InvalidDomainValue
      else if \<not> revision_ok False rv then Inl InvalidDomainValue
      else if \<not> revision_ok True record_order then Inl InvalidDomainValue
      else rbind (bindings output_bindings) (\<lambda>outputs.
        if list_ex (\<lambda>b. ib_source_kind b \<noteq> ''initial'') outputs then Inl InvalidDomainValue
        else Inr \<lparr>ts_reference_id = reference_id, ts_program_id = program_id,
          ts_work_unit_id = work_unit_id, ts_spec_revision = rv, ts_spec_digest = digest,
          ts_work_unit_fingerprint = fp, ts_issuer_id = issuer_id,
          ts_source_attempt_id = source_attempt_id, ts_output_bindings = outputs,
          ts_record_order = record_order\<rparr>))"

definition wf_satisfaction :: "trusted_satisfaction \<Rightarrow> bool" where
  "wf_satisfaction t \<longleftrightarrow> nonblank (ts_reference_id t) \<and> nonblank (ts_program_id t)
     \<and> nonblank (ts_work_unit_id t) \<and> nonblank (ts_spec_digest t)
     \<and> nonblank (ts_work_unit_fingerprint t) \<and> nonblank (ts_issuer_id t)
     \<and> nonblank (ts_source_attempt_id t) \<and> 1 \<le> ts_spec_revision t \<and> 0 \<le> ts_record_order t
     \<and> wf_bindings (ts_output_bindings t)
     \<and> list_all (\<lambda>b. ib_source_kind b = ''initial'') (ts_output_bindings t)"

record work_unit_cancellation =
  wc_work_unit_id :: string
  wc_work_unit_fingerprint :: string
  wc_spec_revision :: int
  wc_spec_digest :: string
  wc_actor_id :: string
  wc_reason :: string
  wc_record_order :: int

definition mk_WorkUnitCancellation ::
  "string \<Rightarrow> string \<Rightarrow> int \<Rightarrow> string \<Rightarrow> string \<Rightarrow> string \<Rightarrow> int \<Rightarrow> work_unit_cancellation dres" where
  "mk_WorkUnitCancellation work_unit_id fp rv digest actor_id reason record_order =
     (if \<not> (nonblank work_unit_id \<and> nonblank fp \<and> nonblank digest \<and> nonblank actor_id \<and> nonblank reason)
      then Inl InvalidDomainValue
      else if \<not> revision_ok False rv then Inl InvalidDomainValue
      else if \<not> revision_ok False record_order then Inl InvalidDomainValue
      else Inr \<lparr>wc_work_unit_id = work_unit_id, wc_work_unit_fingerprint = fp, wc_spec_revision = rv,
        wc_spec_digest = digest, wc_actor_id = actor_id, wc_reason = reason,
        wc_record_order = record_order\<rparr>)"

record attempt_cancellation =
  ac_attempt_id :: string
  ac_actor_id :: string
  ac_reason :: string
  ac_record_order :: int

definition mk_AttemptCancellation :: "string \<Rightarrow> string \<Rightarrow> string \<Rightarrow> int \<Rightarrow> attempt_cancellation dres" where
  "mk_AttemptCancellation attempt_id actor_id reason record_order =
     (if \<not> (nonblank attempt_id \<and> nonblank actor_id \<and> nonblank reason) then Inl InvalidDomainValue
      else if \<not> revision_ok False record_order then Inl InvalidDomainValue
      else Inr \<lparr>ac_attempt_id = attempt_id, ac_actor_id = actor_id, ac_reason = reason,
        ac_record_order = record_order\<rparr>)"

record program_conclusion =
  pc_status :: program_status
  pc_spec_revision :: int
  pc_spec_digest :: string
  pc_record_order :: int

definition mk_ProgramConclusion :: "program_status \<Rightarrow> int \<Rightarrow> string \<Rightarrow> int \<Rightarrow> program_conclusion dres" where
  "mk_ProgramConclusion st rv digest record_order =
     (if st \<notin> {ProgramCompleted, ProgramCancelled} then Inl InvalidDomainValue
      else if \<not> revision_ok False rv then Inl InvalidDomainValue
      else if \<not> nonblank digest then Inl InvalidDomainValue
      else if \<not> revision_ok False record_order then Inl InvalidDomainValue
      else Inr \<lparr>pc_status = st, pc_spec_revision = rv, pc_spec_digest = digest,
        pc_record_order = record_order\<rparr>)"

section \<open>Projected state of a work unit\<close>

record work_unit_state =
  us_work_unit_id :: string
  us_status :: work_unit_status
  us_active_attempt_id :: "string option"
  us_satisfaction_id :: "string option"

definition mk_WorkUnitState ::
  "string \<Rightarrow> work_unit_status \<Rightarrow> string option \<Rightarrow> string option \<Rightarrow> work_unit_state dres" where
  "mk_WorkUnitState work_unit_id st active_attempt_id satisfaction_id =
     (if \<not> nonblank work_unit_id then Inl InvalidDomainValue
      else if \<not> opt_nonblank active_attempt_id then Inl InvalidDomainValue
      else if \<not> opt_nonblank satisfaction_id then Inl InvalidDomainValue
      else if (active_attempt_id \<noteq> None) \<noteq> (st = UnitActive) then Inl InvalidDomainValue
      else if (satisfaction_id \<noteq> None) \<noteq> (st = UnitSatisfied) then Inl InvalidDomainValue
      else Inr \<lparr>us_work_unit_id = work_unit_id, us_status = st,
        us_active_attempt_id = active_attempt_id, us_satisfaction_id = satisfaction_id\<rparr>)"

definition wf_state :: "work_unit_state \<Rightarrow> bool" where
  "wf_state t \<longleftrightarrow> nonblank (us_work_unit_id t)
     \<and> opt_nonblank (us_active_attempt_id t) \<and> opt_nonblank (us_satisfaction_id t)
     \<and> (us_active_attempt_id t \<noteq> None \<longleftrightarrow> us_status t = UnitActive)
     \<and> (us_satisfaction_id t \<noteq> None \<longleftrightarrow> us_status t = UnitSatisfied)"

section \<open>Commands\<close>

text \<open>Every command carries the expected aggregate revision and the acting identity first.\<close>

datatype domain_command =
    ActivateProgram (cmd_expected_revision: int) (cmd_actor_id: string)
  | PauseProgram (cmd_expected_revision: int) (cmd_actor_id: string)
  | ResumeProgram (cmd_expected_revision: int) (cmd_actor_id: string)
  | CancelProgram (cmd_expected_revision: int) (cmd_actor_id: string)
  | CancelWorkUnit (cmd_expected_revision: int) (cmd_actor_id: string) string string
  | PrepareAttempt (cmd_expected_revision: int) (cmd_actor_id: string) attempt_spec
  | StartAttempt (cmd_expected_revision: int) (cmd_actor_id: string) string
  | FinishAttempt (cmd_expected_revision: int) (cmd_actor_id: string) string
  | FailAttempt (cmd_expected_revision: int) (cmd_actor_id: string) string
  | CancelAttempt (cmd_expected_revision: int) (cmd_actor_id: string) string
  | SatisfyWorkUnit (cmd_expected_revision: int) (cmd_actor_id: string) trusted_satisfaction
  | AmendProgramSpec (cmd_expected_revision: int) (cmd_actor_id: string) spec_amendment

text \<open>What the \<open>__post_init__\<close> methods accept.\<close>

definition command_ok :: "domain_command \<Rightarrow> bool" where
  "command_ok c \<longleftrightarrow> revision_ok True (cmd_expected_revision c) \<and> nonblank (cmd_actor_id c)
     \<and> (case c of
          CancelWorkUnit _ _ work_unit_id reason \<Rightarrow> nonblank work_unit_id \<and> nonblank reason
        | StartAttempt _ _ attempt_id \<Rightarrow> nonblank attempt_id
        | FinishAttempt _ _ attempt_id \<Rightarrow> nonblank attempt_id
        | FailAttempt _ _ attempt_id \<Rightarrow> nonblank attempt_id
        | CancelAttempt _ _ attempt_id \<Rightarrow> nonblank attempt_id
        | _ \<Rightarrow> True)"

text \<open>A command a caller can build: its fields come from their constructors.\<close>

definition wf_command :: "domain_command \<Rightarrow> bool" where
  "wf_command c \<longleftrightarrow> command_ok c
     \<and> (case c of
          PrepareAttempt _ _ a \<Rightarrow> wf_attempt_spec a
        | SatisfyWorkUnit _ _ t \<Rightarrow> wf_satisfaction t
        | AmendProgramSpec _ _ a \<Rightarrow> wf_amendment a
        | _ \<Rightarrow> True)"

fun action_of :: "domain_command \<Rightarrow> domain_action" where
  "action_of (ActivateProgram _ _) = ACTIVATE_PROGRAM"
| "action_of (PauseProgram _ _) = PAUSE_PROGRAM"
| "action_of (ResumeProgram _ _) = RESUME_PROGRAM"
| "action_of (CancelProgram _ _) = CANCEL_PROGRAM"
| "action_of (CancelWorkUnit _ _ _ _) = CANCEL_WORK_UNIT"
| "action_of (PrepareAttempt _ _ _) = PREPARE_ATTEMPT"
| "action_of (StartAttempt _ _ _) = START_ATTEMPT"
| "action_of (FinishAttempt _ _ _) = FINISH_ATTEMPT"
| "action_of (FailAttempt _ _ _) = FAIL_ATTEMPT"
| "action_of (CancelAttempt _ _ _) = CANCEL_ATTEMPT"
| "action_of (SatisfyWorkUnit _ _ _) = SATISFY_WORK_UNIT"
| "action_of (AmendProgramSpec _ _ _) = AMEND_SPEC"

section \<open>What the constructors establish\<close>

lemma mk_AttemptSpec_wf:
  "mk_AttemptSpec a b c d e f g h i j k = Inr v \<Longrightarrow> list_all wf_binding f \<Longrightarrow> wf_attempt_spec v"
  by (auto simp: mk_AttemptSpec_def wf_attempt_spec_def revision_ok_def res_simps
      dest: bindings_wf split: if_splits)

lemma mk_Attempt_Inr_iff [simp]:
  "mk_Attempt sp st actor = Inr a \<longleftrightarrow> nonblank actor \<and> a = \<lparr>at_spec = sp, at_status = st, at_actor_id = actor\<rparr>"
  by (auto simp: mk_Attempt_def)

lemma mk_TrustedSatisfaction_wf:
  "mk_TrustedSatisfaction a b c d e f g h i j = Inr v \<Longrightarrow> list_all wf_binding i \<Longrightarrow> wf_satisfaction v"
  by (auto simp: mk_TrustedSatisfaction_def wf_satisfaction_def revision_ok_def res_simps list_ex_iff
      list_all_iff dest: bindings_wf[unfolded list_all_iff] split: if_splits)

lemma mk_TrustedSatisfaction_record:
  assumes "wf_satisfaction t" and "0 < k"
  shows "mk_TrustedSatisfaction (ts_reference_id t) (ts_program_id t) (ts_work_unit_id t)
    (ts_spec_revision t) (ts_spec_digest t) (ts_work_unit_fingerprint t) (ts_issuer_id t)
    (ts_source_attempt_id t) (ts_output_bindings t) k = Inr (t\<lparr>ts_record_order := k\<rparr>)"
  using assms
  by (auto simp: mk_TrustedSatisfaction_def wf_satisfaction_def revision_ok_def bindings_fixpoint
      list_ex_iff list_all_iff intro: trusted_satisfaction.equality)

lemma mk_WorkUnitState_wf: "mk_WorkUnitState a b c d = Inr v \<Longrightarrow> wf_state v"
  by (auto simp: mk_WorkUnitState_def wf_state_def split: if_splits)

lemma mk_WorkUnitState_fields:
  "mk_WorkUnitState a b c d = Inr v \<Longrightarrow> us_work_unit_id v = a \<and> us_status v = b
     \<and> us_active_attempt_id v = c \<and> us_satisfaction_id v = d"
  by (auto simp: mk_WorkUnitState_def split: if_splits)

end
