(* ===== verification/Domain_Projection.thy ===== *)
theory Domain_Projection
  imports Domain_Facts
begin

text \<open>
  The projection of core/domain.py: \<open>_resolved_inputs\<close>, \<open>_same_subject\<close>, \<open>_project\<close> and
  \<open>_program_status\<close>. The projection rebuilds the state of every work unit from the specification and
  the recorded facts, in topological order. It is proved total on well-formed facts, and its result is
  characterised by one local equation per unit over the states of its dependencies.
\<close>

type_synonym states = "string \<Rightarrow> work_unit_state option"
type_synonym fact_map = "string \<Rightarrow> trusted_satisfaction option"

section \<open>Resolved inputs\<close>

text \<open>\<open>any(P(projected[d].status) for d in dependencies)\<close>\<close>

fun any_dep :: "(work_unit_status \<Rightarrow> bool) \<Rightarrow> states \<Rightarrow> string list \<Rightarrow> bool dres" where
  "any_dep P projected [] = Inr False"
| "any_dep P projected (d # ds) =
     (case projected d of
        None \<Rightarrow> Inl KeyError
      | Some st \<Rightarrow> if P (us_status st) then Inr True else any_dep P projected ds)"

fun bind_outputs ::
  "string fset \<Rightarrow> string \<Rightarrow> string \<Rightarrow> input_binding list \<Rightarrow> (string \<times> input_binding) list
   \<Rightarrow> (string \<times> input_binding) list dres" where
  "bind_outputs required predecessor source_id [] resolved = Inr resolved"
| "bind_outputs required predecessor source_id (out # outs) resolved =
     (if ib_name out |\<in>| required then
        rbind (mk_InputBinding (ib_name out) (ib_reference out) ''predecessor'' (Some predecessor)
            (Some source_id) (Some (ib_name out)))
          (\<lambda>b. bind_outputs required predecessor source_id outs (AList.update (ib_name out) b resolved))
      else bind_outputs required predecessor source_id outs resolved)"

fun bind_predecessors ::
  "string fset \<Rightarrow> states \<Rightarrow> fact_map \<Rightarrow> string list \<Rightarrow> (string \<times> input_binding) list
   \<Rightarrow> (string \<times> input_binding) list dres" where
  "bind_predecessors required projected satisfactions [] resolved = Inr resolved"
| "bind_predecessors required projected satisfactions (d # ds) resolved =
     (case projected d of
        None \<Rightarrow> Inl KeyError
      | Some st \<Rightarrow> (case us_satisfaction_id st of
          None \<Rightarrow> Inl KeyError
        | Some sid \<Rightarrow> (case satisfactions sid of
            None \<Rightarrow> Inl KeyError
          | Some source \<Rightarrow>
              rbind (bind_outputs required d (ts_reference_id source) (ts_output_bindings source) resolved)
                (bind_predecessors required projected satisfactions ds))))"

definition resolved_inputs ::
  "program_spec \<Rightarrow> work_unit \<Rightarrow> states \<Rightarrow> fact_map \<Rightarrow> input_binding list option dres" where
  "resolved_inputs sp u projected satisfactions =
     rbind (any_dep (\<lambda>st. st \<noteq> UnitSatisfied) projected (wu_dependencies u)) (\<lambda>blocked.
       if blocked then Inr None
       else rbind (bind_predecessors (wu_required_inputs u) projected satisfactions (wu_dependencies u)
           (dict_update [] (map (\<lambda>i. (ib_name i, i))
             (filter (\<lambda>i. ib_name i |\<in>| wu_required_inputs u) (ps_initial_inputs sp))))) (\<lambda>resolved.
         if fset_of_list (map fst resolved) \<noteq> wu_required_inputs u then Inr None
         else Inr (Some (map snd (sort_key fst resolved)))))"

definition same_subject :: "input_binding list \<Rightarrow> input_binding list \<Rightarrow> bool" where
  "same_subject left right \<longleftrightarrow> map subject left = map subject right"

section \<open>The projection\<close>

text \<open>
  The generator \<open>matching\<close>: satisfactions of the unit under its current fingerprint, with the declared
  outputs, whose source attempt consumed the inputs now resolved.
\<close>

fun matching_satisfactions ::
  "work_unit \<Rightarrow> string \<Rightarrow> input_binding list option \<Rightarrow> (string \<Rightarrow> attempt option)
   \<Rightarrow> trusted_satisfaction list \<Rightarrow> trusted_satisfaction list dres" where
  "matching_satisfactions u fp inputs by_attempt [] = Inr []"
| "matching_satisfactions u fp inputs by_attempt (t # ts) =
     (if ts_work_unit_id t = wu_work_unit_id u \<and> ts_work_unit_fingerprint t = fp
        \<and> fset_of_list (map ib_name (ts_output_bindings t)) = wu_outputs u \<and> inputs \<noteq> None
      then (case by_attempt (ts_source_attempt_id t) of
          None \<Rightarrow> Inl KeyError
        | Some a \<Rightarrow> rbind (matching_satisfactions u fp inputs by_attempt ts) (\<lambda>rest.
            Inr (if same_subject (as_effective_inputs (at_spec a)) (the inputs) then t # rest else rest)))
      else matching_satisfactions u fp inputs by_attempt ts)"

text \<open>\<open>max(matching, key=record_order, default=None)\<close>: the first of the largest.\<close>

fun latest :: "trusted_satisfaction list \<Rightarrow> trusted_satisfaction option" where
  "latest [] = None"
| "latest (t # ts) = (case latest ts of
       None \<Rightarrow> Some t
     | Some t' \<Rightarrow> if ts_record_order t < ts_record_order t' then Some t' else Some t)"

definition live_attempt :: "attempt list \<Rightarrow> string \<Rightarrow> attempt option" where
  "live_attempt attempts unit_id = List.find (\<lambda>a. at_unit a = unit_id \<and> live a) attempts"

definition project_unit ::
  "hash \<Rightarrow> program_spec \<Rightarrow> attempt list \<Rightarrow> trusted_satisfaction list \<Rightarrow> work_unit_cancellation list
   \<Rightarrow> states \<Rightarrow> string \<Rightarrow> work_unit_state dres" where
  "project_unit H sp attempts satisfactions cancellations chosen unit_id =
     rbind (spec_work_unit sp unit_id) (\<lambda>u.
     rbind (fingerprint H sp unit_id) (\<lambda>fp.
     rbind (any_dep (\<lambda>st. st = UnitCancelled) chosen (wu_dependencies u)) (\<lambda>dep_cancelled.
       if dep_cancelled \<or> list_ex (\<lambda>c. wc_work_unit_id c = unit_id
           \<and> wc_work_unit_fingerprint c = fp) cancellations
       then mk_WorkUnitState unit_id UnitCancelled None None
       else rbind (resolved_inputs sp u chosen (dict_from ts_reference_id satisfactions)) (\<lambda>inputs.
         rbind (matching_satisfactions u fp inputs (dict_from at_id attempts) satisfactions) (\<lambda>matching.
         case latest matching of
           Some t \<Rightarrow> mk_WorkUnitState unit_id UnitSatisfied None (Some (ts_reference_id t))
         | None \<Rightarrow> (case (live_attempt attempts unit_id, inputs) of
               (Some a, Some ins) \<Rightarrow>
                 if same_subject (as_effective_inputs (at_spec a)) ins
                 then mk_WorkUnitState unit_id UnitActive (Some (at_id a)) None
                 else mk_WorkUnitState unit_id UnitReady None None
             | (None, Some ins) \<Rightarrow> mk_WorkUnitState unit_id UnitReady None None
             | (_, None) \<Rightarrow> mk_WorkUnitState unit_id UnitPending None None))))))"

fun project_units ::
  "hash \<Rightarrow> program_spec \<Rightarrow> attempt list \<Rightarrow> trusted_satisfaction list \<Rightarrow> work_unit_cancellation list
   \<Rightarrow> string list \<Rightarrow> states \<Rightarrow> states dres" where
  "project_units H sp attempts satisfactions cancellations [] chosen = Inr chosen"
| "project_units H sp attempts satisfactions cancellations (i # is) chosen =
     rbind (project_unit H sp attempts satisfactions cancellations chosen i) (\<lambda>st.
       project_units H sp attempts satisfactions cancellations is (chosen(i \<mapsto> st)))"

definition project ::
  "hash \<Rightarrow> program_spec \<Rightarrow> attempt list \<Rightarrow> trusted_satisfaction list \<Rightarrow> work_unit_cancellation list
   \<Rightarrow> work_unit_state list dres" where
  "project H sp attempts satisfactions cancellations =
     rbind (spec_topological_order sp) (\<lambda>order.
     rbind (project_units H sp attempts satisfactions cancellations order (\<lambda>_. None)) (\<lambda>chosen.
       mapM (\<lambda>u. case chosen (wu_work_unit_id u) of None \<Rightarrow> Inl KeyError | Some st \<Rightarrow> Inr st)
         (ps_work_units sp)))"

definition next_status :: "program_status \<Rightarrow> work_unit_state list \<Rightarrow> program_status" where
  "next_status previous sts =
     (if previous = ProgramCancelled then previous
      else if previous = ProgramDraft then previous
      else if list_all (\<lambda>st. us_status st = UnitSatisfied) sts then ProgramCompleted
      else if previous = ProgramPaused then ProgramPaused else ProgramActive)"

section \<open>Resolution in closed form\<close>

lemma any_dep_eq:
  assumes "\<And>d. d \<in> set ds \<Longrightarrow> M d \<noteq> None"
  shows "any_dep P M ds = Inr (\<exists>d \<in> set ds. P (us_status (the (M d))))"
  using assms by (induction ds) (fastforce split: option.splits)+

lemma any_dep_cong: "(\<And>d. d \<in> set ds \<Longrightarrow> M d = M' d) \<Longrightarrow> any_dep P M ds = any_dep P M' ds"
  by (induction ds) (auto split: option.splits)

lemma bind_predecessors_cong:
  "(\<And>d. d \<in> set ds \<Longrightarrow> M d = M' d) \<Longrightarrow>
   bind_predecessors req M F ds r = bind_predecessors req M' F ds r"
  by (induction ds arbitrary: r) (auto split: option.splits intro!: rbind_cong)

lemma resolved_inputs_cong:
  "(\<And>d. d \<in> set (wu_dependencies u) \<Longrightarrow> M d = M' d) \<Longrightarrow> resolved_inputs sp u M F = resolved_inputs sp u M' F"
  unfolding resolved_inputs_def
  by (intro rbind_cong any_dep_cong if_cong refl bind_predecessors_cong) auto

lemma project_unit_cong:
  assumes "\<And>u d. spec_work_unit sp i = Inr u \<Longrightarrow> d \<in> set (wu_dependencies u) \<Longrightarrow> M d = M' d"
  shows "project_unit H sp atts sats cans M i = project_unit H sp atts sats cans M' i"
proof (cases "spec_work_unit sp i")
  case (Inr u)
  with assms have eq: "\<And>d. d \<in> set (wu_dependencies u) \<Longrightarrow> M d = M' d" by blast
  have "any_dep P M (wu_dependencies u) = any_dep P M' (wu_dependencies u)" for P
    using eq by (rule any_dep_cong)
  moreover have "resolved_inputs sp u M F = resolved_inputs sp u M' F" for F
    using eq by (rule resolved_inputs_cong)
  ultimately show ?thesis unfolding project_unit_def Inr by (simp cong: if_cong)
qed (simp add: project_unit_def)

text \<open>The binding that hands a predecessor's output on.\<close>

definition handed :: "string \<Rightarrow> trusted_satisfaction \<Rightarrow> input_binding \<Rightarrow> input_binding" where
  "handed d source out = \<lparr>ib_name = ib_name out, ib_reference = ib_reference out,
     ib_source_kind = ''predecessor'', ib_source_work_unit_id = Some d,
     ib_satisfaction_id = Some (ts_reference_id source), ib_output_name = Some (ib_name out)\<rparr>"

definition handed_pairs :: "string fset \<Rightarrow> string \<Rightarrow> trusted_satisfaction \<Rightarrow> (string \<times> input_binding) list" where
  "handed_pairs required d source =
     map (\<lambda>out. (ib_name out, handed d source out))
       (filter (\<lambda>out. ib_name out |\<in>| required) (ts_output_bindings source))"

definition initial_pairs :: "program_spec \<Rightarrow> work_unit \<Rightarrow> (string \<times> input_binding) list" where
  "initial_pairs sp u = map (\<lambda>i. (ib_name i, i))
     (filter (\<lambda>i. ib_name i |\<in>| wu_required_inputs u) (ps_initial_inputs sp))"

definition source_of :: "states \<Rightarrow> fact_map \<Rightarrow> string \<Rightarrow> trusted_satisfaction" where
  "source_of M F d = the (F (the (us_satisfaction_id (the (M d)))))"

definition resolution :: "program_spec \<Rightarrow> work_unit \<Rightarrow> states \<Rightarrow> fact_map \<Rightarrow> (string \<times> input_binding) list" where
  "resolution sp u M F = dict_update [] (initial_pairs sp u
     @ concat (map (\<lambda>d. handed_pairs (wu_required_inputs u) d (source_of M F d)) (wu_dependencies u)))"

lemma bind_outputs_eq:
  assumes "nonblank d" and "nonblank (ts_reference_id t)" and "list_all wf_binding outs"
  shows "bind_outputs req d (ts_reference_id t) outs r =
    Inr (dict_update r (map (\<lambda>out. (ib_name out, handed d t out)) (filter (\<lambda>out. ib_name out |\<in>| req) outs)))"
  using assms
  by (induction outs arbitrary: r) (auto simp: wf_binding_def handed_def)

text \<open>A dependency that is satisfied by a recorded, well-formed fact.\<close>

definition dep_ready :: "states \<Rightarrow> fact_map \<Rightarrow> string \<Rightarrow> bool" where
  "dep_ready M F d \<longleftrightarrow> nonblank d \<and> (\<exists>st sid t. M d = Some st \<and> us_status st = UnitSatisfied
     \<and> us_satisfaction_id st = Some sid \<and> F sid = Some t \<and> wf_satisfaction t)"

lemma bind_predecessors_eq:
  assumes "\<And>d. d \<in> set ds \<Longrightarrow> dep_ready M F d"
  shows "bind_predecessors req M F ds r =
    Inr (dict_update r (concat (map (\<lambda>d. handed_pairs req d (source_of M F d)) ds)))"
  using assms
proof (induction ds arbitrary: r)
  case (Cons d ds)
  from Cons.prems[of d] obtain st sid t where d: "nonblank d" "M d = Some st"
      "us_satisfaction_id st = Some sid" "F sid = Some t" "wf_satisfaction t"
    by (auto simp: dep_ready_def)
  then have "source_of M F d = t" by (simp add: source_of_def)
  with Cons d show ?case
    by (simp add: bind_outputs_eq wf_satisfaction_def wf_bindings_def handed_pairs_def dict_update_append)
qed simp

lemma resolved_inputs_ready:
  assumes "\<And>d. d \<in> set (wu_dependencies u) \<Longrightarrow> dep_ready M F d"
  shows "resolved_inputs sp u M F =
    (if fset_of_list (map fst (resolution sp u M F)) \<noteq> wu_required_inputs u then Inr None
     else Inr (Some (map snd (sort_key fst (resolution sp u M F)))))"
proof -
  have "any_dep (\<lambda>st. st \<noteq> UnitSatisfied) M (wu_dependencies u) = Inr False"
    using assms by (subst any_dep_eq) (fastforce simp: dep_ready_def)+
  then show ?thesis
    using assms by (simp add: resolved_inputs_def bind_predecessors_eq resolution_def dict_update_append
        initial_pairs_def)
qed

lemma resolved_inputs_blocked:
  assumes "\<And>d. d \<in> set (wu_dependencies u) \<Longrightarrow> M d \<noteq> None"
    and "d \<in> set (wu_dependencies u)" and "us_status (the (M d)) \<noteq> UnitSatisfied"
  shows "resolved_inputs sp u M F = Inr None"
  using assms by (auto simp: resolved_inputs_def any_dep_eq)

lemma resolution_pairs:
  assumes "(k, b) \<in> set (resolution sp u M F)" and "wf_bindings (ps_initial_inputs sp)"
    and "\<And>d. d \<in> set (wu_dependencies u) \<Longrightarrow> dep_ready M F d"
  shows "ib_name b = k \<and> wf_binding b \<and> k |\<in>| wu_required_inputs u"
proof -
  have "(k, b) \<in> set (initial_pairs sp u)
      \<or> (\<exists>d \<in> set (wu_dependencies u). (k, b) \<in> set (handed_pairs (wu_required_inputs u) d (source_of M F d)))"
    using assms(1) set_dict_update_subset unfolding resolution_def by fastforce
  then show ?thesis
  proof
    assume "(k, b) \<in> set (initial_pairs sp u)"
    then show ?thesis using assms(2) by (auto simp: initial_pairs_def wf_bindings_def list_all_iff)
  next
    assume "\<exists>d \<in> set (wu_dependencies u). (k, b) \<in> set (handed_pairs (wu_required_inputs u) d (source_of M F d))"
    then obtain d out where d: "d \<in> set (wu_dependencies u)" "k = ib_name out" "k |\<in>| wu_required_inputs u"
        "b = handed d (source_of M F d) out" "out \<in> set (ts_output_bindings (source_of M F d))"
      by (auto simp: handed_pairs_def)
    from assms(3)[OF d(1)] have "nonblank d" "wf_satisfaction (source_of M F d)"
      by (auto simp: dep_ready_def source_of_def)
    with d show ?thesis
      by (auto simp: handed_def wf_binding_def wf_satisfaction_def wf_bindings_def list_all_iff)
  qed
qed

lemma resolved_inputs_names:
  assumes "resolved_inputs sp u M F = Inr (Some ins)" and "wf_bindings (ps_initial_inputs sp)"
    and "\<And>d. d \<in> set (wu_dependencies u) \<Longrightarrow> dep_ready M F d"
  shows "map ib_name ins = sorted_list_of_fset (wu_required_inputs u)" and "wf_bindings ins"
proof -
  let ?r = "resolution sp u M F"
  have keys: "fset_of_list (map fst ?r) = wu_required_inputs u" and ins: "ins = map snd (sort_key fst ?r)"
    using assms(1) by (auto simp: resolved_inputs_ready[OF assms(3)] split: if_splits)
  have dist: "distinct (map fst ?r)" unfolding resolution_def by (rule distinct_dict_update) simp
  have "map ib_name ins = map fst (sort_key fst ?r)"
    unfolding ins using resolution_pairs[OF _ assms(2,3)] by (force simp: comp_def)
  also have "\<dots> = sorted_list_of_fset (wu_required_inputs u)"
  proof (rule sorted_distinct_set_unique)
    show "set (map fst (sort_key fst ?r)) = set (sorted_list_of_fset (wu_required_inputs u))"
      using keys by (metis fset_of_list.rep_eq set_map set_sort sorted_list_of_fset_simps(1))
  qed (use dist in \<open>simp_all add: sorted_list_of_fset.rep_eq\<close>)
  finally show names: "map ib_name ins = sorted_list_of_fset (wu_required_inputs u)" .
  have "wf_binding b" if "b \<in> set ins" for b
    using that resolution_pairs[OF _ assms(2,3)] unfolding ins by force
  then show "wf_bindings ins"
    by (simp add: wf_bindings_def list_all_iff names sorted_list_of_fset.rep_eq)
qed

section \<open>The projection is total on well-formed facts\<close>

definition wf_facts :: "attempt list \<Rightarrow> trusted_satisfaction list \<Rightarrow> bool" where
  "wf_facts atts sats \<longleftrightarrow> list_all wf_attempt atts \<and> distinct (map at_id atts)
     \<and> list_all wf_satisfaction sats \<and> distinct (map ts_reference_id sats)
     \<and> (\<forall>t \<in> set sats. ts_source_attempt_id t \<in> at_id ` set atts)"

text \<open>A state of unit \<open>d\<close> that cites, when satisfied, a recorded fact with the unit's declared outputs.\<close>

definition state_ok :: "program_spec \<Rightarrow> trusted_satisfaction list \<Rightarrow> string \<Rightarrow> work_unit_state \<Rightarrow> bool" where
  "state_ok sp sats d st \<longleftrightarrow> wf_state st \<and> us_work_unit_id st = d
     \<and> (\<forall>r. us_satisfaction_id st = Some r \<longrightarrow> (\<exists>t \<in> set sats. ts_reference_id t = r \<and> ts_work_unit_id t = d
          \<and> (\<forall>u \<in> set (ps_work_units sp). wu_work_unit_id u = d \<longrightarrow>
                fset_of_list (map ib_name (ts_output_bindings t)) = wu_outputs u)))"

definition deps_ok :: "program_spec \<Rightarrow> trusted_satisfaction list \<Rightarrow> states \<Rightarrow> work_unit \<Rightarrow> bool" where
  "deps_ok sp sats M u \<longleftrightarrow> (\<forall>d \<in> set (wu_dependencies u). \<exists>st. M d = Some st \<and> state_ok sp sats d st)"

abbreviation deps_satisfied :: "states \<Rightarrow> work_unit \<Rightarrow> bool" where
  "deps_satisfied M u \<equiv> (\<forall>d \<in> set (wu_dependencies u). us_status (the (M d)) = UnitSatisfied)"

lemma deps_ok_source:
  assumes "deps_ok sp sats M u" and "wf_facts atts sats" and "d \<in> set (wu_dependencies u)"
    and "us_status (the (M d)) = UnitSatisfied"
  shows "dep_ready M (dict_from ts_reference_id sats) d"
    and "v \<in> set (ps_work_units sp) \<Longrightarrow> wu_work_unit_id v = d \<Longrightarrow>
      fset_of_list (map ib_name (ts_output_bindings (source_of M (dict_from ts_reference_id sats) d))) = wu_outputs v"
proof -
  from assms(1,3) obtain st where st: "M d = Some st" "state_ok sp sats d st" by (auto simp: deps_ok_def)
  with assms(4) obtain r where r: "us_satisfaction_id st = Some r" "nonblank d" "us_status st = UnitSatisfied"
    by (auto simp: state_ok_def wf_state_def)
  with st obtain t where t: "t \<in> set sats" "ts_reference_id t = r"
      "\<And>u. u \<in> set (ps_work_units sp) \<Longrightarrow> wu_work_unit_id u = d \<Longrightarrow>
         fset_of_list (map ib_name (ts_output_bindings t)) = wu_outputs u"
    by (auto simp: state_ok_def)
  then have F: "dict_from ts_reference_id sats r = Some t"
    using assms(2) dict_from_distinct[of ts_reference_id sats t] by (simp add: wf_facts_def)
  show "dep_ready M (dict_from ts_reference_id sats) d"
    using st r t F assms(2) by (auto simp: dep_ready_def wf_facts_def list_all_iff)
  show "v \<in> set (ps_work_units sp) \<Longrightarrow> wu_work_unit_id v = d \<Longrightarrow>
      fset_of_list (map ib_name (ts_output_bindings (source_of M (dict_from ts_reference_id sats) d))) = wu_outputs v"
    using st r t F by (simp add: source_of_def)
qed

lemma resolution_complete:
  assumes "wf_spec sp" and "u \<in> set (ps_work_units sp)" and "wf_facts atts sats"
    and ok: "deps_ok sp sats M u" and sat: "deps_satisfied M u"
  shows "fset_of_list (map fst (resolution sp u M (dict_from ts_reference_id sats))) = wu_required_inputs u"
proof -
  let ?F = "dict_from ts_reference_id sats" and ?R = "wu_required_inputs u"
  note rd = deps_ok_source[OF ok assms(3)]
  have "fst ` set (resolution sp u M ?F) = fset ?R"
  proof (intro equalityI subsetI)
    fix n assume "n \<in> fst ` set (resolution sp u M ?F)"
    then obtain b where b: "(n, b) \<in> set (resolution sp u M ?F)" by force
    have "\<And>d. d \<in> set (wu_dependencies u) \<Longrightarrow> dep_ready M ?F d" using rd(1) sat by simp
    from resolution_pairs[OF b wf_specD(6)[OF assms(1)] this] show "n \<in> fset ?R" by simp
  next
    fix n assume n: "n \<in> fset ?R"
    have "\<forall>n \<in> fset ?R. n \<in> ib_name ` set (ps_initial_inputs sp)
        \<or> (\<exists>v \<in> set (ps_work_units sp). wu_work_unit_id v \<in> set (wu_dependencies u) \<and> n |\<in>| wu_outputs v)"
      using wf_specD(5)[OF assms(1)] assms(2) unfolding sourced_def by blast
    with n consider "n \<in> ib_name ` set (ps_initial_inputs sp)"
      | v where "v \<in> set (ps_work_units sp)" "wu_work_unit_id v \<in> set (wu_dependencies u)" "n |\<in>| wu_outputs v"
      by blast
    then show "n \<in> fst ` set (resolution sp u M ?F)"
    proof cases
      case 1
      with n have "n \<in> fst ` set (initial_pairs sp u)" by (auto simp: initial_pairs_def image_image)
      then show ?thesis by (simp add: resolution_def keys_dict_update image_Un)
    next
      case (2 v)
      let ?t = "source_of M ?F (wu_work_unit_id v)"
      have "fset_of_list (map ib_name (ts_output_bindings ?t)) = wu_outputs v"
        using rd(2)[OF 2(2) _ 2(1)] sat 2 by simp
      with 2(3) have "n \<in> ib_name ` set (ts_output_bindings ?t)"
        by (metis fset_of_list.rep_eq list.set_map)
      with n have "n \<in> fst ` set (handed_pairs ?R (wu_work_unit_id v) ?t)"
        by (auto simp: handed_pairs_def image_image)
      with 2(2) have "n \<in> (\<Union>d \<in> set (wu_dependencies u). fst ` set (handed_pairs ?R d (source_of M ?F d)))"
        by (rule UN_I)
      then show ?thesis by (simp add: resolution_def keys_dict_update image_UN image_Un)
    qed
  qed
  then show ?thesis by (metis fset_inject fset_of_list.rep_eq list.set_map)
qed

lemma resolved_inputs_total:
  assumes "wf_spec sp" and "u \<in> set (ps_work_units sp)" and "wf_facts atts sats" and "deps_ok sp sats M u"
  shows "if deps_satisfied M u
    then \<exists>ins. resolved_inputs sp u M (dict_from ts_reference_id sats) = Inr (Some ins) \<and> wf_bindings ins
      \<and> map ib_name ins = sorted_list_of_fset (wu_required_inputs u)
    else resolved_inputs sp u M (dict_from ts_reference_id sats) = Inr None"
proof (cases "deps_satisfied M u")
  case True
  then have rd: "\<And>d. d \<in> set (wu_dependencies u) \<Longrightarrow> dep_ready M (dict_from ts_reference_id sats) d"
    using deps_ok_source[OF assms(4,3)] by blast
  then obtain ins where ins: "resolved_inputs sp u M (dict_from ts_reference_id sats) = Inr (Some ins)"
    using resolution_complete[OF assms True] by (simp add: resolved_inputs_ready)
  show ?thesis
    using resolved_inputs_names[OF ins wf_specD(6)[OF assms(1)] rd] ins True by simp
next
  case False
  then obtain d where "d \<in> set (wu_dependencies u)" "us_status (the (M d)) \<noteq> UnitSatisfied" by blast
  then have "resolved_inputs sp u M (dict_from ts_reference_id sats) = Inr None"
    using assms(4) by (intro resolved_inputs_blocked) (auto simp: deps_ok_def)
  with False show ?thesis by (simp only: if_False)
qed

section \<open>The state of one unit\<close>

lemma matching_satisfactions_eq:
  assumes "\<And>t. t \<in> set ts \<Longrightarrow> by_attempt (ts_source_attempt_id t) \<noteq> None"
  shows "matching_satisfactions u fp inputs by_attempt ts = Inr (filter (\<lambda>t.
    ts_work_unit_id t = wu_work_unit_id u \<and> ts_work_unit_fingerprint t = fp
    \<and> fset_of_list (map ib_name (ts_output_bindings t)) = wu_outputs u \<and> inputs \<noteq> None
    \<and> same_subject (as_effective_inputs (at_spec (the (by_attempt (ts_source_attempt_id t))))) (the inputs)) ts)"
  using assms
proof (induction ts)
  case (Cons t ts)
  then obtain a where "by_attempt (ts_source_attempt_id t) = Some a" by fastforce
  with Cons show ?case by auto
qed simp

lemma latest_None [simp]: "latest ts = None \<longleftrightarrow> ts = []"
  by (cases ts) (auto split: option.splits if_splits)

lemma latest_Some:
  "latest ts = Some t \<Longrightarrow> t \<in> set ts \<and> (\<forall>t' \<in> set ts. ts_record_order t' \<le> ts_record_order t)"
  by (induction ts arbitrary: t) (fastforce split: option.splits if_splits)+

text \<open>The satisfactions that carry over to unit \<open>u\<close> under the inputs \<open>ins\<close>.\<close>

definition applicable ::
  "work_unit \<Rightarrow> string \<Rightarrow> input_binding list \<Rightarrow> attempt list \<Rightarrow> trusted_satisfaction \<Rightarrow> bool" where
  "applicable u fp ins atts t \<longleftrightarrow> ts_work_unit_id t = wu_work_unit_id u \<and> ts_work_unit_fingerprint t = fp
     \<and> fset_of_list (map ib_name (ts_output_bindings t)) = wu_outputs u
     \<and> same_subject (as_effective_inputs (at_spec (the (dict_from at_id atts (ts_source_attempt_id t))))) ins"

lemma matching_satisfactions_facts:
  assumes "wf_facts atts sats"
  shows "matching_satisfactions u fp inputs (dict_from at_id atts) sats =
    Inr (case inputs of None \<Rightarrow> [] | Some ins \<Rightarrow> filter (applicable u fp ins atts) sats)"
proof -
  have "\<And>t. t \<in> set sats \<Longrightarrow> dict_from at_id atts (ts_source_attempt_id t) \<noteq> None"
    using assms by (simp add: wf_facts_def dict_from_None_iff)
  from matching_satisfactions_eq[of sats "dict_from at_id atts", OF this] show ?thesis
    by (cases inputs) (simp_all add: applicable_def[abs_def])
qed

text \<open>The unit is cancelled by a recorded decision of its own or through a dependency.\<close>

definition cancelled_by :: "work_unit_cancellation list \<Rightarrow> string \<Rightarrow> string \<Rightarrow> bool" where
  "cancelled_by cans i fp \<longleftrightarrow> (\<exists>c \<in> set cans. wc_work_unit_id c = i \<and> wc_work_unit_fingerprint c = fp)"

abbreviation dep_cancelled :: "states \<Rightarrow> work_unit \<Rightarrow> bool" where
  "dep_cancelled M u \<equiv> (\<exists>d \<in> set (wu_dependencies u). us_status (the (M d)) = UnitCancelled)"

definition unit_state :: "string \<Rightarrow> work_unit_status \<Rightarrow> string option \<Rightarrow> string option \<Rightarrow> work_unit_state" where
  "unit_state i st a s = \<lparr>us_work_unit_id = i, us_status = st, us_active_attempt_id = a, us_satisfaction_id = s\<rparr>"

lemma unit_state_simps [simp]:
  "us_work_unit_id (unit_state i st a s) = i" "us_status (unit_state i st a s) = st"
  "us_active_attempt_id (unit_state i st a s) = a" "us_satisfaction_id (unit_state i st a s) = s"
  by (simp_all add: unit_state_def)

lemma mk_WorkUnitState_eq:
  "mk_WorkUnitState i st a s = (if nonblank i \<and> opt_nonblank a \<and> opt_nonblank s
     \<and> (a \<noteq> None \<longleftrightarrow> st = UnitActive) \<and> (s \<noteq> None \<longleftrightarrow> st = UnitSatisfied)
   then Inr (unit_state i st a s) else Inl InvalidDomainValue)"
  by (auto simp: mk_WorkUnitState_def unit_state_def)

text \<open>The state of unit \<open>u\<close> over the states of its dependencies, as one equation.\<close>

definition local_state ::
  "hash \<Rightarrow> program_spec \<Rightarrow> attempt list \<Rightarrow> trusted_satisfaction list \<Rightarrow> work_unit_cancellation list
   \<Rightarrow> states \<Rightarrow> work_unit \<Rightarrow> work_unit_state" where
  "local_state H sp atts sats cans M u =
     (let i = wu_work_unit_id u; fp = json_digest H (intent_json sp i);
          ins = map snd (sort_key fst (resolution sp u M (dict_from ts_reference_id sats))) in
      if dep_cancelled M u \<or> cancelled_by cans i fp then unit_state i UnitCancelled None None
      else if \<not> deps_satisfied M u then unit_state i UnitPending None None
      else case latest (filter (applicable u fp ins atts) sats) of
          Some t \<Rightarrow> unit_state i UnitSatisfied None (Some (ts_reference_id t))
        | None \<Rightarrow> (case live_attempt atts i of
            Some a \<Rightarrow> if same_subject (as_effective_inputs (at_spec a)) ins
              then unit_state i UnitActive (Some (at_id a)) None else unit_state i UnitReady None None
          | None \<Rightarrow> unit_state i UnitReady None None))"

lemma live_attempt_SomeD: "live_attempt atts i = Some a \<Longrightarrow> a \<in> set atts \<and> at_unit a = i \<and> live a"
  by (auto simp: live_attempt_def dest: find_SomeD)

lemma project_unit_eq:
  assumes wf: "wf_spec sp" and u: "u \<in> set (ps_work_units sp)" and facts: "wf_facts atts sats"
    and ok: "deps_ok sp sats M u"
  shows "project_unit H sp atts sats cans M (wu_work_unit_id u) = Inr (local_state H sp atts sats cans M u)"
proof -
  let ?i = "wu_work_unit_id u" and ?fp = "json_digest H (intent_json sp (wu_work_unit_id u))"
  let ?F = "dict_from ts_reference_id sats"
  let ?ins = "map snd (sort_key fst (resolution sp u M ?F))"
  have su: "spec_work_unit sp ?i = Inr u" using wf_specD(2)[OF wf] u by (simp add: spec_work_unit_Inr_iff)
  have fp: "fingerprint H sp ?i = Inr ?fp" using fingerprint_eq[OF wf] u by simp
  have nb: "nonblank ?i" using wf_specD(3)[OF wf u] by (simp add: wf_work_unit_def)
  have known: "\<And>d. d \<in> set (wu_dependencies u) \<Longrightarrow> M d \<noteq> None" using ok by (fastforce simp: deps_ok_def)
  have can: "list_ex (\<lambda>c. wc_work_unit_id c = ?i \<and> wc_work_unit_fingerprint c = ?fp) cans = cancelled_by cans ?i ?fp"
    by (simp add: list_ex_iff cancelled_by_def)
  have ri: "resolved_inputs sp u M ?F = Inr (if deps_satisfied M u then Some ?ins else None)"
  proof (cases "deps_satisfied M u")
    case True
    then have "\<And>d. d \<in> set (wu_dependencies u) \<Longrightarrow> dep_ready M ?F d" using deps_ok_source[OF ok facts] by blast
    then show ?thesis using resolution_complete[OF wf u facts ok True] True by (simp add: resolved_inputs_ready)
  next
    case False
    then show ?thesis using resolved_inputs_total[OF wf u facts ok] by (simp only: if_False if_not_P)
  qed
  have sats: "nonblank (ts_reference_id t)" if "latest (filter P sats) = Some t" for P t
    using latest_Some[OF that] facts by (simp add: wf_facts_def list_all_iff wf_satisfaction_def)
  have lives: "nonblank (at_id a)" if "live_attempt atts ?i = Some a" for a
    using live_attempt_SomeD[OF that] facts
    by (simp add: wf_facts_def list_all_iff wf_attempt_def wf_attempt_spec_def)
  note defs = project_unit_def local_state_def su fp any_dep_eq[OF known] can ri
    matching_satisfactions_facts[OF facts] Let_def mk_WorkUnitState_eq nb
  consider (1) "dep_cancelled M u \<or> cancelled_by cans ?i ?fp"
    | (2) "\<not> (dep_cancelled M u \<or> cancelled_by cans ?i ?fp)" "\<not> deps_satisfied M u"
    | (3) "\<not> (dep_cancelled M u \<or> cancelled_by cans ?i ?fp)" "deps_satisfied M u" by blast
  then show ?thesis
  proof cases
    case 3
    show ?thesis
    proof (cases "latest (filter (applicable u ?fp ?ins atts) sats)")
      case None
      then show ?thesis
        using 3 lives by (cases "live_attempt atts ?i") (simp_all add: defs)
    next
      case (Some t)
      then show ?thesis using 3 sats[OF Some] by (simp add: defs)
    qed
  next
    case 2
    then have "deps_satisfied M u = False" by blast
    with 2(1) show ?thesis by (cases "live_attempt atts ?i") (simp_all only: defs rbind.simps, simp_all)
  qed (simp add: defs)
qed

abbreviation ready_inputs :: "program_spec \<Rightarrow> work_unit \<Rightarrow> states \<Rightarrow> trusted_satisfaction list \<Rightarrow> input_binding list" where
  "ready_inputs sp u M sats \<equiv> map snd (sort_key fst (resolution sp u M (dict_from ts_reference_id sats)))"

abbreviation unit_fp :: "hash \<Rightarrow> program_spec \<Rightarrow> string \<Rightarrow> string" where
  "unit_fp H sp i \<equiv> json_digest H (intent_json sp i)"

abbreviation is_cancelled ::
  "hash \<Rightarrow> program_spec \<Rightarrow> work_unit_cancellation list \<Rightarrow> states \<Rightarrow> work_unit \<Rightarrow> bool" where
  "is_cancelled H sp cans M u \<equiv> dep_cancelled M u \<or> cancelled_by cans (wu_work_unit_id u) (unit_fp H sp (wu_work_unit_id u))"

lemma local_state_cases:
  obtains (cancelled) "local_state H sp atts sats cans M u = unit_state (wu_work_unit_id u) UnitCancelled None None"
      "is_cancelled H sp cans M u"
  | (pending) "local_state H sp atts sats cans M u = unit_state (wu_work_unit_id u) UnitPending None None"
      "\<not> is_cancelled H sp cans M u" "\<not> deps_satisfied M u"
  | (satisfied) t where
      "local_state H sp atts sats cans M u = unit_state (wu_work_unit_id u) UnitSatisfied None (Some (ts_reference_id t))"
      "\<not> is_cancelled H sp cans M u" "deps_satisfied M u" "t \<in> set sats"
      "applicable u (unit_fp H sp (wu_work_unit_id u)) (ready_inputs sp u M sats) atts t"
  | (active) a where
      "local_state H sp atts sats cans M u = unit_state (wu_work_unit_id u) UnitActive (Some (at_id a)) None"
      "\<not> is_cancelled H sp cans M u" "deps_satisfied M u" "live_attempt atts (wu_work_unit_id u) = Some a"
      "same_subject (as_effective_inputs (at_spec a)) (ready_inputs sp u M sats)"
      "filter (applicable u (unit_fp H sp (wu_work_unit_id u)) (ready_inputs sp u M sats) atts) sats = []"
  | (ready) "local_state H sp atts sats cans M u = unit_state (wu_work_unit_id u) UnitReady None None"
      "\<not> is_cancelled H sp cans M u" "deps_satisfied M u"
      "\<And>a. live_attempt atts (wu_work_unit_id u) = Some a \<Longrightarrow>
         \<not> same_subject (as_effective_inputs (at_spec a)) (ready_inputs sp u M sats)"
      "filter (applicable u (unit_fp H sp (wu_work_unit_id u)) (ready_inputs sp u M sats) atts) sats = []"
proof -
  let ?fp = "unit_fp H sp (wu_work_unit_id u)" and ?ins = "ready_inputs sp u M sats"
  let ?m = "filter (applicable u ?fp ?ins atts) sats"
  consider (1) "is_cancelled H sp cans M u" | (2) "\<not> is_cancelled H sp cans M u" "\<not> deps_satisfied M u"
    | (3) "\<not> is_cancelled H sp cans M u" "deps_satisfied M u" by blast
  then show ?thesis
  proof cases
    case 3
    show ?thesis
    proof (cases "latest ?m")
      case (Some t)
      then have "t \<in> set ?m" using latest_Some by blast
      then show ?thesis using satisfied[of t] 3 Some by (simp add: local_state_def Let_def)
    next
      case None
      then have m: "?m = []" by (simp only: latest_None)
      show ?thesis
      proof (cases "live_attempt atts (wu_work_unit_id u)")
        case (Some a)
        then show ?thesis using active[of a] ready 3 None m
          by (cases "same_subject (as_effective_inputs (at_spec a)) ?ins") (simp_all add: local_state_def Let_def)
      qed (use ready 3 None m in \<open>simp add: local_state_def Let_def\<close>)
    qed
  qed (use cancelled pending in \<open>simp_all add: local_state_def Let_def\<close>)
qed

lemma local_state_id [simp]: "us_work_unit_id (local_state H sp atts sats cans M u) = wu_work_unit_id u"
  by (rule local_state_cases[of H sp atts sats cans M u]) simp_all

lemma local_state_ok:
  assumes "wf_spec sp" and u: "u \<in> set (ps_work_units sp)" and facts: "wf_facts atts sats"
  shows "state_ok sp sats (wu_work_unit_id u) (local_state H sp atts sats cans M u)"
proof -
  have nb: "nonblank (wu_work_unit_id u)" using wf_specD(3)[OF assms(1) u] by (simp add: wf_work_unit_def)
  have same: "v = u" if "v \<in> set (ps_work_units sp)" "wu_work_unit_id v = wu_work_unit_id u" for v
    using wf_specD(2)[OF assms(1)] that u by (meson distinct_map inj_onD)
  show ?thesis
  proof (cases rule: local_state_cases[of H sp atts sats cans M u])
    case (satisfied t)
    then have "nonblank (ts_reference_id t)" using facts by (simp add: wf_facts_def list_all_iff wf_satisfaction_def)
    with nb same satisfied(1,4,5) show ?thesis
      by (auto simp: state_ok_def wf_state_def applicable_def)
  next
    case (active a)
    then have "nonblank (at_id a)" using live_attempt_SomeD[OF active(4)] facts
      by (simp add: wf_facts_def list_all_iff wf_attempt_def wf_attempt_spec_def)
    with nb active(1) show ?thesis by (simp add: state_ok_def wf_state_def)
  qed (use nb in \<open>simp_all add: state_ok_def wf_state_def\<close>)
qed

section \<open>The projection as a fixpoint\<close>

abbreviation by_unit :: "work_unit_state list \<Rightarrow> states" where
  "by_unit sts \<equiv> dict_from us_work_unit_id sts"

lemma local_state_cong:
  assumes "\<And>d. d \<in> set (wu_dependencies u) \<Longrightarrow> M d = M' d"
  shows "local_state H sp atts sats cans M u = local_state H sp atts sats cans M' u"
proof -
  have "resolution sp u M F = resolution sp u M' F" for F
  proof -
    have "map (\<lambda>d. handed_pairs (wu_required_inputs u) d (source_of M F d)) (wu_dependencies u)
        = map (\<lambda>d. handed_pairs (wu_required_inputs u) d (source_of M' F d)) (wu_dependencies u)"
      using assms by (intro map_cong refl) (simp add: source_of_def)
    then show ?thesis by (simp only: resolution_def)
  qed
  moreover have "dep_cancelled M u = dep_cancelled M' u" "deps_satisfied M u = deps_satisfied M' u"
    using assms by simp_all
  ultimately show ?thesis
    unfolding local_state_def Let_def by (simp only:)
qed

lemma distinct_split_unique:
  "distinct (xs @ n # ys) \<Longrightarrow> xs @ n # ys = xs' @ n # ys' \<Longrightarrow> xs = xs'"
  using append_Cons_eq_iff[of n xs ys xs' ys'] unfolding distinct_append by auto

lemma places_before_prefix:
  assumes "places_before d n (pre @ i # order)" and "distinct (pre @ i # order)" and "n \<in> set pre \<or> n = i"
  shows "d \<in> set pre"
proof -
  from assms(1) obtain xs ys where o: "pre @ i # order = xs @ n # ys" and d: "d \<in> set xs"
    by (auto simp: places_before_def)
  have "set xs \<subseteq> set pre"
  proof (cases "n = i")
    case True
    have "pre = xs" using distinct_split_unique[OF assms(2), of xs ys] o True by simp
    then show ?thesis by simp
  next
    case False
    then obtain as bs where pre: "pre = as @ n # bs" using assms(3) by (auto dest: split_list)
    then have "as @ n # (bs @ i # order) = xs @ n # ys" using o by simp
    moreover have "distinct (as @ n # (bs @ i # order))" using assms(2) pre by simp
    ultimately have "as = xs" by (metis distinct_split_unique)
    then show ?thesis using pre by auto
  qed
  with d show ?thesis by blast
qed

text \<open>The dictionary \<open>chosen\<close> after the units in \<open>order\<close> have been visited from the dictionary \<open>M\<close>.\<close>

lemma project_units_Inr:
  assumes wf: "wf_spec sp" and facts: "wf_facts atts sats"
    and order: "distinct (pre @ order)" "set (pre @ order) = set (unit_ids (ps_work_units sp))"
    and before: "\<And>u d. u \<in> set (ps_work_units sp) \<Longrightarrow> d \<in> set (wu_dependencies u) \<Longrightarrow>
      places_before d (wu_work_unit_id u) (pre @ order)"
    and visited: "\<And>u. u \<in> set (ps_work_units sp) \<Longrightarrow> wu_work_unit_id u \<in> set pre \<Longrightarrow>
      M (wu_work_unit_id u) = Some (local_state H sp atts sats cans M u)"
  shows "\<exists>M'. project_units H sp atts sats cans order M = Inr M' \<and>
    (\<forall>u \<in> set (ps_work_units sp). M' (wu_work_unit_id u) = Some (local_state H sp atts sats cans M' u))"
  using order before visited
proof (induction order arbitrary: pre M)
  case Nil
  then show ?case by auto
next
  case (Cons i order)
  have "i \<in> set (unit_ids (ps_work_units sp))" using Cons.prems(2) by auto
  then obtain u where u: "u \<in> set (ps_work_units sp)" "wu_work_unit_id u = i" by auto
  have deps: "d \<in> set pre" if "v \<in> set (ps_work_units sp)" "wu_work_unit_id v \<in> set pre \<or> wu_work_unit_id v = i"
      "d \<in> set (wu_dependencies v)" for v d
    using places_before_prefix[OF Cons.prems(3)[OF that(1,3)] Cons.prems(1) that(2)] .
  have "deps_ok sp sats M u"
    unfolding deps_ok_def
  proof
    fix d assume d: "d \<in> set (wu_dependencies u)"
    then have "d \<in> set pre" using deps[OF u(1)] u(2) by blast
    moreover have "d \<in> set (unit_ids (ps_work_units sp))" using wf_specD(4)[OF wf u(1)] d by blast
    ultimately obtain v where v: "v \<in> set (ps_work_units sp)" "wu_work_unit_id v = d" "d \<in> set pre" by auto
    then show "\<exists>st. M d = Some st \<and> state_ok sp sats d st"
      using Cons.prems(4)[of v] local_state_ok[OF wf v(1) facts, of H cans M] by auto
  qed
  then have step: "project_unit H sp atts sats cans M i = Inr (local_state H sp atts sats cans M u)"
    using project_unit_eq[OF wf u(1) facts] u(2) by simp
  let ?M = "M(i \<mapsto> local_state H sp atts sats cans M u)"
  have upd: "?M (wu_work_unit_id v) = Some (local_state H sp atts sats cans ?M v)"
    if v: "v \<in> set (ps_work_units sp)" "wu_work_unit_id v \<in> set (pre @ [i])" for v
  proof -
    have "i \<notin> set (wu_dependencies v)" using deps[OF v(1)] v(2) Cons.prems(1) by auto
    then have "local_state H sp atts sats cans ?M v = local_state H sp atts sats cans M v"
      by (intro local_state_cong) auto
    moreover have "v = u" if "wu_work_unit_id v = i"
      using wf_specD(2)[OF wf] u v(1) that by (metis distinct_map inj_onD)
    ultimately show ?thesis using Cons.prems(4)[OF v(1)] v(2) by auto
  qed
  have "\<exists>M'. project_units H sp atts sats cans order ?M = Inr M' \<and>
      (\<forall>u \<in> set (ps_work_units sp). M' (wu_work_unit_id u) = Some (local_state H sp atts sats cans M' u))"
    by (intro Cons.IH[of "pre @ [i]"] upd) (use Cons.prems(1-3) in simp_all)
  then show ?case by (simp only: project_units.simps step rbind.simps)
qed

lemma by_unit_map:
  assumes "distinct (unit_ids us)" and "\<And>u. u \<in> set us \<Longrightarrow> us_work_unit_id (f u) = wu_work_unit_id u" and "u \<in> set us"
  shows "by_unit (map f us) (wu_work_unit_id u) = Some (f u)"
proof -
  have "map us_work_unit_id (map f us) = unit_ids us" using assms(2) by simp
  then have "distinct (map us_work_unit_id (map f us))" using assms(1) by (simp only:)
  then have "by_unit (map f us) (us_work_unit_id (f u)) = Some (f u)"
    using assms(3) by (intro dict_from_distinct) simp_all
  then show ?thesis using assms(2,3) by simp
qed

text \<open>The projection never raises, and the state of each unit satisfies the local equation.\<close>

lemma project_total:
  assumes wf: "wf_spec sp" and facts: "wf_facts atts sats"
  obtains sts where "project H sp atts sats cans = Inr sts"
    "sts = map (local_state H sp atts sats cans (by_unit sts)) (ps_work_units sp)"
proof -
  let ?us = "ps_work_units sp"
  obtain order where o: "spec_topological_order sp = Inr order" using spec_topological_order_total[OF wf] by blast
  note sound = topological_order_sound[OF wf_specD(2)[OF wf] o[unfolded spec_topological_order_def]]
  obtain M where M: "project_units H sp atts sats cans order (\<lambda>_. None) = Inr M"
      and local: "\<And>u. u \<in> set ?us \<Longrightarrow> M (wu_work_unit_id u) = Some (local_state H sp atts sats cans M u)"
    using project_units_Inr[OF wf facts, of "[]" order "\<lambda>_. None" H cans] sound by auto
  let ?sts = "map (local_state H sp atts sats cans M) ?us"
  have P: "project H sp atts sats cans = Inr ?sts"
    unfolding project_def using o M local by (simp, intro mapM_total) simp
  have agree: "local_state H sp atts sats cans M u = local_state H sp atts sats cans (by_unit ?sts) u"
    if u: "u \<in> set ?us" for u
  proof (rule local_state_cong)
    fix d assume "d \<in> set (wu_dependencies u)"
    then obtain v where v: "v \<in> set ?us" "wu_work_unit_id v = d" using wf_specD(4)[OF wf u] by auto
    then show "M d = by_unit ?sts d" using by_unit_map[OF wf_specD(2)[OF wf], of "local_state H sp atts sats cans M" v] local[OF v(1)] by simp
  qed
  then have "?sts = map (local_state H sp atts sats cans (by_unit ?sts)) ?us"
    using agree by (intro map_cong refl)
  with P that show ?thesis by blast
qed

lemma project_local:
  assumes "wf_spec sp" and "wf_facts atts sats" and "project H sp atts sats cans = Inr sts"
  shows "sts = map (local_state H sp atts sats cans (by_unit sts)) (ps_work_units sp)"
    and "map us_work_unit_id sts = unit_ids (ps_work_units sp)"
    and "u \<in> set (ps_work_units sp) \<Longrightarrow>
      by_unit sts (wu_work_unit_id u) = Some (local_state H sp atts sats cans (by_unit sts) u)"
proof -
  show eq: "sts = map (local_state H sp atts sats cans (by_unit sts)) (ps_work_units sp)"
    using project_total[OF assms(1,2), of H cans] assms(3) by auto
  show "map us_work_unit_id sts = unit_ids (ps_work_units sp)" by (subst eq) simp
  show "u \<in> set (ps_work_units sp) \<Longrightarrow>
      by_unit sts (wu_work_unit_id u) = Some (local_state H sp atts sats cans (by_unit sts) u)"
    using by_unit_map[OF wf_specD(2)[OF assms(1)], of "local_state H sp atts sats cans (by_unit sts)" u] eq by simp
qed

end
