(* ===== verification/Domain_Program.thy ===== *)
theory Domain_Program
  imports Domain_Projection
begin

text \<open>
  The aggregate \<open>Program\<close> of core/domain.py: its state, \<open>create\<close>, the lookups, \<open>_authorize\<close>,
  \<open>_validate\<close>, \<open>_assemble\<close> and \<open>apply\<close>, one definition per branch of \<open>apply\<close>.

  The local variables that a branch of \<open>apply\<close> rebinds (\<open>spec\<close>, \<open>status\<close>, \<open>attempts\<close>, ...) are the fields
  of the record \<open>pending\<close>. \<open>spec is self.spec\<close> is equality of values: \<open>amend\<close> returns the same object or
  one with another revision.
\<close>

section \<open>State\<close>

record program =
  pg_spec :: program_spec
  pg_status :: program_status
  pg_revision :: int
  pg_states :: "work_unit_state list"
  pg_attempts :: "attempt list"
  pg_satisfactions :: "trusted_satisfaction list"
  pg_cancellations :: "work_unit_cancellation list"
  pg_attempt_cancellations :: "attempt_cancellation list"
  pg_conclusions :: "program_conclusion list"
  pg_spec_history :: "program_spec list"

definition initial_states :: "program_spec \<Rightarrow> work_unit_state list dres" where
  "initial_states sp = mapM (\<lambda>u. mk_WorkUnitState (wu_work_unit_id u) UnitPending None None) (ps_work_units sp)"

definition create :: "program_spec \<Rightarrow> program dres" where
  "create sp =
     rbind (guard (ps_revision sp = 1 \<and> ps_parent_digest sp = None) InvalidDomainValue) (\<lambda>_.
     rbind (initial_states sp) (\<lambda>sts.
       Inr \<lparr>pg_spec = sp, pg_status = ProgramDraft, pg_revision = 0, pg_states = sts, pg_attempts = [],
         pg_satisfactions = [], pg_cancellations = [], pg_attempt_cancellations = [],
         pg_conclusions = [], pg_spec_history = [sp]\<rparr>))"

abbreviation pg_id :: "program \<Rightarrow> string" where
  "pg_id p \<equiv> ps_program_id (pg_spec p)"

definition ready_work_unit_ids :: "program \<Rightarrow> string list" where
  "ready_work_unit_ids p = (if pg_status p \<noteq> ProgramActive then []
     else map us_work_unit_id (filter (\<lambda>st. us_status st = UnitReady) (pg_states p)))"

definition ready_work_units :: "program \<Rightarrow> work_unit list dres" where
  "ready_work_units p = mapM (spec_work_unit (pg_spec p)) (ready_work_unit_ids p)"

definition program_state :: "program \<Rightarrow> string \<Rightarrow> work_unit_state dres" where
  "program_state p work_unit_id =
     (case List.find (\<lambda>st. us_work_unit_id st = work_unit_id) (pg_states p) of
        None \<Rightarrow> Inl MissingReference | Some st \<Rightarrow> Inr st)"

definition program_attempt :: "program \<Rightarrow> string \<Rightarrow> attempt dres" where
  "program_attempt p attempt_id =
     (case List.find (\<lambda>a. at_id a = attempt_id) (pg_attempts p) of
        None \<Rightarrow> Inl MissingReference | Some a \<Rightarrow> Inr a)"

definition program_resolved_inputs :: "program \<Rightarrow> string \<Rightarrow> input_binding list dres" where
  "program_resolved_inputs p work_unit_id =
     rbind (spec_work_unit (pg_spec p) work_unit_id) (\<lambda>u.
     rbind (resolved_inputs (pg_spec p) u (by_unit (pg_states p))
         (dict_from ts_reference_id (pg_satisfactions p))) (\<lambda>inputs.
       case inputs of None \<Rightarrow> Inl MissingInput | Some ins \<Rightarrow> Inr ins))"

section \<open>Authority\<close>

definition authorize :: "authority_envelope \<Rightarrow> domain_action \<Rightarrow> string \<Rightarrow> unit dres" where
  "authorize envelope action actor_id =
     (if action \<in> {AMEND_SPEC, CANCEL_PROGRAM, CANCEL_WORK_UNIT} then
        guard (actor_id = ae_owner_id envelope) AuthorityViolation
      else if action = SATISFY_WORK_UNIT then
        guard (actor_id |\<in>| ae_trusted_satisfaction_issuers envelope) AuthorityViolation
      else guard (action |\<in>| ae_allowed_actions envelope
          \<and> (actor_id = ae_owner_id envelope \<or> actor_id |\<in>| ae_delegated_actor_ids envelope))
        AuthorityViolation)"

section \<open>Validation\<close>

abbreviation spec_key :: "hash \<Rightarrow> program_spec \<Rightarrow> int \<times> string" where
  "spec_key H s \<equiv> (ps_revision s, spec_digest H s)"

definition history_map :: "hash \<Rightarrow> program_spec list \<Rightarrow> int \<times> string \<Rightarrow> program_spec option" where
  "history_map H hist = dict_from (spec_key H) hist"

definition chained :: "hash \<Rightarrow> program_spec \<times> program_spec \<Rightarrow> bool" where
  "chained H = (\<lambda>(earlier, later). ps_revision later = ps_revision earlier + 1
     \<and> ps_parent_digest later = Some (spec_digest H earlier)
     \<and> ps_program_id later = ps_program_id earlier)"

definition validate_history :: "hash \<Rightarrow> program \<Rightarrow> unit dres" where
  "validate_history H p =
     (if pg_spec_history p = [] then Inl IndexError
      else rbind (guard (last (pg_spec_history p) = pg_spec p) InvalidDomainValue) (\<lambda>_.
      rbind (guard (length (remdups (map ps_revision (pg_spec_history p))) = length (pg_spec_history p))
        InvalidDomainValue) (\<lambda>_.
      rbind (guard (list_all (chained H) (zip (pg_spec_history p) (tl (pg_spec_history p))))
        InvalidDomainValue) (\<lambda>_.
      rbind (guard (length (remdups (map at_id (pg_attempts p))) = length (pg_attempts p))
        DuplicateAttempt) (\<lambda>_.
      guard (length (remdups (map ts_reference_id (pg_satisfactions p))) = length (pg_satisfactions p))
        InvalidDomainValue)))))"

text \<open>\<open>attempt_positions\<close>\<close>

definition positions :: "attempt list \<Rightarrow> string \<Rightarrow> nat option" where
  "positions atts i = map_option fst (dict_from (\<lambda>(k, a). at_id a) (zip [0..<length atts] atts) i)"

definition validate_lineage :: "attempt list \<Rightarrow> attempt \<Rightarrow> unit dres" where
  "validate_lineage atts a =
     (case as_remediation_of (at_spec a) of
        None \<Rightarrow> Inr ()
      | Some r \<Rightarrow> (case dict_from at_id atts r of
          None \<Rightarrow> Inl InvalidDomainValue
        | Some source \<Rightarrow> (case (positions atts (at_id source), positions atts (at_id a)) of
            (Some i, Some j) \<Rightarrow> guard (i < j \<and> at_status source = AttemptFinished
              \<and> at_unit source = at_unit a
              \<and> as_spec_revision (at_spec source) = as_spec_revision (at_spec a)
              \<and> as_spec_digest (at_spec source) = as_spec_digest (at_spec a)) InvalidDomainValue
          | _ \<Rightarrow> Inl KeyError)))"

definition validate_attempt :: "hash \<Rightarrow> program \<Rightarrow> attempt \<Rightarrow> unit dres" where
  "validate_attempt H p a =
     (case history_map H (pg_spec_history p) (as_spec_revision (at_spec a), as_spec_digest (at_spec a)) of
        None \<Rightarrow> Inl InvalidDomainValue
      | Some historical \<Rightarrow>
          if as_program_id (at_spec a) \<noteq> pg_id p then Inl InvalidDomainValue
          else (case spec_work_unit historical (at_unit a) of
              Inl _ \<Rightarrow> Inl InvalidDomainValue
            | Inr _ \<Rightarrow> validate_lineage (pg_attempts p) a))"

definition validate_satisfaction :: "hash \<Rightarrow> program \<Rightarrow> trusted_satisfaction \<Rightarrow> unit dres" where
  "validate_satisfaction H p t =
     (case history_map H (pg_spec_history p) (ts_spec_revision t, ts_spec_digest t) of
        None \<Rightarrow> Inl InvalidDomainValue
      | Some historical \<Rightarrow>
          if ts_program_id t \<noteq> pg_id p then Inl InvalidDomainValue
          else rbind (fingerprint H historical (ts_work_unit_id t)) (\<lambda>fp.
          rbind (guard (ts_work_unit_fingerprint t = fp) InvalidDomainValue) (\<lambda>_.
          rbind (case dict_from at_id (pg_attempts p) (ts_source_attempt_id t) of
              None \<Rightarrow> Inl InvalidDomainValue
            | Some source \<Rightarrow> guard (at_status source = AttemptFinished \<and> at_unit source = ts_work_unit_id t
                \<and> as_spec_revision (at_spec source) = ts_spec_revision t
                \<and> as_spec_digest (at_spec source) = ts_spec_digest t) InvalidDomainValue) (\<lambda>_.
          rbind (spec_work_unit historical (ts_work_unit_id t)) (\<lambda>u.
          rbind (guard (fset_of_list (map ib_name (ts_output_bindings t)) = wu_outputs u) InvalidDomainValue) (\<lambda>_.
            guard (0 < ts_record_order t \<and> ts_record_order t \<le> pg_revision p) InvalidDomainValue))))))"

definition validate_cancellation :: "hash \<Rightarrow> program \<Rightarrow> work_unit_cancellation \<Rightarrow> unit dres" where
  "validate_cancellation H p c =
     (case history_map H (pg_spec_history p) (wc_spec_revision c, wc_spec_digest c) of
        None \<Rightarrow> Inl InvalidDomainValue
      | Some historical \<Rightarrow> rbind (fingerprint H historical (wc_work_unit_id c)) (\<lambda>fp.
          guard (wc_work_unit_fingerprint c = fp \<and> \<not> wc_record_order c > pg_revision p) InvalidDomainValue))"

definition validate_projection :: "hash \<Rightarrow> program \<Rightarrow> unit dres" where
  "validate_projection H p =
     (if pg_status p = ProgramDraft then Inr ()
      else rbind (project H (pg_spec p) (pg_attempts p) (pg_satisfactions p) (pg_cancellations p)) (\<lambda>sts.
        guard (pg_states p = sts) InvalidDomainValue))"

fun validate_live :: "states \<Rightarrow> string list \<Rightarrow> attempt list \<Rightarrow> unit dres" where
  "validate_live M live_by_unit [] = Inr ()"
| "validate_live M live_by_unit (a # atts) =
     (if \<not> live a then validate_live M live_by_unit atts
      else (case M (at_unit a) of
          None \<Rightarrow> Inl InvalidDomainValue
        | Some st \<Rightarrow>
            if at_unit a \<in> set live_by_unit \<or> us_status st = UnitCancelled then Inl InvalidDomainValue
            else if us_status st = UnitActive \<and> us_active_attempt_id st \<noteq> Some (at_id a)
              then Inl InvalidDomainValue
            else validate_live M (at_unit a # live_by_unit) atts))"

definition validate_status :: "program \<Rightarrow> unit dres" where
  "validate_status p =
     rbind (guard (\<not> (pg_status p = ProgramCompleted
         \<and> list_ex (\<lambda>st. us_status st \<noteq> UnitSatisfied) (pg_states p))) InvalidDomainValue) (\<lambda>_.
       guard (\<not> (pg_status p = ProgramCancelled \<and> list_ex live (pg_attempts p))) InvalidDomainValue)"

definition validate :: "hash \<Rightarrow> program \<Rightarrow> unit dres" where
  "validate H p =
     rbind (validate_history H p) (\<lambda>_.
     rbind (each (validate_attempt H p) (pg_attempts p)) (\<lambda>_.
     rbind (each (validate_satisfaction H p) (pg_satisfactions p)) (\<lambda>_.
     rbind (each (validate_cancellation H p) (pg_cancellations p)) (\<lambda>_.
     rbind (validate_projection H p) (\<lambda>_.
     rbind (validate_live (by_unit (pg_states p)) [] (pg_attempts p)) (\<lambda>_.
       validate_status p))))))"

section \<open>Assembly\<close>

record pending =
  ap_spec :: program_spec
  ap_status :: program_status
  ap_attempts :: "attempt list"
  ap_satisfactions :: "trusted_satisfaction list"
  ap_cancellations :: "work_unit_cancellation list"
  ap_attempt_cancellations :: "attempt_cancellation list"
  ap_spec_history :: "program_spec list"

definition locals :: "program \<Rightarrow> pending" where
  "locals p = \<lparr>ap_spec = pg_spec p, ap_status = pg_status p, ap_attempts = pg_attempts p,
     ap_satisfactions = pg_satisfactions p, ap_cancellations = pg_cancellations p,
     ap_attempt_cancellations = pg_attempt_cancellations p, ap_spec_history = pg_spec_history p\<rparr>"

definition assembled_states :: "hash \<Rightarrow> pending \<Rightarrow> work_unit_state list dres" where
  "assembled_states H q = (if ap_status q = ProgramDraft then initial_states (ap_spec q)
     else project H (ap_spec q) (ap_attempts q) (ap_satisfactions q) (ap_cancellations q))"

definition assemble :: "hash \<Rightarrow> program \<Rightarrow> pending \<Rightarrow> program dres" where
  "assemble H p q =
     rbind (assembled_states H q) (\<lambda>sts.
     let st = (if ap_status q \<notin> {ProgramDraft, ProgramCancelled} then next_status (ap_status q) sts
               else ap_status q);
         order = pg_revision p + 1 in
     rbind (if st \<in> {ProgramCompleted, ProgramCancelled} \<and> (pg_status p \<noteq> st \<or> ap_spec q \<noteq> pg_spec p)
            then rbind (mk_ProgramConclusion st (ps_revision (ap_spec q)) (spec_digest H (ap_spec q)) order)
              (\<lambda>c. Inr (pg_conclusions p @ [c]))
            else Inr (pg_conclusions p)) (\<lambda>conclusions.
     let inst = \<lparr>pg_spec = ap_spec q, pg_status = st, pg_revision = order, pg_states = sts,
           pg_attempts = ap_attempts q, pg_satisfactions = ap_satisfactions q,
           pg_cancellations = ap_cancellations q, pg_attempt_cancellations = ap_attempt_cancellations q,
           pg_conclusions = conclusions, pg_spec_history = ap_spec_history q\<rparr> in
     rbind (validate H inst) (\<lambda>_. Inr inst)))"

section \<open>Commands\<close>

text \<open>\<open>cancel_live\<close>; the identities and the reason are its arguments, \<open>order\<close> and \<open>actor_id\<close> are captured.\<close>

definition cancelled_ids :: "string list \<Rightarrow> attempt list \<Rightarrow> string fset" where
  "cancelled_ids ids atts = fset_of_list (map at_id (filter (\<lambda>a. at_id a \<in> set ids \<and> live a) atts))"

definition cancel_live :: "int \<Rightarrow> string \<Rightarrow> string list \<Rightarrow> string \<Rightarrow> pending \<Rightarrow> pending dres" where
  "cancel_live order actor_id ids reason q =
     rbind (mapM (\<lambda>a. if at_id a |\<in>| cancelled_ids ids (ap_attempts q)
         then mk_Attempt (at_spec a) AttemptCancelled (at_actor_id a) else Inr a) (ap_attempts q)) (\<lambda>atts.
     rbind (mapM (\<lambda>i. mk_AttemptCancellation i actor_id reason order)
         (sorted_list_of_fset (cancelled_ids ids (ap_attempts q)))) (\<lambda>cs.
       Inr (q\<lparr>ap_attempts := atts, ap_attempt_cancellations := ap_attempt_cancellations q @ cs\<rparr>)))"

definition apply_activate :: "pending \<Rightarrow> pending dres" where
  "apply_activate q = rbind (guard (ap_status q = ProgramDraft) IllegalTransition)
     (\<lambda>_. Inr (q\<lparr>ap_status := ProgramActive\<rparr>))"

definition apply_pause :: "pending \<Rightarrow> pending dres" where
  "apply_pause q = rbind (guard (ap_status q = ProgramActive) IllegalTransition)
     (\<lambda>_. Inr (q\<lparr>ap_status := ProgramPaused\<rparr>))"

definition apply_resume :: "pending \<Rightarrow> pending dres" where
  "apply_resume q = rbind (guard (ap_status q = ProgramPaused) IllegalTransition)
     (\<lambda>_. Inr (q\<lparr>ap_status := ProgramActive\<rparr>))"

definition apply_cancel_program :: "int \<Rightarrow> string \<Rightarrow> pending \<Rightarrow> pending dres" where
  "apply_cancel_program order actor_id q =
     rbind (guard (ap_status q \<in> {ProgramDraft, ProgramActive, ProgramPaused}) IllegalTransition) (\<lambda>_.
     rbind (cancel_live order actor_id (map at_id (ap_attempts q)) ''Program abandonment'' q) (\<lambda>q'.
       Inr (q'\<lparr>ap_status := ProgramCancelled\<rparr>)))"

text \<open>The loop over \<open>topological_order\<close> that collects the descendants of an abandoned unit.\<close>

fun add_affected :: "program_spec \<Rightarrow> string list \<Rightarrow> string list \<Rightarrow> string list dres" where
  "add_affected sp [] affected = Inr affected"
| "add_affected sp (d # ds) affected =
     rbind (spec_work_unit sp d) (\<lambda>u.
       add_affected sp ds (if list_ex (\<lambda>x. x \<in> set affected) (wu_dependencies u)
         then List.insert d affected else affected))"

definition apply_cancel_unit :: "hash \<Rightarrow> program \<Rightarrow> int \<Rightarrow> string \<Rightarrow> string \<Rightarrow> string \<Rightarrow> pending \<Rightarrow> pending dres" where
  "apply_cancel_unit H p order actor_id work_unit_id reason q =
     rbind (guard (ap_status q \<in> {ProgramActive, ProgramPaused}) IllegalTransition) (\<lambda>_.
     rbind (spec_work_unit (ap_spec q) work_unit_id) (\<lambda>u.
     rbind (spec_topological_order (ap_spec q)) (\<lambda>topo.
     rbind (add_affected (ap_spec q) topo [wu_work_unit_id u]) (\<lambda>affected.
     rbind (program_state p (wu_work_unit_id u)) (\<lambda>st.
     rbind (guard (us_status st \<noteq> UnitCancelled) IllegalTransition) (\<lambda>_.
     rbind (fingerprint H (ap_spec q) (wu_work_unit_id u)) (\<lambda>fp.
     rbind (mk_WorkUnitCancellation (wu_work_unit_id u) fp (ps_revision (ap_spec q))
         (spec_digest H (ap_spec q)) actor_id reason order) (\<lambda>c.
       cancel_live order actor_id
         (map at_id (filter (\<lambda>a. at_unit a \<in> set affected) (ap_attempts q)))
         ''WorkUnit abandonment'' (q\<lparr>ap_cancellations := ap_cancellations q @ [c]\<rparr>)))))))))"

definition remediation_ok :: "hash \<Rightarrow> program \<Rightarrow> work_unit \<Rightarrow> attempt_spec \<Rightarrow> pending \<Rightarrow> unit dres" where
  "remediation_ok H p u requested q =
     (case as_remediation_of requested of
        None \<Rightarrow> Inr ()
      | Some r \<Rightarrow> rbind (program_attempt p r) (\<lambda>source.
          guard (at_status source = AttemptFinished \<and> at_unit source = wu_work_unit_id u
            \<and> (as_spec_revision (at_spec source), as_spec_digest (at_spec source)) = spec_key H (ap_spec q)
            \<and> (case List.find (\<lambda>a. at_unit a = wu_work_unit_id u) (rev (ap_attempts q)) of
                 None \<Rightarrow> False | Some previous \<Rightarrow> at_id previous = at_id source)) IllegalTransition))"

definition apply_prepare :: "hash \<Rightarrow> program \<Rightarrow> string \<Rightarrow> attempt_spec \<Rightarrow> pending \<Rightarrow> pending dres" where
  "apply_prepare H p actor_id requested q =
     rbind (guard (as_program_id requested = pg_id p) AuthorityViolation) (\<lambda>_.
     rbind (guard ((as_spec_revision requested, as_spec_digest requested) = spec_key H (ap_spec q))
       StaleRevision) (\<lambda>_.
     rbind (spec_work_unit (ap_spec q) (as_work_unit_id requested)) (\<lambda>u.
     rbind (guard (ap_status q = ProgramActive) IllegalTransition) (\<lambda>_.
     rbind (program_state p (wu_work_unit_id u)) (\<lambda>st.
     rbind (guard (us_status st = UnitReady) IllegalTransition) (\<lambda>_.
     rbind (guard (\<not> list_ex (\<lambda>a. at_id a = as_attempt_id requested) (ap_attempts q)) DuplicateAttempt) (\<lambda>_.
     rbind (guard (\<not> list_ex (\<lambda>a. at_unit a = wu_work_unit_id u \<and> live a) (ap_attempts q))
       IllegalTransition) (\<lambda>_.
     rbind (program_resolved_inputs p (wu_work_unit_id u)) (\<lambda>inputs.
     rbind (guard (as_effective_inputs requested = inputs) MissingInput) (\<lambda>_.
     rbind (remediation_ok H p u requested q) (\<lambda>_.
     rbind (guard (int (length (ap_attempts q))
         < min (bp_max_attempts (ps_budget (ap_spec q))) (ae_max_attempts (ps_authority (ap_spec q))))
       BudgetExceeded) (\<lambda>_.
     rbind (guard (int (length (filter live (ap_attempts q))) < bp_max_active_attempts (ps_budget (ap_spec q)))
       BudgetExceeded) (\<lambda>_.
     rbind (mk_Attempt requested AttemptPrepared actor_id) (\<lambda>a.
       Inr (q\<lparr>ap_attempts := ap_attempts q @ [a]\<rparr>)))))))))))))))"

text \<open>The replacement of one attempt's status.\<close>

definition replace_status :: "string \<Rightarrow> attempt_status \<Rightarrow> pending \<Rightarrow> pending dres" where
  "replace_status attempt_id replacement q =
     rbind (mapM (\<lambda>a. if at_id a = attempt_id then mk_Attempt (at_spec a) replacement (at_actor_id a)
         else Inr a) (ap_attempts q)) (\<lambda>atts. Inr (q\<lparr>ap_attempts := atts\<rparr>))"

definition apply_start :: "program \<Rightarrow> string \<Rightarrow> pending \<Rightarrow> pending dres" where
  "apply_start p attempt_id q =
     rbind (program_attempt p attempt_id) (\<lambda>current.
     rbind (program_state p (at_unit current)) (\<lambda>work_state.
     rbind (guard (ap_status q = ProgramActive \<and> at_status current = AttemptPrepared
         \<and> us_active_attempt_id work_state = Some attempt_id) IllegalTransition) (\<lambda>_.
       replace_status attempt_id AttemptExecuting q)))"

definition apply_finish :: "program \<Rightarrow> string \<Rightarrow> pending \<Rightarrow> pending dres" where
  "apply_finish p attempt_id q =
     rbind (program_attempt p attempt_id) (\<lambda>current.
     rbind (guard (ap_status q \<in> {ProgramActive, ProgramPaused, ProgramCompleted}
         \<and> at_status current = AttemptExecuting) IllegalTransition) (\<lambda>_.
       replace_status attempt_id AttemptFinished q))"

definition apply_fail :: "program \<Rightarrow> string \<Rightarrow> pending \<Rightarrow> pending dres" where
  "apply_fail p attempt_id q =
     rbind (program_attempt p attempt_id) (\<lambda>current.
     rbind (guard (ap_status q \<in> {ProgramActive, ProgramPaused, ProgramCompleted} \<and> live current)
       IllegalTransition) (\<lambda>_. replace_status attempt_id AttemptFailed q))"

definition apply_cancel_attempt :: "program \<Rightarrow> int \<Rightarrow> string \<Rightarrow> string \<Rightarrow> pending \<Rightarrow> pending dres" where
  "apply_cancel_attempt p order actor_id attempt_id q =
     rbind (program_attempt p attempt_id) (\<lambda>current.
     rbind (guard (ap_status q \<in> {ProgramActive, ProgramPaused, ProgramCompleted} \<and> live current)
       IllegalTransition) (\<lambda>_. cancel_live order actor_id [attempt_id] ''Attempt cancellation'' q))"

definition apply_satisfy :: "hash \<Rightarrow> program \<Rightarrow> int \<Rightarrow> string \<Rightarrow> trusted_satisfaction \<Rightarrow> pending \<Rightarrow> pending dres" where
  "apply_satisfy H p order actor_id sat q =
     rbind (guard (ap_status q \<in> {ProgramActive, ProgramPaused, ProgramCompleted}) IllegalTransition) (\<lambda>_.
     rbind (guard (ts_issuer_id sat = actor_id) AuthorityViolation) (\<lambda>_.
     rbind (guard (ts_program_id sat = pg_id p) AuthorityViolation) (\<lambda>_.
     case List.find (\<lambda>s. spec_key H s = (ts_spec_revision sat, ts_spec_digest sat)) (ap_spec_history q) of
       None \<Rightarrow> Inl StaleRevision
     | Some historical \<Rightarrow>
         rbind (spec_work_unit historical (ts_work_unit_id sat)) (\<lambda>u.
         rbind (fingerprint H historical (wu_work_unit_id u)) (\<lambda>fp.
         rbind (guard (ts_work_unit_fingerprint sat = fp) StaleRevision) (\<lambda>_.
         rbind (guard (ts_record_order sat = 0 \<and>
             \<not> list_ex (\<lambda>t. ts_reference_id t = ts_reference_id sat) (ap_satisfactions q)) IllegalTransition) (\<lambda>_.
         rbind (program_attempt p (ts_source_attempt_id sat)) (\<lambda>source.
         rbind (guard (at_status source = AttemptFinished) IllegalTransition) (\<lambda>_.
         rbind (guard (as_program_id (at_spec source) = pg_id p \<and> at_unit source = wu_work_unit_id u)
           AuthorityViolation) (\<lambda>_.
         rbind (guard (as_spec_revision (at_spec source) = ts_spec_revision sat
             \<and> as_spec_digest (at_spec source) = ts_spec_digest sat) StaleRevision) (\<lambda>_.
         rbind (guard (fset_of_list (map ib_name (ts_output_bindings sat)) = wu_outputs u) MissingInput) (\<lambda>_.
         rbind (mk_TrustedSatisfaction (ts_reference_id sat) (ts_program_id sat) (ts_work_unit_id sat)
             (ts_spec_revision sat) (ts_spec_digest sat) (ts_work_unit_fingerprint sat)
             (ts_issuer_id sat) (ts_source_attempt_id sat) (ts_output_bindings sat) order) (\<lambda>t.
           Inr (q\<lparr>ap_satisfactions := ap_satisfactions q @ [t]\<rparr>)))))))))))))) "

subsection \<open>Amendment\<close>

text \<open>
  The body of the \<open>for attempt in attempts\<close> loop of the amendment: is the live attempt withdrawn? A unit
  that left the specification and a citation of no historical specification are the caught exceptions.
\<close>

definition withdrawn :: "hash \<Rightarrow> pending \<Rightarrow> states \<Rightarrow> fact_map \<Rightarrow> attempt \<Rightarrow> bool dres" where
  "withdrawn H q by_state by_fact a =
     (let sp = ap_spec q; authority = ps_authority sp; required =
        (if at_status a = AttemptPrepared then START_ATTEMPT else FINISH_ATTEMPT) in
      case spec_work_unit sp (at_unit a) of
        Inl _ \<Rightarrow> Inr True
      | Inr u \<Rightarrow>
         (case List.find (\<lambda>s. spec_key H s = (as_spec_revision (at_spec a), as_spec_digest (at_spec a)))
             (ap_spec_history q) of
            None \<Rightarrow> Inr True
          | Some source_spec \<Rightarrow>
             rbind (resolved_inputs sp u by_state by_fact) (\<lambda>inputs.
             rbind (fingerprint H source_spec (at_unit a)) (\<lambda>fp.
             rbind (fingerprint H sp (at_unit a)) (\<lambda>fp'.
               if fp \<noteq> fp' then Inr True
               else (case inputs of
                   None \<Rightarrow> Inr True
                 | Some ins \<Rightarrow>
                     if \<not> same_subject (as_effective_inputs (at_spec a)) ins then Inr True
                     else if required |\<notin>| ae_allowed_actions authority then Inr True
                     else if at_actor_id a \<noteq> ae_owner_id authority
                       \<and> at_actor_id a |\<notin>| ae_delegated_actor_ids authority then Inr True
                     else (case by_state (at_unit a) of
                         None \<Rightarrow> Inl KeyError
                       | Some st \<Rightarrow> Inr (us_status st = UnitCancelled))))))))"

fun collect_invalid :: "hash \<Rightarrow> pending \<Rightarrow> states \<Rightarrow> fact_map \<Rightarrow> attempt list \<Rightarrow> string list dres" where
  "collect_invalid H q by_state by_fact [] = Inr []"
| "collect_invalid H q by_state by_fact (a # atts) =
     (if \<not> live a then collect_invalid H q by_state by_fact atts
      else rbind (withdrawn H q by_state by_fact a) (\<lambda>w.
        rbind (collect_invalid H q by_state by_fact atts) (\<lambda>ids.
          Inr (if w then at_id a # ids else ids))))"

definition invalid_attempts :: "hash \<Rightarrow> pending \<Rightarrow> string list dres" where
  "invalid_attempts H q =
     rbind (project H (ap_spec q) (ap_attempts q) (ap_satisfactions q) (ap_cancellations q)) (\<lambda>projected.
       collect_invalid H q (by_unit projected) (dict_from ts_reference_id (ap_satisfactions q)) (ap_attempts q))"

definition withdrawal_reason :: string where
  "withdrawal_reason = ''amendment withdrew Attempt subject or operational authority''"

lemma collect_invalid_live:
  "collect_invalid H q M F atts = Inr ids \<Longrightarrow> i \<in> set ids \<Longrightarrow> \<exists>a \<in> set atts. live a \<and> at_id a = i"
  by (induction atts arbitrary: ids) (auto simp: res_simps split: if_splits)

lemma not_live_cancelled [simp]: "\<not> live \<lparr>at_spec = sp, at_status = AttemptCancelled, at_actor_id = b\<rparr>"
  by (simp add: live_def)

lemma cancel_live_attempts:
  assumes "cancel_live order actor_id ids reason q = Inr q'"
  shows "ap_attempts q' = map (\<lambda>a. if at_id a |\<in>| cancelled_ids ids (ap_attempts q)
    then a\<lparr>at_status := AttemptCancelled\<rparr> else a) (ap_attempts q)"
proof -
  from assms have "mapM (\<lambda>a. if at_id a |\<in>| cancelled_ids ids (ap_attempts q)
      then mk_Attempt (at_spec a) AttemptCancelled (at_actor_id a) else Inr a) (ap_attempts q) = Inr (ap_attempts q')"
    by (auto simp: cancel_live_def res_simps)
  then show ?thesis by (rule mapM_map) (auto split: if_splits)
qed

lemma cancel_live_decreases:
  assumes "cancel_live order actor_id ids reason q = Inr q'"
    and "a \<in> set (ap_attempts q)" and "live a" and "at_id a \<in> set ids"
  shows "length (filter live (ap_attempts q')) < length (filter live (ap_attempts q))"
proof -
  let ?c = "cancelled_ids ids (ap_attempts q)"
  have eq: "filter live (ap_attempts q') = filter (\<lambda>a. live a \<and> at_id a |\<notin>| ?c) (ap_attempts q)"
  proof -
    have "filter live (map (\<lambda>a. if at_id a |\<in>| ?c then a\<lparr>at_status := AttemptCancelled\<rparr> else a) atts)
        = filter (\<lambda>a. live a \<and> at_id a |\<notin>| ?c) atts" for atts
      by (induction atts) (auto simp: live_def)
    then show ?thesis by (simp add: cancel_live_attempts[OF assms(1)])
  qed
  have "at_id a |\<in>| ?c" using assms(2-4) by (auto simp: cancelled_ids_def fset_of_list_elem)
  then have "length (filter (\<lambda>a. at_id a |\<notin>| ?c) (filter live (ap_attempts q))) < length (filter live (ap_attempts q))"
    using assms(2,3) by (intro length_filter_less) auto
  then show ?thesis by (simp add: eq conj_commute)
qed

text \<open>\<open>while True\<close>: every round withdraws at least one live attempt or is the last.\<close>

function amend_loop :: "hash \<Rightarrow> int \<Rightarrow> string \<Rightarrow> pending \<Rightarrow> pending dres" where
  "amend_loop H order actor_id q =
     rbind (invalid_attempts H q) (\<lambda>invalid.
       if invalid = [] then Inr q
       else rbind (cancel_live order actor_id invalid withdrawal_reason q) (amend_loop H order actor_id))"
  by auto
termination
proof (relation "measure (\<lambda>(H, order, actor_id, q). length (filter live (ap_attempts q)))")
  fix H :: hash and order :: int and actor_id :: string and q q' :: pending and invalid :: "string list"
  assume inv: "invalid_attempts H q = Inr invalid" "invalid \<noteq> []"
    and c: "cancel_live order actor_id invalid withdrawal_reason q = Inr q'"
  obtain i where i: "i \<in> set invalid" using inv(2) by (cases invalid) auto
  with inv(1) obtain a where "a \<in> set (ap_attempts q)" "live a" "at_id a = i"
    unfolding invalid_attempts_def rbind_eq_Inr using collect_invalid_live by blast
  then show "((H, order, actor_id, q'), (H, order, actor_id, q))
      \<in> measure (\<lambda>(H, order, actor_id, q). length (filter live (ap_attempts q)))"
    using cancel_live_decreases[OF c] i by auto
qed simp

declare amend_loop.simps [simp del]

text \<open>The result \<open>None\<close> is \<open>return self\<close>: the amendment changes nothing.\<close>

definition apply_amend :: "hash \<Rightarrow> int \<Rightarrow> string \<Rightarrow> spec_amendment \<Rightarrow> pending \<Rightarrow> pending option dres" where
  "apply_amend H order actor_id amendment q =
     rbind (guard (ap_status q \<noteq> ProgramCancelled) IllegalTransition) (\<lambda>_.
     rbind (amend H (ap_spec q) amendment) (\<lambda>sp.
       if sp = ap_spec q then Inr None
       else rbind (amend_loop H order actor_id
           (q\<lparr>ap_spec := sp, ap_spec_history := ap_spec_history q @ [sp]\<rparr>)) (\<lambda>q'. Inr (Some q'))))"

section \<open>apply\<close>

definition handle :: "hash \<Rightarrow> program \<Rightarrow> domain_command \<Rightarrow> pending option dres" where
  "handle H p c =
     (let q = locals p; order = pg_revision p + 1; changed = (\<lambda>r. rbind r (\<lambda>q'. Inr (Some q'))) in
      case c of
        ActivateProgram _ _ \<Rightarrow> changed (apply_activate q)
      | PauseProgram _ _ \<Rightarrow> changed (apply_pause q)
      | ResumeProgram _ _ \<Rightarrow> changed (apply_resume q)
      | CancelProgram _ actor_id \<Rightarrow> changed (apply_cancel_program order actor_id q)
      | CancelWorkUnit _ actor_id work_unit_id reason \<Rightarrow>
          changed (apply_cancel_unit H p order actor_id work_unit_id reason q)
      | PrepareAttempt _ actor_id requested \<Rightarrow> changed (apply_prepare H p actor_id requested q)
      | StartAttempt _ _ attempt_id \<Rightarrow> changed (apply_start p attempt_id q)
      | FinishAttempt _ _ attempt_id \<Rightarrow> changed (apply_finish p attempt_id q)
      | FailAttempt _ _ attempt_id \<Rightarrow> changed (apply_fail p attempt_id q)
      | CancelAttempt _ actor_id attempt_id \<Rightarrow> changed (apply_cancel_attempt p order actor_id attempt_id q)
      | SatisfyWorkUnit _ actor_id sat \<Rightarrow> changed (apply_satisfy H p order actor_id sat q)
      | AmendProgramSpec _ actor_id amendment \<Rightarrow> apply_amend H order actor_id amendment q)"

definition apply_command :: "hash \<Rightarrow> program \<Rightarrow> domain_command \<Rightarrow> program dres" where
  "apply_command H p c =
     rbind (guard (cmd_expected_revision c = pg_revision p) StaleRevision) (\<lambda>_.
     rbind (authorize (ps_authority (pg_spec p)) (action_of c) (cmd_actor_id c)) (\<lambda>_.
     rbind (handle H p c) (\<lambda>q.
       case q of None \<Rightarrow> Inr p | Some q' \<Rightarrow> assemble H p q')))"

definition dispatch :: "hash \<Rightarrow> program \<Rightarrow> domain_command \<Rightarrow> program dres" where
  "dispatch H p c = apply_command H p c"

text \<open>The shorthand methods build the command first, whose \<open>__post_init__\<close> may raise.\<close>

definition issue :: "hash \<Rightarrow> program \<Rightarrow> domain_command \<Rightarrow> program dres" where
  "issue H p c = rbind (guard (command_ok c) InvalidDomainValue) (\<lambda>_. apply_command H p c)"

definition activate :: "hash \<Rightarrow> program \<Rightarrow> int \<Rightarrow> string \<Rightarrow> program dres" where
  "activate H p expected_revision actor_id = issue H p (ActivateProgram expected_revision actor_id)"

definition pause :: "hash \<Rightarrow> program \<Rightarrow> int \<Rightarrow> string \<Rightarrow> program dres" where
  "pause H p expected_revision actor_id = issue H p (PauseProgram expected_revision actor_id)"

definition resume :: "hash \<Rightarrow> program \<Rightarrow> int \<Rightarrow> string \<Rightarrow> program dres" where
  "resume H p expected_revision actor_id = issue H p (ResumeProgram expected_revision actor_id)"

definition cancel :: "hash \<Rightarrow> program \<Rightarrow> int \<Rightarrow> string \<Rightarrow> program dres" where
  "cancel H p expected_revision actor_id = issue H p (CancelProgram expected_revision actor_id)"

end
