(* ===== verification/Projection_Properties.thy ===== *)
theory Projection_Properties
  imports Domain_Projection
begin

text \<open>
  What the projection promises about the graph: cancellation is inherited along dependencies and depends
  on the specification and the recorded cancellations alone; a unit that is ready, active or satisfied
  has only satisfied predecessors; a satisfied unit cites a recorded fact under its current fingerprint.
\<close>

abbreviation status_of :: "work_unit_state list \<Rightarrow> string \<Rightarrow> work_unit_status" where
  "status_of sts i \<equiv> us_status (the (by_unit sts i))"

lemma wf_dep_rel: "wf_graph units \<Longrightarrow> wf (dep_rel units)"
proof (rule finite_acyclic_wf)
  have "dep_rel units = (\<Union>u \<in> set units. (\<lambda>d. (d, wu_work_unit_id u)) ` set (wu_dependencies u))"
    by (auto simp: dep_rel_def)
  then show "finite (dep_rel units)" by simp
qed (simp add: wf_graph_def)

lemma unit_by_id:
  assumes "distinct (unit_ids us)" and "u \<in> set us" and "v \<in> set us" and "wu_work_unit_id u = wu_work_unit_id v"
  shows "u = v"
  using assms by (meson distinct_map inj_onD)

lemma dep_rel_iff:
  assumes "distinct (unit_ids us)" and "u \<in> set us"
  shows "(d, wu_work_unit_id u) \<in> dep_rel us \<longleftrightarrow> d \<in> set (wu_dependencies u)"
proof
  assume "(d, wu_work_unit_id u) \<in> dep_rel us"
  then obtain v where v: "v \<in> set us" "wu_work_unit_id v = wu_work_unit_id u" "d \<in> set (wu_dependencies v)"
    by (auto simp: dep_rel_def)
  then show "d \<in> set (wu_dependencies u)" using unit_by_id[OF assms(1) v(1) assms(2) v(2)] by simp
next
  assume "d \<in> set (wu_dependencies u)"
  then show "(d, wu_work_unit_id u) \<in> dep_rel us" using assms(2) by (auto simp: dep_rel_def)
qed

lemma ancestors_unfold:
  assumes "distinct (unit_ids us)" and "u \<in> set us"
  shows "ancestors us (wu_work_unit_id u) = insert (wu_work_unit_id u) (\<Union>d \<in> set (wu_dependencies u). ancestors us d)"
proof (intro equalityI subsetI)
  fix j assume "j \<in> ancestors us (wu_work_unit_id u)"
  then have "(j, wu_work_unit_id u) \<in> (dep_rel us)\<^sup>*" by (simp add: ancestors_def)
  then show "j \<in> insert (wu_work_unit_id u) (\<Union>d \<in> set (wu_dependencies u). ancestors us d)"
    by (cases rule: rtranclE) (auto simp: ancestors_def dep_rel_iff[OF assms])
next
  fix j assume "j \<in> insert (wu_work_unit_id u) (\<Union>d \<in> set (wu_dependencies u). ancestors us d)"
  then show "j \<in> ancestors us (wu_work_unit_id u)"
    by (auto simp: ancestors_def dep_rel_iff[OF assms, symmetric] intro: rtrancl_into_rtrancl)
qed

text \<open>Induction over the units of a specification along their dependencies.\<close>

lemma unit_induct [consumes 2, case_names unit]:
  assumes "wf_spec sp" and "u \<in> set (ps_work_units sp)"
    and step: "\<And>u. u \<in> set (ps_work_units sp) \<Longrightarrow>
      (\<And>v. v \<in> set (ps_work_units sp) \<Longrightarrow> wu_work_unit_id v \<in> set (wu_dependencies u) \<Longrightarrow> P v) \<Longrightarrow> P u"
  shows "P u"
proof -
  have "\<forall>u \<in> set (ps_work_units sp). wu_work_unit_id u = i \<longrightarrow> P u" for i
  proof (induction i rule: wf_induct_rule[OF wf_dep_rel[OF wf_specD(1)[OF assms(1)]]])
    case (1 i)
    show ?case
    proof (intro ballI impI)
      fix u assume u: "u \<in> set (ps_work_units sp)" "wu_work_unit_id u = i"
      show "P u"
      proof (rule step[OF u(1)])
        fix v assume v: "v \<in> set (ps_work_units sp)" "wu_work_unit_id v \<in> set (wu_dependencies u)"
        then have "(wu_work_unit_id v, i) \<in> dep_rel (ps_work_units sp)"
          using dep_rel_iff[OF wf_specD(2)[OF assms(1)] u(1)] u(2) by simp
        with 1 v(1) show "P v" by simp
      qed
    qed
  qed
  with assms(2) show ?thesis by simp
qed

lemma dep_unit:
  assumes "wf_spec sp" and "u \<in> set (ps_work_units sp)" and "d \<in> set (wu_dependencies u)"
  obtains v where "v \<in> set (ps_work_units sp)" "wu_work_unit_id v = d"
  using assms wf_specD(4)[OF assms(1,2)] by auto

section \<open>Cancellation\<close>

definition cancelled_unit :: "hash \<Rightarrow> program_spec \<Rightarrow> work_unit_cancellation list \<Rightarrow> string \<Rightarrow> bool" where
  "cancelled_unit H sp cans i \<longleftrightarrow>
     (\<exists>j \<in> ancestors (ps_work_units sp) i. cancelled_by cans j (unit_fp H sp j))"

lemma cancelled_unit_unfold:
  assumes "wf_spec sp" and "u \<in> set (ps_work_units sp)"
  shows "cancelled_unit H sp cans (wu_work_unit_id u) \<longleftrightarrow>
    cancelled_by cans (wu_work_unit_id u) (unit_fp H sp (wu_work_unit_id u))
    \<or> (\<exists>d \<in> set (wu_dependencies u). cancelled_unit H sp cans d)"
  unfolding cancelled_unit_def ancestors_unfold[OF wf_specD(2)[OF assms(1)] assms(2)] by auto

lemma local_state_cancelled_iff:
  "us_status (local_state H sp atts sats cans M u) = UnitCancelled \<longleftrightarrow> is_cancelled H sp cans M u"
  by (rule local_state_cases[of H sp atts sats cans M u]) simp_all

lemma project_status:
  assumes "wf_spec sp" and "wf_facts atts sats" and "project H sp atts sats cans = Inr sts"
    and "u \<in> set (ps_work_units sp)"
  shows "status_of sts (wu_work_unit_id u) = us_status (local_state H sp atts sats cans (by_unit sts) u)"
  using project_local(3)[OF assms] by simp

lemma project_cancelled_iff:
  assumes "wf_spec sp" and "wf_facts atts sats" and "project H sp atts sats cans = Inr sts"
    and "u \<in> set (ps_work_units sp)"
  shows "status_of sts (wu_work_unit_id u) = UnitCancelled \<longleftrightarrow> cancelled_unit H sp cans (wu_work_unit_id u)"
  using assms(1,4)
proof (induction u rule: unit_induct)
  case (unit u)
  have "status_of sts d = UnitCancelled \<longleftrightarrow> cancelled_unit H sp cans d" if "d \<in> set (wu_dependencies u)" for d
    using dep_unit[OF assms(1) unit(1) that] unit(2) that by metis
  then show ?case
    by (auto simp: project_status[OF assms(1-3) unit(1)] local_state_cancelled_iff
        cancelled_unit_unfold[OF assms(1) unit(1)])
qed

section \<open>Dependency safety\<close>

lemma project_runnable_deps:
  assumes "wf_spec sp" and "wf_facts atts sats" and "project H sp atts sats cans = Inr sts"
    and "u \<in> set (ps_work_units sp)"
    and "status_of sts (wu_work_unit_id u) \<in> {UnitReady, UnitActive, UnitSatisfied}"
  shows "deps_satisfied (by_unit sts) u"
  using assms(5) unfolding project_status[OF assms(1-4)]
  by (cases rule: local_state_cases[of H sp atts sats cans "by_unit sts" u]) simp_all

lemma project_ancestors_satisfied:
  assumes "wf_spec sp" and "wf_facts atts sats" and "project H sp atts sats cans = Inr sts"
    and "u \<in> set (ps_work_units sp)"
    and "status_of sts (wu_work_unit_id u) \<in> {UnitReady, UnitActive, UnitSatisfied}"
    and "j \<in> ancestors (ps_work_units sp) (wu_work_unit_id u)" and "j \<noteq> wu_work_unit_id u"
  shows "status_of sts j = UnitSatisfied"
  using assms(1,4-7)
proof (induction u arbitrary: j rule: unit_induct)
  case (unit u)
  from unit.prems(2,3) obtain d where d: "d \<in> set (wu_dependencies u)" "j \<in> ancestors (ps_work_units sp) d"
    unfolding ancestors_unfold[OF wf_specD(2)[OF assms(1)] unit(1)] by blast
  obtain v where v: "v \<in> set (ps_work_units sp)" "wu_work_unit_id v = d" by (rule dep_unit[OF assms(1) unit(1) d(1)])
  have sat: "status_of sts d = UnitSatisfied"
    using project_runnable_deps[OF assms(1-3) unit(1) unit.prems(1)] d(1) by blast
  show ?case using unit.IH[OF v(1), of j] v d sat by (cases "j = d") auto
qed

section \<open>Satisfied units\<close>

lemma project_satisfied_fact:
  assumes "wf_spec sp" and "wf_facts atts sats" and "project H sp atts sats cans = Inr sts"
    and "u \<in> set (ps_work_units sp)" and "status_of sts (wu_work_unit_id u) = UnitSatisfied"
  obtains t a where "t \<in> set sats" "us_satisfaction_id (the (by_unit sts (wu_work_unit_id u))) = Some (ts_reference_id t)"
    "ts_work_unit_id t = wu_work_unit_id u" "fingerprint H sp (wu_work_unit_id u) = Inr (ts_work_unit_fingerprint t)"
    "a \<in> set atts" "at_id a = ts_source_attempt_id t"
    "resolved_inputs sp u (by_unit sts) (dict_from ts_reference_id sats) = Inr (Some (ready_inputs sp u (by_unit sts) sats))"
    "same_subject (as_effective_inputs (at_spec a)) (ready_inputs sp u (by_unit sts) sats)"
proof -
  have st: "by_unit sts (wu_work_unit_id u) = Some (local_state H sp atts sats cans (by_unit sts) u)"
    by (rule project_local(3)[OF assms(1-4)])
  have ok: "deps_ok sp sats (by_unit sts) u"
    unfolding deps_ok_def
  proof
    fix d assume "d \<in> set (wu_dependencies u)"
    then obtain v where "v \<in> set (ps_work_units sp)" "wu_work_unit_id v = d" by (rule dep_unit[OF assms(1,4)])
    then show "\<exists>st. by_unit sts d = Some st \<and> state_ok sp sats d st"
      using project_local(3)[OF assms(1-3)] local_state_ok[OF assms(1) _ assms(2)] by fastforce
  qed
  from assms(5) st show ?thesis
  proof (cases rule: local_state_cases[of H sp atts sats cans "by_unit sts" u])
    case (satisfied t)
    obtain a where a: "dict_from at_id atts (ts_source_attempt_id t) = Some a" "a \<in> set atts" "at_id a = ts_source_attempt_id t"
      using assms(2) satisfied(4) dict_from_None_iff[of at_id atts "ts_source_attempt_id t"]
      by (cases "dict_from at_id atts (ts_source_attempt_id t)") (auto simp: wf_facts_def dest: dict_from_SomeD)
    have "\<And>d. d \<in> set (wu_dependencies u) \<Longrightarrow> dep_ready (by_unit sts) (dict_from ts_reference_id sats) d"
      using deps_ok_source[OF ok assms(2)] satisfied(3) by blast
    then have r: "resolved_inputs sp u (by_unit sts) (dict_from ts_reference_id sats) = Inr (Some (ready_inputs sp u (by_unit sts) sats))"
      using resolution_complete[OF assms(1,4,2) ok satisfied(3)] by (simp add: resolved_inputs_ready)
    show ?thesis
      using that[of t a] satisfied(4,5) a st r satisfied(1) fingerprint_eq[OF assms(1), of "wu_work_unit_id u" H] assms(4)
      by (simp add: applicable_def)
  qed simp_all
qed

end
