(* ===== verification/Domain_Invariant.thy ===== *)
theory Domain_Invariant
  imports Domain_Program Projection_Properties
begin

text \<open>
  The invariant of the aggregate \<open>Program\<close> and the proof that \<open>_validate\<close> accepts every program that
  satisfies it. The invariant is stated on the facts (\<open>facts_ok\<close>), on the live attempts (\<open>live_ok\<close>) and on
  the lifecycle (\<open>status_ok\<close>); \<open>assemble\<close> re-establishes it from them.
\<close>

section \<open>Histories of specifications\<close>

definition cites :: "hash \<Rightarrow> program_spec list \<Rightarrow> int \<Rightarrow> string \<Rightarrow> program_spec \<Rightarrow> bool" where
  "cites H hist rv dg s \<longleftrightarrow> s \<in> set hist \<and> spec_key H s = (rv, dg)"

definition history_ok :: "hash \<Rightarrow> program_spec list \<Rightarrow> program_spec \<Rightarrow> bool" where
  "history_ok H hist sp \<longleftrightarrow> hist \<noteq> [] \<and> last hist = sp
     \<and> list_all (\<lambda>s. wf_spec s \<and> ps_program_id s = ps_program_id sp) hist
     \<and> map ps_revision hist = map int [1..<length hist + 1]
     \<and> ps_parent_digest (hd hist) = None \<and> list_all (chained H) (zip hist (tl hist))"

lemma history_ok_single: "wf_spec sp \<Longrightarrow> ps_revision sp = 1 \<Longrightarrow> ps_parent_digest sp = None \<Longrightarrow> history_ok H [sp] sp"
  by (simp add: history_ok_def)

lemma zip_tl_snoc: "xs \<noteq> [] \<Longrightarrow> zip (xs @ [y]) (tl (xs @ [y])) = zip xs (tl xs) @ [(last xs, y)]"
proof (induction xs)
  case (Cons x xs)
  then show ?case by (cases xs) auto
qed simp

lemma history_okD:
  assumes "history_ok H hist sp"
  shows "sp \<in> set hist" "\<And>s. s \<in> set hist \<Longrightarrow> wf_spec s" "\<And>s. s \<in> set hist \<Longrightarrow> ps_program_id s = ps_program_id sp"
proof -
  have "hist \<noteq> []" "last hist = sp" using assms by (simp_all add: history_ok_def)
  then show "sp \<in> set hist" using last_in_set[of hist] by simp
  show "\<And>s. s \<in> set hist \<Longrightarrow> wf_spec s" "\<And>s. s \<in> set hist \<Longrightarrow> ps_program_id s = ps_program_id sp"
    using assms unfolding history_ok_def list_all_iff by blast+
qed

lemma history_ok_last_revision: "history_ok H hist sp \<Longrightarrow> ps_revision sp = int (length hist)"
proof -
  assume h: "history_ok H hist sp"
  then have ne: "hist \<noteq> []" and l: "last hist = sp" and m: "map ps_revision hist = map int [1..<length hist + 1]"
    by (simp_all add: history_ok_def)
  have "ps_revision sp = last (map ps_revision hist)" using ne l by (simp add: last_map)
  also have "\<dots> = int (length hist)" unfolding m using ne by (cases hist) (simp_all add: last_map)
  finally show ?thesis .
qed

lemma history_ok_snoc:
  assumes "history_ok H hist sp" and "wf_spec s" and "ps_revision s = ps_revision sp + 1"
    and "ps_parent_digest s = Some (spec_digest H sp)" and "ps_program_id s = ps_program_id sp"
  shows "history_ok H (hist @ [s]) s"
proof -
  have ne: "hist \<noteq> []" and l: "last hist = sp" using assms(1) by (simp_all add: history_ok_def)
  have "list_all (\<lambda>r. wf_spec r \<and> ps_program_id r = ps_program_id s) (hist @ [s])"
    using assms(1,2,5) by (simp add: history_ok_def)
  moreover have "list_all (chained H) (zip (hist @ [s]) (tl (hist @ [s])))"
    unfolding zip_tl_snoc[OF ne] using assms l by (simp add: history_ok_def chained_def)
  ultimately show ?thesis
    using assms(1,3) history_ok_last_revision[OF assms(1)] ne by (simp add: history_ok_def)
qed

lemma history_revisions_distinct: "history_ok H hist sp \<Longrightarrow> distinct (map ps_revision hist)"
  unfolding history_ok_def by (simp add: distinct_map)

lemma history_keys_distinct:
  assumes "history_ok H hist sp"
  shows "distinct (map (spec_key H) hist)"
proof -
  have "map fst (map (spec_key H) hist) = map ps_revision hist" by simp
  then have "distinct (map fst (map (spec_key H) hist))" using history_revisions_distinct[OF assms] by (simp only:)
  then show ?thesis unfolding distinct_map by blast
qed

lemma history_map_cites:
  assumes "history_ok H hist sp" and "cites H hist rv dg s"
  shows "history_map H hist (rv, dg) = Some s"
  using dict_from_distinct[OF history_keys_distinct[OF assms(1)], of s] assms(2)
  by (auto simp: history_map_def cites_def)

lemma find_cites:
  assumes "history_ok H hist sp"
  shows "List.find (\<lambda>s. spec_key H s = (rv, dg)) hist = Some s \<longleftrightarrow> cites H hist rv dg s"
proof
  assume "cites H hist rv dg s"
  then show "List.find (\<lambda>s. spec_key H s = (rv, dg)) hist = Some s"
    using find_distinct_key[OF history_keys_distinct[OF assms], of s] by (simp add: cites_def)
qed (auto simp: cites_def dest: find_SomeD)

lemma cites_wf: "history_ok H hist sp \<Longrightarrow> cites H hist rv dg s \<Longrightarrow> wf_spec s"
  by (simp add: cites_def history_okD(2))

lemma cites_snoc: "cites H hist rv dg s \<Longrightarrow> cites H (hist @ [s']) rv dg s"
  by (simp add: cites_def)

lemma cites_current: "history_ok H hist sp \<Longrightarrow> cites H hist (ps_revision sp) (spec_digest H sp) sp"
  by (simp add: cites_def history_okD(1))

lemma cites_unique: "history_ok H hist sp \<Longrightarrow> cites H hist rv dg s \<Longrightarrow> cites H hist rv dg s' \<Longrightarrow> s = s'"
  using history_map_cites[of H hist sp rv dg s] history_map_cites[of H hist sp rv dg s'] by simp

lemma history_ok_wf: "history_ok H hist sp \<Longrightarrow> wf_spec sp"
  by (simp add: history_okD)

section \<open>Recorded facts\<close>

definition attempt_ok :: "hash \<Rightarrow> program_spec list \<Rightarrow> string \<Rightarrow> attempt \<Rightarrow> bool" where
  "attempt_ok H hist pid a \<longleftrightarrow> wf_attempt a \<and> as_program_id (at_spec a) = pid
     \<and> (\<exists>s. cites H hist (as_spec_revision (at_spec a)) (as_spec_digest (at_spec a)) s
          \<and> at_unit a \<in> set (unit_ids (ps_work_units s)))"

text \<open>A finished attempt of the same unit under the same specification.\<close>

definition remediates :: "attempt \<Rightarrow> attempt \<Rightarrow> bool" where
  "remediates a source \<longleftrightarrow> as_remediation_of (at_spec a) = Some (at_id source)
     \<and> at_status source = AttemptFinished \<and> at_unit source = at_unit a
     \<and> as_spec_revision (at_spec source) = as_spec_revision (at_spec a)
     \<and> as_spec_digest (at_spec source) = as_spec_digest (at_spec a)"

definition lineage_ok :: "attempt list \<Rightarrow> bool" where
  "lineage_ok atts \<longleftrightarrow> (\<forall>j < length atts. as_remediation_of (at_spec (atts ! j)) \<noteq> None \<longrightarrow>
     (\<exists>i < j. remediates (atts ! j) (atts ! i)))"

definition satisfaction_ok :: "hash \<Rightarrow> program_spec list \<Rightarrow> attempt list \<Rightarrow> string \<Rightarrow> int \<Rightarrow> trusted_satisfaction \<Rightarrow> bool" where
  "satisfaction_ok H hist atts pid n t \<longleftrightarrow> wf_satisfaction t \<and> ts_program_id t = pid
     \<and> 0 < ts_record_order t \<and> ts_record_order t \<le> n
     \<and> (\<exists>s u. cites H hist (ts_spec_revision t) (ts_spec_digest t) s
          \<and> u \<in> set (ps_work_units s) \<and> wu_work_unit_id u = ts_work_unit_id t
          \<and> ts_work_unit_fingerprint t = unit_fp H s (ts_work_unit_id t)
          \<and> fset_of_list (map ib_name (ts_output_bindings t)) = wu_outputs u)
     \<and> (\<exists>a \<in> set atts. at_id a = ts_source_attempt_id t \<and> at_status a = AttemptFinished
          \<and> at_unit a = ts_work_unit_id t \<and> as_spec_revision (at_spec a) = ts_spec_revision t
          \<and> as_spec_digest (at_spec a) = ts_spec_digest t)"

definition cancellation_ok :: "hash \<Rightarrow> program_spec list \<Rightarrow> int \<Rightarrow> work_unit_cancellation \<Rightarrow> bool" where
  "cancellation_ok H hist n c \<longleftrightarrow> wc_record_order c \<le> n
     \<and> (\<exists>s. cites H hist (wc_spec_revision c) (wc_spec_digest c) s
          \<and> wc_work_unit_id c \<in> set (unit_ids (ps_work_units s))
          \<and> wc_work_unit_fingerprint c = unit_fp H s (wc_work_unit_id c))"

definition attempts_ok :: "hash \<Rightarrow> program_spec list \<Rightarrow> string \<Rightarrow> attempt list \<Rightarrow> bool" where
  "attempts_ok H hist pid atts \<longleftrightarrow> distinct (map at_id atts) \<and> lineage_ok atts
     \<and> (\<forall>a \<in> set atts. attempt_ok H hist pid a)"

definition facts_ok :: "hash \<Rightarrow> int \<Rightarrow> pending \<Rightarrow> bool" where
  "facts_ok H n q \<longleftrightarrow> history_ok H (ap_spec_history q) (ap_spec q)
     \<and> attempts_ok H (ap_spec_history q) (ps_program_id (ap_spec q)) (ap_attempts q)
     \<and> distinct (map ts_reference_id (ap_satisfactions q))
     \<and> (\<forall>t \<in> set (ap_satisfactions q).
          satisfaction_ok H (ap_spec_history q) (ap_attempts q) (ps_program_id (ap_spec q)) n t)
     \<and> (\<forall>c \<in> set (ap_cancellations q). cancellation_ok H (ap_spec_history q) n c)"

text \<open>Live attempts: one per unit, each of a unit of the current specification that is not cancelled.\<close>

definition live_ok :: "hash \<Rightarrow> pending \<Rightarrow> bool" where
  "live_ok H q \<longleftrightarrow> distinct (map at_unit (filter live (ap_attempts q)))
     \<and> (\<forall>a \<in> set (ap_attempts q). live a \<longrightarrow> at_unit a \<in> set (unit_ids (ps_work_units (ap_spec q)))
          \<and> \<not> cancelled_unit H (ap_spec q) (ap_cancellations q) (at_unit a))"

definition status_ok :: "pending \<Rightarrow> bool" where
  "status_ok q \<longleftrightarrow> (ap_status q = ProgramDraft \<longrightarrow> ap_attempts q = [] \<and> ap_satisfactions q = [] \<and> ap_cancellations q = [])
     \<and> (ap_status q = ProgramCancelled \<longrightarrow> \<not> list_ex live (ap_attempts q))"

definition program_ok :: "hash \<Rightarrow> program \<Rightarrow> bool" where
  "program_ok H p \<longleftrightarrow> facts_ok H (pg_revision p) (locals p) \<and> live_ok H (locals p) \<and> status_ok (locals p)
     \<and> 0 \<le> pg_revision p \<and> assembled_states H (locals p) = Inr (pg_states p)
     \<and> (pg_status p \<notin> {ProgramDraft, ProgramCancelled} \<longrightarrow> next_status (pg_status p) (pg_states p) = pg_status p)"

lemma locals_simps [simp]:
  "ap_spec (locals p) = pg_spec p" "ap_status (locals p) = pg_status p" "ap_attempts (locals p) = pg_attempts p"
  "ap_satisfactions (locals p) = pg_satisfactions p" "ap_cancellations (locals p) = pg_cancellations p"
  "ap_attempt_cancellations (locals p) = pg_attempt_cancellations p" "ap_spec_history (locals p) = pg_spec_history p"
  by (simp_all add: locals_def)

lemma facts_ok_wf_facts: "facts_ok H n q \<Longrightarrow> wf_facts (ap_attempts q) (ap_satisfactions q)"
proof -
  assume f: "facts_ok H n q"
  have "list_all wf_attempt (ap_attempts q)"
    using f by (simp add: facts_ok_def attempts_ok_def attempt_ok_def list_all_iff)
  moreover have "list_all wf_satisfaction (ap_satisfactions q)"
    using f by (simp add: facts_ok_def satisfaction_ok_def list_all_iff)
  moreover have "ts_source_attempt_id t \<in> at_id ` set (ap_attempts q)" if "t \<in> set (ap_satisfactions q)" for t
  proof -
    have "satisfaction_ok H (ap_spec_history q) (ap_attempts q) (ps_program_id (ap_spec q)) n t"
      using f that by (simp add: facts_ok_def)
    then show ?thesis unfolding satisfaction_ok_def by (metis imageI)
  qed
  ultimately show ?thesis using f by (simp add: wf_facts_def facts_ok_def attempts_ok_def)
qed

lemma facts_ok_wf_spec: "facts_ok H n q \<Longrightarrow> wf_spec (ap_spec q)"
  by (auto simp: facts_ok_def intro: history_ok_wf)

lemma facts_okD:
  assumes "facts_ok H n q"
  shows "history_ok H (ap_spec_history q) (ap_spec q)" "distinct (map at_id (ap_attempts q))"
    "lineage_ok (ap_attempts q)"
    "\<And>a. a \<in> set (ap_attempts q) \<Longrightarrow> attempt_ok H (ap_spec_history q) (ps_program_id (ap_spec q)) a"
    "distinct (map ts_reference_id (ap_satisfactions q))"
    "\<And>t. t \<in> set (ap_satisfactions q) \<Longrightarrow>
       satisfaction_ok H (ap_spec_history q) (ap_attempts q) (ps_program_id (ap_spec q)) n t"
    "\<And>c. c \<in> set (ap_cancellations q) \<Longrightarrow> cancellation_ok H (ap_spec_history q) n c"
  using assms by (simp_all add: facts_ok_def attempts_ok_def)

section \<open>Validation accepts what satisfies the invariant\<close>

lemma positions_nth:
  assumes "distinct (map at_id atts)" and "i < length atts"
  shows "positions atts (at_id (atts ! i)) = Some i"
proof -
  let ?z = "zip [0..<length atts] atts"
  have "map (\<lambda>(k, a). at_id a) ?z = map at_id atts"
    by (rule nth_equalityI) auto
  then have "distinct (map (\<lambda>(k, a). at_id a) ?z)" using assms(1) by simp
  moreover have "(i, atts ! i) \<in> set ?z" using assms(2) by (force simp: in_set_zip)
  ultimately have "dict_from (\<lambda>(k, a). at_id a) ?z ((\<lambda>(k, a). at_id a) (i, atts ! i)) = Some (i, atts ! i)"
    by (rule dict_from_distinct)
  then show ?thesis by (simp add: positions_def)
qed

lemma validate_lineage_ok:
  assumes "distinct (map at_id atts)" and "lineage_ok atts" and "a \<in> set atts"
  shows "validate_lineage atts a = Inr ()"
proof (cases "as_remediation_of (at_spec a)")
  case (Some r)
  from assms(3) obtain j where j: "j < length atts" "atts ! j = a" by (auto simp: in_set_conv_nth)
  with assms(2) Some obtain i where i: "i < j" "remediates a (atts ! i)" by (auto simp: lineage_ok_def)
  then have "dict_from at_id atts r = Some (atts ! i)"
    using dict_from_distinct[OF assms(1), of "atts ! i"] j Some by (simp add: remediates_def)
  moreover have "positions atts (at_id (atts ! i)) = Some i" "positions atts (at_id a) = Some j"
    using positions_nth[OF assms(1)] i j by auto
  ultimately show ?thesis using i Some by (simp add: validate_lineage_def remediates_def)
qed (simp add: validate_lineage_def)

lemma validate_attempt_ok:
  assumes "facts_ok H n (locals p)" and "a \<in> set (pg_attempts p)"
  shows "validate_attempt H p a = Inr ()"
proof -
  have f: "attempt_ok H (pg_spec_history p) (pg_id p) a" using facts_okD(4)[OF assms(1)] assms(2) by simp
  then obtain s where s: "cites H (pg_spec_history p) (as_spec_revision (at_spec a)) (as_spec_digest (at_spec a)) s"
      "at_unit a \<in> set (unit_ids (ps_work_units s))" by (auto simp: attempt_ok_def)
  then have "history_map H (pg_spec_history p) (as_spec_revision (at_spec a), as_spec_digest (at_spec a)) = Some s"
    using history_map_cites facts_okD(1)[OF assms(1)] by simp
  moreover obtain u where "spec_work_unit s (at_unit a) = Inr u" using spec_work_unit_total[OF s(2)] by blast
  moreover have "validate_lineage (pg_attempts p) a = Inr ()"
    using validate_lineage_ok facts_okD(2,3)[OF assms(1)] assms(2) by simp
  ultimately show ?thesis using f by (simp add: validate_attempt_def attempt_ok_def)
qed

lemma validate_satisfaction_ok:
  assumes "facts_ok H (pg_revision p) (locals p)" and "t \<in> set (pg_satisfactions p)"
  shows "validate_satisfaction H p t = Inr ()"
proof -
  have f: "satisfaction_ok H (pg_spec_history p) (pg_attempts p) (pg_id p) (pg_revision p) t"
    using facts_okD(6)[OF assms(1)] assms(2) by simp
  then obtain s u where s: "cites H (pg_spec_history p) (ts_spec_revision t) (ts_spec_digest t) s"
      "u \<in> set (ps_work_units s)" "wu_work_unit_id u = ts_work_unit_id t"
      "ts_work_unit_fingerprint t = unit_fp H s (ts_work_unit_id t)"
      "fset_of_list (map ib_name (ts_output_bindings t)) = wu_outputs u" unfolding satisfaction_ok_def by blast
  from f obtain a where a: "a \<in> set (pg_attempts p)" "at_id a = ts_source_attempt_id t" "at_status a = AttemptFinished"
      "at_unit a = ts_work_unit_id t" "as_spec_revision (at_spec a) = ts_spec_revision t"
      "as_spec_digest (at_spec a) = ts_spec_digest t" unfolding satisfaction_ok_def by blast
  have h: "history_map H (pg_spec_history p) (ts_spec_revision t, ts_spec_digest t) = Some s"
    using history_map_cites facts_okD(1)[OF assms(1)] s(1) by simp
  have wf: "wf_spec s" using cites_wf facts_okD(1)[OF assms(1)] s(1) by simp
  have "dict_from at_id (pg_attempts p) (ts_source_attempt_id t) = Some a"
    using dict_from_distinct[of at_id "pg_attempts p" a] facts_okD(2)[OF assms(1)] a by simp
  moreover have "fingerprint H s (ts_work_unit_id t) = Inr (ts_work_unit_fingerprint t)"
    using fingerprint_eq[OF wf, of "ts_work_unit_id t" H] s(2-4) by (metis imageI list.set_map)
  moreover have "spec_work_unit s (ts_work_unit_id t) = Inr u"
    using spec_work_unit_Inr_iff[OF wf_specD(2)[OF wf]] s by simp
  ultimately show ?thesis using f h s a by (simp add: validate_satisfaction_def satisfaction_ok_def)
qed

lemma validate_cancellation_ok:
  assumes "facts_ok H (pg_revision p) (locals p)" and "c \<in> set (pg_cancellations p)"
  shows "validate_cancellation H p c = Inr ()"
proof -
  have f: "cancellation_ok H (pg_spec_history p) (pg_revision p) c" using facts_okD(7)[OF assms(1)] assms(2) by simp
  then obtain s where s: "cites H (pg_spec_history p) (wc_spec_revision c) (wc_spec_digest c) s"
      "wc_work_unit_id c \<in> set (unit_ids (ps_work_units s))" "wc_work_unit_fingerprint c = unit_fp H s (wc_work_unit_id c)"
    by (auto simp: cancellation_ok_def)
  have "history_map H (pg_spec_history p) (wc_spec_revision c, wc_spec_digest c) = Some s"
    using history_map_cites facts_okD(1)[OF assms(1)] s(1) by simp
  moreover have "fingerprint H s (wc_work_unit_id c) = Inr (wc_work_unit_fingerprint c)"
    using fingerprint_eq[OF cites_wf[OF _ s(1)]] facts_okD(1)[OF assms(1)] s by simp
  ultimately show ?thesis using f by (simp add: validate_cancellation_def cancellation_ok_def)
qed

lemma validate_history_ok:
  assumes "facts_ok H n (locals p)"
  shows "validate_history H p = Inr ()"
proof -
  have h: "history_ok H (pg_spec_history p) (pg_spec p)" using facts_okD(1)[OF assms] by simp
  have "length (remdups (map ps_revision (pg_spec_history p))) = length (pg_spec_history p)"
    using history_revisions_distinct[OF h] by (simp add: distinct_remdups_id)
  moreover have "length (remdups (map at_id (pg_attempts p))) = length (pg_attempts p)"
    using facts_okD(2)[OF assms] by (simp add: distinct_remdups_id)
  moreover have "length (remdups (map ts_reference_id (pg_satisfactions p))) = length (pg_satisfactions p)"
    using facts_okD(5)[OF assms] by (simp add: distinct_remdups_id)
  ultimately show ?thesis using h by (simp add: validate_history_def history_ok_def)
qed

lemma validate_live_ok:
  assumes "distinct (map at_unit (filter live atts))"
    and "\<And>a. a \<in> set atts \<Longrightarrow> live a \<Longrightarrow> at_unit a \<notin> set seen
      \<and> (\<exists>st. M (at_unit a) = Some st \<and> us_status st \<noteq> UnitCancelled
           \<and> (us_status st = UnitActive \<longrightarrow> us_active_attempt_id st = Some (at_id a)))"
  shows "validate_live M seen atts = Inr ()"
  using assms
proof (induction atts arbitrary: seen)
  case (Cons a atts)
  show ?case
  proof (cases "live a")
    case True
    with Cons.prems(2)[of a] obtain st where st: "M (at_unit a) = Some st" "us_status st \<noteq> UnitCancelled"
        "us_status st = UnitActive \<longrightarrow> us_active_attempt_id st = Some (at_id a)" "at_unit a \<notin> set seen" by auto
    have "validate_live M (at_unit a # seen) atts = Inr ()"
    proof (rule Cons.IH)
      show "distinct (map at_unit (filter live atts))" using Cons.prems(1) True by simp
      fix b assume b: "b \<in> set atts" "live b"
      then have "at_unit b \<noteq> at_unit a" using Cons.prems(1) True by (auto simp: image_iff)
      then show "at_unit b \<notin> set (at_unit a # seen) \<and> (\<exists>st. M (at_unit b) = Some st \<and> us_status st \<noteq> UnitCancelled
           \<and> (us_status st = UnitActive \<longrightarrow> us_active_attempt_id st = Some (at_id b)))"
        using Cons.prems(2)[of b] b by simp
    qed
    with st True show ?thesis by simp
  next
    case False
    then show ?thesis using Cons.IH[of seen] Cons.prems by simp
  qed
qed simp

lemma live_attempt_unique:
  assumes "distinct (map at_unit (filter live atts))" and "a \<in> set atts" and "live a"
  shows "live_attempt atts (at_unit a) = Some a"
proof -
  have "live_attempt atts (at_unit a) = List.find (\<lambda>b. at_unit b = at_unit a) (filter live atts)"
    unfolding live_attempt_def by (induction atts) auto
  also have "\<dots> = Some a" using assms by (intro find_distinct_key) auto
  finally show ?thesis .
qed

lemma project_live:
  assumes "facts_ok H n q" and "live_ok H q"
    and "project H (ap_spec q) (ap_attempts q) (ap_satisfactions q) (ap_cancellations q) = Inr sts"
  shows "validate_live (by_unit sts) [] (ap_attempts q) = Inr ()"
proof (rule validate_live_ok)
  show "distinct (map at_unit (filter live (ap_attempts q)))" using assms(2) by (simp add: live_ok_def)
  note wf = facts_ok_wf_spec[OF assms(1)] facts_ok_wf_facts[OF assms(1)]
  fix a assume a: "a \<in> set (ap_attempts q)" "live a"
  with assms(2) obtain u where u: "u \<in> set (ps_work_units (ap_spec q))" "wu_work_unit_id u = at_unit a"
      and nc: "\<not> cancelled_unit H (ap_spec q) (ap_cancellations q) (at_unit a)" by (auto simp: live_ok_def)
  have la: "live_attempt (ap_attempts q) (at_unit a) = Some a"
    using live_attempt_unique a assms(2) by (simp add: live_ok_def)
  let ?st = "local_state H (ap_spec q) (ap_attempts q) (ap_satisfactions q) (ap_cancellations q) (by_unit sts) u"
  have st: "by_unit sts (at_unit a) = Some ?st" using project_local(3)[OF wf assms(3) u(1)] u(2) by simp
  have "us_status ?st \<noteq> UnitCancelled" using project_cancelled_iff[OF wf assms(3) u(1)] nc u(2) st by simp
  moreover have "us_status ?st = UnitActive \<longrightarrow> us_active_attempt_id ?st = Some (at_id a)"
    using la u(2)
    by (cases rule: local_state_cases[of H "ap_spec q" "ap_attempts q" "ap_satisfactions q" "ap_cancellations q" "by_unit sts" u])
      simp_all
  ultimately show "at_unit a \<notin> set [] \<and> (\<exists>st. by_unit sts (at_unit a) = Some st \<and> us_status st \<noteq> UnitCancelled
           \<and> (us_status st = UnitActive \<longrightarrow> us_active_attempt_id st = Some (at_id a)))"
    using st by simp
qed

lemma validate_inv:
  assumes "program_ok H p"
  shows "validate H p = Inr ()"
proof -
  have f: "facts_ok H (pg_revision p) (locals p)" and l: "live_ok H (locals p)" and s: "status_ok (locals p)"
      and st: "assembled_states H (locals p) = Inr (pg_states p)"
      and nx: "pg_status p \<notin> {ProgramDraft, ProgramCancelled} \<longrightarrow> next_status (pg_status p) (pg_states p) = pg_status p"
    using assms by (simp_all add: program_ok_def)
  have proj: "validate_projection H p = Inr ()"
    using st by (cases "pg_status p = ProgramDraft") (simp_all add: validate_projection_def assembled_states_def)
  have lv: "validate_live (by_unit (pg_states p)) [] (pg_attempts p) = Inr ()"
  proof (cases "pg_status p = ProgramDraft")
    case True
    then show ?thesis using s by (simp add: status_ok_def)
  next
    case False
    then show ?thesis using project_live[OF f l] st by (simp add: assembled_states_def)
  qed
  have "validate_status p = Inr ()"
    using nx s by (auto simp: validate_status_def status_ok_def next_status_def list_ex_iff list_all_iff split: if_splits)
  moreover have "each (validate_attempt H p) (pg_attempts p) = Inr ()"
      "each (validate_satisfaction H p) (pg_satisfactions p) = Inr ()"
      "each (validate_cancellation H p) (pg_cancellations p) = Inr ()"
    using f by (simp_all add: each_Inr_iff validate_attempt_ok validate_satisfaction_ok validate_cancellation_ok)
  ultimately show ?thesis
    using proj lv validate_history_ok[OF f] by (simp add: validate_def)
qed

end
