(* ===== verification/Domain_Preservation.thy ===== *)
theory Domain_Preservation
  imports Domain_Invariant
begin

text \<open>
  Every branch of \<open>apply\<close> keeps the facts, the live attempts and the lifecycle consistent, and \<open>assemble\<close>
  turns them into a program that satisfies the invariant again. \<open>facts_ok\<close>, \<open>live_ok\<close> and \<open>status_ok\<close> of the
  pending state are collected in \<open>pend_ok\<close>.
\<close>

definition pend_ok :: "hash \<Rightarrow> int \<Rightarrow> pending \<Rightarrow> bool" where
  "pend_ok H n q \<longleftrightarrow> facts_ok H n q \<and> live_ok H q \<and> status_ok q"

section \<open>Creation and assembly\<close>

lemma initial_states_eq:
  assumes "wf_spec sp"
  shows "initial_states sp = Inr (map (\<lambda>u. unit_state (wu_work_unit_id u) UnitPending None None) (ps_work_units sp))"
  unfolding initial_states_def
proof (rule mapM_total)
  fix u assume "u \<in> set (ps_work_units sp)"
  then have "nonblank (wu_work_unit_id u)" using wf_specD(3)[OF assms] by (simp add: wf_work_unit_def)
  then show "mk_WorkUnitState (wu_work_unit_id u) UnitPending None None
      = Inr (unit_state (wu_work_unit_id u) UnitPending None None)" by (simp add: mk_WorkUnitState_eq)
qed

lemma create_inv:
  assumes "create sp = Inr p" and "wf_spec sp"
  shows "program_ok H p"
proof -
  from assms(1) obtain sts where s: "ps_revision sp = 1" "ps_parent_digest sp = None" "initial_states sp = Inr sts"
      and p: "p = \<lparr>pg_spec = sp, pg_status = ProgramDraft, pg_revision = 0, pg_states = sts, pg_attempts = [],
         pg_satisfactions = [], pg_cancellations = [], pg_attempt_cancellations = [],
         pg_conclusions = [], pg_spec_history = [sp]\<rparr>"
    by (auto simp: create_def res_simps)
  have "history_ok H [sp] sp" using history_ok_single[OF assms(2) s(1,2)] .
  then show ?thesis
    using s(3) by (simp add: program_ok_def p facts_ok_def attempts_ok_def lineage_ok_def live_ok_def status_ok_def
        locals_def assembled_states_def)
qed

lemma assembled_states_total:
  assumes "facts_ok H n q"
  shows "\<exists>sts. assembled_states H q = Inr sts"
proof -
  obtain sts where "project H (ap_spec q) (ap_attempts q) (ap_satisfactions q) (ap_cancellations q) = Inr sts"
    by (rule project_total[OF facts_ok_wf_spec[OF assms] facts_ok_wf_facts[OF assms]])
  then show ?thesis
    using initial_states_eq[OF facts_ok_wf_spec[OF assms]]
    by (cases "ap_status q = ProgramDraft") (simp_all add: assembled_states_def)
qed

definition concluded :: "hash \<Rightarrow> program \<Rightarrow> program_spec \<Rightarrow> program_status \<Rightarrow> program_conclusion list" where
  "concluded H p sp st =
     (if st \<in> {ProgramCompleted, ProgramCancelled} \<and> (pg_status p \<noteq> st \<or> sp \<noteq> pg_spec p)
      then [\<lparr>pc_status = st, pc_spec_revision = ps_revision sp, pc_spec_digest = spec_digest H sp,
             pc_record_order = pg_revision p + 1\<rparr>]
      else [])"

definition new_status :: "program_status \<Rightarrow> work_unit_state list \<Rightarrow> program_status" where
  "new_status st sts = (if st \<notin> {ProgramDraft, ProgramCancelled} then next_status st sts else st)"

lemma next_status_idem: "st \<notin> {ProgramDraft, ProgramCancelled} \<Longrightarrow>
   next_status st sts \<notin> {ProgramDraft, ProgramCancelled} \<and> next_status (next_status st sts) sts = next_status st sts"
  by (cases st) (auto simp: next_status_def)

lemma assemble_Inr:
  assumes ok: "pend_ok H (pg_revision p + 1) q" and "0 \<le> pg_revision p" and "digest_like H"
  obtains p' sts where "assemble H p q = Inr p'" "program_ok H p'" "assembled_states H q = Inr sts"
    "p' = \<lparr>pg_spec = ap_spec q, pg_status = new_status (ap_status q) sts, pg_revision = pg_revision p + 1, pg_states = sts,
           pg_attempts = ap_attempts q, pg_satisfactions = ap_satisfactions q,
           pg_cancellations = ap_cancellations q, pg_attempt_cancellations = ap_attempt_cancellations q,
           pg_conclusions = pg_conclusions p @ concluded H p (ap_spec q) (new_status (ap_status q) sts),
           pg_spec_history = ap_spec_history q\<rparr>"
proof -
  have f: "facts_ok H (pg_revision p + 1) q" and l: "live_ok H q" and s: "status_ok q"
    using ok by (simp_all add: pend_ok_def)
  obtain sts where sts: "assembled_states H q = Inr sts" using assembled_states_total[OF f] by blast
  define st where "st = new_status (ap_status q) sts"
  define p' where "p' = \<lparr>pg_spec = ap_spec q, pg_status = st, pg_revision = pg_revision p + 1, pg_states = sts,
           pg_attempts = ap_attempts q, pg_satisfactions = ap_satisfactions q,
           pg_cancellations = ap_cancellations q, pg_attempt_cancellations = ap_attempt_cancellations q,
           pg_conclusions = pg_conclusions p @ concluded H p (ap_spec q) st,
           pg_spec_history = ap_spec_history q\<rparr>"
  have draft: "st = ProgramDraft \<longleftrightarrow> ap_status q = ProgramDraft" "st = ProgramCancelled \<longleftrightarrow> ap_status q = ProgramCancelled"
    using next_status_idem[of "ap_status q" sts] by (auto simp: st_def new_status_def)
  have i: "program_ok H p'"
    using f l s sts draft next_status_idem[of "ap_status q" sts] assms(2)
    by (auto simp: program_ok_def p'_def facts_ok_def live_ok_def status_ok_def locals_def assembled_states_def st_def new_status_def)
  have "1 \<le> ps_revision (ap_spec q)" using facts_ok_wf_spec[OF f] by (simp add: wf_spec_def)
  moreover have "nonblank (spec_digest H (ap_spec q))" using assms(3) by (simp add: digest_like_def spec_digest_def json_digest_def)
  ultimately have c: "(if st \<in> {ProgramCompleted, ProgramCancelled} \<and> (pg_status p \<noteq> st \<or> ap_spec q \<noteq> pg_spec p)
            then rbind (mk_ProgramConclusion st (ps_revision (ap_spec q)) (spec_digest H (ap_spec q)) (pg_revision p + 1))
              (\<lambda>c. Inr (pg_conclusions p @ [c]))
            else Inr (pg_conclusions p)) = Inr (pg_conclusions p @ concluded H p (ap_spec q) st)"
    using assms(2) by (simp add: concluded_def mk_ProgramConclusion_def revision_ok_def)
  have "assemble H p q = Inr p'"
    unfolding assemble_def sts rbind.simps Let_def new_status_def[symmetric] st_def[symmetric] c p'_def[symmetric]
      validate_inv[OF i] by (rule refl)
  with i sts show ?thesis using that unfolding p'_def st_def by blast
qed

section \<open>Monotonicity of the facts\<close>

lemma facts_ok_later:
  assumes "facts_ok H n q" and "n \<le> m"
  shows "facts_ok H m q"
proof -
  have "satisfaction_ok H h a i n t \<Longrightarrow> satisfaction_ok H h a i m t" for h a i t
    using assms(2) by (simp add: satisfaction_ok_def)
  moreover have "cancellation_ok H h n c \<Longrightarrow> cancellation_ok H h m c" for h c
    using assms(2) by (simp add: cancellation_ok_def)
  ultimately show ?thesis using assms(1) by (simp add: facts_ok_def)
qed

lemma inv_pend_ok: "program_ok H p \<Longrightarrow> pend_ok H (pg_revision p + 1) (locals p)"
  using facts_ok_later[of H "pg_revision p" "locals p"] by (simp add: program_ok_def pend_ok_def)

text \<open>A change of attempt statuses that forgets no finished attempt.\<close>

definition restatus :: "(attempt \<Rightarrow> attempt) \<Rightarrow> attempt list \<Rightarrow> bool" where
  "restatus g atts \<longleftrightarrow> (\<forall>a \<in> set atts. at_spec (g a) = at_spec a \<and> at_actor_id (g a) = at_actor_id a
     \<and> (at_status a = AttemptFinished \<longrightarrow> at_status (g a) = AttemptFinished) \<and> (live (g a) \<longrightarrow> live a))"

lemma restatus_ids: "restatus g atts \<Longrightarrow> map at_id (map g atts) = map at_id atts"
  by (simp add: restatus_def)

lemma lineage_ok_restatus:
  assumes "restatus g atts" and "lineage_ok atts"
  shows "lineage_ok (map g atts)"
  unfolding lineage_ok_def
proof (intro allI impI)
  fix j assume j: "j < length (map g atts)" "as_remediation_of (at_spec (map g atts ! j)) \<noteq> None"
  have r: "\<And>i. i < length atts \<Longrightarrow> at_spec (g (atts ! i)) = at_spec (atts ! i)
      \<and> (at_status (atts ! i) = AttemptFinished \<longrightarrow> at_status (g (atts ! i)) = AttemptFinished)"
    using assms(1) by (simp add: restatus_def)
  from j r[of j] assms(2) obtain i where "i < j" "remediates (atts ! j) (atts ! i)"
    by (auto simp: lineage_ok_def)
  with r[of i] r[of j] j show "\<exists>i < j. remediates (map g atts ! j) (map g atts ! i)"
    by (intro exI[of _ i]) (simp add: remediates_def)
qed

lemma satisfaction_ok_restatus:
  assumes "restatus g atts" and "satisfaction_ok H hist atts pid n t"
  shows "satisfaction_ok H hist (map g atts) pid n t"
proof -
  from assms(2) obtain a where "a \<in> set atts" "at_id a = ts_source_attempt_id t" "at_status a = AttemptFinished"
      "at_unit a = ts_work_unit_id t" "as_spec_revision (at_spec a) = ts_spec_revision t"
      "as_spec_digest (at_spec a) = ts_spec_digest t" unfolding satisfaction_ok_def by blast
  then have "g a \<in> set (map g atts)" "at_id (g a) = ts_source_attempt_id t" "at_status (g a) = AttemptFinished"
      "at_unit (g a) = ts_work_unit_id t" "as_spec_revision (at_spec (g a)) = ts_spec_revision t"
      "as_spec_digest (at_spec (g a)) = ts_spec_digest t" using assms(1) by (simp_all add: restatus_def)
  with assms(2) show ?thesis unfolding satisfaction_ok_def by blast
qed

lemma facts_ok_restatus:
  assumes "restatus g (ap_attempts q)" and "facts_ok H n q"
  shows "facts_ok H n (q\<lparr>ap_attempts := map g (ap_attempts q), ap_attempt_cancellations := cs\<rparr>)"
proof -
  have "distinct (map at_id (map g (ap_attempts q)))"
    unfolding restatus_ids[OF assms(1)] using facts_okD(2)[OF assms(2)] .
  moreover have "attempt_ok H h i (g a)" if "a \<in> set (ap_attempts q)" "attempt_ok H h i a" for h i a
    using that assms(1) by (simp add: attempt_ok_def restatus_def wf_attempt_def)
  ultimately have "attempts_ok H (ap_spec_history q) (ps_program_id (ap_spec q)) (map g (ap_attempts q))"
    using assms lineage_ok_restatus[OF assms(1)] by (simp add: facts_ok_def attempts_ok_def)
  then show ?thesis
    using assms(2) satisfaction_ok_restatus[OF assms(1)] by (simp add: facts_ok_def)
qed

lemma filter_live_restatus:
  assumes "restatus g atts"
  shows "map at_unit (filter live (map g atts)) = map at_unit (filter (\<lambda>a. live (g a)) (filter live atts))"
  using assms by (induction atts) (auto simp: restatus_def)

lemma live_ok_restatus:
  assumes "restatus g (ap_attempts q)" and "live_ok H q"
  shows "live_ok H (q\<lparr>ap_attempts := map g (ap_attempts q), ap_attempt_cancellations := cs\<rparr>)"
proof -
  have "distinct (map at_unit (filter live (map g (ap_attempts q))))"
    unfolding filter_live_restatus[OF assms(1)]
    by (rule distinct_map_filter) (use assms(2) in \<open>simp add: live_ok_def\<close>)
  then show ?thesis using assms by (auto simp: live_ok_def restatus_def)
qed

lemma pend_ok_restatus:
  assumes "restatus g (ap_attempts q)" and "pend_ok H n q"
  shows "pend_ok H n (q\<lparr>ap_attempts := map g (ap_attempts q), ap_attempt_cancellations := cs\<rparr>)"
  using assms facts_ok_restatus[OF assms(1)] live_ok_restatus[OF assms(1)]
  by (auto simp: pend_ok_def status_ok_def list_ex_iff restatus_def)

section \<open>Cancellation of live attempts\<close>

definition cancel_in :: "string list \<Rightarrow> attempt \<Rightarrow> attempt" where
  "cancel_in ids a = (if at_id a \<in> set ids \<and> live a then a\<lparr>at_status := AttemptCancelled\<rparr> else a)"

definition withdrawals :: "int \<Rightarrow> string \<Rightarrow> string \<Rightarrow> string list \<Rightarrow> attempt list \<Rightarrow> attempt_cancellation list" where
  "withdrawals order actor_id reason ids atts =
     map (\<lambda>i. \<lparr>ac_attempt_id = i, ac_actor_id = actor_id, ac_reason = reason, ac_record_order = order\<rparr>)
       (sorted_list_of_fset (cancelled_ids ids atts))"

lemma restatus_cancel_in: "restatus (cancel_in ids) atts"
  by (auto simp: restatus_def cancel_in_def live_def)

lemma live_cancel_in [simp]: "live (cancel_in ids a) \<longleftrightarrow> live a \<and> at_id a \<notin> set ids"
  by (auto simp: cancel_in_def live_def)

lemma cancelled_ids_iff:
  assumes "distinct (map at_id atts)" and "a \<in> set atts"
  shows "at_id a |\<in>| cancelled_ids ids atts \<longleftrightarrow> at_id a \<in> set ids \<and> live a"
proof -
  have "b = a" if "b \<in> set atts" "at_id b = at_id a" for b
    using assms that by (meson distinct_map inj_onD)
  then show ?thesis using assms(2) by (auto simp: cancelled_ids_def fset_of_list_elem)
qed

lemma cancel_live_eq:
  assumes "facts_ok H n q" and "nonblank actor_id" and "nonblank reason" and "1 \<le> order"
  shows "cancel_live order actor_id ids reason q = Inr (q\<lparr>ap_attempts := map (cancel_in ids) (ap_attempts q),
    ap_attempt_cancellations := ap_attempt_cancellations q @ withdrawals order actor_id reason ids (ap_attempts q)\<rparr>)"
proof -
  let ?c = "cancelled_ids ids (ap_attempts q)"
  have wf: "wf_attempt a" if "a \<in> set (ap_attempts q)" for a
    using facts_okD(4)[OF assms(1) that] by (simp add: attempt_ok_def)
  have "mapM (\<lambda>a. if at_id a |\<in>| ?c then mk_Attempt (at_spec a) AttemptCancelled (at_actor_id a) else Inr a) (ap_attempts q)
      = Inr (map (cancel_in ids) (ap_attempts q))"
    using wf cancelled_ids_iff[OF facts_okD(2)[OF assms(1)]]
    by (intro mapM_total) (auto simp: cancel_in_def wf_attempt_def)
  moreover have "mapM (\<lambda>i. mk_AttemptCancellation i actor_id reason order) (sorted_list_of_fset ?c)
      = Inr (withdrawals order actor_id reason ids (ap_attempts q))"
    unfolding withdrawals_def
  proof (rule mapM_total)
    fix i assume "i \<in> set (sorted_list_of_fset ?c)"
    then obtain a where "a \<in> set (ap_attempts q)" "at_id a = i" by (auto simp: cancelled_ids_def fset_of_list_elem)
    then have "nonblank i" using wf by (auto simp: wf_attempt_def wf_attempt_spec_def)
    then show "mk_AttemptCancellation i actor_id reason order =
        Inr \<lparr>ac_attempt_id = i, ac_actor_id = actor_id, ac_reason = reason, ac_record_order = order\<rparr>"
      using assms(2-4) by (simp add: mk_AttemptCancellation_def revision_ok_def)
  qed
  ultimately show ?thesis by (simp add: cancel_live_def)
qed

lemma cancel_live_pend_ok:
  assumes "facts_ok H n q" and "nonblank actor_id" and "nonblank reason" and "1 \<le> order"
  shows "\<exists>q'. cancel_live order actor_id ids reason q = Inr q' \<and> facts_ok H n q' \<and> (live_ok H q \<longrightarrow> live_ok H q')"
  using cancel_live_eq[OF assms] facts_ok_restatus[OF restatus_cancel_in assms(1)] live_ok_restatus[OF restatus_cancel_in]
  by metis

end
