(* ===== verification/Domain_Commands.thy ===== *)
theory Domain_Commands
  imports Domain_Preservation
begin

text \<open>
  The branches of \<open>apply\<close>, one by one: what each computes when it succeeds, that it keeps \<open>pend_ok\<close>, and
  which exceptions it can raise. The exceptions of the kernel's own bookkeeping (\<open>KeyError\<close>, \<open>IndexError\<close>
  and \<open>InvalidDomainValue\<close>) are \<open>internal\<close>.
\<close>

definition internal :: "domain_error \<Rightarrow> bool" where
  "internal e \<longleftrightarrow> e \<in> {InvalidDomainValue, KeyError, IndexError}"

lemma internal_simps [simp]:
  "internal InvalidDomainValue" "internal KeyError" "internal IndexError" "\<not> internal InvalidGraph"
  "\<not> internal MissingReference" "\<not> internal MissingInput" "\<not> internal CycleDetected" "\<not> internal StaleRevision"
  "\<not> internal IllegalTransition" "\<not> internal AuthorityViolation" "\<not> internal BudgetExceeded"
  "\<not> internal DuplicateAttempt"
  by (simp_all add: internal_def)

section \<open>Lookups\<close>

lemma inv_wf:
  assumes "program_ok H p"
  shows "wf_spec (pg_spec p)" "wf_facts (pg_attempts p) (pg_satisfactions p)"
    "history_ok H (pg_spec_history p) (pg_spec p)" "distinct (map at_id (pg_attempts p))"
  using assms facts_ok_wf_spec[of H "pg_revision p" "locals p"] facts_ok_wf_facts[of H "pg_revision p" "locals p"]
    facts_okD(1,2)[of H "pg_revision p" "locals p"] by (simp_all add: program_ok_def)

lemma inv_project:
  assumes "program_ok H p" and "pg_status p \<noteq> ProgramDraft"
  shows "project H (pg_spec p) (pg_attempts p) (pg_satisfactions p) (pg_cancellations p) = Inr (pg_states p)"
  using assms by (simp add: program_ok_def assembled_states_def)

lemma inv_states_ids:
  assumes "program_ok H p"
  shows "map us_work_unit_id (pg_states p) = unit_ids (ps_work_units (pg_spec p))"
proof (cases "pg_status p = ProgramDraft")
  case True
  then have "pg_states p = map (\<lambda>u. unit_state (wu_work_unit_id u) UnitPending None None) (ps_work_units (pg_spec p))"
    using assms initial_states_eq[OF inv_wf(1)[OF assms]] by (simp add: program_ok_def assembled_states_def)
  then show ?thesis by simp
next
  case False
  then show ?thesis using project_local(2)[OF inv_wf(1,2)[OF assms] inv_project[OF assms]] by simp
qed

lemma program_state_by_unit:
  assumes "program_ok H p"
  shows "program_state p i = (case by_unit (pg_states p) i of None \<Rightarrow> Inl MissingReference | Some st \<Rightarrow> Inr st)"
proof -
  have d: "distinct (map us_work_unit_id (pg_states p))"
    unfolding inv_states_ids[OF assms] using wf_specD(2)[OF inv_wf(1)[OF assms]] .
  have "List.find (\<lambda>st. us_work_unit_id st = i) (pg_states p) = by_unit (pg_states p) i"
  proof (cases "by_unit (pg_states p) i")
    case None
    then have "\<not> (\<exists>st. st \<in> set (pg_states p) \<and> us_work_unit_id st = i)" by (auto simp: dict_from_None_iff)
    then have "List.find (\<lambda>st. us_work_unit_id st = i) (pg_states p) = None" by (simp only: find_None_iff) simp
    with None show ?thesis by simp
  next
    case (Some st)
    then have "st \<in> set (pg_states p)" "us_work_unit_id st = i" by (auto dest: dict_from_SomeD)
    then show ?thesis using find_distinct_key[OF d, of st] Some by simp
  qed
  then show ?thesis by (simp add: program_state_def)
qed

lemma program_attempt_Inr_iff:
  assumes "distinct (map at_id (pg_attempts p))"
  shows "program_attempt p i = Inr a \<longleftrightarrow> a \<in> set (pg_attempts p) \<and> at_id a = i"
  using find_distinct_key[OF assms, of a]
  by (auto simp: program_attempt_def dest: find_SomeD split: option.splits)

lemma program_lookup_errors:
  "program_attempt p i = Inl e \<Longrightarrow> e = MissingReference" "program_state p i = Inl e \<Longrightarrow> e = MissingReference"
  "spec_work_unit s i = Inl e \<Longrightarrow> e = MissingReference"
  by (auto simp: program_attempt_def program_state_def spec_work_unit_Inl_iff split: option.splits)

lemma deps_ok_projected:
  assumes "wf_spec sp" and "wf_facts atts sats" and "project H sp atts sats cans = Inr sts"
    and "u \<in> set (ps_work_units sp)"
  shows "deps_ok sp sats (by_unit sts) u"
  unfolding deps_ok_def
proof
  fix d assume "d \<in> set (wu_dependencies u)"
  then obtain v where "v \<in> set (ps_work_units sp)" "wu_work_unit_id v = d" by (rule dep_unit[OF assms(1,4)])
  then show "\<exists>st. by_unit sts d = Some st \<and> state_ok sp sats d st"
    using project_local(3)[OF assms(1-3)] local_state_ok[OF assms(1) _ assms(2)] by fastforce
qed

section \<open>Lifecycle commands\<close>

lemma apply_activate_ok:
  "apply_activate q = Inr q' \<Longrightarrow> pend_ok H n q \<Longrightarrow> pend_ok H n q'"
  by (auto simp: apply_activate_def res_simps pend_ok_def facts_ok_def live_ok_def status_ok_def)

lemma apply_pause_ok:
  "apply_pause q = Inr q' \<Longrightarrow> pend_ok H n q \<Longrightarrow> pend_ok H n q'"
  by (auto simp: apply_pause_def res_simps pend_ok_def facts_ok_def live_ok_def status_ok_def)

lemma apply_resume_ok:
  "apply_resume q = Inr q' \<Longrightarrow> pend_ok H n q \<Longrightarrow> pend_ok H n q'"
  by (auto simp: apply_resume_def res_simps pend_ok_def facts_ok_def live_ok_def status_ok_def)

lemma reasons_nonblank [simp]:
  "nonblank ''Program abandonment''" "nonblank ''WorkUnit abandonment''" "nonblank ''Attempt cancellation''"
  "nonblank withdrawal_reason"
  by (simp_all add: nonblank_def isspace_def withdrawal_reason_def)

lemma apply_cancel_program_eq:
  assumes "facts_ok H n q" and "nonblank actor_id" and "1 \<le> order"
  shows "apply_cancel_program order actor_id q =
    (if ap_status q \<in> {ProgramDraft, ProgramActive, ProgramPaused} then
       Inr (q\<lparr>ap_attempts := map (cancel_in (map at_id (ap_attempts q))) (ap_attempts q),
         ap_attempt_cancellations := ap_attempt_cancellations q @
           withdrawals order actor_id ''Program abandonment'' (map at_id (ap_attempts q)) (ap_attempts q),
         ap_status := ProgramCancelled\<rparr>)
     else Inl IllegalTransition)"
  using cancel_live_eq[OF assms(1,2) reasons_nonblank(1) assms(3)] by (simp add: apply_cancel_program_def guard_def)

lemma apply_cancel_program_ok:
  assumes "apply_cancel_program order actor_id q = Inr q'" and "pend_ok H n q"
    and "nonblank actor_id" and "1 \<le> order"
  shows "pend_ok H n q' \<and> \<not> list_ex live (ap_attempts q')"
proof -
  let ?g = "cancel_in (map at_id (ap_attempts q))"
  let ?cs = "ap_attempt_cancellations q @
           withdrawals order actor_id ''Program abandonment'' (map at_id (ap_attempts q)) (ap_attempts q)"
  let ?r = "q\<lparr>ap_attempts := map ?g (ap_attempts q), ap_attempt_cancellations := ?cs\<rparr>"
  have f: "facts_ok H n q" using assms(2) by (simp add: pend_ok_def)
  from assms(1) have q': "q' = ?r\<lparr>ap_status := ProgramCancelled\<rparr>"
    unfolding apply_cancel_program_eq[OF f assms(3,4)] by (simp split: if_splits)
  have "pend_ok H n ?r" using pend_ok_restatus[OF restatus_cancel_in assms(2)] .
  moreover have dead: "\<not> list_ex live (map ?g (ap_attempts q))" by (auto simp: list_ex_iff)
  ultimately show ?thesis
    unfolding q' by (simp add: pend_ok_def facts_ok_def live_ok_def status_ok_def)
qed

section \<open>Attempt transitions\<close>

definition set_status :: "string \<Rightarrow> attempt_status \<Rightarrow> attempt \<Rightarrow> attempt" where
  "set_status i st a = (if at_id a = i then a\<lparr>at_status := st\<rparr> else a)"

lemma replace_status_eq:
  assumes "facts_ok H n q"
  shows "replace_status i st q = Inr (q\<lparr>ap_attempts := map (set_status i st) (ap_attempts q)\<rparr>)"
proof -
  have "nonblank (at_actor_id a)" if "a \<in> set (ap_attempts q)" for a
    using facts_okD(4)[OF assms that] by (simp add: attempt_ok_def wf_attempt_def)
  then have "mapM (\<lambda>a. if at_id a = i then mk_Attempt (at_spec a) st (at_actor_id a) else Inr a) (ap_attempts q)
      = Inr (map (set_status i st) (ap_attempts q))"
    by (intro mapM_total) (simp add: set_status_def)
  then show ?thesis by (simp add: replace_status_def)
qed

lemma replace_status_ok:
  assumes "pend_ok H n q" and "distinct (map at_id (ap_attempts q))" and "a \<in> set (ap_attempts q)" and "at_id a = i" and "live a"
  shows "pend_ok H n (q\<lparr>ap_attempts := map (set_status i st) (ap_attempts q)\<rparr>)"
proof -
  have "b = a" if "b \<in> set (ap_attempts q)" "at_id b = i" for b
    using assms(2-4) that by (metis distinct_map inj_onD)
  then have "restatus (set_status i st) (ap_attempts q)"
    using assms(5) by (auto simp: restatus_def set_status_def live_def)
  from pend_ok_restatus[OF this assms(1), of "ap_attempt_cancellations q"] show ?thesis by simp
qed

lemma apply_start_iff:
  assumes "program_ok H p"
  shows "apply_start p i (locals p) = Inr q' \<longleftrightarrow> (\<exists>a st. a \<in> set (pg_attempts p) \<and> at_id a = i
      \<and> by_unit (pg_states p) (at_unit a) = Some st \<and> us_active_attempt_id st = Some i
      \<and> pg_status p = ProgramActive \<and> at_status a = AttemptPrepared
      \<and> q' = (locals p)\<lparr>ap_attempts := map (set_status i AttemptExecuting) (pg_attempts p)\<rparr>)"
proof -
  have "facts_ok H (pg_revision p) (locals p)" using assms by (simp add: program_ok_def)
  note r = replace_status_eq[OF this]
  show ?thesis
    unfolding apply_start_def
    by (auto simp: res_simps program_attempt_Inr_iff[OF inv_wf(4)[OF assms]] program_state_by_unit[OF assms] r
        split: option.splits)
qed

lemma apply_finish_iff:
  assumes "program_ok H p"
  shows "apply_finish p i (locals p) = Inr q' \<longleftrightarrow> (\<exists>a. a \<in> set (pg_attempts p) \<and> at_id a = i
      \<and> pg_status p \<in> {ProgramActive, ProgramPaused, ProgramCompleted} \<and> at_status a = AttemptExecuting
      \<and> q' = (locals p)\<lparr>ap_attempts := map (set_status i AttemptFinished) (pg_attempts p)\<rparr>)"
proof -
  have "facts_ok H (pg_revision p) (locals p)" using assms by (simp add: program_ok_def)
  note r = replace_status_eq[OF this]
  show ?thesis
    unfolding apply_finish_def
    by (auto simp: res_simps program_attempt_Inr_iff[OF inv_wf(4)[OF assms]] r)
qed

lemma apply_fail_iff:
  assumes "program_ok H p"
  shows "apply_fail p i (locals p) = Inr q' \<longleftrightarrow> (\<exists>a. a \<in> set (pg_attempts p) \<and> at_id a = i
      \<and> pg_status p \<in> {ProgramActive, ProgramPaused, ProgramCompleted} \<and> live a
      \<and> q' = (locals p)\<lparr>ap_attempts := map (set_status i AttemptFailed) (pg_attempts p)\<rparr>)"
proof -
  have "facts_ok H (pg_revision p) (locals p)" using assms by (simp add: program_ok_def)
  note r = replace_status_eq[OF this]
  show ?thesis
    unfolding apply_fail_def
    by (auto simp: res_simps program_attempt_Inr_iff[OF inv_wf(4)[OF assms]] r)
qed

lemma apply_cancel_attempt_iff:
  assumes "program_ok H p" and "nonblank actor_id" and "1 \<le> order"
  shows "apply_cancel_attempt p order actor_id i (locals p) = Inr q' \<longleftrightarrow> (\<exists>a. a \<in> set (pg_attempts p) \<and> at_id a = i
      \<and> pg_status p \<in> {ProgramActive, ProgramPaused, ProgramCompleted} \<and> live a
      \<and> q' = (locals p)\<lparr>ap_attempts := map (cancel_in [i]) (pg_attempts p),
          ap_attempt_cancellations := pg_attempt_cancellations p @
            withdrawals order actor_id ''Attempt cancellation'' [i] (pg_attempts p)\<rparr>)"
proof -
  have "facts_ok H (pg_revision p) (locals p)" using assms by (simp add: program_ok_def)
  note r = cancel_live_eq[OF this assms(2) reasons_nonblank(3) assms(3), of "[i]"]
  show ?thesis
    unfolding apply_cancel_attempt_def
    by (auto simp: res_simps program_attempt_Inr_iff[OF inv_wf(4)[OF assms(1)]] r)
qed

lemma prepared_executing_live: "at_status a = AttemptPrepared \<Longrightarrow> live a" "at_status a = AttemptExecuting \<Longrightarrow> live a"
  by (simp_all add: live_def)

lemma attempt_transitions_ok:
  assumes "program_ok H p"
  shows "apply_start p i (locals p) = Inr q' \<Longrightarrow> pend_ok H (pg_revision p + 1) q'"
    "apply_finish p i (locals p) = Inr q' \<Longrightarrow> pend_ok H (pg_revision p + 1) q'"
    "apply_fail p i (locals p) = Inr q' \<Longrightarrow> pend_ok H (pg_revision p + 1) q'"
  using replace_status_ok[OF inv_pend_ok[OF assms]] inv_wf(4)[OF assms] prepared_executing_live
  unfolding apply_start_iff[OF assms] apply_finish_iff[OF assms] apply_fail_iff[OF assms]
  by (auto simp del: locals_simps(1,2,4-))

lemma apply_cancel_attempt_ok:
  assumes "program_ok H p" and "apply_cancel_attempt p order actor_id i (locals p) = Inr q'"
    and "nonblank actor_id" and "1 \<le> order"
  shows "pend_ok H (pg_revision p + 1) q'"
  using pend_ok_restatus[OF restatus_cancel_in inv_pend_ok[OF assms(1)]] assms(2)
  unfolding apply_cancel_attempt_iff[OF assms(1,3,4)] by auto

section \<open>Abandoning a unit\<close>

lemma add_affected_Inr:
  assumes "wf_spec sp" and "distinct (pre @ order)" and "set (pre @ order) = set (unit_ids (ps_work_units sp))"
    and "\<And>u d. u \<in> set (ps_work_units sp) \<Longrightarrow> d \<in> set (wu_dependencies u) \<Longrightarrow>
      places_before d (wu_work_unit_id u) (pre @ order)"
    and "\<And>u d. u \<in> set (ps_work_units sp) \<Longrightarrow> wu_work_unit_id u \<in> set pre \<Longrightarrow> d \<in> set (wu_dependencies u) \<Longrightarrow>
      d \<in> set A \<Longrightarrow> wu_work_unit_id u \<in> set A"
    and "\<And>j. j \<in> set A \<Longrightarrow> i \<in> ancestors (ps_work_units sp) j"
  shows "\<exists>R. add_affected sp order A = Inr R \<and> set A \<subseteq> set R
    \<and> (\<forall>u \<in> set (ps_work_units sp). (\<exists>d \<in> set (wu_dependencies u). d \<in> set R) \<longrightarrow> wu_work_unit_id u \<in> set R)
    \<and> (\<forall>j \<in> set R. i \<in> ancestors (ps_work_units sp) j)"
  using assms(2-)
proof (induction order arbitrary: pre A)
  case Nil
  then show ?case by auto
next
  case (Cons k order)
  have "k \<in> set (unit_ids (ps_work_units sp))" using Cons.prems(2) by auto
  then obtain u where u: "u \<in> set (ps_work_units sp)" "wu_work_unit_id u = k" by auto
  have su: "spec_work_unit sp k = Inr u" using u wf_specD(2)[OF assms(1)] by (simp add: spec_work_unit_Inr_iff)
  have uniq: "v = u" if "v \<in> set (ps_work_units sp)" "wu_work_unit_id v = k" for v
    using unit_by_id[OF wf_specD(2)[OF assms(1)] that(1) u(1)] that(2) u(2) by simp
  have dep_pre: "d \<in> set pre" if "v \<in> set (ps_work_units sp)" "wu_work_unit_id v \<in> set pre \<or> wu_work_unit_id v = k"
      "d \<in> set (wu_dependencies v)" for v d
    using places_before_prefix[OF Cons.prems(3)[OF that(1,3)] Cons.prems(1) that(2)] .
  have knew: "k \<notin> set pre" using Cons.prems(1) by simp
  let ?A = "if list_ex (\<lambda>x. x \<in> set A) (wu_dependencies u) then List.insert k A else A"
  have sub: "set A \<subseteq> set ?A" by auto
  have "\<exists>R. add_affected sp order ?A = Inr R \<and> set ?A \<subseteq> set R
    \<and> (\<forall>u \<in> set (ps_work_units sp). (\<exists>d \<in> set (wu_dependencies u). d \<in> set R) \<longrightarrow> wu_work_unit_id u \<in> set R)
    \<and> (\<forall>j \<in> set R. i \<in> ancestors (ps_work_units sp) j)"
  proof (rule Cons.IH[of "pre @ [k]"])
    fix v d assume v: "v \<in> set (ps_work_units sp)" "wu_work_unit_id v \<in> set (pre @ [k])" "d \<in> set (wu_dependencies v)" "d \<in> set ?A"
    have "d \<in> set pre" using dep_pre[OF v(1) _ v(3)] v(2) by auto
    then have d: "d \<in> set A" using v(4) knew by (auto split: if_splits)
    show "wu_work_unit_id v \<in> set ?A"
    proof (cases "wu_work_unit_id v = k")
      case True
      then show ?thesis using uniq[OF v(1)] v(3) d by (auto simp: list_ex_iff)
    next
      case False
      then show ?thesis using Cons.prems(4)[OF v(1) _ v(3) d] v(2) sub by auto
    qed
  next
    fix j assume j: "j \<in> set ?A"
    show "i \<in> ancestors (ps_work_units sp) j"
    proof (cases "j \<in> set A")
      case False
      then obtain d where "j = k" "d \<in> set (wu_dependencies u)" "d \<in> set A" using j by (auto simp: list_ex_iff split: if_splits)
      then show ?thesis using Cons.prems(5) u ancestors_unfold[OF wf_specD(2)[OF assms(1)] u(1)] by auto
    qed (rule Cons.prems(5))
  qed (use Cons.prems(1-3) in simp_all)
  with sub show ?case by (auto simp: su)
qed

lemma affected_descendants:
  assumes "wf_spec sp" and "spec_topological_order sp = Inr order" and "i \<in> set (unit_ids (ps_work_units sp))"
  obtains R where "add_affected sp order [i] = Inr R"
    "\<And>j. j \<in> set (unit_ids (ps_work_units sp)) \<Longrightarrow> j \<in> set R \<longleftrightarrow> i \<in> ancestors (ps_work_units sp) j"
proof -
  note sound = topological_order_sound[OF wf_specD(2)[OF assms(1)] assms(2)[unfolded spec_topological_order_def]]
  obtain R where R: "add_affected sp order [i] = Inr R" "i \<in> set R"
      and up: "\<forall>u \<in> set (ps_work_units sp). (\<exists>d \<in> set (wu_dependencies u). d \<in> set R) \<longrightarrow> wu_work_unit_id u \<in> set R"
      and only: "\<And>j. j \<in> set R \<Longrightarrow> i \<in> ancestors (ps_work_units sp) j"
    using add_affected_Inr[OF assms(1), of "[]" order "[i]" i] sound by (auto simp: ancestors_def)
  have "j \<in> set R" if "(i, j) \<in> (dep_rel (ps_work_units sp))\<^sup>*" for j
    using that by (induction rule: rtrancl_induct) (use R(2) up in \<open>auto simp: dep_rel_def\<close>)
  then show ?thesis using that[OF R(1)] only by (auto simp: ancestors_def)
qed

lemma cancelled_unit_snoc:
  assumes "cancelled_unit H sp (cans @ [c]) j"
  shows "cancelled_unit H sp cans j \<or> wc_work_unit_id c \<in> ancestors (ps_work_units sp) j"
  using assms by (auto simp: cancelled_unit_def cancelled_by_def)

definition unit_cancellation :: "hash \<Rightarrow> program_spec \<Rightarrow> string \<Rightarrow> string \<Rightarrow> string \<Rightarrow> int \<Rightarrow> work_unit_cancellation" where
  "unit_cancellation H sp i actor_id reason order = \<lparr>wc_work_unit_id = i, wc_work_unit_fingerprint = unit_fp H sp i,
     wc_spec_revision = ps_revision sp, wc_spec_digest = spec_digest H sp, wc_actor_id = actor_id,
     wc_reason = reason, wc_record_order = order\<rparr>"

definition descendants :: "program_spec \<Rightarrow> string \<Rightarrow> attempt list \<Rightarrow> string list" where
  "descendants sp i atts = map at_id (filter (\<lambda>a. live a \<and> i \<in> ancestors (ps_work_units sp) (at_unit a)) atts)"

lemma cancel_in_cong:
  assumes "\<And>a. a \<in> set atts \<Longrightarrow> live a \<Longrightarrow> at_id a \<in> set ids \<longleftrightarrow> at_id a \<in> set ids'"
  shows "map (cancel_in ids) atts = map (cancel_in ids') atts" "withdrawals order actor_id reason ids atts = withdrawals order actor_id reason ids' atts"
proof -
  show "map (cancel_in ids) atts = map (cancel_in ids') atts"
    using assms by (auto simp: cancel_in_def)
  have "filter (\<lambda>a. at_id a \<in> set ids \<and> live a) atts = filter (\<lambda>a. at_id a \<in> set ids' \<and> live a) atts"
    using assms by (intro filter_cong) auto
  then show "withdrawals order actor_id reason ids atts = withdrawals order actor_id reason ids' atts"
    by (simp only: withdrawals_def cancelled_ids_def)
qed

text \<open>\<open>CancelWorkUnit\<close> in closed form: the attempts withdrawn are the live ones of the unit's descendants.\<close>

lemma apply_cancel_unit_eq:
  assumes "program_ok H p" and "digest_like H" and "nonblank actor_id" and "nonblank reason" and "order = pg_revision p + 1"
  shows "apply_cancel_unit H p order actor_id i reason (locals p) =
    (if pg_status p \<notin> {ProgramActive, ProgramPaused} then Inl IllegalTransition
     else if i \<notin> set (unit_ids (ps_work_units (pg_spec p))) then Inl MissingReference
     else if status_of (pg_states p) i = UnitCancelled then Inl IllegalTransition
     else Inr ((locals p)\<lparr>ap_cancellations := pg_cancellations p @ [unit_cancellation H (pg_spec p) i actor_id reason order],
       ap_attempts := map (cancel_in (descendants (pg_spec p) i (pg_attempts p))) (pg_attempts p),
       ap_attempt_cancellations := pg_attempt_cancellations p @
         withdrawals order actor_id ''WorkUnit abandonment'' (descendants (pg_spec p) i (pg_attempts p)) (pg_attempts p)\<rparr>))"
proof (cases "pg_status p \<in> {ProgramActive, ProgramPaused} \<and> i \<in> set (unit_ids (ps_work_units (pg_spec p)))")
  case False
  then show ?thesis
    using spec_work_unit_Inl_iff[of "pg_spec p" i MissingReference] by (auto simp: apply_cancel_unit_def guard_def)
next
  case True
  let ?sp = "pg_spec p" and ?atts = "pg_attempts p"
  note wf = inv_wf[OF assms(1)]
  from True obtain u where u: "u \<in> set (ps_work_units ?sp)" "wu_work_unit_id u = i" by auto
  have su: "spec_work_unit ?sp i = Inr u" using u wf_specD(2)[OF wf(1)] by (simp add: spec_work_unit_Inr_iff)
  obtain topo where topo: "spec_topological_order ?sp = Inr topo" using spec_topological_order_total[OF wf(1)] by blast
  obtain R where R: "add_affected ?sp topo [i] = Inr R"
      "\<And>j. j \<in> set (unit_ids (ps_work_units ?sp)) \<Longrightarrow> j \<in> set R \<longleftrightarrow> i \<in> ancestors (ps_work_units ?sp) j"
    using affected_descendants[OF wf(1) topo, of i] True by blast
  have st: "\<exists>st. by_unit (pg_states p) i = Some st"
    using project_local(3)[OF wf(1,2) inv_project[OF assms(1)] u(1)] True u(2) by auto
  then have ps: "program_state p i = Inr (the (by_unit (pg_states p) i))"
    by (auto simp: program_state_by_unit[OF assms(1)])
  have fp: "fingerprint H ?sp i = Inr (unit_fp H ?sp i)" using fingerprint_eq[OF wf(1)] True by simp
  have n0: "0 \<le> pg_revision p" using assms(1) by (simp add: program_ok_def)
  have mk: "mk_WorkUnitCancellation i (unit_fp H ?sp i) (ps_revision ?sp) (spec_digest H ?sp) actor_id reason order
      = Inr (unit_cancellation H ?sp i actor_id reason order)"
    using wf(1) wf_specD(3)[OF wf(1) u(1)] u(2) assms(2-5) n0
    by (simp add: mk_WorkUnitCancellation_def unit_cancellation_def revision_ok_def wf_spec_def wf_work_unit_def
        digest_like_def json_digest_def spec_digest_def)
  let ?q = "(locals p)\<lparr>ap_cancellations := pg_cancellations p @ [unit_cancellation H ?sp i actor_id reason order]\<rparr>"
  let ?ids = "map at_id (filter (\<lambda>a. at_unit a \<in> set R) ?atts)" and ?ids' = "descendants ?sp i ?atts"
  have f: "facts_ok H order ?q"
  proof -
    have "facts_ok H order (locals p)" using inv_pend_ok[OF assms(1)] assms(5) by (simp add: pend_ok_def)
    moreover have "cancellation_ok H (pg_spec_history p) order (unit_cancellation H ?sp i actor_id reason order)"
      using cites_current[OF wf(3)] True by (auto simp: cancellation_ok_def unit_cancellation_def)
    ultimately show ?thesis by (simp add: facts_ok_def)
  qed
  have "at_id a \<in> set ?ids \<longleftrightarrow> at_id a \<in> set ?ids'" if a: "a \<in> set ?atts" "live a" for a
  proof -
    have uniq: "b = a" if "b \<in> set ?atts" "at_id b = at_id a" for b
      using wf(4) a(1) that by (meson distinct_map inj_onD)
    have "at_unit a \<in> set (unit_ids (ps_work_units ?sp))" using assms(1) a by (auto simp: program_ok_def live_ok_def)
    then show ?thesis using R(2)[of "at_unit a"] uniq a by (auto simp: descendants_def)
  qed
  note same = cancel_in_cong[of ?atts ?ids ?ids', OF this]
  show ?thesis
    using True u(2) cancel_live_eq[OF f assms(3) reasons_nonblank(2), of order ?ids] assms(5) n0
    by (simp add: apply_cancel_unit_def su topo R(1) ps fp mk[unfolded assms(5)] same guard_def)
qed

lemma apply_cancel_unit_ok:
  assumes "program_ok H p" and "digest_like H" and "nonblank actor_id" and "nonblank reason" and "order = pg_revision p + 1"
    and "apply_cancel_unit H p order actor_id i reason (locals p) = Inr q'"
  shows "pend_ok H order q'"
proof -
  let ?ids = "descendants (pg_spec p) i (pg_attempts p)" and ?c = "unit_cancellation H (pg_spec p) i actor_id reason order"
  let ?q = "(locals p)\<lparr>ap_attempts := map (cancel_in ?ids) (pg_attempts p),
       ap_attempt_cancellations := pg_attempt_cancellations p @
         withdrawals order actor_id ''WorkUnit abandonment'' ?ids (pg_attempts p)\<rparr>"
  from assms(6) have q': "q' = ?q\<lparr>ap_cancellations := pg_cancellations p @ [?c]\<rparr>"
      and i: "i \<in> set (unit_ids (ps_work_units (pg_spec p)))" and s: "pg_status p \<in> {ProgramActive, ProgramPaused}"
    unfolding apply_cancel_unit_eq[OF assms(1-5)] by (auto split: if_splits)
  have ok: "pend_ok H order ?q"
    using pend_ok_restatus[OF restatus_cancel_in inv_pend_ok[OF assms(1)]] assms(5) by simp
  have "cancellation_ok H (pg_spec_history p) order ?c"
    using cites_current[OF inv_wf(3)[OF assms(1)]] i by (auto simp: cancellation_ok_def unit_cancellation_def)
  then have "facts_ok H order q'" using ok by (simp add: q' pend_ok_def facts_ok_def)
  moreover have "live_ok H q'"
  proof -
    have "\<not> cancelled_unit H (pg_spec p) (pg_cancellations p @ [?c]) (at_unit a)"
      if "a \<in> set (pg_attempts p)" "live (cancel_in ?ids a)" for a
    proof -
      have "live a" "at_id a \<notin> set ?ids" using that(2) by simp_all
      then have "i \<notin> ancestors (ps_work_units (pg_spec p)) (at_unit a)" using that(1) by (auto simp: descendants_def)
      moreover have "\<not> cancelled_unit H (pg_spec p) (pg_cancellations p) (at_unit a)"
        using assms(1) that(1) \<open>live a\<close> by (auto simp: program_ok_def live_ok_def)
      ultimately show ?thesis using cancelled_unit_snoc[of H "pg_spec p" "pg_cancellations p" ?c "at_unit a"]
        by (auto simp: unit_cancellation_def)
    qed
    moreover have "at_unit (cancel_in ?ids a) = at_unit a" for a by (simp add: cancel_in_def)
    ultimately show ?thesis using ok by (auto simp: q' pend_ok_def live_ok_def)
  qed
  moreover have "status_ok q'" using s by (auto simp: q' status_ok_def)
  ultimately show ?thesis by (simp add: pend_ok_def)
qed

end
