(* ===== verification/Domain_Admission.thy ===== *)
theory Domain_Admission
  imports Domain_Commands
begin

text \<open>
  The branches of \<open>apply\<close> that admit new facts: \<open>PrepareAttempt\<close> (with its budgets and its remediation
  lineage) and \<open>SatisfyWorkUnit\<close>.
\<close>

section \<open>Preparing an attempt\<close>

lemma program_resolved_inputs_error:
  assumes "program_ok H p" and "pg_status p \<noteq> ProgramDraft" and "program_resolved_inputs p i = Inl e"
  shows "e \<in> {MissingReference, MissingInput}"
proof -
  note wf = inv_wf[OF assms(1)]
  show ?thesis
  proof (cases "spec_work_unit (pg_spec p) i")
    case (Inr u)
    then have u: "u \<in> set (ps_work_units (pg_spec p))" using spec_work_unit_Inr_iff[OF wf_specD(2)[OF wf(1)]] by simp
    have "deps_ok (pg_spec p) (pg_satisfactions p) (by_unit (pg_states p)) u"
      by (rule deps_ok_projected[OF wf(1,2) inv_project[OF assms(1,2)] u])
    from resolved_inputs_total[OF wf(1) u wf(2) this]
    obtain r where "resolved_inputs (pg_spec p) u (by_unit (pg_states p)) (dict_from ts_reference_id (pg_satisfactions p)) = Inr r"
      by (metis)
    then show ?thesis using assms(3) Inr by (auto simp: program_resolved_inputs_def split: option.splits)
  next
    case (Inl e')
    then show ?thesis using assms(3) program_lookup_errors(3)[OF Inl] by (simp add: program_resolved_inputs_def)
  qed
qed

text \<open>What admission guarantees about the prepared attempt.\<close>

definition admitted :: "hash \<Rightarrow> program \<Rightarrow> attempt_spec \<Rightarrow> work_unit \<Rightarrow> bool" where
  "admitted H p requested u \<longleftrightarrow> pg_status p = ProgramActive \<and> as_program_id requested = pg_id p
     \<and> (as_spec_revision requested, as_spec_digest requested) = spec_key H (pg_spec p)
     \<and> u \<in> set (ps_work_units (pg_spec p)) \<and> wu_work_unit_id u = as_work_unit_id requested
     \<and> status_of (pg_states p) (wu_work_unit_id u) = UnitReady
     \<and> as_attempt_id requested \<notin> at_id ` set (pg_attempts p)
     \<and> (\<forall>a \<in> set (pg_attempts p). live a \<longrightarrow> at_unit a \<noteq> wu_work_unit_id u)
     \<and> program_resolved_inputs p (wu_work_unit_id u) = Inr (as_effective_inputs requested)
     \<and> remediation_ok H p u requested (locals p) = Inr ()
     \<and> int (length (pg_attempts p)) < min (bp_max_attempts (ps_budget (pg_spec p))) (ae_max_attempts (ps_authority (pg_spec p)))
     \<and> int (length (filter live (pg_attempts p))) < bp_max_active_attempts (ps_budget (pg_spec p))"

definition prepared :: "string \<Rightarrow> attempt_spec \<Rightarrow> attempt" where
  "prepared actor_id requested = \<lparr>at_spec = requested, at_status = AttemptPrepared, at_actor_id = actor_id\<rparr>"

lemma apply_prepare_Inr:
  assumes "program_ok H p" and "nonblank actor_id" and "apply_prepare H p actor_id requested (locals p) = Inr q'"
  obtains u where "admitted H p requested u"
    "q' = (locals p)\<lparr>ap_attempts := pg_attempts p @ [prepared actor_id requested]\<rparr>"
proof -
  obtain u st where u: "spec_work_unit (pg_spec p) (as_work_unit_id requested) = Inr u"
      "program_state p (wu_work_unit_id u) = Inr st" "us_status st = UnitReady"
      "pg_status p = ProgramActive" "as_program_id requested = pg_id p"
      "(as_spec_revision requested, as_spec_digest requested) = spec_key H (pg_spec p)"
      "\<not> list_ex (\<lambda>a. at_id a = as_attempt_id requested) (pg_attempts p)"
      "\<not> list_ex (\<lambda>a. at_unit a = wu_work_unit_id u \<and> live a) (pg_attempts p)"
      "program_resolved_inputs p (wu_work_unit_id u) = Inr (as_effective_inputs requested)"
      "remediation_ok H p u requested (locals p) = Inr ()"
      "int (length (pg_attempts p)) < min (bp_max_attempts (ps_budget (pg_spec p))) (ae_max_attempts (ps_authority (pg_spec p)))"
      "int (length (filter live (pg_attempts p))) < bp_max_active_attempts (ps_budget (pg_spec p))"
      and q': "q' = (locals p)\<lparr>ap_attempts := pg_attempts p @ [prepared actor_id requested]\<rparr>"
    using assms(3) unfolding apply_prepare_def res_simps locals_simps prepared_def by auto
  have "u \<in> set (ps_work_units (pg_spec p)) \<and> wu_work_unit_id u = as_work_unit_id requested"
    using u(1) spec_work_unit_Inr_iff[OF wf_specD(2)[OF inv_wf(1)[OF assms(1)]]] by blast
  moreover have "status_of (pg_states p) (wu_work_unit_id u) = UnitReady"
    using u(2,3) by (auto simp: program_state_by_unit[OF assms(1)] split: option.splits)
  ultimately have "admitted H p requested u"
    using u by (auto simp: admitted_def list_ex_iff)
  with q' that show ?thesis by blast
qed

lemma lineage_ok_snoc:
  assumes "lineage_ok atts" and "as_remediation_of (at_spec a) \<noteq> None \<Longrightarrow> \<exists>b \<in> set atts. remediates a b"
  shows "lineage_ok (atts @ [a])"
  unfolding lineage_ok_def
proof (intro allI impI)
  fix j assume j: "j < length (atts @ [a])" "as_remediation_of (at_spec ((atts @ [a]) ! j)) \<noteq> None"
  show "\<exists>i < j. remediates ((atts @ [a]) ! j) ((atts @ [a]) ! i)"
  proof (cases "j < length atts")
    case True
    then obtain i where "i < j" "remediates (atts ! j) (atts ! i)" using assms(1) j by (auto simp: lineage_ok_def nth_append)
    then show ?thesis using True by (intro exI[of _ i]) (simp add: nth_append)
  next
    case False
    then have "j = length atts" using j(1) by simp
    moreover from this obtain b where "b \<in> set atts" "remediates a b" using assms(2) j(2) by auto
    ultimately show ?thesis by (auto simp: in_set_conv_nth nth_append)
  qed
qed

lemma apply_prepare_ok:
  assumes "program_ok H p" and "nonblank actor_id" and "wf_attempt_spec requested"
    and "apply_prepare H p actor_id requested (locals p) = Inr q'"
  shows "pend_ok H (pg_revision p + 1) q'"
proof -
  obtain u where ad: "admitted H p requested u"
      and q': "q' = (locals p)\<lparr>ap_attempts := pg_attempts p @ [prepared actor_id requested]\<rparr>"
    by (rule apply_prepare_Inr[OF assms(1,2,4)])
  let ?a = "prepared actor_id requested"
  note wf = inv_wf[OF assms(1)]
  have ok: "facts_ok H (pg_revision p + 1) (locals p)" using inv_pend_ok[OF assms(1)] by (simp add: pend_ok_def)
  have uid: "u \<in> set (ps_work_units (pg_spec p))" "wu_work_unit_id u = as_work_unit_id requested"
    using ad by (simp_all add: admitted_def)
  have ids: "as_work_unit_id requested \<in> set (unit_ids (ps_work_units (pg_spec p)))" using uid by (metis imageI list.set_map)
  have "attempt_ok H (pg_spec_history p) (pg_id p) ?a"
    using assms(2,3) ad cites_current[OF wf(3)] ids
    by (auto simp: attempt_ok_def prepared_def wf_attempt_def admitted_def)
  moreover have "lineage_ok (pg_attempts p @ [?a])"
  proof (rule lineage_ok_snoc)
    show "lineage_ok (pg_attempts p)" using facts_okD(3)[OF ok] by simp
    assume "as_remediation_of (at_spec ?a) \<noteq> None"
    then obtain r where r: "as_remediation_of requested = Some r" by (auto simp: prepared_def)
    then obtain s where "program_attempt p r = Inr s" "at_status s = AttemptFinished" "at_unit s = wu_work_unit_id u"
        "(as_spec_revision (at_spec s), as_spec_digest (at_spec s)) = spec_key H (pg_spec p)"
      using ad by (auto simp: admitted_def remediation_ok_def res_simps)
    then have "s \<in> set (pg_attempts p) \<and> remediates ?a s"
      using ad r uid by (auto simp: program_attempt_Inr_iff[OF wf(4)] remediates_def prepared_def admitted_def)
    then show "\<exists>b \<in> set (pg_attempts p). remediates ?a b" by blast
  qed
  moreover have "distinct (map at_id (pg_attempts p @ [?a]))" using wf(4) ad by (auto simp: prepared_def admitted_def)
  moreover have "satisfaction_ok H h (pg_attempts p @ [?a]) i n t" if "satisfaction_ok H h (pg_attempts p) i n t" for h i n t
    using that unfolding satisfaction_ok_def set_append by blast
  ultimately have f: "facts_ok H (pg_revision p + 1) q'"
    using ok by (simp add: q' facts_ok_def attempts_ok_def)
  have "\<not> cancelled_unit H (pg_spec p) (pg_cancellations p) (as_work_unit_id requested)"
    using project_cancelled_iff[OF wf(1,2) inv_project[OF assms(1)] uid(1)] ad uid(2) by (simp add: admitted_def)
  then have "live_ok H q'"
    using assms(1) ad uid(2) ids by (auto simp: q' program_ok_def live_ok_def prepared_def admitted_def)
  then show ?thesis using f ad by (simp add: pend_ok_def q' status_ok_def admitted_def)
qed

lemma remediation_ok_error: "remediation_ok H p u r q = Inl e \<Longrightarrow> \<not> internal e"
  by (auto simp: remediation_ok_def res_simps dest: program_lookup_errors split: option.splits)

lemma apply_prepare_error:
  assumes "program_ok H p" and "nonblank actor_id" and "apply_prepare H p actor_id requested (locals p) = Inl e"
  shows "\<not> internal e"
proof -
  have "\<not> internal e'" if "pg_status p = ProgramActive" "program_resolved_inputs p i = Inl e'" for i e'
    using program_resolved_inputs_error[OF assms(1) _ that(2)] that(1) by auto
  then show ?thesis
    using assms(2,3) unfolding apply_prepare_def rbind_eq_Inl guard_eq_Inl guard_eq_Inr locals_simps
    by (auto simp: mk_Attempt_def dest: program_lookup_errors remediation_ok_error)
qed

section \<open>Recording a satisfaction\<close>

definition creditable :: "hash \<Rightarrow> program \<Rightarrow> string \<Rightarrow> trusted_satisfaction \<Rightarrow> program_spec \<Rightarrow> work_unit \<Rightarrow> attempt \<Rightarrow> bool" where
  "creditable H p actor_id t s u a \<longleftrightarrow> pg_status p \<in> {ProgramActive, ProgramPaused, ProgramCompleted}
     \<and> ts_issuer_id t = actor_id \<and> ts_program_id t = pg_id p
     \<and> cites H (pg_spec_history p) (ts_spec_revision t) (ts_spec_digest t) s
     \<and> u \<in> set (ps_work_units s) \<and> wu_work_unit_id u = ts_work_unit_id t
     \<and> ts_work_unit_fingerprint t = unit_fp H s (ts_work_unit_id t)
     \<and> ts_record_order t = 0 \<and> ts_reference_id t \<notin> ts_reference_id ` set (pg_satisfactions p)
     \<and> a \<in> set (pg_attempts p) \<and> at_id a = ts_source_attempt_id t \<and> at_status a = AttemptFinished
     \<and> as_program_id (at_spec a) = pg_id p \<and> at_unit a = ts_work_unit_id t
     \<and> as_spec_revision (at_spec a) = ts_spec_revision t \<and> as_spec_digest (at_spec a) = ts_spec_digest t
     \<and> fset_of_list (map ib_name (ts_output_bindings t)) = wu_outputs u"

lemma apply_satisfy_Inr:
  assumes "program_ok H p" and "wf_satisfaction t" and "order = pg_revision p + 1"
    and "apply_satisfy H p order actor_id t (locals p) = Inr q'"
  obtains s u a where "creditable H p actor_id t s u a"
    "q' = (locals p)\<lparr>ap_satisfactions := pg_satisfactions p @ [t\<lparr>ts_record_order := order\<rparr>]\<rparr>"
proof -
  note wf = inv_wf[OF assms(1)]
  have n: "0 < order" using assms(1,3) by (simp add: program_ok_def)
  obtain s where s: "List.find (\<lambda>s. spec_key H s = (ts_spec_revision t, ts_spec_digest t)) (pg_spec_history p) = Some s"
    using assms(4) by (auto simp: apply_satisfy_def res_simps split: option.splits)
  obtain u fp a where u: "spec_work_unit s (ts_work_unit_id t) = Inr u" "fingerprint H s (wu_work_unit_id u) = Inr fp"
      "ts_work_unit_fingerprint t = fp" "ts_record_order t = 0"
      "\<not> list_ex (\<lambda>r. ts_reference_id r = ts_reference_id t) (pg_satisfactions p)"
      "program_attempt p (ts_source_attempt_id t) = Inr a" "at_status a = AttemptFinished"
      "as_program_id (at_spec a) = pg_id p" "at_unit a = wu_work_unit_id u"
      "as_spec_revision (at_spec a) = ts_spec_revision t" "as_spec_digest (at_spec a) = ts_spec_digest t"
      "fset_of_list (map ib_name (ts_output_bindings t)) = wu_outputs u"
      "pg_status p \<in> {ProgramActive, ProgramPaused, ProgramCompleted}" "ts_issuer_id t = actor_id" "ts_program_id t = pg_id p"
      and q': "q' = (locals p)\<lparr>ap_satisfactions := pg_satisfactions p @ [t\<lparr>ts_record_order := order\<rparr>]\<rparr>"
    using assms(4) mk_TrustedSatisfaction_record[OF assms(2) n]
    unfolding apply_satisfy_def locals_simps s option.case res_simps by auto
  have c: "cites H (pg_spec_history p) (ts_spec_revision t) (ts_spec_digest t) s" using s find_cites[OF wf(3)] by blast
  have ws: "wf_spec s" by (rule cites_wf[OF wf(3) c])
  have "u \<in> set (ps_work_units s) \<and> wu_work_unit_id u = ts_work_unit_id t"
    using u(1) spec_work_unit_Inr_iff[OF wf_specD(2)[OF ws]] by blast
  moreover from this have "fp = unit_fp H s (ts_work_unit_id t)" using u(2) fingerprint_Inr_iff[OF ws] by simp
  moreover have "a \<in> set (pg_attempts p) \<and> at_id a = ts_source_attempt_id t"
    using u(6) program_attempt_Inr_iff[OF wf(4)] by blast
  ultimately have "creditable H p actor_id t s u a" using u c by (auto simp: creditable_def list_ex_iff)
  with q' that show ?thesis by blast
qed

lemma apply_satisfy_ok:
  assumes "program_ok H p" and "wf_satisfaction t" and "order = pg_revision p + 1"
    and "apply_satisfy H p order actor_id t (locals p) = Inr q'"
  shows "pend_ok H order q'"
proof -
  obtain s u a where c: "creditable H p actor_id t s u a"
      and q': "q' = (locals p)\<lparr>ap_satisfactions := pg_satisfactions p @ [t\<lparr>ts_record_order := order\<rparr>]\<rparr>"
    by (rule apply_satisfy_Inr[OF assms])
  let ?t = "t\<lparr>ts_record_order := order\<rparr>"
  have ok: "pend_ok H order (locals p)" using inv_pend_ok[OF assms(1)] assms(3) by simp
  have "wf_satisfaction ?t" "0 < order" using assms(1-3) by (simp_all add: wf_satisfaction_def program_ok_def)
  then have "satisfaction_ok H (pg_spec_history p) (pg_attempts p) (pg_id p) order ?t"
    using c unfolding satisfaction_ok_def creditable_def by auto
  then have "facts_ok H order q'"
    using ok c by (auto simp: q' pend_ok_def facts_ok_def creditable_def)
  then show ?thesis
    using ok c by (auto simp: q' pend_ok_def live_ok_def status_ok_def creditable_def)
qed

lemma apply_satisfy_error:
  assumes "program_ok H p" and "wf_satisfaction t" and "order = pg_revision p + 1"
    and "apply_satisfy H p order actor_id t (locals p) = Inl e"
  shows "\<not> internal e"
proof -
  have n: "0 < order" using assms(1,3) by (simp add: program_ok_def)
  have fpe: "\<not> internal e'" if "spec_work_unit s i = Inr u" "fingerprint H s (wu_work_unit_id u) = Inl e'"
      "List.find P (pg_spec_history p) = Some s" for s i u e' P
  proof -
    have "wf_spec s" using that(3) history_okD(2)[OF inv_wf(3)[OF assms(1)]] by (auto dest: find_SomeD)
    then show ?thesis using that(2) fingerprint_eq fingerprint_error
      by (cases "wu_work_unit_id u \<in> set (unit_ids (ps_work_units s))") auto
  qed
  show ?thesis
  proof (cases "List.find (\<lambda>s. spec_key H s = (ts_spec_revision t, ts_spec_digest t)) (pg_spec_history p)")
    case (Some s)
    have fpe': "\<not> internal e'" if "spec_work_unit s i = Inr u" "fingerprint H s (wu_work_unit_id u) = Inl e'" for i u e'
      using fpe[OF that Some] .
    show ?thesis
      using assms(4) mk_TrustedSatisfaction_record[OF assms(2) n]
      unfolding apply_satisfy_def rbind_eq_Inl guard_eq_Inl guard_eq_Inr locals_simps Some option.case
      by (auto dest: program_lookup_errors fpe')
  qed (use assms(4) in \<open>auto simp: apply_satisfy_def res_simps\<close>)
qed

end
