(* ===== verification/Domain_Amendment.thy ===== *)
theory Domain_Amendment
  imports Domain_Admission
begin

text \<open>
  \<open>AmendProgramSpec\<close>: the withdrawal loop terminates without raising, cancels exactly live attempts, and
  stops when every live attempt keeps its subject and its authority under the amended specification.
\<close>

section \<open>Which attempts an amendment keeps\<close>

definition retained :: "hash \<Rightarrow> pending \<Rightarrow> work_unit_state list \<Rightarrow> attempt \<Rightarrow> bool" where
  "retained H q sts a \<longleftrightarrow> (\<exists>u s ins. u \<in> set (ps_work_units (ap_spec q)) \<and> wu_work_unit_id u = at_unit a
     \<and> cites H (ap_spec_history q) (as_spec_revision (at_spec a)) (as_spec_digest (at_spec a)) s
     \<and> fingerprint H s (at_unit a) = fingerprint H (ap_spec q) (at_unit a)
     \<and> resolved_inputs (ap_spec q) u (by_unit sts) (dict_from ts_reference_id (ap_satisfactions q)) = Inr (Some ins)
     \<and> same_subject (as_effective_inputs (at_spec a)) ins
     \<and> (if at_status a = AttemptPrepared then START_ATTEMPT else FINISH_ATTEMPT)
         |\<in>| ae_allowed_actions (ps_authority (ap_spec q))
     \<and> (at_actor_id a = ae_owner_id (ps_authority (ap_spec q))
        \<or> at_actor_id a |\<in>| ae_delegated_actor_ids (ps_authority (ap_spec q)))
     \<and> status_of sts (at_unit a) \<noteq> UnitCancelled)"

lemma withdrawn_eq:
  assumes f: "facts_ok H n q" and a: "a \<in> set (ap_attempts q)"
    and P: "project H (ap_spec q) (ap_attempts q) (ap_satisfactions q) (ap_cancellations q) = Inr sts"
  shows "withdrawn H q (by_unit sts) (dict_from ts_reference_id (ap_satisfactions q)) a = Inr (\<not> retained H q sts a)"
proof -
  let ?sp = "ap_spec q" and ?F = "dict_from ts_reference_id (ap_satisfactions q)"
  note wf = facts_ok_wf_spec[OF f] facts_ok_wf_facts[OF f] and h = facts_okD(1)[OF f]
  obtain s where s: "cites H (ap_spec_history q) (as_spec_revision (at_spec a)) (as_spec_digest (at_spec a)) s"
      "at_unit a \<in> set (unit_ids (ps_work_units s))"
    using facts_okD(4)[OF f a] by (auto simp: attempt_ok_def)
  have only: "\<And>s'. cites H (ap_spec_history q) (as_spec_revision (at_spec a)) (as_spec_digest (at_spec a)) s' \<longleftrightarrow> s' = s"
    using cites_unique[OF h s(1)] s(1) by blast
  have found: "List.find (\<lambda>s. spec_key H s = (as_spec_revision (at_spec a), as_spec_digest (at_spec a))) (ap_spec_history q) = Some s"
    using s(1) find_cites[OF h] by blast
  show ?thesis
  proof (cases "spec_work_unit ?sp (at_unit a)")
    case (Inl e)
    then have "at_unit a \<notin> set (unit_ids (ps_work_units ?sp))" using spec_work_unit_Inl_iff[of ?sp "at_unit a" e] by blast
    then have "\<not> retained H q sts a" unfolding retained_def by (metis imageI list.set_map)
    then show ?thesis using Inl by (simp add: withdrawn_def Let_def)
  next
    case (Inr u)
    then have u: "u \<in> set (ps_work_units ?sp)" "wu_work_unit_id u = at_unit a"
      using spec_work_unit_Inr_iff[OF wf_specD(2)[OF wf(1)]] by blast+
    have uniq: "\<And>v. v \<in> set (ps_work_units ?sp) \<and> wu_work_unit_id v = at_unit a \<longleftrightarrow> v = u"
      using unit_by_id[OF wf_specD(2)[OF wf(1)] _ u(1)] u by metis
    have "deps_ok ?sp (ap_satisfactions q) (by_unit sts) u" by (rule deps_ok_projected[OF wf P u(1)])
    from resolved_inputs_total[OF wf(1) u(1) wf(2) this]
    obtain r where r: "resolved_inputs ?sp u (by_unit sts) ?F = Inr r" by metis
    have "at_unit a \<in> set (unit_ids (ps_work_units ?sp))" using u by (metis imageI list.set_map)
    then have fp: "fingerprint H ?sp (at_unit a) = Inr (unit_fp H ?sp (at_unit a))" by (rule fingerprint_eq[OF wf(1)])
    have fs: "fingerprint H s (at_unit a) = Inr (unit_fp H s (at_unit a))"
      by (rule fingerprint_eq[OF cites_wf[OF h s(1)] s(2)])
    obtain st where st: "by_unit sts (at_unit a) = Some st" using project_local(3)[OF wf P u(1)] u(2) by simp
    have "retained H q sts a \<longleftrightarrow> unit_fp H s (at_unit a) = unit_fp H ?sp (at_unit a)
        \<and> (\<exists>ins. r = Some ins \<and> same_subject (as_effective_inputs (at_spec a)) ins)
        \<and> (if at_status a = AttemptPrepared then START_ATTEMPT else FINISH_ATTEMPT) |\<in>| ae_allowed_actions (ps_authority ?sp)
        \<and> (at_actor_id a = ae_owner_id (ps_authority ?sp) \<or> at_actor_id a |\<in>| ae_delegated_actor_ids (ps_authority ?sp))
        \<and> us_status st \<noteq> UnitCancelled"
      unfolding retained_def conj_assoc[symmetric] uniq only
      by (auto simp: fp fs r st only u)
    then show ?thesis
      unfolding withdrawn_def Let_def Inr found sum.case option.case r fp fs st rbind.simps
      by (cases r) auto
  qed
qed

lemma collect_invalid_eq:
  assumes "\<And>a. a \<in> set atts \<Longrightarrow> withdrawn H q M F a = Inr (\<not> R a)"
  shows "collect_invalid H q M F atts = Inr (map at_id (filter (\<lambda>a. live a \<and> \<not> R a) atts))"
  using assms by (induction atts) auto

lemma invalid_attempts_eq:
  assumes "facts_ok H n q"
    and "project H (ap_spec q) (ap_attempts q) (ap_satisfactions q) (ap_cancellations q) = Inr sts"
  shows "invalid_attempts H q = Inr (map at_id (filter (\<lambda>a. live a \<and> \<not> retained H q sts a) (ap_attempts q)))"
  using collect_invalid_eq[OF withdrawn_eq[OF assms(1) _ assms(2)]] assms(2) by (simp add: invalid_attempts_def)

section \<open>The withdrawal loop\<close>

lemma cancel_in_append: "cancel_in js (cancel_in is a) = cancel_in (is @ js) a"
  by (auto simp: cancel_in_def live_def)

lemma amend_loop_Inr:
  assumes "facts_ok H n q" and "nonblank actor_id" and "1 \<le> order"
  shows "\<exists>q' ids cs sts. amend_loop H order actor_id q = Inr q'
    \<and> q' = q\<lparr>ap_attempts := map (cancel_in ids) (ap_attempts q),
        ap_attempt_cancellations := ap_attempt_cancellations q @ cs\<rparr>
    \<and> (\<forall>c \<in> set cs. ac_actor_id c = actor_id \<and> ac_reason c = withdrawal_reason \<and> ac_record_order c = order)
    \<and> project H (ap_spec q') (ap_attempts q') (ap_satisfactions q') (ap_cancellations q') = Inr sts
    \<and> (\<forall>a \<in> set (ap_attempts q'). live a \<longrightarrow> retained H q' sts a)"
  using assms
proof (induction "length (filter live (ap_attempts q))" arbitrary: q rule: less_induct)
  case less
  note f = less.prems(1)
  obtain sts where P: "project H (ap_spec q) (ap_attempts q) (ap_satisfactions q) (ap_cancellations q) = Inr sts"
    by (rule project_total[OF facts_ok_wf_spec[OF f] facts_ok_wf_facts[OF f]])
  let ?inv = "map at_id (filter (\<lambda>a. live a \<and> \<not> retained H q sts a) (ap_attempts q))"
  note I = invalid_attempts_eq[OF f P]
  show ?case
  proof (cases "?inv = []")
    case True
    then have "\<forall>a \<in> set (ap_attempts q). live a \<longrightarrow> retained H q sts a" by (auto simp: filter_empty_conv)
    moreover have "cancel_in [] = (\<lambda>a. a)" by (rule ext) (simp add: cancel_in_def)
    ultimately have "amend_loop H order actor_id q = Inr q \<and> q = q\<lparr>ap_attempts := map (cancel_in []) (ap_attempts q),
          ap_attempt_cancellations := ap_attempt_cancellations q @ []\<rparr>"
      using True I by (simp add: amend_loop.simps[of H order actor_id q])
    with \<open>\<forall>a \<in> set (ap_attempts q). live a \<longrightarrow> retained H q sts a\<close> P show ?thesis by (metis empty_iff list.set(1))
  next
    case False
    let ?q = "q\<lparr>ap_attempts := map (cancel_in ?inv) (ap_attempts q), ap_attempt_cancellations :=
        ap_attempt_cancellations q @ withdrawals order actor_id withdrawal_reason ?inv (ap_attempts q)\<rparr>"
    have c: "cancel_live order actor_id ?inv withdrawal_reason q = Inr ?q"
      by (rule cancel_live_eq[OF f less.prems(2) reasons_nonblank(4) less.prems(3)])
    have step: "amend_loop H order actor_id q = amend_loop H order actor_id ?q"
      using I c False by (simp add: amend_loop.simps[of H order actor_id q])
    obtain a where "a \<in> set (ap_attempts q)" "live a" "at_id a \<in> set ?inv"
      using False by (auto simp: filter_empty_conv)
    then have "length (filter live (ap_attempts ?q)) < length (filter live (ap_attempts q))"
      by (rule cancel_live_decreases[OF c])
    moreover have "facts_ok H n ?q" by (rule facts_ok_restatus[OF restatus_cancel_in f])
    ultimately obtain q' ids cs sts' where IH: "amend_loop H order actor_id ?q = Inr q'"
        "q' = ?q\<lparr>ap_attempts := map (cancel_in ids) (ap_attempts ?q), ap_attempt_cancellations := ap_attempt_cancellations ?q @ cs\<rparr>"
        "\<forall>c \<in> set cs. ac_actor_id c = actor_id \<and> ac_reason c = withdrawal_reason \<and> ac_record_order c = order"
        "project H (ap_spec q') (ap_attempts q') (ap_satisfactions q') (ap_cancellations q') = Inr sts'"
        "\<forall>a \<in> set (ap_attempts q'). live a \<longrightarrow> retained H q' sts' a"
      using less.hyps[of ?q] less.prems(2,3) by blast
    let ?cs = "withdrawals order actor_id withdrawal_reason ?inv (ap_attempts q) @ cs"
    have "q' = q\<lparr>ap_attempts := map (cancel_in (?inv @ ids)) (ap_attempts q),
        ap_attempt_cancellations := ap_attempt_cancellations q @ ?cs\<rparr>"
      using IH(2) by (simp add: cancel_in_append comp_def)
    moreover have "\<forall>c \<in> set ?cs. ac_actor_id c = actor_id \<and> ac_reason c = withdrawal_reason \<and> ac_record_order c = order"
      using IH(3) by (auto simp: withdrawals_def)
    moreover have "amend_loop H order actor_id q = Inr q'" using step IH(1) by (simp only:)
    ultimately show ?thesis using IH(4,5) by blast
  qed
qed

section \<open>The branch\<close>

definition amended :: "hash \<Rightarrow> program \<Rightarrow> program_spec \<Rightarrow> pending" where
  "amended H p s = (locals p)\<lparr>ap_spec := s, ap_spec_history := pg_spec_history p @ [s]\<rparr>"

lemma facts_ok_amended:
  assumes "program_ok H p" and "wf_spec s" and "ps_revision s = ps_revision (pg_spec p) + 1"
    and "ps_parent_digest s = Some (spec_digest H (pg_spec p))" and "ps_program_id s = pg_id p"
  shows "facts_ok H (pg_revision p + 1) (amended H p s)"
proof -
  have f: "facts_ok H (pg_revision p + 1) (locals p)" using inv_pend_ok[OF assms(1)] by (simp add: pend_ok_def)
  have "history_ok H (pg_spec_history p @ [s]) s" by (rule history_ok_snoc[OF inv_wf(3)[OF assms(1)] assms(2-5)])
  moreover have "attempt_ok H (h @ [s]) i a" if "attempt_ok H h i a" for h i a
    using that unfolding attempt_ok_def by (blast intro: cites_snoc)
  moreover have "satisfaction_ok H (h @ [s]) a i n t" if "satisfaction_ok H h a i n t" for h a i n t
    using that unfolding satisfaction_ok_def by (blast intro: cites_snoc)
  moreover have "cancellation_ok H (h @ [s]) n c" if "cancellation_ok H h n c" for h n c
    using that unfolding cancellation_ok_def by (blast intro: cites_snoc)
  ultimately show ?thesis using f assms(5) by (simp add: amended_def facts_ok_def attempts_ok_def)
qed

lemma apply_amend_cases:
  assumes "program_ok H p" and "wf_amendment am" and "nonblank actor_id" and "order = pg_revision p + 1"
  obtains (error) e where "apply_amend H order actor_id am (locals p) = Inl e"
      "e = IllegalTransition \<and> pg_status p = ProgramCancelled \<or> amend H (pg_spec p) am = Inl e"
  | (noop) "apply_amend H order actor_id am (locals p) = Inr None" "amend H (pg_spec p) am = Inr (pg_spec p)"
  | (revised) s q' ids cs sts where "apply_amend H order actor_id am (locals p) = Inr (Some q')"
      "amend H (pg_spec p) am = Inr s" "pg_status p \<noteq> ProgramCancelled"
      "wf_spec s" "ps_revision s = ps_revision (pg_spec p) + 1"
      "ps_parent_digest s = Some (spec_digest H (pg_spec p))" "ps_program_id s = pg_id p"
      "q' = (amended H p s)\<lparr>ap_attempts := map (cancel_in ids) (pg_attempts p),
          ap_attempt_cancellations := pg_attempt_cancellations p @ cs\<rparr>"
      "\<forall>c \<in> set cs. ac_actor_id c = actor_id \<and> ac_reason c = withdrawal_reason \<and> ac_record_order c = order"
      "project H s (ap_attempts q') (pg_satisfactions p) (pg_cancellations p) = Inr sts"
      "\<forall>a \<in> set (ap_attempts q'). live a \<longrightarrow> retained H q' sts a"
proof (cases "pg_status p = ProgramCancelled")
  case True
  then show ?thesis using error by (simp add: apply_amend_def)
next
  case False
  show ?thesis
  proof (cases "amend H (pg_spec p) am")
    case (Inl e)
    then show ?thesis using error[of e] False by (simp add: apply_amend_def)
  next
    case (Inr s)
    show ?thesis
    proof (cases "s = pg_spec p")
      case True
      then show ?thesis using noop Inr False by (simp add: apply_amend_def)
    next
      case changed: False
      from Inr inv_wf(1)[OF assms(1)] assms(2) have w: "wf_spec s" "ps_revision s = ps_revision (pg_spec p) + 1"
          "ps_parent_digest s = Some (spec_digest H (pg_spec p))" "ps_program_id s = pg_id p"
        by (cases rule: amend_cases; use changed in simp)+
      have "1 \<le> order" using assms(1,4) by (simp add: program_ok_def)
      from amend_loop_Inr[OF facts_ok_amended[OF assms(1) w] assms(3) this]
      obtain q' ids cs sts where L: "amend_loop H order actor_id (amended H p s) = Inr q'"
          "q' = (amended H p s)\<lparr>ap_attempts := map (cancel_in ids) (ap_attempts (amended H p s)),
             ap_attempt_cancellations := ap_attempt_cancellations (amended H p s) @ cs\<rparr>"
          "\<forall>c \<in> set cs. ac_actor_id c = actor_id \<and> ac_reason c = withdrawal_reason \<and> ac_record_order c = order"
          "project H (ap_spec q') (ap_attempts q') (ap_satisfactions q') (ap_cancellations q') = Inr sts"
          "\<forall>a \<in> set (ap_attempts q'). live a \<longrightarrow> retained H q' sts a"
        by blast
      have "apply_amend H order actor_id am (locals p) = Inr (Some q')"
        using False Inr changed L(1) by (simp add: apply_amend_def amended_def)
      then show ?thesis
        by (rule revised[where s = s and ids = ids and cs = cs and sts = sts])
          (use Inr False w L in \<open>simp_all add: amended_def\<close>)
    qed
  qed
qed

lemma apply_amend_ok:
  assumes "program_ok H p" and "wf_amendment am" and "nonblank actor_id" and "order = pg_revision p + 1"
    and "apply_amend H order actor_id am (locals p) = Inr (Some q')"
  shows "pend_ok H order q'"
  using assms(1-4)
proof (cases rule: apply_amend_cases)
  case (revised s r ids cs sts)
  then have q': "r = q'" using assms(5) by simp
  let ?q = "amended H p s"
  have f: "facts_ok H order q'"
    using facts_ok_restatus[OF restatus_cancel_in[of ids] facts_ok_amended[OF assms(1) revised(4-7)]] assms(4) revised(8) q'
    by (simp add: amended_def)
  have "distinct (map at_unit (filter live (map (cancel_in ids) (pg_attempts p))))"
    unfolding filter_live_restatus[OF restatus_cancel_in]
    by (rule distinct_map_filter) (use assms(1) in \<open>simp add: program_ok_def live_ok_def\<close>)
  moreover have "at_unit a \<in> set (unit_ids (ps_work_units s)) \<and> \<not> cancelled_unit H s (pg_cancellations p) (at_unit a)"
    if a: "a \<in> set (ap_attempts q')" "live a" for a
  proof -
    have "retained H q' sts a" using revised(11) a q' by simp
    then obtain u where u: "u \<in> set (ps_work_units s)" "wu_work_unit_id u = at_unit a" "status_of sts (at_unit a) \<noteq> UnitCancelled"
      using revised(8) q' by (auto simp: retained_def amended_def)
    have "wf_facts (ap_attempts q') (pg_satisfactions p)"
      using facts_ok_wf_facts[OF f] revised(8) q' by (simp add: amended_def)
    then show ?thesis
      using project_cancelled_iff[OF revised(4) _ revised(10)[unfolded q'] u(1)] u by (metis imageI list.set_map)
  qed
  ultimately have "live_ok H q'" using revised(8) q' by (auto simp: live_ok_def amended_def)
  moreover have "status_ok q'"
    using assms(1) revised(3,8) q' by (auto simp: program_ok_def status_ok_def amended_def)
  ultimately show ?thesis using f by (simp add: pend_ok_def)
qed (use assms(5) in simp_all)

end
