(* ===== verification/Command_Machine.thy ===== *)
theory Command_Machine
  imports Kernel_Prelude
begin

text \<open>
  The contract shared by the kernel's immutable aggregates: a command either raises and changes nothing
  or returns the next state. A provider promises an invariant; a client that only issues admissible
  commands may rely on it in every state it can reach. A provider with a history promises in addition
  that no command rewrites what was recorded.
\<close>

inductive reaches :: "('s \<Rightarrow> 'c \<Rightarrow> 'e + 's) \<Rightarrow> ('c \<Rightarrow> bool) \<Rightarrow> 's \<Rightarrow> 's \<Rightarrow> bool"
  for step :: "'s \<Rightarrow> 'c \<Rightarrow> 'e + 's" and admissible :: "'c \<Rightarrow> bool" and s :: 's where
  reaches_refl: "reaches step admissible s s"
| reaches_step: "reaches step admissible s s' \<Longrightarrow> admissible c \<Longrightarrow> step s' c = Inr s'' \<Longrightarrow>
    reaches step admissible s s''"

inductive_cases reaches_lastE: "reaches step admissible s s'"

lemma reaches_single: "step s c = Inr s' \<Longrightarrow> admissible c \<Longrightarrow> reaches step admissible s s'"
  by (rule reaches_step[OF reaches_refl])

lemma reaches_trans:
  assumes "reaches step ok s s'" and "reaches step ok s' s''"
  shows "reaches step ok s s''"
  using assms(2,1) by (induction rule: reaches.induct) (auto intro: reaches.intros)

text \<open>Running a list of commands, stopping at the first exception.\<close>

fun run :: "('s \<Rightarrow> 'c \<Rightarrow> 'e + 's) \<Rightarrow> 's \<Rightarrow> 'c list \<Rightarrow> 'e + 's" where
  "run step s [] = Inr s"
| "run step s (c # cs) = rbind (step s c) (\<lambda>s'. run step s' cs)"

lemma run_append: "run step s (xs @ ys) = rbind (run step s xs) (\<lambda>s'. run step s' ys)"
  by (induction xs arbitrary: s) (simp_all add: rbind_assoc)

lemma reaches_run:
  "run step s cs = Inr s' \<Longrightarrow> list_all ok cs \<Longrightarrow> reaches step ok s s'"
proof (induction cs arbitrary: s' rule: rev_induct)
  case Nil
  then show ?case by (simp add: reaches_refl)
next
  case (snoc c cs)
  then obtain t where "run step s cs = Inr t" "step t c = Inr s'" by (auto simp: run_append rbind_eq_Inr)
  then show ?case using snoc by (auto intro: reaches_step)
qed

locale command_machine =
  fixes step :: "'s \<Rightarrow> 'c \<Rightarrow> 'e + 's"
    and admissible :: "'c \<Rightarrow> bool"
    and initial :: "'s \<Rightarrow> bool"
    and I :: "'s \<Rightarrow> bool"
  assumes initial_inv: "initial s \<Longrightarrow> I s"
    and step_inv: "I s \<Longrightarrow> admissible c \<Longrightarrow> step s c = Inr s' \<Longrightarrow> I s'"
begin

lemma reaches_inv:
  assumes "reaches step admissible s s'" and "I s"
  shows "I s'"
  using assms by (induction rule: reaches.induct) (auto intro: step_inv)

lemma reachable_inv: "initial s \<Longrightarrow> reaches step admissible s s' \<Longrightarrow> I s'"
  using reaches_inv initial_inv by blast

end

locale recording_machine = command_machine +
  fixes extends :: "'a \<Rightarrow> 'a \<Rightarrow> bool"
  assumes extends_refl: "extends s s"
    and extends_trans: "extends s s' \<Longrightarrow> extends s' s'' \<Longrightarrow> extends s s''"
    and step_extends: "I s \<Longrightarrow> admissible c \<Longrightarrow> step s c = Inr s' \<Longrightarrow> extends s s'"
begin

lemma reaches_extends:
  assumes "reaches step admissible s s'" and "I s"
  shows "extends s s'"
  using assms
proof (induction rule: reaches.induct)
  case (reaches_step s' c s'')
  then have "I s'" using reaches_inv by blast
  then show ?case using reaches_step extends_trans step_extends by blast
qed (rule extends_refl)

end

end
