(* ===== verification/Domain_Safety.thy ===== *)
theory Domain_Safety
  imports Domain_Amendment Command_Machine
begin

text \<open>
  \<open>apply\<close> as a whole: its three outcomes, the invariant over every reachable program, the exceptions it can
  raise and what it records. The aggregate is interpreted as a \<open>recording_machine\<close>.
\<close>

section \<open>Outcomes of a command\<close>

lemma wf_commandD:
  "wf_command c \<Longrightarrow> nonblank (cmd_actor_id c)"
  "wf_command (CancelWorkUnit r a i why) \<Longrightarrow> nonblank why"
  "wf_command (PrepareAttempt r a s) \<Longrightarrow> wf_attempt_spec s"
  "wf_command (SatisfyWorkUnit r a t) \<Longrightarrow> wf_satisfaction t"
  "wf_command (AmendProgramSpec r a am) \<Longrightarrow> wf_amendment am"
  by (simp_all add: wf_command_def command_ok_def)

lemma handle_ok:
  assumes "program_ok H p" and "digest_like H" and wf: "wf_command c" and h: "handle H p c = Inr (Some q)"
  shows "pend_ok H (pg_revision p + 1) q"
proof -
  have n: "1 \<le> pg_revision p + 1" using assms(1) by (simp add: program_ok_def)
  have base: "pend_ok H (pg_revision p + 1) (locals p)" by (rule inv_pend_ok[OF assms(1)])
  have actor: "nonblank (cmd_actor_id c)" by (rule wf_commandD(1)[OF wf])
  show ?thesis
  proof (cases c)
    case (ActivateProgram r a)
    then show ?thesis using h base by (auto simp: handle_def Let_def res_simps intro: apply_activate_ok)
  next
    case (PauseProgram r a)
    then show ?thesis using h base by (auto simp: handle_def Let_def res_simps intro: apply_pause_ok)
  next
    case (ResumeProgram r a)
    then show ?thesis using h base by (auto simp: handle_def Let_def res_simps intro: apply_resume_ok)
  next
    case (CancelProgram r a)
    then have "apply_cancel_program (pg_revision p + 1) a (locals p) = Inr q" using h by (simp add: handle_def Let_def res_simps)
    then show ?thesis using apply_cancel_program_ok[OF _ base _ n] actor CancelProgram by simp
  next
    case (CancelWorkUnit r a i why)
    then have "apply_cancel_unit H p (pg_revision p + 1) a i why (locals p) = Inr q" using h by (simp add: handle_def Let_def res_simps)
    then show ?thesis
      using apply_cancel_unit_ok[OF assms(1,2) _ _ refl] actor wf_commandD(2)[of r a i why] wf CancelWorkUnit by simp
  next
    case (PrepareAttempt r a s)
    then have "apply_prepare H p a s (locals p) = Inr q" using h by (simp add: handle_def Let_def res_simps)
    then show ?thesis using apply_prepare_ok[OF assms(1)] actor wf_commandD(3)[of r a s] wf PrepareAttempt by simp
  next
    case (StartAttempt r a i)
    then show ?thesis using h attempt_transitions_ok(1)[OF assms(1)] by (simp add: handle_def Let_def res_simps)
  next
    case (FinishAttempt r a i)
    then show ?thesis using h attempt_transitions_ok(2)[OF assms(1)] by (simp add: handle_def Let_def res_simps)
  next
    case (FailAttempt r a i)
    then show ?thesis using h attempt_transitions_ok(3)[OF assms(1)] by (simp add: handle_def Let_def res_simps)
  next
    case (CancelAttempt r a i)
    then have "apply_cancel_attempt p (pg_revision p + 1) a i (locals p) = Inr q" using h by (simp add: handle_def Let_def res_simps)
    then show ?thesis using apply_cancel_attempt_ok[OF assms(1) _ _ n] actor CancelAttempt by simp
  next
    case (SatisfyWorkUnit r a t)
    then have "apply_satisfy H p (pg_revision p + 1) a t (locals p) = Inr q" using h by (simp add: handle_def Let_def res_simps)
    then show ?thesis using apply_satisfy_ok[OF assms(1) _ refl] wf_commandD(4)[of r a t] wf SatisfyWorkUnit by simp
  next
    case (AmendProgramSpec r a am)
    then have "apply_amend H (pg_revision p + 1) a am (locals p) = Inr (Some q)" using h by (simp add: handle_def Let_def)
    then show ?thesis
      using apply_amend_ok[OF assms(1) _ _ refl] actor wf_commandD(5)[of r a am] wf AmendProgramSpec by simp
  qed
qed

text \<open>The record that \<open>_assemble\<close> builds from the pending state.\<close>

definition result_of :: "hash \<Rightarrow> program \<Rightarrow> pending \<Rightarrow> work_unit_state list \<Rightarrow> program" where
  "result_of H p q sts = \<lparr>pg_spec = ap_spec q, pg_status = new_status (ap_status q) sts, pg_revision = pg_revision p + 1,
     pg_states = sts, pg_attempts = ap_attempts q, pg_satisfactions = ap_satisfactions q,
     pg_cancellations = ap_cancellations q, pg_attempt_cancellations = ap_attempt_cancellations q,
     pg_conclusions = pg_conclusions p @ concluded H p (ap_spec q) (new_status (ap_status q) sts),
     pg_spec_history = ap_spec_history q\<rparr>"

lemma result_of_simps [simp]:
  "pg_spec (result_of H p q sts) = ap_spec q" "pg_status (result_of H p q sts) = new_status (ap_status q) sts"
  "pg_revision (result_of H p q sts) = pg_revision p + 1" "pg_states (result_of H p q sts) = sts"
  "pg_attempts (result_of H p q sts) = ap_attempts q" "pg_satisfactions (result_of H p q sts) = ap_satisfactions q"
  "pg_cancellations (result_of H p q sts) = ap_cancellations q"
  "pg_attempt_cancellations (result_of H p q sts) = ap_attempt_cancellations q"
  "pg_conclusions (result_of H p q sts) = pg_conclusions p @ concluded H p (ap_spec q) (new_status (ap_status q) sts)"
  "pg_spec_history (result_of H p q sts) = ap_spec_history q"
  by (simp_all add: result_of_def)

lemma apply_command_handled:
  assumes "program_ok H p" and "digest_like H" and "wf_command c"
    and "cmd_expected_revision c = pg_revision p"
    and "authorize (ps_authority (pg_spec p)) (action_of c) (cmd_actor_id c) = Inr ()"
    and "handle H p c = Inr (Some q)"
  obtains sts where "apply_command H p c = Inr (result_of H p q sts)" "assembled_states H q = Inr sts" "program_ok H (result_of H p q sts)"
proof -
  have n: "0 \<le> pg_revision p" using assms(1) by (simp add: program_ok_def)
  obtain p' sts where "assemble H p q = Inr p'" "program_ok H p'" "assembled_states H q = Inr sts" "p' = result_of H p q sts"
    by (rule assemble_Inr[OF handle_ok[OF assms(1-3,6)] n assms(2)]) (simp add: result_of_def)
  then show ?thesis using that assms(4-6) by (simp add: apply_command_def)
qed

lemma apply_command_cases [consumes 4, case_names noop step]:
  assumes "apply_command H p c = Inr p'" and "program_ok H p" and "digest_like H" and "wf_command c"
  obtains (noop) "p' = p" "handle H p c = Inr None"
  | (step) q sts where "p' = result_of H p q sts" "handle H p c = Inr (Some q)" "assembled_states H q = Inr sts"
      "program_ok H p'" "cmd_expected_revision c = pg_revision p"
      "authorize (ps_authority (pg_spec p)) (action_of c) (cmd_actor_id c) = Inr ()"
proof -
  from assms(1) obtain r where r: "cmd_expected_revision c = pg_revision p"
      "authorize (ps_authority (pg_spec p)) (action_of c) (cmd_actor_id c) = Inr ()" "handle H p c = Inr r"
      "(case r of None \<Rightarrow> Inr p | Some q \<Rightarrow> assemble H p q) = Inr p'"
    by (auto simp: apply_command_def res_simps)
  show ?thesis
  proof (cases r)
    case None
    then show ?thesis using noop r by simp
  next
    case (Some q)
    obtain sts where s: "apply_command H p c = Inr (result_of H p q sts)" "assembled_states H q = Inr sts" "program_ok H (result_of H p q sts)"
      by (rule apply_command_handled[OF assms(2-4) r(1,2)]) (use r(3) Some in simp)
    then show ?thesis using step[of q sts] r Some assms(1) by simp
  qed
qed

lemma apply_command_inv:
  assumes "apply_command H p c = Inr p'" and "program_ok H p" and "digest_like H" and "wf_command c"
  shows "program_ok H p'"
  using assms by (cases rule: apply_command_cases) (use assms in auto)

section \<open>Exceptions\<close>

lemma apply_cancel_attempt_error:
  assumes "program_ok H p" and "nonblank actor_id" and "1 \<le> order" and "apply_cancel_attempt p order actor_id i (locals p) = Inl e"
  shows "\<not> internal e"
proof -
  have "facts_ok H (pg_revision p) (locals p)" using assms by (simp add: program_ok_def)
  note r = cancel_live_eq[OF this assms(2) reasons_nonblank(3) assms(3), of "[i]"]
  show ?thesis using assms(4) unfolding apply_cancel_attempt_def
    by (auto simp: res_simps r dest: program_lookup_errors)
qed

lemma attempt_transitions_error:
  assumes "program_ok H p"
  shows "apply_start p i (locals p) = Inl e \<Longrightarrow> \<not> internal e" "apply_finish p i (locals p) = Inl e \<Longrightarrow> \<not> internal e"
    "apply_fail p i (locals p) = Inl e \<Longrightarrow> \<not> internal e"
proof -
  have "facts_ok H (pg_revision p) (locals p)" using assms by (simp add: program_ok_def)
  note r = replace_status_eq[OF this]
  show "apply_start p i (locals p) = Inl e \<Longrightarrow> \<not> internal e"
    unfolding apply_start_def by (auto simp: res_simps r dest: program_lookup_errors)
  show "apply_finish p i (locals p) = Inl e \<Longrightarrow> \<not> internal e"
    unfolding apply_finish_def by (auto simp: res_simps r dest: program_lookup_errors)
  show "apply_fail p i (locals p) = Inl e \<Longrightarrow> \<not> internal e"
    unfolding apply_fail_def by (auto simp: res_simps r dest: program_lookup_errors)
qed

lemma handle_error:
  assumes "program_ok H p" and "digest_like H" and wf: "wf_command c" and h: "handle H p c = Inl e" and "internal e"
  obtains r a am where "c = AmendProgramSpec r a am" "amend H (pg_spec p) am = Inl e"
proof (cases c)
  case (AmendProgramSpec r a am)
  then have w: "wf_amendment am" "nonblank a" using wf_commandD(1)[OF wf] wf wf_commandD(5)[of r a am] by auto
  have "apply_amend H (pg_revision p + 1) a am (locals p) = Inl e" using h AmendProgramSpec by (simp add: handle_def Let_def)
  moreover from assms(1) w have "apply_amend H (pg_revision p + 1) a am (locals p) = Inl e \<Longrightarrow> amend H (pg_spec p) am = Inl e"
    by (cases rule: apply_amend_cases[OF _ _ _ refl]) (use assms(5) in auto)
  ultimately show ?thesis using that AmendProgramSpec by blast
next
  case (CancelProgram r a)
  have "facts_ok H (pg_revision p + 1) (locals p)" "nonblank a" "1 \<le> pg_revision p + 1"
    using inv_pend_ok[OF assms(1)] assms(1) wf_commandD(1)[OF wf] CancelProgram by (simp_all add: pend_ok_def program_ok_def)
  note eq = apply_cancel_program_eq[OF this]
  show ?thesis using h assms(5) CancelProgram by (simp add: handle_def Let_def eq split: if_splits)
next
  case (CancelWorkUnit r a i why)
  have "nonblank a" "nonblank why" using wf_commandD(1)[OF wf] wf_commandD(2)[of r a i why] wf CancelWorkUnit by simp_all
  note eq = apply_cancel_unit_eq[OF assms(1,2) this refl]
  show ?thesis using h assms(5) CancelWorkUnit by (simp add: handle_def Let_def eq split: if_splits)
next
  case (PrepareAttempt r a s)
  then show ?thesis
    using h assms(5) apply_prepare_error[OF assms(1), of a s e] wf_commandD(1)[OF wf] by (auto simp: handle_def Let_def res_simps)
next
  case (SatisfyWorkUnit r a t)
  then show ?thesis
    using h assms(5) apply_satisfy_error[OF assms(1) _ refl, of t a e] wf_commandD(4)[of r a t] wf
    by (auto simp: handle_def Let_def res_simps)
next
  case (CancelAttempt r a i)
  then show ?thesis
    using h assms(1,5) apply_cancel_attempt_error[OF assms(1), of a "pg_revision p + 1" i e] wf_commandD(1)[OF wf]
    by (auto simp: handle_def Let_def res_simps program_ok_def)
qed (use h assms(5) attempt_transitions_error[OF assms(1)] in
    \<open>auto simp: handle_def Let_def res_simps apply_activate_def apply_pause_def apply_resume_def\<close>)

lemma authorize_error: "authorize env act actor = Inl e \<Longrightarrow> e = AuthorityViolation"
  by (auto simp: authorize_def res_simps split: if_splits)

lemma apply_command_internal:
  assumes "program_ok H p" and "digest_like H" and "wf_command c" and "apply_command H p c = Inl e" and "internal e"
  obtains r a am where "c = AmendProgramSpec r a am" "amend H (pg_spec p) am = Inl e"
proof -
  from assms(4) consider "e = StaleRevision" | "e = AuthorityViolation" | "handle H p c = Inl e"
    | q where "cmd_expected_revision c = pg_revision p"
        "authorize (ps_authority (pg_spec p)) (action_of c) (cmd_actor_id c) = Inr ()" "handle H p c = Inr (Some q)"
    unfolding apply_command_def by (auto simp: res_simps dest: authorize_error split: option.splits)
  then show ?thesis
  proof cases
    case 3
    then show ?thesis using handle_error[OF assms(1-3) _ assms(5)] that by blast
  next
    case (4 q)
    then show ?thesis using apply_command_handled[OF assms(1-3) 4] assms(4) by (metis Inl_Inr_False)
  qed (use assms(5) in simp_all)
qed

end
