(* ===== verification/Domain_History.thy ===== *)
theory Domain_History
  imports Domain_Safety
begin

text \<open>
  What a command may do to the recorded facts: attempts keep their specification and move forward through
  their lifecycle, every other record is only appended, and each cancelled attempt has exactly one
  \<open>AttemptCancellation\<close>. The aggregate is a \<open>recording_machine\<close>.
\<close>

section \<open>Attempt lifecycle\<close>

fun status_step :: "attempt_status \<Rightarrow> attempt_status \<Rightarrow> bool" where
  "status_step AttemptPrepared s \<longleftrightarrow> s \<in> {AttemptPrepared, AttemptExecuting, AttemptFailed, AttemptCancelled}"
| "status_step AttemptExecuting s \<longleftrightarrow> s \<in> {AttemptExecuting, AttemptFinished, AttemptFailed, AttemptCancelled}"
| "status_step r s \<longleftrightarrow> s = r"

text \<open>Several steps: everything is reachable from \<open>PREPARED\<close>.\<close>

definition status_le :: "attempt_status \<Rightarrow> attempt_status \<Rightarrow> bool" where
  "status_le r s \<longleftrightarrow> r = AttemptPrepared \<or> status_step r s"

lemma status_step_refl [simp]: "status_step r r"
  by (cases r) simp_all

lemma status_le_refl [simp]: "status_le r r"
  by (simp add: status_le_def)

lemma status_le_trans: "status_le r s \<Longrightarrow> status_le s t \<Longrightarrow> status_le r t"
  by (cases r; cases s; cases t) (auto simp: status_le_def)

lemma status_step_le: "status_step r s \<Longrightarrow> status_le r s"
  by (simp add: status_le_def)

definition evolves :: "(attempt_status \<Rightarrow> attempt_status \<Rightarrow> bool) \<Rightarrow> attempt \<Rightarrow> attempt \<Rightarrow> bool" where
  "evolves R a b \<longleftrightarrow> at_spec b = at_spec a \<and> at_actor_id b = at_actor_id a \<and> R (at_status a) (at_status b)"

lemma evolves_refl: "(\<And>s. R s s) \<Longrightarrow> evolves R a a"
  by (simp add: evolves_def)

lemma evolves_cancel_in: "evolves status_step a (cancel_in ids a)"
  by (auto simp: evolves_def cancel_in_def live_def)

section \<open>Histories only grow\<close>

definition pend_extends :: "program \<Rightarrow> pending \<Rightarrow> bool" where
  "pend_extends p q \<longleftrightarrow> (\<exists>xs ys. ap_attempts q = xs @ ys \<and> list_all2 (evolves status_step) (pg_attempts p) xs)
     \<and> prefix (pg_satisfactions p) (ap_satisfactions q) \<and> prefix (pg_cancellations p) (ap_cancellations q)
     \<and> prefix (pg_attempt_cancellations p) (ap_attempt_cancellations q)
     \<and> prefix (pg_spec_history p) (ap_spec_history q) \<and> ps_program_id (ap_spec q) = pg_id p"

lemma list_all2_evolves_map:
  "(\<And>a. a \<in> set atts \<Longrightarrow> evolves R a (g a)) \<Longrightarrow> list_all2 (evolves R) atts (map g atts)"
  by (induction atts) auto

lemma pend_extends_map:
  assumes "\<And>a. a \<in> set (pg_attempts p) \<Longrightarrow> evolves status_step a (g a)"
    and "ap_attempts q = map g (pg_attempts p) @ ys" and "prefix (pg_satisfactions p) (ap_satisfactions q)"
    and "prefix (pg_cancellations p) (ap_cancellations q)"
    and "prefix (pg_attempt_cancellations p) (ap_attempt_cancellations q)"
    and "prefix (pg_spec_history p) (ap_spec_history q)" and "ps_program_id (ap_spec q) = pg_id p"
  shows "pend_extends p q"
  using assms list_all2_evolves_map[of "pg_attempts p" status_step g] by (auto simp: pend_extends_def)

lemma pend_extends_same:
  assumes "ap_attempts q = pg_attempts p @ ys" and "prefix (pg_satisfactions p) (ap_satisfactions q)"
    and "prefix (pg_cancellations p) (ap_cancellations q)"
    and "prefix (pg_attempt_cancellations p) (ap_attempt_cancellations q)"
    and "prefix (pg_spec_history p) (ap_spec_history q)" and "ps_program_id (ap_spec q) = pg_id p"
  shows "pend_extends p q"
  using assms by (intro pend_extends_map[where g = "\<lambda>a. a"]) (auto simp: evolves_def)

lemma set_status_evolves:
  assumes "distinct (map at_id (pg_attempts p))" and "a \<in> set (pg_attempts p)" and "at_id a = i"
    and "status_step (at_status a) st" and "b \<in> set (pg_attempts p)"
  shows "evolves status_step b (set_status i st b)"
proof (cases "at_id b = i")
  case True
  then have "b = a" using assms(1-3,5) by (metis distinct_map inj_onD)
  then show ?thesis using assms(4) by (simp add: evolves_def set_status_def)
qed (simp add: evolves_def set_status_def)

lemma transitions_extend:
  assumes "program_ok H p"
  shows "apply_start p i (locals p) = Inr q \<Longrightarrow> pend_extends p q" "apply_finish p i (locals p) = Inr q \<Longrightarrow> pend_extends p q"
    "apply_fail p i (locals p) = Inr q \<Longrightarrow> pend_extends p q"
proof -
  note d = inv_wf(4)[OF assms]
  have main: "pend_extends p ((locals p)\<lparr>ap_attempts := map (set_status i st) (pg_attempts p)\<rparr>)"
    if "a \<in> set (pg_attempts p)" "at_id a = i" "status_step (at_status a) st" for a st
    by (rule pend_extends_map[OF set_status_evolves[OF d that]]) simp_all
  show "apply_start p i (locals p) = Inr q \<Longrightarrow> pend_extends p q"
    unfolding apply_start_iff[OF assms] using main by auto
  show "apply_finish p i (locals p) = Inr q \<Longrightarrow> pend_extends p q"
    unfolding apply_finish_iff[OF assms] using main[of _ AttemptFinished] by auto
  show "apply_fail p i (locals p) = Inr q \<Longrightarrow> pend_extends p q"
    unfolding apply_fail_iff[OF assms] using main[of _ AttemptFailed] by (auto simp: live_def)
qed

lemma handle_extends:
  assumes "program_ok H p" and "digest_like H" and wf: "wf_command c" and h: "handle H p c = Inr (Some q)"
  shows "pend_extends p q"
proof -
  have n: "1 \<le> pg_revision p + 1" using assms(1) by (simp add: program_ok_def)
  have actor: "nonblank (cmd_actor_id c)" by (rule wf_commandD(1)[OF wf])
  show ?thesis
  proof (cases c)
    case (CancelProgram r a)
    then have "apply_cancel_program (pg_revision p + 1) a (locals p) = Inr q" using h by (simp add: handle_def Let_def res_simps)
    moreover have "facts_ok H (pg_revision p + 1) (locals p)" using inv_pend_ok[OF assms(1)] by (simp add: pend_ok_def)
    ultimately show ?thesis
      using apply_cancel_program_eq[OF _ _ n] actor CancelProgram
      by (auto intro!: pend_extends_map[OF evolves_cancel_in] split: if_splits)
  next
    case (CancelWorkUnit r a i why)
    then have "apply_cancel_unit H p (pg_revision p + 1) a i why (locals p) = Inr q" using h by (simp add: handle_def Let_def res_simps)
    moreover have "nonblank a" "nonblank why" using actor wf_commandD(2)[of r a i why] wf CancelWorkUnit by simp_all
    ultimately show ?thesis
      using apply_cancel_unit_eq[OF assms(1,2) _ _ refl, of a why i]
      by (auto intro!: pend_extends_map[OF evolves_cancel_in] split: if_splits)
  next
    case (PrepareAttempt r a s)
    then have "apply_prepare H p a s (locals p) = Inr q" using h by (simp add: handle_def Let_def res_simps)
    moreover have "nonblank a" using actor PrepareAttempt by simp
    ultimately obtain u where "q = (locals p)\<lparr>ap_attempts := pg_attempts p @ [prepared a s]\<rparr>"
      using apply_prepare_Inr[OF assms(1)] by metis
    then show ?thesis by (intro pend_extends_same) simp_all
  next
    case (CancelAttempt r a i)
    then have "apply_cancel_attempt p (pg_revision p + 1) a i (locals p) = Inr q" using h by (simp add: handle_def Let_def res_simps)
    then show ?thesis
      using apply_cancel_attempt_iff[OF assms(1) _ n] actor CancelAttempt by (auto intro!: pend_extends_map[OF evolves_cancel_in])
  next
    case (SatisfyWorkUnit r a t)
    then have "apply_satisfy H p (pg_revision p + 1) a t (locals p) = Inr q" using h by (simp add: handle_def Let_def res_simps)
    then obtain s u b where "q = (locals p)\<lparr>ap_satisfactions := pg_satisfactions p @ [t\<lparr>ts_record_order := pg_revision p + 1\<rparr>]\<rparr>"
      using apply_satisfy_Inr[OF assms(1) _ refl] wf_commandD(4)[of r a t] wf SatisfyWorkUnit by metis
    then show ?thesis by (intro pend_extends_same) simp_all
  next
    case (AmendProgramSpec r a am)
    then have h': "apply_amend H (pg_revision p + 1) a am (locals p) = Inr (Some q)" using h by (simp add: handle_def Let_def)
    have "wf_amendment am" "nonblank a" using actor wf_commandD(5)[of r a am] wf AmendProgramSpec by simp_all
    from assms(1) this refl[of "pg_revision p + 1"] show ?thesis
    proof (cases rule: apply_amend_cases)
      case (revised s q' ids cs sts)
      then have "q = (amended H p s)\<lparr>ap_attempts := map (cancel_in ids) (pg_attempts p),
          ap_attempt_cancellations := pg_attempt_cancellations p @ cs\<rparr>" using h' by simp
      then show ?thesis
        using revised(7) by (intro pend_extends_map[OF evolves_cancel_in[of _ ids], where ys = "[]"]) (simp_all add: amended_def)
    qed (use h' in simp_all)
  next
    case (ActivateProgram r a)
    then show ?thesis using h by (auto simp: handle_def Let_def res_simps apply_activate_def intro!: pend_extends_same)
  next
    case (PauseProgram r a)
    then show ?thesis using h by (auto simp: handle_def Let_def res_simps apply_pause_def intro!: pend_extends_same)
  next
    case (ResumeProgram r a)
    then show ?thesis using h by (auto simp: handle_def Let_def res_simps apply_resume_def intro!: pend_extends_same)
  qed (use h transitions_extend[OF assms(1)] in \<open>auto simp: handle_def Let_def res_simps\<close>)
qed

definition extends :: "program \<Rightarrow> program \<Rightarrow> bool" where
  "extends p p' \<longleftrightarrow> (\<exists>xs ys. pg_attempts p' = xs @ ys \<and> list_all2 (evolves status_le) (pg_attempts p) xs)
     \<and> prefix (pg_satisfactions p) (pg_satisfactions p') \<and> prefix (pg_cancellations p) (pg_cancellations p')
     \<and> prefix (pg_attempt_cancellations p) (pg_attempt_cancellations p')
     \<and> prefix (pg_conclusions p) (pg_conclusions p')
     \<and> prefix (pg_spec_history p) (pg_spec_history p')
     \<and> pg_id p' = pg_id p \<and> pg_revision p \<le> pg_revision p'"

lemma extends_refl: "extends p p"
  unfolding extends_def using list_all2_evolves_map[of "pg_attempts p" status_le "\<lambda>a. a"]
  by (auto simp: evolves_def)

lemma extendsD:
  assumes "extends p p'"
  shows "prefix (pg_satisfactions p) (pg_satisfactions p')" "prefix (pg_cancellations p) (pg_cancellations p')"
    "prefix (pg_attempt_cancellations p) (pg_attempt_cancellations p')" "prefix (pg_conclusions p) (pg_conclusions p')"
    "prefix (pg_spec_history p) (pg_spec_history p')"
  using assms by (simp_all add: extends_def)

lemma evolves_le_trans: "evolves status_le a b \<Longrightarrow> evolves status_le b c \<Longrightarrow> evolves status_le a c"
  by (auto simp: evolves_def intro: status_le_trans)

lemma extends_trans:
  assumes "extends p p'" and "extends p' p''"
  shows "extends p p''"
proof -
  from assms obtain xs ys xs' ys' where 1: "pg_attempts p' = xs @ ys" "list_all2 (evolves status_le) (pg_attempts p) xs"
      and 2: "pg_attempts p'' = xs' @ ys'" "list_all2 (evolves status_le) (pg_attempts p') xs'"
    by (auto simp: extends_def)
  from 2(2) 1(1) obtain us vs where us: "xs' = us @ vs" "list_all2 (evolves status_le) xs us"
    by (auto simp: list_all2_append1)
  have "list_all2 (evolves status_le) (pg_attempts p) us"
    by (rule list_all2_trans[OF _ 1(2) us(2)]) (rule evolves_le_trans)
  with us(1) have "\<exists>xs ys. pg_attempts p'' = xs @ ys \<and> list_all2 (evolves status_le) (pg_attempts p) xs"
    using 2(1) by auto
  moreover have "prefix (pg_satisfactions p) (pg_satisfactions p'')" "prefix (pg_cancellations p) (pg_cancellations p'')"
      "prefix (pg_attempt_cancellations p) (pg_attempt_cancellations p'')" "prefix (pg_conclusions p) (pg_conclusions p'')"
      "prefix (pg_spec_history p) (pg_spec_history p'')"
    using extendsD[OF assms(1)] extendsD[OF assms(2)] by (blast intro: prefix_order.trans)+
  moreover have "pg_id p'' = pg_id p" "pg_revision p \<le> pg_revision p''"
    using assms unfolding extends_def by simp_all
  ultimately show ?thesis unfolding extends_def by blast
qed

lemma evolves_mono: "list_all2 (evolves status_step) xs ys \<Longrightarrow> list_all2 (evolves status_le) xs ys"
  by (erule list_all2_mono) (auto simp: evolves_def intro: status_step_le)

lemma apply_command_extends:
  assumes "apply_command H p c = Inr p'" and "program_ok H p" and "digest_like H" and "wf_command c"
  shows "extends p p'"
  using assms
proof (cases rule: apply_command_cases)
  case noop
  then show ?thesis by (simp add: extends_refl)
next
  case (step q sts)
  have "pend_extends p q" by (rule handle_extends[OF assms(2-4) step(2)])
  then show ?thesis using step(1) evolves_mono by (auto simp: extends_def pend_extends_def)
qed

section \<open>Records of withdrawn attempts\<close>

definition recorded :: "attempt list \<Rightarrow> attempt_cancellation list \<Rightarrow> bool" where
  "recorded atts cs \<longleftrightarrow> distinct (map ac_attempt_id cs)
     \<and> ac_attempt_id ` set cs = at_id ` {a \<in> set atts. at_status a = AttemptCancelled}"

lemma recorded_cancel_in:
  assumes "distinct (map at_id atts)" and "recorded atts cs"
  shows "recorded (map (cancel_in ids) atts) (cs @ withdrawals order actor_id reason ids atts)"
proof -
  let ?c = "cancelled_ids ids atts"
  have ids: "map ac_attempt_id (withdrawals order actor_id reason ids atts) = sorted_list_of_fset ?c"
    by (simp add: withdrawals_def comp_def)
  have c: "fset ?c = at_id ` {a \<in> set atts. at_id a \<in> set ids \<and> live a}"
    by (auto simp: cancelled_ids_def fset_of_list.rep_eq)
  have uniq: "a = b" if "a \<in> set atts" "b \<in> set atts" "at_id a = at_id b" for a b
    using assms(1) that by (meson distinct_map inj_onD)
  have "set (sorted_list_of_fset ?c) \<inter> ac_attempt_id ` set cs = {}"
  proof -
    have False if "a \<in> set atts" "b \<in> set atts" "at_id a = at_id b" "live a" "at_status b = AttemptCancelled" for a b
      using uniq[OF that(1-3)] that(4,5) by (simp add: live_def)
    then show ?thesis using assms(2) by (auto simp: recorded_def c)
  qed
  moreover have "at_id ` {a \<in> set (map (cancel_in ids) atts). at_status a = AttemptCancelled}
      = at_id ` {a \<in> set atts. at_status a = AttemptCancelled} \<union> fset ?c"
  proof -
    have st: "at_status (cancel_in ids a) = AttemptCancelled \<longleftrightarrow> at_status a = AttemptCancelled \<or> at_id a \<in> set ids \<and> live a"
        "at_id (cancel_in ids a) = at_id a" for a
      by (auto simp: cancel_in_def)
    have "at_id ` {a \<in> set (map (cancel_in ids) atts). at_status a = AttemptCancelled}
        = (\<lambda>a. at_id (cancel_in ids a)) ` {a \<in> set atts. at_status (cancel_in ids a) = AttemptCancelled}" by auto
    then show ?thesis unfolding st c by blast
  qed
  moreover have "ac_attempt_id ` set (withdrawals order actor_id reason ids atts) = fset ?c"
    using arg_cong[OF ids, of set] by simp
  moreover have "distinct (map ac_attempt_id (cs @ withdrawals order actor_id reason ids atts))"
    using assms(2) calculation(1) unfolding map_append ids distinct_append
    by (auto simp: recorded_def sorted_list_of_fset.rep_eq)
  ultimately show ?thesis
    using assms(2) unfolding recorded_def set_append image_Un by simp
qed

lemma recorded_cong:
  assumes "at_id ` {a \<in> set atts'. at_status a = AttemptCancelled} = at_id ` {a \<in> set atts. at_status a = AttemptCancelled}"
  shows "recorded atts cs \<Longrightarrow> recorded atts' cs"
  using assms by (simp add: recorded_def)

lemma cancel_live_recorded:
  assumes "cancel_live order actor_id ids reason q = Inr q'" and "distinct (map at_id (ap_attempts q))"
    and "facts_ok H n q" and "nonblank actor_id" and "nonblank reason" and "1 \<le> order"
    and "recorded (ap_attempts q) (ap_attempt_cancellations q)"
  shows "recorded (ap_attempts q') (ap_attempt_cancellations q')"
  using assms(1) recorded_cancel_in[OF assms(2,7)] unfolding cancel_live_eq[OF assms(3-6)] by auto

lemma amend_loop_recorded:
  assumes "amend_loop H order actor_id q = Inr q'" and "facts_ok H n q" and "nonblank actor_id" and "1 \<le> order"
    and "recorded (ap_attempts q) (ap_attempt_cancellations q)"
  shows "recorded (ap_attempts q') (ap_attempt_cancellations q')"
  using assms
proof (induction H order actor_id q rule: amend_loop.induct)
  case (1 H order actor_id q)
  from 1(2) obtain invalid where i: "invalid_attempts H q = Inr invalid"
      "(if invalid = [] then Inr q
        else rbind (cancel_live order actor_id invalid withdrawal_reason q) (amend_loop H order actor_id)) = Inr q'"
    by (auto simp: amend_loop.simps[of H order actor_id q] rbind_eq_Inr)
  show ?case
  proof (cases "invalid = []")
    case False
    then obtain r where r: "cancel_live order actor_id invalid withdrawal_reason q = Inr r" "amend_loop H order actor_id r = Inr q'"
      using i(2) by (auto simp: rbind_eq_Inr)
    have "facts_ok H n r" using cancel_live_pend_ok[OF 1(3,4) reasons_nonblank(4) 1(5), of invalid] r(1) by auto
    moreover have "recorded (ap_attempts r) (ap_attempt_cancellations r)"
      by (rule cancel_live_recorded[OF r(1) facts_okD(2)[OF 1(3)] 1(3,4) reasons_nonblank(4) 1(5,6)])
    ultimately show ?thesis using 1(1)[OF i(1) False r(1)] r(2) 1(4,5) by blast
  qed (use i(2) 1(6) in simp)
qed

lemma recorded_set_status:
  assumes "distinct (map at_id atts)" and "a \<in> set atts" and "at_id a = i" and "live a" and "st \<noteq> AttemptCancelled"
    and "recorded atts cs"
  shows "recorded (map (set_status i st) atts) cs"
proof (rule recorded_cong[OF _ assms(6)])
  have "b = a" if "b \<in> set atts" "at_id b = i" for b using assms(1-3) that by (metis distinct_map inj_onD)
  then have "at_status (set_status i st b) = AttemptCancelled \<longleftrightarrow> at_status b = AttemptCancelled" "at_id (set_status i st b) = at_id b"
    if "b \<in> set atts" for b using that assms(4,5) by (auto simp: set_status_def live_def)
  then show "at_id ` {b \<in> set (map (set_status i st) atts). at_status b = AttemptCancelled}
      = at_id ` {b \<in> set atts. at_status b = AttemptCancelled}" by (force simp: image_iff)
qed

lemma handle_recorded:
  assumes "program_ok H p" and "digest_like H" and wf: "wf_command c" and h: "handle H p c = Inr (Some q)"
    and r: "recorded (pg_attempts p) (pg_attempt_cancellations p)"
  shows "recorded (ap_attempts q) (ap_attempt_cancellations q)"
proof -
  have n: "1 \<le> pg_revision p + 1" using assms(1) by (simp add: program_ok_def)
  have actor: "nonblank (cmd_actor_id c)" by (rule wf_commandD(1)[OF wf])
  have f: "facts_ok H (pg_revision p + 1) (locals p)" using inv_pend_ok[OF assms(1)] by (simp add: pend_ok_def)
  note d = inv_wf(4)[OF assms(1)]
  note rc = recorded_cancel_in[OF d r] and rs = recorded_set_status[OF d _ refl _ _ r]
  show ?thesis
  proof (cases c)
    case (CancelProgram v a)
    then have "apply_cancel_program (pg_revision p + 1) a (locals p) = Inr q" using h by (simp add: handle_def Let_def res_simps)
    then show ?thesis using apply_cancel_program_eq[OF f _ n, of a] actor CancelProgram rc by (auto split: if_splits)
  next
    case (CancelWorkUnit v a i why)
    then have "apply_cancel_unit H p (pg_revision p + 1) a i why (locals p) = Inr q" using h by (simp add: handle_def Let_def res_simps)
    moreover have "nonblank a" "nonblank why" using actor wf_commandD(2)[of v a i why] wf CancelWorkUnit by simp_all
    ultimately show ?thesis using apply_cancel_unit_eq[OF assms(1,2) _ _ refl, of a why i] rc by (auto split: if_splits)
  next
    case (PrepareAttempt v a s)
    then have "apply_prepare H p a s (locals p) = Inr q" using h by (simp add: handle_def Let_def res_simps)
    moreover have "nonblank a" using actor PrepareAttempt by simp
    ultimately obtain u where "q = (locals p)\<lparr>ap_attempts := pg_attempts p @ [prepared a s]\<rparr>"
      using apply_prepare_Inr[OF assms(1)] by metis
    moreover have "{b \<in> set (pg_attempts p @ [prepared a s]). at_status b = AttemptCancelled}
        = {b \<in> set (pg_attempts p). at_status b = AttemptCancelled}" by (auto simp: prepared_def)
    ultimately show ?thesis using r by (simp add: recorded_def)
  next
    case (CancelAttempt v a i)
    then have "apply_cancel_attempt p (pg_revision p + 1) a i (locals p) = Inr q" using h by (simp add: handle_def Let_def res_simps)
    then show ?thesis using apply_cancel_attempt_iff[OF assms(1) _ n, of a i q] actor CancelAttempt rc by auto
  next
    case (SatisfyWorkUnit v a t)
    then have "apply_satisfy H p (pg_revision p + 1) a t (locals p) = Inr q" using h by (simp add: handle_def Let_def res_simps)
    then obtain s u b where "q = (locals p)\<lparr>ap_satisfactions := pg_satisfactions p @ [t\<lparr>ts_record_order := pg_revision p + 1\<rparr>]\<rparr>"
      using apply_satisfy_Inr[OF assms(1) _ refl] wf_commandD(4)[of v a t] wf SatisfyWorkUnit by metis
    then show ?thesis using r by simp
  next
    case (AmendProgramSpec v a am)
    have "wf_amendment am" "nonblank a" using actor wf_commandD(5)[of v a am] wf AmendProgramSpec by simp_all
    from assms(1) this refl[of "pg_revision p + 1"] show ?thesis
    proof (cases rule: apply_amend_cases)
      case (revised s q' ids cs sts)
      have "amend_loop H (pg_revision p + 1) a (amended H p s) = Inr q"
        using h revised(2,3) AmendProgramSpec
        by (auto simp: handle_def Let_def apply_amend_def amended_def rbind_eq_Inr split: if_splits)
      moreover have "facts_ok H (pg_revision p + 1) (amended H p s)" by (rule facts_ok_amended[OF assms(1) revised(4-7)])
      ultimately show ?thesis using amend_loop_recorded[OF _ _ _ n] \<open>nonblank a\<close> r by (simp add: amended_def)
    qed (use h AmendProgramSpec in \<open>simp_all add: handle_def Let_def\<close>)
  next
    case (StartAttempt v a i)
    then show ?thesis using h rs prepared_executing_live
      by (auto simp: handle_def Let_def res_simps apply_start_iff[OF assms(1)])
  next
    case (FinishAttempt v a i)
    then show ?thesis using h rs prepared_executing_live
      by (auto simp: handle_def Let_def res_simps apply_finish_iff[OF assms(1)])
  next
    case (FailAttempt v a i)
    then show ?thesis using h rs by (auto simp: handle_def Let_def res_simps apply_fail_iff[OF assms(1)])
  qed (use h r in \<open>auto simp: handle_def Let_def res_simps apply_activate_def apply_pause_def apply_resume_def\<close>)
qed

section \<open>The aggregate as a recording machine\<close>

definition started :: "hash \<Rightarrow> program \<Rightarrow> bool" where
  "started H p \<longleftrightarrow> digest_like H \<and> (\<exists>sp. wf_spec sp \<and> create sp = Inr p)"

definition sound :: "hash \<Rightarrow> program \<Rightarrow> bool" where
  "sound H p \<longleftrightarrow> digest_like H \<and> program_ok H p \<and> recorded (pg_attempts p) (pg_attempt_cancellations p)"

lemma started_sound:
  assumes "started H p"
  shows "sound H p"
proof -
  from assms obtain sp where sp: "wf_spec sp" "create sp = Inr p" "digest_like H" by (auto simp: started_def)
  then have "pg_attempts p = []" "pg_attempt_cancellations p = []" by (auto simp: create_def res_simps)
  then show ?thesis using create_inv[OF sp(2,1)] sp(3) by (simp add: sound_def recorded_def)
qed

lemma apply_command_sound:
  assumes "sound H p" and "wf_command c" and "apply_command H p c = Inr p'"
  shows "sound H p'"
proof -
  have ok: "program_ok H p" "digest_like H" "recorded (pg_attempts p) (pg_attempt_cancellations p)"
    using assms(1) by (simp_all add: sound_def)
  from assms(3) ok(1,2) assms(2) show ?thesis
  proof (cases rule: apply_command_cases)
    case noop
    then show ?thesis using assms(1) by simp
  next
    case (step q sts)
    then show ?thesis using handle_recorded[OF ok(1,2) assms(2) step(2) ok(3)] ok(2) by (simp add: sound_def)
  qed
qed

interpretation program_machine: recording_machine "apply_command H" wf_command "started H" "sound H" extends for H
proof
  show "started H p \<Longrightarrow> sound H p" for p by (rule started_sound)
  show "sound H p \<Longrightarrow> wf_command c \<Longrightarrow> apply_command H p c = Inr p' \<Longrightarrow> sound H p'" for p c p'
    by (rule apply_command_sound)
  show "extends p p" for p by (rule extends_refl)
  show "extends p p' \<Longrightarrow> extends p' p'' \<Longrightarrow> extends p p''" for p p' p'' by (rule extends_trans)
  show "sound H p \<Longrightarrow> wf_command c \<Longrightarrow> apply_command H p c = Inr p' \<Longrightarrow> extends p p'" for p c p'
    by (auto simp: sound_def intro: apply_command_extends)
qed

abbreviation reachable :: "hash \<Rightarrow> program_spec \<Rightarrow> program \<Rightarrow> bool" where
  "reachable H sp p \<equiv> (\<exists>p0. create sp = Inr p0 \<and> reaches (apply_command H) wf_command p0 p)"

lemma reachable_sound:
  assumes "digest_like H" and "wf_spec sp" and "reachable H sp p"
  shows "sound H p"
  using assms program_machine.reachable_inv[of H] by (auto simp: started_def)

end
