(* ===== verification/Domain_Theorems.thy ===== *)
theory Domain_Theorems
  imports Domain_History
begin

text \<open>
  The properties of the aggregate \<open>Program\<close>, stated over \<open>create\<close> and \<open>apply_command\<close>. \<open>reachable H sp p\<close>: the
  program \<open>p\<close> results from \<open>Program.create(sp)\<close> by commands that their constructors accept. The hash
  function \<open>H\<close> is arbitrary but for \<open>digest_like\<close>: a digest is never blank.
\<close>

section \<open>Auxiliary facts\<close>

lemma reachable_ok:
  assumes "digest_like H" and "wf_spec sp" and "reachable H sp p"
  shows "program_ok H p"
  using reachable_sound[OF assms] by (simp add: sound_def)

lemma add_outputs_error: "add_outputs i os ps = Inl e \<Longrightarrow> e = InvalidGraph"
  by (induction os arbitrary: ps) (auto split: if_splits)

lemma collect_producers_error: "collect_producers ids us ps = Inl e \<Longrightarrow> e \<in> {MissingReference, InvalidGraph}"
  by (induction us arbitrary: ps) (auto simp: res_simps dest: add_outputs_error split: if_splits)

lemma mk_ProgramSpec_error:
  assumes "mk_ProgramSpec pid obj units inputs bud auth rv par crit pols = Inl e"
  shows "e \<in> {InvalidDomainValue, InvalidGraph, MissingReference, CycleDetected, MissingInput}"
proof -
  have c: "collect_producers ids us ps = Inl e' \<Longrightarrow> e' \<noteq> e \<or> e \<in> {MissingReference, InvalidGraph}" for ids us ps e'
    using collect_producers_error by blast
  have t: "topological_order us = Inl e' \<Longrightarrow> e' = CycleDetected" for us e'
    unfolding topological_order_def by (rule topo_loop_error)
  show ?thesis
    using assms unfolding mk_ProgramSpec_def bindings_def criteria_def policies_def
    by (auto simp: rbind_eq_Inl dest: collect_producers_error t split: if_splits)
qed

lemma amend_error:
  assumes "amend H s a = Inl e"
  shows "e \<notin> {KeyError, IndexError}"
  using assms mk_ProgramSpec_error unfolding amend_def propose_def by (fastforce simp: rbind_eq_Inl split: if_splits)

lemma inv_status:
  assumes "program_ok H p" and "pg_status p \<notin> {ProgramDraft, ProgramCancelled}"
  shows "pg_status p = ProgramCompleted \<longleftrightarrow> (\<forall>st \<in> set (pg_states p). us_status st = UnitSatisfied)"
  using assms by (cases "pg_status p") (auto simp: program_ok_def next_status_def list_all_iff split: if_splits)

section \<open>Consistency\<close>


text \<open>
  (C2) On a reachable program a well-formed command never fails for the kernel's own bookkeeping: no
  \<open>KeyError\<close> or \<open>IndexError\<close> escapes, \<open>_validate\<close> and the value constructors never reject what the branches of
  \<open>apply\<close> computed, and \<open>InvalidDomainValue\<close> can only come from an amendment whose proposed specification
  \<open>ProgramSpec\<close> itself refuses.
\<close>

theorem apply_raises_no_internal_error:
  assumes "digest_like H" and "wf_spec sp" and "reachable H sp p" and "wf_command c"
    and "apply_command H p c = Inl e" and "e \<in> {InvalidDomainValue, KeyError, IndexError}"
  shows "e = InvalidDomainValue \<and> (\<exists>r actor am. c = AmendProgramSpec r actor am \<and> amend H (pg_spec p) am = Inl e)"
proof -
  have "internal e" using assms(6) by (simp add: internal_def)
  then obtain r a am where "c = AmendProgramSpec r a am" "amend H (pg_spec p) am = Inl e"
    using apply_command_internal[OF reachable_ok[OF assms(1-3)] assms(1,4,5)] by blast
  then show ?thesis using amend_error[of H "pg_spec p" am e] assms(6) by auto
qed

text \<open>
  Optimistic concurrency: of two commands prepared against the same revision, once the first has
  changed the program the second is refused as stale, whatever it asks for.
\<close>

theorem concurrent_command_is_stale:
  assumes "digest_like H" and "wf_spec sp" and "reachable H sp p" and "wf_command c"
    and "apply_command H p c = Inr p'" and "p' \<noteq> p" and "cmd_expected_revision c' = cmd_expected_revision c"
  shows "apply_command H p' c' = Inl StaleRevision"
  using assms(5) reachable_ok[OF assms(1-3)] assms(1,4)
proof (cases rule: apply_command_cases)
  case (step q sts)
  then have "cmd_expected_revision c' \<noteq> pg_revision p'" using assms(7) by simp
  then show ?thesis by (simp add: apply_command_def)
qed (use assms(6) in simp)

section \<open>Histories\<close>

text \<open>
  (C9) Recorded facts are immutable along every run: attempts stay at their position with their
  specification and actor and only move forward in their lifecycle; satisfactions, cancellations,
  withdrawal records, conclusions and approved specifications are only appended.
\<close>

theorem histories_only_grow:
  assumes "digest_like H" and "wf_spec sp" and "reachable H sp p" and "reaches (apply_command H) wf_command p p'"
  shows "length (pg_attempts p) \<le> length (pg_attempts p')
    \<and> (\<forall>k < length (pg_attempts p). at_spec (pg_attempts p' ! k) = at_spec (pg_attempts p ! k)
         \<and> at_actor_id (pg_attempts p' ! k) = at_actor_id (pg_attempts p ! k)
         \<and> status_le (at_status (pg_attempts p ! k)) (at_status (pg_attempts p' ! k)))
    \<and> prefix (pg_satisfactions p) (pg_satisfactions p') \<and> prefix (pg_cancellations p) (pg_cancellations p')
    \<and> prefix (pg_attempt_cancellations p) (pg_attempt_cancellations p')
    \<and> prefix (pg_conclusions p) (pg_conclusions p') \<and> prefix (pg_spec_history p) (pg_spec_history p')"
proof -
  have e: "extends p p'" by (rule program_machine.reaches_extends[OF assms(4) reachable_sound[OF assms(1-3)]])
  then obtain xs ys where x: "pg_attempts p' = xs @ ys" "list_all2 (evolves status_le) (pg_attempts p) xs"
    by (auto simp: extends_def)
  then have "length xs = length (pg_attempts p)" and "\<And>k. k < length (pg_attempts p) \<Longrightarrow> evolves status_le (pg_attempts p ! k) (xs ! k)"
    by (auto simp: list_all2_conv_all_nth)
  then show ?thesis using extendsD[OF e] x(1) by (simp add: nth_append evolves_def)
qed

text \<open>
  One command moves an attempt along one edge of its lifecycle at most: from \<open>PREPARED\<close> to \<open>EXECUTING\<close>,
  \<open>FAILED\<close> or \<open>CANCELLED\<close>, from \<open>EXECUTING\<close> to \<open>FINISHED\<close>, \<open>FAILED\<close> or \<open>CANCELLED\<close>; the other three are final.
\<close>

theorem attempt_lifecycle:
  assumes "digest_like H" and "wf_spec sp" and "reachable H sp p" and "wf_command c"
    and "apply_command H p c = Inr p'" and "k < length (pg_attempts p)"
  shows "status_step (at_status (pg_attempts p ! k)) (at_status (pg_attempts p' ! k))"
  using assms(5) reachable_ok[OF assms(1-3)] assms(1,4)
proof (cases rule: apply_command_cases)
  case (step q sts)
  from handle_extends[OF reachable_ok[OF assms(1-3)] assms(1,4) step(2)]
  obtain xs ys where x: "ap_attempts q = xs @ ys" "list_all2 (evolves status_step) (pg_attempts p) xs"
    by (auto simp: pend_extends_def)
  then have "length xs = length (pg_attempts p)" "evolves status_step (pg_attempts p ! k) (xs ! k)"
    using assms(6) by (auto simp: list_all2_conv_all_nth)
  then show ?thesis using x(1) step(1) assms(6) by (simp add: nth_append evolves_def)
qed simp

text \<open>
  Withdrawals are accounted for: in every reachable program the \<open>AttemptCancellation\<close> records name each
  cancelled attempt exactly once and nothing else.
\<close>

theorem cancelled_attempts_recorded_once:
  assumes "digest_like H" and "wf_spec sp" and "reachable H sp p"
  shows "distinct (map ac_attempt_id (pg_attempt_cancellations p))
    \<and> ac_attempt_id ` set (pg_attempt_cancellations p)
      = at_id ` {a \<in> set (pg_attempts p). at_status a = AttemptCancelled}"
  using reachable_sound[OF assms] by (simp add: sound_def recorded_def)

text \<open>
  The approved specifications of a reachable program form one chain: revisions 1, 2, 3, ... without a
  gap, each later one citing the digest of the one before, the last one being the current specification,
  and every one of them well-formed and of the same program.
\<close>

theorem specification_chain:
  assumes "digest_like H" and "wf_spec sp" and "reachable H sp p"
  shows "pg_spec_history p \<noteq> [] \<and> last (pg_spec_history p) = pg_spec p
    \<and> ps_parent_digest (hd (pg_spec_history p)) = None
    \<and> (\<forall>k < length (pg_spec_history p). ps_revision (pg_spec_history p ! k) = int k + 1
         \<and> wf_spec (pg_spec_history p ! k) \<and> ps_program_id (pg_spec_history p ! k) = pg_id p)
    \<and> (\<forall>k. Suc k < length (pg_spec_history p) \<longrightarrow>
         ps_parent_digest (pg_spec_history p ! Suc k) = Some (spec_digest H (pg_spec_history p ! k)))"
proof -
  let ?h = "pg_spec_history p"
  have h: "history_ok H ?h (pg_spec p)" by (rule inv_wf(3)[OF reachable_ok[OF assms]])
  have "ps_revision (?h ! k) = int k + 1" if "k < length ?h" for k
  proof -
    have "map ps_revision ?h ! k = map int [1..<length ?h + 1] ! k" using h by (simp only: history_ok_def)
    then show ?thesis using that by (simp del: upt_Suc)
  qed
  moreover have "ps_parent_digest (?h ! Suc k) = Some (spec_digest H (?h ! k))" if "Suc k < length ?h" for k
  proof -
    have "zip ?h (tl ?h) ! k = (?h ! k, ?h ! Suc k)" "k < length (zip ?h (tl ?h))" using that by (simp_all add: nth_tl)
    then have "chained H (?h ! k, ?h ! Suc k)" using h unfolding history_ok_def list_all_length by metis
    then show ?thesis by (simp add: chained_def)
  qed
  moreover have "?h \<noteq> []" "last ?h = pg_spec p" "ps_parent_digest (hd ?h) = None" using h by (simp_all add: history_ok_def)
  ultimately show ?thesis using history_okD(2,3)[OF h] by simp
qed

section \<open>Lifecycle of the program\<close>

text \<open>
  At most one attempt of a unit is live, and it belongs to a unit of the current specification that is
  not cancelled; a cancelled program has no live attempt.
\<close>

theorem live_attempts_exclusive:
  assumes "digest_like H" and "wf_spec sp" and "reachable H sp p"
    and "a \<in> set (pg_attempts p)" and "live a"
  shows "at_unit a \<in> set (unit_ids (ps_work_units (pg_spec p)))
    \<and> status_of (pg_states p) (at_unit a) \<noteq> UnitCancelled \<and> pg_status p \<notin> {ProgramDraft, ProgramCancelled}
    \<and> (\<forall>b \<in> set (pg_attempts p). live b \<and> at_unit b = at_unit a \<longrightarrow> b = a)"
proof -
  note ok = reachable_ok[OF assms(1-3)]
  have l: "live_ok H (locals p)" and s: "status_ok (locals p)" using ok by (simp_all add: program_ok_def)
  have st: "pg_status p \<notin> {ProgramDraft, ProgramCancelled}"
    using s assms(4,5) by (auto simp: status_ok_def list_ex_iff)
  from l assms(4,5) obtain u where u: "u \<in> set (ps_work_units (pg_spec p))" "wu_work_unit_id u = at_unit a"
      "\<not> cancelled_unit H (pg_spec p) (pg_cancellations p) (at_unit a)" by (auto simp: live_ok_def)
  have "status_of (pg_states p) (at_unit a) \<noteq> UnitCancelled"
    using project_cancelled_iff[OF inv_wf(1,2)[OF ok] inv_project[OF ok] u(1)] u(2,3) st by simp
  moreover have "b = a" if "b \<in> set (pg_attempts p)" "live b" "at_unit b = at_unit a" for b
    using live_attempt_unique[of "pg_attempts p" a] live_attempt_unique[of "pg_attempts p" b] l assms(4,5) that
    by (simp add: live_ok_def)
  ultimately show ?thesis using u(1,2) st by (metis imageI list.set_map)
qed

text \<open>Abandonment is final: no command succeeds on a cancelled program.\<close>

theorem cancelled_program_is_final:
  assumes "digest_like H" and "wf_spec sp" and "reachable H sp p" and "wf_command c"
    and "pg_status p = ProgramCancelled"
  shows "\<exists>e. apply_command H p c = Inl e"
proof (cases "apply_command H p c")
  case (Inr p')
  then obtain r where "handle H p c = Inr r" by (auto simp: apply_command_def res_simps)
  moreover have "handle H p c \<noteq> Inr r"
    using assms(5)
    by (cases c) (auto simp: handle_def Let_def res_simps apply_activate_def apply_pause_def apply_resume_def
      apply_cancel_program_def apply_cancel_unit_def apply_prepare_def apply_start_def apply_finish_def apply_fail_def
      apply_cancel_attempt_def apply_satisfy_def apply_amend_def)
  ultimately show ?thesis by simp
qed simp

text \<open>
  A program that is neither a draft nor cancelled is \<open>COMPLETED\<close> exactly when every unit of its current
  specification is satisfied.
\<close>

theorem completed_iff_all_satisfied:
  assumes "digest_like H" and "wf_spec sp" and "reachable H sp p"
    and "pg_status p \<notin> {ProgramDraft, ProgramCancelled}"
  shows "pg_status p = ProgramCompleted \<longleftrightarrow>
    (\<forall>u \<in> set (ps_work_units (pg_spec p)). status_of (pg_states p) (wu_work_unit_id u) = UnitSatisfied)"
proof -
  note ok = reachable_ok[OF assms(1-3)]
  let ?f = "local_state H (pg_spec p) (pg_attempts p) (pg_satisfactions p) (pg_cancellations p) (by_unit (pg_states p))"
  have P: "project H (pg_spec p) (pg_attempts p) (pg_satisfactions p) (pg_cancellations p) = Inr (pg_states p)"
    using inv_project[OF ok] assms(4) by simp
  note loc = project_local[OF inv_wf(1,2)[OF ok] P]
  have "(\<forall>st \<in> set (pg_states p). us_status st = UnitSatisfied)
      \<longleftrightarrow> (\<forall>u \<in> set (ps_work_units (pg_spec p)). us_status (?f u) = UnitSatisfied)"
    by (subst loc(1)) simp
  then show ?thesis using inv_status[OF ok assms(4)] loc(3) by simp
qed

end
