(* ===== verification/Domain_Effects.thy ===== *)
theory Domain_Effects
  imports Domain_Theorems
begin

text \<open>
  What individual commands achieve: the unit of an admitted attempt becomes active, a trusted
  satisfaction takes effect, abandoning a unit cancels exactly its descendants, an amendment keeps only
  attempts whose subject and authority survive.
\<close>

section \<open>How the projection reacts to a new fact\<close>

lemma dict_from_snoc: "dict_from key (xs @ [x]) k = (if key x = k then Some x else dict_from key xs k)"
  by (simp add: dict_from_def)

lemma live_attempt_snoc:
  "live_attempt (atts @ [a]) i = (case live_attempt atts i of Some b \<Rightarrow> Some b
     | None \<Rightarrow> if at_unit a = i \<and> live a then Some a else None)"
  by (induction atts) (auto simp: live_attempt_def)

lemma applicable_snoc_attempt:
  assumes "wf_facts atts sats" and "t \<in> set sats" and "at_id a \<notin> at_id ` set atts"
  shows "applicable u fp ins (atts @ [a]) t = applicable u fp ins atts t"
proof -
  have "at_id a \<noteq> ts_source_attempt_id t" using assms by (auto simp: wf_facts_def)
  then show ?thesis by (simp add: applicable_def dict_from_snoc)
qed

lemma local_state_snoc_attempt:
  assumes "wf_facts atts sats" and "at_id a \<notin> at_id ` set atts" and "at_unit a \<noteq> wu_work_unit_id u"
  shows "local_state H sp (atts @ [a]) sats cans M u = local_state H sp atts sats cans M u"
proof -
  have "filter (applicable u fp ins (atts @ [a])) sats = filter (applicable u fp ins atts) sats" for fp ins
    using applicable_snoc_attempt[OF assms(1) _ assms(2)] by (intro filter_cong) auto
  moreover have "live_attempt (atts @ [a]) (wu_work_unit_id u) = live_attempt atts (wu_work_unit_id u)"
    using assms(3) by (simp add: live_attempt_snoc split: option.split)
  ultimately show ?thesis unfolding local_state_def Let_def by (simp only:)
qed

lemma not_own_ancestor:
  assumes "wf_spec sp" and "u \<in> set (ps_work_units sp)" and "d \<in> set (wu_dependencies u)"
  shows "wu_work_unit_id u \<notin> ancestors (ps_work_units sp) d"
proof
  assume "wu_work_unit_id u \<in> ancestors (ps_work_units sp) d"
  then have "(wu_work_unit_id u, d) \<in> (dep_rel (ps_work_units sp))\<^sup>*" by (simp add: ancestors_def)
  moreover have "(d, wu_work_unit_id u) \<in> dep_rel (ps_work_units sp)"
    using dep_rel_iff[OF wf_specD(2)[OF assms(1)] assms(2)] assms(3) by simp
  ultimately have "(d, d) \<in> (dep_rel (ps_work_units sp))\<^sup>+" by (meson rtrancl_into_trancl2)
  then show False using wf_specD(1)[OF assms(1)] by (auto simp: wf_graph_def acyclic_def)
qed

text \<open>Units that do not depend on the changed one keep their state.\<close>

lemma project_unaffected:
  assumes "wf_spec sp" and "wf_facts atts sats" and "project H sp atts sats cans = Inr sts"
    and "wf_facts atts' sats'" and "project H sp atts' sats' cans = Inr sts'"
    and local: "\<And>v. v \<in> set (ps_work_units sp) \<Longrightarrow> wu_work_unit_id v \<noteq> i \<Longrightarrow>
      local_state H sp atts' sats' cans (by_unit sts) v = local_state H sp atts sats cans (by_unit sts) v"
    and "v \<in> set (ps_work_units sp)" and "i \<notin> ancestors (ps_work_units sp) (wu_work_unit_id v)"
  shows "by_unit sts' (wu_work_unit_id v) = by_unit sts (wu_work_unit_id v)"
  using assms(1,7,8)
proof (induction v rule: unit_induct)
  case (unit v)
  have "by_unit sts' d = by_unit sts d" if d: "d \<in> set (wu_dependencies v)" for d
  proof -
    obtain w where "w \<in> set (ps_work_units sp)" "wu_work_unit_id w = d" by (rule dep_unit[OF assms(1) unit(1) d])
    then show ?thesis
      using unit.IH[of w] unit.prems d ancestors_unfold[OF wf_specD(2)[OF assms(1)] unit(1)] by auto
  qed
  then have "local_state H sp atts' sats' cans (by_unit sts') v = local_state H sp atts' sats' cans (by_unit sts) v"
    by (rule local_state_cong)
  also have "\<dots> = local_state H sp atts sats cans (by_unit sts) v"
    using local[OF unit(1)] unit.prems by (auto simp: ancestors_def)
  finally show ?case
    using project_local(3)[OF assms(1,2,3) unit(1)] project_local(3)[OF assms(1,4,5) unit(1)] by simp
qed

lemma ready_inputs_resolved:
  assumes "program_ok H p" and "pg_status p \<noteq> ProgramDraft" and "u \<in> set (ps_work_units (pg_spec p))"
    and "program_resolved_inputs p (wu_work_unit_id u) = Inr ins"
  shows "deps_satisfied (by_unit (pg_states p)) u"
    and "ins = ready_inputs (pg_spec p) u (by_unit (pg_states p)) (pg_satisfactions p)"
proof -
  note wf = inv_wf[OF assms(1)]
  let ?M = "by_unit (pg_states p)" and ?F = "dict_from ts_reference_id (pg_satisfactions p)"
  have ok: "deps_ok (pg_spec p) (pg_satisfactions p) ?M u"
    by (rule deps_ok_projected[OF wf(1,2) inv_project[OF assms(1,2)] assms(3)])
  have "spec_work_unit (pg_spec p) (wu_work_unit_id u) = Inr u"
    using spec_work_unit_Inr_iff[OF wf_specD(2)[OF wf(1)]] assms(3) by simp
  then have r: "resolved_inputs (pg_spec p) u ?M ?F = Inr (Some ins)"
    using assms(4) by (auto simp: program_resolved_inputs_def res_simps split: option.splits)
  then show sat: "deps_satisfied ?M u"
    using resolved_inputs_total[OF wf(1) assms(3) wf(2) ok] by (cases "deps_satisfied ?M u") auto
  have "\<And>d. d \<in> set (wu_dependencies u) \<Longrightarrow> dep_ready ?M ?F d" using deps_ok_source[OF ok wf(2)] sat by blast
  then show "ins = ready_inputs (pg_spec p) u ?M (pg_satisfactions p)"
    using r resolution_complete[OF wf(1) assms(3) wf(2) ok sat] by (simp add: resolved_inputs_ready)
qed

section \<open>Attempt admission\<close>

lemma prepare_activates:
  assumes ok: "program_ok H p" and "digest_like H" and wf: "wf_command (PrepareAttempt r actor_id requested)"
    and ap: "apply_command H p (PrepareAttempt r actor_id requested) = Inr p'"
  obtains u where "admitted H p requested u" "pg_attempts p' = pg_attempts p @ [prepared actor_id requested]"
    "by_unit (pg_states p') (wu_work_unit_id u) = Some (unit_state (wu_work_unit_id u) UnitActive (Some (as_attempt_id requested)) None)"
    "pg_spec p' = pg_spec p"
  using ap ok assms(2) wf
proof (cases rule: apply_command_cases)
  case noop
  then show ?thesis by (simp add: handle_def Let_def res_simps)
next
  case (step q sts)
  have "nonblank actor_id" using wf_commandD(1)[OF wf] by simp
  moreover have "apply_prepare H p actor_id requested (locals p) = Inr q" using step(2) by (simp add: handle_def Let_def res_simps)
  ultimately obtain u where ad: "admitted H p requested u"
      and q: "q = (locals p)\<lparr>ap_attempts := pg_attempts p @ [prepared actor_id requested]\<rparr>"
    using apply_prepare_Inr[OF ok] by metis
  let ?a = "prepared actor_id requested" and ?i = "wu_work_unit_id u" and ?sp = "pg_spec p"
  note wfp = inv_wf[OF ok] and wfp' = inv_wf[OF step(4)]
  have act: "pg_status p = ProgramActive" and u: "u \<in> set (ps_work_units ?sp)" and iu: "?i = as_work_unit_id requested"
    using ad by (simp_all add: admitted_def)
  have P: "project H ?sp (pg_attempts p) (pg_satisfactions p) (pg_cancellations p) = Inr (pg_states p)"
    using inv_project[OF ok] act by simp
  have P': "project H ?sp (pg_attempts p @ [?a]) (pg_satisfactions p) (pg_cancellations p) = Inr sts"
    using step(3) act by (simp add: q assembled_states_def)
  have w': "wf_facts (pg_attempts p @ [?a]) (pg_satisfactions p)" using wfp'(2) step(1) by (simp add: q)
  have fresh: "at_id ?a \<notin> at_id ` set (pg_attempts p)" using ad by (simp add: prepared_def admitted_def)
  have "local_state H ?sp (pg_attempts p @ [?a]) (pg_satisfactions p) (pg_cancellations p) (by_unit (pg_states p)) v
      = local_state H ?sp (pg_attempts p) (pg_satisfactions p) (pg_cancellations p) (by_unit (pg_states p)) v"
    if "wu_work_unit_id v \<noteq> ?i" for v
    by (rule local_state_snoc_attempt[OF wfp(2) fresh]) (use that iu in \<open>auto simp: prepared_def\<close>)
  then have same: "by_unit sts d = by_unit (pg_states p) d" if d: "d \<in> set (wu_dependencies u)" for d
    using project_unaffected[OF wfp(1,2) P w' P', of ?i] not_own_ancestor[OF wfp(1) u d] dep_unit[OF wfp(1) u d] by metis
  have st: "us_status (local_state H ?sp (pg_attempts p) (pg_satisfactions p) (pg_cancellations p) (by_unit (pg_states p)) u) = UnitReady"
    using project_local(3)[OF wfp(1,2) P u] ad by (simp add: admitted_def)
  have "program_resolved_inputs p ?i = Inr (as_effective_inputs requested)" using ad unfolding admitted_def by blast
  from ready_inputs_resolved(2)[OF ok _ u this] act
  have ins: "as_effective_inputs requested = ready_inputs ?sp u (by_unit (pg_states p)) (pg_satisfactions p)" by simp
  have la: "live_attempt (pg_attempts p @ [?a]) ?i = Some ?a"
  proof -
    have "live_attempt (pg_attempts p) ?i = None"
      using ad by (auto simp: live_attempt_def find_None_iff admitted_def)
    then show ?thesis using iu by (simp add: live_attempt_snoc prepared_def live_def)
  qed
  have flt: "filter (applicable u fp ins' (pg_attempts p @ [?a])) (pg_satisfactions p)
      = filter (applicable u fp ins' (pg_attempts p)) (pg_satisfactions p)" for fp ins'
    using applicable_snoc_attempt[OF wfp(2) _ fresh] by (intro filter_cong) auto
  from st have "local_state H ?sp (pg_attempts p @ [?a]) (pg_satisfactions p) (pg_cancellations p) (by_unit (pg_states p)) u
      = unit_state ?i UnitActive (Some (as_attempt_id requested)) None"
  proof (cases rule: local_state_cases[of H ?sp "pg_attempts p" "pg_satisfactions p" "pg_cancellations p" "by_unit (pg_states p)" u])
    case ready
    then show ?thesis
      unfolding local_state_def Let_def flt la ins[symmetric] by (simp add: same_subject_def prepared_def)
  qed simp_all
  moreover have "by_unit sts ?i = Some (local_state H ?sp (pg_attempts p @ [?a]) (pg_satisfactions p) (pg_cancellations p) (by_unit (pg_states p)) u)"
    using project_local(3)[OF wfp(1) w' P' u] local_state_cong[OF same, of u] by simp
  ultimately show ?thesis using that[OF ad] step(1) by (simp add: q)
qed

text \<open>
  (C3) Admission of an attempt: when \<open>PrepareAttempt\<close> succeeds, the program was active and the unit ready with
  exactly the inputs the attempt names, the attempt budget of the specification and of the authority and
  the limit of concurrent attempts hold after the admission, and the unit is now \<open>ACTIVE\<close> on this attempt.
\<close>

theorem prepare_admits_within_budget:
  assumes "digest_like H" and "wf_spec sp" and "reachable H sp p"
    and "wf_command (PrepareAttempt r actor_id requested)"
    and "apply_command H p (PrepareAttempt r actor_id requested) = Inr p'"
  shows "pg_status p = ProgramActive
    \<and> as_work_unit_id requested \<in> set (ready_work_unit_ids p)
    \<and> program_resolved_inputs p (as_work_unit_id requested) = Inr (as_effective_inputs requested)
    \<and> int (length (pg_attempts p')) \<le> min (bp_max_attempts (ps_budget (pg_spec p'))) (ae_max_attempts (ps_authority (pg_spec p')))
    \<and> int (length (filter live (pg_attempts p'))) \<le> bp_max_active_attempts (ps_budget (pg_spec p'))
    \<and> program_state p' (as_work_unit_id requested)
        = Inr (unit_state (as_work_unit_id requested) UnitActive (Some (as_attempt_id requested)) None)"
proof -
  note ok = reachable_ok[OF assms(1-3)]
  have ok': "program_ok H p'" by (rule apply_command_inv[OF assms(5) ok assms(1,4)])
  obtain u where u: "admitted H p requested u" "pg_attempts p' = pg_attempts p @ [prepared actor_id requested]"
      "by_unit (pg_states p') (wu_work_unit_id u) = Some (unit_state (wu_work_unit_id u) UnitActive (Some (as_attempt_id requested)) None)"
      "pg_spec p' = pg_spec p" by (rule prepare_activates[OF ok assms(1,4,5)])
  have iu: "wu_work_unit_id u = as_work_unit_id requested" and uu: "u \<in> set (ps_work_units (pg_spec p))"
      and act: "pg_status p = ProgramActive" and rdy: "status_of (pg_states p) (as_work_unit_id requested) = UnitReady"
    using u(1) by (auto simp: admitted_def)
  obtain st where st: "by_unit (pg_states p) (as_work_unit_id requested) = Some st"
    using project_local(3)[OF inv_wf(1,2)[OF ok] inv_project[OF ok] uu] act iu by simp
  have "as_work_unit_id requested \<in> set (ready_work_unit_ids p)"
    using dict_from_SomeD[OF st] st rdy act by (force simp: ready_work_unit_ids_def)
  moreover have "live (prepared actor_id requested)" by (simp add: prepared_def live_def)
  moreover have "program_resolved_inputs p (as_work_unit_id requested) = Inr (as_effective_inputs requested)"
    using u(1) iu by (auto simp: admitted_def)
  ultimately show ?thesis
    using u iu act by (simp add: program_state_by_unit[OF ok'] admitted_def)
qed

text \<open>
  Admission is complete: on a reachable active program a ready unit without a live attempt accepts a
  fresh attempt that pins the current specification and the resolved inputs, from an actor allowed to
  prepare, as long as both budgets leave room.
\<close>

theorem prepare_accepts:
  assumes "digest_like H" and "wf_spec sp" and "reachable H sp p" and "wf_attempt_spec requested" and "nonblank actor_id"
    and "pg_status p = ProgramActive" and "as_work_unit_id requested \<in> set (ready_work_unit_ids p)"
    and "as_program_id requested = pg_id p" and "as_spec_revision requested = ps_revision (pg_spec p)"
    and "as_spec_digest requested = spec_digest H (pg_spec p)"
    and "as_attempt_id requested \<notin> at_id ` set (pg_attempts p)" and "as_remediation_of requested = None"
    and "\<not> (\<exists>a \<in> set (pg_attempts p). live a \<and> at_unit a = as_work_unit_id requested)"
    and "program_resolved_inputs p (as_work_unit_id requested) = Inr (as_effective_inputs requested)"
    and "PREPARE_ATTEMPT |\<in>| ae_allowed_actions (ps_authority (pg_spec p))"
    and "actor_id = ae_owner_id (ps_authority (pg_spec p)) \<or> actor_id |\<in>| ae_delegated_actor_ids (ps_authority (pg_spec p))"
    and "int (length (pg_attempts p)) < bp_max_attempts (ps_budget (pg_spec p))"
    and "int (length (pg_attempts p)) < ae_max_attempts (ps_authority (pg_spec p))"
    and "int (length (filter live (pg_attempts p))) < bp_max_active_attempts (ps_budget (pg_spec p))"
  shows "\<exists>p'. apply_command H p (PrepareAttempt (pg_revision p) actor_id requested) = Inr p'"
proof -
  note ok = reachable_ok[OF assms(1-3)]
  let ?c = "PrepareAttempt (pg_revision p) actor_id requested"
  have wf: "wf_command ?c"
    using assms(4,5) ok by (simp add: wf_command_def command_ok_def revision_ok_def program_ok_def)
  obtain st where st: "st \<in> set (pg_states p)" "us_status st = UnitReady" "us_work_unit_id st = as_work_unit_id requested"
    using assms(6,7) by (auto simp: ready_work_unit_ids_def)
  then have "as_work_unit_id requested \<in> set (map us_work_unit_id (pg_states p))" by (metis imageI list.set_map)
  then obtain u where u: "u \<in> set (ps_work_units (pg_spec p))" "wu_work_unit_id u = as_work_unit_id requested"
    unfolding inv_states_ids[OF ok] by auto
  have su: "spec_work_unit (pg_spec p) (as_work_unit_id requested) = Inr u"
    using spec_work_unit_Inr_iff[OF wf_specD(2)[OF inv_wf(1)[OF ok]]] u by simp
  have d: "distinct (map us_work_unit_id (pg_states p))"
    unfolding inv_states_ids[OF ok] using wf_specD(2)[OF inv_wf(1)[OF ok]] .
  have ps: "program_state p (as_work_unit_id requested) = Inr st"
    using dict_from_distinct[OF d st(1)] st(3) by (simp add: program_state_by_unit[OF ok])
  have "apply_prepare H p actor_id requested (locals p) = Inr ((locals p)\<lparr>ap_attempts := pg_attempts p @ [prepared actor_id requested]\<rparr>)"
  proof -
    have "\<not> list_ex (\<lambda>a. at_id a = as_attempt_id requested) (pg_attempts p)"
        "\<not> list_ex (\<lambda>a. at_unit a = as_work_unit_id requested \<and> live a) (pg_attempts p)"
      using assms(11,13) by (auto simp: list_ex_iff image_iff)
    then show ?thesis
      by (simp add: apply_prepare_def su ps st(2) u(2) assms(5,6,8-10,12,14,17-19) remediation_ok_def mk_Attempt_def prepared_def)
  qed
  then have h: "handle H p ?c = Inr (Some ((locals p)\<lparr>ap_attempts := pg_attempts p @ [prepared actor_id requested]\<rparr>))"
    by (simp add: handle_def Let_def)
  moreover have "authorize (ps_authority (pg_spec p)) (action_of ?c) (cmd_actor_id ?c) = Inr ()"
    using assms(15,16) by (auto simp: authorize_def guard_def)
  ultimately show ?thesis using apply_command_handled[OF ok assms(1) wf] by (metis domain_command.sel(6))
qed

text \<open>
  A unit reported as ready has its inputs: \<open>resolved_inputs\<close> returns one binding for every required name, in
  the order of the names, and no predecessor of the unit is unsatisfied.
\<close>

theorem ready_units_have_inputs:
  assumes "digest_like H" and "wf_spec sp" and "reachable H sp p"
    and "u \<in> set (ps_work_units (pg_spec p))" and "wu_work_unit_id u \<in> set (ready_work_unit_ids p)"
  shows "(\<exists>ins. program_resolved_inputs p (wu_work_unit_id u) = Inr ins
      \<and> map ib_name ins = sorted_list_of_fset (wu_required_inputs u))
    \<and> (\<forall>d \<in> set (wu_dependencies u). status_of (pg_states p) d = UnitSatisfied)"
proof -
  note ok = reachable_ok[OF assms(1-3)] and wf = inv_wf[OF reachable_ok[OF assms(1-3)]]
  obtain st where st: "st \<in> set (pg_states p)" "us_status st = UnitReady" "us_work_unit_id st = wu_work_unit_id u"
      and act: "pg_status p = ProgramActive"
    using assms(5) by (auto simp: ready_work_unit_ids_def split: if_splits)
  have d: "distinct (map us_work_unit_id (pg_states p))"
    unfolding inv_states_ids[OF ok] using wf_specD(2)[OF wf(1)] .
  have "status_of (pg_states p) (wu_work_unit_id u) = UnitReady" using dict_from_distinct[OF d st(1)] st(2,3) by simp
  moreover have P: "project H (pg_spec p) (pg_attempts p) (pg_satisfactions p) (pg_cancellations p) = Inr (pg_states p)"
    using inv_project[OF ok] act by simp
  ultimately have sat: "deps_satisfied (by_unit (pg_states p)) u"
    by (intro project_runnable_deps[OF wf(1,2) P assms(4)]) simp
  have "deps_ok (pg_spec p) (pg_satisfactions p) (by_unit (pg_states p)) u" by (rule deps_ok_projected[OF wf(1,2) P assms(4)])
  from resolved_inputs_total[OF wf(1) assms(4) wf(2) this] sat
  obtain ins where "resolved_inputs (pg_spec p) u (by_unit (pg_states p)) (dict_from ts_reference_id (pg_satisfactions p)) = Inr (Some ins)"
      "map ib_name ins = sorted_list_of_fset (wu_required_inputs u)" by (auto split: if_splits)
  moreover have "spec_work_unit (pg_spec p) (wu_work_unit_id u) = Inr u"
    using spec_work_unit_Inr_iff[OF wf_specD(2)[OF wf(1)]] assms(4) by simp
  ultimately show ?thesis using sat by (auto simp: program_resolved_inputs_def)
qed

section \<open>Satisfaction\<close>

lemma latest_snoc:
  assumes "\<And>x. x \<in> set xs \<Longrightarrow> ts_record_order x < ts_record_order t"
  shows "latest (xs @ [t]) = Some t"
  using assms
proof (induction xs)
  case (Cons x xs)
  then show ?case by simp
qed simp

lemma source_of_snoc:
  assumes "state_ok sp sats d st" and "M d = Some st" and "us_status st = UnitSatisfied"
    and "ts_reference_id t \<notin> ts_reference_id ` set sats"
  shows "source_of M (dict_from ts_reference_id (sats @ [t])) d = source_of M (dict_from ts_reference_id sats) d"
proof -
  obtain r where "us_satisfaction_id st = Some r" "r \<in> ts_reference_id ` set sats"
    using assms(1,3) by (auto simp: state_ok_def wf_state_def)
  then show ?thesis using assms(2,4) by (auto simp: source_of_def dict_from_snoc)
qed

lemma resolution_snoc:
  assumes "deps_ok sp sats M u" and "deps_satisfied M u" and "ts_reference_id t \<notin> ts_reference_id ` set sats"
  shows "resolution sp u M (dict_from ts_reference_id (sats @ [t])) = resolution sp u M (dict_from ts_reference_id sats)"
proof -
  have "source_of M (dict_from ts_reference_id (sats @ [t])) d = source_of M (dict_from ts_reference_id sats) d"
    if "d \<in> set (wu_dependencies u)" for d
    using assms(1,2) that source_of_snoc[OF _ _ _ assms(3)] by (fastforce simp: deps_ok_def)
  then have "map (\<lambda>d. handed_pairs (wu_required_inputs u) d (source_of M (dict_from ts_reference_id (sats @ [t])) d)) (wu_dependencies u)
      = map (\<lambda>d. handed_pairs (wu_required_inputs u) d (source_of M (dict_from ts_reference_id sats) d)) (wu_dependencies u)"
    by (intro map_cong refl) simp
  then show ?thesis by (simp only: resolution_def)
qed

lemma local_state_snoc_satisfaction:
  assumes "deps_ok sp sats M u" and "ts_reference_id t \<notin> ts_reference_id ` set sats"
    and "ts_work_unit_id t \<noteq> wu_work_unit_id u"
  shows "local_state H sp atts (sats @ [t]) cans M u = local_state H sp atts sats cans M u"
proof (cases "deps_satisfied M u")
  case True
  have "filter (applicable u fp ins atts) (sats @ [t]) = filter (applicable u fp ins atts) sats" for fp ins
    using assms(3) by (simp add: applicable_def)
  then show ?thesis unfolding local_state_def Let_def resolution_snoc[OF assms(1) True assms(2)] by (simp only:)
next
  case False
  then show ?thesis unfolding local_state_def Let_def by (simp only: if_True not_False_eq_True)
qed

lemma satisfy_effect:
  assumes ok: "program_ok H p" and "digest_like H" and wf: "wf_command (SatisfyWorkUnit r actor_id t)"
    and ap: "apply_command H p (SatisfyWorkUnit r actor_id t) = Inr p'"
    and u: "u \<in> set (ps_work_units (pg_spec p))" "wu_work_unit_id u = ts_work_unit_id t"
    and fp: "fingerprint H (pg_spec p) (ts_work_unit_id t) = Inr (ts_work_unit_fingerprint t)"
    and outs: "wu_outputs u = fset_of_list (map ib_name (ts_output_bindings t))"
    and ins: "program_resolved_inputs p (ts_work_unit_id t) = Inr ins"
    and src: "program_attempt p (ts_source_attempt_id t) = Inr a" "same_subject (as_effective_inputs (at_spec a)) ins"
    and nc: "status_of (pg_states p) (ts_work_unit_id t) \<noteq> UnitCancelled"
  shows "by_unit (pg_states p') (ts_work_unit_id t)
    = Some (unit_state (ts_work_unit_id t) UnitSatisfied None (Some (ts_reference_id t)))"
  using ap ok assms(2) wf
proof (cases rule: apply_command_cases)
  case noop
  then show ?thesis by (simp add: handle_def Let_def res_simps)
next
  case (step q sts)
  let ?sp = "pg_spec p" and ?n = "pg_revision p + 1" and ?atts = "pg_attempts p" and ?sats = "pg_satisfactions p"
  have "apply_satisfy H p ?n actor_id t (locals p) = Inr q" using step(2) by (simp add: handle_def Let_def res_simps)
  then obtain s v b where c: "creditable H p actor_id t s v b"
      and q: "q = (locals p)\<lparr>ap_satisfactions := ?sats @ [t\<lparr>ts_record_order := ?n\<rparr>]\<rparr>"
    by (rule apply_satisfy_Inr[OF ok wf_commandD(4)[OF wf] refl])
  let ?t = "t\<lparr>ts_record_order := ?n\<rparr>" and ?M = "by_unit (pg_states p)"
  note wfp = inv_wf[OF ok] and wfp' = inv_wf[OF step(4)]
  have nd: "pg_status p \<noteq> ProgramDraft" using c by (auto simp: creditable_def)
  have P: "project H ?sp ?atts ?sats (pg_cancellations p) = Inr (pg_states p)" by (rule inv_project[OF ok nd])
  have P': "project H ?sp ?atts (?sats @ [?t]) (pg_cancellations p) = Inr sts"
    using step(3) nd by (simp add: q assembled_states_def)
  have w': "wf_facts ?atts (?sats @ [?t])" using wfp'(2) step(1) by (simp add: q)
  have fresh: "ts_reference_id ?t \<notin> ts_reference_id ` set ?sats" using c by (simp add: creditable_def)
  note dok = deps_ok_projected[OF wfp(1,2) P]
  have "local_state H ?sp ?atts (?sats @ [?t]) (pg_cancellations p) ?M w = local_state H ?sp ?atts ?sats (pg_cancellations p) ?M w"
    if "w \<in> set (ps_work_units ?sp)" "wu_work_unit_id w \<noteq> ts_work_unit_id t" for w
    by (rule local_state_snoc_satisfaction[OF dok[OF that(1)] fresh]) (use that(2) in simp)
  note unaff = project_unaffected[OF wfp(1,2) P w' P', of "ts_work_unit_id t", OF this]
  have same: "by_unit sts d = ?M d" if d: "d \<in> set (wu_dependencies u)" for d
    using unaff not_own_ancestor[OF wfp(1) u(1) d] dep_unit[OF wfp(1) u(1) d] u(2) by metis
  have sat: "deps_satisfied ?M u" and i: "ins = ready_inputs ?sp u ?M ?sats"
    using ready_inputs_resolved[OF ok nd u(1)] ins u(2) by simp_all
  have "\<not> is_cancelled H ?sp (pg_cancellations p) ?M u"
    using nc project_status[OF wfp(1,2) P u(1)] u(2) by (simp add: local_state_cancelled_iff)
  moreover have "latest (filter (applicable u (unit_fp H ?sp (wu_work_unit_id u)) ins ?atts) (?sats @ [?t])) = Some ?t"
  proof -
    have a: "dict_from at_id ?atts (ts_source_attempt_id t) = Some a"
      using src(1) dict_from_distinct[OF wfp(4), of a] by (auto simp: program_attempt_Inr_iff[OF wfp(4)])
    have "unit_fp H ?sp (wu_work_unit_id u) = ts_work_unit_fingerprint t"
      using fp u(2) fingerprint_Inr_iff[OF wfp(1)] by simp
    then have "applicable u (unit_fp H ?sp (wu_work_unit_id u)) ins ?atts ?t"
      using u(2) outs src(2) a by (simp add: applicable_def)
    moreover have "ts_record_order x < ?n" if "x \<in> set ?sats" for x
      using that ok facts_okD(6)[of H "pg_revision p" "locals p" x] by (auto simp: program_ok_def satisfaction_ok_def)
    ultimately show ?thesis
      using latest_snoc[of "filter (applicable u (unit_fp H ?sp (wu_work_unit_id u)) ins ?atts) ?sats" ?t] by simp
  qed
  ultimately have "local_state H ?sp ?atts (?sats @ [?t]) (pg_cancellations p) ?M u
      = unit_state (ts_work_unit_id t) UnitSatisfied None (Some (ts_reference_id t))"
    unfolding local_state_def Let_def resolution_snoc[OF dok[OF u(1)] sat fresh] i[symmetric] using sat u(2) by simp
  then show ?thesis
    using project_local(3)[OF wfp(1) w' P' u(1)] local_state_cong[OF same, of u] u(2) step(1) by (simp add: q)
qed

text \<open>
  (C7) A trusted satisfaction takes effect: recorded for the current intent of a unit (same fingerprint, same
  outputs) by an attempt that consumed the inputs now resolved, it makes the unit \<open>SATISFIED\<close> and is the
  satisfaction the unit cites, even when an older one was current.
\<close>

theorem satisfaction_takes_effect:
  assumes "digest_like H" and "wf_spec sp" and "reachable H sp p" and "wf_command (SatisfyWorkUnit r actor_id t)"
    and "apply_command H p (SatisfyWorkUnit r actor_id t) = Inr p'"
    and "spec_work_unit (pg_spec p) (ts_work_unit_id t) = Inr u"
    and "fingerprint H (pg_spec p) (ts_work_unit_id t) = Inr (ts_work_unit_fingerprint t)"
    and "wu_outputs u = fset_of_list (map ib_name (ts_output_bindings t))"
    and "program_resolved_inputs p (ts_work_unit_id t) = Inr ins"
    and "program_attempt p (ts_source_attempt_id t) = Inr a" and "same_subject (as_effective_inputs (at_spec a)) ins"
    and "program_state p (ts_work_unit_id t) = Inr st" and "us_status st \<noteq> UnitCancelled"
  shows "program_state p' (ts_work_unit_id t)
    = Inr (unit_state (ts_work_unit_id t) UnitSatisfied None (Some (ts_reference_id t)))"
proof -
  note ok = reachable_ok[OF assms(1-3)]
  have u: "u \<in> set (ps_work_units (pg_spec p))" "wu_work_unit_id u = ts_work_unit_id t"
    using assms(6) spec_work_unit_Inr_iff[OF wf_specD(2)[OF inv_wf(1)[OF ok]]] by blast+
  have "status_of (pg_states p) (ts_work_unit_id t) \<noteq> UnitCancelled"
    using assms(12,13) by (auto simp: program_state_by_unit[OF ok] split: option.splits)
  from satisfy_effect[OF ok assms(1,4,5) u assms(7-11) this] show ?thesis
    by (simp add: program_state_by_unit[OF apply_command_inv[OF assms(5) ok assms(1,4)]])
qed

text \<open>
  (C8) What a satisfied unit stands on: a recorded satisfaction under the unit's current fingerprint, whose
  finished source attempt consumed the inputs that the current specification resolves for the unit; and
  every transitive predecessor of the unit is satisfied as well.
\<close>

theorem satisfied_units_are_justified:
  assumes "digest_like H" and "wf_spec sp" and "reachable H sp p" and "pg_status p \<noteq> ProgramDraft"
    and "u \<in> set (ps_work_units (pg_spec p))"
    and "status_of (pg_states p) (wu_work_unit_id u) = UnitSatisfied"
  shows "(\<exists>t \<in> set (pg_satisfactions p). \<exists>a \<in> set (pg_attempts p). \<exists>ins.
      us_satisfaction_id (the (by_unit (pg_states p) (wu_work_unit_id u))) = Some (ts_reference_id t)
      \<and> fingerprint H (pg_spec p) (wu_work_unit_id u) = Inr (ts_work_unit_fingerprint t)
      \<and> at_id a = ts_source_attempt_id t \<and> at_status a = AttemptFinished \<and> at_unit a = wu_work_unit_id u
      \<and> program_resolved_inputs p (wu_work_unit_id u) = Inr ins
      \<and> same_subject (as_effective_inputs (at_spec a)) ins)
    \<and> (\<forall>j \<in> ancestors (ps_work_units (pg_spec p)) (wu_work_unit_id u). status_of (pg_states p) j = UnitSatisfied)"
proof -
  note ok = reachable_ok[OF assms(1-3)] and wf = inv_wf[OF reachable_ok[OF assms(1-3)]]
  note P = inv_project[OF ok assms(4)]
  let ?ins = "ready_inputs (pg_spec p) u (by_unit (pg_states p)) (pg_satisfactions p)"
  obtain t a where t: "t \<in> set (pg_satisfactions p)"
      "us_satisfaction_id (the (by_unit (pg_states p) (wu_work_unit_id u))) = Some (ts_reference_id t)"
      "ts_work_unit_id t = wu_work_unit_id u" "fingerprint H (pg_spec p) (wu_work_unit_id u) = Inr (ts_work_unit_fingerprint t)"
      "a \<in> set (pg_attempts p)" "at_id a = ts_source_attempt_id t"
      "resolved_inputs (pg_spec p) u (by_unit (pg_states p)) (dict_from ts_reference_id (pg_satisfactions p)) = Inr (Some ?ins)"
      "same_subject (as_effective_inputs (at_spec a)) ?ins"
    by (rule project_satisfied_fact[OF wf(1,2) P assms(5,6)])
  have "satisfaction_ok H (pg_spec_history p) (pg_attempts p) (pg_id p) (pg_revision p) t"
    using ok facts_okD(6)[of H "pg_revision p" "locals p" t] t(1) by (simp add: program_ok_def)
  then obtain b where "b \<in> set (pg_attempts p)" "at_id b = ts_source_attempt_id t" "at_status b = AttemptFinished"
      "at_unit b = ts_work_unit_id t" unfolding satisfaction_ok_def by blast
  moreover from this have "b = a" using wf(4) t(5,6) by (metis distinct_map inj_onD)
  moreover have "spec_work_unit (pg_spec p) (wu_work_unit_id u) = Inr u"
    using spec_work_unit_Inr_iff[OF wf_specD(2)[OF wf(1)]] assms(5) by simp
  then have "program_resolved_inputs p (wu_work_unit_id u) = Inr ?ins" using t(7) by (simp add: program_resolved_inputs_def)
  moreover have "status_of (pg_states p) j = UnitSatisfied" if "j \<in> ancestors (ps_work_units (pg_spec p)) (wu_work_unit_id u)" for j
    using project_ancestors_satisfied[OF wf(1,2) P assms(5) _ that] assms(6) by (cases "j = wu_work_unit_id u") auto
  ultimately show ?thesis using t by metis
qed

section \<open>Dependencies\<close>

text \<open>
  (C4) Dependency safety: in every reachable program a unit that is ready, active or satisfied has only
  satisfied transitive predecessors.
\<close>

theorem runnable_units_have_satisfied_predecessors:
  assumes "digest_like H" and "wf_spec sp" and "reachable H sp p" and "pg_status p \<noteq> ProgramDraft"
    and "u \<in> set (ps_work_units (pg_spec p))"
    and "status_of (pg_states p) (wu_work_unit_id u) \<in> {UnitReady, UnitActive, UnitSatisfied}"
    and "j \<in> ancestors (ps_work_units (pg_spec p)) (wu_work_unit_id u)" and "j \<noteq> wu_work_unit_id u"
  shows "status_of (pg_states p) j = UnitSatisfied"
  using project_ancestors_satisfied[OF inv_wf(1,2) inv_project, OF reachable_ok reachable_ok reachable_ok] assms by blast

section \<open>Abandoning a unit\<close>

lemma cancelled_unit_snoc_iff:
  assumes "wc_work_unit_fingerprint c = unit_fp H sp (wc_work_unit_id c)"
  shows "cancelled_unit H sp (cans @ [c]) j \<longleftrightarrow>
    cancelled_unit H sp cans j \<or> wc_work_unit_id c \<in> ancestors (ps_work_units sp) j"
  using assms by (auto simp: cancelled_unit_def cancelled_by_def)

text \<open>
  (C6) Abandoning a unit: exactly the unit and the units that depend on it, directly or not, become
  \<open>CANCELLED\<close> in addition to those already cancelled; exactly their live attempts are cancelled and recorded;
  every other attempt is left as it was.
\<close>

theorem abandoning_a_unit:
  assumes "digest_like H" and "wf_spec sp" and "reachable H sp p" and "wf_command (CancelWorkUnit r actor_id i why)"
    and "apply_command H p (CancelWorkUnit r actor_id i why) = Inr p'"
  shows "(\<forall>u \<in> set (ps_work_units (pg_spec p)). status_of (pg_states p') (wu_work_unit_id u) = UnitCancelled \<longleftrightarrow>
      status_of (pg_states p) (wu_work_unit_id u) = UnitCancelled \<or> i \<in> ancestors (ps_work_units (pg_spec p)) (wu_work_unit_id u))
    \<and> pg_attempts p' = map (\<lambda>a. if live a \<and> i \<in> ancestors (ps_work_units (pg_spec p)) (at_unit a)
        then a\<lparr>at_status := AttemptCancelled\<rparr> else a) (pg_attempts p)
    \<and> pg_spec p' = pg_spec p"
  using assms(5) reachable_ok[OF assms(1-3)] assms(1,4)
proof (cases rule: apply_command_cases)
  case noop
  then show ?thesis by (simp add: handle_def Let_def res_simps)
next
  case (step q sts)
  note ok = reachable_ok[OF assms(1-3)] and wf = inv_wf[OF reachable_ok[OF assms(1-3)]]
  let ?sp = "pg_spec p" and ?n = "pg_revision p + 1"
  let ?ids = "descendants ?sp i (pg_attempts p)" and ?c = "unit_cancellation H ?sp i actor_id why ?n"
  have "nonblank actor_id" "nonblank why" using wf_commandD(1,2)[OF assms(4)] by simp_all
  note eq = apply_cancel_unit_eq[OF ok assms(1) this refl, of i]
  have "apply_cancel_unit H p ?n actor_id i why (locals p) = Inr q" using step(2) by (simp add: handle_def Let_def res_simps)
  then have q: "q = (locals p)\<lparr>ap_cancellations := pg_cancellations p @ [?c], ap_attempts := map (cancel_in ?ids) (pg_attempts p),
         ap_attempt_cancellations := pg_attempt_cancellations p @ withdrawals ?n actor_id ''WorkUnit abandonment'' ?ids (pg_attempts p)\<rparr>"
      and st: "pg_status p \<in> {ProgramActive, ProgramPaused}"
    unfolding eq by (auto split: if_splits)
  have P: "project H ?sp (pg_attempts p) (pg_satisfactions p) (pg_cancellations p) = Inr (pg_states p)"
    using inv_project[OF ok] st by auto
  have P': "project H ?sp (map (cancel_in ?ids) (pg_attempts p)) (pg_satisfactions p) (pg_cancellations p @ [?c]) = Inr sts"
    using step(3) st by (auto simp: q assembled_states_def)
  have w': "wf_facts (map (cancel_in ?ids) (pg_attempts p)) (pg_satisfactions p)"
    using inv_wf(2)[OF step(4)] step(1) by (simp add: q)
  have "cancelled_unit H ?sp (pg_cancellations p @ [?c]) j \<longleftrightarrow> cancelled_unit H ?sp (pg_cancellations p) j \<or> i \<in> ancestors (ps_work_units ?sp) j" for j
    by (subst cancelled_unit_snoc_iff) (simp_all add: unit_cancellation_def)
  then have "\<forall>u \<in> set (ps_work_units ?sp). status_of sts (wu_work_unit_id u) = UnitCancelled \<longleftrightarrow>
      status_of (pg_states p) (wu_work_unit_id u) = UnitCancelled \<or> i \<in> ancestors (ps_work_units ?sp) (wu_work_unit_id u)"
    using project_cancelled_iff[OF wf(1,2) P] project_cancelled_iff[OF wf(1) w' P'] by simp
  moreover have "cancel_in ?ids a = (if live a \<and> i \<in> ancestors (ps_work_units ?sp) (at_unit a)
        then a\<lparr>at_status := AttemptCancelled\<rparr> else a)" if "a \<in> set (pg_attempts p)" for a
  proof -
    have "b = a" if "b \<in> set (pg_attempts p)" "at_id b = at_id a" for b
      using wf(4) that \<open>a \<in> set (pg_attempts p)\<close> by (meson distinct_map inj_onD)
    then show ?thesis using that by (auto simp: cancel_in_def descendants_def)
  qed
  ultimately show ?thesis using step(1) by (simp add: q)
qed

section \<open>Amendment\<close>

text \<open>
  (C5) After an amendment every attempt that is still live kept its subject: its unit is in the amended
  specification with the fingerprint the attempt was prepared under, resolves to the same inputs and is not
  cancelled, and the attempt's actor may still start or finish it.
\<close>

theorem amendment_keeps_only_valid_attempts:
  assumes "digest_like H" and "wf_spec sp" and "reachable H sp p" and "wf_command (AmendProgramSpec r actor_id am)"
    and "apply_command H p (AmendProgramSpec r actor_id am) = Inr p'" and "p' \<noteq> p"
    and "a \<in> set (pg_attempts p')" and "live a"
  shows "(\<exists>s \<in> set (pg_spec_history p'). spec_key H s = (as_spec_revision (at_spec a), as_spec_digest (at_spec a))
        \<and> fingerprint H s (at_unit a) = fingerprint H (pg_spec p') (at_unit a))
    \<and> (\<exists>ins. program_resolved_inputs p' (at_unit a) = Inr ins \<and> same_subject (as_effective_inputs (at_spec a)) ins)
    \<and> (if at_status a = AttemptPrepared then START_ATTEMPT else FINISH_ATTEMPT)
        |\<in>| ae_allowed_actions (ps_authority (pg_spec p'))
    \<and> (at_actor_id a = ae_owner_id (ps_authority (pg_spec p'))
        \<or> at_actor_id a |\<in>| ae_delegated_actor_ids (ps_authority (pg_spec p')))
    \<and> status_of (pg_states p') (at_unit a) \<noteq> UnitCancelled"
  using assms(5) reachable_ok[OF assms(1-3)] assms(1,4)
proof (cases rule: apply_command_cases)
  case (step q sts)
  note ok = reachable_ok[OF assms(1-3)]
  have h: "apply_amend H (pg_revision p + 1) actor_id am (locals p) = Inr (Some q)" using step(2) by (simp add: handle_def Let_def)
  have "nonblank actor_id" using wf_commandD(1)[OF assms(4)] by simp
  from ok wf_commandD(5)[OF assms(4)] this refl[of "pg_revision p + 1"] show ?thesis
  proof (cases rule: apply_amend_cases)
    case (revised s q' ids cs sts')
    then have qq: "q' = q" using h by simp
    have "pg_status p \<noteq> ProgramDraft"
    proof
      assume "pg_status p = ProgramDraft"
      then have "pg_attempts p = []" using ok by (simp add: program_ok_def status_ok_def)
      then show False using assms(7) revised(8) step(1) qq by (simp add: amended_def)
    qed
    then have sts: "sts' = sts"
      using step(3) revised(10) revised(8) qq by (simp add: assembled_states_def amended_def)
    have a: "retained H q sts a" using revised(11) assms(7,8) step(1) qq sts by simp
    then obtain u t ins where u: "u \<in> set (ps_work_units (ap_spec q))" "wu_work_unit_id u = at_unit a"
        "cites H (ap_spec_history q) (as_spec_revision (at_spec a)) (as_spec_digest (at_spec a)) t"
        "fingerprint H t (at_unit a) = fingerprint H (ap_spec q) (at_unit a)"
        "resolved_inputs (ap_spec q) u (by_unit sts) (dict_from ts_reference_id (ap_satisfactions q)) = Inr (Some ins)"
        "same_subject (as_effective_inputs (at_spec a)) ins" unfolding retained_def by blast
    have "spec_work_unit (ap_spec q) (at_unit a) = Inr u"
      using spec_work_unit_Inr_iff[OF wf_specD(2)[OF inv_wf(1)[OF step(4)]]] u(1,2) step(1) by simp
    then have "program_resolved_inputs p' (at_unit a) = Inr ins"
      using u(5) step(1) by (simp add: program_resolved_inputs_def)
    then show ?thesis using a u(3,4,6) step(1) unfolding retained_def cites_def by auto
  qed (use h in simp_all)
qed (use assms(6) in simp)

section \<open>Authority\<close>

text \<open>
  Separation of duties: whoever may record a trusted satisfaction on a program is not a delegated actor,
  so an actor that can both satisfy units and operate attempts, pause, resume or activate on the same
  program is its owner; amendments and abandonments are the owner's alone.
\<close>

theorem separation_of_duties:
  assumes "digest_like H" and "wf_spec sp" and "reachable H sp p"
    and "apply_command H p (SatisfyWorkUnit r actor_id t) = Inr p'"
    and "apply_command H p c = Inr p''" and "cmd_actor_id c = actor_id"
    and "action_of c \<noteq> SATISFY_WORK_UNIT"
  shows "actor_id = ae_owner_id (ps_authority (pg_spec p))"
proof -
  have "wf_authority (ps_authority (pg_spec p))"
    using inv_wf(1)[OF reachable_ok[OF assms(1-3)]] by (simp add: wf_spec_def)
  then have disj: "x |\<notin>| ae_delegated_actor_ids (ps_authority (pg_spec p))"
    if "x |\<in>| ae_trusted_satisfaction_issuers (ps_authority (pg_spec p))" for x
    using that by (auto simp: wf_authority_def)
  have "authorize (ps_authority (pg_spec p)) SATISFY_WORK_UNIT actor_id = Inr ()"
      "authorize (ps_authority (pg_spec p)) (action_of c) actor_id = Inr ()"
    using assms(4-6) by (auto simp: apply_command_def res_simps)
  then show ?thesis using assms(7) disj by (auto simp: authorize_def res_simps split: if_splits)
qed

end
