(* ===== verification/Spec_Digests.thy ===== *)
theory Spec_Digests
  imports Domain_Spec
begin

text \<open>
  What a digest pins. Canonical payloads are injective, so two specifications with one digest are equal
  unless the hash collides; a fingerprint pins the program identity and the whole intent of a unit with
  its transitive predecessors, and is unchanged by an amendment of anything else.
\<close>

definition collides :: "hash \<Rightarrow> bool" where
  "collides H \<longleftrightarrow> (\<exists>x y. x \<noteq> y \<and> H x = H y)"

lemma json_digest_eqD: "json_digest H j = json_digest H j' \<Longrightarrow> collides H \<or> canon j = canon j'"
  unfolding json_digest_def collides_def using dumps_eq_iff[of j j'] by auto

section \<open>Canonical payloads are injective\<close>

lemma map_JStr_eq [simp]: "map JStr xs = map JStr ys \<longleftrightarrow> xs = ys"
  by (simp add: inj_map_eq_map inj_def)

lemma canon_JOptStr [simp]: "canon (JOptStr v) = JOptStr v"
  by (cases v) auto

lemma JOptStr_eq [simp]: "JOptStr v = JOptStr w \<longleftrightarrow> v = w"
  by (cases v; cases w) auto

lemma sorted_list_of_fset_eq [simp]: "sorted_list_of_fset A = sorted_list_of_fset B \<longleftrightarrow> A = B"
  by (metis sorted_list_of_fset_simps(2))

lemma fimage_action_value_eq [simp]: "action_value |`| A = action_value |`| B \<longleftrightarrow> A = B"
  by (metis fimage.rep_eq fset_inject inj_action_value inj_image_eq_iff)

lemma canon_policy_payload_eq: "canon (policy_payload r) = canon (policy_payload r') \<longleftrightarrow> r = r'"
  by (auto simp: policy_payload_def intro: policy_reference.equality)

lemma canon_binding_payload_eq: "canon (binding_payload b) = canon (binding_payload b') \<longleftrightarrow> b = b'"
  by (auto simp: binding_payload_def intro: input_binding.equality)

lemma canon_authority_payload_eq: "canon (authority_payload a) = canon (authority_payload a') \<longleftrightarrow> a = a'"
  by (auto simp: authority_payload_def comp_def intro: authority_envelope.equality)

lemma canon_option_policy_eq:
  "canon (case v of None \<Rightarrow> JNull | Some r \<Rightarrow> policy_payload r) =
   canon (case w of None \<Rightarrow> JNull | Some r \<Rightarrow> policy_payload r) \<longleftrightarrow> v = w"
  by (cases v; cases w) (auto simp: canon_policy_payload_eq, auto simp: policy_payload_def)

lemma canon_work_unit_payload_eq: "canon (work_unit_payload u) = canon (work_unit_payload u') \<longleftrightarrow> u = u'"
  by (auto simp: work_unit_payload_def comp_def canon_option_policy_eq intro: work_unit.equality)

lemma map_eq_if_inj:
  "(\<And>x y. f x = f y \<longleftrightarrow> x = y) \<Longrightarrow> map f xs = map f ys \<longleftrightarrow> xs = ys"
  by (simp add: inj_map_eq_map inj_def)

lemmas payload_lists_eq =
  map_eq_if_inj[of "canon \<circ> policy_payload"] map_eq_if_inj[of "canon \<circ> binding_payload"]
  map_eq_if_inj[of "canon \<circ> work_unit_payload"]

lemma canon_spec_payload_eq: "canon (spec_payload s) = canon (spec_payload s') \<longleftrightarrow> s = s'"
proof
  assume "canon (spec_payload s) = canon (spec_payload s')"
  then show "s = s'"
    by (intro program_spec.equality budget_policy.equality)
      (simp_all add: spec_payload_def semantic_payload_def comp_def payload_lists_eq[unfolded comp_def]
        canon_policy_payload_eq canon_binding_payload_eq canon_work_unit_payload_eq
        canon_authority_payload_eq)
qed simp

lemma spec_digest_eqD: "spec_digest H s = spec_digest H s' \<Longrightarrow> collides H \<or> s = s'"
  unfolding spec_digest_def using json_digest_eqD canon_spec_payload_eq by blast

lemma canon_intent_json_eqD:
  assumes "canon (intent_json s i) = canon (intent_json s' i')"
  shows "ps_program_id s = ps_program_id s'" "ps_objective s = ps_objective s'"
    "ps_acceptance_criteria s = ps_acceptance_criteria s'" "ps_policy_references s = ps_policy_references s'"
    "intent_members s i = intent_members s' i'" "intent_inputs s i = intent_inputs s' i'"
  using assms
  by (simp_all add: intent_json_def comp_def payload_lists_eq[unfolded comp_def]
      canon_policy_payload_eq canon_binding_payload_eq canon_work_unit_payload_eq)

section \<open>What a fingerprint ignores\<close>

lemma ancestors_local:
  assumes "\<And>u. wu_work_unit_id u \<in> ancestors us i \<Longrightarrow> u \<in> set us' \<longleftrightarrow> u \<in> set us"
  shows "ancestors us' i = ancestors us i"
proof
  have i: "i \<in> ancestors us i" "i \<in> ancestors us' i" by (simp_all add: ancestors_def)
  have "dep_closed us' (ancestors us i)"
    using dep_closed_ancestors[of us i] assms unfolding dep_closed_def by blast
  then show sub: "ancestors us' i \<subseteq> ancestors us i" using i(1) by (rule ancestors_least)
  have "dep_closed us (ancestors us' i)"
    using dep_closed_ancestors[of us' i] assms sub unfolding dep_closed_def by blast
  then show "ancestors us i \<subseteq> ancestors us' i" using i(2) by (rule ancestors_least)
qed

lemma sorted_key_list_unique:
  assumes "set xs = set ys" and "distinct (map f xs)" and "distinct (map f ys)"
    and "sorted (map f xs)" and "sorted (map f ys)"
  shows "xs = ys"
  using sort_key_set_unique[OF assms(1-3)] assms(4,5) by (simp add: sort_key_id_if_sorted)

lemma intent_members_local:
  assumes "wf_spec s" and "wf_spec s'"
    and agree: "\<And>u. wu_work_unit_id u \<in> ancestors (ps_work_units s) i \<Longrightarrow>
      u \<in> set (ps_work_units s') \<longleftrightarrow> u \<in> set (ps_work_units s)"
  shows "intent_members s' i = intent_members s i"
proof (rule sorted_key_list_unique[where f = wu_work_unit_id])
  show "set (intent_members s' i) = set (intent_members s i)"
    using agree ancestors_local[OF agree] by (auto simp: intent_members_def)
qed (use assms(1,2) in \<open>auto simp: intent_members_def wf_spec_def wf_graph_def sorted_filter distinct_map_filter\<close>)

lemma intent_inputs_local:
  assumes "wf_spec s" and "wf_spec s'" and mem: "intent_members s' i = intent_members s i"
    and agree: "\<And>b u. u \<in> set (intent_members s i) \<Longrightarrow> ib_name b |\<in>| wu_required_inputs u \<Longrightarrow>
      b \<in> set (ps_initial_inputs s') \<longleftrightarrow> b \<in> set (ps_initial_inputs s)"
  shows "intent_inputs s' i = intent_inputs s i"
proof (rule sorted_key_list_unique[where f = ib_name])
  show "set (intent_inputs s' i) = set (intent_inputs s i)"
    using agree mem by (auto simp: intent_inputs_def)
qed (use assms(1,2) in \<open>auto simp: intent_inputs_def wf_spec_def wf_bindings_def sorted_filter distinct_map_filter\<close>)

section \<open>Properties\<close>

text \<open>
  The canonical encoding that \<open>ProgramSpec.digest\<close> hashes determines the whole specification: two
  specifications with the same encoding are equal, so equal digests of different specifications are
  collisions of the hash function itself.
\<close>

theorem spec_encoding_injective: "dumps (spec_payload s) = dumps (spec_payload s') \<longleftrightarrow> s = s'"
  by (simp add: dumps_eq_iff canon_spec_payload_eq)

text \<open>
  \<open>work_unit_applicability_fingerprint\<close> is local: a specification that agrees on the program identity,
  objective, acceptance criteria and policies, on the unit with its transitive predecessors and on the
  initial inputs those consume gives the unit the same fingerprint, whatever else changed (other units,
  budget, authority, revision).
\<close>

theorem fingerprint_local:
  assumes "wf_spec s" and "wf_spec s'" and "i \<in> set (unit_ids (ps_work_units s))"
    and "ps_program_id s' = ps_program_id s" and "ps_objective s' = ps_objective s"
    and "ps_acceptance_criteria s' = ps_acceptance_criteria s"
    and "ps_policy_references s' = ps_policy_references s"
    and agree: "\<And>u. wu_work_unit_id u \<in> ancestors (ps_work_units s) i \<Longrightarrow>
      u \<in> set (ps_work_units s') \<longleftrightarrow> u \<in> set (ps_work_units s)"
    and inputs: "\<And>b u. u \<in> set (intent_members s i) \<Longrightarrow> ib_name b |\<in>| wu_required_inputs u \<Longrightarrow>
      b \<in> set (ps_initial_inputs s') \<longleftrightarrow> b \<in> set (ps_initial_inputs s)"
  shows "fingerprint H s' i = fingerprint H s i"
proof -
  have mem: "intent_members s' i = intent_members s i"
    using assms(1,2) agree by (rule intent_members_local)
  have "intent_inputs s' i = intent_inputs s i"
    using assms(1,2) mem inputs by (rule intent_inputs_local)
  with mem assms(4-7) have "intent_json s' i = intent_json s i" by (simp add: intent_json_def)
  moreover have "i \<in> set (unit_ids (ps_work_units s'))"
  proof -
    obtain u where u: "u \<in> set (ps_work_units s)" "wu_work_unit_id u = i" using assms(3) by auto
    then have "u \<in> set (ps_work_units s')" using agree[of u] by (simp add: ancestors_def)
    with u show ?thesis by auto
  qed
  ultimately show ?thesis using assms(1-3) by (simp add: fingerprint_eq)
qed

text \<open>
  A fingerprint pins the intent: when two fingerprints agree and the hash does not collide on the two
  encoded intents, program identity, objective, criteria, policies, the covered units and the consumed
  initial inputs are the same.
\<close>

theorem fingerprint_pins_intent:
  assumes "wf_spec s" and "wf_spec s'" and "fingerprint H s i = Inr f" and "fingerprint H s' i' = Inr f"
    and "inj_on H {dumps (intent_json s i), dumps (intent_json s' i')}"
  shows "ps_program_id s = ps_program_id s' \<and> ps_objective s = ps_objective s'
    \<and> ps_acceptance_criteria s = ps_acceptance_criteria s' \<and> ps_policy_references s = ps_policy_references s'
    \<and> intent_members s i = intent_members s' i' \<and> intent_inputs s i = intent_inputs s' i'"
proof -
  have "H (dumps (intent_json s i)) = H (dumps (intent_json s' i'))"
    using assms(1-4) by (auto simp: fingerprint_Inr_iff json_digest_def)
  then have "dumps (intent_json s i) = dumps (intent_json s' i')"
    by (rule inj_onD[OF assms(5)]) simp_all
  then have "canon (intent_json s i) = canon (intent_json s' i')" by (simp only: dumps_eq_iff)
  from canon_intent_json_eqD[OF this] show ?thesis by simp
qed

end
