(* ===== verification/Domain_Demo.thy ===== *)
theory Domain_Demo
  imports Domain_Effects Spec_Digests
begin

text \<open>
  A small program on which the properties of the aggregate are evaluated: two units, \<open>b\<close> after \<open>a\<close>, an
  owner, one delegated worker and one trusted verifier. Every digest is the constant \<open>d\<close>; none of the
  properties evaluated here needs more of the hash function than that a digest is not blank.
\<close>

definition demo_hash :: hash where
  "demo_hash s = ''d''"

definition demo_policy :: policy_reference where
  "demo_policy = \<lparr>pr_policy_id = ''p'', pr_version = ''1'', pr_digest = ''d''\<rparr>"

definition demo_input :: input_binding where
  "demo_input = \<lparr>ib_name = ''in'', ib_reference = ''r'', ib_source_kind = ''initial'',
     ib_source_work_unit_id = None, ib_satisfaction_id = None, ib_output_name = None\<rparr>"

definition demo_output :: input_binding where
  "demo_output = demo_input\<lparr>ib_name := ''x''\<rparr>"

definition unit_a :: work_unit where
  "unit_a = \<lparr>wu_work_unit_id = ''a'', wu_obligation = ''o'', wu_dependencies = [],
     wu_required_inputs = {|''in''|}, wu_outputs = {|''x''|}, wu_acceptance_criteria = [''c''],
     wu_acceptance_policy_reference = None\<rparr>"

definition unit_b :: work_unit where
  "unit_b = \<lparr>wu_work_unit_id = ''b'', wu_obligation = ''o'', wu_dependencies = [''a''],
     wu_required_inputs = {|''x''|}, wu_outputs = {||}, wu_acceptance_criteria = [''c''],
     wu_acceptance_policy_reference = None\<rparr>"

definition demo_authority :: authority_envelope where
  "demo_authority = \<lparr>ae_owner_id = ''owner'', ae_allowed_actions = all_actions, ae_max_attempts = 3,
     ae_trusted_satisfaction_issuers = {|''owner'', ''verifier''|}, ae_delegated_actor_ids = {|''worker''|}\<rparr>"

definition demo_spec :: program_spec where
  "demo_spec = \<lparr>ps_program_id = ''P'', ps_objective = ''o'', ps_work_units = [unit_a, unit_b],
     ps_initial_inputs = [demo_input], ps_budget = default_budget, ps_authority = demo_authority,
     ps_revision = 1, ps_parent_digest = None, ps_acceptance_criteria = [''c''],
     ps_policy_references = [demo_policy]\<rparr>"

definition demo_attempt :: attempt_spec where
  "demo_attempt = \<lparr>as_attempt_id = ''a1'', as_program_id = ''P'', as_work_unit_id = ''a'', as_spec_revision = 1,
     as_spec_digest = ''d'', as_effective_inputs = [demo_input], as_allocation_reference = None,
     as_agent_definition_reference = None, as_workspace_reference = Some ''k'', as_context_reference = None,
     as_remediation_of = None\<rparr>"

definition demo_satisfaction :: trusted_satisfaction where
  "demo_satisfaction = \<lparr>ts_reference_id = ''s1'', ts_program_id = ''P'', ts_work_unit_id = ''a'', ts_spec_revision = 1,
     ts_spec_digest = ''d'', ts_work_unit_fingerprint = ''d'', ts_issuer_id = ''verifier'',
     ts_source_attempt_id = ''a1'', ts_output_bindings = [demo_output], ts_record_order = 0\<rparr>"

text \<open>The states of the program along the run activate, prepare, start, finish, satisfy.\<close>

definition demo_0 :: program where
  "demo_0 = \<lparr>pg_spec = demo_spec, pg_status = ProgramDraft, pg_revision = 0,
     pg_states = [unit_state ''a'' UnitPending None None, unit_state ''b'' UnitPending None None],
     pg_attempts = [], pg_satisfactions = [], pg_cancellations = [], pg_attempt_cancellations = [],
     pg_conclusions = [], pg_spec_history = [demo_spec]\<rparr>"

definition demo_1 :: program where
  "demo_1 = demo_0\<lparr>pg_status := ProgramActive, pg_revision := 1,
     pg_states := [unit_state ''a'' UnitReady None None, unit_state ''b'' UnitPending None None]\<rparr>"

definition demo_2 :: program where
  "demo_2 = demo_1\<lparr>pg_revision := 2,
     pg_states := [unit_state ''a'' UnitActive (Some ''a1'') None, unit_state ''b'' UnitPending None None],
     pg_attempts := [\<lparr>at_spec = demo_attempt, at_status = AttemptPrepared, at_actor_id = ''worker''\<rparr>]\<rparr>"

definition demo_3 :: program where
  "demo_3 = demo_2\<lparr>pg_revision := 3,
     pg_attempts := [\<lparr>at_spec = demo_attempt, at_status = AttemptExecuting, at_actor_id = ''worker''\<rparr>]\<rparr>"

definition demo_4 :: program where
  "demo_4 = demo_1\<lparr>pg_revision := 4,
     pg_attempts := [\<lparr>at_spec = demo_attempt, at_status = AttemptFinished, at_actor_id = ''worker''\<rparr>]\<rparr>"

definition demo_5 :: program where
  "demo_5 = demo_4\<lparr>pg_revision := 5,
     pg_states := [unit_state ''a'' UnitSatisfied None (Some ''s1''), unit_state ''b'' UnitReady None None],
     pg_satisfactions := [demo_satisfaction\<lparr>ts_record_order := 5\<rparr>]\<rparr>"

lemma demo_digest: "digest_like demo_hash"
  by (simp add: digest_like_def demo_hash_def nonblank_def isspace_def)

lemma demo_spec_made: "mk_ProgramSpec ''P'' ''o'' [unit_a, unit_b] [demo_input] default_budget demo_authority 1 None
    [''c''] [demo_policy] = Inr demo_spec"
  by code_simp

lemma demo_spec_wf: "wf_spec demo_spec"
proof (rule mk_ProgramSpec_wf[OF demo_spec_made])
  have "mk_WorkUnit ''a'' ''o'' [] {|''in''|} {|''x''|} [''c''] None = Inr unit_a"
      "mk_WorkUnit ''b'' ''o'' [''a''] {|''x''|} {||} [''c''] None = Inr unit_b" by code_simp+
  from this[THEN mk_WorkUnit_wf] show "list_all wf_work_unit [unit_a, unit_b]" by simp
  show "list_all wf_binding [demo_input]"
    by (simp add: wf_binding_def demo_input_def nonblank_def isspace_def)
  show "wf_budget default_budget" by (rule wf_budget_default)
  show "wf_authority demo_authority" by code_simp
  show "list_all wf_policy [demo_policy]" by code_simp
qed

lemma demo_create: "create demo_spec = Inr demo_0"
  by code_simp

lemma demo_step_1: "apply_command demo_hash demo_0 (ActivateProgram 0 ''owner'') = Inr demo_1"
  by code_simp

lemma demo_step_2: "apply_command demo_hash demo_1 (PrepareAttempt 1 ''worker'' demo_attempt) = Inr demo_2"
  by code_simp

lemma demo_step_3: "apply_command demo_hash demo_2 (StartAttempt 2 ''worker'' ''a1'') = Inr demo_3"
  by code_simp

lemma demo_step_4: "apply_command demo_hash demo_3 (FinishAttempt 3 ''worker'' ''a1'') = Inr demo_4"
  by code_simp

lemma demo_step_5: "apply_command demo_hash demo_4 (SatisfyWorkUnit 4 ''verifier'' demo_satisfaction) = Inr demo_5"
  by code_simp

lemma demo_binding_wf: "wf_binding demo_input" "wf_binding demo_output"
  by (simp_all add: wf_binding_def demo_input_def demo_output_def nonblank_def isspace_def)

lemma demo_attempt_wf: "wf_attempt_spec demo_attempt"
  using demo_binding_wf
  by (simp add: wf_attempt_spec_def demo_attempt_def wf_bindings_def nonblank_def isspace_def)

lemma demo_satisfaction_wf: "wf_satisfaction demo_satisfaction"
  using demo_binding_wf
  by (simp add: wf_satisfaction_def demo_satisfaction_def wf_bindings_def nonblank_def isspace_def demo_output_def demo_input_def)

lemma demo_commands_wf:
  "wf_command (ActivateProgram 0 ''owner'')" "wf_command (PrepareAttempt 1 ''worker'' demo_attempt)"
  "wf_command (StartAttempt 2 ''worker'' ''a1'')" "wf_command (FinishAttempt 3 ''worker'' ''a1'')"
  "wf_command (SatisfyWorkUnit 4 ''verifier'' demo_satisfaction)"
  using demo_attempt_wf demo_satisfaction_wf
  by (simp_all add: wf_command_def command_ok_def revision_ok_def nonblank_def isspace_def)

lemma demo_reaches:
  "reaches (apply_command demo_hash) wf_command demo_0 demo_1"
  "reaches (apply_command demo_hash) wf_command demo_1 demo_2"
  "reaches (apply_command demo_hash) wf_command demo_2 demo_3"
  "reaches (apply_command demo_hash) wf_command demo_3 demo_4"
  "reaches (apply_command demo_hash) wf_command demo_4 demo_5"
  by (rule reaches_single, rule demo_step_1, rule demo_commands_wf)
    (rule reaches_single, rule demo_step_2, rule demo_commands_wf,
     rule reaches_single, rule demo_step_3, rule demo_commands_wf,
     rule reaches_single, rule demo_step_4, rule demo_commands_wf,
     rule reaches_single, rule demo_step_5, rule demo_commands_wf)

lemma demo_reachable:
  "reachable demo_hash demo_spec demo_1" "reachable demo_hash demo_spec demo_2" "reachable demo_hash demo_spec demo_3"
  "reachable demo_hash demo_spec demo_4" "reachable demo_hash demo_spec demo_5"
  using demo_create demo_reaches reaches_trans[of "apply_command demo_hash" wf_command] by blast+

section \<open>Side branches of the run\<close>

definition demo_withdrawal :: "string \<Rightarrow> attempt_cancellation" where
  "demo_withdrawal reason = \<lparr>ac_attempt_id = ''a1'', ac_actor_id = ''owner'', ac_reason = reason, ac_record_order = 3\<rparr>"

definition demo_abandoned :: program where
  "demo_abandoned = demo_2\<lparr>pg_revision := 3, pg_status := ProgramCancelled,
     pg_states := [unit_state ''a'' UnitReady None None, unit_state ''b'' UnitPending None None],
     pg_attempts := [\<lparr>at_spec = demo_attempt, at_status = AttemptCancelled, at_actor_id = ''worker''\<rparr>],
     pg_attempt_cancellations := [demo_withdrawal ''Program abandonment''],
     pg_conclusions := [\<lparr>pc_status = ProgramCancelled, pc_spec_revision = 1, pc_spec_digest = ''d'', pc_record_order = 3\<rparr>]\<rparr>"

definition demo_unit_abandoned :: program where
  "demo_unit_abandoned = demo_2\<lparr>pg_revision := 3,
     pg_states := [unit_state ''a'' UnitCancelled None None, unit_state ''b'' UnitCancelled None None],
     pg_attempts := [\<lparr>at_spec = demo_attempt, at_status = AttemptCancelled, at_actor_id = ''worker''\<rparr>],
     pg_attempt_cancellations := [demo_withdrawal ''WorkUnit abandonment''],
     pg_cancellations := [\<lparr>wc_work_unit_id = ''a'', wc_work_unit_fingerprint = ''d'', wc_spec_revision = 1,
       wc_spec_digest = ''d'', wc_actor_id = ''owner'', wc_reason = ''why'', wc_record_order = 3\<rparr>]\<rparr>"

definition demo_budget :: budget_policy where
  "demo_budget = \<lparr>bp_max_attempts = 5, bp_max_active_attempts = 2\<rparr>"

definition demo_amendment :: spec_amendment where
  "demo_amendment = \<lparr>sa_expected_revision = 1, sa_objective = None, sa_work_units = None, sa_initial_inputs = None,
     sa_budget = Some demo_budget, sa_authority = None, sa_reason = ''more'',
     sa_acceptance_criteria = None, sa_policy_references = None\<rparr>"

definition demo_spec_2 :: program_spec where
  "demo_spec_2 = demo_spec\<lparr>ps_budget := demo_budget, ps_revision := 2, ps_parent_digest := Some ''d''\<rparr>"

definition demo_amended :: program where
  "demo_amended = demo_2\<lparr>pg_revision := 3, pg_spec := demo_spec_2, pg_spec_history := [demo_spec, demo_spec_2]\<rparr>"

definition demo_bad_amendment :: spec_amendment where
  "demo_bad_amendment = demo_amendment\<lparr>sa_policy_references := Some []\<rparr>"

lemma demo_abandon: "apply_command demo_hash demo_2 (CancelProgram 2 ''owner'') = Inr demo_abandoned"
  by code_simp

lemma demo_abandon_unit:
  "apply_command demo_hash demo_2 (CancelWorkUnit 2 ''owner'' ''a'' ''why'') = Inr demo_unit_abandoned"
  by code_simp

lemma demo_amend: "apply_command demo_hash demo_2 (AmendProgramSpec 2 ''owner'' demo_amendment) = Inr demo_amended"
  by code_simp

lemma demo_bad_amend:
  "apply_command demo_hash demo_1 (AmendProgramSpec 1 ''owner'' demo_bad_amendment) = Inl InvalidDomainValue"
  by code_simp

lemma demo_owner_commands:
  "isl (apply_command demo_hash demo_4 (SatisfyWorkUnit 4 ''owner'' (demo_satisfaction\<lparr>ts_issuer_id := ''owner''\<rparr>))) = False"
  "isl (apply_command demo_hash demo_4 (PauseProgram 4 ''owner'')) = False"
  by code_simp+

lemma demo_amendment_wf: "wf_amendment demo_amendment" "wf_amendment demo_bad_amendment"
  by (simp_all add: wf_amendment_def demo_amendment_def demo_bad_amendment_def wf_budget_def demo_budget_def)

lemma demo_side_wf:
  "wf_command (CancelProgram 2 ''owner'')" "wf_command (CancelWorkUnit 2 ''owner'' ''a'' ''why'')"
  "wf_command (AmendProgramSpec 2 ''owner'' demo_amendment)" "wf_command (AmendProgramSpec 1 ''owner'' demo_bad_amendment)"
  using demo_amendment_wf
  by (simp_all add: wf_command_def command_ok_def revision_ok_def nonblank_def isspace_def)

lemma demo_side_reaches:
  "reaches (apply_command demo_hash) wf_command demo_2 demo_abandoned"
  "reaches (apply_command demo_hash) wf_command demo_2 demo_unit_abandoned"
  "reaches (apply_command demo_hash) wf_command demo_2 demo_amended"
  by (rule reaches_single, rule demo_abandon, rule demo_side_wf)
    (rule reaches_single, rule demo_abandon_unit, rule demo_side_wf,
     rule reaches_single, rule demo_amend, rule demo_side_wf)

lemma demo_side_reachable:
  "reachable demo_hash demo_spec demo_abandoned" "reachable demo_hash demo_spec demo_unit_abandoned"
  "reachable demo_hash demo_spec demo_amended"
  using demo_reachable(2) demo_side_reaches reaches_trans[of "apply_command demo_hash" wf_command] by blast+

lemma demo_ancestor: "''a'' \<in> ancestors (ps_work_units demo_spec) ''b''"
  using ancestors_unfold[OF wf_specD(2)[OF demo_spec_wf], of unit_b]
  by (simp add: demo_spec_def unit_b_def) (simp add: ancestors_def)

text \<open>The specification without unit \<open>b\<close>.\<close>

definition demo_spec_a :: program_spec where
  "demo_spec_a = demo_spec\<lparr>ps_work_units := [unit_a]\<rparr>"

lemma demo_spec_a_wf: "wf_spec demo_spec_a"
proof (rule mk_ProgramSpec_wf)
  show "mk_ProgramSpec ''P'' ''o'' [unit_a] [demo_input] default_budget demo_authority 1 None [''c''] [demo_policy] = Inr demo_spec_a"
    by code_simp
  show "list_all wf_work_unit [unit_a]" using wf_specD(3)[OF demo_spec_wf, of unit_a] by (simp add: demo_spec_def)
  show "list_all wf_binding [demo_input]" using demo_binding_wf by simp
  show "wf_budget default_budget" by (rule wf_budget_default)
  show "wf_authority demo_authority" using demo_spec_wf by (simp add: wf_spec_def demo_spec_def)
  show "list_all wf_policy [demo_policy]" by code_simp
qed

lemma demo_ancestors_a: "ancestors (ps_work_units demo_spec) ''a'' = {''a''}"
  using ancestors_unfold[OF wf_specD(2)[OF demo_spec_wf], of unit_a] by (simp add: demo_spec_def unit_a_def)

end
