(* ===== verification/Domain_Witnesses.thy ===== *)
theory Domain_Witnesses
  imports Domain_Demo
begin

text \<open>
  Each property of the aggregate applied to the small program of \<open>Domain_Demo\<close>, with its hypotheses
  discharged there.
\<close>

lemmas demo_base = demo_digest demo_spec_wf

lemmas demo_defs = demo_0_def demo_1_def demo_2_def demo_3_def demo_4_def demo_5_def demo_abandoned_def
  demo_unit_abandoned_def demo_amended_def

lemma demo_units [simp]:
  "ps_work_units demo_spec = [unit_a, unit_b]" "ps_work_units demo_spec_2 = [unit_a, unit_b]"
  "wu_work_unit_id unit_a = ''a''" "wu_work_unit_id unit_b = ''b''"
  by (simp_all add: demo_spec_def demo_spec_2_def unit_a_def unit_b_def)

lemma demo_specs [simp]:
  "pg_spec demo_1 = demo_spec" "pg_spec demo_2 = demo_spec" "pg_spec demo_4 = demo_spec" "pg_spec demo_5 = demo_spec"
  by (simp_all add: demo_defs)

lemma by_unit_states [simp]:
  "by_unit [unit_state ''a'' s x y, unit_state ''b'' s' x' y'] ''a'' = Some (unit_state ''a'' s x y)"
  "by_unit [unit_state ''a'' s x y, unit_state ''b'' s' x' y'] ''b'' = Some (unit_state ''b'' s' x' y')"
  by (simp_all add: dict_from_def)


theorem apply_raises_no_internal_error_witness:
  "\<exists>r actor am. AmendProgramSpec 1 ''owner'' demo_bad_amendment = AmendProgramSpec r actor am
     \<and> amend demo_hash (pg_spec demo_1) am = Inl InvalidDomainValue"
  using apply_raises_no_internal_error[OF demo_base demo_reachable(1) demo_side_wf(4) demo_bad_amend] by blast

theorem concurrent_command_is_stale_witness:
  "apply_command demo_hash demo_2 (PauseProgram 1 ''owner'') = Inl StaleRevision"
proof -
  have "demo_2 \<noteq> demo_1" by (simp add: demo_defs)
  then show ?thesis
    using concurrent_command_is_stale[OF demo_base demo_reachable(1) demo_commands_wf(2) demo_step_2] by simp
qed

theorem histories_only_grow_witness:
  "at_spec (pg_attempts demo_4 ! 0) = at_spec (pg_attempts demo_2 ! 0)
   \<and> status_le (at_status (pg_attempts demo_2 ! 0)) (at_status (pg_attempts demo_4 ! 0))"
proof -
  have "reaches (apply_command demo_hash) wf_command demo_2 demo_4"
    by (rule reaches_trans[OF demo_reaches(3,4)])
  moreover have "0 < length (pg_attempts demo_2)" by (simp add: demo_defs)
  ultimately show ?thesis using histories_only_grow[OF demo_base demo_reachable(2)] by blast
qed

theorem attempt_lifecycle_witness:
  "status_step (at_status (pg_attempts demo_2 ! 0)) (at_status (pg_attempts demo_3 ! 0))"
  by (rule attempt_lifecycle[OF demo_base demo_reachable(2) demo_commands_wf(3) demo_step_3]) (simp add: demo_defs)

theorem cancelled_attempts_recorded_once_witness:
  "ac_attempt_id ` set (pg_attempt_cancellations demo_abandoned)
     = at_id ` {a \<in> set (pg_attempts demo_abandoned). at_status a = AttemptCancelled}"
  using cancelled_attempts_recorded_once[OF demo_base demo_side_reachable(1)] by blast

theorem specification_chain_witness:
  "last (pg_spec_history demo_amended) = pg_spec demo_amended
   \<and> ps_parent_digest (pg_spec_history demo_amended ! 1) = Some (spec_digest demo_hash (pg_spec_history demo_amended ! 0))"
proof -
  have "Suc 0 < length (pg_spec_history demo_amended)" by (simp add: demo_defs)
  then show ?thesis using specification_chain[OF demo_base demo_side_reachable(3)] by simp
qed

theorem live_attempts_exclusive_witness:
  "status_of (pg_states demo_2) ''a'' \<noteq> UnitCancelled \<and> pg_status demo_2 \<notin> {ProgramDraft, ProgramCancelled}"
proof -
  let ?a = "\<lparr>at_spec = demo_attempt, at_status = AttemptPrepared, at_actor_id = ''worker''\<rparr>"
  have a: "?a \<in> set (pg_attempts demo_2)" "live ?a" "at_unit ?a = ''a''" by (simp_all add: demo_defs live_def demo_attempt_def)
  from live_attempts_exclusive[OF demo_base demo_reachable(2) a(1,2)]
  have "status_of (pg_states demo_2) (at_unit ?a) \<noteq> UnitCancelled \<and> pg_status demo_2 \<notin> {ProgramDraft, ProgramCancelled}" by blast
  then show ?thesis unfolding a(3) .
qed

theorem cancelled_program_is_final_witness: "\<exists>e. apply_command demo_hash demo_abandoned (CancelProgram 2 ''owner'') = Inl e"
  by (rule cancelled_program_is_final[OF demo_base demo_side_reachable(1) demo_side_wf(1)]) (simp add: demo_defs)

theorem completed_iff_all_satisfied_witness:
  "pg_status demo_5 = ProgramCompleted \<longleftrightarrow>
    (\<forall>u \<in> set (ps_work_units (pg_spec demo_5)). status_of (pg_states demo_5) (wu_work_unit_id u) = UnitSatisfied)"
  by (rule completed_iff_all_satisfied[OF demo_base demo_reachable(5)]) (simp add: demo_defs)

theorem prepare_admits_within_budget_witness:
  "program_state demo_2 ''a'' = Inr (unit_state ''a'' UnitActive (Some ''a1'') None)"
  using prepare_admits_within_budget[OF demo_base demo_reachable(1) demo_commands_wf(2) demo_step_2]
  by (simp add: demo_attempt_def)

theorem prepare_accepts_witness: "\<exists>p'. apply_command demo_hash demo_1 (PrepareAttempt (pg_revision demo_1) ''worker'' demo_attempt) = Inr p'"
proof (rule prepare_accepts[OF demo_base demo_reachable(1) demo_attempt_wf])
  show "program_resolved_inputs demo_1 (as_work_unit_id demo_attempt) = Inr (as_effective_inputs demo_attempt)"
    by code_simp
  show "as_work_unit_id demo_attempt \<in> set (ready_work_unit_ids demo_1)"
    by (simp add: ready_work_unit_ids_def demo_defs demo_attempt_def)
qed (simp_all add: demo_defs demo_attempt_def demo_spec_def demo_authority_def default_budget_def all_actions_def
    nonblank_def isspace_def spec_digest_def json_digest_def demo_hash_def)

theorem ready_units_have_inputs_witness:
  "\<exists>ins. program_resolved_inputs demo_1 ''a'' = Inr ins \<and> map ib_name ins = sorted_list_of_fset (wu_required_inputs unit_a)"
proof -
  have "unit_a \<in> set (ps_work_units (pg_spec demo_1))" "wu_work_unit_id unit_a \<in> set (ready_work_unit_ids demo_1)"
    by (simp_all add: ready_work_unit_ids_def demo_defs)
  then show ?thesis using ready_units_have_inputs[OF demo_base demo_reachable(1)] by fastforce
qed

theorem satisfaction_takes_effect_witness:
  "program_state demo_5 ''a'' = Inr (unit_state ''a'' UnitSatisfied None (Some ''s1''))"
proof -
  let ?t = demo_satisfaction and ?a = "\<lparr>at_spec = demo_attempt, at_status = AttemptFinished, at_actor_id = ''worker''\<rparr>"
  have "spec_work_unit (pg_spec demo_4) (ts_work_unit_id ?t) = Inr unit_a"
    by (simp add: demo_satisfaction_def spec_work_unit_def)
  moreover have "fingerprint demo_hash (pg_spec demo_4) (ts_work_unit_id ?t) = Inr (ts_work_unit_fingerprint ?t)"
    using fingerprint_eq[OF demo_spec_wf, of "''a''" demo_hash] by (simp add: demo_satisfaction_def json_digest_def demo_hash_def)
  moreover have "wu_outputs unit_a = fset_of_list (map ib_name (ts_output_bindings ?t))"
    by (simp add: unit_a_def demo_satisfaction_def demo_output_def)
  moreover have "program_resolved_inputs demo_4 (ts_work_unit_id ?t) = Inr [demo_input]" by code_simp
  moreover have "program_attempt demo_4 (ts_source_attempt_id ?t) = Inr ?a"
    by (simp add: program_attempt_def demo_defs demo_satisfaction_def demo_attempt_def)
  moreover have "same_subject (as_effective_inputs (at_spec ?a)) [demo_input]" by (simp add: same_subject_def demo_attempt_def)
  moreover have "program_state demo_4 (ts_work_unit_id ?t) = Inr (unit_state ''a'' UnitReady None None)"
    by (simp add: program_state_def demo_defs demo_satisfaction_def)
  ultimately have "program_state demo_5 (ts_work_unit_id ?t)
      = Inr (unit_state (ts_work_unit_id ?t) UnitSatisfied None (Some (ts_reference_id ?t)))"
    by (rule satisfaction_takes_effect[OF demo_base demo_reachable(4) demo_commands_wf(5) demo_step_5]) simp
  then show ?thesis by (simp add: demo_satisfaction_def)
qed

lemma demo_5_satisfied: "status_of (pg_states demo_5) ''a'' = UnitSatisfied" "status_of (pg_states demo_5) ''b'' = UnitReady"
  by (simp_all add: demo_defs)

theorem satisfied_units_are_justified_witness:
  "\<exists>t \<in> set (pg_satisfactions demo_5). \<exists>a \<in> set (pg_attempts demo_5).
     at_id a = ts_source_attempt_id t \<and> at_status a = AttemptFinished \<and> at_unit a = ''a''"
proof -
  have "pg_status demo_5 \<noteq> ProgramDraft" "unit_a \<in> set (ps_work_units (pg_spec demo_5))"
      "status_of (pg_states demo_5) (wu_work_unit_id unit_a) = UnitSatisfied"
    using demo_5_satisfied by (simp_all add: demo_defs)
  from satisfied_units_are_justified[OF demo_base demo_reachable(5) this] show ?thesis by (simp only: demo_units) blast
qed

theorem runnable_units_have_satisfied_predecessors_witness: "status_of (pg_states demo_5) ''a'' = UnitSatisfied"
proof (rule runnable_units_have_satisfied_predecessors[OF demo_base demo_reachable(5)])
  show "''a'' \<in> ancestors (ps_work_units (pg_spec demo_5)) (wu_work_unit_id unit_b)" using demo_ancestor by simp
  show "status_of (pg_states demo_5) (wu_work_unit_id unit_b) \<in> {UnitReady, UnitActive, UnitSatisfied}"
    using demo_5_satisfied by simp
qed (simp_all add: demo_defs)

theorem abandoning_a_unit_witness: "status_of (pg_states demo_unit_abandoned) ''b'' = UnitCancelled"
proof -
  from abandoning_a_unit[OF demo_base demo_reachable(2) demo_side_wf(2) demo_abandon_unit]
  have "\<forall>u \<in> set (ps_work_units (pg_spec demo_2)). status_of (pg_states demo_unit_abandoned) (wu_work_unit_id u) = UnitCancelled \<longleftrightarrow>
      status_of (pg_states demo_2) (wu_work_unit_id u) = UnitCancelled \<or> ''a'' \<in> ancestors (ps_work_units (pg_spec demo_2)) (wu_work_unit_id u)"
    by blast
  then show ?thesis using demo_ancestor by simp
qed

theorem amendment_keeps_only_valid_attempts_witness:
  "\<exists>ins. program_resolved_inputs demo_amended ''a'' = Inr ins \<and> same_subject (as_effective_inputs demo_attempt) ins"
proof -
  let ?a = "\<lparr>at_spec = demo_attempt, at_status = AttemptPrepared, at_actor_id = ''worker''\<rparr>"
  have "demo_amended \<noteq> demo_2" "?a \<in> set (pg_attempts demo_amended)" "live ?a" by (simp_all add: demo_defs live_def)
  from amendment_keeps_only_valid_attempts[OF demo_base demo_reachable(2) demo_side_wf(3) demo_amend this]
  show ?thesis by (simp add: demo_attempt_def)
qed

theorem separation_of_duties_witness: "''owner'' = ae_owner_id (ps_authority (pg_spec demo_4))"
proof -
  obtain p' where p': "apply_command demo_hash demo_4 (SatisfyWorkUnit 4 ''owner'' (demo_satisfaction\<lparr>ts_issuer_id := ''owner''\<rparr>)) = Inr p'"
    using demo_owner_commands(1) by (auto simp: isl_def) (meson sum.exhaust)
  obtain p'' where p'': "apply_command demo_hash demo_4 (PauseProgram 4 ''owner'') = Inr p''"
    using demo_owner_commands(2) by (auto simp: isl_def) (meson sum.exhaust)
  show ?thesis by (rule separation_of_duties[OF demo_base demo_reachable(4) p' p'']) simp_all
qed

section \<open>Fingerprints\<close>

lemma demo_spec_a_agrees:
  assumes "wu_work_unit_id u \<in> ancestors (ps_work_units demo_spec) ''a''"
  shows "u \<in> set (ps_work_units demo_spec_a) \<longleftrightarrow> u \<in> set (ps_work_units demo_spec)"
proof -
  have "wu_work_unit_id u = ''a''" using assms unfolding demo_ancestors_a by (rule singletonD)
  then have "u \<noteq> unit_b" by auto
  then show ?thesis by (simp add: demo_spec_a_def)
qed

theorem fingerprint_local_witness: "fingerprint demo_hash demo_spec_a ''a'' = fingerprint demo_hash demo_spec ''a''"
proof (rule fingerprint_local[OF demo_spec_wf demo_spec_a_wf])
  show "u \<in> set (ps_work_units demo_spec_a) \<longleftrightarrow> u \<in> set (ps_work_units demo_spec)"
    if "wu_work_unit_id u \<in> ancestors (ps_work_units demo_spec) ''a''" for u
    using that by (rule demo_spec_a_agrees)
qed (simp_all add: demo_spec_a_def demo_spec_def)

theorem fingerprint_pins_intent_witness: "intent_members demo_spec ''a'' = intent_members demo_spec_a ''a''"
proof -
  have mem: "intent_members demo_spec_a ''a'' = intent_members demo_spec ''a''"
    by (rule intent_members_local[OF demo_spec_wf demo_spec_a_wf demo_spec_a_agrees])
  have json: "intent_json demo_spec_a ''a'' = intent_json demo_spec ''a''"
    using mem by (simp add: intent_json_def intent_inputs_def) (simp add: demo_spec_a_def demo_spec_def)
  have "fingerprint (\<lambda>s. s) demo_spec ''a'' = Inr (dumps (intent_json demo_spec ''a''))"
      "fingerprint (\<lambda>s. s) demo_spec_a ''a'' = Inr (dumps (intent_json demo_spec ''a''))"
    using fingerprint_eq[OF demo_spec_wf, of "''a''" "\<lambda>s. s"] fingerprint_eq[OF demo_spec_a_wf, of "''a''" "\<lambda>s. s"] json
    by (simp_all add: json_digest_def demo_spec_a_def)
  from fingerprint_pins_intent[OF demo_spec_wf demo_spec_a_wf this] show ?thesis by (simp add: inj_on_def)
qed

end
