(* ===== verification/Core_Prelude.thy ===== *)
theory Core_Prelude
  imports Canonical_Json
begin

text \<open>
  Text and JSON helpers shared by the smaller modules under core/ and by the adapters that the
  development models: regular expressions the code writes as a pattern of one character class,
  \<open>str.split\<close> on one character, and typed access to the fields of a decoded JSON object.
\<close>

section \<open>Calls that return a value and a state\<close>

lemma map_sum_snd_eq_Inr [res_simps]: "map_sum id snd m = Inr s \<longleftrightarrow> (\<exists>x. m = Inr (x, s))"
  by (cases m) auto

lemma mapM_list_all:
  assumes "mapM f xs = Inr ys" and "\<And>x y. f x = Inr y \<Longrightarrow> P y"
  shows "list_all P ys"
  using assms(1) by (induction xs arbitrary: ys) (auto simp: res_simps dest: assms(2))

section \<open>Text\<close>

text \<open>\<open>re.fullmatch(r"[0-9a-f]{n}", s)\<close>\<close>

definition hex_digit :: "char \<Rightarrow> bool" where
  "hex_digit c \<longleftrightarrow> c \<in> set ''0123456789abcdef''"

definition hex_text :: "nat \<Rightarrow> string \<Rightarrow> bool" where
  "hex_text n s \<longleftrightarrow> length s = n \<and> list_all hex_digit s"

lemma hex_text_nonblank: "hex_text n s \<Longrightarrow> 0 < n \<Longrightarrow> nonblank s"
  by (cases s) (auto simp: hex_text_def hex_digit_def nonblank_def isspace_def)

text \<open>\<open>s.strip()\<close>\<close>

definition strip :: "string \<Rightarrow> string" where
  "strip s = rev (dropWhile isspace (rev (dropWhile isspace s)))"

text \<open>\<open>s.split(sep)\<close> for a separator of one character: always at least one part.\<close>

fun split_on :: "char \<Rightarrow> string \<Rightarrow> string list" where
  "split_on d [] = [[]]"
| "split_on d (c # s) =
     (if c = d then [] # split_on d s
      else (case split_on d s of [] \<Rightarrow> [[c]] | p # ps \<Rightarrow> (c # p) # ps))"

text \<open>\<open>sep.join(parts)\<close>\<close>

fun join_with :: "char \<Rightarrow> string list \<Rightarrow> string" where
  "join_with d [] = []"
| "join_with d [p] = p"
| "join_with d (p # q # ps) = p @ d # join_with d (q # ps)"

lemma split_on_not_Nil [simp]: "split_on d s \<noteq> []"
  by (cases s) (auto split: list.splits)

lemma split_on_no_sep: "p \<in> set (split_on d s) \<Longrightarrow> d \<notin> set p"
proof (induction s arbitrary: p)
  case (Cons c s)
  then show ?case by (cases "split_on d s") (auto split: if_splits)
qed simp

lemma join_with_Cons: "ps \<noteq> [] \<Longrightarrow> join_with d (p # ps) = p @ d # join_with d ps"
  by (cases ps) auto

lemma join_split [simp]: "join_with d (split_on d s) = s"
proof (induction s)
  case (Cons c s)
  obtain p ps where ps: "split_on d s = p # ps" by (cases "split_on d s") auto
  with Cons show ?case by (cases ps) auto
qed simp

lemma split_on_plain [simp]: "d \<notin> set p \<Longrightarrow> split_on d p = [p]"
  by (induction p) auto

lemma split_on_append_sep: "split_on d (s @ d # t) = split_on d s @ split_on d t"
proof (induction s)
  case (Cons c s)
  then show ?case by (cases "split_on d s") auto
qed simp

lemma split_join:
  assumes "ps \<noteq> []" and "\<forall>p \<in> set ps. d \<notin> set p"
  shows "split_on d (join_with d ps) = ps"
  using assms
proof (induction ps)
  case (Cons p ps)
  then show ?case by (cases "ps = []") (auto simp: join_with_Cons split_on_append_sep)
qed simp

lemma split_on_inj: "split_on d s = split_on d t \<longleftrightarrow> s = t"
  by (metis join_split)

text \<open>A string extends another across a separator exactly when its parts extend the other's.\<close>

lemma strict_extension_split:
  "prefix (t @ [d]) s \<longleftrightarrow> strict_prefix (split_on d t) (split_on d s)"
proof
  assume "prefix (t @ [d]) s"
  then obtain u where "s = t @ d # u" by (auto simp: prefix_def)
  then show "strict_prefix (split_on d t) (split_on d s)"
    by (simp add: split_on_append_sep strict_prefix_def)
next
  assume "strict_prefix (split_on d t) (split_on d s)"
  then obtain q qs where qs: "split_on d s = split_on d t @ q # qs"
    by (auto simp: strict_prefix_def prefix_def neq_Nil_conv)
  have "join_with d (ps @ q # qs) = join_with d ps @ d # join_with d (q # qs)" if "ps \<noteq> []" for ps
    using that
  proof (induction ps)
    case (Cons p ps)
    then show ?case by (cases ps) (auto simp: join_with_Cons)
  qed simp
  from this[of "split_on d t"] have "join_with d (split_on d s) = t @ d # join_with d (q # qs)"
    by (simp add: qs)
  then show "prefix (t @ [d]) s" by (simp add: prefix_def)
qed

section \<open>Fields of a JSON object\<close>

text \<open>The keys of a decoded object, and \<open>type(value) is int\<close> and \<open>type(value) is str\<close> with the value.\<close>

definition json_keys :: "(string \<times> json) list \<Rightarrow> string set" where
  "json_keys kvs = fst ` set kvs"

fun as_int :: "json option \<Rightarrow> int option" where
  "as_int (Some (JInt i)) = Some i"
| "as_int _ = None"

fun as_str :: "json option \<Rightarrow> string option" where
  "as_str (Some (JStr s)) = Some s"
| "as_str _ = None"

lemma as_int_eq_Some: "as_int v = Some i \<longleftrightarrow> v = Some (JInt i)"
  by (cases v rule: as_int.cases) auto

lemma as_str_eq_Some: "as_str v = Some s \<longleftrightarrow> v = Some (JStr s)"
  by (cases v rule: as_str.cases) auto

end
