(* ===== verification/Knowledge.thy ===== *)
theory Knowledge
  imports Core_Prelude
begin

text \<open>
  core/knowledge.py: the retained reference to the evidence behind a decision. A reference is
  \<open>UTILIZED\<close> exactly when it meets the producer's published contract, and \<open>UNSUPPORTED\<close> otherwise; the
  constructor refuses a value whose state contradicts the contract.
\<close>

datatype knowledge_error = KnowledgeValueError

type_synonym 'a kres = "knowledge_error + 'a"

definition utilization_source :: string where
  "utilization_source = ''model_intelligence''"

definition utilization_schema :: string where
  "utilization_schema = ''mi.utilization-working/1''"

definition utilization_identifier_prefix :: string where
  "utilization_identifier_prefix = ''urn:mi:utilization:sha256:''"

text \<open>\<open>[a-z0-9][a-z0-9._:-]{0,63}\<close>\<close>

definition lower_digit :: "char \<Rightarrow> bool" where
  "lower_digit c \<longleftrightarrow> c \<in> set ''abcdefghijklmnopqrstuvwxyz0123456789''"

definition safe_id :: "string \<Rightarrow> bool" where
  "safe_id s = (case s of
     [] \<Rightarrow> False
   | c # cs \<Rightarrow> lower_digit c \<and> length cs \<le> 63 \<and> list_all (\<lambda>d. lower_digit d \<or> d \<in> set ''._:-'') cs)"

datatype knowledge_state = UTILIZED | UNSUPPORTED

fun knowledge_state_value :: "knowledge_state \<Rightarrow> string" where
  "knowledge_state_value UTILIZED = ''utilized''"
| "knowledge_state_value UNSUPPORTED = ''unsupported_version''"

definition parse_knowledge_state :: "string \<Rightarrow> knowledge_state option" where
  "parse_knowledge_state s =
     (if s = ''utilized'' then Some UTILIZED else if s = ''unsupported_version'' then Some UNSUPPORTED else None)"

text \<open>\<open>_bounded\<close> on a decoded value, and on text.\<close>

definition bounded_text :: "nat \<Rightarrow> string \<Rightarrow> bool" where
  "bounded_text maximum s \<longleftrightarrow> nonblank s \<and> length s \<le> maximum"

definition bounded :: "json option \<Rightarrow> nat \<Rightarrow> string kres" where
  "bounded v maximum = (case as_str v of
     None \<Rightarrow> Inl KnowledgeValueError
   | Some s \<Rightarrow> if bounded_text maximum s then Inr s else Inl KnowledgeValueError)"

definition contract :: "string \<Rightarrow> string \<Rightarrow> string \<Rightarrow> bool" where
  "contract source identifier version =
     (let digest = (if prefix utilization_identifier_prefix identifier
        then Some (drop (length utilization_identifier_prefix) identifier) else None)
      in source = utilization_source \<and> version = utilization_schema
        \<and> (case digest of None \<Rightarrow> False | Some d \<Rightarrow> hex_text 64 d))"

record utilized_knowledge =
  uk_state :: knowledge_state
  uk_source :: string
  uk_identifier :: string
  uk_version :: string

definition mk_UtilizedKnowledge ::
  "knowledge_state \<Rightarrow> string \<Rightarrow> string \<Rightarrow> string \<Rightarrow> utilized_knowledge kres" where
  "mk_UtilizedKnowledge state source identifier version =
     rbind (guard (safe_id source) KnowledgeValueError) (\<lambda>_.
     rbind (guard (bounded_text 512 identifier) KnowledgeValueError) (\<lambda>_.
     rbind (guard (bounded_text 128 version) KnowledgeValueError) (\<lambda>_.
     rbind (guard ((state = UTILIZED) = contract source identifier version) KnowledgeValueError) (\<lambda>_.
     Inr \<lparr>uk_state = state, uk_source = source, uk_identifier = identifier, uk_version = version\<rparr>))))"

definition wf_knowledge :: "utilized_knowledge \<Rightarrow> bool" where
  "wf_knowledge k \<longleftrightarrow> mk_UtilizedKnowledge (uk_state k) (uk_source k) (uk_identifier k) (uk_version k) = Inr k"

definition safe_source :: "json option \<Rightarrow> string kres" where
  "safe_source v = (case as_str v of
     None \<Rightarrow> Inl KnowledgeValueError
   | Some s \<Rightarrow> if safe_id s then Inr s else Inl KnowledgeValueError)"

definition from_reference :: "json \<Rightarrow> utilized_knowledge kres" where
  "from_reference document = (case document of
     JObj value \<Rightarrow>
       rbind (guard (json_keys value = {''source'', ''identifier'', ''version''}) KnowledgeValueError) (\<lambda>_.
       rbind (safe_source (map_of value ''source'')) (\<lambda>source.
       rbind (bounded (map_of value ''identifier'') 512) (\<lambda>identifier.
       rbind (bounded (map_of value ''version'') 128) (\<lambda>version.
       let state = (if contract source identifier version then UTILIZED else UNSUPPORTED)
       in mk_UtilizedKnowledge state source identifier version))))
   | _ \<Rightarrow> Inl KnowledgeValueError)"

definition to_document :: "utilized_knowledge \<Rightarrow> (string \<times> json) list" where
  "to_document k =
     [(''state'', JStr (knowledge_state_value (uk_state k))), (''source'', JStr (uk_source k)),
      (''identifier'', JStr (uk_identifier k)), (''version'', JStr (uk_version k))]"

definition from_document :: "json \<Rightarrow> utilized_knowledge kres" where
  "from_document document = (case document of
     JObj value \<Rightarrow>
       rbind (guard (json_keys value = {''state'', ''source'', ''identifier'', ''version''}) KnowledgeValueError) (\<lambda>_.
       (case Option.bind (as_str (map_of value ''state'')) parse_knowledge_state of
          None \<Rightarrow> Inl KnowledgeValueError
        | Some state \<Rightarrow>
            rbind (safe_source (map_of value ''source'')) (\<lambda>source.
            rbind (bounded (map_of value ''identifier'') 512) (\<lambda>identifier.
            rbind (bounded (map_of value ''version'') 128) (\<lambda>version.
            mk_UtilizedKnowledge state source identifier version)))))
   | _ \<Rightarrow> Inl KnowledgeValueError)"

definition export_document :: "utilized_knowledge option \<Rightarrow> json" where
  "export_document knowledge = (case knowledge of
     None \<Rightarrow> JObj [(''state'', JStr ''not_retained'')]
   | Some k \<Rightarrow> JObj (to_document k @
       [(''authority'', JStr ''provenance-only''), (''distribution'', JStr ''local-only'')]))"

section \<open>Well-formed references\<close>

lemma wf_knowledge_iff:
  "wf_knowledge k \<longleftrightarrow> safe_id (uk_source k) \<and> bounded_text 512 (uk_identifier k) \<and> bounded_text 128 (uk_version k)
     \<and> (uk_state k = UTILIZED) = contract (uk_source k) (uk_identifier k) (uk_version k)"
  by (cases k) (auto simp: wf_knowledge_def mk_UtilizedKnowledge_def res_simps)

lemma mk_UtilizedKnowledge_wf: "mk_UtilizedKnowledge state source identifier version = Inr k \<Longrightarrow> wf_knowledge k"
  by (auto simp: wf_knowledge_iff mk_UtilizedKnowledge_def res_simps)

lemma parse_knowledge_state_value [simp]: "parse_knowledge_state (knowledge_state_value s) = Some s"
  by (cases s) (simp_all add: parse_knowledge_state_def)

lemma mk_UtilizedKnowledge_total:
  assumes "safe_id source" "bounded_text 512 identifier" "bounded_text 128 version"
  shows "mk_UtilizedKnowledge (if contract source identifier version then UTILIZED else UNSUPPORTED)
      source identifier version =
    Inr \<lparr>uk_state = (if contract source identifier version then UTILIZED else UNSUPPORTED),
      uk_source = source, uk_identifier = identifier, uk_version = version\<rparr>"
  using assms by (simp add: mk_UtilizedKnowledge_def)

text \<open>Retained references survive storage: a well-formed reference reads back from its document as
  itself, and what either reader accepts is well formed. In particular a document whose state was
  changed from unsupported to utilized, or back, is refused.\<close>

theorem knowledge_roundtrip:
  "(from_document (JObj (to_document k)) = Inr k \<longleftrightarrow> wf_knowledge k)
    \<and> (from_document document = Inr k \<longrightarrow> wf_knowledge k)
    \<and> (from_reference document = Inr k \<longrightarrow> wf_knowledge k)"
proof (intro conjI impI)
  have keys: "json_keys (to_document k) = {''state'', ''source'', ''identifier'', ''version''}"
    by (simp add: json_keys_def to_document_def)
  have "from_document (JObj (to_document k)) =
      rbind (safe_source (Some (JStr (uk_source k)))) (\<lambda>source.
      rbind (bounded (Some (JStr (uk_identifier k))) 512) (\<lambda>identifier.
      rbind (bounded (Some (JStr (uk_version k))) 128) (\<lambda>version.
        mk_UtilizedKnowledge (uk_state k) source identifier version)))"
    unfolding from_document_def json.case keys by (simp add: to_document_def)
  then show "from_document (JObj (to_document k)) = Inr k \<longleftrightarrow> wf_knowledge k"
    by (auto simp: safe_source_def bounded_def wf_knowledge_def mk_UtilizedKnowledge_def res_simps)
  show "wf_knowledge k" if "from_document document = Inr k"
    using that by (auto simp: from_document_def res_simps split: json.splits option.splits
        dest: mk_UtilizedKnowledge_wf)
  show "wf_knowledge k" if "from_reference document = Inr k"
    using that by (auto simp: from_reference_def res_simps Let_def split: json.splits
        dest: mk_UtilizedKnowledge_wf)
qed

definition demo_knowledge :: utilized_knowledge where
  "demo_knowledge = \<lparr>uk_state = UNSUPPORTED, uk_source = ''model_intelligence'',
     uk_identifier = ''urn:mi:utilization:sha256:0'', uk_version = ''mi.utilization-working/2''\<rparr>"

theorem knowledge_roundtrip_witness:
  "from_document (JObj (to_document demo_knowledge)) = Inr demo_knowledge"
proof -
  have "wf_knowledge demo_knowledge" by code_simp
  with knowledge_roundtrip[of demo_knowledge "JObj (to_document demo_knowledge)"] show ?thesis by simp
qed

end
