(* ===== verification/Resource_Values.thy ===== *)
theory Resource_Values
  imports Knowledge
begin

text \<open>
  core/resources.py up to \<open>Allocation\<close>: the limits a request and an allocation share, and the
  configured allocation.
\<close>

datatype resource_error = ResourceValueError | AllocationUnavailable

type_synonym 'a rres = "resource_error + 'a"

definition validate_limits :: "string fset \<Rightarrow> int \<Rightarrow> unit rres" where
  "validate_limits capabilities context_tokens =
     rbind (guard (fBall capabilities nonblank) ResourceValueError)
       (\<lambda>_. guard (\<not> context_tokens < 0) ResourceValueError)"

record allocation =
  al_runtime_id :: string
  al_provider_id :: string
  al_model_id :: string
  al_capabilities :: "string fset"
  al_context_tokens :: int
  al_rationale :: string
  al_reasoning_effort :: "string option"
  al_variant :: "string option"
  al_decision_provenance :: "string option"
  al_requirements_provenance :: "string option"
  al_knowledge_utilization :: "utilized_knowledge option"

text \<open>\<open>__post_init__\<close>; a dataclass passes its arguments unchanged, so a value is checked as it stands.\<close>

definition check_Allocation :: "allocation \<Rightarrow> allocation rres" where
  "check_Allocation a =
     rbind (guard (list_all nonblank [al_runtime_id a, al_provider_id a, al_model_id a, al_rationale a])
       ResourceValueError) (\<lambda>_.
     rbind (guard (opt_nonblank (al_reasoning_effort a)) ResourceValueError) (\<lambda>_.
     rbind (guard (list_all opt_nonblank
         [al_variant a, al_decision_provenance a, al_requirements_provenance a]) ResourceValueError) (\<lambda>_.
     rbind (validate_limits (al_capabilities a) (al_context_tokens a)) (\<lambda>_. Inr a))))"

definition wf_allocation :: "allocation \<Rightarrow> bool" where
  "wf_allocation a \<longleftrightarrow> check_Allocation a = Inr a"

end
