(* ===== verification/Execution_Values.thy ===== *)
theory Execution_Values
  imports Resource_Values Domain_Facts
begin

text \<open>
  core/execution.py: the values exchanged with runtimes and workspaces. A dataclass is a \<open>record\<close>;
  \<open>check_X\<close> is the \<open>__post_init__\<close> of \<open>X\<close> on the value as given.
\<close>

datatype execution_error = ExecutionValueError | ExecutionConflict | UnsupportedExecution | ExecutionKeyError

type_synonym 'a xres = "execution_error + 'a"

text \<open>\<open>_text\<close>\<close>

definition text_ok :: "string \<Rightarrow> unit xres" where
  "text_ok value = guard (nonblank value) ExecutionValueError"

datatype trust_mode = TRUSTED_DEVELOPMENT | ISOLATED

datatype presence = PresenceFound | PresenceAbsent | PresenceUnknown

datatype activity = ActivityRunning | ActivityWaiting | ActivityTerminal | ActivityUnknown

record operation_key =
  ok_operation_id :: string
  ok_effect_key :: string
  ok_request_digest :: string

definition check_OperationKey :: "operation_key \<Rightarrow> operation_key xres" where
  "check_OperationKey k =
     rbind (each text_ok [ok_operation_id k, ok_effect_key k, ok_request_digest k]) (\<lambda>_. Inr k)"

definition validate_relative_path :: "string \<Rightarrow> unit xres" where
  "validate_relative_path p =
     rbind (text_ok p) (\<lambda>_.
     guard (\<not> (prefix ''/'' p \<or> CHR 0x5C \<in> set p
       \<or> list_ex (\<lambda>part. part \<in> {'''', ''.'', ''..''}) (split_on CHR ''/'' p))) ExecutionConflict)"

record overlay =
  ov_path :: string
  ov_artifact_digest :: string

definition check_Overlay :: "overlay \<Rightarrow> overlay xres" where
  "check_Overlay v =
     rbind (validate_relative_path (ov_path v)) (\<lambda>_. rbind (text_ok (ov_artifact_digest v)) (\<lambda>_. Inr v))"

record workspace_spec =
  ws_repository :: string
  ws_base_revision :: string
  ws_overlays :: "overlay list"
  ws_toolchain_digest :: string
  ws_enforcement_profile :: string
  ws_trust_mode :: trust_mode
  ws_network_destinations :: "string fset"
  ws_mounts :: "string fset"

definition check_WorkspaceSpec :: "workspace_spec \<Rightarrow> workspace_spec xres" where
  "check_WorkspaceSpec s =
     rbind (each text_ok [ws_repository s, ws_base_revision s, ws_toolchain_digest s, ws_enforcement_profile s]) (\<lambda>_.
     rbind (guard (distinct (map ov_path (ws_overlays s))) ExecutionConflict) (\<lambda>_.
     rbind (guard (fBall (ws_network_destinations s) nonblank \<and> fBall (ws_mounts s) nonblank)
       ExecutionValueError) (\<lambda>_. Inr s)))"

record workspace_handle =
  wh_key :: string
  wh_spec :: workspace_spec

record artifact =
  ar_path :: string
  ar_digest :: string

definition check_Artifact :: "artifact \<Rightarrow> artifact xres" where
  "check_Artifact a = rbind (validate_relative_path (ar_path a)) (\<lambda>_. rbind (text_ok (ar_digest a)) (\<lambda>_. Inr a))"

record artifact_manifest =
  am_workspace_key :: string
  am_artifacts :: "artifact list"

record lookup =
  lk_presence :: presence
  lk_handle :: "string option"

record runtime_identity =
  ri_requested :: string
  ri_resolved :: "string option"
  ri_observed :: "string option"
  ri_agent_definition_version :: string
  ri_requested_provider :: "string option"
  ri_resolved_provider :: "string option"
  ri_observed_provider :: "string option"
  ri_requested_effort :: "string option"
  ri_resolved_effort :: "string option"
  ri_observed_effort :: "string option"

record execution_request =
  er_operation :: operation_key
  er_attempt :: attempt_spec
  er_workspace :: workspace_handle
  er_context_reference :: string
  er_allocation_reference :: string
  er_capability_reference :: string
  er_identity :: runtime_identity
  er_fence :: int
  er_allocation :: "allocation option"

definition check_ExecutionRequest :: "execution_request \<Rightarrow> execution_request xres" where
  "check_ExecutionRequest r =
     rbind (guard (\<not> er_fence r \<le> 0) ExecutionValueError) (\<lambda>_.
     rbind (each text_ok [er_context_reference r, er_allocation_reference r, er_capability_reference r]) (\<lambda>_.
     rbind (guard (as_workspace_reference (er_attempt r) = Some (wh_key (er_workspace r))) ExecutionConflict) (\<lambda>_.
     rbind (guard (as_context_reference (er_attempt r) = Some (er_context_reference r)) ExecutionConflict) (\<lambda>_.
     rbind (guard (as_allocation_reference (er_attempt r) = Some (er_allocation_reference r)) ExecutionConflict) (\<lambda>_.
     rbind (guard (as_agent_definition_reference (er_attempt r)
         = Some (ri_agent_definition_version (er_identity r))) ExecutionConflict) (\<lambda>_.
     (case er_allocation r of
        None \<Rightarrow> Inr r
      | Some a \<Rightarrow> rbind (guard (\<not> (ri_requested (er_identity r) \<noteq> al_model_id a
            \<or> ri_requested_provider (er_identity r) \<noteq> Some (al_provider_id a)
            \<or> ri_requested_effort (er_identity r) \<noteq> al_reasoning_effort a)) ExecutionConflict) (\<lambda>_. Inr r))))))))"

record runtime_observation =
  ro_handle :: string
  ro_activity :: activity
  ro_observed_at :: int
  ro_fresh_until :: int
  ro_identity :: runtime_identity
  ro_cancellation_requested :: bool
  ro_owned_group_settled :: "bool option"
  ro_owned_group_reference :: "string option"

definition check_RuntimeObservation :: "runtime_observation \<Rightarrow> runtime_observation xres" where
  "check_RuntimeObservation o' =
     rbind (guard (\<not> (ro_owned_group_settled o' \<noteq> None \<and> \<not> ro_cancellation_requested o')) ExecutionConflict) (\<lambda>_.
     rbind (guard (opt_nonblank (ro_owned_group_reference o')) ExecutionConflict) (\<lambda>_. Inr o'))"

record candidate =
  cd_attempt_id :: string
  cd_spec_digest :: string
  cd_artifacts :: artifact_manifest

record worker_scope =
  sc_workspace_key :: string
  sc_attempt_id :: string
  sc_fence :: int
  sc_expires_at :: int
  sc_paths :: "string fset"
  sc_operations :: "string fset"
  sc_network_destinations :: "string fset"
  sc_mounts :: "string fset"

definition check_WorkerScope :: "worker_scope \<Rightarrow> worker_scope xres" where
  "check_WorkerScope s =
     rbind (each validate_relative_path (sorted_list_of_fset (sc_paths s))) (\<lambda>_. Inr s)"

section \<open>Relative paths\<close>

lemma validate_relative_path_iff:
  "validate_relative_path p = Inr u \<longleftrightarrow> nonblank p \<and> CHR 0x5C \<notin> set p
     \<and> (\<forall>part \<in> set (split_on CHR ''/'' p). part \<notin> {'''', ''.'', ''..''})"
proof -
  have "prefix ''/'' p \<Longrightarrow> [] \<in> set (split_on CHR ''/'' p)" by (cases p) auto
  then show ?thesis
    by (auto simp: validate_relative_path_def text_ok_def res_simps list_ex_iff)
qed

end
