(* ===== verification/Verification.thy ===== *)
theory Verification
  imports Execution_Values Domain_Effects
begin

text \<open>
  core/verification.py: candidates and policies, evidence about an exact subject, the cold product review,
  \<open>verify_candidate\<close>, \<open>admit_accepted\<close> and \<open>assess_remediation\<close>.

  The check producer is code outside the kernel: a parameter \<open>produce\<close>, asked for each required check at
  most once, that returns evidence or \<open>None\<close>. The optional clock is a parameter too: its \<open>k\<close>-th call
  returns \<open>c k\<close>. A value of a dataclass is checked as given by \<open>check_X\<close>. The parsing of a candidate
  starts from the decoded JSON value, whose objects may still repeat a field.
\<close>

definition required :: "string \<Rightarrow> unit dres" where
  "required value = guard (nonblank value) InvalidDomainValue"

section \<open>Candidates\<close>

text \<open>\<open>_unique_object\<close>, applied by the decoder to every object, the inner ones first.\<close>

fun unique_object :: "(string \<times> 'v) list \<Rightarrow> (string \<times> 'v) list \<Rightarrow> (string \<times> 'v) list dres" where
  "unique_object result [] = Inr result"
| "unique_object result ((key, value) # pairs) =
     (if key \<in> fst ` set result then Inl InvalidDomainValue else unique_object (result @ [(key, value)]) pairs)"

record candidate_result =
  cr_candidate_id :: string
  cr_publication :: candidate
  cr_outputs :: "(string \<times> string) list"

definition check_CandidateResult :: "candidate_result \<Rightarrow> candidate_result dres" where
  "check_CandidateResult c =
     rbind (required (cr_candidate_id c)) (\<lambda>_.
     rbind (each (\<lambda>(name, path). rbind (required name) (\<lambda>_. required path)) (cr_outputs c)) (\<lambda>_.
     rbind (guard (distinct (map fst (cr_outputs c))) InvalidDomainValue) (\<lambda>_.
     rbind (guard (distinct (map snd (cr_outputs c))) InvalidDomainValue) (\<lambda>_. Inr c))))"

definition pair_json :: "string \<times> string \<Rightarrow> json" where
  "pair_json p = JList [JStr (fst p), JStr (snd p)]"

definition candidate_digest :: "hash \<Rightarrow> candidate_result \<Rightarrow> string" where
  "candidate_digest H c =
     (let publication = cr_publication c; manifest = cd_artifacts publication in
      json_digest H (JList [JStr (cr_candidate_id c), JStr (cd_attempt_id publication),
        JStr (cd_spec_digest publication), JStr (am_workspace_key manifest),
        JList (map pair_json (sort (map (\<lambda>a. (ar_path a, ar_digest a)) (am_artifacts manifest)))),
        JList (map pair_json (sort (cr_outputs c)))]))"

text \<open>\<open>parse_candidate\<close> on a decoded object; text that is not JSON, or a value that is no object, raises
  the same exception.\<close>

definition output_pairs :: "(string \<times> json) list \<Rightarrow> (string \<times> string) list dres" where
  "output_pairs = mapM (\<lambda>(k, v). case v of JStr s \<Rightarrow> Inr (k, s) | _ \<Rightarrow> Inl InvalidDomainValue)"

definition parse_candidate :: "json \<Rightarrow> artifact_manifest \<Rightarrow> candidate_result dres" where
  "parse_candidate decoded manifest = (case decoded of
     JObj pairs \<Rightarrow>
       rbind (unique_object [] pairs) (\<lambda>fields.
       rbind (guard (json_keys fields = {''candidate_id'', ''attempt_id'', ''spec_digest'', ''outputs''})
         InvalidDomainValue) (\<lambda>_.
       case map_of fields ''outputs'' of
         Some (JObj inner) \<Rightarrow>
           rbind (unique_object [] inner) (\<lambda>outputs.
           rbind (output_pairs outputs) (\<lambda>named.
           case (as_str (map_of fields ''candidate_id''), as_str (map_of fields ''attempt_id''),
                 as_str (map_of fields ''spec_digest'')) of
             (Some candidate_id, Some attempt_id, Some digest) \<Rightarrow>
               rbind (each required [candidate_id, attempt_id, digest]) (\<lambda>_.
               check_CandidateResult \<lparr>cr_candidate_id = candidate_id,
                 cr_publication = \<lparr>cd_attempt_id = attempt_id, cd_spec_digest = digest, cd_artifacts = manifest\<rparr>,
                 cr_outputs = sort named\<rparr>)
           | _ \<Rightarrow> Inl InvalidDomainValue))
       | _ \<Rightarrow> Inl InvalidDomainValue))
   | _ \<Rightarrow> Inl InvalidDomainValue)"

section \<open>Policies and evidence\<close>

record verification_policy =
  vp_reference :: policy_reference
  vp_checks :: "string list"
  vp_reviewer_required :: bool

definition check_VerificationPolicy :: "verification_policy \<Rightarrow> verification_policy dres" where
  "check_VerificationPolicy v =
     rbind (guard (vp_checks v \<noteq> []) InvalidDomainValue) (\<lambda>_.
     rbind (each required (vp_checks v)) (\<lambda>_.
     rbind (guard (distinct (vp_checks v)) InvalidDomainValue) (\<lambda>_. Inr v)))"

record evidence_subject =
  es_candidate_digest :: string
  es_attempt_digest :: string
  es_spec_digest :: string
  es_policy_digest :: string
  es_repository :: string
  es_base_revision :: string
  es_head_revision :: string

definition check_EvidenceSubject :: "evidence_subject \<Rightarrow> evidence_subject dres" where
  "check_EvidenceSubject s =
     rbind (each required [es_candidate_digest s, es_attempt_digest s, es_spec_digest s, es_policy_digest s,
       es_repository s, es_base_revision s, es_head_revision s]) (\<lambda>_. Inr s)"

record evidence =
  ev_evidence_id :: string
  ev_check :: string
  ev_subject :: evidence_subject
  ev_producer :: string
  ev_tool_version :: string
  ev_artifact_reference :: string
  ev_observed_at :: int
  ev_fresh_until :: int
  ev_passed :: bool
  ev_reviewer_session :: "string option"

definition check_Evidence :: "evidence \<Rightarrow> evidence dres" where
  "check_Evidence e =
     rbind (each required [ev_evidence_id e, ev_check e, ev_producer e, ev_tool_version e,
       ev_artifact_reference e]) (\<lambda>_.
     rbind (guard (\<not> ev_fresh_until e < ev_observed_at e) InvalidDomainValue) (\<lambda>_.
     rbind (case ev_reviewer_session e of None \<Rightarrow> Inr () | Some s \<Rightarrow> required s) (\<lambda>_. Inr e)))"

record finding =
  fi_finding_id :: string
  fi_fingerprint :: string
  fi_subject :: evidence_subject
  fi_reason :: string

section \<open>Product review\<close>

datatype product_review_verdict = APPROVE | REQUEST_CHANGES | COMMENT | OWNER_DECISION_NEEDED

record product_review_request =
  rq_candidate :: candidate_result
  rq_subject :: evidence_subject
  rq_author_attempt_id :: string
  rq_author_actor_id :: string
  rq_policy :: policy_reference

definition check_ProductReviewRequest :: "hash \<Rightarrow> product_review_request \<Rightarrow> product_review_request dres" where
  "check_ProductReviewRequest H r =
     rbind (each required [rq_author_attempt_id r, rq_author_actor_id r]) (\<lambda>_.
     rbind (guard (candidate_digest H (rq_candidate r) = es_candidate_digest (rq_subject r)) InvalidDomainValue) (\<lambda>_.
     rbind (guard (cd_spec_digest (cr_publication (rq_candidate r)) = es_attempt_digest (rq_subject r))
       InvalidDomainValue) (\<lambda>_.
     rbind (guard (cd_attempt_id (cr_publication (rq_candidate r)) = rq_author_attempt_id r)
       InvalidDomainValue) (\<lambda>_.
     rbind (guard (pr_digest (rq_policy r) = es_policy_digest (rq_subject r)) InvalidDomainValue) (\<lambda>_. Inr r)))))"

definition input_reference :: "hash \<Rightarrow> product_review_request \<Rightarrow> string" where
  "input_reference H r = ''candidate:'' @ candidate_digest H (rq_candidate r)"

definition input_digest :: "hash \<Rightarrow> product_review_request \<Rightarrow> string" where
  "input_digest H r = (let s = rq_subject r in
     json_digest H (JObj [
       (''candidate_digest'', JStr (candidate_digest H (rq_candidate r))),
       (''policy'', policy_payload (rq_policy r)),
       (''subject'', JObj [
         (''attempt_digest'', JStr (es_attempt_digest s)),
         (''base_revision'', JStr (es_base_revision s)),
         (''candidate_digest'', JStr (es_candidate_digest s)),
         (''head_revision'', JStr (es_head_revision s)),
         (''policy_digest'', JStr (es_policy_digest s)),
         (''repository'', JStr (es_repository s)),
         (''spec_digest'', JStr (es_spec_digest s))])]))"

record product_review_receipt =
  rr_review_id :: string
  rr_request_digest :: string
  rr_subject :: evidence_subject
  rr_reviewer_id :: string
  rr_reviewer_session :: string
  rr_verdict :: product_review_verdict
  rr_findings :: "finding list"
  rr_observed_at :: int
  rr_fresh_until :: int
  rr_owner_decision_reference :: "string option"
  rr_owner_decision_reason :: "string option"
  rr_owner_decision_options :: "string list"

definition check_ProductReviewReceipt :: "product_review_receipt \<Rightarrow> product_review_receipt dres" where
  "check_ProductReviewReceipt r =
     rbind (each required [rr_review_id r, rr_request_digest r, rr_reviewer_id r, rr_reviewer_session r]) (\<lambda>_.
     rbind (guard (\<not> (list_ex (\<lambda>f. fi_subject f \<noteq> rr_subject r) (rr_findings r)
         \<or> rr_fresh_until r < rr_observed_at r)) InvalidDomainValue) (\<lambda>_.
     rbind (guard (\<not> (rr_verdict r = APPROVE \<and> rr_findings r \<noteq> [])) InvalidDomainValue) (\<lambda>_.
     rbind (guard (\<not> (rr_verdict r = REQUEST_CHANGES \<and> rr_findings r = [])) InvalidDomainValue) (\<lambda>_.
     rbind (guard (opt_nonblank (rr_owner_decision_reference r) \<and> opt_nonblank (rr_owner_decision_reason r))
       InvalidDomainValue) (\<lambda>_.
     rbind (guard (if rr_verdict r = OWNER_DECISION_NEEDED
         then \<not> (rr_findings r \<noteq> [] \<or> rr_owner_decision_reference r = None \<or> rr_owner_decision_reason r = None
           \<or> length (rr_owner_decision_options r) \<notin> {2, 3}
           \<or> list_ex (\<lambda>item. \<not> nonblank item) (rr_owner_decision_options r)
           \<or> \<not> distinct (rr_owner_decision_options r))
         else \<not> (rr_owner_decision_reference r \<noteq> None \<or> rr_owner_decision_reason r \<noteq> None
           \<or> rr_owner_decision_options r \<noteq> [])) InvalidDomainValue) (\<lambda>_. Inr r))))))"

definition product_review_matches_request :: "hash \<Rightarrow> product_review_request \<Rightarrow> product_review_receipt \<Rightarrow> bool" where
  "product_review_matches_request H request receipt \<longleftrightarrow>
     \<not> (rr_subject receipt \<noteq> rq_subject request \<or> rr_request_digest receipt \<noteq> input_digest H request
        \<or> rr_reviewer_id receipt = rq_author_actor_id request
        \<or> rr_reviewer_session receipt = rq_author_attempt_id request)"

definition validate_product_review ::
  "hash \<Rightarrow> product_review_request \<Rightarrow> product_review_receipt \<Rightarrow> evidence option dres" where
  "validate_product_review H request receipt =
     (if \<not> product_review_matches_request H request receipt \<or> rr_verdict receipt \<noteq> APPROVE then Inr None
      else map_sum id Some (check_Evidence \<lparr>ev_evidence_id = rr_review_id receipt, ev_check = ''independent_review'',
        ev_subject = rr_subject receipt, ev_producer = rr_reviewer_id receipt,
        ev_tool_version = ''product-review:v1'', ev_artifact_reference = input_reference H request,
        ev_observed_at = rr_observed_at receipt, ev_fresh_until = rr_fresh_until receipt, ev_passed = True,
        ev_reviewer_session = Some (rr_reviewer_session receipt)\<rparr>))"

section \<open>Verification\<close>

record accepted_result =
  ac_candidate :: candidate_result
  ac_subject :: evidence_subject
  ac_evidence :: "evidence list"
  ac_policy :: policy_reference
  ac_satisfaction :: trusted_satisfaction

record rejected_result =
  rj_candidate :: candidate_result
  rj_subject :: evidence_subject
  rj_evidence :: "evidence list"
  rj_findings :: "finding list"

datatype verification_result = Accepted accepted_result | Rejected rejected_result

text \<open>The evidence of a check, apart from its verdict: it is for the check and the subject, from another
  producer than the worker, within its time, and a review is by an independent session.\<close>

definition evidence_valid :: "attempt \<Rightarrow> evidence_subject \<Rightarrow> string \<Rightarrow> int \<Rightarrow> string \<Rightarrow> evidence \<Rightarrow> bool" where
  "evidence_valid att subj verifier_id time name e \<longleftrightarrow>
     ev_check e = name \<and> ev_subject e = subj \<and> ev_producer e \<noteq> at_actor_id att
     \<and> ev_observed_at e \<le> time \<and> time \<le> ev_fresh_until e
     \<and> (name \<noteq> ''independent_review'' \<or>
         (case ev_reviewer_session e of None \<Rightarrow> False | Some s \<Rightarrow> s \<noteq> at_id att) \<and> ev_producer e \<noteq> verifier_id)"

text \<open>\<open>clock() if clock is not None else now\<close>, for the \<open>k\<close>-th call.\<close>

definition time_at :: "(nat \<Rightarrow> int) option \<Rightarrow> int \<Rightarrow> nat \<Rightarrow> int" where
  "time_at clock now k = (case clock of None \<Rightarrow> now | Some c \<Rightarrow> c k)"

definition stale_before :: "int \<Rightarrow> evidence option \<Rightarrow> bool" where
  "stale_before time previous = (case previous of
     None \<Rightarrow> True | Some e \<Rightarrow> \<not> (ev_observed_at e \<le> time \<and> time \<le> ev_fresh_until e))"

text \<open>\<open>tuple(item for item in observations if type(item) is Evidence)\<close>\<close>

fun present :: "'a option list \<Rightarrow> 'a list" where
  "present [] = []"
| "present (None # xs) = present xs"
| "present (Some x # xs) = x # present xs"

definition known_ids :: "evidence option list \<Rightarrow> string set" where
  "known_ids observations = ev_evidence_id ` set (present observations)"

text \<open>The loop over the required checks: the observations it collects and the clock calls it made.\<close>

fun check_loop ::
  "(nat \<Rightarrow> int) \<Rightarrow> (string \<Rightarrow> evidence_subject \<Rightarrow> evidence option) \<Rightarrow> attempt \<Rightarrow> evidence_subject \<Rightarrow> string \<Rightarrow>
   string list \<Rightarrow> evidence option list \<Rightarrow> nat \<Rightarrow> (evidence option list \<times> nat) dres" where
  "check_loop time produce att subj verifier_id [] observations k = Inr (observations, k)"
| "check_loop time produce att subj verifier_id (name # names) observations k =
     (if list_ex (stale_before (time k)) observations then Inr (observations, Suc k)
      else let item = produce name subj in
        if (case item of None \<Rightarrow> False | Some e \<Rightarrow> ev_evidence_id e \<in> known_ids observations)
        then Inl InvalidDomainValue
        else if (case item of None \<Rightarrow> False
               | Some e \<Rightarrow> evidence_valid att subj verifier_id (time (Suc k)) name e \<and> ev_passed e)
        then check_loop time produce att subj verifier_id names (observations @ [item]) (Suc (Suc k))
        else Inr (observations @ [item], Suc (Suc k)))"

definition required_checks :: "verification_policy \<Rightarrow> string list" where
  "required_checks policy =
     vp_checks policy @ (if vp_reviewer_required policy then [''independent_review''] else [])"

definition check_findings ::
  "attempt \<Rightarrow> evidence_subject \<Rightarrow> string \<Rightarrow> int \<Rightarrow> string \<Rightarrow> string list \<Rightarrow> evidence option list \<Rightarrow> finding list" where
  "check_findings att subj verifier_id now candidate_id names observations =
     List.map_filter (\<lambda>(index, name).
       let item = (if index < length observations then observations ! index else None) in
       if (case item of None \<Rightarrow> False | Some e \<Rightarrow> evidence_valid att subj verifier_id now name e \<and> ev_passed e)
       then None
       else Some \<lparr>fi_finding_id = candidate_id @ '':'' @ name, fi_fingerprint = name, fi_subject = subj,
         fi_reason = (if index \<ge> length observations then ''not run: prerequisite rejected''
           else ''missing, stale, mismatched or failing trusted evidence'')\<rparr>)
     (zip [0..<length names] names)"

record verification_inputs =
  vi_repository :: string
  vi_base_revision :: string
  vi_head_revision :: string
  vi_verifier_id :: string
  vi_reference_id :: string
  vi_now :: int

text \<open>The guards before the first check: the attempt, its unit and the subject the evidence must be
  about.\<close>

definition verification_subject ::
  "hash \<Rightarrow> program \<Rightarrow> candidate_result \<Rightarrow> artifact_manifest \<Rightarrow> verification_policy \<Rightarrow> verification_inputs \<Rightarrow>
   (attempt \<times> work_unit \<times> evidence_subject) dres" where
  "verification_subject H p cand collected policy vi =
     rbind (each required [vi_repository vi, vi_base_revision vi, vi_head_revision vi, vi_verifier_id vi,
       vi_reference_id vi]) (\<lambda>_.
     rbind (program_attempt p (cd_attempt_id (cr_publication cand))) (\<lambda>att.
     let sp = at_spec att in
     rbind (spec_work_unit (pg_spec p) (as_work_unit_id sp)) (\<lambda>unit.
     rbind (program_state p (wu_work_unit_id unit)) (\<lambda>state.
     rbind (guard (\<not> (us_status state \<noteq> UnitReady
         \<or> list_ex (\<lambda>t. ts_source_attempt_id t = as_attempt_id sp) (pg_satisfactions p)
         \<or> at_status att \<noteq> AttemptFinished
         \<or> as_spec_digest sp \<noteq> spec_digest H (pg_spec p)
         \<or> as_spec_revision sp \<noteq> ps_revision (pg_spec p))) StaleRevision) (\<lambda>_.
     rbind (guard (\<not> (cd_spec_digest (cr_publication cand) \<noteq> attempt_digest H sp
         \<or> collected \<noteq> cd_artifacts (cr_publication cand))) StaleRevision) (\<lambda>_.
     rbind (guard (\<not> ((wu_acceptance_policy_reference unit \<noteq> None
           \<and> wu_acceptance_policy_reference unit \<noteq> Some (vp_reference policy))
         \<or> (vp_reference policy \<notin> set (ps_policy_references (pg_spec p))
           \<and> wu_acceptance_policy_reference unit \<noteq> Some (vp_reference policy)))) StaleRevision) (\<lambda>_.
     rbind (guard (set (ps_acceptance_criteria (pg_spec p) @ wu_acceptance_criteria unit) \<subseteq> set (vp_checks policy))
       InvalidDomainValue) (\<lambda>_.
     rbind (guard (\<not> (vi_verifier_id vi |\<notin>| ae_trusted_satisfaction_issuers (ps_authority (pg_spec p))
         \<or> vi_verifier_id vi = at_actor_id att)) InvalidDomainValue) (\<lambda>_.
     rbind (guard (\<not> (Some (am_workspace_key collected) \<noteq> as_workspace_reference sp
         \<or> \<not> distinct (map ar_path (am_artifacts collected)))) InvalidDomainValue) (\<lambda>_.
     rbind (guard (fset_of_list (map fst (cr_outputs cand)) = wu_outputs unit) InvalidDomainValue) (\<lambda>_.
     rbind (guard (list_all (\<lambda>(_, path). path \<in> ar_path ` set (am_artifacts collected)) (cr_outputs cand))
       InvalidDomainValue) (\<lambda>_.
     rbind (check_EvidenceSubject \<lparr>es_candidate_digest = candidate_digest H cand,
         es_attempt_digest = attempt_digest H sp, es_spec_digest = spec_digest H (pg_spec p),
         es_policy_digest = pr_digest (vp_reference policy), es_repository = vi_repository vi,
         es_base_revision = vi_base_revision vi, es_head_revision = vi_head_revision vi\<rparr>) (\<lambda>subj.
     rbind (guard (distinct (required_checks policy)) InvalidDomainValue) (\<lambda>_.
     Inr (att, unit, subj)))))))))))))))"

definition candidate_outputs :: "candidate_result \<Rightarrow> artifact_manifest \<Rightarrow> input_binding list dres" where
  "candidate_outputs cand collected =
     mapM (\<lambda>(name, path). case dict_from ar_path (am_artifacts collected) path of
         None \<Rightarrow> Inl KeyError
       | Some a \<Rightarrow> mk_InputBinding name (''artifact:'' @ ar_digest a) ''initial'' None None None)
       (cr_outputs cand)"

definition accepted_fact ::
  "hash \<Rightarrow> program \<Rightarrow> candidate_result \<Rightarrow> artifact_manifest \<Rightarrow> verification_inputs \<Rightarrow> attempt \<Rightarrow> work_unit \<Rightarrow>
   trusted_satisfaction dres" where
  "accepted_fact H p cand collected vi att unit =
     rbind (candidate_outputs cand collected) (\<lambda>outputs.
     rbind (fingerprint H (pg_spec p) (wu_work_unit_id unit)) (\<lambda>fp.
     mk_TrustedSatisfaction (vi_reference_id vi) (pg_id p) (wu_work_unit_id unit) (ps_revision (pg_spec p))
       (spec_digest H (pg_spec p)) fp (vi_verifier_id vi) (as_attempt_id (at_spec att)) outputs 0))"

definition verify_candidate ::
  "hash \<Rightarrow> program \<Rightarrow> candidate_result \<Rightarrow> artifact_manifest \<Rightarrow> verification_policy \<Rightarrow>
   (string \<Rightarrow> evidence_subject \<Rightarrow> evidence option) \<Rightarrow> verification_inputs \<Rightarrow> (nat \<Rightarrow> int) option \<Rightarrow>
   verification_result dres" where
  "verify_candidate H p cand collected policy produce vi clock =
     rbind (verification_subject H p cand collected policy vi) (\<lambda>(att, unit, subj).
     rbind (check_loop (time_at clock (vi_now vi)) produce att subj (vi_verifier_id vi)
       (required_checks policy) [] 0) (\<lambda>(observations, k).
     let now = time_at clock (vi_now vi) k;
         collected_evidence = present observations;
         findings = check_findings att subj (vi_verifier_id vi) now (cr_candidate_id cand)
           (required_checks policy) observations in
     if findings \<noteq> []
     then Inr (Rejected \<lparr>rj_candidate = cand, rj_subject = subj, rj_evidence = collected_evidence, rj_findings = findings\<rparr>)
     else rbind (accepted_fact H p cand collected vi att unit) (\<lambda>fact'.
       Inr (Accepted \<lparr>ac_candidate = cand, ac_subject = subj, ac_evidence = collected_evidence,
         ac_policy = vp_reference policy, ac_satisfaction = fact'\<rparr>))))"

text \<open>\<open>RecordedChecks\<close> replays the evidence of an accepted result.\<close>

definition recorded_checks :: "accepted_result \<Rightarrow> string \<Rightarrow> evidence_subject \<Rightarrow> evidence option" where
  "recorded_checks r name subj = List.find (\<lambda>item. ev_check item = name) (ac_evidence r)"

definition admit_accepted ::
  "hash \<Rightarrow> program \<Rightarrow> accepted_result \<Rightarrow> artifact_manifest \<Rightarrow> verification_policy \<Rightarrow> string \<Rightarrow> string \<Rightarrow> string \<Rightarrow> int \<Rightarrow>
   program dres" where
  "admit_accepted H p r collected policy repository base_revision head_revision now =
     rbind (guard (ts_source_attempt_id (ac_satisfaction r) = cd_attempt_id (cr_publication (ac_candidate r)))
       InvalidDomainValue) (\<lambda>_.
     rbind (guard (ac_policy r = vp_reference policy) StaleRevision) (\<lambda>_.
     rbind (verify_candidate H p (ac_candidate r) collected policy (recorded_checks r)
       \<lparr>vi_repository = repository, vi_base_revision = base_revision, vi_head_revision = head_revision,
        vi_verifier_id = ts_issuer_id (ac_satisfaction r), vi_reference_id = ts_reference_id (ac_satisfaction r),
        vi_now = now\<rparr> None) (\<lambda>checked.
     rbind (guard (checked = Accepted r) StaleRevision) (\<lambda>_.
     Domain_Program.issue H p (SatisfyWorkUnit (pg_revision p) (ts_issuer_id (ac_satisfaction r)) (ac_satisfaction r))))))"

section \<open>Remediation\<close>

datatype remediation_status = RETRY | PAUSE | HUMAN_GATE

record remediation_decision =
  rd_status :: remediation_status
  rd_reason :: string
  rd_used :: int
  rd_progress :: bool
  rd_oscillation :: bool

definition fingerprint_set :: "rejected_result \<Rightarrow> string fset" where
  "fingerprint_set r = fset_of_list (map fi_fingerprint (rj_findings r))"

definition assess_remediation ::
  "rejected_result list \<Rightarrow> int \<Rightarrow> int \<Rightarrow> bool \<Rightarrow> bool \<Rightarrow> remediation_decision dres" where
  "assess_remediation history max_changes used authorized owner_decision_required =
     rbind (guard (\<not> (history = [] \<or> used < 0 \<or> max_changes < 0)) InvalidDomainValue) (\<lambda>_.
     let sets = map fingerprint_set history;
         n = length sets;
         progress = (n = 1 \<or> sets ! (n - 2) |-| sets ! (n - 1) \<noteq> {||});
         oscillation = (n > 2 \<and> last sets \<in> set (take (n - 2) sets)) in
     Inr (if owner_decision_required
       then \<lparr>rd_status = HUMAN_GATE, rd_reason = ''new owner authority required'', rd_used = used,
         rd_progress = progress, rd_oscillation = oscillation\<rparr>
       else if \<not> authorized \<or> used \<ge> max_changes
       then \<lparr>rd_status = PAUSE, rd_reason = ''no authorized remediation budget'', rd_used = used,
         rd_progress = progress, rd_oscillation = oscillation\<rparr>
       else \<lparr>rd_status = RETRY, rd_reason = (if oscillation then ''oscillation diagnosed'' else ''bounded retry''),
         rd_used = used + 1, rd_progress = progress, rd_oscillation = oscillation\<rparr>))"

end
