(* ===== verification/Verification_Properties.thy ===== *)
theory Verification_Properties
  imports Verification
begin

text \<open>
  What the verification decision guarantees: an accepted result rests on one valid, passing, fresh piece of
  evidence per required check, admission repeats the decision on the recorded evidence and hands the
  satisfaction to the domain, and remediation is bounded.
\<close>

section \<open>The loop over the checks\<close>

abbreviation good_evidence :: "attempt \<Rightarrow> evidence_subject \<Rightarrow> string \<Rightarrow> int \<Rightarrow> string \<Rightarrow> evidence \<Rightarrow> bool" where
  "good_evidence att subj verifier_id time name e \<equiv> evidence_valid att subj verifier_id time name e \<and> ev_passed e"

lemma present_append [simp]: "present (xs @ ys) = present xs @ present ys"
  by (induction xs rule: present.induct) simp_all

lemma present_map_Some [simp]: "present (map (\<lambda>x. Some (f x)) xs) = map f xs"
  by (induction xs) simp_all

lemma check_loop_observations:
  assumes "check_loop time produce att subj verifier_id names obs k = Inr (obs', k')"
  shows "\<exists>n \<le> length names. obs' = obs @ map (\<lambda>name. produce name subj) (take n names)"
  using assms
proof (induction names arbitrary: obs k)
  case (Cons name names)
  let ?item = "produce name subj"
  consider (stop) "obs' = obs" | (last) "obs' = obs @ [?item]"
    | (continue) "check_loop time produce att subj verifier_id names (obs @ [?item]) (Suc (Suc k)) = Inr (obs', k')"
    using Cons.prems by (auto simp: Let_def split: if_splits)
  then show ?case
  proof cases
    case stop
    then show ?thesis by (auto intro: exI[of _ 0])
  next
    case last
    then show ?thesis by (auto intro: exI[of _ 1])
  next
    case continue
    from Cons.IH[OF this] obtain n where "n \<le> length names"
      "obs' = (obs @ [?item]) @ map (\<lambda>name. produce name subj) (take n names)" by blast
    then show ?thesis by (auto intro: exI[of _ "Suc n"])
  qed
qed simp

lemma check_loop_distinct_ids:
  assumes "check_loop time produce att subj verifier_id names obs k = Inr (obs', k')"
    and "distinct (map ev_evidence_id (present obs))"
  shows "distinct (map ev_evidence_id (present obs'))"
  using assms
proof (induction names arbitrary: obs k)
  case (Cons name names)
  let ?item = "produce name subj"
  have ext: "distinct (map ev_evidence_id (present (obs @ [?item])))"
    if "\<not> (case ?item of None \<Rightarrow> False | Some e \<Rightarrow> ev_evidence_id e \<in> known_ids obs)"
    using that Cons.prems(2) by (cases ?item) (auto simp: known_ids_def)
  consider (stop) "obs' = obs"
    | (last) "\<not> (case ?item of None \<Rightarrow> False | Some e \<Rightarrow> ev_evidence_id e \<in> known_ids obs)" "obs' = obs @ [?item]"
    | (continue) "\<not> (case ?item of None \<Rightarrow> False | Some e \<Rightarrow> ev_evidence_id e \<in> known_ids obs)"
      "check_loop time produce att subj verifier_id names (obs @ [?item]) (Suc (Suc k)) = Inr (obs', k')"
    using Cons.prems(1) by (auto simp: Let_def split: if_splits)
  then show ?case
    by cases (use Cons.prems(2) ext Cons.IH in auto)
qed simp

lemma map_filter_eq_Nil: "List.map_filter f xs = [] \<longleftrightarrow> (\<forall>x \<in> set xs. f x = None)"
  by (induction xs) (auto simp: List.map_filter_def)

lemma all_enumerate: "(\<forall>x \<in> set (zip [0..<length xs] xs). P x) \<longleftrightarrow> (\<forall>i < length xs. P (i, xs ! i))"
  by (simp add: all_set_conv_all_nth)

lemma check_findings_Nil_iff:
  "check_findings att subj verifier_id now candidate_id names obs = [] \<longleftrightarrow>
    (\<forall>i < length names. i < length obs \<and>
      (\<exists>e. obs ! i = Some e \<and> good_evidence att subj verifier_id now (names ! i) e))"
  unfolding check_findings_def map_filter_eq_Nil all_enumerate
  by (intro all_cong) (simp add: Let_def split: option.split)

text \<open>No finding means one good piece of evidence per check, and nothing else.\<close>

lemma no_findings:
  assumes "check_loop time produce att subj verifier_id names [] k = Inr (obs, k')"
    and "check_findings att subj verifier_id now candidate_id names obs = []"
  shows "list_all2 (\<lambda>name e. produce name subj = Some e \<and> good_evidence att subj verifier_id now name e)
      names (present obs)"
    and "obs = map Some (present obs)"
proof -
  obtain n where n: "n \<le> length names" "obs = map (\<lambda>name. produce name subj) (take n names)"
    using check_loop_observations[OF assms(1)] by auto
  have "length names \<le> length obs"
    using assms(2) unfolding check_findings_Nil_iff by (meson linorder_not_less order_less_irrefl)
  with n have obs: "obs = map (\<lambda>name. produce name subj) names" by simp
  have good: "\<exists>e. produce (names ! i) subj = Some e \<and> good_evidence att subj verifier_id now (names ! i) e"
    if "i < length names" for i
    using assms(2) that unfolding check_findings_Nil_iff obs by simp
  define f where "f = (\<lambda>name. the (produce name subj))"
  have f: "produce (names ! i) subj = Some (f (names ! i))"
    "good_evidence att subj verifier_id now (names ! i) (f (names ! i))" if "i < length names" for i
    using good[OF that] by (auto simp: f_def)
  have "obs = map (\<lambda>name. Some (f name)) names"
    unfolding obs by (rule nth_equalityI) (simp_all add: f(1))
  then have ev: "present obs = map f names" and "obs = map Some (map f names)" by simp_all
  then show "obs = map Some (present obs)" by simp
  show "list_all2 (\<lambda>name e. produce name subj = Some e \<and> good_evidence att subj verifier_id now name e)
      names (present obs)"
    unfolding ev list_all2_conv_all_nth using f by simp
qed

lemma verify_candidate_Accepted:
  assumes "verify_candidate H p cand collected policy produce vi clock = Inr (Accepted r)"
  obtains att u subj k obs where "verification_subject H p cand collected policy vi = Inr (att, u, subj)"
    "check_loop (time_at clock (vi_now vi)) produce att subj (vi_verifier_id vi) (required_checks policy) [] 0 = Inr (obs, k)"
    "check_findings att subj (vi_verifier_id vi) (time_at clock (vi_now vi) k) (cr_candidate_id cand)
       (required_checks policy) obs = []"
    "accepted_fact H p cand collected vi att u = Inr (ac_satisfaction r)"
    "r = \<lparr>ac_candidate = cand, ac_subject = subj, ac_evidence = present obs,
       ac_policy = vp_reference policy, ac_satisfaction = ac_satisfaction r\<rparr>"
  using assms by (auto simp: verify_candidate_def res_simps Let_def split: if_splits)


text \<open>A sequence of decisions, each starting from the count the previous one returned: how many were retries.\<close>

fun remediation_rounds :: "int \<Rightarrow> int \<Rightarrow> (rejected_result list \<times> bool \<times> bool) list \<Rightarrow> int dres" where
  "remediation_rounds max_changes used [] = Inr 0"
| "remediation_rounds max_changes used ((history, authorized, owner) # rounds) =
     rbind (assess_remediation history max_changes used authorized owner) (\<lambda>d.
     rbind (remediation_rounds max_changes (rd_used d) rounds) (\<lambda>n.
     Inr (n + (if rd_status d = RETRY then 1 else 0))))"

text \<open>(C14) Remediation is bounded. A decision to retry is authorised, is within the budget and consumes one
  change of it; every other decision consumes none. So along any sequence of decisions, each starting from
  the count the previous one returned, at most \<open>max_changes\<close> retries are granted.\<close>

theorem remediation_is_bounded:
  assumes "remediation_rounds max_changes used rounds = Inr retries"
  shows "retries = 0 \<or> used + retries \<le> max_changes"
  using assms
proof (induction rounds arbitrary: used retries)
  case (Cons round rounds)
  obtain history authorized owner where round: "round = (history, authorized, owner)" by (cases round) auto
  with Cons.prems obtain d n where d: "assess_remediation history max_changes used authorized owner = Inr d"
    and n: "remediation_rounds max_changes (rd_used d) rounds = Inr n"
    and retries: "retries = n + (if rd_status d = RETRY then 1 else 0)"
    by (auto simp: res_simps)
  have "rd_status d = RETRY \<and> rd_used d = used + 1 \<and> used < max_changes \<or> rd_status d \<noteq> RETRY \<and> rd_used d = used"
    using d by (auto simp: assess_remediation_def res_simps Let_def split: if_splits)
  with Cons.IH[OF n] retries show ?case by auto
qed simp

end
