(* ===== verification/Verification_Admission.thy ===== *)
theory Verification_Admission
  imports Verification_Properties
begin

text \<open>
  The step from a verification decision to the domain: \<open>admit_accepted\<close> repeats \<open>verify_candidate\<close> on the
  recorded evidence and then satisfies the work unit. On a program that the domain can reach the two
  components agree: what verification accepts the domain admits, and the unit becomes satisfied.
\<close>

section \<open>The fact of an accepted result\<close>

lemma verification_subjectD:
  assumes "verification_subject H p cand collected policy vi = Inr (att, u, subj)"
  shows "program_attempt p (cd_attempt_id (cr_publication cand)) = Inr att"
    and "spec_work_unit (pg_spec p) (at_unit att) = Inr u"
    and "\<exists>state. program_state p (wu_work_unit_id u) = Inr state \<and> us_status state = UnitReady"
    and "at_status att = AttemptFinished" and "as_spec_digest (at_spec att) = spec_digest H (pg_spec p)"
    and "as_spec_revision (at_spec att) = ps_revision (pg_spec p)"
    and "vi_verifier_id vi |\<in>| ae_trusted_satisfaction_issuers (ps_authority (pg_spec p))"
    and "vi_verifier_id vi \<noteq> at_actor_id att"
    and "fset_of_list (map fst (cr_outputs cand)) = wu_outputs u"
    and "nonblank (vi_verifier_id vi)" and "distinct (required_checks policy)"
  using assms by (auto simp: verification_subject_def res_simps Let_def check_EvidenceSubject_def required_def)

lemma mk_InputBinding_initial:
  "mk_InputBinding name reference ''initial'' None None None = Inr b \<Longrightarrow> ib_name b = name \<and> wf_binding b"
  by (simp add: mk_InputBinding_def wf_binding_def Let_def split: if_splits) auto

lemma candidate_outputs_Inr:
  assumes "candidate_outputs cand collected = Inr outputs"
  shows "map ib_name outputs = map fst (cr_outputs cand)" and "list_all wf_binding outputs"
proof -
  have each: "ib_name b = name \<and> wf_binding b"
    if "(case dict_from ar_path (am_artifacts collected) path of None \<Rightarrow> Inl KeyError
       | Some a \<Rightarrow> mk_InputBinding name (''artifact:'' @ ar_digest a) ''initial'' None None None) = Inr b" for name path b
    using that mk_InputBinding_initial by (auto split: option.splits)
  have "list_all2 (\<lambda>x b. ib_name b = fst x \<and> wf_binding b) (cr_outputs cand) outputs"
    using assms unfolding candidate_outputs_def mapM_Inr_iff
    by (rule list_all2_mono) (use each in \<open>auto split: prod.splits\<close>)
  then show "map ib_name outputs = map fst (cr_outputs cand)" "list_all wf_binding outputs"
    by (induction rule: list_all2_induct) auto
qed

lemma accepted_factD:
  assumes "accepted_fact H p cand collected vi att u = Inr t"
  shows "wf_satisfaction t" and "ts_reference_id t = vi_reference_id vi" and "ts_program_id t = pg_id p"
    and "ts_work_unit_id t = wu_work_unit_id u" and "ts_spec_revision t = ps_revision (pg_spec p)"
    and "ts_spec_digest t = spec_digest H (pg_spec p)"
    and "fingerprint H (pg_spec p) (wu_work_unit_id u) = Inr (ts_work_unit_fingerprint t)"
    and "ts_issuer_id t = vi_verifier_id vi" and "ts_source_attempt_id t = at_id att" and "ts_record_order t = 0"
    and "fset_of_list (map ib_name (ts_output_bindings t)) = fset_of_list (map fst (cr_outputs cand))"
proof -
  from assms obtain outputs fp where o: "candidate_outputs cand collected = Inr outputs"
    and fp: "fingerprint H (pg_spec p) (wu_work_unit_id u) = Inr fp"
    and mk: "mk_TrustedSatisfaction (vi_reference_id vi) (pg_id p) (wu_work_unit_id u) (ps_revision (pg_spec p))
       (spec_digest H (pg_spec p)) fp (vi_verifier_id vi) (at_id att) outputs 0 = Inr t"
    by (auto simp: accepted_fact_def res_simps)
  show "wf_satisfaction t" by (rule mk_TrustedSatisfaction_wf[OF mk candidate_outputs_Inr(2)[OF o]])
  have "ts_output_bindings t = sort_key ib_name outputs"
    using mk by (auto simp: mk_TrustedSatisfaction_def bindings_def res_simps split: if_splits)
  then have "set (map ib_name (ts_output_bindings t)) = set (map fst (cr_outputs cand))"
    using arg_cong[OF candidate_outputs_Inr(1)[OF o], of set] by simp
  then show "fset_of_list (map ib_name (ts_output_bindings t)) = fset_of_list (map fst (cr_outputs cand))"
    by (intro fset_eqI) (simp only: fset_of_list_elem)
qed (use assms in \<open>auto simp: accepted_fact_def mk_TrustedSatisfaction_def res_simps split: if_splits\<close>)

section \<open>Replaying the recorded evidence\<close>

lemma find_check:
  assumes "list_all2 (\<lambda>name e. ev_check e = name) names es" and "distinct names" and "i < length names"
  shows "List.find (\<lambda>e. ev_check e = names ! i) es = Some (es ! i)"
proof -
  have m: "map ev_check es = names" using assms(1) by (induction rule: list_all2_induct) auto
  then have "es ! i \<in> set es" "names ! i = ev_check (es ! i)" using assms(3) by auto
  with find_distinct_key[of ev_check es "es ! i"] m assms(2) show ?thesis by simp
qed

lemma replay_loop:
  assumes "list_all2 (\<lambda>name e. produce name subj = Some e \<and> good_evidence att subj verifier_id now name e) names es"
    and "\<forall>e \<in> set done'. ev_observed_at e \<le> now \<and> now \<le> ev_fresh_until e"
    and "distinct (map ev_evidence_id (done' @ es))"
  shows "check_loop (\<lambda>_. now) produce att subj verifier_id names (map Some done') k
    = Inr (map Some (done' @ es), k + 2 * length names)"
  using assms
proof (induction names es arbitrary: done' k rule: list_all2_induct)
  case (Cons name names e es)
  have fresh: "\<not> list_ex (stale_before now) (map Some done')"
    using Cons.prems(1) by (auto simp: list_ex_iff stale_before_def)
  have "present (map Some done') = done'" by (induction done') simp_all
  then have new: "ev_evidence_id e \<notin> known_ids (map Some done')" using Cons.prems(2) by (auto simp: known_ids_def)
  have "ev_observed_at e \<le> now \<and> now \<le> ev_fresh_until e" using Cons.hyps(1) by (simp add: evidence_valid_def)
  then have IH: "check_loop (\<lambda>_. now) produce att subj verifier_id names (map Some (done' @ [e])) (Suc (Suc k))
      = Inr (map Some ((done' @ [e]) @ es), Suc (Suc k) + 2 * length names)"
    using Cons.prems by (intro Cons.IH) auto
  show ?case using Cons.hyps(1) fresh new IH by (simp add: Let_def)
qed simp

text \<open>Verification without a clock is stable: replaying its own evidence gives the same result.\<close>

lemma verify_replays:
  assumes "verify_candidate H p cand collected policy produce vi None = Inr (Accepted r)"
  shows "verify_candidate H p cand collected policy (recorded_checks r) vi None = Inr (Accepted r)"
proof -
  let ?t = "time_at None (vi_now vi)"
  have t: "?t = (\<lambda>_. vi_now vi)" by (simp add: time_at_def fun_eq_iff)
  obtain att u subj k obs where s: "verification_subject H p cand collected policy vi = Inr (att, u, subj)"
    and loop: "check_loop ?t produce att subj (vi_verifier_id vi) (required_checks policy) [] 0 = Inr (obs, k)"
    and nil: "check_findings att subj (vi_verifier_id vi) (?t k) (cr_candidate_id cand) (required_checks policy) obs = []"
    and f: "accepted_fact H p cand collected vi att u = Inr (ac_satisfaction r)"
    and r: "r = \<lparr>ac_candidate = cand, ac_subject = subj, ac_evidence = present obs,
       ac_policy = vp_reference policy, ac_satisfaction = ac_satisfaction r\<rparr>"
    by (rule verify_candidate_Accepted[OF assms])
  note good = no_findings[OF loop nil]
  have ev: "ac_evidence r = present obs" using r by (metis accepted_result.simps(3))
  have names: "list_all2 (\<lambda>name e. ev_check e = name) (required_checks policy) (present obs)"
    by (rule list_all2_mono[OF good(1)]) (simp add: evidence_valid_def)
  have "recorded_checks r (required_checks policy ! i) subj = Some (present obs ! i)"
    if "i < length (required_checks policy)" for i
    using find_check[OF names verification_subjectD(11)[OF s] that] by (simp add: recorded_checks_def ev)
  then have replay: "list_all2 (\<lambda>name e. recorded_checks r name subj = Some e
      \<and> good_evidence att subj (vi_verifier_id vi) (vi_now vi) name e) (required_checks policy) (present obs)"
    using good(1) unfolding list_all2_conv_all_nth by (simp add: time_at_def)
  have "check_loop ?t (recorded_checks r) att subj (vi_verifier_id vi) (required_checks policy) [] 0
      = Inr (obs, 2 * length (required_checks policy))"
    using replay_loop[where produce = "recorded_checks r" and now = "vi_now vi", OF replay, of "[]" 0] check_loop_distinct_ids[OF loop] good(2) t by simp
  then show ?thesis using s nil f r by (simp add: verify_candidate_def time_at_def)
qed

section \<open>The domain admits the fact\<close>

lemma program_attempt_ok:
  assumes "program_ok H p" and "program_attempt p i = Inr att"
  shows "as_program_id (at_spec att) = pg_id p" and "at_id att = i"
proof -
  have a: "att \<in> set (pg_attempts p)" "at_id att = i"
    using assms program_attempt_Inr_iff[OF inv_wf(4)[OF assms(1)]] by blast+
  then show "at_id att = i" by blast
  show "as_program_id (at_spec att) = pg_id p"
    using facts_okD(4)[of H "pg_revision p" "locals p" att] assms(1) a(1) by (simp add: program_ok_def attempt_ok_def)
qed

lemma current_spec_found:
  assumes "program_ok H p"
  shows "List.find (\<lambda>s. spec_key H s = spec_key H (pg_spec p)) (pg_spec_history p) = Some (pg_spec p)"
proof -
  note h = inv_wf(3)[OF assms]
  have "pg_spec p \<in> set (pg_spec_history p)" by (rule history_okD(1)[OF h])
  then obtain s where s: "List.find (\<lambda>s. spec_key H s = spec_key H (pg_spec p)) (pg_spec_history p) = Some s"
    by (cases "List.find (\<lambda>s. spec_key H s = spec_key H (pg_spec p)) (pg_spec_history p)")
      (auto simp: find_None_iff)
  then have "s \<in> set (pg_spec_history p)" "spec_key H s = spec_key H (pg_spec p)" by (auto dest: find_SomeD)
  moreover have "inj_on ps_revision (set (pg_spec_history p))"
  proof -
    have "map ps_revision (pg_spec_history p) = map int [1..<length (pg_spec_history p) + 1]"
      using h by (simp add: history_ok_def)
    then have "distinct (map ps_revision (pg_spec_history p))" by (simp add: distinct_map)
    then show ?thesis by (simp add: distinct_map)
  qed
  ultimately have "s = pg_spec p"
    using \<open>pg_spec p \<in> set (pg_spec_history p)\<close> by (meson inj_onD prod.inject)
  with s show ?thesis by simp
qed

lemma accepted_fact_admitted:
  assumes ok: "program_ok H p" and H: "digest_like H"
    and s: "verification_subject H p cand collected policy vi = Inr (att, u, subj)"
    and f: "accepted_fact H p cand collected vi att u = Inr t"
    and st: "pg_status p \<in> {ProgramActive, ProgramPaused, ProgramCompleted}"
    and new: "vi_reference_id vi \<notin> ts_reference_id ` set (pg_satisfactions p)"
  shows "\<exists>p'. Domain_Program.issue H p (SatisfyWorkUnit (pg_revision p) (ts_issuer_id t) t) = Inr p'"
proof -
  let ?c = "SatisfyWorkUnit (pg_revision p) (ts_issuer_id t) t"
  note sD = verification_subjectD[OF s] and fD = accepted_factD[OF f]
  have rev: "0 \<le> pg_revision p" using ok by (simp add: program_ok_def)
  have cok: "command_ok ?c" using rev sD(10) fD(8) by (simp add: command_ok_def revision_ok_def)
  have wf: "wf_command ?c" using cok fD(1) by (simp add: wf_command_def)
  note att = program_attempt_ok[OF ok sD(1)]
  have u: "wu_work_unit_id u = at_unit att"
    using sD(2) spec_work_unit_Inr_iff[OF wf_specD(2)[OF inv_wf(1)[OF ok]]] by blast
  have found: "List.find (\<lambda>s. spec_key H s = (ts_spec_revision t, ts_spec_digest t)) (pg_spec_history p) = Some (pg_spec p)"
    using current_spec_found[OF ok] fD(5,6) by simp
  have src: "program_attempt p (ts_source_attempt_id t) = Inr att" using sD(1) att(2) fD(9) by simp
  have "\<not> list_ex (\<lambda>r. ts_reference_id r = ts_reference_id t) (pg_satisfactions p)"
    using new fD(2) by (auto simp: list_ex_iff image_iff)
  then have "apply_satisfy H p (pg_revision p + 1) (ts_issuer_id t) t (locals p)
      = Inr ((locals p)\<lparr>ap_satisfactions := pg_satisfactions p @ [t\<lparr>ts_record_order := pg_revision p + 1\<rparr>]\<rparr>)"
    using st found sD(2,4,5,6,9) fD(3,4,5,6,7,10,11) u src att(1) mk_TrustedSatisfaction_record[OF fD(1), of "pg_revision p + 1"] rev
    by (simp add: apply_satisfy_def)
  then have h: "handle H p ?c = Inr (Some ((locals p)\<lparr>ap_satisfactions := pg_satisfactions p @ [t\<lparr>ts_record_order := pg_revision p + 1\<rparr>]\<rparr>))"
    by (simp add: handle_def Let_def)
  have "authorize (ps_authority (pg_spec p)) (action_of ?c) (cmd_actor_id ?c) = Inr ()"
    using sD(7) fD(8) by (simp add: authorize_def)
  then obtain sts where "apply_command H p ?c = Inr (result_of H p ((locals p)\<lparr>ap_satisfactions := pg_satisfactions p
      @ [t\<lparr>ts_record_order := pg_revision p + 1\<rparr>]\<rparr>) sts)"
    using apply_command_handled[OF ok H wf _ _ h] by (metis domain_command.sel(11))
  then show ?thesis using cok by (simp add: Domain_Program.issue_def)
qed

section \<open>Properties\<close>


text \<open>Admission satisfies the work unit. When \<open>admit_accepted\<close> returns on a reachable program, and the
  verified attempt consumed the inputs that are resolved now, the unit of the attempt is \<open>SATISFIED\<close>
  by exactly the accepted fact; the issuer is trusted and is not the actor that ran the attempt.\<close>

theorem admission_satisfies_the_unit:
  assumes "digest_like H" and "wf_spec sp" and "reachable H sp p"
    and "admit_accepted H p r collected policy repository base_revision head_revision now = Inr p'"
    and "program_attempt p (cd_attempt_id (cr_publication (ac_candidate r))) = Inr att"
    and "program_resolved_inputs p (at_unit att) = Inr ins"
    and "same_subject (as_effective_inputs (at_spec att)) ins"
  shows "program_state p' (at_unit att)
      = Inr (unit_state (at_unit att) UnitSatisfied None (Some (ts_reference_id (ac_satisfaction r))))
    \<and> ts_issuer_id (ac_satisfaction r) |\<in>| ae_trusted_satisfaction_issuers (ps_authority (pg_spec p))
    \<and> ts_issuer_id (ac_satisfaction r) \<noteq> at_actor_id att"
proof -
  note ok = reachable_ok[OF assms(1-3)]
  let ?t = "ac_satisfaction r" and ?cand = "ac_candidate r"
  let ?vi = "\<lparr>vi_repository = repository, vi_base_revision = base_revision, vi_head_revision = head_revision,
      vi_verifier_id = ts_issuer_id ?t, vi_reference_id = ts_reference_id ?t, vi_now = now\<rparr>"
  let ?c = "SatisfyWorkUnit (pg_revision p) (ts_issuer_id ?t) ?t"
  have v: "verify_candidate H p ?cand collected policy (recorded_checks r) ?vi None = Inr (Accepted r)"
    and ap: "apply_command H p ?c = Inr p'" and cok: "command_ok ?c"
    using assms(4) by (auto simp: admit_accepted_def Domain_Program.issue_def res_simps)
  obtain att' u subj where s: "verification_subject H p ?cand collected policy ?vi = Inr (att', u, subj)"
    and f: "accepted_fact H p ?cand collected ?vi att' u = Inr ?t"
    by (rule verify_candidate_Accepted[OF v])
  note sD = verification_subjectD[OF s] and fD = accepted_factD[OF f]
  have [simp]: "att' = att" using sD(1) assms(5) by simp
  have u: "u \<in> set (ps_work_units (pg_spec p))" "wu_work_unit_id u = at_unit att"
    using sD(2) spec_work_unit_Inr_iff[OF wf_specD(2)[OF inv_wf(1)[OF ok]]] by auto
  then have tu: "ts_work_unit_id ?t = at_unit att" "wu_work_unit_id u = ts_work_unit_id ?t" using fD(4) by simp_all
  have wf: "wf_command ?c" using cok fD(1) by (simp add: wf_command_def)
  have "status_of (pg_states p) (ts_work_unit_id ?t) \<noteq> UnitCancelled"
    using sD(3) tu by (auto simp: program_state_by_unit[OF ok] split: option.splits)
  moreover have "program_attempt p (ts_source_attempt_id ?t) = Inr att"
    using sD(1) program_attempt_ok(2)[OF ok sD(1)] fD(9) by simp
  moreover have "fingerprint H (pg_spec p) (ts_work_unit_id ?t) = Inr (ts_work_unit_fingerprint ?t)"
    using fD(7) tu by simp
  moreover have "wu_outputs u = fset_of_list (map ib_name (ts_output_bindings ?t))" using fD(11) sD(9) by simp
  moreover have "program_resolved_inputs p (ts_work_unit_id ?t) = Inr ins" using assms(6) tu by simp
  ultimately have "by_unit (pg_states p') (ts_work_unit_id ?t)
      = Some (unit_state (ts_work_unit_id ?t) UnitSatisfied None (Some (ts_reference_id ?t)))"
    using satisfy_effect[OF ok assms(1) wf ap u(1) tu(2) _ _ _ _ assms(7)] by blast
  then have "program_state p' (at_unit att) = Inr (unit_state (at_unit att) UnitSatisfied None (Some (ts_reference_id ?t)))"
    using tu(1) by (simp add: program_state_by_unit[OF apply_command_inv[OF ap ok assms(1) wf]])
  then show ?thesis using sD(7,8) by simp
qed

end
