(* ===== verification/Verification_Witnesses.thy ===== *)
theory Verification_Witnesses
  imports Verification_Admission Domain_Demo
begin

text \<open>
  The verification of the demonstration program: after its only attempt has finished, a trusted verifier
  runs the check of the acceptance criterion and an independent review, accepts the candidate and admits it.
\<close>

definition demo_manifest :: artifact_manifest where
  "demo_manifest = \<lparr>am_workspace_key = ''k'', am_artifacts = [\<lparr>ar_path = ''out'', ar_digest = ''q''\<rparr>]\<rparr>"

definition demo_candidate_result :: candidate_result where
  "demo_candidate_result = \<lparr>cr_candidate_id = ''n'', cr_publication = \<lparr>cd_attempt_id = ''a1'', cd_spec_digest = ''d'',
     cd_artifacts = demo_manifest\<rparr>, cr_outputs = [(''x'', ''out'')]\<rparr>"

definition demo_verification_policy :: verification_policy where
  "demo_verification_policy = \<lparr>vp_reference = demo_policy, vp_checks = [''c''], vp_reviewer_required = True\<rparr>"

definition demo_inputs :: verification_inputs where
  "demo_inputs = \<lparr>vi_repository = ''r'', vi_base_revision = ''b'', vi_head_revision = ''h'',
     vi_verifier_id = ''verifier'', vi_reference_id = ''s1'', vi_now = 5\<rparr>"

text \<open>A producer whose every check passes.\<close>

definition demo_produce :: "string \<Rightarrow> evidence_subject \<Rightarrow> evidence option" where
  "demo_produce name subj = Some \<lparr>ev_evidence_id = name, ev_check = name, ev_subject = subj, ev_producer = ''ci'',
     ev_tool_version = ''1'', ev_artifact_reference = ''log'', ev_observed_at = 4, ev_fresh_until = 6,
     ev_passed = True, ev_reviewer_session = Some ''cold''\<rparr>"

definition demo_subject :: evidence_subject where
  "demo_subject = \<lparr>es_candidate_digest = ''d'', es_attempt_digest = ''d'', es_spec_digest = ''d'',
     es_policy_digest = ''d'', es_repository = ''r'', es_base_revision = ''b'', es_head_revision = ''h''\<rparr>"

definition demo_fact :: trusted_satisfaction where
  "demo_fact = demo_satisfaction\<lparr>ts_output_bindings := [demo_output\<lparr>ib_reference := ''artifact:q''\<rparr>]\<rparr>"

definition demo_accepted :: accepted_result where
  "demo_accepted = \<lparr>ac_candidate = demo_candidate_result, ac_subject = demo_subject,
     ac_evidence = [the (demo_produce ''c'' demo_subject), the (demo_produce ''independent_review'' demo_subject)],
     ac_policy = demo_policy, ac_satisfaction = demo_fact\<rparr>"

lemma demo_4_attempt:
  "program_attempt demo_4 ''a1'' = Inr \<lparr>at_spec = demo_attempt, at_status = AttemptFinished, at_actor_id = ''worker''\<rparr>"
  by (simp add: program_attempt_def demo_4_def demo_attempt_def)

lemma demo_4_unit: "spec_work_unit (pg_spec demo_4) ''a'' = Inr unit_a"
  by (simp add: spec_work_unit_def demo_4_def demo_1_def demo_0_def demo_spec_def unit_a_def)

lemma demo_4_state: "program_state demo_4 ''a'' = Inr (unit_state ''a'' UnitReady None None)"
  by (simp add: program_state_def demo_4_def demo_1_def unit_state_def)

lemma demo_digests: "spec_digest demo_hash sp = ''d''" "attempt_digest demo_hash att = ''d''" "candidate_digest demo_hash c = ''d''"
  by (simp_all add: spec_digest_def attempt_digest_def candidate_digest_def json_digest_def demo_hash_def)

lemma demo_4_fingerprint: "fingerprint demo_hash (pg_spec demo_4) ''a'' = Inr ''d''"
  by code_simp

lemma demo_verification_subject:
  "verification_subject demo_hash demo_4 demo_candidate_result demo_manifest demo_verification_policy demo_inputs =
    Inr (\<lparr>at_spec = demo_attempt, at_status = AttemptFinished, at_actor_id = ''worker''\<rparr>, unit_a, demo_subject)"
proof -
  have texts: "each required [''r'', ''b'', ''h'', ''verifier'', ''s1''] = Inr ()"
    "each required [''d'', ''d'', ''d'', ''d'', ''r'', ''b'', ''h''] = Inr ()" by code_simp+
  have fields: "as_work_unit_id demo_attempt = ''a''" "as_attempt_id demo_attempt = ''a1''" "as_spec_digest demo_attempt = ''d''"
    "as_spec_revision demo_attempt = 1" "as_workspace_reference demo_attempt = Some ''k''" "wu_work_unit_id unit_a = ''a''"
    "wu_acceptance_policy_reference unit_a = None" "wu_acceptance_criteria unit_a = [''c'']" "wu_outputs unit_a = {|''x''|}"
    "pg_satisfactions demo_4 = []" "pg_spec demo_4 = demo_spec" "us_status (unit_state ''a'' UnitReady None None) = UnitReady"
    by (simp_all add: demo_attempt_def unit_a_def demo_4_def demo_1_def demo_0_def unit_state_def)
  have spec: "ps_revision demo_spec = 1" "ps_policy_references demo_spec = [demo_policy]" "ps_acceptance_criteria demo_spec = [''c'']"
    "ae_trusted_satisfaction_issuers (ps_authority demo_spec) = {|''owner'', ''verifier''|}"
    by (simp_all add: demo_spec_def demo_authority_def)
  show ?thesis
    unfolding verification_subject_def Let_def
    using demo_4_attempt demo_4_unit demo_4_state texts
    by (simp add: demo_candidate_result_def demo_inputs_def demo_manifest_def demo_verification_policy_def fields spec
        demo_digests required_checks_def check_EvidenceSubject_def demo_subject_def)
      (simp add: demo_policy_def)
qed

lemma demo_verified:
  "verify_candidate demo_hash demo_4 demo_candidate_result demo_manifest demo_verification_policy demo_produce
    demo_inputs None = Inr (Accepted demo_accepted)"
proof -
  let ?att = "\<lparr>at_spec = demo_attempt, at_status = AttemptFinished, at_actor_id = ''worker''\<rparr>"
  let ?es = "[the (demo_produce ''c'' demo_subject), the (demo_produce ''independent_review'' demo_subject)]"
  have checks: "required_checks demo_verification_policy = [''c'', ''independent_review'']"
    by (simp add: required_checks_def demo_verification_policy_def)
  have good: "list_all2 (\<lambda>name e. demo_produce name demo_subject = Some e
      \<and> good_evidence ?att demo_subject ''verifier'' 5 name e) [''c'', ''independent_review''] ?es"
    by (simp add: demo_produce_def evidence_valid_def demo_attempt_def)
  have "check_loop (\<lambda>_. 5) demo_produce ?att demo_subject ''verifier'' [''c'', ''independent_review''] (map Some []) 0
      = Inr (map Some ([] @ ?es), 0 + 2 * length [''c'', ''independent_review''])"
    by (rule replay_loop[where produce = demo_produce and now = 5, OF good]) (simp_all add: demo_produce_def)
  then have loop: "check_loop (time_at None 5) demo_produce ?att demo_subject ''verifier''
      [''c'', ''independent_review''] [] 0 = Inr (map Some ?es, 4)"
    by (simp add: time_at_def[abs_def])
  have nil: "check_findings ?att demo_subject ''verifier'' 5 ''n'' [''c'', ''independent_review''] (map Some ?es) = []"
    using good unfolding check_findings_Nil_iff by (auto simp: less_Suc_eq nth_Cons')
  have outputs: "candidate_outputs demo_candidate_result demo_manifest = Inr [demo_output\<lparr>ib_reference := ''artifact:q''\<rparr>]"
    by code_simp
  have "accepted_fact demo_hash demo_4 demo_candidate_result demo_manifest demo_inputs ?att unit_a = Inr demo_fact"
    unfolding accepted_fact_def outputs rbind.simps demo_digests
    using demo_4_fingerprint by (simp add: unit_a_def) code_simp
  then show ?thesis
    unfolding verify_candidate_def demo_verification_subject rbind.simps prod.case checks Let_def
    using loop nil
    by (simp add: demo_inputs_def demo_accepted_def demo_candidate_result_def demo_verification_policy_def time_at_def)
qed


lemma demo_4_active:
  "pg_status demo_4 \<in> {ProgramActive, ProgramPaused, ProgramCompleted}"
  "vi_reference_id demo_inputs \<notin> ts_reference_id ` set (pg_satisfactions demo_4)"
  by (simp_all add: demo_4_def demo_1_def demo_0_def)


lemma demo_fact_applied: "apply_command demo_hash demo_4 (SatisfyWorkUnit 4 ''verifier'' demo_fact) =
    Inr (demo_5\<lparr>pg_satisfactions := [demo_fact\<lparr>ts_record_order := 5\<rparr>]\<rparr>)"
  by code_simp

lemma demo_accepted_simps:
  "ts_issuer_id demo_fact = ''verifier''" "ts_reference_id demo_fact = ''s1''"
  "ts_source_attempt_id demo_fact = cd_attempt_id (cr_publication demo_candidate_result)"
  "ac_policy demo_accepted = vp_reference demo_verification_policy" "ac_candidate demo_accepted = demo_candidate_result"
  "ac_satisfaction demo_accepted = demo_fact" "pg_revision demo_4 = 4"
  by (simp_all add: demo_accepted_def demo_fact_def demo_satisfaction_def demo_candidate_result_def
      demo_verification_policy_def demo_4_def)

lemma demo_admission:
  "admit_accepted demo_hash demo_4 demo_accepted demo_manifest demo_verification_policy ''r'' ''b'' ''h'' 5 =
    Inr (demo_5\<lparr>pg_satisfactions := [demo_fact\<lparr>ts_record_order := 5\<rparr>]\<rparr>)"
proof -
  have "\<lparr>vi_repository = ''r'', vi_base_revision = ''b'', vi_head_revision = ''h'', vi_verifier_id = ''verifier'',
      vi_reference_id = ''s1'', vi_now = 5\<rparr> = demo_inputs" by (simp add: demo_inputs_def)
  moreover have "command_ok (SatisfyWorkUnit 4 ''verifier'' demo_fact)"
    by (simp add: command_ok_def revision_ok_def nonblank_def isspace_def)
  ultimately show ?thesis
    unfolding admit_accepted_def demo_accepted_simps
    using verify_replays[OF demo_verified] demo_fact_applied by (simp add: Domain_Program.issue_def demo_accepted_simps)
qed

lemma demo_4_inputs: "program_resolved_inputs demo_4 ''a'' = Inr [demo_input]"
  by code_simp

lemma demo_4_same: "same_subject [demo_input] [demo_input]"
  by code_simp

theorem admission_satisfies_the_unit_witness:
  "program_state (demo_5\<lparr>pg_satisfactions := [demo_fact\<lparr>ts_record_order := 5\<rparr>]\<rparr>) ''a'' =
    Inr (unit_state ''a'' UnitSatisfied None (Some ''s1''))"
proof -
  let ?att = "\<lparr>at_spec = demo_attempt, at_status = AttemptFinished, at_actor_id = ''worker''\<rparr>"
  have att: "program_attempt demo_4 (cd_attempt_id (cr_publication (ac_candidate demo_accepted))) = Inr ?att"
    using demo_4_attempt by (simp add: demo_accepted_simps demo_candidate_result_def)
  have u: "at_unit ?att = ''a''" "as_effective_inputs (at_spec ?att) = [demo_input]" by (simp_all add: demo_attempt_def)
  have "program_state (demo_5\<lparr>pg_satisfactions := [demo_fact\<lparr>ts_record_order := 5\<rparr>]\<rparr>) (at_unit ?att) =
      Inr (unit_state (at_unit ?att) UnitSatisfied None (Some (ts_reference_id (ac_satisfaction demo_accepted))))"
    using admission_satisfies_the_unit[OF demo_digest demo_spec_wf demo_reachable(4) demo_admission att, of "[demo_input]"]
      demo_4_inputs demo_4_same unfolding u by blast
  then show ?thesis unfolding u demo_accepted_simps .
qed

definition demo_rejection :: rejected_result where
  "demo_rejection = \<lparr>rj_candidate = demo_candidate_result, rj_subject = demo_subject, rj_evidence = [],
     rj_findings = [\<lparr>fi_finding_id = ''n:c'', fi_fingerprint = ''c'', fi_subject = demo_subject, fi_reason = ''why''\<rparr>]\<rparr>"

lemma demo_rounds: "remediation_rounds 1 0 [([demo_rejection], True, False), ([demo_rejection], True, False)] = Inr 1"
  by code_simp

theorem remediation_is_bounded_witness:
  "remediation_rounds 1 0 [([demo_rejection], True, False), ([demo_rejection], True, False)] = Inr 1 \<and> 0 + (1 :: int) \<le> 1"
  using remediation_is_bounded[OF demo_rounds] demo_rounds by simp

end
