(* ===== verification/Json_Parse.thy ===== *)
theory Json_Parse
  imports Core_Prelude
begin

text \<open>
  \<open>json.loads\<close> on decoded text, for documents without floating-point numbers and with code points below
  256: a number with a fraction or an exponent, \<open>NaN\<close>, \<open>Infinity\<close> and an escape of a larger code point are
  outside the model and read as a failure, \<open>None\<close>, as is every document that \<open>json.loads\<close> refuses.

  The parser is recursive descent with fuel; every document of length \<open>n\<close> needs at most \<open>2 * n\<close> steps
  (\<open>parse_fuel\<close>), which is what \<open>loads\<close> provides. \<open>object_pairs_hook\<close> is a parameter. The main result is that
  \<open>loads\<close> inverts \<open>dumps\<close> up to the order of object fields.
\<close>

section \<open>Tokens\<close>

definition json_space :: "char \<Rightarrow> bool" where
  "json_space c \<longleftrightarrow> (of_char c :: nat) \<in> {9, 10, 13, 32}"

definition skip :: "string \<Rightarrow> string" where
  "skip s = dropWhile json_space s"

definition hex_value :: "char \<Rightarrow> nat option" where
  "hex_value c = (let n = of_char c :: nat in
     if 48 \<le> n \<and> n \<le> 57 then Some (n - 48)
     else if 97 \<le> n \<and> n \<le> 102 then Some (n - 87)
     else if 65 \<le> n \<and> n \<le> 70 then Some (n - 55)
     else None)"

text \<open>The rest of a text after its opening quotation mark.\<close>

fun parse_text :: "string \<Rightarrow> (string \<times> string) option" where
  "parse_text [] = None"
| "parse_text (c # s) =
     (if c = CHR 0x22 then Some ([], s)
      else if c = CHR 0x5C then (case s of
          [] \<Rightarrow> None
        | d # r \<Rightarrow>
            if d = CHR ''u'' then (case r of
                w # x # y # z # r' \<Rightarrow> (case (hex_value w, hex_value x, hex_value y, hex_value z) of
                    (Some i, Some j, Some k, Some l) \<Rightarrow>
                      if i = 0 \<and> j = 0 then map_option (apfst ((#) (char_of (k * 16 + l)))) (parse_text r') else None
                  | _ \<Rightarrow> None)
              | _ \<Rightarrow> None)
            else (case map_of [(CHR 0x22, CHR 0x22), (CHR 0x5C, CHR 0x5C), (CHR ''/'', CHR ''/''),
                (CHR ''b'', CHR 0x08), (CHR ''f'', CHR 0x0C), (CHR ''n'', CHR 0x0A), (CHR ''r'', CHR 0x0D),
                (CHR ''t'', CHR 0x09)] d of
                None \<Rightarrow> None
              | Some e \<Rightarrow> map_option (apfst ((#) e)) (parse_text r)))
      else if (of_char c :: nat) < 32 then None
      else map_option (apfst ((#) c)) (parse_text s))"

definition digits_nat :: "string \<Rightarrow> nat" where
  "digits_nat s = foldl (\<lambda>n c. 10 * n + (of_char c - 48)) 0 s"

text \<open>\<open>-?(0|[1-9]\\d*)\<close>; what follows must not make it a floating-point number.\<close>

definition parse_digits :: "string \<Rightarrow> (nat \<times> string) option" where
  "parse_digits s = (case s of
     [] \<Rightarrow> None
   | c # r \<Rightarrow>
       if \<not> is_digit_char c then None
       else if c = CHR ''0'' then Some (0, r)
       else Some (digits_nat (takeWhile is_digit_char s), dropWhile is_digit_char s))"

definition parse_number :: "string \<Rightarrow> (json \<times> string) option" where
  "parse_number s =
     (let (neg, r) = (case s of c # r \<Rightarrow> if c = CHR ''-'' then (True, r) else (False, s) | [] \<Rightarrow> (False, [])) in
      case parse_digits r of
        None \<Rightarrow> None
      | Some (n, rest) \<Rightarrow>
          if rest \<noteq> [] \<and> hd rest \<in> set ''.eE'' then None
          else Some (JInt (if neg then - int n else int n), rest))"

definition parse_word :: "string \<Rightarrow> json \<Rightarrow> string \<Rightarrow> (json \<times> string) option" where
  "parse_word w j s = (if prefix w s then Some (j, drop (length w) s) else None)"

section \<open>Values\<close>

type_synonym pairs_hook = "(string \<times> json) list \<Rightarrow> (string \<times> json) list option"

fun parse_value :: "pairs_hook \<Rightarrow> nat \<Rightarrow> string \<Rightarrow> (json \<times> string) option"
  and parse_items :: "pairs_hook \<Rightarrow> nat \<Rightarrow> string \<Rightarrow> (json list \<times> string) option"
  and parse_members :: "pairs_hook \<Rightarrow> nat \<Rightarrow> string \<Rightarrow> ((string \<times> json) list \<times> string) option" where
  "parse_value hook 0 s = None"
| "parse_value hook (Suc n) s = (case skip s of
     [] \<Rightarrow> None
   | c # r \<Rightarrow>
       if c = CHR 0x22 then map_option (apfst JStr) (parse_text r)
       else if c = CHR ''['' then
         (case skip r of
            d # r' \<Rightarrow> if d = CHR '']'' then Some (JList [], r') else map_option (apfst JList) (parse_items hook n r)
          | [] \<Rightarrow> None)
       else if c = CHR ''{'' then
         (case skip r of
            d # r' \<Rightarrow> if d = CHR ''}'' then map_option (\<lambda>kvs. (JObj kvs, r')) (hook [])
              else (case parse_members hook n r of
                None \<Rightarrow> None
              | Some (kvs, r'') \<Rightarrow> map_option (\<lambda>kvs'. (JObj kvs', r'')) (hook kvs))
          | [] \<Rightarrow> None)
       else if c = CHR ''n'' then parse_word ''null'' JNull (c # r)
       else if c = CHR ''t'' then parse_word ''true'' (JBool True) (c # r)
       else if c = CHR ''f'' then parse_word ''false'' (JBool False) (c # r)
       else parse_number (c # r))"
| "parse_items hook 0 s = None"
| "parse_items hook (Suc n) s = (case parse_value hook n s of
     None \<Rightarrow> None
   | Some (v, r) \<Rightarrow> (case skip r of
       [] \<Rightarrow> None
     | c # r' \<Rightarrow>
         if c = CHR '','' then map_option (apfst ((#) v)) (parse_items hook n r')
         else if c = CHR '']'' then Some ([v], r')
         else None))"
| "parse_members hook 0 s = None"
| "parse_members hook (Suc n) s = (case skip s of
     [] \<Rightarrow> None
   | q # r \<Rightarrow>
       if q \<noteq> CHR 0x22 then None
       else (case parse_text r of
         None \<Rightarrow> None
       | Some (k, r1) \<Rightarrow> (case skip r1 of
           [] \<Rightarrow> None
         | c # r2 \<Rightarrow>
             if c \<noteq> CHR '':'' then None
             else (case parse_value hook n r2 of
               None \<Rightarrow> None
             | Some (v, r3) \<Rightarrow> (case skip r3 of
                 [] \<Rightarrow> None
               | d # r4 \<Rightarrow>
                   if d = CHR '','' then map_option (apfst ((#) (k, v))) (parse_members hook n r4)
                   else if d = CHR ''}'' then Some ([(k, v)], r4)
                   else None)))))"

definition loads_with :: "pairs_hook \<Rightarrow> string \<Rightarrow> json option" where
  "loads_with hook s = (case parse_value hook (2 * length s) s of
     None \<Rightarrow> None
   | Some (v, r) \<Rightarrow> if skip r = [] then Some v else None)"

text \<open>Without a hook an object is a dictionary: the last value of a repeated name wins.\<close>

definition dict_hook :: pairs_hook where
  "dict_hook kvs = Some (dict_update [] kvs)"

definition loads :: "string \<Rightarrow> json option" where
  "loads s = loads_with dict_hook s"

section \<open>Fuel\<close>

lemma parse_text_shorter: "parse_text s = Some (t, r) \<Longrightarrow> length r < length s"
  by (induction s arbitrary: t r rule: parse_text.induct)
    (auto split: if_splits list.splits option.splits, fastforce+)

section \<open>Reading back what was printed\<close>

text \<open>Every object of a document is what the hook makes of it.\<close>

primrec hook_ok :: "pairs_hook \<Rightarrow> json \<Rightarrow> bool" where
  "hook_ok hook JNull = True"
| "hook_ok hook (JBool b) = True"
| "hook_ok hook (JInt i) = True"
| "hook_ok hook (JStr s) = True"
| "hook_ok hook (JList xs) = list_all id (map (hook_ok hook) xs)"
| "hook_ok hook (JObj kvs) = (hook kvs = Some kvs \<and> list_all (id \<circ> snd) (map (map_prod id (hook_ok hook)) kvs))"

lemma hook_ok_JList: "hook_ok hook (JList xs) \<longleftrightarrow> (\<forall>x \<in> set xs. hook_ok hook x)"
  by (simp add: list_all_iff)

lemma hook_ok_JObj: "hook_ok hook (JObj kvs) \<longleftrightarrow> hook kvs = Some kvs \<and> (\<forall>kv \<in> set kvs. hook_ok hook (snd kv))"
  by (simp add: list_all_iff)

declare hook_ok.simps(5,6) [simp del]

lemma skip_plain [simp]: "\<not> json_space c \<Longrightarrow> skip (c # s) = c # s"
  by (simp add: skip_def)

lemma skip_Nil [simp]: "skip [] = []"
  by (simp add: skip_def)

lemma punctuation_plain [simp]:
  "\<not> json_space CHR 0x22" "\<not> json_space CHR ''[''" "\<not> json_space CHR '']''" "\<not> json_space CHR ''{''"
  "\<not> json_space CHR ''}''" "\<not> json_space CHR '',''" "\<not> json_space CHR '':''" "\<not> json_space CHR ''n''"
  "\<not> json_space CHR ''t''" "\<not> json_space CHR ''f''" "\<not> json_space CHR ''-''"
  by (simp_all add: json_space_def)

lemma digit_plain: "is_digit_char c \<Longrightarrow> \<not> json_space c"
  by (auto simp: is_digit_char_def json_space_def)

lemma hex_value_digit_char: "n < 16 \<Longrightarrow> hex_value (digit_char n) = Some n"
  by (auto simp: hex_value_def digit_char_def of_char_of Let_def)

lemma of_char_numeral_eqD:
  "(of_char c :: nat) = 34 \<Longrightarrow> c = CHR 0x22" "(of_char c :: nat) = 92 \<Longrightarrow> c = CHR 0x5C"
  "(of_char c :: nat) = 10 \<Longrightarrow> c = CHR 0x0A" "(of_char c :: nat) = 13 \<Longrightarrow> c = CHR 0x0D"
  "(of_char c :: nat) = 9 \<Longrightarrow> c = CHR 0x09" "(of_char c :: nat) = 12 \<Longrightarrow> c = CHR 0x0C"
  "(of_char c :: nat) = 8 \<Longrightarrow> c = CHR 0x08" "(of_char c :: nat) = 48 \<Longrightarrow> c = CHR ''0''"
  by (rule of_char_eq_iff[where 'a = nat, THEN iffD1], simp)+

lemma parse_text_escape: "parse_text (escape_char c @ u) = map_option (apfst ((#) c)) (parse_text u)"
proof -
  have "(of_char c :: nat) < 256" by simp
  then have d: "(of_char c :: nat) div 16 < 16" "(of_char c :: nat) mod 16 < 16"
    by (simp_all add: less_mult_imp_div_less)
  have hex0: "hex_value CHR ''0'' = Some 0" by (simp add: hex_value_def)
  consider "of_char c = (34 :: nat)" | "of_char c = (92 :: nat)" | "of_char c = (10 :: nat)" | "of_char c = (13 :: nat)"
    | "of_char c = (9 :: nat)" | "of_char c = (12 :: nat)" | "of_char c = (8 :: nat)"
    | (plain) "(of_char c :: nat) \<notin> {34, 92, 10, 13, 9, 12, 8}" "32 \<le> (of_char c :: nat) \<and> (of_char c :: nat) \<le> 126"
    | (hex) "(of_char c :: nat) \<notin> {34, 92, 10, 13, 9, 12, 8}" "\<not> (32 \<le> (of_char c :: nat) \<and> (of_char c :: nat) \<le> 126)"
    by auto
  then show ?thesis
  proof cases
    case plain
    then have "c \<noteq> CHR 0x22" "c \<noteq> CHR 0x5C" by auto
    with plain show ?thesis by (simp add: escape_char_def Let_def)
  next
    case hex
    have "char_of ((of_char c :: nat) div 16 * 16 + of_char c mod 16) = c" by (simp only: div_mult_mod_eq char_of_char)
    moreover have "escape_char c = [CHR 0x5C, CHR ''u'', CHR ''0'', CHR ''0'', digit_char (of_char c div 16), digit_char (of_char c mod 16)]"
      using hex by (auto simp: escape_char_def Let_def)
    ultimately show ?thesis using d by (simp add: hex_value_digit_char hex0)
  qed (drule of_char_numeral_eqD, simp add: escape_char_def)+
qed

lemma parse_text_quote: "parse_text (concat (map escape_char s) @ CHR 0x22 # r) = Some (s, r)"
  by (induction s) (simp_all add: parse_text_escape)

lemma show_nat_leading_zero: "show_nat n = CHR ''0'' # ds \<Longrightarrow> n = 0 \<and> ds = []"
proof (induction n arbitrary: ds rule: show_nat.induct)
  case (1 n)
  show ?case
  proof (cases "n < 10")
    case True
    have "digit_char 0 = CHR ''0''" by (rule of_char_numeral_eqD) (simp add: digit_char_def of_char_of)
    then have "digit_char n = digit_char 0" using "1.prems" True by (simp add: show_nat.simps[of n])
    then show ?thesis using "1.prems" True digit_char_inj[of n 0] by (simp add: show_nat.simps[of n] show_nat.simps[of 0])
  next
    case False
    obtain c cs where c: "show_nat (n div 10) = c # cs" by (cases "show_nat (n div 10)") auto
    then have "c = CHR ''0''" using "1.prems" False by (simp add: show_nat.simps[of n])
    then have "n div 10 = 0" using "1.IH"[of cs] False c by simp
    then show ?thesis using False by simp
  qed
qed

lemma digits_nat_show_nat [simp]: "digits_nat (show_nat n) = n"
proof (induction n rule: show_nat.induct)
  case (1 n)
  have snoc: "digits_nat (s @ [c]) = 10 * digits_nat s + (of_char c - 48)" for s c by (simp add: digits_nat_def)
  have digit: "of_char (digit_char k) - 48 = k" if "k < 10" for k :: nat using that by (simp add: digit_char_def of_char_of)
  show ?case
  proof (cases "n < 10")
    case True
    then show ?thesis using digit[of n] snoc[of "[]"] by (simp add: show_nat.simps[of n] digits_nat_def)
  next
    case False
    then show ?thesis using 1 digit[of "n mod 10"] by (simp add: show_nat.simps[of n] snoc)
  qed
qed

lemma stop_plain: "stop (c # r) \<Longrightarrow> \<not> is_digit_char c \<and> c \<notin> set ''.eE''"
  by (auto simp: stop_def is_digit_char_def)

lemma parse_digits_show_nat:
  assumes "stop r"
  shows "parse_digits (show_nat n @ r) = Some (n, r)"
proof -
  obtain c cs where c: "show_nat n = c # cs" "is_digit_char c" using show_nat_hd by blast
  have digits: "\<forall>d \<in> set (show_nat n). is_digit_char d" using show_nat_digits .
  have "r = [] \<or> \<not> is_digit_char (hd r)" using assms stop_plain by (cases r) auto
  then have span: "takeWhile is_digit_char (show_nat n @ r) = show_nat n" "dropWhile is_digit_char (show_nat n @ r) = r"
    using digits by (cases r; simp add: takeWhile_append2 takeWhile_tail dropWhile_append2 dropWhile_append3)+
  have zero: "n = 0 \<and> cs = []" if "c = CHR ''0''" using show_nat_leading_zero[of n cs] c(1) that by simp
  show ?thesis
  proof (cases "c = CHR ''0''")
    case True
    then show ?thesis using c zero by (simp add: parse_digits_def)
  next
    case False
    then have "parse_digits (show_nat n @ r) =
        Some (digits_nat (takeWhile is_digit_char (show_nat n @ r)), dropWhile is_digit_char (show_nat n @ r))"
      using c by (simp add: parse_digits_def del: takeWhile.simps dropWhile.simps)
    then show ?thesis unfolding span digits_nat_show_nat .
  qed
qed

lemma parse_number_show_nat:
  assumes "stop r"
  shows "parse_number ((if neg then ''-'' else '''') @ show_nat n @ r) = Some (JInt (if neg then - int n else int n), r)"
proof -
  obtain c cs where c: "show_nat n = c # cs" "is_digit_char c" using show_nat_hd by blast
  have minus: "c \<noteq> CHR ''-''" using c(2) by (auto simp: is_digit_char_def)
  have float: "\<not> (r \<noteq> [] \<and> hd r \<in> set ''.eE'')" using assms stop_plain by (cases r) auto
  have digits: "parse_digits (c # cs @ r) = Some (n, r)" using parse_digits_show_nat[OF assms, of n] c(1) by simp
  show ?thesis using minus float by (cases neg) (auto simp: parse_number_def c(1) digits)
qed

lemma parse_number_show_int: "stop r \<Longrightarrow> parse_number (show_int i @ r) = Some (JInt i, r)"
  using parse_number_show_nat[of r True "nat (- i)"] parse_number_show_nat[of r False "nat i"]
  by (simp add: show_int_def)

lemma render_skip: "skip (render j @ r) = render j @ r"
proof (cases j)
  case (JInt i)
  then show ?thesis using show_int_hd[of i] digit_plain by auto
qed (simp_all add: quote_def)

lemma stop_skip: "stop r \<Longrightarrow> skip r = r"
  by (cases r) (auto simp: stop_def)

text \<open>The comma-separated elements of an array, and the members of an object, up to the closing bracket.\<close>

lemma parse_items_render:
  assumes "\<And>x n r. x \<in> set xs \<Longrightarrow> stop r \<Longrightarrow> 2 * length (render x) \<le> n \<Longrightarrow>
      parse_value hook n (render x @ r) = Some (x, r)"
    and "xs \<noteq> []" and "2 * length (join (map render xs)) + 1 \<le> n"
  shows "parse_items hook n (join (map render xs) @ CHR '']'' # r) = Some (xs, r)"
  using assms
proof (induction xs arbitrary: n)
  case (Cons x xs)
  obtain m where m: "n = Suc m" using Cons.prems(3) by (cases n) auto
  show ?case
  proof (cases xs)
    case Nil
    then have "parse_value hook m (render x @ CHR '']'' # r) = Some (x, CHR '']'' # r)"
      using Cons.prems(1)[of x "CHR '']'' # r" m] Cons.prems(3) m by simp
    then show ?thesis by (simp add: Nil m)
  next
    case (Cons y ys)
    let ?rest = "join (map render xs) @ CHR '']'' # r"
    have join: "join (map render (x # xs)) = render x @ CHR '','' # join (map render xs)" by (simp add: Cons)
    have "parse_value hook m (render x @ CHR '','' # ?rest) = Some (x, CHR '','' # ?rest)"
      using Cons.prems(1)[of x "CHR '','' # ?rest" m] Cons.prems(3) m by (simp add: join)
    moreover have "parse_items hook m ?rest = Some (xs, r)"
      using Cons.IH[of m] Cons.prems(1,3) m by (simp add: Cons join)
    ultimately show ?thesis unfolding join m by simp
  qed
qed simp

lemma parse_members_render:
  assumes "\<And>kv n r. kv \<in> set kvs \<Longrightarrow> stop r \<Longrightarrow> 2 * length (render (snd kv)) \<le> n \<Longrightarrow>
      parse_value hook n (render (snd kv) @ r) = Some (snd kv, r)"
    and "kvs \<noteq> []" and "2 * length (join (map render_field kvs)) + 1 \<le> n"
  shows "parse_members hook n (join (map render_field kvs) @ CHR ''}'' # r) = Some (kvs, r)"
  using assms
proof (induction kvs arbitrary: n)
  case (Cons kv kvs)
  obtain m where m: "n = Suc m" using Cons.prems(3) by (cases n) auto
  obtain k v where kv: "kv = (k, v)" by fastforce
  have field: "render_field kv = CHR 0x22 # concat (map escape_char k) @ CHR 0x22 # CHR '':'' # render v"
    by (simp add: kv quote_def)
  have fuel: "2 * length (render v) \<le> m" using Cons.prems(3) by (cases kvs) (simp_all add: m kv field)
  show ?case
  proof (cases kvs)
    case Nil
    have "parse_value hook m (render v @ CHR ''}'' # r) = Some (v, CHR ''}'' # r)"
      using Cons.prems(1)[of kv "CHR ''}'' # r" m] fuel kv by simp
    moreover have "join (map render_field [kv]) = render_field kv" by simp
    ultimately show ?thesis unfolding Nil \<open>join (map render_field [kv]) = render_field kv\<close> field m
      by (simp add: parse_text_quote kv)
  next
    case (Cons y ys)
    let ?rest = "join (map render_field kvs) @ CHR ''}'' # r"
    have join: "join (map render_field (kv # kvs)) = render_field kv @ CHR '','' # join (map render_field kvs)"
      by (simp add: Cons)
    have "parse_value hook m (render v @ CHR '','' # ?rest) = Some (v, CHR '','' # ?rest)"
      using Cons.prems(1)[of kv "CHR '','' # ?rest" m] fuel kv by simp
    moreover have "parse_members hook m ?rest = Some (kvs, r)"
      using Cons.IH[of m] Cons.prems(1,3) m by (simp add: Cons join)
    ultimately show ?thesis unfolding join field m by (simp add: parse_text_quote kv)
  qed
qed simp

lemma parse_value_render:
  "hook_ok hook j \<Longrightarrow> stop r \<Longrightarrow> 2 * length (render j) \<le> n \<Longrightarrow> parse_value hook n (render j @ r) = Some (j, r)"
proof (induction j arbitrary: n r)
  case JNull
  then show ?case by (cases n) (simp_all add: parse_word_def)
next
  case (JBool b)
  then show ?case by (cases n; cases b) (simp_all add: parse_word_def)
next
  case (JInt i)
  obtain c cs where c: "show_int i = c # cs" "is_digit_char c \<or> c = CHR ''-''" using show_int_hd by blast
  then have "\<not> json_space c" "c \<notin> {CHR 0x22, CHR ''['', CHR ''{'', CHR ''n'', CHR ''t'', CHR ''f''}"
    using digit_plain by (auto simp: is_digit_char_def)
  moreover obtain m where "n = Suc m" using JInt.prems(3) c(1) by (cases n) auto
  ultimately show ?case using parse_number_show_int[OF JInt.prems(2), of i] c(1) by simp
next
  case (JStr s)
  then obtain m where "n = Suc m" by (cases n) (auto simp: quote_def)
  then show ?case by (simp add: quote_def parse_text_quote)
next
  case (JList xs)
  then obtain m where m: "n = Suc m" by (cases n) auto
  show ?case
  proof (cases "xs = []")
    case False
    then obtain x ys where x: "xs = x # ys" by (cases xs) auto
    obtain d ds where d: "render x = d # ds" "d \<noteq> CHR '']''" using render_hd[of x] by blast
    have head: "skip (join (map render xs) @ CHR '']'' # r) = d # ds @ join_tail (map render ys) @ CHR '']'' # r"
      using render_skip[of x "join_tail (map render ys) @ CHR '']'' # r"] by (simp add: x d(1))
    have "parse_items hook m (join (map render xs) @ CHR '']'' # r) = Some (xs, r)"
    proof (rule parse_items_render[OF _ False])
      show "parse_value hook n (render x @ r) = Some (x, r)" if "x \<in> set xs" "stop r" "2 * length (render x) \<le> n" for x n r
        using JList.IH[OF that(1) _ that(2,3)] JList.prems(1) that(1) by (simp add: hook_ok_JList)
      show "2 * length (join (map render xs)) + 1 \<le> m" using JList.prems(3) m by simp
    qed
    then show ?thesis using d(2) by (simp add: m head del: join.simps)
  qed (simp add: m)
next
  case (JObj kvs)
  then obtain m where m: "n = Suc m" by (cases n) auto
  have hook: "hook kvs = Some kvs" using JObj.prems(1) by (simp add: hook_ok_JObj)
  have printed: "render (JObj kvs) @ r = CHR ''{'' # join (map render_field kvs) @ CHR ''}'' # r"
    by (simp only: render_JObj append_assoc append_Cons append_Nil)
  show ?case
  proof (cases "kvs = []")
    case True
    then show ?thesis using hook by (simp add: m)
  next
    case False
    then obtain ds where head: "skip (join (map render_field kvs) @ CHR ''}'' # r) = CHR 0x22 # ds"
      by (cases kvs) (auto simp: quote_def)
    have "parse_members hook m (join (map render_field kvs) @ CHR ''}'' # r) = Some (kvs, r)"
    proof (rule parse_members_render[OF _ False])
      show "parse_value hook n (render (snd kv) @ r) = Some (snd kv, r)"
        if "kv \<in> set kvs" "stop r" "2 * length (render (snd kv)) \<le> n" for kv n r
        using JObj.IH[OF that(1) _ _ that(2,3)] JObj.prems(1) that(1) by (cases kv) (auto simp: hook_ok_JObj)
      show "2 * length (join (map render_field kvs)) + 1 \<le> m" using JObj.prems(3) m unfolding render_JObj by simp
    qed
    then show ?thesis unfolding printed m using hook head by simp
  qed
qed

text \<open>\<open>json.loads(json.dumps(value))\<close> is the value, its objects in sorted order.\<close>

lemma loads_with_render: "hook_ok hook j \<Longrightarrow> loads_with hook (render j) = Some j"
  using parse_value_render[of hook j "[]" "2 * length (render j)"] by (simp add: loads_with_def)

section \<open>Canonical documents\<close>

text \<open>Documents in which no object repeats a name.\<close>

definition unique_hook :: pairs_hook where
  "unique_hook kvs = (if distinct (map fst kvs) then Some kvs else None)"

abbreviation unique_keys :: "json \<Rightarrow> bool" where
  "unique_keys \<equiv> hook_ok unique_hook"

lemma unique_keys_JObj: "unique_keys (JObj kvs) \<longleftrightarrow> distinct (map fst kvs) \<and> (\<forall>kv \<in> set kvs. unique_keys (snd kv))"
  by (simp add: hook_ok_JObj unique_hook_def)

lemma update_append: "k \<notin> fst ` set d \<Longrightarrow> AList.update k v d = d @ [(k, v)]"
  by (induction d) auto

lemma dict_update_distinct: "distinct (map fst (d @ kvs)) \<Longrightarrow> dict_update d kvs = d @ kvs"
proof (induction kvs arbitrary: d)
  case (Cons kv kvs)
  obtain k v where kv: "kv = (k, v)" by fastforce
  then have "AList.update k v d = d @ [kv]" using Cons.prems by (auto intro!: update_append simp: image_iff)
  then show ?case using Cons.IH[of "d @ [kv]"] Cons.prems by (simp add: kv)
qed simp

lemma dict_hook_unique: "distinct (map fst kvs) \<Longrightarrow> dict_hook kvs = Some kvs"
  using dict_update_distinct[of "[]" kvs] by (simp add: dict_hook_def)

lemma unique_keys_dict: "unique_keys j \<Longrightarrow> hook_ok dict_hook j"
proof (induction j)
  case (JList xs)
  then show ?case by (simp add: hook_ok_JList)
next
  case (JObj kvs)
  have "hook_ok dict_hook (snd kv)" if "kv \<in> set kvs" for kv
    using JObj.IH[OF that, of "snd kv"] JObj.prems that by (cases kv) (force simp: unique_keys_JObj)
  then show ?case using JObj.prems by (simp add: hook_ok_JObj[of dict_hook] unique_keys_JObj dict_hook_unique)
qed simp_all

lemma unique_keys_canon: "unique_keys j \<Longrightarrow> unique_keys (canon j)"
proof (induction j)
  case (JList xs)
  then show ?case by (simp add: hook_ok_JList)
next
  case (JObj kvs)
  have "unique_keys (canon (snd kv))" if "kv \<in> set kvs" for kv
    using JObj.IH[OF that, of "snd kv"] JObj.prems that by (cases kv) (force simp: unique_keys_JObj)
  then show ?case using JObj.prems by (auto simp: unique_keys_JObj comp_def)
qed simp_all

lemma loads_dumps:
  assumes "unique_keys j"
  shows "loads (dumps j) = Some (canon j)" and "loads_with unique_hook (dumps j) = Some (canon j)"
  using assms by (simp_all add: loads_def dumps_def loads_with_render unique_keys_canon unique_keys_dict)

section \<open>Enough fuel\<close>

lemma skip_length: "length (skip s) \<le> length s"
  by (simp add: skip_def length_dropWhile_le)

lemma skip_ConsD: "skip s = c # r \<Longrightarrow> length r < length s"
  using skip_length[of s] by simp

lemma parse_word_shorter: "parse_word w j s = Some (v, r) \<Longrightarrow> w \<noteq> [] \<Longrightarrow> length r < length s"
  by (auto simp: parse_word_def prefix_def split: if_splits)

lemma parse_digits_shorter: "parse_digits s = Some (n, r) \<Longrightarrow> length r < length s"
  using length_dropWhile_le[of is_digit_char "tl s"]
  by (auto simp: parse_digits_def split: list.splits if_splits)

lemma parse_number_shorter: "parse_number s = Some (v, r) \<Longrightarrow> length r < length s"
  by (cases s) (auto simp: parse_number_def dest!: parse_digits_shorter split: if_splits option.splits)

lemma parse_shorter:
  "parse_value hook n s = Some (v, r) \<Longrightarrow> length r < length s"
  "parse_items hook n s = Some (vs, r) \<Longrightarrow> length r < length s"
  "parse_members hook n s = Some (kvs, r) \<Longrightarrow> length r < length s"
proof (induction n arbitrary: s v r vs kvs)
  case (Suc n)
  { case 1
    then obtain c t where t: "skip s = c # t" by (auto split: list.splits)
    have "length r < length (c # t)"
      using 1 Suc.IH(2)[of t] Suc.IH(3)[of t]
      by (auto simp: t dest!: parse_text_shorter parse_word_shorter parse_number_shorter skip_ConsD
          split: if_splits list.splits option.splits)
    then show ?case using skip_length[of s] t by simp
  next
    case 2
    then obtain v t c u where "parse_value hook n s = Some (v, t)" "skip t = c # u" "length r \<le> length u"
      using Suc.IH(2) by (fastforce split: option.splits list.splits if_splits)
    then show ?case using Suc.IH(1)[of s v t] skip_ConsD[of t c u] by simp
  next
    case 3
    then obtain q t k t1 c t2 v t3 d t4 where "skip s = q # t" "parse_text t = Some (k, t1)" "skip t1 = c # t2"
        "parse_value hook n t2 = Some (v, t3)" "skip t3 = d # t4" "length r \<le> length t4"
      using Suc.IH(3) by (fastforce split: option.splits list.splits if_splits)
    then show ?case using Suc.IH(1)[of t2 v t3] skip_ConsD[of s q t] skip_ConsD[of t1 c t2] skip_ConsD[of t3 d t4]
        parse_text_shorter[of t k t1] by simp
  }
qed simp_all

lemma parse_fuel_step:
  assumes vals: "\<And>t n m. length t < length s \<Longrightarrow> 2 * length t \<le> n \<Longrightarrow> 2 * length t \<le> m \<Longrightarrow>
      parse_value hook n t = parse_value hook m t"
    and items: "\<And>t n m. length t < length s \<Longrightarrow> 2 * length t + 1 \<le> n \<Longrightarrow> 2 * length t + 1 \<le> m \<Longrightarrow>
      parse_items hook n t = parse_items hook m t"
    and members: "\<And>t n m. length t < length s \<Longrightarrow> 2 * length t + 1 \<le> n \<Longrightarrow> 2 * length t + 1 \<le> m \<Longrightarrow>
      parse_members hook n t = parse_members hook m t"
  shows "2 * length s \<le> n \<Longrightarrow> 2 * length s \<le> m \<Longrightarrow> parse_value hook n s = parse_value hook m s"
    and "2 * length s + 1 \<le> n \<Longrightarrow> 2 * length s + 1 \<le> m \<Longrightarrow> parse_items hook n s = parse_items hook m s"
    and "2 * length s + 1 \<le> n \<Longrightarrow> 2 * length s + 1 \<le> m \<Longrightarrow> parse_members hook n s = parse_members hook m s"
proof -
  have here: "parse_value hook n s = parse_value hook m s" if fuel: "2 * length s \<le> n" "2 * length s \<le> m" for n m
  proof (cases "skip s")
    case Nil
    then show ?thesis by (cases n; cases m) simp_all
  next
    case (Cons c r)
    then have r: "length r < length s" by (rule skip_ConsD)
    then obtain n' m' where "n = Suc n'" "m = Suc m'" "2 * length r + 1 \<le> n'" "2 * length r + 1 \<le> m'"
      using fuel by (cases n; cases m) auto
    with items[OF r, of n' m'] members[OF r, of n' m'] Cons show ?thesis by (cases "skip r") simp_all
  qed
  then show "2 * length s \<le> n \<Longrightarrow> 2 * length s \<le> m \<Longrightarrow> parse_value hook n s = parse_value hook m s" .
  show "parse_items hook n s = parse_items hook m s" if fuel: "2 * length s + 1 \<le> n" "2 * length s + 1 \<le> m"
  proof -
    obtain n' m' where n: "n = Suc n'" "m = Suc m'" "2 * length s \<le> n'" "2 * length s \<le> m'"
      using fuel by (cases n; cases m) auto
    have rest: "parse_items hook n' r' = parse_items hook m' r'"
      if "parse_value hook m' s = Some (v, r)" "skip r = c # r'" for v r c r'
    proof -
      have "length r' < length s" using parse_shorter(1)[OF that(1)] skip_ConsD[OF that(2)] by simp
      then show ?thesis using n(3,4) by (intro items) simp_all
    qed
    show ?thesis using here[OF n(3,4)] rest by (auto simp: n(1,2) split: option.splits list.splits)
  qed
  show "parse_members hook n s = parse_members hook m s" if fuel: "2 * length s + 1 \<le> n" "2 * length s + 1 \<le> m"
  proof -
    obtain n' m' where n: "n = Suc n'" "m = Suc m'" "2 * length s \<le> n'" "2 * length s \<le> m'"
      using fuel by (cases n; cases m) auto
    have field: "parse_value hook n' r2 = parse_value hook m' r2"
      and rest: "\<And>v r3 d r4. parse_value hook m' r2 = Some (v, r3) \<Longrightarrow> skip r3 = d # r4 \<Longrightarrow>
        parse_members hook n' r4 = parse_members hook m' r4"
      if "skip s = q # r" "parse_text r = Some (k, r1)" "skip r1 = c # r2" for q r k r1 c r2
    proof -
      have r2: "length r2 < length s"
        using skip_ConsD[OF that(1)] parse_text_shorter[OF that(2)] skip_ConsD[OF that(3)] by simp
      then show "parse_value hook n' r2 = parse_value hook m' r2" using n(3,4) by (intro vals) simp_all
      show "parse_members hook n' r4 = parse_members hook m' r4"
        if "parse_value hook m' r2 = Some (v, r3)" "skip r3 = d # r4" for v r3 d r4
        using parse_shorter(1)[OF that(1)] skip_ConsD[OF that(2)] r2 n(3,4) by (intro members) simp_all
    qed
    show ?thesis using field rest by (auto simp: n(1,2) split: option.splits list.splits)
  qed
qed

text \<open>More fuel than \<open>loads\<close> gives changes nothing: a failure to read is never for want of fuel.\<close>

lemma parse_fuel: "2 * length s \<le> n \<Longrightarrow> parse_value hook n s = parse_value hook (2 * length s) s"
proof -
  have "(\<forall>n m. 2 * length s \<le> n \<longrightarrow> 2 * length s \<le> m \<longrightarrow> parse_value hook n s = parse_value hook m s)
    \<and> (\<forall>n m. 2 * length s + 1 \<le> n \<longrightarrow> 2 * length s + 1 \<le> m \<longrightarrow> parse_items hook n s = parse_items hook m s)
    \<and> (\<forall>n m. 2 * length s + 1 \<le> n \<longrightarrow> 2 * length s + 1 \<le> m \<longrightarrow> parse_members hook n s = parse_members hook m s)" for s
  proof (induction s rule: length_induct)
    case (1 s)
    then show ?case using parse_fuel_step[of s hook] by blast
  qed
  then show "2 * length s \<le> n \<Longrightarrow> parse_value hook n s = parse_value hook (2 * length s) s" by blast
qed

end
