(* ===== verification/Sqlite_Codec.thy ===== *)
theory Sqlite_Codec
  imports Json_Parse Domain_Program
begin

text \<open>
  adapters/sqlite_codec.py: the stored forms of programs, of commands and of program creation, their
  readers, and the checks on a stored history. A raised \<open>RecordCodecError\<close> is \<open>Inl RecordCodecError\<close>; an
  exception of core/domain.py that a reader lets through is \<open>Inl (CodecDomainError e)\<close>. The labels, which only
  occur in messages, are left out.
\<close>

datatype codec_error = RecordCodecError | CodecDomainError domain_error

type_synonym 'a cres = "codec_error + 'a"

definition lift_domain :: "'a dres \<Rightarrow> 'a cres" where
  "lift_domain r = map_sum CodecDomainError id r"

definition codec_version :: int where
  "codec_version = 1"

definition canonical_json :: "json \<Rightarrow> string" where
  "canonical_json v = dumps v"

definition digest_json :: "hash \<Rightarrow> json \<Rightarrow> string" where
  "digest_json H v = H (canonical_json v)"

section \<open>Typed access\<close>

definition codec_object :: "json \<Rightarrow> (string \<times> json) list cres" where
  "codec_object v = (case v of JObj kvs \<Rightarrow> Inr kvs | _ \<Rightarrow> Inl RecordCodecError)"

definition mapping :: "string set \<Rightarrow> json \<Rightarrow> (string \<times> json) list cres" where
  "mapping names v = rbind (codec_object v) (\<lambda>result.
     rbind (guard (json_keys result = names) RecordCodecError) (\<lambda>_. Inr result))"

text \<open>\<open>value[name]\<close> after the names were compared, and \<open>value.get(name)\<close>.\<close>

definition field :: "(string \<times> json) list \<Rightarrow> string \<Rightarrow> json" where
  "field kvs name = (case map_of kvs name of None \<Rightarrow> JNull | Some v \<Rightarrow> v)"

definition codec_array :: "json \<Rightarrow> json list cres" where
  "codec_array v = (case v of JList xs \<Rightarrow> Inr xs | _ \<Rightarrow> Inl RecordCodecError)"

definition codec_text :: "json \<Rightarrow> string cres" where
  "codec_text v = (case v of JStr s \<Rightarrow> Inr s | _ \<Rightarrow> Inl RecordCodecError)"

definition codec_optional_text :: "json \<Rightarrow> string option cres" where
  "codec_optional_text v = (if v = JNull then Inr None else rbind (codec_text v) (\<lambda>s. Inr (Some s)))"

definition codec_integer :: "json \<Rightarrow> int cres" where
  "codec_integer v = (case v of JInt i \<Rightarrow> Inr i | _ \<Rightarrow> Inl RecordCodecError)"

definition codec_strings :: "json \<Rightarrow> string list cres" where
  "codec_strings v = rbind (codec_array v) (mapM codec_text)"

definition array_of :: "(json \<Rightarrow> 'a cres) \<Rightarrow> json \<Rightarrow> 'a list cres" where
  "array_of f v = rbind (codec_array v) (mapM f)"

text \<open>\<open>None if value is None else f(value)\<close>\<close>

definition optional :: "(json \<Rightarrow> 'a cres) \<Rightarrow> json \<Rightarrow> 'a option cres" where
  "optional f v = (if v = JNull then Inr None else rbind (f v) (\<lambda>x. Inr (Some x)))"

definition versioned :: "string \<Rightarrow> (string \<times> json) list cres" where
  "versioned raw = (case loads raw of
     None \<Rightarrow> Inl RecordCodecError
   | Some decoded \<Rightarrow>
       rbind (mapping {''schema_version'', ''value''} decoded) (\<lambda>value.
       rbind (codec_integer (field value ''schema_version'')) (\<lambda>version.
       rbind (guard (version = codec_version) RecordCodecError) (\<lambda>_.
       codec_object (field value ''value'')))))"

text \<open>A member of an enumeration by its value; \<open>ValueError\<close> is turned into \<open>RecordCodecError\<close>.\<close>

definition member_of :: "('a \<Rightarrow> string) \<Rightarrow> 'a list \<Rightarrow> json \<Rightarrow> 'a cres" where
  "member_of val members v = rbind (codec_text v) (\<lambda>s.
     case List.find (\<lambda>m. val m = s) members of None \<Rightarrow> Inl RecordCodecError | Some m \<Rightarrow> Inr m)"

fun program_status_value :: "program_status \<Rightarrow> string" where
  "program_status_value ProgramDraft = ''draft''"
| "program_status_value ProgramActive = ''active''"
| "program_status_value ProgramPaused = ''paused''"
| "program_status_value ProgramCompleted = ''completed''"
| "program_status_value ProgramCancelled = ''cancelled''"

fun unit_status_value :: "work_unit_status \<Rightarrow> string" where
  "unit_status_value UnitPending = ''pending''"
| "unit_status_value UnitReady = ''ready''"
| "unit_status_value UnitActive = ''active''"
| "unit_status_value UnitSatisfied = ''satisfied''"
| "unit_status_value UnitCancelled = ''cancelled''"

fun attempt_status_value :: "attempt_status \<Rightarrow> string" where
  "attempt_status_value AttemptPrepared = ''prepared''"
| "attempt_status_value AttemptExecuting = ''executing''"
| "attempt_status_value AttemptFinished = ''finished''"
| "attempt_status_value AttemptFailed = ''failed''"
| "attempt_status_value AttemptCancelled = ''cancelled''"

definition program_status_from :: "json \<Rightarrow> program_status cres" where
  "program_status_from = member_of program_status_value
     [ProgramDraft, ProgramActive, ProgramPaused, ProgramCompleted, ProgramCancelled]"

definition unit_status_from :: "json \<Rightarrow> work_unit_status cres" where
  "unit_status_from = member_of unit_status_value [UnitPending, UnitReady, UnitActive, UnitSatisfied, UnitCancelled]"

definition attempt_status_from :: "json \<Rightarrow> attempt_status cres" where
  "attempt_status_from = member_of attempt_status_value
     [AttemptPrepared, AttemptExecuting, AttemptFinished, AttemptFailed, AttemptCancelled]"

definition action_from :: "json \<Rightarrow> domain_action cres" where
  "action_from = member_of action_value
     [ACTIVATE_PROGRAM, PAUSE_PROGRAM, RESUME_PROGRAM, CANCEL_PROGRAM, CANCEL_WORK_UNIT, PREPARE_ATTEMPT,
      START_ATTEMPT, FINISH_ATTEMPT, FAIL_ATTEMPT, CANCEL_ATTEMPT, SATISFY_WORK_UNIT, AMEND_SPEC]"

section \<open>Specifications\<close>

definition policy_data :: "policy_reference \<Rightarrow> json" where
  "policy_data r = policy_payload r"

definition policy_from :: "json \<Rightarrow> policy_reference cres" where
  "policy_from data =
     rbind (mapping {''policy_id'', ''version'', ''digest''} data) (\<lambda>value.
     rbind (codec_text (field value ''policy_id'')) (\<lambda>policy_id.
     rbind (codec_text (field value ''version'')) (\<lambda>version.
     rbind (codec_text (field value ''digest'')) (\<lambda>digest.
     lift_domain (mk_PolicyReference policy_id version digest)))))"

definition binding_from :: "json \<Rightarrow> input_binding cres" where
  "binding_from data =
     rbind (mapping {''name'', ''reference'', ''source_kind'', ''source_work_unit_id'', ''satisfaction_id'', ''output_name''} data) (\<lambda>value.
     rbind (codec_text (field value ''name'')) (\<lambda>name.
     rbind (codec_text (field value ''reference'')) (\<lambda>reference.
     rbind (codec_text (field value ''source_kind'')) (\<lambda>source_kind.
     rbind (codec_optional_text (field value ''source_work_unit_id'')) (\<lambda>source_work_unit_id.
     rbind (codec_optional_text (field value ''satisfaction_id'')) (\<lambda>satisfaction_id.
     rbind (codec_optional_text (field value ''output_name'')) (\<lambda>output_name.
     lift_domain (mk_InputBinding name reference source_kind source_work_unit_id satisfaction_id output_name))))))))"

definition work_unit_from :: "json \<Rightarrow> work_unit cres" where
  "work_unit_from data =
     rbind (mapping {''work_unit_id'', ''obligation'', ''dependencies'', ''required_inputs'', ''outputs'',
       ''acceptance_criteria'', ''acceptance_policy_reference''} data) (\<lambda>value.
     rbind (codec_text (field value ''work_unit_id'')) (\<lambda>work_unit_id.
     rbind (codec_text (field value ''obligation'')) (\<lambda>obligation.
     rbind (codec_strings (field value ''dependencies'')) (\<lambda>dependencies.
     rbind (codec_strings (field value ''required_inputs'')) (\<lambda>required_inputs.
     rbind (codec_strings (field value ''outputs'')) (\<lambda>outputs.
     rbind (codec_strings (field value ''acceptance_criteria'')) (\<lambda>acceptance_criteria.
     rbind (optional policy_from (field value ''acceptance_policy_reference'')) (\<lambda>policy.
     lift_domain (mk_WorkUnit work_unit_id obligation dependencies (fset_of_list required_inputs)
       (fset_of_list outputs) acceptance_criteria policy)))))))))"

definition authority_from :: "json \<Rightarrow> authority_envelope cres" where
  "authority_from data =
     rbind (mapping {''owner_id'', ''allowed_actions'', ''max_attempts'', ''trusted_satisfaction_issuers'', ''delegated_actor_ids''} data) (\<lambda>value.
     rbind (array_of action_from (field value ''allowed_actions'')) (\<lambda>actions.
     rbind (codec_text (field value ''owner_id'')) (\<lambda>owner_id.
     rbind (codec_integer (field value ''max_attempts'')) (\<lambda>max_attempts.
     rbind (codec_strings (field value ''trusted_satisfaction_issuers'')) (\<lambda>issuers.
     rbind (codec_strings (field value ''delegated_actor_ids'')) (\<lambda>delegated.
     lift_domain (mk_AuthorityEnvelope owner_id (fset_of_list actions) max_attempts (fset_of_list issuers)
       (fset_of_list delegated))))))))"

definition budget_from :: "(string \<times> json) list \<Rightarrow> budget_policy cres" where
  "budget_from value =
     rbind (codec_integer (field value ''max_attempts'')) (\<lambda>max_attempts.
     rbind (codec_integer (field value ''max_active_attempts'')) (\<lambda>max_active_attempts.
     lift_domain (mk_BudgetPolicy max_attempts max_active_attempts)))"

definition spec_from :: "json \<Rightarrow> program_spec cres" where
  "spec_from data =
     rbind (mapping {''program_id'', ''objective'', ''acceptance_criteria'', ''policy_references'', ''work_units'',
       ''initial_inputs'', ''budget'', ''authority'', ''revision'', ''parent_digest''} data) (\<lambda>value.
     rbind (mapping {''max_attempts'', ''max_active_attempts''} (field value ''budget'')) (\<lambda>budget_data.
     rbind (codec_text (field value ''program_id'')) (\<lambda>program_id.
     rbind (codec_text (field value ''objective'')) (\<lambda>objective.
     rbind (codec_strings (field value ''acceptance_criteria'')) (\<lambda>acceptance_criteria.
     rbind (array_of policy_from (field value ''policy_references'')) (\<lambda>policy_references.
     rbind (array_of work_unit_from (field value ''work_units'')) (\<lambda>work_units.
     rbind (array_of binding_from (field value ''initial_inputs'')) (\<lambda>initial_inputs.
     rbind (budget_from budget_data) (\<lambda>budget.
     rbind (authority_from (field value ''authority'')) (\<lambda>authority.
     rbind (codec_integer (field value ''revision'')) (\<lambda>revision.
     rbind (codec_optional_text (field value ''parent_digest'')) (\<lambda>parent_digest.
     lift_domain (mk_ProgramSpec program_id objective work_units initial_inputs budget authority revision
       parent_digest acceptance_criteria policy_references)))))))))))))"

section \<open>Attempts and facts\<close>

definition attempt_spec_data :: "attempt_spec \<Rightarrow> json" where
  "attempt_spec_data spec = JObj ([
     (''attempt_id'', JStr (as_attempt_id spec)),
     (''program_id'', JStr (as_program_id spec)),
     (''work_unit_id'', JStr (as_work_unit_id spec)),
     (''spec_revision'', JInt (as_spec_revision spec)),
     (''spec_digest'', JStr (as_spec_digest spec)),
     (''effective_inputs'', JList (map binding_payload (as_effective_inputs spec))),
     (''allocation_reference'', JOptStr (as_allocation_reference spec)),
     (''agent_definition_reference'', JOptStr (as_agent_definition_reference spec)),
     (''workspace_reference'', JOptStr (as_workspace_reference spec)),
     (''context_reference'', JOptStr (as_context_reference spec))]
     @ (case as_remediation_of spec of None \<Rightarrow> [] | Some r \<Rightarrow> [(''remediation_of'', JStr r)]))"

definition attempt_spec_names :: "string set" where
  "attempt_spec_names = {''attempt_id'', ''program_id'', ''work_unit_id'', ''spec_revision'', ''spec_digest'',
     ''effective_inputs'', ''allocation_reference'', ''agent_definition_reference'', ''workspace_reference'',
     ''context_reference''}"

definition attempt_spec_from :: "json \<Rightarrow> attempt_spec cres" where
  "attempt_spec_from data =
     rbind (codec_object data) (\<lambda>value.
     rbind (guard (json_keys value \<in> {attempt_spec_names, attempt_spec_names \<union> {''remediation_of''}}) RecordCodecError) (\<lambda>_.
     rbind (codec_text (field value ''attempt_id'')) (\<lambda>attempt_id.
     rbind (codec_text (field value ''program_id'')) (\<lambda>program_id.
     rbind (codec_text (field value ''work_unit_id'')) (\<lambda>work_unit_id.
     rbind (codec_integer (field value ''spec_revision'')) (\<lambda>rv.
     rbind (codec_text (field value ''spec_digest'')) (\<lambda>digest.
     rbind (array_of binding_from (field value ''effective_inputs'')) (\<lambda>effective_inputs.
     rbind (codec_optional_text (field value ''allocation_reference'')) (\<lambda>allocation.
     rbind (codec_optional_text (field value ''agent_definition_reference'')) (\<lambda>agent.
     rbind (codec_optional_text (field value ''workspace_reference'')) (\<lambda>workspace.
     rbind (codec_optional_text (field value ''context_reference'')) (\<lambda>context_ref.
     rbind (codec_optional_text (field value ''remediation_of'')) (\<lambda>remediation_of.
     lift_domain (mk_AttemptSpec attempt_id program_id work_unit_id rv digest effective_inputs allocation agent
       workspace context_ref remediation_of))))))))))))))"

definition attempt_data :: "attempt \<Rightarrow> json" where
  "attempt_data a = JObj [(''spec'', attempt_spec_data (at_spec a)),
     (''status'', JStr (attempt_status_value (at_status a))), (''actor_id'', JStr (at_actor_id a))]"

definition attempt_projection_json :: "attempt \<Rightarrow> string" where
  "attempt_projection_json a = canonical_json (JObj [(''schema_version'', JInt codec_version), (''value'', attempt_data a)])"

definition attempt_from :: "json \<Rightarrow> attempt cres" where
  "attempt_from item =
     rbind (mapping {''spec'', ''status'', ''actor_id''} item) (\<lambda>value.
     rbind (attempt_status_from (field value ''status'')) (\<lambda>st.
     rbind (attempt_spec_from (field value ''spec'')) (\<lambda>spec.
     rbind (codec_text (field value ''actor_id'')) (\<lambda>actor_id.
     lift_domain (mk_Attempt spec st actor_id)))))"

definition satisfaction_data :: "trusted_satisfaction \<Rightarrow> json" where
  "satisfaction_data t = JObj [
     (''reference_id'', JStr (ts_reference_id t)),
     (''program_id'', JStr (ts_program_id t)),
     (''work_unit_id'', JStr (ts_work_unit_id t)),
     (''spec_revision'', JInt (ts_spec_revision t)),
     (''spec_digest'', JStr (ts_spec_digest t)),
     (''work_unit_fingerprint'', JStr (ts_work_unit_fingerprint t)),
     (''issuer_id'', JStr (ts_issuer_id t)),
     (''source_attempt_id'', JStr (ts_source_attempt_id t)),
     (''output_bindings'', JList (map binding_payload (ts_output_bindings t))),
     (''record_order'', JInt (ts_record_order t))]"

definition satisfaction_from :: "json \<Rightarrow> trusted_satisfaction cres" where
  "satisfaction_from data =
     rbind (mapping {''reference_id'', ''program_id'', ''work_unit_id'', ''spec_revision'', ''spec_digest'',
       ''work_unit_fingerprint'', ''issuer_id'', ''source_attempt_id'', ''output_bindings'', ''record_order''} data) (\<lambda>value.
     rbind (codec_text (field value ''reference_id'')) (\<lambda>reference_id.
     rbind (codec_text (field value ''program_id'')) (\<lambda>program_id.
     rbind (codec_text (field value ''work_unit_id'')) (\<lambda>work_unit_id.
     rbind (codec_integer (field value ''spec_revision'')) (\<lambda>rv.
     rbind (codec_text (field value ''spec_digest'')) (\<lambda>digest.
     rbind (codec_text (field value ''work_unit_fingerprint'')) (\<lambda>fp.
     rbind (codec_text (field value ''issuer_id'')) (\<lambda>issuer_id.
     rbind (codec_text (field value ''source_attempt_id'')) (\<lambda>source_attempt_id.
     rbind (array_of binding_from (field value ''output_bindings'')) (\<lambda>output_bindings.
     rbind (codec_integer (field value ''record_order'')) (\<lambda>record_order.
     lift_domain (mk_TrustedSatisfaction reference_id program_id work_unit_id rv digest fp issuer_id
       source_attempt_id output_bindings record_order))))))))))))"

definition cancellation_data :: "work_unit_cancellation \<Rightarrow> json" where
  "cancellation_data c = JObj [
     (''work_unit_id'', JStr (wc_work_unit_id c)),
     (''work_unit_fingerprint'', JStr (wc_work_unit_fingerprint c)),
     (''spec_revision'', JInt (wc_spec_revision c)),
     (''spec_digest'', JStr (wc_spec_digest c)),
     (''actor_id'', JStr (wc_actor_id c)),
     (''reason'', JStr (wc_reason c)),
     (''record_order'', JInt (wc_record_order c))]"

definition cancellation_from :: "json \<Rightarrow> work_unit_cancellation cres" where
  "cancellation_from data =
     rbind (mapping {''work_unit_id'', ''work_unit_fingerprint'', ''spec_revision'', ''spec_digest'', ''actor_id'',
       ''reason'', ''record_order''} data) (\<lambda>value.
     rbind (codec_text (field value ''work_unit_id'')) (\<lambda>work_unit_id.
     rbind (codec_text (field value ''work_unit_fingerprint'')) (\<lambda>fp.
     rbind (codec_integer (field value ''spec_revision'')) (\<lambda>rv.
     rbind (codec_text (field value ''spec_digest'')) (\<lambda>digest.
     rbind (codec_text (field value ''actor_id'')) (\<lambda>actor_id.
     rbind (codec_text (field value ''reason'')) (\<lambda>reason.
     rbind (codec_integer (field value ''record_order'')) (\<lambda>record_order.
     lift_domain (mk_WorkUnitCancellation work_unit_id fp rv digest actor_id reason record_order)))))))))"

definition attempt_cancellation_data :: "attempt_cancellation \<Rightarrow> json" where
  "attempt_cancellation_data c = JObj [(''attempt_id'', JStr (ac_attempt_id c)), (''actor_id'', JStr (ac_actor_id c)),
     (''reason'', JStr (ac_reason c)), (''record_order'', JInt (ac_record_order c))]"

definition attempt_cancellation_from :: "json \<Rightarrow> attempt_cancellation cres" where
  "attempt_cancellation_from data =
     rbind (mapping {''attempt_id'', ''actor_id'', ''reason'', ''record_order''} data) (\<lambda>value.
     rbind (codec_text (field value ''attempt_id'')) (\<lambda>attempt_id.
     rbind (codec_text (field value ''actor_id'')) (\<lambda>actor_id.
     rbind (codec_text (field value ''reason'')) (\<lambda>reason.
     rbind (codec_integer (field value ''record_order'')) (\<lambda>record_order.
     lift_domain (mk_AttemptCancellation attempt_id actor_id reason record_order))))))"

definition conclusion_data :: "program_conclusion \<Rightarrow> json" where
  "conclusion_data c = JObj [(''status'', JStr (program_status_value (pc_status c))),
     (''spec_revision'', JInt (pc_spec_revision c)), (''spec_digest'', JStr (pc_spec_digest c)),
     (''record_order'', JInt (pc_record_order c))]"

definition conclusion_from :: "json \<Rightarrow> program_conclusion cres" where
  "conclusion_from data =
     rbind (mapping {''status'', ''spec_revision'', ''spec_digest'', ''record_order''} data) (\<lambda>value.
     rbind (program_status_from (field value ''status'')) (\<lambda>st.
     rbind (codec_integer (field value ''spec_revision'')) (\<lambda>rv.
     rbind (codec_text (field value ''spec_digest'')) (\<lambda>digest.
     rbind (codec_integer (field value ''record_order'')) (\<lambda>record_order.
     lift_domain (mk_ProgramConclusion st rv digest record_order))))))"

definition work_unit_state_data :: "work_unit_state \<Rightarrow> json" where
  "work_unit_state_data st = JObj [(''work_unit_id'', JStr (us_work_unit_id st)),
     (''status'', JStr (unit_status_value (us_status st))),
     (''active_attempt_id'', JOptStr (us_active_attempt_id st)),
     (''satisfaction_id'', JOptStr (us_satisfaction_id st))]"

definition work_unit_state_from :: "json \<Rightarrow> work_unit_state cres" where
  "work_unit_state_from data =
     rbind (mapping {''work_unit_id'', ''status'', ''active_attempt_id'', ''satisfaction_id''} data) (\<lambda>value.
     rbind (unit_status_from (field value ''status'')) (\<lambda>st.
     rbind (codec_text (field value ''work_unit_id'')) (\<lambda>work_unit_id.
     rbind (codec_optional_text (field value ''active_attempt_id'')) (\<lambda>active_attempt_id.
     rbind (codec_optional_text (field value ''satisfaction_id'')) (\<lambda>satisfaction_id.
     lift_domain (mk_WorkUnitState work_unit_id st active_attempt_id satisfaction_id))))))"

section \<open>Programs\<close>

text \<open>The two loops of \<open>_validate_persisted_fact_references\<close>, with the set and the order they carry along.\<close>

fun check_attempt_cancellations :: "attempt list \<Rightarrow> int \<Rightarrow> string set \<Rightarrow> attempt_cancellation list \<Rightarrow> unit cres" where
  "check_attempt_cancellations attempts revision seen [] = Inr ()"
| "check_attempt_cancellations attempts revision seen (c # cs) =
     rbind (guard (case dict_from at_id attempts (ac_attempt_id c) of
         None \<Rightarrow> False | Some a \<Rightarrow> at_status a = AttemptCancelled) RecordCodecError) (\<lambda>_.
     rbind (guard (\<not> ac_attempt_id c \<in> seen) RecordCodecError) (\<lambda>_.
     rbind (guard (\<not> ac_record_order c > revision) RecordCodecError) (\<lambda>_.
     check_attempt_cancellations attempts revision (insert (ac_attempt_id c) seen) cs)))"

fun check_conclusions :: "(int \<times> string) set \<Rightarrow> int \<Rightarrow> int \<Rightarrow> program_conclusion list \<Rightarrow> unit cres" where
  "check_conclusions specs revision previous [] = Inr ()"
| "check_conclusions specs revision previous (c # cs) =
     rbind (guard ((pc_spec_revision c, pc_spec_digest c) \<in> specs) RecordCodecError) (\<lambda>_.
     rbind (guard (\<not> pc_record_order c > revision) RecordCodecError) (\<lambda>_.
     rbind (guard (\<not> pc_record_order c \<le> previous) RecordCodecError) (\<lambda>_.
     check_conclusions specs revision (pc_record_order c) cs)))"

definition validate_persisted_fact_references :: "hash \<Rightarrow> program \<Rightarrow> unit cres" where
  "validate_persisted_fact_references H p =
     rbind (check_attempt_cancellations (pg_attempts p) (pg_revision p) {} (pg_attempt_cancellations p)) (\<lambda>_.
     check_conclusions (set (map (spec_key H) (pg_spec_history p))) (pg_revision p) 0 (pg_conclusions p))"

definition program_document :: "program \<Rightarrow> json" where
  "program_document p = JObj [
     (''program_id'', JStr (pg_id p)),
     (''status'', JStr (program_status_value (pg_status p))),
     (''revision'', JInt (pg_revision p)),
     (''spec'', spec_payload (pg_spec p)),
     (''work_unit_states'', JList (map work_unit_state_data (pg_states p))),
     (''attempts'', JList (map attempt_data (pg_attempts p))),
     (''satisfactions'', JList (map satisfaction_data (pg_satisfactions p))),
     (''cancellations'', JList (map cancellation_data (pg_cancellations p))),
     (''attempt_cancellations'', JList (map attempt_cancellation_data (pg_attempt_cancellations p))),
     (''conclusions'', JList (map conclusion_data (pg_conclusions p))),
     (''spec_history'', JList (map spec_payload (pg_spec_history p)))]"

definition program_value :: "hash \<Rightarrow> program \<Rightarrow> json cres" where
  "program_value H p =
     rbind (lift_domain (validate H p)) (\<lambda>_.
     rbind (validate_persisted_fact_references H p) (\<lambda>_. Inr (program_document p)))"

definition program_json :: "hash \<Rightarrow> program \<Rightarrow> string cres" where
  "program_json H p = rbind (program_value H p) (\<lambda>v.
     Inr (canonical_json (JObj [(''schema_version'', JInt codec_version), (''value'', v)])))"

text \<open>What stands in the \<open>try\<close> block of \<open>program_from_json\<close>.\<close>

definition program_fields_from :: "hash \<Rightarrow> (string \<times> json) list \<Rightarrow> program cres" where
  "program_fields_from H value =
     rbind (program_status_from (field value ''status'')) (\<lambda>st.
     rbind (array_of attempt_from (field value ''attempts'')) (\<lambda>attempts.
     rbind (spec_from (field value ''spec'')) (\<lambda>spec.
     rbind (codec_integer (field value ''revision'')) (\<lambda>revision.
     rbind (array_of work_unit_state_from (field value ''work_unit_states'')) (\<lambda>states.
     rbind (array_of satisfaction_from (field value ''satisfactions'')) (\<lambda>satisfactions.
     rbind (array_of cancellation_from (field value ''cancellations'')) (\<lambda>cancellations.
     rbind (array_of attempt_cancellation_from (field value ''attempt_cancellations'')) (\<lambda>attempt_cancellations.
     rbind (array_of conclusion_from (field value ''conclusions'')) (\<lambda>conclusions.
     rbind (array_of spec_from (field value ''spec_history'')) (\<lambda>spec_history.
     let p = \<lparr>pg_spec = spec, pg_status = st, pg_revision = revision, pg_states = states, pg_attempts = attempts,
           pg_satisfactions = satisfactions, pg_cancellations = cancellations,
           pg_attempt_cancellations = attempt_cancellations, pg_conclusions = conclusions, pg_spec_history = spec_history\<rparr> in
     rbind (codec_text (field value ''program_id'')) (\<lambda>program_id.
     rbind (guard (pg_id p = program_id) RecordCodecError) (\<lambda>_.
     rbind (lift_domain (validate H p)) (\<lambda>_.
     rbind (validate_persisted_fact_references H p) (\<lambda>_. Inr p))))))))))))))"

definition program_names :: "string set" where
  "program_names = {''program_id'', ''status'', ''revision'', ''spec'', ''work_unit_states'', ''attempts'', ''satisfactions'',
     ''cancellations'', ''attempt_cancellations'', ''conclusions'', ''spec_history''}"

text \<open>Every exception of the block becomes a \<open>RecordCodecError\<close>.\<close>

definition record_error :: "'a cres \<Rightarrow> 'a cres" where
  "record_error r = map_sum (\<lambda>_. RecordCodecError) id r"

definition program_from_json :: "hash \<Rightarrow> string \<Rightarrow> program cres" where
  "program_from_json H raw =
     rbind (versioned raw) (\<lambda>value.
     rbind (guard (json_keys value = program_names) RecordCodecError) (\<lambda>_.
     record_error (program_fields_from H value)))"

section \<open>Commands\<close>

definition create_input_value :: "program_spec \<Rightarrow> json" where
  "create_input_value spec = JObj [
     (''schema_version'', JInt codec_version),
     (''command_type'', JStr ''create_program''),
     (''program_id'', JStr (ps_program_id spec)),
     (''actor_id'', JStr (ae_owner_id (ps_authority spec))),
     (''spec'', spec_payload spec)]"

definition create_input_json :: "program_spec \<Rightarrow> string" where
  "create_input_json spec = canonical_json (create_input_value spec)"

definition budget_data :: "budget_policy \<Rightarrow> json" where
  "budget_data b = JObj [(''max_attempts'', JInt (bp_max_attempts b)), (''max_active_attempts'', JInt (bp_max_active_attempts b))]"

abbreviation JOption :: "('a \<Rightarrow> json) \<Rightarrow> 'a option \<Rightarrow> json" where
  "JOption f v \<equiv> (case v of None \<Rightarrow> JNull | Some x \<Rightarrow> f x)"

definition amendment_data :: "spec_amendment \<Rightarrow> json" where
  "amendment_data a = JObj [
     (''expected_revision'', JInt (sa_expected_revision a)),
     (''objective'', JOptStr (sa_objective a)),
     (''work_units'', JOption (\<lambda>us. JList (map work_unit_payload (sort_key wu_work_unit_id us))) (sa_work_units a)),
     (''initial_inputs'', JOption (\<lambda>bs. JList (map binding_payload (sort_key ib_name bs))) (sa_initial_inputs a)),
     (''budget'', JOption budget_data (sa_budget a)),
     (''authority'', JOption authority_payload (sa_authority a)),
     (''reason'', JStr (sa_reason a)),
     (''acceptance_criteria'', JOption (\<lambda>cs. JList (map JStr (sort cs))) (sa_acceptance_criteria a)),
     (''policy_references'', JOption (\<lambda>rs. JList (map policy_data (sort_key policy_key rs))) (sa_policy_references a))]"

text \<open>\<open>command_type\<close> and \<open>parameters\<close> of a command.\<close>

fun command_parameters :: "domain_command \<Rightarrow> string \<times> (string \<times> json) list" where
  "command_parameters (ActivateProgram _ _) = (''activate_program'', [])"
| "command_parameters (PauseProgram _ _) = (''pause_program'', [])"
| "command_parameters (ResumeProgram _ _) = (''resume_program'', [])"
| "command_parameters (CancelProgram _ _) = (''cancel_program'', [])"
| "command_parameters (CancelWorkUnit _ _ work_unit_id reason) =
     (''cancel_work_unit'', [(''work_unit_id'', JStr work_unit_id), (''reason'', JStr reason)])"
| "command_parameters (PrepareAttempt _ _ attempt) = (''prepare_attempt'', [(''attempt'', attempt_spec_data attempt)])"
| "command_parameters (StartAttempt _ _ attempt_id) = (''start_attempt'', [(''attempt_id'', JStr attempt_id)])"
| "command_parameters (FinishAttempt _ _ attempt_id) = (''finish_attempt'', [(''attempt_id'', JStr attempt_id)])"
| "command_parameters (FailAttempt _ _ attempt_id) = (''fail_attempt'', [(''attempt_id'', JStr attempt_id)])"
| "command_parameters (CancelAttempt _ _ attempt_id) = (''cancel_attempt'', [(''attempt_id'', JStr attempt_id)])"
| "command_parameters (SatisfyWorkUnit _ _ satisfaction) =
     (''satisfy_work_unit'', [(''satisfaction'', satisfaction_data satisfaction)])"
| "command_parameters (AmendProgramSpec _ _ amendment) = (''amend_spec'', [(''amendment'', amendment_data amendment)])"

definition command_input_value :: "string \<Rightarrow> domain_command \<Rightarrow> json" where
  "command_input_value program_id command = JObj [
     (''schema_version'', JInt codec_version),
     (''program_id'', JStr program_id),
     (''expected_revision'', JInt (cmd_expected_revision command)),
     (''actor_id'', JStr (cmd_actor_id command)),
     (''command_type'', JStr (fst (command_parameters command))),
     (''parameters'', JObj (snd (command_parameters command)))]"

definition command_input_json :: "string \<Rightarrow> domain_command \<Rightarrow> string" where
  "command_input_json program_id command = canonical_json (command_input_value program_id command)"

definition amendment_from :: "json \<Rightarrow> spec_amendment cres" where
  "amendment_from data =
     rbind (mapping {''expected_revision'', ''objective'', ''work_units'', ''initial_inputs'', ''budget'', ''authority'',
       ''reason'', ''acceptance_criteria'', ''policy_references''} data) (\<lambda>value.
     rbind (optional (\<lambda>v. rbind (mapping {''max_attempts'', ''max_active_attempts''} v) budget_from)
       (field value ''budget'')) (\<lambda>budget.
     rbind (codec_integer (field value ''expected_revision'')) (\<lambda>expected_revision.
     rbind (codec_optional_text (field value ''objective'')) (\<lambda>objective.
     rbind (optional (array_of work_unit_from) (field value ''work_units'')) (\<lambda>work_units.
     rbind (optional (array_of binding_from) (field value ''initial_inputs'')) (\<lambda>initial_inputs.
     rbind (optional authority_from (field value ''authority'')) (\<lambda>authority.
     rbind (codec_text (field value ''reason'')) (\<lambda>reason.
     rbind (optional codec_strings (field value ''acceptance_criteria'')) (\<lambda>acceptance_criteria.
     rbind (optional (array_of policy_from) (field value ''policy_references'')) (\<lambda>policy_references.
     lift_domain (mk_SpecAmendment expected_revision objective work_units initial_inputs budget authority reason
       acceptance_criteria policy_references)))))))))))"

text \<open>A command constructor with its \<open>__post_init__\<close>.\<close>

definition mk_command :: "domain_command \<Rightarrow> domain_command cres" where
  "mk_command c = rbind (guard (command_ok c) (CodecDomainError InvalidDomainValue)) (\<lambda>_. Inr c)"

definition command_from :: "(string \<times> json) list \<Rightarrow> domain_command cres" where
  "command_from value =
     rbind (codec_text (field value ''command_type'')) (\<lambda>command_type.
     rbind (codec_text (field value ''program_id'')) (\<lambda>program_id.
     rbind (guard (nonblank program_id) RecordCodecError) (\<lambda>_.
     rbind (codec_integer (field value ''expected_revision'')) (\<lambda>rv.
     rbind (codec_text (field value ''actor_id'')) (\<lambda>actor_id.
     rbind (codec_object (field value ''parameters'')) (\<lambda>parameters.
     if command_type = ''activate_program'' then rbind (mapping {} (JObj parameters)) (\<lambda>_. mk_command (ActivateProgram rv actor_id))
     else if command_type = ''pause_program'' then rbind (mapping {} (JObj parameters)) (\<lambda>_. mk_command (PauseProgram rv actor_id))
     else if command_type = ''resume_program'' then rbind (mapping {} (JObj parameters)) (\<lambda>_. mk_command (ResumeProgram rv actor_id))
     else if command_type = ''cancel_program'' then rbind (mapping {} (JObj parameters)) (\<lambda>_. mk_command (CancelProgram rv actor_id))
     else if command_type = ''cancel_work_unit'' then
       rbind (mapping {''work_unit_id'', ''reason''} (JObj parameters)) (\<lambda>params.
       rbind (codec_text (field params ''work_unit_id'')) (\<lambda>work_unit_id.
       rbind (codec_text (field params ''reason'')) (\<lambda>reason.
       mk_command (CancelWorkUnit rv actor_id work_unit_id reason))))
     else if command_type = ''prepare_attempt'' then
       rbind (mapping {''attempt''} (JObj parameters)) (\<lambda>params.
       rbind (attempt_spec_from (field params ''attempt'')) (\<lambda>attempt. mk_command (PrepareAttempt rv actor_id attempt)))
     else if command_type \<in> {''start_attempt'', ''finish_attempt'', ''fail_attempt'', ''cancel_attempt''} then
       rbind (mapping {''attempt_id''} (JObj parameters)) (\<lambda>params.
       rbind (codec_text (field params ''attempt_id'')) (\<lambda>attempt_id.
       mk_command (if command_type = ''start_attempt'' then StartAttempt rv actor_id attempt_id
         else if command_type = ''finish_attempt'' then FinishAttempt rv actor_id attempt_id
         else if command_type = ''fail_attempt'' then FailAttempt rv actor_id attempt_id
         else CancelAttempt rv actor_id attempt_id)))
     else if command_type = ''satisfy_work_unit'' then
       rbind (mapping {''satisfaction''} (JObj parameters)) (\<lambda>params.
       rbind (satisfaction_from (field params ''satisfaction'')) (\<lambda>t. mk_command (SatisfyWorkUnit rv actor_id t)))
     else if command_type = ''amend_spec'' then
       rbind (mapping {''amendment''} (JObj parameters)) (\<lambda>params.
       rbind (amendment_from (field params ''amendment'')) (\<lambda>a. mk_command (AmendProgramSpec rv actor_id a)))
     else Inl RecordCodecError))))))"

definition history_command_types :: "string set" where
  "history_command_types = {''activate_program'', ''pause_program'', ''resume_program'', ''cancel_program'', ''cancel_work_unit'',
     ''prepare_attempt'', ''start_attempt'', ''finish_attempt'', ''fail_attempt'', ''cancel_attempt'', ''satisfy_work_unit'', ''amend_spec''}"

definition history_names :: "string set" where
  "history_names = {''schema_version'', ''program_id'', ''expected_revision'', ''actor_id'', ''command_type'', ''parameters''}"

definition validate_history_input :: "hash \<Rightarrow> string \<Rightarrow> string \<Rightarrow> string \<Rightarrow> string \<Rightarrow> string \<Rightarrow> unit cres" where
  "validate_history_input H raw digest program_id command_type actor_id = (case loads raw of
     None \<Rightarrow> Inl RecordCodecError
   | Some decoded \<Rightarrow>
     rbind (mapping history_names decoded) (\<lambda>value.
     rbind (codec_integer (field value ''schema_version'')) (\<lambda>version.
     rbind (guard (version = codec_version) RecordCodecError) (\<lambda>_.
     rbind (guard (\<not> (field value ''program_id'' \<noteq> JStr program_id \<or> field value ''command_type'' \<noteq> JStr command_type
       \<or> field value ''actor_id'' \<noteq> JStr actor_id)) RecordCodecError) (\<lambda>_.
     rbind (codec_integer (field value ''expected_revision'')) (\<lambda>_.
     rbind (codec_object (field value ''parameters'')) (\<lambda>_.
     rbind (guard (command_type \<in> history_command_types) RecordCodecError) (\<lambda>_.
     rbind (guard (digest_json H (JObj value) = digest) RecordCodecError) (\<lambda>_.
     rbind (guard (raw = canonical_json (JObj value)) RecordCodecError) (\<lambda>_.
     rbind (record_error (command_from value)) (\<lambda>_. Inr ())))))))))))"

definition validate_create_input :: "hash \<Rightarrow> string \<Rightarrow> string \<Rightarrow> string \<Rightarrow> string \<Rightarrow> unit cres" where
  "validate_create_input H raw digest program_id actor_id = (case loads raw of
     None \<Rightarrow> Inl RecordCodecError
   | Some decoded \<Rightarrow>
     rbind (mapping {''schema_version'', ''command_type'', ''program_id'', ''actor_id'', ''spec''} decoded) (\<lambda>value.
     rbind (codec_integer (field value ''schema_version'')) (\<lambda>version.
     rbind (guard (\<not> (version \<noteq> codec_version \<or> field value ''command_type'' \<noteq> JStr ''create_program''
       \<or> field value ''program_id'' \<noteq> JStr program_id \<or> field value ''actor_id'' \<noteq> JStr actor_id
       \<or> digest_json H (JObj value) \<noteq> digest)) RecordCodecError) (\<lambda>_.
     rbind (guard (raw = canonical_json (JObj value)) RecordCodecError) (\<lambda>_.
     rbind (spec_from (field value ''spec'')) (\<lambda>spec.
     rbind (guard (ps_program_id spec = program_id \<and> ae_owner_id (ps_authority spec) = actor_id) RecordCodecError) (\<lambda>_.
     Inr ())))))))"

end
