(* ===== verification/Codec_Roundtrip.thy ===== *)
theory Codec_Roundtrip
  imports Sqlite_Codec Spec_Digests
begin

text \<open>
  Every reader of Sqlite_Codec inverts its writer: on the canonical form of a value's stored form it returns the
  value, provided the value is one the constructors of core/domain.py can produce.
\<close>

named_theorems codec_simps \<open>readers on canonical documents\<close>

section \<open>Fields of a canonical object\<close>

definition canon_fields :: "(string \<times> json) list \<Rightarrow> (string \<times> json) list" where
  "canon_fields kvs = sort_key fst (map (map_prod id canon) kvs)"

lemma canon_JObj: "canon (JObj kvs) = JObj (canon_fields kvs)"
  by (simp add: canon_fields_def)

declare canon.simps(6) [simp del]
declare canon_JObj [codec_simps]

lemma json_keys_canon_fields [codec_simps]: "json_keys (canon_fields kvs) = fst ` set kvs"
  by (simp add: json_keys_def canon_fields_def image_image)

lemma field_canon_fields [codec_simps]:
  assumes "distinct (map fst kvs)"
  shows "field (canon_fields kvs) k = (case map_of kvs k of None \<Rightarrow> JNull | Some v \<Rightarrow> canon v)"
proof -
  let ?kvs = "map (map_prod id canon) kvs"
  have "map_of (sort_key fst ?kvs) = map_of ?kvs"
    using assms by (intro map_of_inject_set[THEN iffD2]) (simp_all add: comp_def)
  moreover have "map_of ?kvs k = map_option canon (map_of kvs k)" by (induction kvs) auto
  ultimately show ?thesis by (simp add: field_def canon_fields_def split: option.splits)
qed

lemma mapping_canon [codec_simps]:
  "mapping names (JObj (canon_fields kvs)) = (if fst ` set kvs = names then Inr (canon_fields kvs) else Inl RecordCodecError)"
  by (simp add: mapping_def codec_object_def codec_simps)

lemma canon_idem: "canon (canon j) = canon j"
proof (induction j)
  case (JObj kvs)
  have "map (map_prod id canon) (sort_key fst (map (map_prod id canon) kvs)) = sort_key fst (map (map_prod id canon) kvs)"
    by (rule map_idI) (use JObj in \<open>force simp: map_prod_def\<close>)
  then show ?case by (simp add: canon_JObj canon_fields_def sort_key_idem)
qed (simp_all add: comp_def)

lemma canonical_again: "canonical_json (canon j) = canonical_json j"
  by (simp add: canonical_json_def dumps_eq_iff canon_idem)

lemma typed_access [codec_simps]:
  "codec_text (JStr s) = Inr s" "codec_integer (JInt i) = Inr i" "codec_array (JList xs) = Inr xs"
  "codec_object (JObj kvs) = Inr kvs"
  "codec_optional_text (JOptStr v) = Inr v" "codec_optional_text JNull = Inr None" "codec_optional_text (JStr s) = Inr (Some s)"
  by (simp_all add: codec_text_def codec_integer_def codec_array_def codec_object_def codec_optional_text_def split: option.splits)

lemma mapM_inverse: "(\<And>x. x \<in> set xs \<Longrightarrow> f (g x) = Inr x) \<Longrightarrow> mapM f (map g xs) = Inr xs"
  by (induction xs) auto

lemma array_of_inverse:
  "(\<And>x. x \<in> set xs \<Longrightarrow> f (canon (g x)) = Inr x) \<Longrightarrow> array_of f (canon (JList (map g xs))) = Inr xs"
  using mapM_inverse[of xs f "\<lambda>x. canon (g x)"] by (simp add: array_of_def typed_access comp_def)

lemma codec_strings_canon [codec_simps]: "codec_strings (canon (JList (map JStr xs))) = Inr xs"
  using mapM_inverse[of xs codec_text JStr] by (simp add: codec_strings_def typed_access comp_def)

lemma fset_of_sorted [codec_simps]: "fset_of_list (sorted_list_of_fset A) = A"
  by (simp add: fset_eq_iff fset_of_list_elem)

lemma lift_domain_Inr [codec_simps]: "lift_domain (Inr x) = Inr x"
  by (simp add: lift_domain_def)

lemma program_status_value [codec_simps]: "program_status_from (JStr (program_status_value s)) = Inr s"
  by (cases s) (simp_all add: program_status_from_def member_of_def typed_access)

lemma unit_status_value [codec_simps]: "unit_status_from (JStr (unit_status_value s)) = Inr s"
  by (cases s) (simp_all add: unit_status_from_def member_of_def typed_access)

lemma attempt_status_value [codec_simps]: "attempt_status_from (JStr (attempt_status_value s)) = Inr s"
  by (cases s) (simp_all add: attempt_status_from_def member_of_def typed_access)

lemma action_from_value: "action_from (JStr (action_value a)) = Inr a"
  by (cases a) (simp_all add: action_from_def member_of_def typed_access)

section \<open>Specifications\<close>

lemma policy_from_payload: "wf_policy r \<Longrightarrow> policy_from (canon (policy_payload r)) = Inr r"
  by (simp add: policy_from_def policy_payload_def codec_simps mk_PolicyReference_def wf_policy_def)

lemma mk_InputBinding_wf_binding:
  "wf_binding b \<Longrightarrow> mk_InputBinding (ib_name b) (ib_reference b) (ib_source_kind b) (ib_source_work_unit_id b)
     (ib_satisfaction_id b) (ib_output_name b) = Inr b"
  by (auto simp: wf_binding_def mk_InputBinding_def Let_def)

lemma binding_from_payload: "wf_binding b \<Longrightarrow> binding_from (canon (binding_payload b)) = Inr b"
  by (simp add: binding_from_def binding_payload_def codec_simps mk_InputBinding_wf_binding)

lemma mk_WorkUnit_wf_work_unit:
  assumes "wf_work_unit u"
  shows "mk_WorkUnit (wu_work_unit_id u) (wu_obligation u) (wu_dependencies u) (wu_required_inputs u) (wu_outputs u)
     (wu_acceptance_criteria u) (wu_acceptance_policy_reference u) = Inr u"
proof -
  have c: "criteria (wu_acceptance_criteria u) = Inr (wu_acceptance_criteria u)"
    using assms by (simp add: wf_work_unit_def criteria_fixpoint)
  have d: "list_all nonblank (wu_dependencies u)" "distinct (wu_dependencies u)" "sort (wu_dependencies u) = wu_dependencies u"
    using assms by (simp_all add: wf_work_unit_def wf_criteria_def sorted_sort_id)
  show ?thesis using assms by (auto simp: mk_WorkUnit_def c d wf_work_unit_def)
qed

lemma work_unit_from_payload:
  assumes "wf_work_unit u"
  shows "work_unit_from (canon (work_unit_payload u)) = Inr u"
proof -
  have policy: "optional policy_from (canon (case wu_acceptance_policy_reference u of None \<Rightarrow> JNull | Some r \<Rightarrow> policy_payload r))
      = Inr (wu_acceptance_policy_reference u)"
  proof (cases "wu_acceptance_policy_reference u")
    case (Some r)
    then have "wf_policy r" using assms by (simp add: wf_work_unit_def)
    moreover have "canon (policy_payload r) \<noteq> JNull" by (simp add: policy_payload_def canon_JObj)
    ultimately show ?thesis using Some by (simp add: optional_def policy_from_payload)
  qed (simp add: optional_def)
  show ?thesis
    using mk_WorkUnit_wf_work_unit[OF assms]
    by (simp add: work_unit_from_def work_unit_payload_def codec_simps policy del: canon.simps(5))
qed

lemma mk_AuthorityEnvelope_wf_authority:
  "wf_authority a \<Longrightarrow> mk_AuthorityEnvelope (ae_owner_id a) (ae_allowed_actions a) (ae_max_attempts a)
     (ae_trusted_satisfaction_issuers a) (ae_delegated_actor_ids a) = Inr a"
  by (simp add: wf_authority_def mk_AuthorityEnvelope_def revision_ok_def)

lemma actions_canon:
  obtains acts where "array_of action_from (canon (JList (map JStr (sorted_list_of_fset (action_value |`| A))))) = Inr acts"
    "fset_of_list acts = A"
proof -
  let ?l = "sorted_list_of_fset (action_value |`| A)"
  have "\<forall>s \<in> set ?l. \<exists>a. s = action_value a" by auto
  then have "\<exists>xs. ?l = map action_value xs" unfolding ex_map_conv .
  then obtain xs where l: "?l = map action_value xs" ..
  have "array_of action_from (canon (JList (map (\<lambda>a. JStr (action_value a)) xs))) = Inr xs"
    by (rule array_of_inverse) (simp add: action_from_value)
  then have "array_of action_from (canon (JList (map JStr ?l))) = Inr xs" unfolding l by (simp only: map_map comp_def)
  moreover have "fset_of_list xs = A"
  proof -
    have "action_value |`| fset_of_list xs = action_value |`| A" using fset_of_sorted[of "action_value |`| A"] unfolding l by simp
    then show ?thesis by simp
  qed
  ultimately show thesis by (rule that)
qed

lemma authority_from_payload:
  assumes "wf_authority a"
  shows "authority_from (canon (authority_payload a)) = Inr a"
proof -
  obtain acts where "array_of action_from (canon (JList (map JStr (sorted_list_of_fset (action_value |`| ae_allowed_actions a))))) = Inr acts"
    "fset_of_list acts = ae_allowed_actions a"
    by (rule actions_canon)
  then show ?thesis using mk_AuthorityEnvelope_wf_authority[OF assms]
    by (simp add: authority_from_def authority_payload_def codec_simps del: canon.simps(5))
qed

text \<open>The constructor accepts a well-formed specification as it stands.\<close>

lemma add_outputs_total:
  "distinct outs \<Longrightarrow> \<forall>n \<in> set outs. map_of ps n = None \<Longrightarrow> \<exists>ps'. add_outputs uid outs ps = Inr ps'"
proof (induction outs arbitrary: ps)
  case (Cons out outs)
  then have "\<forall>n \<in> set outs. map_of (AList.update out (Some uid) ps) n = None" by (auto simp: update_conv')
  then show ?case using Cons by simp
qed simp

lemma collect_producers_total:
  assumes "\<forall>u \<in> set us. set (wu_dependencies u) \<subseteq> set ids" and "distinct us"
    and "\<forall>u \<in> set us. \<forall>n \<in> fset (wu_outputs u). map_of ps n = None"
    and "\<forall>u \<in> set us. \<forall>v \<in> set us. fset (wu_outputs u) \<inter> fset (wu_outputs v) \<noteq> {} \<longrightarrow> u = v"
  shows "\<exists>ps'. collect_producers ids us ps = Inr ps'"
  using assms
proof (induction us arbitrary: ps)
  case (Cons u us)
  obtain ps1 where ps1: "add_outputs (wu_work_unit_id u) (sorted_list_of_fset (wu_outputs u)) ps = Inr ps1"
    using add_outputs_total[of "sorted_list_of_fset (wu_outputs u)" ps "wu_work_unit_id u"] Cons.prems(3)
    by (auto simp: sorted_list_of_fset.rep_eq)
  have "map_of ps1 n = None" if "v \<in> set us" "n \<in> fset (wu_outputs v)" for v n
  proof -
    have "n \<notin> fset (wu_outputs u)"
    proof
      assume "n \<in> fset (wu_outputs u)"
      then have "fset (wu_outputs u) \<inter> fset (wu_outputs v) \<noteq> {}" using that(2) by blast
      then have "u = v" using Cons.prems(4) that(1) by simp
      then show False using Cons.prems(2) that(1) by simp
    qed
    then show ?thesis using add_outputs_Inr(1)[OF ps1, of n] Cons.prems(3) that by simp
  qed
  then obtain ps' where "collect_producers ids us ps1 = Inr ps'"
    using Cons.IH[of ps1] Cons.prems by auto
  moreover have "\<not> list_ex (\<lambda>d. d \<notin> set ids) (wu_dependencies u)" using Cons.prems(1) by (auto simp: list_ex_iff)
  ultimately show ?case using ps1 by simp
qed simp

lemma mk_ProgramSpec_wf_spec:
  assumes "wf_spec s"
  shows "mk_ProgramSpec (ps_program_id s) (ps_objective s) (ps_work_units s) (ps_initial_inputs s) (ps_budget s)
     (ps_authority s) (ps_revision s) (ps_parent_digest s) (ps_acceptance_criteria s) (ps_policy_references s) = Inr s"
proof -
  let ?us = "ps_work_units s" and ?ins = "ps_initial_inputs s"
  let ?init = "map (\<lambda>i. (ib_name i, None :: string option)) ?ins"
  note wf = assms[unfolded wf_spec_def]
  have units: "distinct (unit_ids ?us)" "sort_key wu_work_unit_id ?us = ?us"
    using wf by (simp_all add: wf_graph_def sort_key_id_if_sorted)
  have ins: "bindings ?ins = Inr ?ins" "\<not> list_ex (\<lambda>i. ib_source_kind i \<noteq> ''initial'') ?ins"
    using wf by (simp_all add: bindings_fixpoint list_ex_iff list_all_iff)
  have crit: "criteria (ps_acceptance_criteria s) = Inr (ps_acceptance_criteria s)"
      "policies (ps_policy_references s) = Inr (ps_policy_references s)"
    using wf by (simp_all add: criteria_fixpoint policies_fixpoint)
  have "map_of (map (\<lambda>i. (ib_name i, None :: string option)) xs) n = (if n \<in> ib_name ` set xs then Some None else None)" for xs n
    by (induction xs) auto
  note init = this[of ?ins]
  have deps: "\<forall>u \<in> set ?us. set (wu_dependencies u) \<subseteq> set (unit_ids ?us)" using wf by (simp add: wf_graph_def)
  have src: "sourced ?us ?ins" using wf by simp
  obtain ps where ps: "collect_producers (unit_ids ?us) ?us ?init = Inr ps"
    using collect_producers_total[of ?us "unit_ids ?us" ?init] deps src units(1) init
    unfolding sourced_def by (auto simp: distinct_map)
  obtain order where order: "topological_order ?us = Inr order"
    using spec_topological_order_total[OF assms] by (auto simp: spec_topological_order_def)
  have avail: "input_available ps u n" if "u \<in> set ?us" "n |\<in>| wu_required_inputs u" for u n
  proof -
    have "n \<in> ib_name ` set ?ins \<or> (\<exists>v \<in> set ?us. wu_work_unit_id v \<in> set (wu_dependencies u) \<and> n |\<in>| wu_outputs v)"
      using src that unfolding sourced_def by blast
    then show ?thesis
    proof
      assume "n \<in> ib_name ` set ?ins"
      then have "map_of ps n = Some None" using collect_producers_mono[OF ps, of n None] init[of n] by simp
      then show ?thesis by (simp add: input_available_def)
    next
      assume "\<exists>v \<in> set ?us. wu_work_unit_id v \<in> set (wu_dependencies u) \<and> n |\<in>| wu_outputs v"
      then obtain v where "v \<in> set ?us" "wu_work_unit_id v \<in> set (wu_dependencies u)" "n |\<in>| wu_outputs v" by blast
      then show ?thesis using collect_producers_output[OF ps, of v n] by (simp add: input_available_def)
    qed
  qed
  have "\<not> list_ex (\<lambda>u. fBex (wu_required_inputs u) (\<lambda>n. \<not> input_available ps u n)) ?us"
    using avail by (auto simp: list_ex_iff)
  moreover have "length (remdups (unit_ids ?us)) = length ?us" using units(1) by (simp add: distinct_remdups_id)
  ultimately show ?thesis
    using wf units ins crit ps order by (simp add: mk_ProgramSpec_def revision_ok_def)
qed

lemma mk_BudgetPolicy_wf_budget: "wf_budget b \<Longrightarrow> mk_BudgetPolicy (bp_max_attempts b) (bp_max_active_attempts b) = Inr b"
  by (simp add: mk_BudgetPolicy_def wf_budget_def revision_ok_def)

lemma spec_from_payload:
  assumes "wf_spec s"
  shows "spec_from (canon (spec_payload s)) = Inr s"
proof -
  have wf: "list_all wf_work_unit (ps_work_units s)" "list_all wf_binding (ps_initial_inputs s)"
      "list_all wf_policy (ps_policy_references s)" "wf_budget (ps_budget s)" "wf_authority (ps_authority s)"
    using assms by (simp_all add: wf_spec_def wf_bindings_def wf_policies_def)
  have lists: "array_of policy_from (canon (JList (map policy_payload (ps_policy_references s)))) = Inr (ps_policy_references s)"
      "array_of work_unit_from (canon (JList (map work_unit_payload (ps_work_units s)))) = Inr (ps_work_units s)"
      "array_of binding_from (canon (JList (map binding_payload (ps_initial_inputs s)))) = Inr (ps_initial_inputs s)"
    using wf(1-3) by (auto intro!: array_of_inverse simp: list_all_iff policy_from_payload work_unit_from_payload binding_from_payload
        simp del: canon.simps(5))
  show ?thesis
    using lists authority_from_payload[OF wf(5)] mk_BudgetPolicy_wf_budget[OF wf(4)] mk_ProgramSpec_wf_spec[OF assms]
    by (simp add: spec_from_def spec_payload_def semantic_payload_def budget_from_def codec_simps del: canon.simps(5))
qed

section \<open>Facts\<close>

lemma attempt_spec_from_data:
  assumes "wf_attempt_spec a"
  shows "attempt_spec_from (canon (attempt_spec_data a)) = Inr a"
proof -
  have b: "list_all wf_binding (as_effective_inputs a)" "bindings (as_effective_inputs a) = Inr (as_effective_inputs a)"
    using assms by (simp_all add: wf_attempt_spec_def wf_bindings_def bindings_fixpoint)
  have inputs: "array_of binding_from (canon (JList (map binding_payload (as_effective_inputs a)))) = Inr (as_effective_inputs a)"
    using b(1) by (intro array_of_inverse) (simp add: list_all_iff binding_from_payload)
  have mk: "mk_AttemptSpec (as_attempt_id a) (as_program_id a) (as_work_unit_id a) (as_spec_revision a) (as_spec_digest a)
      (as_effective_inputs a) (as_allocation_reference a) (as_agent_definition_reference a) (as_workspace_reference a)
      (as_context_reference a) (as_remediation_of a) = Inr a"
    using assms b(2) by (simp add: mk_AttemptSpec_def wf_attempt_spec_def revision_ok_def)
  show ?thesis
  proof (cases "as_remediation_of a")
    case None
    then show ?thesis using inputs mk
      by (simp add: attempt_spec_from_def attempt_spec_data_def attempt_spec_names_def codec_simps del: canon.simps(5))
  next
    case (Some r)
    have names: "{''attempt_id'', ''program_id'', ''work_unit_id'', ''spec_revision'', ''spec_digest'',
     ''effective_inputs'', ''allocation_reference'', ''agent_definition_reference'', ''workspace_reference'',
     ''context_reference'', ''remediation_of''} = attempt_spec_names \<union> {''remediation_of''}"
      unfolding attempt_spec_names_def by (simp only: Un_insert_left Un_empty_left)
    show ?thesis using inputs mk Some
      by (simp add: attempt_spec_from_def attempt_spec_data_def names codec_simps del: canon.simps(5))
  qed
qed

lemma attempt_from_data: "wf_attempt a \<Longrightarrow> attempt_from (canon (attempt_data a)) = Inr a"
  by (simp add: attempt_from_def attempt_data_def wf_attempt_def attempt_spec_from_data codec_simps mk_Attempt_def)

lemma satisfaction_from_data:
  assumes "wf_satisfaction t"
  shows "satisfaction_from (canon (satisfaction_data t)) = Inr t"
proof -
  have b: "list_all wf_binding (ts_output_bindings t)" "bindings (ts_output_bindings t) = Inr (ts_output_bindings t)"
      "\<not> list_ex (\<lambda>b. ib_source_kind b \<noteq> ''initial'') (ts_output_bindings t)"
    using assms by (simp_all add: wf_satisfaction_def wf_bindings_def bindings_fixpoint list_all_iff list_ex_iff)
  have outputs: "array_of binding_from (canon (JList (map binding_payload (ts_output_bindings t)))) = Inr (ts_output_bindings t)"
    using b(1) by (intro array_of_inverse) (simp add: list_all_iff binding_from_payload)
  have "mk_TrustedSatisfaction (ts_reference_id t) (ts_program_id t) (ts_work_unit_id t) (ts_spec_revision t)
      (ts_spec_digest t) (ts_work_unit_fingerprint t) (ts_issuer_id t) (ts_source_attempt_id t) (ts_output_bindings t)
      (ts_record_order t) = Inr t"
    using assms b(2,3) by (simp add: mk_TrustedSatisfaction_def wf_satisfaction_def revision_ok_def)
  then show ?thesis using outputs
    by (simp add: satisfaction_from_def satisfaction_data_def codec_simps del: canon.simps(5))
qed

text \<open>Cancellations and conclusions as their constructors make them.\<close>

definition wf_cancellation :: "work_unit_cancellation \<Rightarrow> bool" where
  "wf_cancellation c \<longleftrightarrow> mk_WorkUnitCancellation (wc_work_unit_id c) (wc_work_unit_fingerprint c) (wc_spec_revision c)
     (wc_spec_digest c) (wc_actor_id c) (wc_reason c) (wc_record_order c) = Inr c"

definition wf_attempt_cancellation :: "attempt_cancellation \<Rightarrow> bool" where
  "wf_attempt_cancellation c \<longleftrightarrow>
     mk_AttemptCancellation (ac_attempt_id c) (ac_actor_id c) (ac_reason c) (ac_record_order c) = Inr c"

definition wf_conclusion :: "program_conclusion \<Rightarrow> bool" where
  "wf_conclusion c \<longleftrightarrow> mk_ProgramConclusion (pc_status c) (pc_spec_revision c) (pc_spec_digest c) (pc_record_order c) = Inr c"

lemma made_cancellations:
  "mk_WorkUnitCancellation i fp rv dg a why n = Inr c \<Longrightarrow> wf_cancellation c \<and> wc_record_order c = n"
  "mk_AttemptCancellation i a why n = Inr d \<Longrightarrow> wf_attempt_cancellation d \<and> ac_record_order d = n"
  by (auto simp: wf_cancellation_def mk_WorkUnitCancellation_def wf_attempt_cancellation_def mk_AttemptCancellation_def
      split: if_splits)

lemma cancellation_from_data: "wf_cancellation c \<Longrightarrow> cancellation_from (canon (cancellation_data c)) = Inr c"
  by (simp add: cancellation_from_def cancellation_data_def wf_cancellation_def codec_simps)

lemma attempt_cancellation_from_data:
  "wf_attempt_cancellation c \<Longrightarrow> attempt_cancellation_from (canon (attempt_cancellation_data c)) = Inr c"
  by (simp add: attempt_cancellation_from_def attempt_cancellation_data_def wf_attempt_cancellation_def codec_simps)

lemma conclusion_from_data: "wf_conclusion c \<Longrightarrow> conclusion_from (canon (conclusion_data c)) = Inr c"
  by (simp add: conclusion_from_def conclusion_data_def wf_conclusion_def codec_simps)

lemma work_unit_state_from_data:
  assumes "wf_state st"
  shows "work_unit_state_from (canon (work_unit_state_data st)) = Inr st"
proof -
  have "mk_WorkUnitState (us_work_unit_id st) (us_status st) (us_active_attempt_id st) (us_satisfaction_id st) = Inr st"
    using assms by (simp add: mk_WorkUnitState_def wf_state_def)
  then show ?thesis by (simp add: work_unit_state_from_def work_unit_state_data_def codec_simps)
qed

end
