(* ===== verification/Codec_Records.thy ===== *)
theory Codec_Records
  imports Codec_Roundtrip Domain_History
begin

text \<open>
  Whole records of adapters/sqlite_codec.py: a program that \<open>program_json\<close> stores is the program that
  \<open>program_from_json\<close> reads, and the stored form of a command passes the check of the history.
\<close>

declare canon.simps(6) [simp del]

lemma lift_domain_eq_Inr [res_simps]: "lift_domain r = Inr x \<longleftrightarrow> r = Inr x"
  by (cases r) (auto simp: lift_domain_def)

section \<open>Documents without repeated names\<close>

lemma unique_keys_JOptStr [simp]: "unique_keys (JOptStr v)"
  by (cases v) simp_all

lemma unique_keys_map: "(\<And>x. x \<in> set xs \<Longrightarrow> unique_keys (f x)) \<Longrightarrow> unique_keys (JList (map f xs))"
  by (auto simp: hook_ok_JList)

lemma unique_keys_policy: "unique_keys (policy_payload r)"
  by (simp add: policy_payload_def unique_keys_JObj)

lemma unique_keys_binding: "unique_keys (binding_payload b)"
  by (simp add: binding_payload_def unique_keys_JObj)

lemma unique_keys_authority: "unique_keys (authority_payload a)"
  by (simp add: authority_payload_def unique_keys_JObj unique_keys_map)

lemma unique_keys_work_unit: "unique_keys (work_unit_payload u)"
  by (simp add: work_unit_payload_def unique_keys_JObj unique_keys_map unique_keys_policy split: option.split)

lemma unique_keys_budget: "unique_keys (budget_data b)"
  by (simp add: budget_data_def unique_keys_JObj)

lemma unique_keys_spec: "unique_keys (spec_payload s)"
  by (simp add: spec_payload_def semantic_payload_def unique_keys_JObj unique_keys_map unique_keys_policy
      unique_keys_work_unit unique_keys_binding unique_keys_authority)

lemma unique_keys_attempt_spec: "unique_keys (attempt_spec_data a)"
  by (cases "as_remediation_of a") (simp_all add: attempt_spec_data_def unique_keys_JObj unique_keys_map unique_keys_binding)

lemma unique_keys_attempt: "unique_keys (attempt_data a)"
  by (simp add: attempt_data_def unique_keys_JObj unique_keys_attempt_spec)

lemma unique_keys_satisfaction: "unique_keys (satisfaction_data t)"
  by (simp add: satisfaction_data_def unique_keys_JObj unique_keys_map unique_keys_binding)

lemma unique_keys_records:
  "unique_keys (cancellation_data c)" "unique_keys (attempt_cancellation_data d)" "unique_keys (conclusion_data e)"
  "unique_keys (work_unit_state_data st)"
  by (simp_all add: cancellation_data_def attempt_cancellation_data_def conclusion_data_def work_unit_state_data_def
      unique_keys_JObj)

lemma unique_keys_program: "unique_keys (program_document p)"
  by (simp add: program_document_def unique_keys_JObj unique_keys_map unique_keys_spec unique_keys_attempt
      unique_keys_satisfaction unique_keys_records)

lemma unique_keys_amendment: "unique_keys (amendment_data a)"
  by (simp add: amendment_data_def unique_keys_JObj unique_keys_map unique_keys_work_unit unique_keys_binding
      unique_keys_budget unique_keys_authority unique_keys_policy policy_data_def split: option.split)

section \<open>Programs\<close>

definition storable :: "program \<Rightarrow> bool" where
  "storable p \<longleftrightarrow> wf_spec (pg_spec p) \<and> list_all wf_state (pg_states p) \<and> list_all wf_attempt (pg_attempts p)
     \<and> list_all wf_satisfaction (pg_satisfactions p) \<and> list_all wf_cancellation (pg_cancellations p)
     \<and> list_all wf_attempt_cancellation (pg_attempt_cancellations p) \<and> list_all wf_conclusion (pg_conclusions p)
     \<and> list_all wf_spec (pg_spec_history p)"

lemma versioned_canonical:
  assumes "unique_keys (JObj kvs)"
  shows "versioned (canonical_json (JObj [(''schema_version'', JInt codec_version), (''value'', JObj kvs)])) = Inr (canon_fields kvs)"
proof -
  have "unique_keys (JObj [(''schema_version'', JInt codec_version), (''value'', JObj kvs)])"
    using assms by (simp add: unique_keys_JObj[of "[_, _]"])
  then show ?thesis by (simp add: versioned_def canonical_json_def loads_dumps codec_simps)
qed

lemma program_fields_from_document:
  assumes "storable p" and "validate H p = Inr ()" and "validate_persisted_fact_references H p = Inr ()"
    and "program_document p = JObj kvs"
  shows "program_fields_from H (canon_fields kvs) = Inr p"
proof -
  have wf: "wf_spec (pg_spec p)" "\<forall>x \<in> set (pg_states p). wf_state x" "\<forall>x \<in> set (pg_attempts p). wf_attempt x"
      "\<forall>x \<in> set (pg_satisfactions p). wf_satisfaction x" "\<forall>x \<in> set (pg_cancellations p). wf_cancellation x"
      "\<forall>x \<in> set (pg_attempt_cancellations p). wf_attempt_cancellation x" "\<forall>x \<in> set (pg_conclusions p). wf_conclusion x"
      "\<forall>x \<in> set (pg_spec_history p). wf_spec x"
    using assms(1) by (simp_all add: storable_def list_all_iff)
  have lists:
    "array_of work_unit_state_from (canon (JList (map work_unit_state_data (pg_states p)))) = Inr (pg_states p)"
    "array_of attempt_from (canon (JList (map attempt_data (pg_attempts p)))) = Inr (pg_attempts p)"
    "array_of satisfaction_from (canon (JList (map satisfaction_data (pg_satisfactions p)))) = Inr (pg_satisfactions p)"
    "array_of cancellation_from (canon (JList (map cancellation_data (pg_cancellations p)))) = Inr (pg_cancellations p)"
    "array_of attempt_cancellation_from (canon (JList (map attempt_cancellation_data (pg_attempt_cancellations p)))) = Inr (pg_attempt_cancellations p)"
    "array_of conclusion_from (canon (JList (map conclusion_data (pg_conclusions p)))) = Inr (pg_conclusions p)"
    "array_of spec_from (canon (JList (map spec_payload (pg_spec_history p)))) = Inr (pg_spec_history p)"
    by (rule array_of_inverse, use wf in \<open>simp add: work_unit_state_from_data attempt_from_data satisfaction_from_data
        cancellation_from_data attempt_cancellation_from_data conclusion_from_data spec_from_payload\<close>)+
  have same: "\<lparr>pg_spec = pg_spec p, pg_status = pg_status p, pg_revision = pg_revision p, pg_states = pg_states p,
      pg_attempts = pg_attempts p, pg_satisfactions = pg_satisfactions p, pg_cancellations = pg_cancellations p,
      pg_attempt_cancellations = pg_attempt_cancellations p, pg_conclusions = pg_conclusions p,
      pg_spec_history = pg_spec_history p\<rparr> = p" by simp
  show ?thesis
    using assms(4)[symmetric] assms(2,3) lists spec_from_payload[OF wf(1)]
    by (simp add: program_fields_from_def program_document_def Let_def codec_simps same del: canon.simps(5))
qed

lemma program_json_reads_back:
  assumes "storable p" and "program_json H p = Inr raw"
  shows "program_from_json H raw = Inr p"
proof -
  obtain kvs where kvs: "program_document p = JObj kvs" by (simp add: program_document_def)
  have ok: "validate H p = Inr ()" "validate_persisted_fact_references H p = Inr ()"
      "raw = canonical_json (JObj [(''schema_version'', JInt codec_version), (''value'', JObj kvs)])"
    using assms(2) by (auto simp: program_json_def program_value_def kvs res_simps)
  have "versioned raw = Inr (canon_fields kvs)"
    using versioned_canonical[of kvs] unique_keys_program[of p] by (simp add: ok(3) kvs)
  moreover have "json_keys (canon_fields kvs) = program_names"
    using kvs by (auto simp: program_document_def program_names_def codec_simps)
  ultimately show ?thesis
    using program_fields_from_document[OF assms(1) ok(1,2) kvs] by (simp add: program_from_json_def record_error_def)
qed

section \<open>What commands record\<close>

definition made :: "int \<Rightarrow> program \<Rightarrow> pending \<Rightarrow> bool" where
  "made n p q \<longleftrightarrow>
     (\<forall>c \<in> set (ap_attempt_cancellations q). c \<in> set (pg_attempt_cancellations p) \<or> wf_attempt_cancellation c \<and> ac_record_order c = n)
     \<and> (\<forall>c \<in> set (ap_cancellations q). c \<in> set (pg_cancellations p) \<or> wf_cancellation c)"

lemma made_locals: "made n p (locals p)"
  by (simp add: made_def)

lemma made_cong:
  "ap_attempt_cancellations q' = ap_attempt_cancellations q \<Longrightarrow> ap_cancellations q' = ap_cancellations q \<Longrightarrow> made n p q \<Longrightarrow> made n p q'"
  by (simp add: made_def)

lemma cancel_live_made:
  assumes "cancel_live n actor_id ids reason q = Inr q'" and "made n p q"
  shows "made n p q'"
proof -
  obtain cs where cs: "mapM (\<lambda>i. mk_AttemptCancellation i actor_id reason n)
      (sorted_list_of_fset (cancelled_ids ids (ap_attempts q))) = Inr cs"
    and q': "ap_attempt_cancellations q' = ap_attempt_cancellations q @ cs" "ap_cancellations q' = ap_cancellations q"
    using assms(1) by (auto simp: cancel_live_def res_simps)
  have "wf_attempt_cancellation c \<and> ac_record_order c = n" if "c \<in> set cs" for c
  proof -
    obtain i where "mk_AttemptCancellation i actor_id reason n = Inr c"
      using cs \<open>c \<in> set cs\<close> by (auto simp: mapM_Inr_iff list_all2_conv_all_nth in_set_conv_nth)
    then show ?thesis by (rule made_cancellations(2))
  qed
  then show ?thesis using assms(2) by (auto simp: made_def q')
qed

lemma amend_loop_made: "amend_loop H n actor_id q = Inr q' \<Longrightarrow> made n p q \<Longrightarrow> made n p q'"
proof (induction H n actor_id q rule: amend_loop.induct)
  case (1 H n actor_id q)
  from "1.prems"(1) obtain invalid where inv: "invalid_attempts H q = Inr invalid"
    and rest: "(if invalid = [] then Inr q else rbind (cancel_live n actor_id invalid withdrawal_reason q) (amend_loop H n actor_id)) = Inr q'"
    by (auto simp: amend_loop.simps[of H n actor_id q] res_simps)
  show ?case
  proof (cases "invalid = []")
    case True
    then show ?thesis using rest "1.prems"(2) by simp
  next
    case False
    then obtain q1 where q1: "cancel_live n actor_id invalid withdrawal_reason q = Inr q1" "amend_loop H n actor_id q1 = Inr q'"
      using rest by (auto simp: res_simps)
    show ?thesis using "1.IH"[OF inv False q1(1) q1(2)] cancel_live_made[OF q1(1) "1.prems"(2)] by blast
  qed
qed

lemma handle_made:
  assumes "handle H p c = Inr (Some q)"
  shows "made (pg_revision p + 1) p q"
proof -
  note base = made_locals[of "pg_revision p + 1" p]
  show ?thesis
  proof (cases c)
    case (CancelProgram r a)
    then obtain q1 where "cancel_live (pg_revision p + 1) a (map at_id (pg_attempts p)) ''Program abandonment'' (locals p) = Inr q1"
        "q = q1\<lparr>ap_status := ProgramCancelled\<rparr>"
      using assms by (auto simp: handle_def Let_def res_simps apply_cancel_program_def)
    then show ?thesis using cancel_live_made[OF _ base] made_cong[of q q1] by simp
  next
    case (CancelWorkUnit r a i why)
    then have "\<exists>k j fp ids. mk_WorkUnitCancellation j fp (ps_revision (pg_spec p))
         (spec_digest H (pg_spec p)) a why (pg_revision p + 1) = Inr k \<and> cancel_live (pg_revision p + 1) a ids
         ''WorkUnit abandonment'' ((locals p)\<lparr>ap_cancellations := pg_cancellations p @ [k]\<rparr>) = Inr q"
      using assms by (simp add: handle_def Let_def res_simps apply_cancel_unit_def) (elim exE conjE, rule exI, rule conjI, (rule exI)+, assumption, rule exI, assumption)
    then obtain k j fp ids where k: "mk_WorkUnitCancellation j fp (ps_revision (pg_spec p))
         (spec_digest H (pg_spec p)) a why (pg_revision p + 1) = Inr k"
      and live: "cancel_live (pg_revision p + 1) a ids ''WorkUnit abandonment''
        ((locals p)\<lparr>ap_cancellations := pg_cancellations p @ [k]\<rparr>) = Inr q" by (elim exE conjE)
    have "made (pg_revision p + 1) p ((locals p)\<lparr>ap_cancellations := pg_cancellations p @ [k]\<rparr>)"
      using base made_cancellations(1)[OF k] by (simp add: made_def)
    then show ?thesis by (rule cancel_live_made[OF live])
  next
    case (CancelAttempt r a i)
    then show ?thesis using assms cancel_live_made[OF _ base]
      by (auto simp: handle_def Let_def res_simps apply_cancel_attempt_def)
  next
    case (AmendProgramSpec r a am)
    then obtain sp where loop: "amend_loop H (pg_revision p + 1) a
        ((locals p)\<lparr>ap_spec := sp, ap_spec_history := pg_spec_history p @ [sp]\<rparr>) = Inr q"
      using assms by (auto simp: handle_def Let_def res_simps apply_amend_def split: if_splits)
    show ?thesis by (rule amend_loop_made[OF loop]) (auto intro: made_cong[OF _ _ base])
  qed (use assms base in \<open>auto simp: handle_def Let_def res_simps apply_activate_def apply_pause_def apply_resume_def
      apply_prepare_def apply_start_def apply_finish_def apply_fail_def apply_satisfy_def replace_status_def
      split: option.splits intro!: made_cong[OF _ _ base]\<close>)
qed

section \<open>Reachable programs can be stored\<close>

definition archived :: "hash \<Rightarrow> program \<Rightarrow> bool" where
  "archived H p \<longleftrightarrow>
     (\<forall>c \<in> set (pg_attempt_cancellations p). wf_attempt_cancellation c \<and> ac_record_order c \<le> pg_revision p)
     \<and> (\<forall>c \<in> set (pg_cancellations p). wf_cancellation c)
     \<and> (\<forall>c \<in> set (pg_conclusions p). wf_conclusion c \<and> pc_record_order c \<le> pg_revision p
          \<and> (pc_spec_revision c, pc_spec_digest c) \<in> spec_key H ` set (pg_spec_history p))
     \<and> sorted_wrt (<) (0 # map pc_record_order (pg_conclusions p))"

lemma concluded_wf:
  assumes "wf_spec sp" and "digest_like H" and "0 \<le> pg_revision p" and "c \<in> set (concluded H p sp st)"
  shows "wf_conclusion c \<and> pc_record_order c = pg_revision p + 1 \<and> (pc_spec_revision c, pc_spec_digest c) = spec_key H sp"
proof -
  have "c = \<lparr>pc_status = st, pc_spec_revision = ps_revision sp, pc_spec_digest = spec_digest H sp,
      pc_record_order = pg_revision p + 1\<rparr>" "st \<in> {ProgramCompleted, ProgramCancelled}"
    using assms(4) by (auto simp: concluded_def split: if_splits)
  moreover have "nonblank (spec_digest H sp)" using assms(2) by (simp add: digest_like_def spec_digest_def json_digest_def)
  moreover have "1 \<le> ps_revision sp" using assms(1) by (simp add: wf_spec_def)
  ultimately show ?thesis using assms(3) by (auto simp: wf_conclusion_def mk_ProgramConclusion_def revision_ok_def)
qed

lemma concluded_sorted:
  assumes "sorted_wrt (<) (0 # map pc_record_order cs)" and "\<forall>c \<in> set cs. pc_record_order c \<le> pg_revision p" and "0 \<le> pg_revision p"
  shows "sorted_wrt (<) (0 # map pc_record_order (cs @ concluded H p sp st))"
  using assms by (fastforce simp: concluded_def sorted_wrt_append)

lemma apply_command_archived:
  assumes "sound H p" and "archived H p" and "wf_command c" and "apply_command H p c = Inr p'"
  shows "archived H p'"
proof -
  have ok: "program_ok H p" "digest_like H" using assms(1) by (simp_all add: sound_def)
  from assms(4) ok assms(3) show ?thesis
  proof (cases rule: apply_command_cases)
    case noop
    then show ?thesis using assms(2) by simp
  next
    case (step q sts)
    let ?st = "new_status (ap_status q) sts"
    have n: "0 \<le> pg_revision p" using ok(1) by (simp add: program_ok_def)
    have "facts_ok H (pg_revision p') (locals p')" using step(4) by (simp add: program_ok_def)
    from facts_okD(1)[OF this] have hist: "history_ok H (pg_spec_history p') (pg_spec p')" by simp
    have spec: "ap_spec q \<in> set (ap_spec_history q)" "wf_spec (ap_spec q)"
      using history_okD(1)[OF hist] history_ok_wf[OF hist] by (simp_all add: step(1))
    have grow: "set (pg_spec_history p) \<subseteq> set (ap_spec_history q)"
      using handle_extends[OF ok assms(3) step(2)] by (auto simp: pend_extends_def dest: set_mono_prefix)
    note new = concluded_wf[OF spec(2) ok(2) n]
    have "wf_conclusion c \<and> pc_record_order c \<le> pg_revision p + 1
        \<and> (pc_spec_revision c, pc_spec_digest c) \<in> spec_key H ` set (ap_spec_history q)"
      if c: "c \<in> set (pg_conclusions p @ concluded H p (ap_spec q) ?st)" for c
    proof (cases "c \<in> set (pg_conclusions p)")
      case True
      then have "wf_conclusion c" "pc_record_order c \<le> pg_revision p"
          "(pc_spec_revision c, pc_spec_digest c) \<in> spec_key H ` set (pg_spec_history p)"
        using assms(2) unfolding archived_def by blast+
      then show ?thesis using grow by (auto intro: image_mono[THEN subsetD])
    next
      case False
      then have "c \<in> set (concluded H p (ap_spec q) ?st)" using c by simp
      from new[OF this] show ?thesis using imageI[OF spec(1), of "spec_key H"] by simp
    qed
    moreover have "sorted_wrt (<) (0 # map pc_record_order (pg_conclusions p @ concluded H p (ap_spec q) ?st))"
      using assms(2) n by (intro concluded_sorted) (simp_all add: archived_def)
    moreover have "wf_attempt_cancellation c \<and> ac_record_order c \<le> pg_revision p + 1" if "c \<in> set (ap_attempt_cancellations q)" for c
      using handle_made[OF step(2)] assms(2) that unfolding made_def archived_def by fastforce
    moreover have "wf_cancellation c" if "c \<in> set (ap_cancellations q)" for c
      using handle_made[OF step(2)] assms(2) that unfolding made_def archived_def by blast
    ultimately show ?thesis unfolding archived_def step(1) result_of_simps by blast
  qed
qed

interpretation archive: command_machine "apply_command H" wf_command "started H" "\<lambda>p. sound H p \<and> archived H p" for H
proof
  show "sound H p \<and> archived H p" if "started H p" for p
  proof -
    have "pg_attempt_cancellations p = []" "pg_cancellations p = []" "pg_conclusions p = []"
      using that by (auto simp: started_def create_def res_simps)
    then show ?thesis using started_sound[OF that] by (simp add: archived_def)
  qed
  show "sound H p' \<and> archived H p'" if "sound H p \<and> archived H p" "wf_command c" "apply_command H p c = Inr p'" for p c p'
    using that apply_command_sound apply_command_archived by blast
qed

lemma reachable_archived:
  assumes "digest_like H" and "wf_spec sp" and "reachable H sp p"
  shows "archived H p"
  using assms archive.reachable_inv[of H] by (auto simp: started_def)

lemma states_wf:
  assumes "program_ok H p"
  shows "list_all wf_state (pg_states p)"
proof -
  have f: "facts_ok H (pg_revision p) (locals p)" and a: "assembled_states H (locals p) = Inr (pg_states p)"
    using assms by (simp_all add: program_ok_def)
  note wf = facts_ok_wf_spec[OF f, simplified] facts_ok_wf_facts[OF f, simplified]
  show ?thesis
  proof (cases "pg_status p = ProgramDraft")
    case True
    then have "initial_states (pg_spec p) = Inr (pg_states p)" using a by (simp add: assembled_states_def)
    then show ?thesis unfolding initial_states_def by (rule mapM_list_all) (rule mk_WorkUnitState_wf)
  next
    case False
    then have "project H (pg_spec p) (pg_attempts p) (pg_satisfactions p) (pg_cancellations p) = Inr (pg_states p)"
      using a by (simp add: assembled_states_def)
    let ?f = "local_state H (pg_spec p) (pg_attempts p) (pg_satisfactions p) (pg_cancellations p) (by_unit (pg_states p))"
    have eq: "pg_states p = map ?f (ps_work_units (pg_spec p))"
      using project_local(1)[OF wf \<open>project H (pg_spec p) (pg_attempts p) (pg_satisfactions p) (pg_cancellations p) = Inr (pg_states p)\<close>] .
    have "wf_state (?f u)" if "u \<in> set (ps_work_units (pg_spec p))" for u
      using local_state_ok[OF wf(1) \<open>u \<in> set (ps_work_units (pg_spec p))\<close> wf(2)] by (simp add: state_ok_def)
    then have "list_all wf_state (map ?f (ps_work_units (pg_spec p)))" by (simp add: list_all_iff)
    then show ?thesis by (subst eq)
  qed
qed

lemma sound_storable:
  assumes "sound H p" and "archived H p"
  shows "storable p"
proof -
  have ok: "program_ok H p" using assms(1) by (simp add: sound_def)
  then have f: "facts_ok H (pg_revision p) (locals p)" by (simp add: program_ok_def)
  have "wf_spec (pg_spec p)" "\<forall>s \<in> set (pg_spec_history p). wf_spec s"
    using facts_okD(1)[OF f] history_ok_wf history_okD(2) by auto
  moreover have "\<forall>a \<in> set (pg_attempts p). wf_attempt a" "\<forall>t \<in> set (pg_satisfactions p). wf_satisfaction t"
    using facts_okD(4,6)[OF f] by (auto simp: attempt_ok_def satisfaction_ok_def)
  ultimately show ?thesis using states_wf[OF ok] assms(2) by (simp add: storable_def archived_def list_all_iff)
qed

lemma check_attempt_cancellations_ok:
  assumes "distinct (map ac_attempt_id cs)" and "ac_attempt_id ` set cs \<inter> seen = {}"
    and "\<forall>c \<in> set cs. ac_record_order c \<le> revision
      \<and> (case dict_from at_id attempts (ac_attempt_id c) of None \<Rightarrow> False | Some a \<Rightarrow> at_status a = AttemptCancelled)"
  shows "check_attempt_cancellations attempts revision seen cs = Inr ()"
  using assms
proof (induction cs arbitrary: seen)
  case (Cons c cs)
  have "check_attempt_cancellations attempts revision (insert (ac_attempt_id c) seen) cs = Inr ()"
    by (rule Cons.IH) (use Cons.prems in auto)
  then show ?case using Cons.prems(2,3) by simp
qed simp

lemma check_conclusions_ok:
  assumes "sorted_wrt (<) (previous # map pc_record_order cs)"
    and "\<forall>c \<in> set cs. pc_record_order c \<le> revision \<and> (pc_spec_revision c, pc_spec_digest c) \<in> specs"
  shows "check_conclusions specs revision previous cs = Inr ()"
  using assms by (induction cs arbitrary: previous) auto

lemma references_ok:
  assumes "sound H p" and "archived H p"
  shows "validate_persisted_fact_references H p = Inr ()"
proof -
  have ok: "program_ok H p" and rec: "recorded (pg_attempts p) (pg_attempt_cancellations p)"
    using assms(1) by (simp_all add: sound_def)
  have d: "distinct (map at_id (pg_attempts p))" using ok facts_okD(2) by (fastforce simp: program_ok_def)
  have "case dict_from at_id (pg_attempts p) (ac_attempt_id c) of None \<Rightarrow> False | Some a \<Rightarrow> at_status a = AttemptCancelled"
    if "c \<in> set (pg_attempt_cancellations p)" for c
  proof -
    have "ac_attempt_id c \<in> ac_attempt_id ` set (pg_attempt_cancellations p)" using that by simp
    then have "ac_attempt_id c \<in> at_id ` {a \<in> set (pg_attempts p). at_status a = AttemptCancelled}"
      using rec by (simp only: recorded_def)
    then obtain a where "a \<in> set (pg_attempts p)" "at_id a = ac_attempt_id c" "at_status a = AttemptCancelled" by auto
    then show ?thesis using dict_from_distinct[OF d, of a] by simp
  qed
  then have "check_attempt_cancellations (pg_attempts p) (pg_revision p) {} (pg_attempt_cancellations p) = Inr ()"
    using rec assms(2) by (intro check_attempt_cancellations_ok ballI conjI) (simp_all add: recorded_def archived_def)
  moreover have "check_conclusions (set (map (spec_key H) (pg_spec_history p))) (pg_revision p) 0 (pg_conclusions p) = Inr ()"
    using assms(2) by (intro check_conclusions_ok) (simp_all add: archived_def)
  ultimately show ?thesis by (simp add: validate_persisted_fact_references_def)
qed

end
