(* ===== verification/Codec_History.thy ===== *)
theory Codec_History
  imports Codec_Records Domain_Demo
begin

text \<open>
  The stored history of adapters/sqlite_codec.py. Reachable programs can be stored and are read back; the
  canonical input of a command or of a creation passes the check of the history and decodes to what was
  sent; two inputs accepted under one digest are the same input unless the hash collides.
\<close>

declare canon.simps(6) [simp del]

section \<open>Amendments\<close>

text \<open>The stored order of the lists of an amendment.\<close>

definition read_back :: "spec_amendment \<Rightarrow> spec_amendment" where
  "read_back a = a\<lparr>sa_work_units := map_option (sort_key wu_work_unit_id) (sa_work_units a),
     sa_initial_inputs := map_option (sort_key ib_name) (sa_initial_inputs a),
     sa_acceptance_criteria := map_option sort (sa_acceptance_criteria a),
     sa_policy_references := map_option (sort_key policy_key) (sa_policy_references a)\<rparr>"

definition made_amendment :: "spec_amendment \<Rightarrow> bool" where
  "made_amendment a \<longleftrightarrow> wf_amendment a \<and>
     mk_SpecAmendment (sa_expected_revision a) (sa_objective a) (sa_work_units a) (sa_initial_inputs a) (sa_budget a)
       (sa_authority a) (sa_reason a) (sa_acceptance_criteria a) (sa_policy_references a) = Inr a"

lemma optional_inverse:
  assumes "\<And>x. v = Some x \<Longrightarrow> f (canon (g x)) = Inr (h x)" and "\<And>x. canon (g x) \<noteq> JNull"
  shows "optional f (canon (JOption g v)) = Inr (map_option h v)"
  using assms by (cases v) (simp_all add: optional_def)

lemma canon_not_null:
  "canon (JList xs) \<noteq> JNull" "canon (work_unit_payload u) \<noteq> JNull" "canon (budget_data b) \<noteq> JNull"
  "canon (authority_payload au) \<noteq> JNull"
  by (simp_all add: work_unit_payload_def budget_data_def authority_payload_def canon_JObj)

lemma optional_array:
  assumes "pred_option (list_all P) v" and "\<And>x. P x \<Longrightarrow> f (canon (g x)) = Inr x"
  shows "optional (array_of f) (canon (JOption (\<lambda>xs. JList (map g (sort_key k xs))) v)) = Inr (map_option (sort_key k) v)"
  by (rule optional_inverse, rule array_of_inverse) (use assms in \<open>auto simp: list_all_iff canon_not_null\<close>)

lemma optional_strings:
  "optional codec_strings (canon (JOption (\<lambda>cs. JList (map JStr (sort cs))) v)) = Inr (map_option sort v)"
  by (rule optional_inverse) (simp_all add: codec_strings_canon canon_not_null del: canon.simps(5))

lemma optional_budget:
  assumes "pred_option wf_budget v"
  shows "optional (\<lambda>v. rbind (mapping {''max_attempts'', ''max_active_attempts''} v) budget_from) (canon (JOption budget_data v)) = Inr v"
proof -
  have "rbind (mapping {''max_attempts'', ''max_active_attempts''} (canon (budget_data b))) budget_from = Inr b" if "wf_budget b" for b
    using that by (simp add: budget_data_def codec_simps budget_from_def mk_BudgetPolicy_wf_budget insert_commute)
  from optional_inverse[where h = id, OF this canon_not_null(3), of v] assms show ?thesis
    by (cases v) (simp_all add: option.map_id)
qed

lemma optional_authority: "pred_option wf_authority v \<Longrightarrow> optional authority_from (canon (JOption authority_payload v)) = Inr v"
  using optional_inverse[where h = id, OF authority_from_payload canon_not_null(4), of v] by (cases v) simp_all

lemma made_read_back:
  assumes "made_amendment a"
  shows "mk_SpecAmendment (sa_expected_revision a) (sa_objective a) (sa_work_units (read_back a)) (sa_initial_inputs (read_back a))
    (sa_budget a) (sa_authority a) (sa_reason a) (sa_acceptance_criteria (read_back a)) (sa_policy_references (read_back a))
    = Inr (read_back a)"
proof -
  have "mk_SpecAmendment (sa_expected_revision a) (sa_objective a) (sa_work_units a) (sa_initial_inputs a) (sa_budget a)
       (sa_authority a) (sa_reason a) (sa_acceptance_criteria a) (sa_policy_references a) = Inr a"
    using assms by (simp add: made_amendment_def)
  then show ?thesis
    by (cases "sa_initial_inputs a"; cases "sa_acceptance_criteria a"; cases "sa_policy_references a")
      (simp_all add: mk_SpecAmendment_def read_back_def res_simps bindings_Inr_iff criteria_Inr_iff policies_Inr_iff
        list_all_iff split: if_splits)
qed

lemma amendment_from_data:
  assumes "made_amendment a"
  shows "amendment_from (canon (amendment_data a)) = Inr (read_back a)"
proof -
  have wf: "wf_amendment a" using assms by (simp add: made_amendment_def)
  note parts = wf[unfolded wf_amendment_def]
  have "optional (array_of work_unit_from)
      (canon (JOption (\<lambda>us. JList (map work_unit_payload (sort_key wu_work_unit_id us))) (sa_work_units a)))
      = Inr (sa_work_units (read_back a))"
    using parts optional_array[of wf_work_unit "sa_work_units a" work_unit_from work_unit_payload wu_work_unit_id]
    by (simp add: work_unit_from_payload read_back_def)
  moreover have "optional (array_of binding_from)
      (canon (JOption (\<lambda>bs. JList (map binding_payload (sort_key ib_name bs))) (sa_initial_inputs a)))
      = Inr (sa_initial_inputs (read_back a))"
    using parts optional_array[of wf_binding "sa_initial_inputs a" binding_from binding_payload ib_name]
    by (simp add: binding_from_payload read_back_def)
  moreover have "optional (array_of policy_from)
      (canon (JOption (\<lambda>rs. JList (map policy_data (sort_key policy_key rs))) (sa_policy_references a)))
      = Inr (sa_policy_references (read_back a))"
    using parts optional_array[of wf_policy "sa_policy_references a" policy_from policy_data policy_key]
    by (simp add: policy_from_payload policy_data_def read_back_def)
  moreover have "optional codec_strings (canon (JOption (\<lambda>cs. JList (map JStr (sort cs))) (sa_acceptance_criteria a)))
      = Inr (sa_acceptance_criteria (read_back a))"
    by (simp add: optional_strings read_back_def)
  ultimately show ?thesis
    using parts made_read_back[OF assms]
    by (simp add: amendment_from_def amendment_data_def codec_simps optional_budget optional_authority insert_commute)
qed


section \<open>Commands\<close>

fun sent_command :: "domain_command \<Rightarrow> domain_command" where
  "sent_command (AmendProgramSpec r a am) = AmendProgramSpec r a (read_back am)"
| "sent_command c = c"

definition made_command :: "domain_command \<Rightarrow> bool" where
  "made_command c \<longleftrightarrow> wf_command c \<and> (case c of AmendProgramSpec _ _ am \<Rightarrow> made_amendment am | _ \<Rightarrow> True)"

definition input_fields :: "string \<Rightarrow> domain_command \<Rightarrow> (string \<times> json) list" where
  "input_fields program_id c = [
     (''schema_version'', JInt codec_version),
     (''program_id'', JStr program_id),
     (''expected_revision'', JInt (cmd_expected_revision c)),
     (''actor_id'', JStr (cmd_actor_id c)),
     (''command_type'', JStr (fst (command_parameters c))),
     (''parameters'', JObj (snd (command_parameters c)))]"

lemma command_input_value_fields: "command_input_value program_id c = JObj (input_fields program_id c)"
  by (simp add: command_input_value_def input_fields_def)

lemma unique_keys_input: "unique_keys (command_input_value program_id c)"
  by (cases c) (simp_all add: command_input_value_def unique_keys_JObj unique_keys_attempt_spec unique_keys_satisfaction
      unique_keys_amendment)

lemma input_field:
  "field (canon_fields (input_fields program_id c)) ''schema_version'' = JInt codec_version"
  "field (canon_fields (input_fields program_id c)) ''program_id'' = JStr program_id"
  "field (canon_fields (input_fields program_id c)) ''expected_revision'' = JInt (cmd_expected_revision c)"
  "field (canon_fields (input_fields program_id c)) ''actor_id'' = JStr (cmd_actor_id c)"
  "field (canon_fields (input_fields program_id c)) ''command_type'' = JStr (fst (command_parameters c))"
  "field (canon_fields (input_fields program_id c)) ''parameters'' = JObj (canon_fields (snd (command_parameters c)))"
  by (simp_all add: input_fields_def codec_simps)

lemma input_keys: "json_keys (canon_fields (input_fields program_id c)) = history_names"
  by (auto simp: input_fields_def codec_simps history_names_def)

lemma command_from_input:
  assumes "made_command c" and "nonblank program_id"
  shows "command_from (canon_fields (input_fields program_id c)) = Inr (sent_command c)"
proof (cases c)
  case (AmendProgramSpec r a am)
  then have "amendment_from (canon (amendment_data am)) = Inr (read_back am)" "command_ok c"
    using assms(1) by (simp_all add: made_command_def wf_command_def amendment_from_data)
  then show ?thesis using assms(2) AmendProgramSpec
    by (simp add: command_from_def input_field codec_simps mk_command_def command_ok_def)
qed (use assms in \<open>simp_all add: command_from_def input_field codec_simps mk_command_def made_command_def wf_command_def
    attempt_spec_from_data satisfaction_from_data\<close>)

section \<open>Replaying an amendment\<close>

lemma mk_ProgramSpec_made:
  assumes "mk_ProgramSpec pid obj units inputs bud auth rv par crit pols = Inr s"
  shows "s = \<lparr>ps_program_id = pid, ps_objective = obj, ps_work_units = sort_key wu_work_unit_id units,
    ps_initial_inputs = sort_key ib_name inputs, ps_budget = bud, ps_authority = auth, ps_revision = rv,
    ps_parent_digest = par, ps_acceptance_criteria = sort crit, ps_policy_references = sort_key policy_key pols\<rparr>"
  using assms by (auto simp: mk_ProgramSpec_def res_simps bindings_Inr_iff criteria_Inr_iff policies_Inr_iff split: if_splits)

lemma propose_read_back:
  assumes "wf_spec s" and "made_amendment a" and "propose H s a = Inr q"
  shows "propose H s (read_back a) = Inr q"
proof -
  have wfa: "wf_amendment a" using assms(2) by (simp add: made_amendment_def)
  have "wf_spec q"
    using assms(1) wfa by (intro mk_ProgramSpec_wf[OF assms(3)[unfolded propose_def]])
      (auto simp: wf_spec_def wf_amendment_def wf_bindings_def wf_policies_def split: option.splits)
  note again = mk_ProgramSpec_wf_spec[OF this]
  have sorted: "sort_key wu_work_unit_id (ps_work_units s) = ps_work_units s" "sort_key ib_name (ps_initial_inputs s) = ps_initial_inputs s"
      "sort (ps_acceptance_criteria s) = ps_acceptance_criteria s" "sort_key policy_key (ps_policy_references s) = ps_policy_references s"
    using assms(1) by (simp_all add: wf_spec_def wf_bindings_def wf_policies_def wf_criteria_def sort_key_id_if_sorted sorted_sort_id)
  have q: "q = \<lparr>ps_program_id = ps_program_id s, ps_objective = (case sa_objective a of None \<Rightarrow> ps_objective s | Some v \<Rightarrow> v),
      ps_work_units = (case sa_work_units (read_back a) of None \<Rightarrow> ps_work_units s | Some v \<Rightarrow> v),
      ps_initial_inputs = (case sa_initial_inputs (read_back a) of None \<Rightarrow> ps_initial_inputs s | Some v \<Rightarrow> v),
      ps_budget = (case sa_budget a of None \<Rightarrow> ps_budget s | Some v \<Rightarrow> v),
      ps_authority = (case sa_authority a of None \<Rightarrow> ps_authority s | Some v \<Rightarrow> v), ps_revision = ps_revision s + 1,
      ps_parent_digest = Some (spec_digest H s),
      ps_acceptance_criteria = (case sa_acceptance_criteria (read_back a) of None \<Rightarrow> ps_acceptance_criteria s | Some v \<Rightarrow> v),
      ps_policy_references = (case sa_policy_references (read_back a) of None \<Rightarrow> ps_policy_references s | Some v \<Rightarrow> v)\<rparr>"
    using mk_ProgramSpec_made[OF assms(3)[unfolded propose_def]] sorted by (simp add: read_back_def split: option.splits)
  show ?thesis
    unfolding propose_def using again[unfolded q] by (subst q) (simp add: read_back_def)
qed

lemma amend_read_back:
  assumes "wf_spec s" and "made_amendment a" and "amend H s a = Inr s'"
  shows "amend H s (read_back a) = Inr s'"
  using assms propose_read_back[OF assms(1,2)]
  by (auto simp: amend_def rbind_eq_Inr read_back_def split: if_splits)

lemma apply_sent_command:
  assumes "program_ok H p" and "made_command c" and "apply_command H p c = Inr p'"
  shows "apply_command H p (sent_command c) = Inr p'"
proof (cases c)
  case (AmendProgramSpec r a am)
  have made: "made_amendment am" using assms(2) AmendProgramSpec by (simp add: made_command_def)
  have wf: "wf_spec (pg_spec p)" using facts_ok_wf_spec assms(1) by (fastforce simp: program_ok_def)
  obtain s where s: "amend H (pg_spec p) am = Inr s"
    using assms(3) by (auto simp: apply_command_def handle_def apply_amend_def AmendProgramSpec Let_def res_simps)
  then show ?thesis
    using assms(3) amend_read_back[OF wf made s] by (simp add: apply_command_def handle_def apply_amend_def AmendProgramSpec Let_def)
qed (use assms(3) in simp_all)


section \<open>The checks of the history\<close>

lemma input_loads: "loads (command_input_json program_id c) = Some (JObj (canon_fields (input_fields program_id c)))"
  using loads_dumps(1)[OF unique_keys_input, of program_id c]
  by (simp add: command_input_json_def canonical_json_def command_input_value_fields canon_JObj)

lemma record_error_Inr [res_simps]: "record_error r = Inr x \<longleftrightarrow> r = Inr x"
  by (cases r) (simp_all add: record_error_def)

lemma canonical_input: "canonical_json (JObj (canon_fields (input_fields program_id c))) = command_input_json program_id c"
  using canonical_again[of "command_input_value program_id c"]
  by (simp add: command_input_json_def command_input_value_fields canon_JObj)

lemma command_type_listed: "fst (command_parameters c) \<in> history_command_types"
  by (cases c) (simp_all add: history_command_types_def)

lemma validate_history_input_Inr:
  assumes "validate_history_input H raw digest program_id command_type actor_id = Inr ()"
  obtains kvs c where "loads raw = Some (JObj kvs)" "field kvs ''program_id'' = JStr program_id"
    "field kvs ''command_type'' = JStr command_type" "field kvs ''actor_id'' = JStr actor_id"
    "digest = H raw" "raw = canonical_json (JObj kvs)" "command_from kvs = Inr c"
  using assms
  by (auto simp: validate_history_input_def res_simps mapping_def codec_object_def digest_json_def
      split: option.splits json.splits elim!: that)

lemma stored_program:
  assumes "digest_like H" and "wf_spec sp" and "reachable H sp p"
  obtains raw where "program_json H p = Inr raw" "program_from_json H raw = Inr p"
proof -
  have snd: "sound H p" by (rule reachable_sound[OF assms])
  have arc: "archived H p" by (rule reachable_archived[OF assms])
  have "validate H p = Inr ()" using snd validate_inv by (simp add: sound_def)
  then have "program_json H p = Inr (canonical_json (JObj [(''schema_version'', JInt codec_version), (''value'', program_document p)]))"
    by (simp add: program_json_def program_value_def references_ok[OF snd arc] lift_domain_def)
  from that[OF this program_json_reads_back[OF sound_storable[OF snd arc] this]] show ?thesis .
qed

text \<open>
  (C15) Whatever commands can produce can be stored: \<open>program_json\<close> accepts every reachable program, its own
  validation and the check of the persisted facts included, and \<open>program_from_json\<close> reads that program back
  from the stored text.
\<close>

theorem reachable_programs_are_stored:
  assumes "digest_like H" and "wf_spec sp" and "reachable H sp p"
  shows "\<exists>raw. program_json H p = Inr raw \<and> program_from_json H raw = Inr p"
  using stored_program[OF assms] by metis

theorem reachable_programs_are_stored_witness:
  "\<exists>raw. program_json demo_hash demo_5 = Inr raw \<and> program_from_json demo_hash raw = Inr demo_5"
  by (rule reachable_programs_are_stored[OF demo_digest demo_spec_wf demo_reachable(5)])

lemma input_accepted:
  assumes "made_command c" and "nonblank program_id"
  shows "validate_history_input H (command_input_json program_id c) (H (command_input_json program_id c)) program_id
      (fst (command_parameters c)) (cmd_actor_id c) = Inr ()"
  using command_from_input[OF assms] command_type_listed[of c]
  by (simp add: validate_history_input_def input_loads mapping_def typed_access input_keys input_field digest_json_def
      canonical_input record_error_def)

text \<open>
  The stored history replays: the canonical input of an accepted command passes the check of the
  history under its own digest, and decoding it gives a command that takes the program to the same result,
  amendments included, whose lists are stored in sorted order.
\<close>

theorem accepted_commands_replay:
  assumes "digest_like H" and "wf_spec sp" and "reachable H sp p" and "made_command c" and "nonblank program_id"
    and "apply_command H p c = Inr p'"
  shows "validate_history_input H (command_input_json program_id c) (H (command_input_json program_id c)) program_id
      (fst (command_parameters c)) (cmd_actor_id c) = Inr ()
    \<and> (\<exists>kvs c'. loads (command_input_json program_id c) = Some (JObj kvs) \<and> command_from kvs = Inr c'
      \<and> apply_command H p c' = Inr p')"
proof -
  have "program_ok H p" by (rule reachable_ok[OF assms(1-3)])
  from apply_sent_command[OF this assms(4,6)] show ?thesis
    using input_accepted[OF assms(4,5)] input_loads command_from_input[OF assms(4,5)] by blast
qed

lemma demo_made_commands:
  "made_command (ActivateProgram 0 ''owner'')" "made_command (AmendProgramSpec 2 ''owner'' demo_amendment)"
  using demo_commands_wf(1) demo_side_wf(3) demo_amendment_wf(1)
  by (simp_all add: made_command_def made_amendment_def) (simp add: mk_SpecAmendment_def demo_amendment_def revision_ok_def nonblank_def isspace_def)

lemma demo_program_id: "nonblank ''P''"
  by (simp add: nonblank_def isspace_def)

theorem accepted_commands_replay_witness:
  "\<exists>kvs c'. loads (command_input_json ''P'' (AmendProgramSpec 2 ''owner'' demo_amendment)) = Some (JObj kvs)
     \<and> command_from kvs = Inr c' \<and> apply_command demo_hash demo_2 c' = Inr demo_amended"
  using accepted_commands_replay[OF demo_digest demo_spec_wf demo_reachable(2) demo_made_commands(2) demo_program_id demo_amend]
  by (rule conjunct2)

text \<open>
  Tamper evidence: two stored inputs that the history accepts under one digest are the same text for
  the same program, command type and actor, unless the hash function collides.
\<close>

theorem history_digest_pins_the_input:
  assumes "validate_history_input H raw digest program_id command_type actor_id = Inr ()"
    and "validate_history_input H raw' digest program_id' command_type' actor_id' = Inr ()"
  shows "collides H \<or> raw = raw' \<and> program_id = program_id' \<and> command_type = command_type' \<and> actor_id = actor_id'"
proof (cases "raw = raw'")
  case True
  then show ?thesis using assms by (elim validate_history_input_Inr) simp
next
  case False
  then show ?thesis using assms by (elim validate_history_input_Inr) (auto simp: collides_def)
qed


theorem history_digest_pins_the_input_witness:
  "collides demo_hash \<or> command_input_json ''P'' (ActivateProgram 0 ''owner'')
     = command_input_json ''P'' (AmendProgramSpec 2 ''owner'' demo_amendment)"
proof -
  have "validate_history_input demo_hash (command_input_json ''P'' c) ''d'' ''P'' (fst (command_parameters c)) (cmd_actor_id c) = Inr ()"
    if "made_command c" for c
    using input_accepted[OF that demo_program_id, of demo_hash] by (simp add: demo_hash_def)
  note ok = this[OF demo_made_commands(1)] this[OF demo_made_commands(2)]
  show ?thesis using history_digest_pins_the_input[OF ok] by blast
qed

section \<open>What the readers accept\<close>

lemma mapM_wf: "mapM f xs = Inr ys \<Longrightarrow> (\<And>v x. f v = Inr x \<Longrightarrow> P x) \<Longrightarrow> list_all P ys"
  by (induction xs arbitrary: ys) (auto simp: res_simps)

lemma array_of_wf: "array_of f v = Inr ys \<Longrightarrow> (\<And>v x. f v = Inr x \<Longrightarrow> P x) \<Longrightarrow> list_all P ys"
  by (auto simp: array_of_def res_simps intro: mapM_wf)

lemma optional_wf: "optional f v = Inr y \<Longrightarrow> (\<And>v x. f v = Inr x \<Longrightarrow> P x) \<Longrightarrow> pred_option P y"
  by (auto simp: optional_def res_simps split: if_splits)

lemmas reader_steps = rbind_eq_Inr lift_domain_eq_Inr

lemma policy_from_wf: "policy_from v = Inr r \<Longrightarrow> wf_policy r"
  unfolding policy_from_def reader_steps by (elim exE conjE) (rule mk_PolicyReference_wf)

lemma binding_from_wf: "binding_from v = Inr b \<Longrightarrow> wf_binding b"
  unfolding binding_from_def reader_steps by (elim exE conjE) (rule mk_InputBinding_wf)

lemma authority_from_wf: "authority_from v = Inr a \<Longrightarrow> wf_authority a"
  unfolding authority_from_def reader_steps by (elim exE conjE) (rule mk_AuthorityEnvelope_wf)

lemma budget_from_wf: "budget_from v = Inr a \<Longrightarrow> wf_budget a"
  unfolding budget_from_def reader_steps by (elim exE conjE) (rule mk_BudgetPolicy_wf)

lemma work_unit_from_wf: "work_unit_from v = Inr u \<Longrightarrow> wf_work_unit u"
  unfolding work_unit_from_def reader_steps
  by (elim exE conjE) (rule mk_WorkUnit_wf, assumption, rule optional_wf, assumption, rule policy_from_wf)

lemma spec_from_wf: "spec_from v = Inr s \<Longrightarrow> wf_spec s"
  unfolding spec_from_def reader_steps
  by (elim exE conjE) (rule mk_ProgramSpec_wf, assumption,
      (rule array_of_wf work_unit_from_wf binding_from_wf budget_from_wf authority_from_wf policy_from_wf, assumption?)+)

lemma attempt_spec_from_wf: "attempt_spec_from v = Inr a \<Longrightarrow> wf_attempt_spec a"
  unfolding attempt_spec_from_def reader_steps
  by (elim exE conjE) (rule mk_AttemptSpec_wf, assumption, rule array_of_wf, assumption, rule binding_from_wf)

lemma attempt_from_wf: "attempt_from v = Inr a \<Longrightarrow> wf_attempt a"
  unfolding attempt_from_def reader_steps
  by (elim exE conjE) (auto simp: mk_Attempt_def wf_attempt_def attempt_spec_from_wf split: if_splits)

lemma satisfaction_from_wf: "satisfaction_from v = Inr t \<Longrightarrow> wf_satisfaction t"
  unfolding satisfaction_from_def reader_steps
  by (elim exE conjE) (rule mk_TrustedSatisfaction_wf, assumption, rule array_of_wf, assumption, rule binding_from_wf)

lemma cancellation_from_wf: "cancellation_from v = Inr c \<Longrightarrow> wf_cancellation c"
  unfolding cancellation_from_def reader_steps
  by (elim exE conjE) (rule made_cancellations(1)[THEN conjunct1])

lemma attempt_cancellation_from_wf: "attempt_cancellation_from v = Inr c \<Longrightarrow> wf_attempt_cancellation c"
  unfolding attempt_cancellation_from_def reader_steps
  by (elim exE conjE) (rule made_cancellations(2)[THEN conjunct1])

lemma conclusion_from_wf: "conclusion_from v = Inr c \<Longrightarrow> wf_conclusion c"
  unfolding conclusion_from_def reader_steps
  by (elim exE conjE) (auto simp: mk_ProgramConclusion_def wf_conclusion_def split: if_splits)

lemma work_unit_state_from_wf: "work_unit_state_from v = Inr st \<Longrightarrow> wf_state st"
  unfolding work_unit_state_from_def reader_steps by (elim exE conjE) (rule mk_WorkUnitState_wf)

lemma program_fields_from_storable:
  assumes "program_fields_from H value = Inr p"
  shows "storable p" and "validate H p = Inr ()" and "validate_persisted_fact_references H p = Inr ()"
  using assms
  by (auto simp: program_fields_from_def res_simps Let_def storable_def
      intro: spec_from_wf array_of_wf[OF _ spec_from_wf] array_of_wf[OF _ work_unit_state_from_wf] array_of_wf[OF _ attempt_from_wf]
        array_of_wf[OF _ satisfaction_from_wf] array_of_wf[OF _ cancellation_from_wf]
        array_of_wf[OF _ attempt_cancellation_from_wf] array_of_wf[OF _ conclusion_from_wf])

text \<open>
  (C16) Loading establishes the type invariants: whatever text \<open>program_from_json\<close> accepts, the result passes
  the kernel's \<open>_validate\<close>, every record in it satisfies the invariant of its constructor, and it can be
  stored and read back again.
\<close>

theorem loaded_programs_are_well_formed:
  assumes "program_from_json H raw = Inr p"
  shows "validate H p = Inr () \<and> storable p \<and> (\<exists>raw'. program_json H p = Inr raw' \<and> program_from_json H raw' = Inr p)"
proof -
  obtain kvs where "program_fields_from H kvs = Inr p"
    using assms by (auto simp: program_from_json_def res_simps)
  note loaded = program_fields_from_storable[OF this]
  then have "program_json H p = Inr (canonical_json (JObj [(''schema_version'', JInt codec_version), (''value'', program_document p)]))"
    by (simp add: program_json_def program_value_def lift_domain_def)
  with program_json_reads_back[OF loaded(1) this] loaded show ?thesis by blast
qed

theorem loaded_programs_are_well_formed_witness: "\<exists>raw. program_from_json demo_hash raw = Inr demo_3 \<and> storable demo_3"
proof -
  obtain raw where raw: "program_from_json demo_hash raw = Inr demo_3"
    by (rule stored_program[OF demo_digest demo_spec_wf demo_reachable(3)])
  show ?thesis using loaded_programs_are_well_formed[OF raw] raw by blast
qed

lemma reader_errors:
  "codec_object v = Inl e \<Longrightarrow> e = RecordCodecError" "codec_integer v = Inl e \<Longrightarrow> e = RecordCodecError"
  "record_error r = Inl e \<Longrightarrow> e = RecordCodecError" "guard b RecordCodecError = Inl e \<Longrightarrow> e = RecordCodecError"
  by (auto simp: codec_object_def codec_integer_def record_error_def guard_def split: json.splits if_splits)
    (cases r; simp)

lemma mapping_error: "mapping names v = Inl e \<Longrightarrow> e = RecordCodecError"
  unfolding mapping_def rbind_eq_Inl by (elim disjE exE conjE) (erule reader_errors | simp)+

lemma versioned_error:
  assumes "versioned raw = Inl e"
  shows "e = RecordCodecError"
proof (cases "loads raw")
  case None
  then show ?thesis using assms by (simp add: versioned_def)
next
  case (Some decoded)
  then show ?thesis using assms unfolding versioned_def option.case rbind_eq_Inl Some
    by (elim disjE exE conjE) (erule mapping_error reader_errors)+
qed

text \<open>
  Reading a program fails closed: malformed text, a document of another shape or version and every
  exception of the domain constructors and of \<open>_validate\<close> come out as \<open>RecordCodecError\<close>.
\<close>

theorem unreadable_programs_are_codec_errors: "program_from_json H raw = Inl e \<Longrightarrow> e = RecordCodecError"
  unfolding program_from_json_def rbind_eq_Inl
  by (elim disjE exE conjE) (erule versioned_error reader_errors)+

theorem unreadable_programs_are_codec_errors_witness: "program_from_json demo_hash ''[]'' = Inl RecordCodecError"
proof -
  have "isl (program_from_json demo_hash ''[]'')" by code_simp
  then obtain e where e: "program_from_json demo_hash ''[]'' = Inl e" by (auto simp: isl_def)
  show ?thesis using unreadable_programs_are_codec_errors[OF e] e by simp
qed

lemma unique_keys_create: "unique_keys (create_input_value s)"
  by (simp add: create_input_value_def unique_keys_JObj unique_keys_spec)

text \<open>The check of a stored creation comes down to reading the specification back.\<close>

lemma validate_created:
  "validate_create_input H (create_input_json s) (H (create_input_json s)) (ps_program_id s) (ae_owner_id (ps_authority s))
     = rbind (spec_from (canon (spec_payload s))) (\<lambda>spec.
       rbind (guard (ps_program_id spec = ps_program_id s \<and> ae_owner_id (ps_authority spec) = ae_owner_id (ps_authority s))
         RecordCodecError) (\<lambda>_. Inr ()))"
proof -
  obtain kvs where kvs: "create_input_value s = JObj kvs" by (simp add: create_input_value_def)
  have l: "loads (create_input_json s) = Some (JObj (canon_fields kvs))"
    using loads_dumps(1)[OF unique_keys_create, of s] by (simp add: create_input_json_def canonical_json_def kvs canon_JObj)
  have again: "canonical_json (JObj (canon_fields kvs)) = create_input_json s"
    using canonical_again[of "create_input_value s"] by (simp add: create_input_json_def kvs canon_JObj)
  have "field (canon_fields kvs) ''schema_version'' = JInt codec_version"
      "field (canon_fields kvs) ''command_type'' = JStr ''create_program''"
      "field (canon_fields kvs) ''program_id'' = JStr (ps_program_id s)"
      "field (canon_fields kvs) ''actor_id'' = JStr (ae_owner_id (ps_authority s))"
      "field (canon_fields kvs) ''spec'' = canon (spec_payload s)"
      "json_keys (canon_fields kvs) = {''schema_version'', ''command_type'', ''program_id'', ''actor_id'', ''spec''}"
    using kvs by (auto simp: create_input_value_def codec_simps)
  then show ?thesis
    by (simp add: validate_create_input_def l mapping_def typed_access digest_json_def again)
qed

text \<open>
  The stored creation of a program passes its check: for every well-formed specification the canonical
  input, its digest, the program and its owner are accepted by \<open>validate_create_input\<close>.
\<close>

theorem created_specs_are_stored:
  assumes "wf_spec s"
  shows "validate_create_input H (create_input_json s) (H (create_input_json s)) (ps_program_id s)
      (ae_owner_id (ps_authority s)) = Inr ()"
  using spec_from_payload[OF assms] by (simp add: validate_created)

text \<open>
  Unlike \<open>validate_history_input\<close>, the check lets an exception of the domain through: a stored creation whose
  specification has a blank objective raises \<open>InvalidDomainValue\<close>, not \<open>RecordCodecError\<close>.
\<close>

lemma creation_check_lets_domain_errors_through:
  "validate_create_input H (create_input_json (demo_spec\<lparr>ps_objective := []\<rparr>)) (H (create_input_json (demo_spec\<lparr>ps_objective := []\<rparr>)))
     ''P'' ''owner'' = Inl (CodecDomainError InvalidDomainValue)"
proof -
  let ?s = "demo_spec\<lparr>ps_objective := []\<rparr>"
  have id: "ps_program_id ?s = ''P''" "ae_owner_id (ps_authority ?s) = ''owner''" by (simp_all add: demo_spec_def demo_authority_def)
  have "spec_from (canon (spec_payload ?s)) = Inl (CodecDomainError InvalidDomainValue)" by code_simp
  then show ?thesis using validate_created[of H ?s, unfolded id] by simp
qed

theorem created_specs_are_stored_witness:
  "validate_create_input demo_hash (create_input_json demo_spec) ''d'' ''P'' ''owner'' = Inr ()"
  using created_specs_are_stored[OF demo_spec_wf, of demo_hash]
  by (simp add: demo_hash_def) (simp add: demo_spec_def demo_authority_def)

end
