(* ===== verification/Deadlines.thy ===== *)
theory Deadlines
  imports Core_Prelude
begin

text \<open>
  core/deadlines.py: the original deadline of a task, projected once onto the suspend-inclusive boot
  clock, and the time at which later decisions are taken. A reading that cannot be compared with the
  projection (another boot, a clock that ran backwards, no reading at all) counts as the deadline
  itself, so a decision can only fail closed.
\<close>

datatype deadline_error = DeadlineValueError

type_synonym 'a tres = "deadline_error + 'a"

definition boottime :: string where
  "boottime = ''linux:CLOCK_BOOTTIME''"

record boot_clock_reading =
  bc_wall :: int
  bc_boot_ns :: int
  bc_boot_id :: string
  bc_clock :: string

definition mk_BootClockReading :: "int \<Rightarrow> int \<Rightarrow> string \<Rightarrow> string \<Rightarrow> boot_clock_reading tres" where
  "mk_BootClockReading wall boot_ns boot_id clock =
     rbind (guard (0 \<le> wall \<and> 0 \<le> boot_ns \<and> nonblank boot_id \<and> clock = boottime) DeadlineValueError)
       (\<lambda>_. Inr \<lparr>bc_wall = wall, bc_boot_ns = boot_ns, bc_boot_id = boot_id, bc_clock = clock\<rparr>)"

definition wf_reading :: "boot_clock_reading \<Rightarrow> bool" where
  "wf_reading r \<longleftrightarrow> mk_BootClockReading (bc_wall r) (bc_boot_ns r) (bc_boot_id r) (bc_clock r) = Inr r"

record deadline_projection =
  dp_wall_deadline :: int
  dp_wall_anchor :: int
  dp_boot_anchor_ns :: int
  dp_boot_deadline_ns :: int
  dp_boot_id :: string
  dp_clock :: string

definition mk_DeadlineProjection ::
  "int \<Rightarrow> int \<Rightarrow> int \<Rightarrow> int \<Rightarrow> string \<Rightarrow> string \<Rightarrow> deadline_projection tres" where
  "mk_DeadlineProjection wall_deadline wall_anchor boot_anchor_ns boot_deadline_ns boot_id clock =
     rbind (mk_BootClockReading wall_anchor boot_anchor_ns boot_id clock) (\<lambda>_.
     rbind (guard (wall_anchor < wall_deadline
         \<and> boot_deadline_ns = boot_anchor_ns + (wall_deadline - wall_anchor) * 1000000000)
         DeadlineValueError) (\<lambda>_.
     Inr \<lparr>dp_wall_deadline = wall_deadline, dp_wall_anchor = wall_anchor,
       dp_boot_anchor_ns = boot_anchor_ns, dp_boot_deadline_ns = boot_deadline_ns,
       dp_boot_id = boot_id, dp_clock = clock\<rparr>))"

definition wf_deadline :: "deadline_projection \<Rightarrow> bool" where
  "wf_deadline p \<longleftrightarrow> mk_DeadlineProjection (dp_wall_deadline p) (dp_wall_anchor p)
     (dp_boot_anchor_ns p) (dp_boot_deadline_ns p) (dp_boot_id p) (dp_clock p) = Inr p"

definition bind_deadline :: "int \<Rightarrow> boot_clock_reading \<Rightarrow> deadline_projection tres" where
  "bind_deadline deadline r =
     mk_DeadlineProjection deadline (bc_wall r) (bc_boot_ns r)
       (bc_boot_ns r + (deadline - bc_wall r) * 1000000000) (bc_boot_id r) (bc_clock r)"

definition verifiable :: "deadline_projection \<Rightarrow> boot_clock_reading option \<Rightarrow> bool" where
  "verifiable p reading = (case reading of
     None \<Rightarrow> False
   | Some r \<Rightarrow> \<not> (bc_boot_id r \<noteq> dp_boot_id p \<or> bc_clock r \<noteq> dp_clock p
       \<or> bc_boot_ns r < dp_boot_anchor_ns p \<or> bc_wall r < dp_wall_anchor p))"

definition decision_time :: "deadline_projection \<Rightarrow> boot_clock_reading option \<Rightarrow> int" where
  "decision_time p reading = (if \<not> verifiable p reading then dp_wall_deadline p
     else case reading of
       None \<Rightarrow> dp_wall_deadline p
     | Some r \<Rightarrow> max (bc_wall r)
         (dp_wall_anchor p + (bc_boot_ns r - dp_boot_anchor_ns p) div 1000000000))"

text \<open>\<open>decode\<close> reads a stored object; \<open>deadline_payload\<close> is the object the store writes
  (\<open>asdict\<close> of the projection).\<close>

definition deadline_payload :: "deadline_projection \<Rightarrow> json" where
  "deadline_payload p = JObj
     [(''wall_deadline'', JInt (dp_wall_deadline p)),
      (''wall_anchor'', JInt (dp_wall_anchor p)),
      (''boot_anchor_ns'', JInt (dp_boot_anchor_ns p)),
      (''boot_deadline_ns'', JInt (dp_boot_deadline_ns p)),
      (''boot_id'', JStr (dp_boot_id p)),
      (''clock'', JStr (dp_clock p))]"

definition decode_deadline :: "json \<Rightarrow> deadline_projection tres" where
  "decode_deadline v = (case v of
     JObj raw \<Rightarrow>
       if json_keys raw \<noteq> {''wall_deadline'', ''wall_anchor'', ''boot_anchor_ns'',
            ''boot_deadline_ns'', ''boot_id'', ''clock''}
       then Inl DeadlineValueError
       else (case (as_int (map_of raw ''wall_deadline''), as_int (map_of raw ''wall_anchor''),
           as_int (map_of raw ''boot_anchor_ns''), as_int (map_of raw ''boot_deadline_ns''),
           as_str (map_of raw ''boot_id''), as_str (map_of raw ''clock'')) of
         (Some d, Some w, Some a, Some b, Some i, Some c) \<Rightarrow> mk_DeadlineProjection d w a b i c
       | _ \<Rightarrow> Inl DeadlineValueError)
   | _ \<Rightarrow> Inl DeadlineValueError)"

section \<open>Well-formed values\<close>

lemma wf_reading_iff:
  "wf_reading r \<longleftrightarrow> 0 \<le> bc_wall r \<and> 0 \<le> bc_boot_ns r \<and> nonblank (bc_boot_id r) \<and> bc_clock r = boottime"
  by (cases r) (auto simp: wf_reading_def mk_BootClockReading_def res_simps)

lemma wf_deadline_iff:
  "wf_deadline p \<longleftrightarrow> 0 \<le> dp_wall_anchor p \<and> 0 \<le> dp_boot_anchor_ns p \<and> nonblank (dp_boot_id p)
     \<and> dp_clock p = boottime \<and> dp_wall_anchor p < dp_wall_deadline p
     \<and> dp_boot_deadline_ns p = dp_boot_anchor_ns p + (dp_wall_deadline p - dp_wall_anchor p) * 1000000000"
  by (cases p) (auto simp: wf_deadline_def mk_DeadlineProjection_def mk_BootClockReading_def res_simps)

lemma mk_DeadlineProjection_wf:
  "mk_DeadlineProjection d w a b i c = Inr p \<Longrightarrow> wf_deadline p"
  by (auto simp: wf_deadline_iff mk_DeadlineProjection_def mk_BootClockReading_def res_simps)

lemma bind_deadline_eq_Inr:
  "bind_deadline d r = Inr p \<Longrightarrow> wf_deadline p \<and> dp_wall_deadline p = d \<and> dp_wall_anchor p = bc_wall r
     \<and> dp_boot_anchor_ns p = bc_boot_ns r \<and> dp_boot_id p = bc_boot_id r \<and> dp_clock p = bc_clock r"
  unfolding bind_deadline_def
  by (auto dest: mk_DeadlineProjection_wf)
    (auto simp: mk_DeadlineProjection_def res_simps)

lemma bind_deadline_succeeds_iff:
  "wf_reading r \<Longrightarrow> (\<exists>p. bind_deadline d r = Inr p) \<longleftrightarrow> bc_wall r < d"
  by (auto simp: bind_deadline_def mk_DeadlineProjection_def mk_BootClockReading_def res_simps
      wf_reading_iff)

lemma verifiable_Some:
  "verifiable p (Some r) \<longleftrightarrow> bc_boot_id r = dp_boot_id p \<and> bc_clock r = dp_clock p
     \<and> dp_boot_anchor_ns p \<le> bc_boot_ns r \<and> dp_wall_anchor p \<le> bc_wall r"
  by (auto simp: verifiable_def)

lemma verifiable_None [simp]: "\<not> verifiable p None"
  by (simp add: verifiable_def)

lemma decision_time_unverifiable: "\<not> verifiable p reading \<Longrightarrow> decision_time p reading = dp_wall_deadline p"
  by (simp add: decision_time_def)

lemma decision_time_Some:
  "verifiable p (Some r) \<Longrightarrow> decision_time p (Some r) =
     max (bc_wall r) (dp_wall_anchor p + (bc_boot_ns r - dp_boot_anchor_ns p) div 1000000000)"
  by (simp add: decision_time_def)

section \<open>Properties\<close>

lemma boot_deadline_reached:
  assumes "wf_deadline p"
  shows "dp_wall_deadline p \<le> dp_wall_anchor p + (ns - dp_boot_anchor_ns p) div 1000000000
    \<longleftrightarrow> dp_boot_deadline_ns p \<le> ns"
proof -
  have "a \<le> n div 1000000000 \<longleftrightarrow> a * 1000000000 \<le> n" for a n :: int
    using zdiv_mono1[of "a * 1000000000" n 1000000000] by (auto simp: minus_mod_eq_mult_div[symmetric])
  from this[of "dp_wall_deadline p - dp_wall_anchor p" "ns - dp_boot_anchor_ns p"] assms show ?thesis
    by (auto simp: wf_deadline_iff)
qed

lemma decision_time_mono:
  assumes "verifiable p (Some r)" and "bc_wall r \<le> bc_wall r'" and "bc_boot_ns r \<le> bc_boot_ns r'"
    and "bc_boot_id r' = bc_boot_id r" and "bc_clock r' = bc_clock r"
  shows "verifiable p (Some r')" and "decision_time p (Some r) \<le> decision_time p (Some r')"
proof -
  show v: "verifiable p (Some r')" using assms by (simp add: verifiable_Some)
  have "(bc_boot_ns r - dp_boot_anchor_ns p) div 1000000000
      \<le> (bc_boot_ns r' - dp_boot_anchor_ns p) div 1000000000"
    using assms(3) by (intro zdiv_mono1) auto
  with assms(2) show "decision_time p (Some r) \<le> decision_time p (Some r')"
    by (simp add: decision_time_Some[OF assms(1)] decision_time_Some[OF v] max.coboundedI1 max.coboundedI2)
qed

text \<open>Expiry is exact. A decision on a well-formed projection is taken at or after the
  deadline exactly when the reading is missing or not comparable, or the wall clock has reached the
  wall deadline, or the boot clock has reached the projected boot deadline: whole seconds of boot time
  round down, and this never moves the instant of expiry.\<close>

theorem deadline_expires_exactly:
  assumes "wf_deadline p"
  shows "dp_wall_deadline p \<le> decision_time p reading \<longleftrightarrow>
    (case reading of
       None \<Rightarrow> True
     | Some r \<Rightarrow> \<not> verifiable p (Some r) \<or> dp_wall_deadline p \<le> bc_wall r
         \<or> dp_boot_deadline_ns p \<le> bc_boot_ns r)"
proof (cases "verifiable p reading")
  case True
  then obtain r where r: "reading = Some r" by (cases reading) auto
  from boot_deadline_reached[OF assms, of "bc_boot_ns r"] True show ?thesis
    by (auto simp: r decision_time_Some)
qed (auto simp: decision_time_unverifiable split: option.split)

text \<open>A projection bound to a well-formed reading exists exactly for a deadline in the future of that
  reading; it is well formed and not expired at it. From a comparable reading on, as long as both
  clocks of the same boot advance, the decision time never precedes the wall clock and only grows, so
  an expired deadline stays expired at every later reading and at every unusable one.\<close>

theorem bound_deadline_is_monotone:
  assumes "wf_reading r\<^sub>0"
  shows "case bind_deadline d r\<^sub>0 of
      Inl e \<Rightarrow> d \<le> bc_wall r\<^sub>0
    | Inr p \<Rightarrow> wf_deadline p \<and> decision_time p (Some r\<^sub>0) = bc_wall r\<^sub>0 \<and> bc_wall r\<^sub>0 < d
        \<and> (\<forall>r. verifiable p (Some r) \<longrightarrow> bc_wall r \<le> decision_time p (Some r)
            \<and> (d \<le> decision_time p (Some r) \<longrightarrow> d \<le> decision_time p None)
            \<and> (\<forall>r'. bc_wall r \<le> bc_wall r' \<longrightarrow> bc_boot_ns r \<le> bc_boot_ns r' \<longrightarrow>
                bc_boot_id r' = bc_boot_id r \<longrightarrow> bc_clock r' = bc_clock r \<longrightarrow>
                decision_time p (Some r) \<le> decision_time p (Some r')))"
proof (cases "bind_deadline d r\<^sub>0")
  case (Inl e)
  then show ?thesis using bind_deadline_succeeds_iff[OF assms, of d] by auto
next
  case (Inr p)
  note p = bind_deadline_eq_Inr[OF Inr]
  have v: "verifiable p (Some r\<^sub>0)" using p by (simp add: verifiable_Some)
  have "bc_wall r\<^sub>0 < d" using bind_deadline_succeeds_iff[OF assms, of d] Inr by auto
  moreover have "decision_time p (Some r\<^sub>0) = bc_wall r\<^sub>0" using p by (simp add: decision_time_Some[OF v])
  moreover have "bc_wall r \<le> decision_time p (Some r)" if "verifiable p (Some r)" for r
    by (simp add: decision_time_Some[OF that])
  moreover have "decision_time p None = d" using p by (simp add: decision_time_unverifiable)
  ultimately show ?thesis using p by (simp add: Inr decision_time_mono(2))
qed

text \<open>A stored projection reads back as itself, and whatever \<open>decode\<close> accepts is well formed.\<close>

theorem deadline_roundtrip:
  "(decode_deadline (deadline_payload p) = Inr p \<longleftrightarrow> wf_deadline p)
    \<and> (decode_deadline v = Inr q \<longrightarrow> wf_deadline q)"
proof
  have "json_keys [(''wall_deadline'', a), (''wall_anchor'', b), (''boot_anchor_ns'', c),
      (''boot_deadline_ns'', d), (''boot_id'', e), (''clock'', f)] =
      {''wall_deadline'', ''wall_anchor'', ''boot_anchor_ns'', ''boot_deadline_ns'', ''boot_id'', ''clock''}"
    for a b c d e f by (simp add: json_keys_def)
  then show "decode_deadline (deadline_payload p) = Inr p \<longleftrightarrow> wf_deadline p"
    by (simp add: decode_deadline_def deadline_payload_def wf_deadline_def)
  show "decode_deadline v = Inr q \<longrightarrow> wf_deadline q"
    by (auto simp: decode_deadline_def split: json.splits if_splits option.splits
        dest: mk_DeadlineProjection_wf)
qed

section \<open>Witnesses\<close>

text \<open>A boot clock read 5 seconds after boot, at wall time 1000, and a deadline one minute later.\<close>

definition demo_reading :: boot_clock_reading where
  "demo_reading = \<lparr>bc_wall = 1000, bc_boot_ns = 5000000000, bc_boot_id = ''boot-a'', bc_clock = boottime\<rparr>"

definition demo_deadline :: deadline_projection where
  "demo_deadline = \<lparr>dp_wall_deadline = 1060, dp_wall_anchor = 1000, dp_boot_anchor_ns = 5000000000,
     dp_boot_deadline_ns = 65000000000, dp_boot_id = ''boot-a'', dp_clock = boottime\<rparr>"

lemma demo_deadline_wf: "wf_deadline demo_deadline"
  by code_simp

lemma demo_reading_wf: "wf_reading demo_reading"
  by code_simp

lemma demo_deadline_bound: "bind_deadline 1060 demo_reading = Inr demo_deadline"
  by code_simp

theorem deadline_expires_exactly_witness:
  "wf_deadline demo_deadline
    \<and> dp_wall_deadline demo_deadline \<le> decision_time demo_deadline (Some (demo_reading\<lparr>bc_boot_ns := 65000000000\<rparr>))
    \<and> \<not> dp_wall_deadline demo_deadline \<le> decision_time demo_deadline (Some (demo_reading\<lparr>bc_boot_ns := 64999999999\<rparr>))"
  unfolding deadline_expires_exactly[OF demo_deadline_wf]
  by (simp add: demo_deadline_wf) code_simp

theorem bound_deadline_is_monotone_witness:
  "wf_deadline demo_deadline \<and> decision_time demo_deadline (Some demo_reading) = 1000"
  using bound_deadline_is_monotone[OF demo_reading_wf, of 1060] demo_deadline_bound
  by (simp add: demo_reading_def)

theorem deadline_roundtrip_witness:
  "decode_deadline (deadline_payload demo_deadline) = Inr demo_deadline"
  using deadline_roundtrip[of demo_deadline JNull demo_deadline] demo_deadline_wf by simp

end
