(* ===== verification/Progress.thy ===== *)
theory Progress
  imports Core_Prelude
begin

text \<open>
  core/served.py: positions and events of a producer, and the bounded buffer that hands them to a
  reader. The buffer keeps the newest \<open>capacity\<close> events (\<open>deque(maxlen=capacity)\<close>); a reader that asks
  for events the buffer no longer has is told of a gap.

  The specification is the unbounded log of everything ever appended. \<open>tracks\<close> relates a buffer to
  its log; reading the buffer is then a function of the log alone (\<open>log_read\<close>). The locale
  \<open>event_source\<close> states what a reader relies on and proves once that a reader who polls while the
  producer appends misses nothing until it is told of a gap.
\<close>

datatype progress_error = ProgressRefused

type_synonym 'a pres = "progress_error + 'a"

text \<open>\<open>H\<close> is the hexadecimal SHA-256 of the encoded scope.\<close>

definition command_prefix :: "(string \<Rightarrow> string) \<Rightarrow> string \<Rightarrow> string pres" where
  "command_prefix H scope =
     rbind (guard (nonblank scope) ProgressRefused) (\<lambda>_. Inr (''served-command:'' @ H scope @ '':''))"

record progress_position =
  ps_producer :: string
  ps_scope :: string
  ps_sequence :: int

definition mk_ProgressPosition :: "string \<Rightarrow> string \<Rightarrow> int \<Rightarrow> progress_position pres" where
  "mk_ProgressPosition producer scope seq =
     rbind (guard (hex_text 32 producer \<and> nonblank scope \<and> \<not> seq < 0 \<and> \<not> seq > 2 ^ 63 - 1) ProgressRefused)
       (\<lambda>_. Inr \<lparr>ps_producer = producer, ps_scope = scope, ps_sequence = seq\<rparr>)"

record progress_event =
  pe_position :: progress_position
  pe_kind :: string
  pe_revision :: int

definition mk_ProgressEvent :: "progress_position \<Rightarrow> string \<Rightarrow> int \<Rightarrow> progress_event pres" where
  "mk_ProgressEvent position kind revision =
     rbind (guard (\<not> ps_sequence position < 1
         \<and> kind \<in> {''snapshot-changed'', ''decision-required'', ''resync-required''}
         \<and> \<not> revision < 0) ProgressRefused)
       (\<lambda>_. Inr \<lparr>pe_position = position, pe_kind = kind, pe_revision = revision\<rparr>)"

record progress_batch =
  bt_events :: "progress_event list"
  bt_position :: progress_position
  bt_gap :: bool

record progress_buffer =
  pb_position :: progress_position
  pb_events :: "progress_event list"
  pb_capacity :: nat

definition mk_ProgressBuffer :: "string \<Rightarrow> string \<Rightarrow> int \<Rightarrow> progress_buffer pres" where
  "mk_ProgressBuffer producer scope capacity =
     rbind (guard (1 \<le> capacity \<and> capacity \<le> 4096) ProgressRefused) (\<lambda>_.
     rbind (mk_ProgressPosition producer scope 0) (\<lambda>position.
     Inr \<lparr>pb_position = position, pb_events = [], pb_capacity = nat capacity\<rparr>))"

text \<open>\<open>deque.append\<close> of a full deque drops the oldest element.\<close>

definition deque_append :: "nat \<Rightarrow> 'a list \<Rightarrow> 'a \<Rightarrow> 'a list" where
  "deque_append maxlen xs x = (let ys = xs @ [x] in drop (length ys - maxlen) ys)"

definition append_event :: "progress_buffer \<Rightarrow> string \<Rightarrow> int \<Rightarrow> (progress_event \<times> progress_buffer) pres" where
  "append_event b kind revision =
     rbind (mk_ProgressPosition (ps_producer (pb_position b)) (ps_scope (pb_position b))
         (ps_sequence (pb_position b) + 1)) (\<lambda>position.
     rbind (mk_ProgressEvent position kind revision) (\<lambda>event.
     Inr (event, b\<lparr>pb_events := deque_append (pb_capacity b) (pb_events b) event, pb_position := position\<rparr>)))"

definition sequence_of :: "progress_event \<Rightarrow> int" where
  "sequence_of e = ps_sequence (pe_position e)"

definition resync :: "progress_event \<Rightarrow> bool" where
  "resync e \<longleftrightarrow> pe_kind e = ''resync-required''"

definition read_events :: "progress_buffer \<Rightarrow> progress_position \<Rightarrow> int \<Rightarrow> progress_batch pres" where
  "read_events b after limit =
     rbind (guard (1 \<le> limit \<and> limit \<le> 4096) ProgressRefused) (\<lambda>_. Inr (
       if (ps_producer after, ps_scope after) \<noteq> (ps_producer (pb_position b), ps_scope (pb_position b))
          \<or> ps_sequence after > ps_sequence (pb_position b)
       then \<lparr>bt_events = [], bt_position = pb_position b, bt_gap = True\<rparr>
       else if pb_events b \<noteq> [] \<and> ps_sequence after < sequence_of (hd (pb_events b)) - 1
       then \<lparr>bt_events = [], bt_position = pb_position b, bt_gap = True\<rparr>
       else let events = take (nat limit) (filter (\<lambda>e. sequence_of e > ps_sequence after) (pb_events b)) in
         if list_ex resync events
         then \<lparr>bt_events = filter resync events, bt_position = pb_position b, bt_gap = True\<rparr>
         else \<lparr>bt_events = events,
           bt_position = (if events \<noteq> [] then pe_position (last events) else after), bt_gap = False\<rparr>))"

section \<open>The log a buffer tracks\<close>

text \<open>The log holds one event per sequence number, from 1 on; the buffer holds its newest part.\<close>

definition wf_log :: "string \<Rightarrow> string \<Rightarrow> progress_event list \<Rightarrow> bool" where
  "wf_log producer scope L \<longleftrightarrow> (\<forall>i < length L. pe_position (L ! i) =
     \<lparr>ps_producer = producer, ps_scope = scope, ps_sequence = int i + 1\<rparr>)"

definition tracks :: "progress_buffer \<Rightarrow> progress_event list \<Rightarrow> bool" where
  "tracks b L \<longleftrightarrow> 1 \<le> pb_capacity b \<and> pb_events b = drop (length L - pb_capacity b) L
     \<and> ps_sequence (pb_position b) = int (length L)
     \<and> wf_log (ps_producer (pb_position b)) (ps_scope (pb_position b)) L"

definition log_read ::
  "progress_event list \<Rightarrow> nat \<Rightarrow> progress_position \<Rightarrow> progress_position \<Rightarrow> nat \<Rightarrow> progress_batch" where
  "log_read L cap here after limit = (
     if (ps_producer after, ps_scope after) \<noteq> (ps_producer here, ps_scope here)
       \<or> \<not> ps_sequence after \<le> int (length L) \<or> ps_sequence after < int (length L) - int cap
     then \<lparr>bt_events = [], bt_position = here, bt_gap = True\<rparr>
     else let events = take limit (drop (nat (ps_sequence after)) L) in
       if \<exists>e \<in> set events. resync e
       then \<lparr>bt_events = filter resync events, bt_position = here, bt_gap = True\<rparr>
       else \<lparr>bt_events = events,
         bt_position = after\<lparr>ps_sequence := ps_sequence after + int (length events)\<rparr>, bt_gap = False\<rparr>)"

lemma drop_append_drop:
  "drop (length (drop m xs) + 1 - n) (drop (length xs - n) xs @ [x]) = drop (Suc (length xs) - n) (xs @ [x])"
  if "m = length xs - n" "0 < n"
proof (cases "length xs < n")
  case False
  with that show ?thesis by (simp add: Suc_diff_le)
qed (use that in simp)

lemma tracks_new: "mk_ProgressBuffer producer scope capacity = Inr b \<Longrightarrow> tracks b []"
  by (auto simp: mk_ProgressBuffer_def mk_ProgressPosition_def res_simps tracks_def wf_log_def)

lemma append_event_eq_Inr:
  assumes "append_event b kind revision = Inr (e, b')"
  shows "e = \<lparr>pe_position = (pb_position b)\<lparr>ps_sequence := ps_sequence (pb_position b) + 1\<rparr>,
      pe_kind = kind, pe_revision = revision\<rparr>"
    and "b' = b\<lparr>pb_events := deque_append (pb_capacity b) (pb_events b) e, pb_position := pe_position e\<rparr>"
  using assms by (auto simp: append_event_def mk_ProgressPosition_def mk_ProgressEvent_def res_simps)

lemma tracks_append:
  assumes "tracks b L" and "append_event b kind revision = Inr (e, b')"
  shows "tracks b' (L @ [e])"
proof -
  note e = append_event_eq_Inr[OF assms(2)]
  have "deque_append (pb_capacity b) (drop (length L - pb_capacity b) L) e
      = drop (length (L @ [e]) - pb_capacity b) (L @ [e])"
    using drop_append_drop[of "length L - pb_capacity b" L "pb_capacity b" e] assms(1)
    by (simp add: deque_append_def tracks_def Let_def)
  moreover have "wf_log (ps_producer (pb_position b)) (ps_scope (pb_position b)) (L @ [e])"
    using assms(1) e(1) by (auto simp: tracks_def wf_log_def nth_append)
  ultimately show ?thesis using assms(1) e by (simp add: tracks_def)
qed

lemma wf_log_sequence: "wf_log p s L \<Longrightarrow> i < length L \<Longrightarrow> sequence_of (L ! i) = int i + 1"
  by (simp add: wf_log_def sequence_of_def)

lemma filter_sequence_log:
  assumes "wf_log p s L"
  shows "filter (\<lambda>e. sequence_of e > int n) (drop k L) = drop (max n k) L"
proof (induction "length L - k" arbitrary: k)
  case (Suc m)
  then have "k < length L" by simp
  moreover from Suc(2) have "filter (\<lambda>e. sequence_of e > int n) (drop (Suc k) L) = drop (max n (Suc k)) L"
    by (intro Suc(1)) simp
  moreover have "n \<le> k \<or> max n (Suc k) = n \<and> max n k = n" by auto
  ultimately show ?case using wf_log_sequence[OF assms, of k]
    by (auto simp: Cons_nth_drop_Suc[symmetric] max_def le_Suc_eq)
qed simp

lemma last_position_log:
  assumes "wf_log p s L" and "take m (drop n L) \<noteq> []" and "n \<le> length L"
  shows "pe_position (last (take m (drop n L))) =
    \<lparr>ps_producer = p, ps_scope = s, ps_sequence = int n + int (length (take m (drop n L)))\<rparr>"
proof -
  let ?i = "n + length (take m (drop n L)) - 1"
  have "last (take m (drop n L)) = take m (drop n L) ! (length (take m (drop n L)) - 1)"
    using assms(2) by (rule last_conv_nth)
  also have "\<dots> = L ! (n + (length (take m (drop n L)) - 1))"
    using assms(2,3) by (subst nth_take) auto
  also have "n + (length (take m (drop n L)) - 1) = ?i" using assms(2) by auto
  finally have "last (take m (drop n L)) = L ! ?i" .
  moreover have "?i < length L" using assms(2,3) by auto
  ultimately show ?thesis using assms(1,2) by (auto simp: wf_log_def)
qed

lemma tracks_hd:
  assumes "tracks b L" and "pb_events b \<noteq> []"
  shows "sequence_of (hd (pb_events b)) = int (length L - pb_capacity b) + 1"
  using assms wf_log_sequence[of _ _ L "length L - pb_capacity b"]
  by (auto simp: tracks_def hd_drop_conv_nth)

lemma tracks_filter:
  assumes "tracks b L" and "int (length L) - int (pb_capacity b) \<le> int n"
  shows "filter (\<lambda>e. sequence_of e > int n) (pb_events b) = drop n L"
proof -
  have "max n (length L - pb_capacity b) = n" using assms(2) by linarith
  with assms(1) show ?thesis by (auto simp: tracks_def filter_sequence_log)
qed

lemma tracks_lost_iff:
  assumes "tracks b L" and "0 \<le> n" and "n \<le> int (length L)"
  shows "pb_events b \<noteq> [] \<and> n < sequence_of (hd (pb_events b)) - 1
    \<longleftrightarrow> n < int (length L) - int (pb_capacity b)"
  using assms(2,3) tracks_hd[OF assms(1)] assms(1) by (auto simp: tracks_def)

lemma read_events_log:
  assumes t: "tracks b L" and "0 \<le> ps_sequence after" and "1 \<le> limit" and "limit \<le> 4096"
  shows "read_events b after limit = Inr (log_read L (pb_capacity b) (pb_position b) after (nat limit))"
proof -
  obtain n where n: "ps_sequence after = int n" using assms(2) nonneg_int_cases by blast
  have here: "ps_sequence (pb_position b) = int (length L)" using t by (simp add: tracks_def)
  consider (other) "(ps_producer after, ps_scope after) \<noteq> (ps_producer (pb_position b), ps_scope (pb_position b))
      \<or> length L < n"
    | (lost) "(ps_producer after, ps_scope after) = (ps_producer (pb_position b), ps_scope (pb_position b))"
      "n \<le> length L" "int n < int (length L) - int (pb_capacity b)"
    | (slice) "(ps_producer after, ps_scope after) = (ps_producer (pb_position b), ps_scope (pb_position b))"
      "n \<le> length L" "int (length L) - int (pb_capacity b) \<le> int n"
    by linarith
  then show ?thesis
  proof cases
    case other
    with assms(3,4) here n show ?thesis by (auto simp: read_events_def log_read_def)
  next
    case lost
    with tracks_lost_iff[OF t, of "int n"] assms(3,4) here n show ?thesis
      by (simp add: read_events_def log_read_def)
  next
    case slice
    let ?es = "take (nat limit) (drop n L)"
    have "pe_position (last ?es) = after\<lparr>ps_sequence := ps_sequence after + int (length ?es)\<rparr>" if "?es \<noteq> []"
      using last_position_log[of _ _ L "nat limit" n] that slice(1,2) t n
      by (cases after) (simp add: tracks_def)
    moreover have "after\<lparr>ps_sequence := ps_sequence after + int 0\<rparr> = after" by simp
    ultimately have position: "(if ?es \<noteq> [] then pe_position (last ?es) else after)
        = after\<lparr>ps_sequence := ps_sequence after + int (length ?es)\<rparr>" by (cases "?es = []") auto
    have kept: "(pb_events b \<noteq> [] \<and> int n < sequence_of (hd (pb_events b)) - 1) = False"
      using tracks_lost_iff[OF t, of "int n"] slice(2,3) by simp
    have "read_events b after limit = Inr (
         if list_ex resync ?es
         then \<lparr>bt_events = filter resync ?es, bt_position = pb_position b, bt_gap = True\<rparr>
         else \<lparr>bt_events = ?es, bt_position = (if ?es \<noteq> [] then pe_position (last ?es) else after), bt_gap = False\<rparr>)"
      unfolding read_events_def n here tracks_filter[OF t slice(3)] Let_def kept
      using assms(3,4) slice(1,2) by (simp del: take_eq_Nil take_eq_Nil2)
    then show ?thesis unfolding position log_read_def Let_def n
      using slice by (simp add: list_ex_iff)
  qed
qed

section \<open>What a reader relies on\<close>

text \<open>A reader polls while the producer keeps appending: a list of steps, each an append or a poll with
  its limit. \<open>None\<close> is a reader that was told of a gap.\<close>

fun follow ::
  "('b \<Rightarrow> 'c \<Rightarrow> 'b) \<Rightarrow> ('b \<Rightarrow> 'p \<Rightarrow> 'l \<Rightarrow> ('e list \<times> 'p) option) \<Rightarrow> ('c + 'l) list \<Rightarrow>
   'b \<Rightarrow> 'p \<Rightarrow> 'e list \<Rightarrow> ('b \<times> 'p \<times> 'e list) option" where
  "follow produce poll [] b p received = Some (b, p, received)"
| "follow produce poll (Inl c # steps) b p received = follow produce poll steps (produce b c) p received"
| "follow produce poll (Inr l # steps) b p received = (case poll b p l of
     None \<Rightarrow> None
   | Some (es, p') \<Rightarrow> follow produce poll steps b p' (received @ es))"

text \<open>Everything the producer appended during the steps.\<close>

fun appended :: "('b \<Rightarrow> 'c \<Rightarrow> 'b) \<Rightarrow> ('b \<Rightarrow> 'c \<Rightarrow> 'e list) \<Rightarrow> ('c + 'l) list \<Rightarrow> 'b \<Rightarrow> 'e list" where
  "appended produce emit [] b = []"
| "appended produce emit (Inl c # steps) b = emit b c @ appended produce emit steps (produce b c)"
| "appended produce emit (Inr l # steps) b = appended produce emit steps b"

locale event_source =
  fixes tracks :: "'b \<Rightarrow> 'e list \<Rightarrow> bool"
    and at :: "'b \<Rightarrow> 'p \<Rightarrow> nat \<Rightarrow> bool"
    and produce :: "'b \<Rightarrow> 'c \<Rightarrow> 'b"
    and emit :: "'b \<Rightarrow> 'c \<Rightarrow> 'e list"
    and poll :: "'b \<Rightarrow> 'p \<Rightarrow> 'l \<Rightarrow> ('e list \<times> 'p) option"
  assumes produce_extends: "tracks b L \<Longrightarrow> tracks (produce b c) (L @ emit b c)"
    and produce_at: "at b p n \<Longrightarrow> at (produce b c) p n"
    and poll_slice: "tracks b L \<Longrightarrow> at b p n \<Longrightarrow> poll b p l = Some (es, p') \<Longrightarrow>
      at b p' (n + length es) \<and> prefix es (drop n L)"
begin

lemma follow_slice:
  assumes "tracks b L" and "at b p (length received)" and "prefix received L"
    and "follow produce poll steps b p received = Some (b', p', received')"
  shows "tracks b' (L @ appended produce emit steps b) \<and> at b' p' (length received')
    \<and> prefix received' (L @ appended produce emit steps b)"
  using assms
proof (induction steps arbitrary: b p L received)
  case (Cons step steps)
  show ?case
  proof (cases step)
    case (Inl c)
    have "prefix received (L @ emit b c)" using Cons.prems(3) by simp
    with Cons.IH[OF produce_extends[OF Cons.prems(1)] produce_at[OF Cons.prems(2)]] Cons.prems(4) Inl
    show ?thesis by simp
  next
    case (Inr l)
    with Cons.prems(4) obtain es q where q: "poll b p l = Some (es, q)"
      and rest: "follow produce poll steps b q (received @ es) = Some (b', p', received')"
      by (auto split: option.splits)
    note slice = poll_slice[OF Cons.prems(1,2) q]
    have "prefix (received @ es) L"
      using slice Cons.prems(3) by (auto simp: prefix_def)
    with Cons.IH[OF Cons.prems(1) _ _ rest] slice Inr show ?thesis by simp
  qed
qed auto

end

text \<open>The buffer as an event source: a refused append or read leaves everything as it was.\<close>

definition produce_event :: "progress_buffer \<Rightarrow> string \<times> int \<Rightarrow> progress_buffer" where
  "produce_event b ev = (case append_event b (fst ev) (snd ev) of Inl _ \<Rightarrow> b | Inr (_, b') \<Rightarrow> b')"

definition emitted_events :: "progress_buffer \<Rightarrow> string \<times> int \<Rightarrow> progress_event list" where
  "emitted_events b ev = (case append_event b (fst ev) (snd ev) of Inl _ \<Rightarrow> [] | Inr (e, _) \<Rightarrow> [e])"

definition poll_events :: "progress_buffer \<Rightarrow> progress_position \<Rightarrow> int \<Rightarrow>
    (progress_event list \<times> progress_position) option" where
  "poll_events b after limit = (case read_events b after limit of
     Inl _ \<Rightarrow> Some ([], after)
   | Inr batch \<Rightarrow> if bt_gap batch then None else Some (bt_events batch, bt_position batch))"

definition cursor_at :: "progress_buffer \<Rightarrow> progress_position \<Rightarrow> nat \<Rightarrow> bool" where
  "cursor_at b p n \<longleftrightarrow> ps_sequence p = int n"

lemma log_read_no_gap:
  assumes "\<not> bt_gap (log_read L cap here after limit)"
  shows "bt_events (log_read L cap here after limit) = take limit (drop (nat (ps_sequence after)) L)"
    and "bt_position (log_read L cap here after limit) = after\<lparr>ps_sequence :=
      ps_sequence after + int (length (bt_events (log_read L cap here after limit)))\<rparr>"
  using assms by (auto simp: log_read_def Let_def split: if_splits)

lemma poll_events_slice:
  assumes "tracks b L" and "cursor_at b p n" and "poll_events b p l = Some (es, p')"
  shows "cursor_at b p' (n + length es) \<and> prefix es (drop n L)"
proof (cases "1 \<le> l \<and> l \<le> 4096")
  case True
  let ?batch = "log_read L (pb_capacity b) (pb_position b) p (nat l)"
  have "read_events b p l = Inr ?batch"
    using read_events_log[OF assms(1)] True assms(2) by (simp add: cursor_at_def)
  with assms(3) have "\<not> bt_gap ?batch" "es = bt_events ?batch" "p' = bt_position ?batch"
    by (auto simp: poll_events_def split: if_splits)
  with log_read_no_gap[of L "pb_capacity b" "pb_position b" p "nat l"] assms(2) show ?thesis
    by (auto simp: cursor_at_def take_is_prefix)
next
  case False
  with assms show ?thesis by (auto simp: poll_events_def read_events_def guard_def)
qed

interpretation progress: event_source tracks cursor_at produce_event emitted_events poll_events
proof
  show "tracks (produce_event b c) (L @ emitted_events b c)" if "tracks b L" for b L c
    using that tracks_append[OF that, of "fst c" "snd c"]
    by (auto simp: produce_event_def emitted_events_def split: sum.split)
  show "cursor_at (produce_event b c) p n" if "cursor_at b p n" for b p n c
    using that by (simp add: cursor_at_def)
qed (rule poll_events_slice)

section \<open>Properties\<close>

text \<open>(C13) The buffer refines the log: a read of a buffer that tracks a log is a function of the log, the
  capacity and the two positions. It returns exactly the next events after the position asked for, and it
  reports a gap exactly when the reader is of another producer or scope, is ahead of the producer,
  has lost an event to the bound, or would cross a resynchronisation mark. New buffers track the empty
  log and an append extends the log by its event.\<close>

theorem progress_buffer_refines_log:
  "(mk_ProgressBuffer producer scope capacity = Inr b\<^sub>0 \<longrightarrow> tracks b\<^sub>0 [])
    \<and> (tracks b L \<longrightarrow> append_event b kind revision = Inr (e, b') \<longrightarrow> tracks b' (L @ [e]))
    \<and> (tracks b L \<longrightarrow> 0 \<le> ps_sequence after \<longrightarrow> 1 \<le> limit \<longrightarrow> limit \<le> 4096 \<longrightarrow>
        read_events b after limit = Inr (log_read L (pb_capacity b) (pb_position b) after (nat limit)))"
  by (simp add: tracks_new tracks_append read_events_log)


text \<open>A reader that starts at the position of a new buffer and polls, in any interleaving with the
  producer's appends and with any limits, has received an initial part of everything appended, in order,
  with nothing lost and nothing twice, unless some poll told it of a gap.\<close>

theorem reader_misses_nothing:
  assumes "mk_ProgressBuffer producer scope capacity = Inr b"
    and "follow produce_event poll_events steps b (pb_position b) [] = Some (b', p', received)"
  shows "prefix received (appended produce_event emitted_events steps b)
    \<and> tracks b' (appended produce_event emitted_events steps b)
    \<and> ps_sequence p' = int (length received)"
proof -
  have t: "tracks b []" using assms(1) by (rule tracks_new)
  have "cursor_at b (pb_position b) (length [])" using t by (simp add: cursor_at_def tracks_def)
  from progress.follow_slice[OF t this _ assms(2)] show ?thesis by (simp add: cursor_at_def)
qed

section \<open>Witnesses\<close>

definition demo_producer :: string where
  "demo_producer = ''0123456789abcdef0123456789abcdef''"

definition demo_buffer :: progress_buffer where
  "demo_buffer = \<lparr>pb_position = \<lparr>ps_producer = demo_producer, ps_scope = ''program'', ps_sequence = 0\<rparr>,
     pb_events = [], pb_capacity = 2\<rparr>"

definition demo_event :: "int \<Rightarrow> progress_event" where
  "demo_event n = \<lparr>pe_position = \<lparr>ps_producer = demo_producer, ps_scope = ''program'', ps_sequence = n\<rparr>,
     pe_kind = ''snapshot-changed'', pe_revision = n\<rparr>"

lemma demo_buffer_new: "mk_ProgressBuffer demo_producer ''program'' 2 = Inr demo_buffer"
  by code_simp

lemma demo_append: "append_event demo_buffer ''snapshot-changed'' 1 =
    Inr (demo_event 1, demo_buffer\<lparr>pb_events := [demo_event 1], pb_position := pe_position (demo_event 1)\<rparr>)"
  by code_simp

lemma demo_follow:
  "follow produce_event poll_events
      [Inl (''snapshot-changed'', 1), Inl (''snapshot-changed'', 2), Inr 1, Inl (''snapshot-changed'', 3), Inr 256]
      demo_buffer (pb_position demo_buffer) [] =
    Some (demo_buffer\<lparr>pb_events := [demo_event 2, demo_event 3], pb_position := pe_position (demo_event 3)\<rparr>,
      pe_position (demo_event 3), [demo_event 1, demo_event 2, demo_event 3])"
  by code_simp

theorem progress_buffer_refines_log_witness:
  "tracks demo_buffer [] \<and> read_events demo_buffer (pb_position demo_buffer) 256
      = Inr (log_read [] 2 (pb_position demo_buffer) (pb_position demo_buffer) 256)"
proof -
  note refines = progress_buffer_refines_log[of demo_producer "''program''" 2 demo_buffer demo_buffer "[]"
      "''snapshot-changed''" 1 "demo_event 1" demo_buffer "pb_position demo_buffer" 256]
  have t: "tracks demo_buffer []" using refines demo_buffer_new by simp
  with refines show ?thesis by (simp add: demo_buffer_def)
qed

theorem reader_misses_nothing_witness:
  "prefix [demo_event 1, demo_event 2, demo_event 3]
    (appended produce_event emitted_events
      [Inl (''snapshot-changed'', 1), Inl (''snapshot-changed'', 2), Inr 1, Inl (''snapshot-changed'', 3), Inr (256 :: int)]
      demo_buffer)"
  using reader_misses_nothing[OF demo_buffer_new demo_follow] by blast

end
