(* ===== verification/Ownership.thy ===== *)
theory Ownership
  imports Core_Prelude Domain_Facts
begin

text \<open>
  core/ownership.py: resource scopes and when two of them conflict, immutable work claims, and the
  handoff proofs that a configured producer supplies for a claim.
\<close>

datatype ownership_error = OwnershipConflict

type_synonym 'a ores = "ownership_error + 'a"

datatype handoff_mode = PULL | MANAGED

definition cooperative_profile :: string where
  "cooperative_profile = ''kernel:cooperative-task-scope:v1''"

record resource_scope =
  rs_kind :: string
  rs_key :: string

definition mk_ResourceScope :: "string \<Rightarrow> string \<Rightarrow> resource_scope ores" where
  "mk_ResourceScope kind key =
     rbind (guard (kind \<in> {''workspace'', ''session'', ''effect''} \<and> nonblank key) OwnershipConflict) (\<lambda>_.
     rbind (guard (\<not> (kind = ''workspace'' \<and> (\<not> prefix ''/'' key
         \<or> list_ex (\<lambda>part. part \<in> {''.'', ''..'', ''''}) (tl (split_on CHR ''/'' key))))) OwnershipConflict) (\<lambda>_.
     Inr \<lparr>rs_kind = kind, rs_key = key\<rparr>))"

definition wf_scope :: "resource_scope \<Rightarrow> bool" where
  "wf_scope s \<longleftrightarrow> mk_ResourceScope (rs_kind s) (rs_key s) = Inr s"

definition conflicts :: "resource_scope \<Rightarrow> resource_scope \<Rightarrow> bool" where
  "conflicts s t =
     (if rs_kind s \<noteq> rs_kind t then False
      else if rs_kind s = ''workspace''
      then rs_key s = rs_key t \<or> prefix (rs_key t @ ''/'') (rs_key s) \<or> prefix (rs_key s @ ''/'') (rs_key t)
      else rs_key s = rs_key t)"

record work_claim =
  wc_command_key :: string
  wc_claimant :: string
  wc_attempt :: attempt_spec
  wc_generation :: int
  wc_mode :: handoff_mode
  wc_profile :: string
  wc_resources :: "resource_scope list"
  wc_workspace_subject :: string
  wc_expires_at :: int

definition mk_WorkClaim ::
  "string \<Rightarrow> string \<Rightarrow> attempt_spec \<Rightarrow> int \<Rightarrow> handoff_mode \<Rightarrow> string \<Rightarrow> resource_scope list \<Rightarrow> string \<Rightarrow> int \<Rightarrow>
   work_claim ores" where
  "mk_WorkClaim command_key claimant att generation mode profile resources workspace_subject expires_at =
     rbind (guard (0 < generation \<and> 0 < expires_at \<and> resources \<noteq> []
         \<and> list_all nonblank [command_key, claimant, profile, workspace_subject]) OwnershipConflict) (\<lambda>_.
     Inr \<lparr>wc_command_key = command_key, wc_claimant = claimant, wc_attempt = att,
       wc_generation = generation, wc_mode = mode, wc_profile = profile, wc_resources = resources,
       wc_workspace_subject = workspace_subject, wc_expires_at = expires_at\<rparr>)"

definition claim_operation_id :: "work_claim \<Rightarrow> string" where
  "claim_operation_id c = ''runtime:'' @ as_attempt_id (wc_attempt c)"

record handoff_proof =
  hp_source :: string
  hp_profile :: string
  hp_mode :: handoff_mode
  hp_attempt_digest :: string
  hp_generation :: int
  hp_resources :: "resource_scope list"
  hp_stage :: string
  hp_reference :: string

definition check_proof :: "hash \<Rightarrow> handoff_proof \<Rightarrow> work_claim \<Rightarrow> string \<Rightarrow> unit ores" where
  "check_proof H p claim stage =
     rbind (guard (nonblank (hp_source p) \<and> nonblank (hp_reference p)
         \<and> stage \<in> {''start'', ''complete'', ''stop''}
         \<and> (hp_profile p, hp_mode p, hp_attempt_digest p, hp_generation p, hp_resources p, hp_stage p)
            = (wc_profile claim, wc_mode claim, attempt_digest H (wc_attempt claim), wc_generation claim,
               wc_resources claim, stage)) OwnershipConflict) (\<lambda>_.
     guard (\<not> (hp_mode p = PULL \<and> stage = ''start'')) OwnershipConflict)"

section \<open>Conflict is sharing a path\<close>

text \<open>The parts of the paths at or below a scope's key.\<close>

definition covers :: "resource_scope \<Rightarrow> string list \<Rightarrow> bool" where
  "covers s parts \<longleftrightarrow>
     (if rs_kind s = ''workspace'' then prefix (split_on CHR ''/'' (rs_key s)) parts
      else parts = split_on CHR ''/'' (rs_key s))"

lemma conflicts_iff_comparable:
  assumes "rs_kind s = ''workspace''" "rs_kind t = ''workspace''"
  shows "conflicts s t \<longleftrightarrow> prefix (split_on CHR ''/'' (rs_key s)) (split_on CHR ''/'' (rs_key t))
    \<or> prefix (split_on CHR ''/'' (rs_key t)) (split_on CHR ''/'' (rs_key s))"
proof -
  have "conflicts s t \<longleftrightarrow> rs_key s = rs_key t \<or> prefix (rs_key t @ ''/'') (rs_key s)
      \<or> prefix (rs_key s @ ''/'') (rs_key t)"
    using assms by (simp only: conflicts_def simp_thms if_True if_False)
  also have "\<dots> \<longleftrightarrow> split_on CHR ''/'' (rs_key s) = split_on CHR ''/'' (rs_key t)
      \<or> strict_prefix (split_on CHR ''/'' (rs_key t)) (split_on CHR ''/'' (rs_key s))
      \<or> strict_prefix (split_on CHR ''/'' (rs_key s)) (split_on CHR ''/'' (rs_key t))"
    by (simp only: strict_extension_split split_on_inj)
  finally show ?thesis by (metis prefix_order.le_less)
qed

lemma conflicts_sym: "conflicts s t \<longleftrightarrow> conflicts t s"
  by (auto simp: conflicts_def)

lemma conflicts_refl [simp]: "conflicts s s"
  by (simp add: conflicts_def)

lemma wf_scope_workspace_parts:
  assumes "wf_scope s" and "rs_kind s = ''workspace''"
  shows "\<exists>parts. rs_key s = CHR ''/'' # join_with CHR ''/'' parts \<and> parts \<noteq> []
    \<and> (\<forall>p \<in> set parts. p \<notin> {''.'', ''..'', ''''})"
proof -
  from assms obtain rest where key: "rs_key s = CHR ''/'' # rest"
    and parts: "\<not> list_ex (\<lambda>part. part \<in> {''.'', ''..'', ''''}) (split_on CHR ''/'' rest)"
    by (cases "rs_key s") (auto simp: wf_scope_def mk_ResourceScope_def res_simps)
  have "rs_key s = CHR ''/'' # join_with CHR ''/'' (split_on CHR ''/'' rest)" by (simp add: key)
  moreover have "\<forall>p \<in> set (split_on CHR ''/'' rest). p \<notin> {''.'', ''..'', ''''}"
    using parts by (auto simp: list_ex_iff)
  ultimately show ?thesis using split_on_not_Nil by blast
qed

text \<open>Two scopes conflict exactly when they are of one kind and some path belongs to both: for
  workspaces the paths at or below the key, component by component (so \<open>/a/b\<close> and \<open>/a/bc\<close> do not
  conflict), for the other kinds the key alone.\<close>

theorem conflicts_iff_common_path:
  "conflicts s t \<longleftrightarrow> rs_kind s = rs_kind t \<and> (\<exists>parts. covers s parts \<and> covers t parts)"
proof (cases "rs_kind s = rs_kind t \<and> rs_kind s = ''workspace''")
  case True
  then show ?thesis
    unfolding conflicts_iff_comparable[OF conjunct2[OF True] trans[OF sym[OF conjunct1[OF True]] conjunct2[OF True]]]
    by (auto simp: covers_def dest: prefix_same_cases intro: prefix_order.refl)
next
  case False
  then show ?thesis by (auto simp: conflicts_def covers_def split_on_inj)
qed

lemma check_proof_iff:
  "check_proof H p claim stage = Inr () \<longleftrightarrow>
    nonblank (hp_source p) \<and> nonblank (hp_reference p) \<and> stage \<in> {''start'', ''complete'', ''stop''}
    \<and> (hp_profile p, hp_mode p, hp_attempt_digest p, hp_generation p, hp_resources p, hp_stage p)
       = (wc_profile claim, wc_mode claim, attempt_digest H (wc_attempt claim), wc_generation claim,
          wc_resources claim, stage)
    \<and> \<not> (wc_mode claim = PULL \<and> stage = ''start'')"
  by (auto simp: check_proof_def res_simps)

end
