(* ===== verification/Authority.thy ===== *)
theory Authority
  imports Core_Prelude Command_Machine Domain_Facts
begin

text \<open>
  core/authority.py and adapters/fake_authority.py: bounded grants, the scope check of an operation, and
  the in-memory broker that issues and revokes grants and admits operations under them.

  A \<open>Path\<close> is its tuple of parts, an absolute one starting with its root. The file system is a
  parameter: \<open>resolve\<close> is \<open>Path.resolve\<close> (symbolic links followed) and \<open>is_dir\<close> is \<open>Path.is_dir\<close>.
  Digests take the hash function \<open>H\<close>. The broker's lock has no counterpart: each operation holds it
  throughout, so operations are atomic steps.
\<close>

datatype authority_error = AuthorityDenied

type_synonym 'a ares = "authority_error + 'a"
type_synonym path = "string list"

definition is_absolute :: "path \<Rightarrow> bool" where
  "is_absolute p \<longleftrightarrow> p \<noteq> [] \<and> hd p \<in> {''/'', ''//''}"

definition is_relative_to :: "path \<Rightarrow> path \<Rightarrow> bool" where
  "is_relative_to p other \<longleftrightarrow> is_absolute p = is_absolute other \<and> prefix other p"

definition worker_operations :: "string fset" where
  "worker_operations = {|''read'', ''write'', ''execute'', ''publish_candidate''|}"

record principal =
  pr_actor_id :: string
  pr_role :: string

definition mk_Principal :: "string \<Rightarrow> string \<Rightarrow> principal ares" where
  "mk_Principal actor_id role =
     rbind (guard (nonblank actor_id \<and> role \<in> {''owner'', ''worker''}) AuthorityDenied)
       (\<lambda>_. Inr \<lparr>pr_actor_id = actor_id, pr_role = role\<rparr>)"

record authority_grant =
  ag_grant_id :: string
  ag_issuer :: string
  ag_subject :: string
  ag_program_id :: string
  ag_spec_digest :: string
  ag_repository :: string
  ag_root :: path
  ag_paths :: "path fset"
  ag_network :: "string fset"
  ag_operations :: "string fset"
  ag_expires_at :: int
  ag_single_use :: bool
  ag_revoked :: bool

definition check_AuthorityGrant :: "(path \<Rightarrow> bool) \<Rightarrow> authority_grant \<Rightarrow> authority_grant ares" where
  "check_AuthorityGrant is_dir g =
     rbind (guard (list_all (\<lambda>s. s \<noteq> []) [ag_grant_id g, ag_issuer g, ag_subject g, ag_program_id g,
         ag_spec_digest g, ag_repository g]) AuthorityDenied) (\<lambda>_.
     rbind (guard (is_absolute (ag_root g) \<and> is_dir (ag_root g)) AuthorityDenied) (\<lambda>_.
     rbind (guard (ag_paths g \<noteq> {||} \<and> fBall (ag_paths g) (\<lambda>p. is_relative_to p (ag_root g))) AuthorityDenied) (\<lambda>_.
     rbind (guard (ag_operations g \<noteq> {||} \<and> ag_operations g |\<subseteq>| worker_operations) AuthorityDenied) (\<lambda>_.
     rbind (guard (\<not> (ag_expires_at g \<le> 0
         \<or> fBex (ag_network g) (\<lambda>d. d = [] \<or> strip d \<noteq> d))) AuthorityDenied) (\<lambda>_. Inr g)))))"

record operation_intent =
  oi_operation_id :: string
  oi_effect_key :: string
  oi_request_digest :: string
  oi_operation :: string
  oi_repository :: string
  oi_path :: "path option"
  oi_destination :: "string option"

definition check_OperationIntent :: "operation_intent \<Rightarrow> operation_intent ares" where
  "check_OperationIntent i =
     rbind (guard (list_all (\<lambda>s. s \<noteq> []) [oi_operation_id i, oi_effect_key i, oi_request_digest i,
         oi_operation i, oi_repository i]) AuthorityDenied) (\<lambda>_. Inr i)"

definition check_path :: "(path \<Rightarrow> path) \<Rightarrow> authority_grant \<Rightarrow> path \<Rightarrow> unit ares" where
  "check_path resolve grant p =
     rbind (guard (\<not> (is_absolute p \<or> ''..'' \<in> set p)) AuthorityDenied) (\<lambda>_.
     let root = resolve (ag_root grant); target = resolve (ag_root grant @ p)
     in guard (is_relative_to target root
          \<and> fBex (ag_paths grant) (\<lambda>allowed. is_relative_to (resolve allowed) root
                \<and> is_relative_to target (resolve allowed))) AuthorityDenied)"

definition check_scope ::
  "hash \<Rightarrow> (path \<Rightarrow> path) \<Rightarrow> authority_grant \<Rightarrow> attempt_spec \<Rightarrow> operation_intent \<Rightarrow> int \<Rightarrow> unit ares" where
  "check_scope H resolve grant att intent now =
     rbind (guard (\<not> (ag_revoked grant \<or> now \<ge> ag_expires_at grant)) AuthorityDenied) (\<lambda>_.
     rbind (guard ((ag_subject grant, ag_program_id grant, ag_spec_digest grant)
         = (attempt_digest H att, as_program_id att, as_spec_digest att)) AuthorityDenied) (\<lambda>_.
     rbind (guard (\<not> (oi_repository intent \<noteq> ag_repository grant
         \<or> oi_operation intent |\<notin>| ag_operations grant)) AuthorityDenied) (\<lambda>_.
     rbind (guard (case oi_destination intent of None \<Rightarrow> True | Some d \<Rightarrow> d |\<in>| ag_network grant)
         AuthorityDenied) (\<lambda>_.
     rbind (guard (\<not> (oi_operation intent \<in> {''read'', ''write''} \<and> oi_path intent = None))
         AuthorityDenied) (\<lambda>_.
     case oi_path intent of None \<Rightarrow> Inr () | Some p \<Rightarrow> check_path resolve grant p)))))"

section \<open>The broker\<close>

record broker =
  bk_grants :: "string \<rightharpoonup> authority_grant"
  bk_intents :: "string \<rightharpoonup> string \<times> operation_intent"
  bk_effects :: "string \<rightharpoonup> string"
  bk_consumed :: "string \<rightharpoonup> string"

definition new_broker :: broker where
  "new_broker = \<lparr>bk_grants = Map.empty, bk_intents = Map.empty, bk_effects = Map.empty, bk_consumed = Map.empty\<rparr>"

definition broker_grant :: "broker \<Rightarrow> string \<Rightarrow> authority_grant ares" where
  "broker_grant b grant_id = (case bk_grants b grant_id of None \<Rightarrow> Inl AuthorityDenied | Some g \<Rightarrow> Inr g)"

definition issue_grant :: "broker \<Rightarrow> principal \<Rightarrow> authority_grant \<Rightarrow> (authority_grant \<times> broker) ares" where
  "issue_grant b who grant =
     rbind (guard (\<not> (pr_role who \<noteq> ''owner'' \<or> pr_actor_id who \<noteq> ag_issuer grant \<or> ag_revoked grant))
       AuthorityDenied) (\<lambda>_.
     rbind (guard (bk_grants b (ag_grant_id grant) = None) AuthorityDenied) (\<lambda>_.
     Inr (grant, b\<lparr>bk_grants := (bk_grants b)(ag_grant_id grant \<mapsto> grant)\<rparr>)))"

definition revoke_grant :: "broker \<Rightarrow> principal \<Rightarrow> string \<Rightarrow> (authority_grant \<times> broker) ares" where
  "revoke_grant b who grant_id =
     rbind (broker_grant b grant_id) (\<lambda>grant.
     rbind (guard (\<not> (pr_role who \<noteq> ''owner'' \<or> pr_actor_id who \<noteq> ag_issuer grant)) AuthorityDenied) (\<lambda>_.
     let revoked = grant\<lparr>ag_revoked := True\<rparr>
     in Inr (revoked, b\<lparr>bk_grants := (bk_grants b)(grant_id \<mapsto> revoked)\<rparr>)))"

definition check_operation ::
  "hash \<Rightarrow> (path \<Rightarrow> path) \<Rightarrow> broker \<Rightarrow> principal \<Rightarrow> string \<Rightarrow> attempt_spec \<Rightarrow> operation_intent \<Rightarrow> int \<Rightarrow>
   (operation_intent \<times> broker) ares" where
  "check_operation H resolve b who grant_id att intent now =
     rbind (broker_grant b grant_id) (\<lambda>grant.
     rbind (guard (\<not> (pr_role who \<noteq> ''worker'' \<or> pr_actor_id who \<noteq> as_attempt_id att)) AuthorityDenied) (\<lambda>_.
     rbind (check_scope H resolve grant att intent now) (\<lambda>_.
     case bk_intents b (oi_operation_id intent) of
       Some existing \<Rightarrow>
         rbind (guard (existing = (grant_id, intent)) AuthorityDenied) (\<lambda>_. Inr (snd existing, b))
     | None \<Rightarrow>
         rbind (guard (bk_effects b (oi_effect_key intent) = None) AuthorityDenied) (\<lambda>_.
         rbind (guard (\<not> (ag_single_use grant \<and> bk_consumed b grant_id \<noteq> None)) AuthorityDenied) (\<lambda>_.
         Inr (intent, b\<lparr>
           bk_intents := (bk_intents b)(oi_operation_id intent \<mapsto> (grant_id, intent)),
           bk_effects := (bk_effects b)(oi_effect_key intent \<mapsto> oi_operation_id intent),
           bk_consumed := (if ag_single_use grant then (bk_consumed b)(grant_id \<mapsto> oi_operation_id intent)
             else bk_consumed b)\<rparr>))))))"

section \<open>The broker as a machine\<close>

datatype broker_call =
    Issue principal authority_grant
  | Revoke principal string
  | Check principal string attempt_spec operation_intent int

fun broker_step :: "hash \<Rightarrow> (path \<Rightarrow> path) \<Rightarrow> broker \<Rightarrow> broker_call \<Rightarrow> broker ares" where
  "broker_step H resolve b (Issue who grant) = map_sum id snd (issue_grant b who grant)"
| "broker_step H resolve b (Revoke who grant_id) = map_sum id snd (revoke_grant b who grant_id)"
| "broker_step H resolve b (Check who grant_id att intent now) =
     map_sum id snd (check_operation H resolve b who grant_id att intent now)"

text \<open>Grants are filed under their identity, effect keys and operations name each other, and a consumed
  single-use grant names its only operation.\<close>

definition broker_inv :: "broker \<Rightarrow> bool" where
  "broker_inv b \<longleftrightarrow>
     (\<forall>i g. bk_grants b i = Some g \<longrightarrow> ag_grant_id g = i)
     \<and> (\<forall>op i intent. bk_intents b op = Some (i, intent) \<longrightarrow> oi_operation_id intent = op
          \<and> bk_effects b (oi_effect_key intent) = Some op
          \<and> (\<exists>g. bk_grants b i = Some g \<and> oi_operation intent |\<in>| ag_operations g
               \<and> oi_repository intent = ag_repository g
               \<and> (ag_single_use g \<longrightarrow> bk_consumed b i = Some op)))
     \<and> (\<forall>e op. bk_effects b e = Some op \<longrightarrow>
          (\<exists>i intent. bk_intents b op = Some (i, intent) \<and> oi_effect_key intent = e))"

text \<open>Grants stay, except that one may become revoked; admitted operations stay as they are.\<close>

definition grant_evolves :: "authority_grant \<Rightarrow> authority_grant \<Rightarrow> bool" where
  "grant_evolves g h \<longleftrightarrow> h = g \<or> h = g\<lparr>ag_revoked := True\<rparr>"

definition broker_extends :: "broker \<Rightarrow> broker \<Rightarrow> bool" where
  "broker_extends b c \<longleftrightarrow>
     (\<forall>i g. bk_grants b i = Some g \<longrightarrow> (\<exists>h. bk_grants c i = Some h \<and> grant_evolves g h))
     \<and> bk_intents b \<subseteq>\<^sub>m bk_intents c
     \<and> (\<forall>op i intent g. bk_intents c op = Some (i, intent) \<longrightarrow> bk_grants b i = Some g \<longrightarrow> ag_revoked g \<longrightarrow>
          bk_intents b op = Some (i, intent))"

lemma issue_grant_eq_Inr:
  "issue_grant b who g = Inr (g', b') \<longleftrightarrow> pr_role who = ''owner'' \<and> pr_actor_id who = ag_issuer g \<and> \<not> ag_revoked g
     \<and> bk_grants b (ag_grant_id g) = None \<and> g' = g
     \<and> b' = b\<lparr>bk_grants := (bk_grants b)(ag_grant_id g \<mapsto> g)\<rparr>"
  by (auto simp: issue_grant_def res_simps)

lemma revoke_grant_eq_Inr:
  "revoke_grant b who i = Inr (g', b') \<longleftrightarrow> (\<exists>g. bk_grants b i = Some g \<and> pr_role who = ''owner''
     \<and> pr_actor_id who = ag_issuer g \<and> g' = g\<lparr>ag_revoked := True\<rparr>
     \<and> b' = b\<lparr>bk_grants := (bk_grants b)(i \<mapsto> g\<lparr>ag_revoked := True\<rparr>)\<rparr>)"
  by (auto simp: revoke_grant_def broker_grant_def res_simps Let_def split: option.splits)

lemma check_scope_eq_Inr:
  assumes "check_scope H resolve g att intent now = Inr u"
  shows "\<not> ag_revoked g" and "now < ag_expires_at g" and "ag_subject g = attempt_digest H att"
    and "oi_repository intent = ag_repository g" and "oi_operation intent |\<in>| ag_operations g"
  using assms by (auto simp: check_scope_def res_simps)

text \<open>A successful check either replays a recorded operation or records a new one.\<close>

lemma check_operation_cases:
  assumes "check_operation H resolve b who i att intent now = Inr (intent', b')"
  obtains (replay) g where "bk_grants b i = Some g" "check_scope H resolve g att intent now = Inr ()"
      "bk_intents b (oi_operation_id intent) = Some (i, intent)" "intent' = intent" "b' = b"
    | (fresh) g where "bk_grants b i = Some g" "check_scope H resolve g att intent now = Inr ()"
      "bk_intents b (oi_operation_id intent) = None" "bk_effects b (oi_effect_key intent) = None"
      "ag_single_use g \<Longrightarrow> bk_consumed b i = None" "intent' = intent"
      "b' = b\<lparr>bk_intents := (bk_intents b)(oi_operation_id intent \<mapsto> (i, intent)),
         bk_effects := (bk_effects b)(oi_effect_key intent \<mapsto> oi_operation_id intent),
         bk_consumed := (if ag_single_use g then (bk_consumed b)(i \<mapsto> oi_operation_id intent)
           else bk_consumed b)\<rparr>"
proof -
  from assms obtain g where g: "bk_grants b i = Some g" "check_scope H resolve g att intent now = Inr ()"
    by (auto simp: check_operation_def broker_grant_def res_simps split: option.splits)
  show thesis
  proof (cases "bk_intents b (oi_operation_id intent)")
    case None
    with assms g have "bk_effects b (oi_effect_key intent) = None"
      "ag_single_use g \<longrightarrow> bk_consumed b i = None"
      "(intent', b') = (intent, b\<lparr>bk_intents := (bk_intents b)(oi_operation_id intent \<mapsto> (i, intent)),
         bk_effects := (bk_effects b)(oi_effect_key intent \<mapsto> oi_operation_id intent),
         bk_consumed := (if ag_single_use g then (bk_consumed b)(i \<mapsto> oi_operation_id intent)
           else bk_consumed b)\<rparr>)"
      by (auto simp: check_operation_def broker_grant_def res_simps)
    with g None show thesis by (intro fresh) simp_all
  next
    case (Some existing)
    with assms g show thesis
      by (intro replay) (auto simp: check_operation_def broker_grant_def res_simps)
  qed
qed

lemma broker_step_cases [consumes 1, case_names issued revoked replayed recorded]:
  assumes "broker_step H resolve b call = Inr b'"
  obtains (issued) g where "\<not> ag_revoked g" "bk_grants b (ag_grant_id g) = None"
      "b' = b\<lparr>bk_grants := (bk_grants b)(ag_grant_id g \<mapsto> g)\<rparr>"
    | (revoked) i g where "bk_grants b i = Some g"
      "b' = b\<lparr>bk_grants := (bk_grants b)(i \<mapsto> g\<lparr>ag_revoked := True\<rparr>)\<rparr>"
    | (replayed) "b' = b"
    | (recorded) i g intent where "bk_grants b i = Some g" "\<not> ag_revoked g"
      "oi_repository intent = ag_repository g" "oi_operation intent |\<in>| ag_operations g"
      "bk_intents b (oi_operation_id intent) = None" "bk_effects b (oi_effect_key intent) = None"
      "ag_single_use g \<Longrightarrow> bk_consumed b i = None"
      "b' = b\<lparr>bk_intents := (bk_intents b)(oi_operation_id intent \<mapsto> (i, intent)),
         bk_effects := (bk_effects b)(oi_effect_key intent \<mapsto> oi_operation_id intent),
         bk_consumed := (if ag_single_use g then (bk_consumed b)(i \<mapsto> oi_operation_id intent)
           else bk_consumed b)\<rparr>"
proof (cases call)
  case (Issue who g)
  with assms obtain g' where "issue_grant b who g = Inr (g', b')" by (cases "issue_grant b who g") auto
  then show thesis by (intro issued[of g]) (simp_all add: issue_grant_eq_Inr)
next
  case (Revoke who i)
  with assms obtain g' where "revoke_grant b who i = Inr (g', b')" by (cases "revoke_grant b who i") auto
  then show thesis by (auto simp: revoke_grant_eq_Inr intro: revoked)
next
  case (Check who i att intent now)
  with assms obtain intent' where "check_operation H resolve b who i att intent now = Inr (intent', b')"
    by (cases "check_operation H resolve b who i att intent now") auto
  then show thesis
  proof (cases rule: check_operation_cases)
    case (replay g)
    then show thesis by (intro replayed)
  next
    case (fresh g)
    with check_scope_eq_Inr[OF fresh(2)] show thesis by (intro recorded[of i g intent]) simp_all
  qed
qed

lemma new_broker_inv: "broker_inv new_broker"
  by (simp add: broker_inv_def new_broker_def)

lemma broker_invI:
  assumes "\<And>i g. bk_grants b i = Some g \<Longrightarrow> ag_grant_id g = i"
    and "\<And>op i intent. bk_intents b op = Some (i, intent) \<Longrightarrow> oi_operation_id intent = op
      \<and> bk_effects b (oi_effect_key intent) = Some op
      \<and> (\<exists>g. bk_grants b i = Some g \<and> oi_operation intent |\<in>| ag_operations g
           \<and> oi_repository intent = ag_repository g \<and> (ag_single_use g \<longrightarrow> bk_consumed b i = Some op))"
    and "\<And>e op. bk_effects b e = Some op \<Longrightarrow> \<exists>i intent. bk_intents b op = Some (i, intent) \<and> oi_effect_key intent = e"
  shows "broker_inv b"
  unfolding broker_inv_def using assms by meson

lemma broker_invD:
  assumes "broker_inv b"
  shows "bk_grants b i = Some g \<Longrightarrow> ag_grant_id g = i"
    and "bk_intents b op = Some (i, intent) \<Longrightarrow> oi_operation_id intent = op
      \<and> bk_effects b (oi_effect_key intent) = Some op
      \<and> (\<exists>g. bk_grants b i = Some g \<and> oi_operation intent |\<in>| ag_operations g
           \<and> oi_repository intent = ag_repository g \<and> (ag_single_use g \<longrightarrow> bk_consumed b i = Some op))"
    and "bk_effects b e = Some op \<Longrightarrow> \<exists>i intent. bk_intents b op = Some (i, intent) \<and> oi_effect_key intent = e"
  using assms unfolding broker_inv_def by meson+

lemma broker_step_inv:
  assumes I: "broker_inv b" and "broker_step H resolve b call = Inr b'"
  shows "broker_inv b'"
  using assms(2)
proof (cases rule: broker_step_cases)
  case (issued g)
  show ?thesis
  proof (rule broker_invI)
    fix op i intent assume "bk_intents b' op = Some (i, intent)"
    with broker_invD(2)[OF I, of op i intent] issued show "oi_operation_id intent = op
        \<and> bk_effects b' (oi_effect_key intent) = Some op
        \<and> (\<exists>g. bk_grants b' i = Some g \<and> oi_operation intent |\<in>| ag_operations g
             \<and> oi_repository intent = ag_repository g \<and> (ag_single_use g \<longrightarrow> bk_consumed b' i = Some op))"
      by auto
  qed (use issued broker_invD[OF I] in \<open>auto split: if_splits\<close>)
next
  case (revoked j g)
  show ?thesis
  proof (rule broker_invI)
    fix op i intent assume "bk_intents b' op = Some (i, intent)"
    with broker_invD(2)[OF I, of op i intent] revoked show "oi_operation_id intent = op
        \<and> bk_effects b' (oi_effect_key intent) = Some op
        \<and> (\<exists>g. bk_grants b' i = Some g \<and> oi_operation intent |\<in>| ag_operations g
             \<and> oi_repository intent = ag_repository g \<and> (ag_single_use g \<longrightarrow> bk_consumed b' i = Some op))"
      by (cases "i = j") auto
  qed (use revoked broker_invD[OF I] in \<open>auto split: if_splits\<close>)
next
  case (recorded j g new)
  show ?thesis
  proof (rule broker_invI)
    fix op i intent assume "bk_intents b' op = Some (i, intent)"
    then consider "op = oi_operation_id new" "i = j" "intent = new"
      | "op \<noteq> oi_operation_id new" "bk_intents b op = Some (i, intent)"
      using recorded(8) by (auto split: if_splits)
    then show "oi_operation_id intent = op
        \<and> bk_effects b' (oi_effect_key intent) = Some op
        \<and> (\<exists>g. bk_grants b' i = Some g \<and> oi_operation intent |\<in>| ag_operations g
             \<and> oi_repository intent = ag_repository g \<and> (ag_single_use g \<longrightarrow> bk_consumed b' i = Some op))"
    proof cases
      case 1
      with recorded show ?thesis by simp
    next
      case 2
      note old = broker_invD(2)[OF I 2(2)]
      then obtain h where h: "bk_grants b i = Some h" "oi_operation intent |\<in>| ag_operations h"
        "oi_repository intent = ag_repository h" "ag_single_use h \<longrightarrow> bk_consumed b i = Some op" by blast
      have "oi_effect_key intent \<noteq> oi_effect_key new" using old recorded(6) by auto
      then have "bk_effects b' (oi_effect_key intent) = Some op" using old recorded(8) by simp
      moreover have "ag_single_use h \<longrightarrow> bk_consumed b' i = Some op"
      proof (cases "i = j")
        case True
        then have "h = g" using h(1) recorded(1) by simp
        with recorded(7) h(4) True show ?thesis by (metis option.distinct(1))
      qed (use h(4) recorded(8) in simp)
      moreover have "bk_grants b' i = Some h" using h(1) recorded(8) by simp
      ultimately show ?thesis using old h(2,3) by blast
    qed
  next
    fix e op assume e: "bk_effects b' e = Some op"
    have "bk_effects b' = (bk_effects b)(oi_effect_key new \<mapsto> oi_operation_id new)"
      using recorded(8) by simp
    with e consider "e = oi_effect_key new" "op = oi_operation_id new" | "bk_effects b e = Some op"
      by (metis fun_upd_apply option.inject)
    then show "\<exists>i intent. bk_intents b' op = Some (i, intent) \<and> oi_effect_key intent = e"
    proof cases
      case 2
      from broker_invD(3)[OF I this] obtain i intent where
        "bk_intents b op = Some (i, intent)" "oi_effect_key intent = e" by blast
      with recorded(5,8) show ?thesis by (auto split: if_splits)
    qed (use recorded(8) in simp)
  qed (use recorded(8) broker_invD(1)[OF I] in simp)
qed (use I in simp)

lemma broker_step_extends:
  assumes "broker_step H resolve b call = Inr b'"
  shows "broker_extends b b'"
  using assms
proof (cases rule: broker_step_cases)
  case (issued g)
  then show ?thesis by (auto simp: broker_extends_def grant_evolves_def)
next
  case (revoked i g)
  then show ?thesis by (auto simp: broker_extends_def grant_evolves_def)
next
  case (recorded i g intent)
  then show ?thesis by (auto simp: broker_extends_def grant_evolves_def map_le_def split: if_splits)
qed (auto simp: broker_extends_def grant_evolves_def)

lemma broker_extends_revoked:
  assumes "broker_extends b c" and "bk_grants b i = Some g" and "ag_revoked g"
  shows "\<exists>h. bk_grants c i = Some h \<and> ag_revoked h"
proof -
  obtain h where "bk_grants c i = Some h" "grant_evolves g h"
    using assms unfolding broker_extends_def by blast
  with assms(3) show ?thesis by (auto simp: grant_evolves_def)
qed

lemma grant_evolves_trans: "grant_evolves g h \<Longrightarrow> grant_evolves h k \<Longrightarrow> grant_evolves g k"
  by (auto simp: grant_evolves_def)

lemma broker_extends_trans:
  assumes "broker_extends b c" and "broker_extends c d"
  shows "broker_extends b d"
  unfolding broker_extends_def
proof (intro conjI allI impI)
  show "\<exists>k. bk_grants d i = Some k \<and> grant_evolves g k" if "bk_grants b i = Some g" for i g
    using that assms grant_evolves_trans unfolding broker_extends_def by metis
  show "bk_intents b \<subseteq>\<^sub>m bk_intents d" using assms map_le_trans unfolding broker_extends_def by blast
  fix op i intent g
  assume "bk_intents d op = Some (i, intent)" and g: "bk_grants b i = Some g" "ag_revoked g"
  moreover obtain h where "bk_grants c i = Some h" "ag_revoked h"
    using broker_extends_revoked[OF assms(1) g] by blast
  ultimately show "bk_intents b op = Some (i, intent)"
    using assms unfolding broker_extends_def by blast
qed

interpretation authority_broker: recording_machine "broker_step H resolve" "\<lambda>_. True" "\<lambda>b. b = new_broker"
  broker_inv broker_extends for H resolve
  by unfold_locales
    (auto simp: new_broker_inv intro: broker_step_inv broker_step_extends broker_extends_trans,
     auto simp: broker_extends_def grant_evolves_def)

section \<open>Properties\<close>

text \<open>In every state the broker can reach, each admitted operation stays within the repository and
  the operations of an issued grant, no two operations share an effect key, and at most one operation
  was ever admitted under a single-use grant.\<close>

theorem broker_admissions_are_exclusive:
  assumes "reaches (broker_step H resolve) (\<lambda>_. True) new_broker b"
    and "bk_intents b op = Some (i, intent)" and "bk_intents b op' = Some (i', intent')"
  shows "(\<exists>g. bk_grants b i = Some g \<and> oi_operation intent |\<in>| ag_operations g \<and> oi_repository intent = ag_repository g)
    \<and> (oi_effect_key intent = oi_effect_key intent' \<longrightarrow> op = op')
    \<and> (i = i' \<longrightarrow> (\<exists>g. bk_grants b i = Some g \<and> ag_single_use g) \<longrightarrow> op = op')"
proof -
  have I: "broker_inv b" by (rule authority_broker.reachable_inv[OF refl assms(1)])
  from broker_invD(2)[OF I assms(2)] broker_invD(2)[OF I assms(3)] show ?thesis by auto
qed


section \<open>Witnesses\<close>

definition demo_worker_attempt :: attempt_spec where
  "demo_worker_attempt = \<lparr>as_attempt_id = ''a'', as_program_id = ''p'', as_work_unit_id = ''w'',
     as_spec_revision = 1, as_spec_digest = ''s'', as_effective_inputs = [], as_allocation_reference = None,
     as_agent_definition_reference = None, as_workspace_reference = None, as_context_reference = None,
     as_remediation_of = None\<rparr>"

definition demo_grant :: authority_grant where
  "demo_grant = \<lparr>ag_grant_id = ''g'', ag_issuer = ''o'', ag_subject = ''d'', ag_program_id = ''p'',
     ag_spec_digest = ''s'', ag_repository = ''r'', ag_root = [''/'', ''repo''], ag_paths = {|[''/'', ''repo'', ''src'']|},
     ag_network = {||}, ag_operations = {|''read''|}, ag_expires_at = 10, ag_single_use = True, ag_revoked = False\<rparr>"

definition demo_intent :: operation_intent where
  "demo_intent = \<lparr>oi_operation_id = ''op'', oi_effect_key = ''e'', oi_request_digest = ''q'',
     oi_operation = ''read'', oi_repository = ''r'', oi_path = Some [''src'', ''main''], oi_destination = None\<rparr>"

definition demo_owner :: principal where
  "demo_owner = \<lparr>pr_actor_id = ''o'', pr_role = ''owner''\<rparr>"

definition demo_worker :: principal where
  "demo_worker = \<lparr>pr_actor_id = ''a'', pr_role = ''worker''\<rparr>"

definition demo_admitted :: broker where
  "demo_admitted = \<lparr>bk_grants = [''g'' \<mapsto> demo_grant], bk_intents = [''op'' \<mapsto> (''g'', demo_intent)],
     bk_effects = [''e'' \<mapsto> ''op''], bk_consumed = [''g'' \<mapsto> ''op'']\<rparr>"

definition demo_revoked :: broker where
  "demo_revoked = demo_admitted\<lparr>bk_grants := [''g'' \<mapsto> demo_grant\<lparr>ag_revoked := True\<rparr>]\<rparr>"

lemma demo_scope_granted: "check_scope (\<lambda>_. ''d'') id demo_grant demo_worker_attempt demo_intent 5 = Inr ()"
  by code_simp

lemma demo_admitted_reached: "reaches (broker_step (\<lambda>_. ''d'') id) (\<lambda>_. True) new_broker demo_admitted"
proof (rule reaches_run)
  have "issue_grant new_broker demo_owner demo_grant = Inr (demo_grant, new_broker\<lparr>bk_grants := [''g'' \<mapsto> demo_grant]\<rparr>)"
    by (simp add: issue_grant_def new_broker_def demo_owner_def demo_grant_def)
  moreover have "check_operation (\<lambda>_. ''d'') id (new_broker\<lparr>bk_grants := [''g'' \<mapsto> demo_grant]\<rparr>) demo_worker ''g''
      demo_worker_attempt demo_intent 5 = Inr (demo_intent, demo_admitted)"
    using demo_scope_granted by (simp add: check_operation_def broker_grant_def new_broker_def demo_admitted_def)
      (simp add: demo_worker_def demo_worker_attempt_def demo_intent_def demo_grant_def)
  ultimately show "run (broker_step (\<lambda>_. ''d'') id) new_broker
      [Issue demo_owner demo_grant, Check demo_worker ''g'' demo_worker_attempt demo_intent 5] = Inr demo_admitted"
    by simp
qed simp

lemma demo_revoked_reached: "reaches (broker_step (\<lambda>_. ''d'') id) (\<lambda>_. True) demo_admitted demo_revoked"
proof (rule reaches_single[of _ _ "Revoke demo_owner ''g''"])
  have "revoke_grant demo_admitted demo_owner ''g'' = Inr (demo_grant\<lparr>ag_revoked := True\<rparr>, demo_revoked)"
    by (simp add: revoke_grant_eq_Inr demo_revoked_def) (simp add: demo_admitted_def demo_owner_def demo_grant_def)
  then show "broker_step (\<lambda>_. ''d'') id demo_admitted (Revoke demo_owner ''g'') = Inr demo_revoked" by simp
qed simp

theorem broker_admissions_are_exclusive_witness:
  "\<exists>g. bk_grants demo_admitted ''g'' = Some g \<and> oi_operation demo_intent |\<in>| ag_operations g"
  using broker_admissions_are_exclusive[OF demo_admitted_reached, of "''op''" "''g''" demo_intent "''op''" "''g''" demo_intent]
  by (auto simp: demo_admitted_def)


end
