(* ===== verification/Decimals.thy ===== *)
theory Decimals
  imports Core_Prelude
begin

text \<open>
  What the kernel uses of Python's \<open>decimal.Decimal\<close>: the value as sign, coefficient and exponent,
  \<open>is_finite\<close>, the comparison with zero, \<open>str\<close> (default context, so the exponent letter is \<open>E\<close>) and the
  constructor from a string of characters below 128. \<open>None\<close> is the constructor raising
  \<open>decimal.InvalidOperation\<close>.
\<close>

datatype decimal =
    Finite bool nat int
  | Infinite bool
  | NotANumber

fun is_finite :: "decimal \<Rightarrow> bool" where
  "is_finite (Finite _ _ _) = True"
| "is_finite _ = False"

text \<open>\<open>d > 0\<close> and \<open>d < 0\<close> for finite \<open>d\<close>.\<close>

fun positive :: "decimal \<Rightarrow> bool" where
  "positive (Finite negative c e) = (\<not> negative \<and> 0 < c)"
| "positive _ = False"

fun negative :: "decimal \<Rightarrow> bool" where
  "negative (Finite neg c e) = (neg \<and> 0 < c)"
| "negative _ = False"

section \<open>Printing\<close>

definition plus_d :: "int \<Rightarrow> string" where
  "plus_d i = (if i < 0 then show_int i else CHR ''+'' # show_int i)"

definition finite_str :: "nat \<Rightarrow> int \<Rightarrow> string" where
  "finite_str c e =
     (let digits = show_nat c;
          leftdigits = e + int (length digits);
          dotplace = (if e \<le> 0 \<and> leftdigits > - 6 then leftdigits else 1);
          intpart = (if dotplace \<le> 0 then ''0''
            else if dotplace \<ge> int (length digits) then digits @ replicate (nat (dotplace - int (length digits))) CHR ''0''
            else take (nat dotplace) digits);
          fracpart = (if dotplace \<le> 0 then CHR ''.'' # replicate (nat (- dotplace)) CHR ''0'' @ digits
            else if dotplace \<ge> int (length digits) then ''''
            else CHR ''.'' # drop (nat dotplace) digits);
          exponent = (if leftdigits = dotplace then '''' else CHR ''E'' # plus_d (leftdigits - dotplace))
      in intpart @ fracpart @ exponent)"

fun decimal_str :: "decimal \<Rightarrow> string" where
  "decimal_str (Finite neg c e) = (if neg then ''-'' else '''') @ finite_str c e"
| "decimal_str (Infinite neg) = (if neg then ''-'' else '''') @ ''Infinity''"
| "decimal_str NotANumber = ''NaN''"

section \<open>Reading\<close>

definition digit_value :: "char \<Rightarrow> nat" where
  "digit_value c = of_char c - 48"

definition digits_value :: "string \<Rightarrow> nat" where
  "digits_value s = foldl (\<lambda>n c. 10 * n + digit_value c) 0 s"

text \<open>A sign, its presence and the rest.\<close>

fun read_sign :: "string \<Rightarrow> bool \<times> string" where
  "read_sign (c # s) = (if c = CHR ''-'' then (True, s) else if c = CHR ''+'' then (False, s) else (False, c # s))"
| "read_sign [] = (False, [])"

text \<open>The optional exponent \<open>E[-+]?\\d+\<close>, up to the end of the text.\<close>

definition read_exponent :: "string \<Rightarrow> int option" where
  "read_exponent s = (case s of
     [] \<Rightarrow> Some 0
   | c # rest \<Rightarrow>
       if c = CHR ''E'' \<or> c = CHR ''e''
       then (let (neg, ds) = read_sign rest in
         if ds \<noteq> [] \<and> list_all is_digit_char ds
         then Some (if neg then - int (digits_value ds) else int (digits_value ds))
         else None)
       else None)"

definition lower :: "char \<Rightarrow> char" where
  "lower c = (let n = of_char c :: nat in if 65 \<le> n \<and> n \<le> 90 then char_of (n + 32) else c)"

definition read_special :: "bool \<Rightarrow> string \<Rightarrow> decimal option" where
  "read_special neg s =
     (let t = map lower s in
      if t = ''inf'' \<or> t = ''infinity'' then Some (Infinite neg)
      else let u = (if prefix ''s'' t then tl t else t) in
        if prefix ''nan'' u \<and> list_all is_digit_char (drop 3 u) then Some NotANumber else None)"

definition read_unsigned :: "bool \<Rightarrow> string \<Rightarrow> decimal option" where
  "read_unsigned neg s =
     (let intpart = takeWhile is_digit_char s;
          rest = dropWhile is_digit_char s;
          (fracpart, rest') = (case rest of
             [] \<Rightarrow> ([], [])
           | c # r \<Rightarrow> if c = CHR ''.'' then (takeWhile is_digit_char r, dropWhile is_digit_char r) else ([], rest))
      in if intpart = [] \<and> fracpart = [] then read_special neg s
      else map_option (\<lambda>e. Finite neg (digits_value (intpart @ fracpart)) (e - int (length fracpart))) (read_exponent rest'))"

definition parse_decimal :: "string \<Rightarrow> decimal option" where
  "parse_decimal text = (let (neg, s) = read_sign (filter (\<lambda>c. c \<noteq> CHR ''_'') (strip text)) in read_unsigned neg s)"

section \<open>Reading back what was printed\<close>

lemma digit_value_digit_char: "n < 10 \<Longrightarrow> digit_value (digit_char n) = n"
  by (simp add: digit_value_def digit_char_def of_char_of)

lemma digits_value_append: "digits_value (s @ t) = 10 ^ length t * digits_value s + digits_value t"
proof (induction t rule: rev_induct)
  case (snoc c t)
  have "digits_value ((s @ t) @ [c]) = 10 * digits_value (s @ t) + digit_value c" by (simp add: digits_value_def)
  moreover have "digits_value (t @ [c]) = 10 * digits_value t + digit_value c" by (simp add: digits_value_def)
  ultimately show ?case using snoc by (simp add: algebra_simps)
qed (simp add: digits_value_def)

lemma digits_value_show_nat [simp]: "digits_value (show_nat n) = n"
proof (induction n rule: show_nat.induct)
  case (1 n)
  show ?case
  proof (cases "n < 10")
    case True
    then show ?thesis by (simp add: show_nat.simps[of n] digits_value_def digit_value_digit_char)
  next
    case False
    with 1 have "digits_value (show_nat (n div 10)) = n div 10" by blast
    moreover have "digits_value [digit_char (n mod 10)] = n mod 10"
      by (simp add: digits_value_def digit_value_digit_char)
    ultimately show ?thesis using False by (simp add: show_nat.simps[of n] digits_value_append)
  qed
qed

lemma digits_value_zeros [simp]: "digits_value (replicate n CHR ''0'') = 0"
  by (induction n) (simp_all add: digits_value_def digit_value_def)

lemma zero_digit: "is_digit_char CHR ''0''"
  by (simp add: is_digit_char_def)

lemma not_digit: "\<not> is_digit_char CHR ''.''" "\<not> is_digit_char CHR ''E''" "\<not> is_digit_char CHR ''+''" "\<not> is_digit_char CHR ''-''"
  by (simp_all add: is_digit_char_def)

lemma read_exponent_plus_d: "read_exponent (CHR ''E'' # plus_d i) = Some i"
proof (cases "i < 0")
  case True
  then show ?thesis using show_nat_digits[of "nat (- i)"]
    by (simp add: read_exponent_def plus_d_def show_int_def list_all_iff)
next
  case False
  then show ?thesis using show_nat_digits[of "nat i"]
    by (simp add: read_exponent_def plus_d_def show_int_def list_all_iff)
qed

text \<open>A number in three parts: digits, an optional point with digits, and an exponent.\<close>

lemma span_digits:
  assumes "list_all is_digit_char ds" and "r = [] \<or> \<not> is_digit_char (hd r)"
  shows "takeWhile is_digit_char (ds @ r) = ds" and "dropWhile is_digit_char (ds @ r) = r"
  using assms by (cases r; auto simp: list_all_iff takeWhile_append2 takeWhile_tail dropWhile_append2 dropWhile_append3)+

lemma read_unsigned_parts:
  assumes "ip \<noteq> []" and "list_all is_digit_char ip" and "list_all is_digit_char fd"
    and "point = (if fd = [] then [] else CHR ''.'' # fd)"
    and "ep = [] \<and> x = 0 \<or> ep = CHR ''E'' # plus_d x"
  shows "read_unsigned neg (ip @ point @ ep) = Some (Finite neg (digits_value (ip @ fd)) (x - int (length fd)))"
proof -
  have "read_exponent [] = Some 0" by (simp add: read_exponent_def)
  then have ep: "read_exponent ep = Some x" "ep = [] \<or> (\<exists>r. ep = CHR ''E'' # r)"
    using assms(5) by (auto simp: read_exponent_plus_d)
  have after: "point @ ep = [] \<or> \<not> is_digit_char (hd (point @ ep))" "ep = [] \<or> \<not> is_digit_char (hd ep)"
    using assms(4) ep(2) not_digit by auto
  show ?thesis
  proof (cases "fd = []")
    case True
    then show ?thesis using assms(1,4) ep span_digits[OF assms(2) after(1)]
      by (auto simp: read_unsigned_def split: list.splits)
  next
    case False
    then have "read_unsigned neg (ip @ point @ ep) =
        map_option (\<lambda>e. Finite neg (digits_value (ip @ fd)) (e - int (length fd))) (read_exponent ep)"
      using assms(1,4) span_digits[OF assms(2) after(1)] span_digits[OF assms(3) after(2)]
      by (simp add: read_unsigned_def Let_def)
    with ep(1) show ?thesis by simp
  qed
qed

text \<open>\<open>finite_str\<close> has that form.\<close>

lemma finite_str_parts:
  obtains ip fd ep x where "finite_str c e = ip @ (if fd = [] then [] else CHR ''.'' # fd) @ ep"
    "ip \<noteq> []" "list_all is_digit_char ip" "list_all is_digit_char fd" "ep = [] \<and> x = 0 \<or> ep = CHR ''E'' # plus_d x"
    "digits_value (ip @ fd) = c" "x - int (length fd) = e"
proof -
  let ?d = "show_nat c" and ?n = "int (length (show_nat c))"
  let ?left = "e + ?n"
  have d: "list_all is_digit_char ?d" using show_nat_digits[of c] by (simp add: list_all_iff)
  have n: "1 \<le> ?n" using show_nat_not_Nil(1)[of c] by (cases ?d) auto
  consider (zero) "e \<le> 0" "?left > - 6" "?left \<le> 0" | (whole) "e = 0"
    | (point) "e < 0" "?left > - 6" "0 < ?left"
    | (single) "\<not> (e \<le> 0 \<and> ?left > - 6)" "?n = 1" | (science) "\<not> (e \<le> 0 \<and> ?left > - 6)" "?n > 1"
    using n by linarith
  then show thesis
  proof cases
    case zero
    let ?f = "replicate (nat (- ?left)) CHR ''0'' @ ?d"
    have v: "digits_value (''0'' @ ?f) = c"
      by (simp only: digits_value_append digits_value_zeros digits_value_show_nat)
        (simp add: digits_value_def digit_value_def)
    have f: "finite_str c e = ''0'' @ (CHR ''.'' # ?f) @ []"
      using zero by (simp add: finite_str_def Let_def)
    have "list_all is_digit_char ?f" using d zero_digit by (auto simp: list_all_iff)
    then show thesis
      by (intro that[of "''0''" ?f "[]" 0]) (use zero zero_digit v f in simp_all)
  next
    case whole
    show thesis
      by (rule that[of ?d "[]" "[]" 0]) (use whole d n in \<open>simp_all add: finite_str_def Let_def\<close>)
  next
    case point
    have "nat ?left < length ?d" using point by linarith
    moreover from this have "drop (nat ?left) ?d \<noteq> []" "take (nat ?left) ?d \<noteq> []" using point by auto
    moreover have "list_all is_digit_char (take (nat ?left) ?d)" "list_all is_digit_char (drop (nat ?left) ?d)"
      using d by (auto simp: list_all_iff dest: in_set_takeD in_set_dropD)
    ultimately show thesis
      by (intro that[of "take (nat ?left) ?d" "drop (nat ?left) ?d" "[]" 0])
        (use point in \<open>simp_all add: finite_str_def Let_def\<close>)
  next
    case single
    show thesis
      by (rule that[of ?d "[]" "CHR ''E'' # plus_d e" e]) (use single d n in \<open>auto simp: finite_str_def Let_def\<close>)
  next
    case science
    have "1 < length ?d" using science by linarith
    moreover from this have "drop (Suc 0) ?d \<noteq> []" "take (Suc 0) ?d \<noteq> []" by auto
    moreover have "list_all is_digit_char (take (Suc 0) ?d)" "list_all is_digit_char (drop (Suc 0) ?d)"
      using d by (auto simp: list_all_iff dest: in_set_takeD in_set_dropD)
    moreover have "?left \<noteq> 1" using science by auto
    moreover have "digits_value (take (Suc 0) ?d @ drop (Suc 0) ?d) = c"
      by (simp only: append_take_drop_id digits_value_show_nat)
    ultimately show thesis
      by (intro that[of "take (Suc 0) ?d" "drop (Suc 0) ?d" "CHR ''E'' # plus_d (?left - 1)" "?left - 1"])
        (use science in \<open>auto simp: finite_str_def Let_def simp del: append_take_drop_id\<close>)
  qed
qed

text \<open>No printed number has a space or an underscore, and its first character is a digit.\<close>

definition number_char :: "char \<Rightarrow> bool" where
  "number_char c \<longleftrightarrow> is_digit_char c \<or> c \<in> set ''.E+-''"

lemma number_char_plain: "number_char c \<Longrightarrow> \<not> isspace c \<and> c \<noteq> CHR ''_''"
  by (auto simp: number_char_def is_digit_char_def isspace_def)

lemma strip_plain:
  assumes "\<forall>c \<in> set s. \<not> isspace c"
  shows "strip s = s"
proof -
  have "dropWhile isspace t = t" if "\<forall>c \<in> set t. \<not> isspace c" for t using that by (cases t) auto
  from this[of s] this[of "rev s"] show ?thesis using assms by (simp add: strip_def)
qed

lemma plus_d_chars: "list_all number_char (plus_d i)"
  using show_nat_digits[of "nat i"] show_nat_digits[of "nat (- i)"]
  by (auto simp: plus_d_def show_int_def number_char_def list_all_iff)

lemma parse_decimal_str: "is_finite d \<Longrightarrow> parse_decimal (decimal_str d) = Some d"
proof (cases d)
  case (Finite neg c e)
  obtain ip fd ep x where f: "finite_str c e = ip @ (if fd = [] then [] else CHR ''.'' # fd) @ ep"
    "ip \<noteq> []" "list_all is_digit_char ip" "list_all is_digit_char fd" "ep = [] \<and> x = 0 \<or> ep = CHR ''E'' # plus_d x"
    "digits_value (ip @ fd) = c" "x - int (length fd) = e"
    by (rule finite_str_parts[of c e])
  have r: "read_unsigned neg (finite_str c e) = Some (Finite neg c e)"
    using read_unsigned_parts[OF f(2-4) refl f(5), of neg] f(1,6,7) by simp
  have chars: "\<forall>k \<in> set (decimal_str d). number_char k"
    using f(3-5) plus_d_chars[of x] by (auto simp: Finite f(1) list_all_iff number_char_def)
  have "strip (decimal_str d) = decimal_str d" using chars number_char_plain by (intro strip_plain) blast
  moreover have "filter (\<lambda>k. k \<noteq> CHR ''_'') (decimal_str d) = decimal_str d"
    using chars number_char_plain by (intro filter_True) blast
  moreover have "read_sign (decimal_str d) = (neg, finite_str c e)"
  proof (cases neg)
    case False
    obtain k ks where "finite_str c e = k # ks" "is_digit_char k" using f(1-3) by (cases ip) auto
    with False show ?thesis using not_digit by (auto simp: Finite)
  qed (simp add: Finite)
  ultimately show ?thesis using r by (simp add: parse_decimal_def Finite)
qed auto

end
