(* ===== verification/Work_Budget.thy ===== *)
theory Work_Budget
  imports Decimals
begin

text \<open>
  core/work_budget.py: resource ceilings and the work budget policy with its stored form. A quantity is
  a \<open>decimal\<close>; a stored one is its text. Reading a malformed quantity raises \<open>decimal.InvalidOperation\<close>,
  which is not a \<open>ValueError\<close>.
\<close>

datatype budget_error = BudgetValueError | BudgetInvalidOperation

type_synonym 'a bres = "budget_error + 'a"

datatype work_kind =
  WorkAttempt | WorkReview | WorkRemediation | WorkTool | WorkRetry | WorkHelper | WorkVerification | WorkAuxiliary

text \<open>The members in the order of the enumeration.\<close>

definition work_kinds :: "work_kind list" where
  "work_kinds = [WorkAttempt, WorkReview, WorkRemediation, WorkTool, WorkRetry, WorkHelper, WorkVerification, WorkAuxiliary]"

fun work_kind_value :: "work_kind \<Rightarrow> string" where
  "work_kind_value WorkAttempt = ''attempt''"
| "work_kind_value WorkReview = ''review''"
| "work_kind_value WorkRemediation = ''remediation''"
| "work_kind_value WorkTool = ''tool''"
| "work_kind_value WorkRetry = ''retry''"
| "work_kind_value WorkHelper = ''helper''"
| "work_kind_value WorkVerification = ''verification''"
| "work_kind_value WorkAuxiliary = ''auxiliary''"

text \<open>\<open>WorkKind(value)\<close>\<close>

definition parse_work_kind :: "string \<Rightarrow> work_kind bres" where
  "parse_work_kind s = (case List.find (\<lambda>k. work_kind_value k = s) work_kinds of
     None \<Rightarrow> Inl BudgetValueError | Some k \<Rightarrow> Inr k)"

definition count_only_work :: "work_kind set" where
  "count_only_work = {WorkRetry, WorkRemediation}"

record resource_ceiling =
  rc_metric :: string
  rc_unit :: string
  rc_quantity :: decimal

text \<open>\<open>isascii\<close>, \<open>isupper\<close> and \<open>isalpha\<close> of one character together: a capital letter of ASCII.\<close>

definition ascii_upper :: "char \<Rightarrow> bool" where
  "ascii_upper c \<longleftrightarrow> (of_char c :: nat) \<in> {65..90}"

definition mk_ResourceCeiling :: "string \<Rightarrow> string \<Rightarrow> decimal \<Rightarrow> resource_ceiling bres" where
  "mk_ResourceCeiling metric unit quantity =
     rbind (guard (metric \<in> {''money'', ''tokens'', ''quota'', ''compute'', ''elapsed'', ''attention''}
         \<and> nonblank unit \<and> is_finite quantity \<and> positive quantity) BudgetValueError) (\<lambda>_.
     rbind (guard (\<not> (metric = ''money'' \<and> (length unit \<noteq> 3 \<or> \<not> list_all ascii_upper unit))) BudgetValueError) (\<lambda>_.
     Inr \<lparr>rc_metric = metric, rc_unit = unit, rc_quantity = quantity\<rparr>))"

definition wf_ceiling :: "resource_ceiling \<Rightarrow> bool" where
  "wf_ceiling c \<longleftrightarrow> mk_ResourceCeiling (rc_metric c) (rc_unit c) (rc_quantity c) = Inr c"

definition ceiling_payload :: "resource_ceiling \<Rightarrow> json" where
  "ceiling_payload c = JObj [(''metric'', JStr (rc_metric c)), (''unit'', JStr (rc_unit c)),
     (''quantity'', JStr (decimal_str (rc_quantity c)))]"

record work_budget_policy =
  wb_counts :: "(work_kind \<times> int) list"
  wb_max_active :: int
  wb_retained_bytes :: int
  wb_resources :: "resource_ceiling list"
  wb_strict_inference :: bool

definition check_WorkBudgetPolicy :: "work_budget_policy \<Rightarrow> work_budget_policy bres" where
  "check_WorkBudgetPolicy w =
     rbind (guard (length (wb_counts w) = length work_kinds) BudgetValueError) (\<lambda>_.
     rbind (guard (\<not> (fst ` set (wb_counts w) \<noteq> set work_kinds
         \<or> list_ex (\<lambda>(_, limit). limit < 0) (wb_counts w))) BudgetValueError) (\<lambda>_.
     rbind (guard (\<not> (wb_max_active w \<le> 0 \<or> wb_retained_bytes w \<le> 0)) BudgetValueError) (\<lambda>_.
     rbind (guard (distinct (map (\<lambda>c. (rc_metric c, rc_unit c)) (wb_resources w))) BudgetValueError) (\<lambda>_.
     Inr w))))"

definition basic_policy :: "int \<Rightarrow> int \<Rightarrow> int \<Rightarrow> int \<Rightarrow> int \<Rightarrow> work_budget_policy bres" where
  "basic_policy attempts active verifications retained_bytes auxiliary =
     check_WorkBudgetPolicy \<lparr>wb_counts =
         dict_update (map (\<lambda>k. (k, 0)) work_kinds)
           [(WorkAttempt, attempts), (WorkRemediation, attempts), (WorkReview, attempts), (WorkRetry, attempts),
            (WorkVerification, verifications), (WorkAuxiliary, auxiliary)],
       wb_max_active = active, wb_retained_bytes = retained_bytes, wb_resources = [], wb_strict_inference = False\<rparr>"

definition policy_document :: "work_budget_policy \<Rightarrow> json" where
  "policy_document w = JObj
     [(''version'', JInt 1),
      (''counts'', JObj (map (\<lambda>(k, limit). (work_kind_value k, JInt limit)) (wb_counts w))),
      (''max_active'', JInt (wb_max_active w)),
      (''retained_bytes'', JInt (wb_retained_bytes w)),
      (''resources'', JList (map ceiling_payload (wb_resources w))),
      (''strict_inference'', JBool (wb_strict_inference w))]"

definition decode_ceiling :: "json \<Rightarrow> resource_ceiling bres" where
  "decode_ceiling item = (case item of
     JObj entries \<Rightarrow>
       if json_keys entries \<noteq> {''metric'', ''unit'', ''quantity''} then Inl BudgetValueError
       else (case (as_str (map_of entries ''metric''), as_str (map_of entries ''unit''), as_str (map_of entries ''quantity'')) of
         (Some metric, Some unit, Some quantity) \<Rightarrow>
           (case parse_decimal quantity of
              None \<Rightarrow> Inl BudgetInvalidOperation
            | Some q \<Rightarrow> mk_ResourceCeiling metric unit q)
       | _ \<Rightarrow> Inl BudgetValueError)
   | _ \<Rightarrow> Inl BudgetValueError)"

text \<open>\<open>raw["version"] != 1\<close>; \<open>True\<close> equals \<open>1\<close> in Python.\<close>

fun equals_one :: "json option \<Rightarrow> bool" where
  "equals_one (Some (JInt i)) = (i = 1)"
| "equals_one (Some (JBool b)) = b"
| "equals_one _ = False"

definition decode_count :: "string \<times> json \<Rightarrow> (work_kind \<times> json) bres" where
  "decode_count kv = rbind (parse_work_kind (fst kv)) (\<lambda>k. Inr (k, snd kv))"

definition count_limit :: "work_kind \<times> json \<Rightarrow> (work_kind \<times> int) bres" where
  "count_limit kv = (case snd kv of JInt i \<Rightarrow> Inr (fst kv, i) | _ \<Rightarrow> Inl BudgetValueError)"

text \<open>The constructor at values read from JSON: the \<open>type(\<dots>) is not\<close> tests of \<open>__post_init__\<close> are on the JSON value.
  All of them and all the range tests raise \<open>ValueError\<close>.\<close>

definition typed_WorkBudgetPolicy :: "(work_kind \<times> json) list \<Rightarrow> json option \<Rightarrow> json option \<Rightarrow>
    resource_ceiling list \<Rightarrow> json option \<Rightarrow> work_budget_policy bres" where
  "typed_WorkBudgetPolicy counts max_active retained_bytes resources strict =
     rbind (mapM count_limit counts) (\<lambda>limits.
     case (as_int max_active, as_int retained_bytes, strict) of
       (Some active, Some retained, Some (JBool b)) \<Rightarrow>
         check_WorkBudgetPolicy \<lparr>wb_counts = limits, wb_max_active = active, wb_retained_bytes = retained,
           wb_resources = resources, wb_strict_inference = b\<rparr>
     | _ \<Rightarrow> Inl BudgetValueError)"

definition decode_policy :: "json \<Rightarrow> work_budget_policy bres" where
  "decode_policy value = (case value of
     JObj raw \<Rightarrow>
       if json_keys raw \<noteq> {''version'', ''counts'', ''max_active'', ''retained_bytes'', ''resources'', ''strict_inference''}
         \<or> \<not> equals_one (map_of raw ''version'')
       then Inl BudgetValueError
       else (case (map_of raw ''counts'', map_of raw ''resources'') of
         (Some (JObj counts), Some (JList items)) \<Rightarrow>
           rbind (mapM decode_ceiling items) (\<lambda>resources.
           rbind (mapM decode_count counts) (\<lambda>named.
           typed_WorkBudgetPolicy named (map_of raw ''max_active'') (map_of raw ''retained_bytes'') resources
             (map_of raw ''strict_inference'')))
       | _ \<Rightarrow> Inl BudgetValueError)
   | _ \<Rightarrow> Inl BudgetValueError)"

section \<open>Well-formed policies\<close>

definition wf_policy_budget :: "work_budget_policy \<Rightarrow> bool" where
  "wf_policy_budget w \<longleftrightarrow> check_WorkBudgetPolicy w = Inr w \<and> list_all wf_ceiling (wb_resources w)"

lemma parse_work_kind_value [simp]: "parse_work_kind (work_kind_value k) = Inr k"
  by (cases k) (simp_all add: parse_work_kind_def work_kinds_def)

lemma work_kinds_UNIV: "set work_kinds = UNIV" "distinct work_kinds" "length work_kinds = 8"
proof -
  have "k \<in> set work_kinds" for k by (cases k) (simp_all add: work_kinds_def)
  then show "set work_kinds = UNIV" by blast
qed (simp_all add: work_kinds_def)

lemma decode_ceiling_payload: "wf_ceiling c \<Longrightarrow> decode_ceiling (ceiling_payload c) = Inr c"
proof -
  assume wf: "wf_ceiling c"
  then have "is_finite (rc_quantity c)" by (auto simp: wf_ceiling_def mk_ResourceCeiling_def res_simps)
  then have q: "parse_decimal (decimal_str (rc_quantity c)) = Some (rc_quantity c)" by (rule parse_decimal_str)
  have "json_keys [(''metric'', a), (''unit'', b), (''quantity'', q)] = {''metric'', ''unit'', ''quantity''}" for a b q
    by (simp add: json_keys_def)
  with q wf show ?thesis by (simp add: decode_ceiling_def ceiling_payload_def wf_ceiling_def)
qed

lemma mk_ResourceCeiling_wf: "mk_ResourceCeiling metric unit quantity = Inr c \<Longrightarrow> wf_ceiling c"
  by (auto simp: wf_ceiling_def mk_ResourceCeiling_def res_simps)

lemma decode_ceiling_wf: "decode_ceiling item = Inr c \<Longrightarrow> wf_ceiling c"
  by (auto simp: decode_ceiling_def split: json.splits if_splits option.splits dest: mk_ResourceCeiling_wf)

lemma check_WorkBudgetPolicy_Inr: "check_WorkBudgetPolicy w = Inr v \<Longrightarrow> v = w"
  by (auto simp: check_WorkBudgetPolicy_def res_simps)

lemma decode_policy_document:
  assumes "wf_policy_budget w"
  shows "decode_policy (policy_document w) = Inr w"
proof -
  let ?counts = "map (\<lambda>(k, limit). (work_kind_value k, JInt limit)) (wb_counts w)"
  have keys: "json_keys [(''version'', a), (''counts'', b), (''max_active'', c), (''retained_bytes'', d),
      (''resources'', e), (''strict_inference'', f)]
    = {''version'', ''counts'', ''max_active'', ''retained_bytes'', ''resources'', ''strict_inference''}" for a b c d e f
    by (simp add: json_keys_def)
  have "mapM decode_ceiling (map ceiling_payload cs) = Inr cs" if "list_all wf_ceiling cs" for cs
    using that by (induction cs) (simp_all add: decode_ceiling_payload)
  then have r: "mapM decode_ceiling (map ceiling_payload (wb_resources w)) = Inr (wb_resources w)"
    using assms by (simp add: wf_policy_budget_def)
  have c: "mapM decode_count (map (\<lambda>(k, limit). (work_kind_value k, JInt limit)) kvs)
      = Inr (map (\<lambda>(k, limit). (k, JInt limit)) kvs)" for kvs
    by (induction kvs) (auto simp: decode_count_def)
  have l: "mapM count_limit (map (\<lambda>(k, limit). (k, JInt limit)) kvs) = Inr kvs" for kvs
    by (induction kvs) (auto simp: count_limit_def)
  have same: "\<lparr>wb_counts = wb_counts w, wb_max_active = wb_max_active w, wb_retained_bytes = wb_retained_bytes w,
      wb_resources = wb_resources w, wb_strict_inference = wb_strict_inference w\<rparr> = w" by simp
  have "decode_policy (policy_document w) = check_WorkBudgetPolicy \<lparr>wb_counts = wb_counts w,
      wb_max_active = wb_max_active w, wb_retained_bytes = wb_retained_bytes w, wb_resources = wb_resources w,
      wb_strict_inference = wb_strict_inference w\<rparr>"
    by (simp add: decode_policy_def policy_document_def typed_WorkBudgetPolicy_def keys r c l)
  also have "\<dots> = check_WorkBudgetPolicy w" by (simp only: same)
  also have "\<dots> = Inr w" using assms by (simp add: wf_policy_budget_def)
  finally show ?thesis .
qed

lemma typed_WorkBudgetPolicy_Inr:
  assumes "typed_WorkBudgetPolicy counts a r resources s = Inr w"
  shows "check_WorkBudgetPolicy w = Inr w \<and> wb_resources w = resources"
proof -
  obtain limits where "mapM count_limit counts = Inr limits"
    using assms by (cases "mapM count_limit counts") (simp_all add: typed_WorkBudgetPolicy_def)
  with assms show ?thesis
    by (auto simp: typed_WorkBudgetPolicy_def dest: check_WorkBudgetPolicy_Inr split: option.splits json.splits)
qed

lemma decode_policy_wf:
  assumes "decode_policy v = Inr w"
  shows "wf_policy_budget w"
proof -
  obtain raw where v: "v = JObj raw" using assms by (cases v) (simp_all add: decode_policy_def)
  obtain counts items where parts: "map_of raw ''counts'' = Some (JObj counts)" "map_of raw ''resources'' = Some (JList items)"
    using assms by (simp add: v decode_policy_def split: if_splits option.splits json.splits)
  obtain resources where r: "mapM decode_ceiling items = Inr resources"
    using assms by (cases "mapM decode_ceiling items") (simp_all add: v parts decode_policy_def split: if_splits)
  obtain named where "mapM decode_count counts = Inr named"
    using assms by (cases "mapM decode_count counts") (simp_all add: v parts r decode_policy_def split: if_splits)
  with assms have "check_WorkBudgetPolicy w = Inr w \<and> wb_resources w = resources"
    by (intro typed_WorkBudgetPolicy_Inr) (simp add: v parts r decode_policy_def split: if_splits)
  moreover have "list_all wf_ceiling resources" using r decode_ceiling_wf by (rule mapM_list_all)
  ultimately show ?thesis by (simp add: wf_policy_budget_def)
qed


definition demo_work_budget :: work_budget_policy where
  "demo_work_budget = \<lparr>wb_counts = map (\<lambda>k. (k, 2)) work_kinds, wb_max_active = 1, wb_retained_bytes = 1024,
     wb_resources = [\<lparr>rc_metric = ''money'', rc_unit = ''EUR'', rc_quantity = Finite False 125 (- 2)\<rparr>],
     wb_strict_inference = False\<rparr>"


text \<open>A malformed stored quantity is not reported as a \<open>ValueError\<close>.\<close>

lemma malformed_quantity_is_no_value_error:
  "decode_policy (JObj [(''version'', JInt 1), (''counts'', JObj []), (''max_active'', JInt 1), (''retained_bytes'', JInt 1),
     (''resources'', JList [JObj [(''metric'', JStr ''tokens''), (''unit'', JStr ''t''), (''quantity'', JStr ''x'')]]),
     (''strict_inference'', JBool False)]) = Inl BudgetInvalidOperation"
  by code_simp

end
