(* ===== verification/Outcomes.thy ===== *)
theory Outcomes
  imports Decimals Verification
begin

text \<open>
  core/outcomes.py: attempt outcomes, usage observations and their export. The two \<open>while\<close> loops of
  \<open>export_outcomes\<close> are \<open>climb\<close>, which stops because the set of visited attempts grows, and \<open>chain_loop\<close>,
  which follows the recorded parents without a guard: it is a \<open>partial_function\<close>, \<open>None\<close> meaning that the
  loop does not end. The theorems show that it always ends where the code runs it, and what is exported
  as the cost lineage and as the effective usage of an attempt.
\<close>

datatype outcome_error = OutcomeValueError | OutcomeKeyError

type_synonym 'a ores = "outcome_error + 'a"

section \<open>Values\<close>

definition outcome_text :: "string \<Rightarrow> unit ores" where
  "outcome_text value = guard (nonblank value) OutcomeValueError"

definition outcome_optional_text :: "string option \<Rightarrow> unit ores" where
  "outcome_optional_text value = (case value of None \<Rightarrow> Inr () | Some v \<Rightarrow> outcome_text v)"

datatype provenance = ESTIMATE | PROVIDER_REPORT | MEASUREMENT | OWNER_RECORD

fun provenance_value :: "provenance \<Rightarrow> string" where
  "provenance_value ESTIMATE = ''estimate''"
| "provenance_value PROVIDER_REPORT = ''provider_report''"
| "provenance_value MEASUREMENT = ''measurement''"
| "provenance_value OWNER_RECORD = ''owner_record''"

fun verdict_value :: "product_review_verdict \<Rightarrow> string" where
  "verdict_value APPROVE = ''approve''"
| "verdict_value REQUEST_CHANGES = ''request_changes''"
| "verdict_value COMMENT = ''comment''"
| "verdict_value OWNER_DECISION_NEEDED = ''owner_decision_needed''"

record identity =
  id_runtime_id :: "string option"
  id_provider_id :: "string option"
  id_model_id :: "string option"
  id_reasoning_effort :: "string option"

definition check_Identity :: "identity \<Rightarrow> identity ores" where
  "check_Identity i = rbind (each outcome_optional_text
     [id_runtime_id i, id_provider_id i, id_model_id i, id_reasoning_effort i]) (\<lambda>_. Inr i)"

definition identity_from_allocation :: "allocation \<Rightarrow> identity ores" where
  "identity_from_allocation a = check_Identity \<lparr>id_runtime_id = Some (al_runtime_id a),
     id_provider_id = Some (al_provider_id a), id_model_id = Some (al_model_id a),
     id_reasoning_effort = al_reasoning_effort a\<rparr>"

definition identity_payload :: "identity \<Rightarrow> json" where
  "identity_payload i = JObj [(''runtime_id'', JOptStr (id_runtime_id i)), (''provider_id'', JOptStr (id_provider_id i)),
     (''model_id'', JOptStr (id_model_id i)), (''reasoning_effort'', JOptStr (id_reasoning_effort i))]"

record attributed_identity =
  ai_identity :: identity
  ai_source :: string
  ai_observed_at :: int
  ai_fresh_until :: int

definition check_AttributedIdentity :: "attributed_identity \<Rightarrow> attributed_identity ores" where
  "check_AttributedIdentity a =
     rbind (outcome_text (ai_source a)) (\<lambda>_.
     rbind (guard (\<not> ai_fresh_until a < ai_observed_at a) OutcomeValueError) (\<lambda>_. Inr a))"

definition attributed_payload :: "attributed_identity \<Rightarrow> json" where
  "attributed_payload a = JObj [(''identity'', identity_payload (ai_identity a)), (''source'', JStr (ai_source a)),
     (''observed_at'', JInt (ai_observed_at a)), (''fresh_until'', JInt (ai_fresh_until a))]"

record quota_snapshot =
  qs_reference :: string
  qs_source :: string
  qs_observed_at :: int
  qs_fresh_until :: int

definition check_QuotaSnapshot :: "quota_snapshot \<Rightarrow> quota_snapshot ores" where
  "check_QuotaSnapshot q =
     rbind (outcome_text (qs_reference q)) (\<lambda>_.
     rbind (outcome_text (qs_source q)) (\<lambda>_.
     rbind (guard (\<not> qs_fresh_until q < qs_observed_at q) OutcomeValueError) (\<lambda>_. Inr q)))"

record attempt_outcome =
  ao_attempt :: attempt_spec
  ao_work_unit_class :: string
  ao_requested :: identity
  ao_resolved :: "attributed_identity option"
  ao_observed :: "attributed_identity option"
  ao_quota :: "quota_snapshot option"
  ao_validation :: "string option"
  ao_finding_ids :: "string list"
  ao_remediation_of :: "string option"
  ao_review_operation_id :: "string option"
  ao_review_operation_status :: "string option"
  ao_review_id :: "string option"
  ao_review_verdict :: "product_review_verdict option"
  ao_acceptance_id :: "string option"
  ao_intervention_ids :: "string list"

definition unique_ids :: "string list \<Rightarrow> unit ores" where
  "unique_ids ids = rbind (guard (length ids = card (set ids)) OutcomeValueError) (\<lambda>_. each outcome_text ids)"

definition check_AttemptOutcome :: "attempt_outcome \<Rightarrow> attempt_outcome ores" where
  "check_AttemptOutcome a =
     rbind (outcome_text (ao_work_unit_class a)) (\<lambda>_.
     rbind (each outcome_optional_text [ao_validation a, ao_remediation_of a, ao_review_operation_id a,
       ao_review_operation_status a, ao_review_id a, ao_acceptance_id a]) (\<lambda>_.
     rbind (let review = [ao_review_operation_id a \<noteq> None, ao_review_operation_status a \<noteq> None,
                ao_review_id a \<noteq> None, ao_review_verdict a \<noteq> None]
       in guard (\<not> (list_ex id review \<and> \<not> list_all id review)) OutcomeValueError) (\<lambda>_.
     rbind (guard (\<not> (case ao_review_operation_status a of None \<Rightarrow> False
         | Some status \<Rightarrow> status \<notin> {''accepted'', ''dispatched'', ''intent'', ''rejected'', ''unknown''})) OutcomeValueError) (\<lambda>_.
     rbind (guard (\<not> (ao_remediation_of a \<noteq> None
         \<and> as_remediation_of (ao_attempt a) \<notin> {None, ao_remediation_of a})) OutcomeValueError) (\<lambda>_.
     rbind (unique_ids (ao_finding_ids a)) (\<lambda>_.
     rbind (unique_ids (ao_intervention_ids a)) (\<lambda>_. Inr a)))))))"

record usage_observation =
  uo_observation_id :: string
  uo_attempt_id :: string
  uo_receipt_id :: string
  uo_metric :: string
  uo_unit :: string
  uo_quantity :: "decimal option"
  uo_provenance :: provenance
  uo_source :: string
  uo_observed_at :: int
  uo_supersedes_id :: "string option"

definition check_UsageObservation :: "usage_observation \<Rightarrow> usage_observation ores" where
  "check_UsageObservation u =
     rbind (each outcome_text [uo_observation_id u, uo_attempt_id u, uo_receipt_id u, uo_metric u, uo_unit u, uo_source u]) (\<lambda>_.
     rbind (outcome_optional_text (uo_supersedes_id u)) (\<lambda>_.
     rbind (guard (\<not> (case uo_quantity u of None \<Rightarrow> False | Some q \<Rightarrow> \<not> is_finite q \<or> negative q)) OutcomeValueError) (\<lambda>_.
     Inr u)))"

definition observation_payload :: "usage_observation \<Rightarrow> json" where
  "observation_payload u = JObj [
     (''observation_id'', JStr (uo_observation_id u)),
     (''attempt_id'', JStr (uo_attempt_id u)),
     (''receipt_id'', JStr (uo_receipt_id u)),
     (''metric'', JStr (uo_metric u)),
     (''unit'', JStr (uo_unit u)),
     (''quantity'', JOptStr (map_option decimal_str (uo_quantity u))),
     (''provenance'', JStr (provenance_value (uo_provenance u))),
     (''source'', JStr (uo_source u)),
     (''observed_at'', JInt (uo_observed_at u)),
     (''supersedes_id'', JOptStr (uo_supersedes_id u))]"

section \<open>Lineage\<close>

abbreviation outcome_id :: "attempt_outcome \<Rightarrow> string" where
  "outcome_id item \<equiv> as_attempt_id (ao_attempt item)"

definition by_attempt :: "attempt_outcome list \<Rightarrow> string \<Rightarrow> attempt_outcome option" where
  "by_attempt outcomes = dict_from outcome_id outcomes"

definition parent_of :: "attempt_outcome \<Rightarrow> string option" where
  "parent_of item = (case ao_remediation_of item of None \<Rightarrow> as_remediation_of (ao_attempt item) | Some p \<Rightarrow> Some p)"

definition identities_unique :: "attempt_outcome list \<Rightarrow> bool" where
  "identities_unique outcomes \<longleftrightarrow>
     card (outcome_id ` set outcomes) = length outcomes
     \<and> card (set (filter (\<lambda>a. a \<noteq> []) (List.map_filter ao_acceptance_id outcomes)))
         = length (filter (\<lambda>item. ao_acceptance_id item \<noteq> None) outcomes)"

text \<open>\<open>while parent is not None\<close>, with the key that was looked up last; a missing entry is \<open>None\<close>.\<close>

function climb :: "attempt_outcome list \<Rightarrow> string set \<Rightarrow> string option \<Rightarrow> unit ores" where
  "climb outcomes seen key = (case key of
     None \<Rightarrow> Inr ()
   | Some k \<Rightarrow> (case by_attempt outcomes k of
       None \<Rightarrow> Inr ()
     | Some parent \<Rightarrow>
         if outcome_id parent \<in> seen then Inl OutcomeValueError
         else climb outcomes (insert (outcome_id parent) seen) (parent_of parent)))"
  by pat_completeness auto
termination
proof (relation "measure (\<lambda>(outcomes, seen, _). card (outcome_id ` set outcomes - seen))", goal_cases)
  case (2 outcomes seen key k parent)
  have "parent \<in> set outcomes" using 2(2) dict_from_SomeD[of outcome_id outcomes k parent] by (simp only: by_attempt_def)
  then have "outcome_id parent \<in> outcome_id ` set outcomes - seen" using 2(3) by blast
  then have "card (outcome_id ` set outcomes - insert (outcome_id parent) seen) < card (outcome_id ` set outcomes - seen)"
    by (subst Diff_insert) (intro card_Diff1_less finite_Diff finite_imageI finite_set)
  then show ?case by simp
qed simp

declare climb.simps [simp del]

definition check_remediation :: "attempt_outcome list \<Rightarrow> attempt_outcome \<Rightarrow> unit ores" where
  "check_remediation outcomes item = (case parent_of item of
     None \<Rightarrow> Inr ()
   | Some p \<Rightarrow> (case by_attempt outcomes p of
       None \<Rightarrow> Inl OutcomeValueError
     | Some parent \<Rightarrow>
         if as_program_id (ao_attempt parent) \<noteq> as_program_id (ao_attempt item)
           \<or> as_work_unit_id (ao_attempt parent) \<noteq> as_work_unit_id (ao_attempt item)
         then Inl OutcomeValueError
         else climb outcomes {outcome_id item} (Some p)))"

partial_function (option) chain_loop ::
    "attempt_outcome list \<Rightarrow> string list \<Rightarrow> string option \<Rightarrow> string list ores option" where
  [code]: "chain_loop outcomes result parent = (case parent of
     None \<Rightarrow> Some (Inr result)
   | Some p \<Rightarrow> (case by_attempt outcomes p of
       None \<Rightarrow> Some (Inl OutcomeKeyError)
     | Some item \<Rightarrow> chain_loop outcomes (result @ [p]) (parent_of item)))"

definition chain :: "attempt_outcome list \<Rightarrow> attempt_outcome \<Rightarrow> string list ores option" where
  "chain outcomes item = map_option (map_sum id rev) (chain_loop outcomes [outcome_id item] (parent_of item))"

section \<open>Corrections\<close>

record observation_index =
  oi_ids :: "string set"
  oi_receipts :: "(string \<times> usage_observation) list"

definition add_observation :: "attempt_outcome list \<Rightarrow> usage_observation \<Rightarrow> observation_index \<Rightarrow> observation_index ores" where
  "add_observation outcomes observation s =
     rbind (guard (\<not> (by_attempt outcomes (uo_attempt_id observation) = None \<or> uo_observation_id observation \<in> oi_ids s))
       OutcomeValueError) (\<lambda>_.
     rbind (case map_of (oi_receipts s) (uo_receipt_id observation) of
         None \<Rightarrow> guard (\<not> uo_supersedes_id observation \<noteq> None) OutcomeValueError
       | Some prior \<Rightarrow> guard (\<not> (uo_supersedes_id observation \<noteq> Some (uo_observation_id prior)
             \<or> uo_attempt_id observation \<noteq> uo_attempt_id prior
             \<or> uo_metric observation \<noteq> uo_metric prior
             \<or> uo_unit observation \<noteq> uo_unit prior)) OutcomeValueError) (\<lambda>_.
     Inr \<lparr>oi_ids = insert (uo_observation_id observation) (oi_ids s),
       oi_receipts = AList.update (uo_receipt_id observation) observation (oi_receipts s)\<rparr>))"

primrec add_observations :: "attempt_outcome list \<Rightarrow> usage_observation list \<Rightarrow> observation_index \<Rightarrow> observation_index ores" where
  "add_observations outcomes [] s = Inr s"
| "add_observations outcomes (x # xs) s = rbind (add_observation outcomes x s) (add_observations outcomes xs)"

section \<open>Export\<close>

definition quota_payload :: "quota_snapshot \<Rightarrow> json" where
  "quota_payload q = JObj [(''reference'', JStr (qs_reference q)), (''source'', JStr (qs_source q)),
     (''observed_at'', JInt (qs_observed_at q)), (''fresh_until'', JInt (qs_fresh_until q))]"

definition review_payload :: "attempt_outcome \<Rightarrow> json" where
  "review_payload item = (case ao_review_operation_id item of
     None \<Rightarrow> JNull
   | Some operation \<Rightarrow> JObj [(''operation_id'', JStr operation),
       (''delivery_status'', JOptStr (ao_review_operation_status item)),
       (''review_id'', JOptStr (ao_review_id item)),
       (''verdict'', JOptStr (map_option verdict_value (ao_review_verdict item)))])"

definition effective_usage :: "(string \<times> usage_observation) list \<Rightarrow> string \<Rightarrow> usage_observation list" where
  "effective_usage receipts attempt_id = filter (\<lambda>fact. uo_attempt_id fact = attempt_id) (map snd receipts)"

abbreviation JOpt :: "('a \<Rightarrow> json) \<Rightarrow> 'a option \<Rightarrow> json" where
  "JOpt f v \<equiv> (case v of None \<Rightarrow> JNull | Some x \<Rightarrow> f x)"

definition export_item ::
    "hash \<Rightarrow> (string \<times> usage_observation) list \<Rightarrow> attempt_outcome \<Rightarrow> string list option \<Rightarrow> json" where
  "export_item H receipts item cost = (let spec = ao_attempt item in JObj [
     (''program_id'', JStr (as_program_id spec)),
     (''work_unit_id'', JStr (as_work_unit_id spec)),
     (''work_unit_class'', JStr (ao_work_unit_class item)),
     (''attempt_id'', JStr (as_attempt_id spec)),
     (''attempt_spec_revision'', JInt (as_spec_revision spec)),
     (''attempt_spec_digest'', JStr (attempt_digest H spec)),
     (''program_spec_digest'', JStr (as_spec_digest spec)),
     (''allocation_reference'', JOptStr (as_allocation_reference spec)),
     (''context_reference'', JOptStr (as_context_reference spec)),
     (''requested'', identity_payload (ao_requested item)),
     (''resolved'', JOpt attributed_payload (ao_resolved item)),
     (''observed'', JOpt attributed_payload (ao_observed item)),
     (''quota'', JOpt quota_payload (ao_quota item)),
     (''validation'', JOptStr (ao_validation item)),
     (''finding_ids'', JList (map JStr (ao_finding_ids item))),
     (''remediation_of'', JOptStr (parent_of item)),
     (''product_review'', review_payload item),
     (''acceptance_id'', JOptStr (ao_acceptance_id item)),
     (''intervention_ids'', JList (map JStr (ao_intervention_ids item))),
     (''effective_usage'', JList (map observation_payload (effective_usage receipts (as_attempt_id spec)))),
     (''cost_attempt_ids'', JOpt (\<lambda>ids. JList (map JStr ids)) cost)])"

text \<open>\<open>list(chain(item)) if item.acceptance_id is not None else None\<close>\<close>

definition cost_attempt_ids :: "attempt_outcome list \<Rightarrow> attempt_outcome \<Rightarrow> string list option ores option" where
  "cost_attempt_ids outcomes item =
     (if ao_acceptance_id item \<noteq> None then map_option (map_sum id Some) (chain outcomes item) else Some (Inr None))"

primrec export_items ::
    "hash \<Rightarrow> attempt_outcome list \<Rightarrow> (string \<times> usage_observation) list \<Rightarrow> attempt_outcome list \<Rightarrow> json list ores option" where
  "export_items H outcomes receipts [] = Some (Inr [])"
| "export_items H outcomes receipts (item # items) = (case cost_attempt_ids outcomes item of
     None \<Rightarrow> None
   | Some (Inl e) \<Rightarrow> Some (Inl e)
   | Some (Inr cost) \<Rightarrow>
       map_option (map_sum id ((#) (export_item H receipts item cost))) (export_items H outcomes receipts items))"

definition export_outcomes :: "hash \<Rightarrow> attempt_outcome list \<Rightarrow> usage_observation list \<Rightarrow> json ores option" where
  "export_outcomes H outcomes observations = (case
     rbind (guard (identities_unique outcomes) OutcomeValueError) (\<lambda>_.
     rbind (each (check_remediation outcomes) outcomes) (\<lambda>_.
     add_observations outcomes observations \<lparr>oi_ids = {}, oi_receipts = []\<rparr>)) of
     Inl e \<Rightarrow> Some (Inl e)
   | Inr s \<Rightarrow> map_option (map_sum id (\<lambda>exported. JObj [
       (''schema'', JStr ''creatidy-local-outcomes-v1''),
       (''attempts'', JList exported),
       (''observations'', JList (map observation_payload observations))]))
     (export_items H outcomes (oi_receipts s) outcomes))"

section \<open>The loops\<close>

text \<open>The attempts met when following the recorded parents from a key.\<close>

fun lineage :: "attempt_outcome list \<Rightarrow> string option \<Rightarrow> string list \<Rightarrow> bool" where
  "lineage outcomes key [] \<longleftrightarrow> key = None"
| "lineage outcomes key (p # ps) \<longleftrightarrow> key = Some p
     \<and> (case by_attempt outcomes p of None \<Rightarrow> False | Some item \<Rightarrow> lineage outcomes (parent_of item) ps)"

definition parents_known :: "attempt_outcome list \<Rightarrow> bool" where
  "parents_known outcomes \<longleftrightarrow>
     (\<forall>item \<in> set outcomes. \<forall>p. parent_of item = Some p \<longrightarrow> by_attempt outcomes p \<noteq> None)"

lemma by_attempt_SomeD: "by_attempt outcomes k = Some item \<Longrightarrow> item \<in> set outcomes \<and> outcome_id item = k"
  unfolding by_attempt_def by (rule dict_from_SomeD)

lemma lineage_of_climb:
  assumes "climb outcomes seen key = Inr ()" and "parents_known outcomes"
    and "\<forall>k. key = Some k \<longrightarrow> by_attempt outcomes k \<noteq> None"
  shows "\<exists>path. lineage outcomes key path \<and> distinct path \<and> set path \<inter> seen = {}"
  using assms
proof (induction outcomes seen key rule: climb.induct)
  case (1 outcomes seen key)
  show ?case
  proof (cases key)
    case None
    then have "lineage outcomes key []" by simp
    then show ?thesis by (intro exI[of _ "[]"]) simp
  next
    case (Some k)
    then obtain parent where parent: "by_attempt outcomes k = Some parent" using "1.prems"(3) by auto
    note member = by_attempt_SomeD[OF parent]
    have step: "outcome_id parent \<notin> seen"
        "climb outcomes (insert (outcome_id parent) seen) (parent_of parent) = Inr ()"
      using "1.prems"(1) by (simp_all add: Some parent climb.simps[of outcomes seen "Some k"] split: if_splits)
    have "\<forall>k. parent_of parent = Some k \<longrightarrow> by_attempt outcomes k \<noteq> None"
      using "1.prems"(2) member unfolding parents_known_def by blast
    from "1.IH"[OF Some parent step(1) step(2) "1.prems"(2) this] obtain path where
      path: "lineage outcomes (parent_of parent) path" "distinct path" "set path \<inter> insert (outcome_id parent) seen = {}"
      by blast
    have "lineage outcomes key (k # path)" using path(1) by (simp add: Some parent)
    moreover have "distinct (k # path)" "set (k # path) \<inter> seen = {}"
      using path(2,3) step(1) member by auto
    ultimately show ?thesis by blast
  qed
qed

lemma chain_loop_lineage:
  "lineage outcomes key path \<Longrightarrow> chain_loop outcomes result key = Some (Inr (result @ path))"
proof (induction path arbitrary: key result)
  case Nil
  then show ?case by (simp add: chain_loop.simps)
next
  case (Cons p path)
  then obtain item where item: "key = Some p" "by_attempt outcomes p = Some item" "lineage outcomes (parent_of item) path"
    by (auto split: option.splits)
  then show ?case using Cons.IH[OF item(3), of "result @ [p]"] by (simp add: chain_loop.simps[of outcomes result])
qed

lemma check_remediation_Inr:
  assumes "check_remediation outcomes item = Inr ()" and "parent_of item = Some p"
  obtains parent where "by_attempt outcomes p = Some parent"
    "as_program_id (ao_attempt parent) = as_program_id (ao_attempt item)"
    "as_work_unit_id (ao_attempt parent) = as_work_unit_id (ao_attempt item)"
    "climb outcomes {outcome_id item} (Some p) = Inr ()"
  using assms by (auto simp: check_remediation_def split: option.splits if_splits)

definition remediations_ok :: "attempt_outcome list \<Rightarrow> bool" where
  "remediations_ok outcomes \<longleftrightarrow> (\<forall>item \<in> set outcomes. check_remediation outcomes item = Inr ())"

lemma remediations_ok_known: "remediations_ok outcomes \<Longrightarrow> parents_known outcomes"
  unfolding remediations_ok_def parents_known_def by (blast elim: check_remediation_Inr[rotated])

lemma item_lineage:
  assumes "remediations_ok outcomes" and "item \<in> set outcomes"
  obtains path where "lineage outcomes (parent_of item) path" "distinct (outcome_id item # path)"
    "chain outcomes item = Some (Inr (rev (outcome_id item # path)))"
proof -
  have "\<exists>path. lineage outcomes (parent_of item) path \<and> distinct path \<and> set path \<inter> {outcome_id item} = {}"
  proof (cases "parent_of item")
    case None
    then show ?thesis by (intro exI[of _ "[]"]) simp
  next
    case (Some p)
    have ok: "check_remediation outcomes item = Inr ()" using assms by (simp add: remediations_ok_def)
    from ok Some obtain parent where "by_attempt outcomes p = Some parent" "climb outcomes {outcome_id item} (Some p) = Inr ()"
      by (rule check_remediation_Inr)
    then show ?thesis unfolding Some by (intro lineage_of_climb remediations_ok_known assms(1)) simp_all
  qed
  then obtain path where path: "lineage outcomes (parent_of item) path" "distinct path" "set path \<inter> {outcome_id item} = {}"
    by blast
  have "chain outcomes item = Some (Inr (rev (outcome_id item # path)))"
    by (simp add: chain_def chain_loop_lineage[OF path(1)])
  moreover have "distinct (outcome_id item # path)" using path(2,3) by simp
  ultimately show thesis using path(1) that by blast
qed

lemma lineage_same_unit:
  assumes "remediations_ok outcomes" and "item \<in> set outcomes" and "lineage outcomes (parent_of item) path"
    and "p \<in> set path"
  shows "\<exists>parent \<in> set outcomes. outcome_id parent = p
    \<and> as_program_id (ao_attempt parent) = as_program_id (ao_attempt item)
    \<and> as_work_unit_id (ao_attempt parent) = as_work_unit_id (ao_attempt item)"
  using assms(2-4)
proof (induction path arbitrary: item)
  case (Cons q path)
  then obtain parent where parent: "parent_of item = Some q" "by_attempt outcomes q = Some parent"
      "lineage outcomes (parent_of parent) path"
    by (auto split: option.splits)
  have "check_remediation outcomes item = Inr ()" using assms(1) Cons.prems(1) by (simp add: remediations_ok_def)
  then have same: "as_program_id (ao_attempt parent) = as_program_id (ao_attempt item)"
      "as_work_unit_id (ao_attempt parent) = as_work_unit_id (ao_attempt item)"
    using parent(1,2) by (auto elim: check_remediation_Inr)
  have member: "parent \<in> set outcomes \<and> outcome_id parent = q" using parent(2) by (rule by_attempt_SomeD)
  show ?case
  proof (cases "p = q")
    case True
    then show ?thesis using same member by blast
  next
    case False
    then have "p \<in> set path" using Cons.prems(3) by simp
    with Cons.IH[of parent] member parent(3) same show ?thesis by metis
  qed
qed simp

section \<open>Corrections\<close>

definition index_ok :: "usage_observation list \<Rightarrow> observation_index \<Rightarrow> bool" where
  "index_ok obs s \<longleftrightarrow> oi_ids s = uo_observation_id ` set obs
     \<and> distinct (map uo_observation_id obs)
     \<and> distinct (map fst (oi_receipts s))
     \<and> (\<forall>u \<in> set obs. \<forall>i. uo_supersedes_id u = Some i \<longrightarrow> i \<in> uo_observation_id ` set obs)
     \<and> (\<forall>r f. map_of (oi_receipts s) r = Some f \<longleftrightarrow>
          f \<in> set obs \<and> uo_receipt_id f = r \<and> (\<forall>u \<in> set obs. uo_supersedes_id u \<noteq> Some (uo_observation_id f)))"


lemma add_observation_ok:
  assumes "add_observation outcomes x s = Inr s'" and ok: "index_ok obs s"
  shows "index_ok (obs @ [x]) s'"
proof -
  have fresh: "uo_observation_id x \<notin> uo_observation_id ` set obs"
    using assms by (auto simp: add_observation_def index_ok_def res_simps)
  have s': "s' = \<lparr>oi_ids = insert (uo_observation_id x) (oi_ids s),
      oi_receipts = AList.update (uo_receipt_id x) x (oi_receipts s)\<rparr>"
    using assms(1) by (auto simp: add_observation_def res_simps)
  have prior: "case map_of (oi_receipts s) (uo_receipt_id x) of None \<Rightarrow> uo_supersedes_id x = None
      | Some f \<Rightarrow> uo_supersedes_id x = Some (uo_observation_id f)"
    using assms(1) by (auto simp: add_observation_def res_simps split: option.splits)
  have ids: "distinct (map uo_observation_id obs)"
    and refs: "\<And>u i. u \<in> set obs \<Longrightarrow> uo_supersedes_id u = Some i \<Longrightarrow> i \<in> uo_observation_id ` set obs"
    and entries: "\<And>r f. map_of (oi_receipts s) r = Some f \<longleftrightarrow> f \<in> set obs \<and> uo_receipt_id f = r
        \<and> (\<forall>u \<in> set obs. uo_supersedes_id u \<noteq> Some (uo_observation_id f))"
    using ok unfolding index_ok_def by simp_all
  have superseded: "uo_supersedes_id x = Some (uo_observation_id f) \<longleftrightarrow>
      map_of (oi_receipts s) (uo_receipt_id x) = Some f" if "f \<in> set obs" for f
  proof (cases "map_of (oi_receipts s) (uo_receipt_id x)")
    case None
    then show ?thesis using prior by simp
  next
    case (Some g)
    then have "g \<in> set obs" using entries by blast
    with that ids have "uo_observation_id g = uo_observation_id f \<longleftrightarrow> g = f" by (auto simp: distinct_map dest: inj_onD)
    with Some prior show ?thesis by simp
  qed
  have refs': "i \<in> uo_observation_id ` set obs" if "uo_supersedes_id x = Some i" for i
  proof (cases "map_of (oi_receipts s) (uo_receipt_id x)")
    case None
    then show ?thesis using prior that by simp
  next
    case (Some g)
    then have "g \<in> set obs" using entries by blast
    moreover have "i = uo_observation_id g" using Some prior that by simp
    ultimately show ?thesis by blast
  qed
  have "map_of (oi_receipts s') r = Some f \<longleftrightarrow> f \<in> set (obs @ [x]) \<and> uo_receipt_id f = r
      \<and> (\<forall>u \<in> set (obs @ [x]). uo_supersedes_id u \<noteq> Some (uo_observation_id f))" for r f
  proof (cases "f = x")
    case True
    have "uo_supersedes_id u \<noteq> Some (uo_observation_id x)" if "u \<in> set obs" for u using refs[OF that] fresh by blast
    moreover have "uo_supersedes_id x \<noteq> Some (uo_observation_id x)" using refs' fresh by blast
    moreover have "map_of (oi_receipts s) r \<noteq> Some x" using entries fresh by blast
    ultimately show ?thesis by (auto simp: True s' update_conv')
  next
    case False
    show ?thesis
    proof (cases "f \<in> set obs")
      case True
      then show ?thesis using False superseded[OF True] entries[of r f] entries[of "uo_receipt_id x" f]
        by (auto simp: s' update_conv')
    next
      case notin: False
      then show ?thesis using False entries[of r f] by (auto simp: s' update_conv')
    qed
  qed
  then show ?thesis unfolding index_ok_def
    using ok fresh ids refs refs' by (auto simp: s' index_ok_def distinct_update)
qed

lemma add_observations_ok:
  "add_observations outcomes xs s = Inr s' \<Longrightarrow> index_ok obs s \<Longrightarrow> index_ok (obs @ xs) s'"
proof (induction xs arbitrary: s obs)
  case (Cons x xs)
  then obtain t where "add_observation outcomes x s = Inr t" "add_observations outcomes xs t = Inr s'"
    by (auto simp: res_simps)
  with Cons.IH[of t "obs @ [x]"] Cons.prems(2) add_observation_ok show ?case by simp
qed simp

lemma index_values:
  assumes "index_ok obs s"
  shows "set (map snd (oi_receipts s)) = {f \<in> set obs. \<forall>u \<in> set obs. uo_supersedes_id u \<noteq> Some (uo_observation_id f)}"
    and "distinct (map snd (oi_receipts s))"
proof -
  have d: "distinct (map fst (oi_receipts s))" and
    e: "\<And>r f. map_of (oi_receipts s) r = Some f \<longleftrightarrow> f \<in> set obs \<and> uo_receipt_id f = r
        \<and> (\<forall>u \<in> set obs. uo_supersedes_id u \<noteq> Some (uo_observation_id f))"
    using assms unfolding index_ok_def by simp_all
  have member: "(r, f) \<in> set (oi_receipts s) \<longleftrightarrow> map_of (oi_receipts s) r = Some f" for r f
    using d by (metis map_of_is_SomeI map_of_SomeD)
  show "set (map snd (oi_receipts s)) = {f \<in> set obs. \<forall>u \<in> set obs. uo_supersedes_id u \<noteq> Some (uo_observation_id f)}"
  proof (intro set_eqI iffI)
    fix f assume "f \<in> set (map snd (oi_receipts s))"
    then obtain r where "(r, f) \<in> set (oi_receipts s)" by auto
    then show "f \<in> {f \<in> set obs. \<forall>u \<in> set obs. uo_supersedes_id u \<noteq> Some (uo_observation_id f)}"
      using member e by blast
  next
    fix f assume "f \<in> {f \<in> set obs. \<forall>u \<in> set obs. uo_supersedes_id u \<noteq> Some (uo_observation_id f)}"
    then have "(uo_receipt_id f, f) \<in> set (oi_receipts s)" using member e by blast
    then show "f \<in> set (map snd (oi_receipts s))" by force
  qed
  have "inj_on snd (set (oi_receipts s))"
  proof (rule inj_onI)
    fix a b assume "a \<in> set (oi_receipts s)" "b \<in> set (oi_receipts s)" "snd a = snd b"
    then show "a = b" using member[of "fst a" "snd a"] member[of "fst b" "snd b"] e
      by (metis prod.collapse)
  qed
  moreover have "distinct (oi_receipts s)" using d by (simp add: distinct_map)
  ultimately show "distinct (map snd (oi_receipts s))" by (simp add: distinct_map)
qed

section \<open>Export\<close>

lemma cost_attempt_ids_ok:
  assumes "remediations_ok outcomes" and "item \<in> set outcomes"
  shows "\<exists>cost. cost_attempt_ids outcomes item = Some (Inr cost)"
proof -
  obtain path where "chain outcomes item = Some (Inr (rev (outcome_id item # path)))"
    using assms by (rule item_lineage)
  then show ?thesis by (cases "ao_acceptance_id item") (auto simp: cost_attempt_ids_def)
qed

lemma export_items_ok:
  assumes "remediations_ok outcomes" and "set items \<subseteq> set outcomes"
  shows "\<exists>exported. export_items H outcomes receipts items = Some (Inr exported)
    \<and> list_all2 (\<lambda>item j. \<exists>cost. cost_attempt_ids outcomes item = Some (Inr cost)
        \<and> j = export_item H receipts item cost) items exported"
  using assms(2)
proof (induction items)
  case (Cons item items)
  then obtain exported where e: "export_items H outcomes receipts items = Some (Inr exported)"
      "list_all2 (\<lambda>item j. \<exists>cost. cost_attempt_ids outcomes item = Some (Inr cost)
        \<and> j = export_item H receipts item cost) items exported"
    by auto
  obtain cost where c: "cost_attempt_ids outcomes item = Some (Inr cost)"
    using cost_attempt_ids_ok[OF assms(1), of item] Cons.prems by auto
  from e c show ?case by simp
qed simp

lemma export_outcomes_cases:
  obtains (refused) "export_outcomes H outcomes observations = Some (Inl OutcomeValueError)"
  | (exported) s exported where "remediations_ok outcomes" "identities_unique outcomes" "index_ok observations s"
      "export_outcomes H outcomes observations = Some (Inr (JObj [
         (''schema'', JStr ''creatidy-local-outcomes-v1''), (''attempts'', JList exported),
         (''observations'', JList (map observation_payload observations))]))"
      "list_all2 (\<lambda>item j. \<exists>cost. cost_attempt_ids outcomes item = Some (Inr cost)
         \<and> j = export_item H (oi_receipts s) item cost) outcomes exported"
proof -
  let ?s0 = "\<lparr>oi_ids = {}, oi_receipts = []\<rparr> :: observation_index"
  have value_error: "e = OutcomeValueError" if "climb outs seen k = Inl e" for outs seen k e
    using that
  proof (induction outs seen k rule: climb.induct)
    case (1 outs seen k)
    then show ?case by (auto simp: climb.simps[of outs seen k] split: option.splits if_splits)
  qed
  have each_error: "e = OutcomeValueError" if "each (check_remediation outcomes) xs = Inl e" for xs e
    using that
  proof (induction xs)
    case (Cons x xs)
    then show ?case using value_error
      by (auto simp: res_simps check_remediation_def split: option.splits if_splits)
  qed simp
  have add_error: "e = OutcomeValueError" if "add_observations outcomes xs t = Inl e" for xs t e
    using that
  proof (induction xs arbitrary: t)
    case (Cons x xs)
    then show ?case by (auto simp: add_observation_def res_simps split: option.splits)
  qed simp
  consider "\<not> identities_unique outcomes" | e where "identities_unique outcomes" "each (check_remediation outcomes) outcomes = Inl e"
    | e where "identities_unique outcomes" "each (check_remediation outcomes) outcomes = Inr ()" "add_observations outcomes observations ?s0 = Inl e"
    | s where "identities_unique outcomes" "each (check_remediation outcomes) outcomes = Inr ()" "add_observations outcomes observations ?s0 = Inr s"
    by (cases "each (check_remediation outcomes) outcomes"; cases "add_observations outcomes observations ?s0") auto
  then show thesis
  proof cases
    case (4 s)
    have ok: "remediations_ok outcomes" using 4(2) by (simp add: remediations_ok_def each_Inr_iff)
    have "index_ok [] ?s0" by (simp add: index_ok_def)
    with 4(3) have "index_ok ([] @ observations) s" by (rule add_observations_ok)
    moreover obtain exported where "export_items H outcomes (oi_receipts s) outcomes = Some (Inr exported)"
        "list_all2 (\<lambda>item j. \<exists>cost. cost_attempt_ids outcomes item = Some (Inr cost)
         \<and> j = export_item H (oi_receipts s) item cost) outcomes exported"
      using export_items_ok[OF ok order_refl] by blast
    ultimately show thesis using 4 ok by (intro exported[of s exported]) (simp_all add: export_outcomes_def)
  qed (use refused each_error add_error in \<open>auto simp: export_outcomes_def\<close>)
qed

text \<open>The value of a field of an exported object.\<close>

fun json_field :: "json \<Rightarrow> string \<Rightarrow> json option" where
  "json_field (JObj kvs) k = map_of kvs k"
| "json_field _ k = None"

text \<open>(C18) The export always returns: whatever outcomes and observations it is given, even with cyclic or dangling
  remediation references, \<open>export_outcomes\<close> ends, and the only exception it raises is \<open>ValueError\<close>: the
  unguarded loop of \<open>chain\<close> neither runs forever nor meets a missing attempt.\<close>

theorem export_outcomes_returns:
  "(\<exists>doc. export_outcomes H outcomes observations = Some (Inr doc))
    \<or> export_outcomes H outcomes observations = Some (Inl OutcomeValueError)"
  by (cases rule: export_outcomes_cases[of H outcomes observations]) auto

definition accepted_cost :: "attempt_outcome list \<Rightarrow> attempt_outcome \<Rightarrow> json option \<Rightarrow> bool" where
  "accepted_cost outcomes item field \<longleftrightarrow>
     (if ao_acceptance_id item = None then field = Some JNull
      else (\<exists>path. lineage outcomes (parent_of item) path \<and> distinct (outcome_id item # path)
        \<and> field = Some (JList (map JStr (rev path @ [outcome_id item])))
        \<and> (\<forall>p \<in> set path. \<exists>parent \<in> set outcomes. outcome_id parent = p
             \<and> as_program_id (ao_attempt parent) = as_program_id (ao_attempt item)
             \<and> as_work_unit_id (ao_attempt parent) = as_work_unit_id (ao_attempt item))))"

text \<open>Every outcome is exported once, in order, and an accepted attempt is charged with exactly its remediation
  lineage: the first attempt of the lineage first and itself last, each attempt once and all of them attempts of
  the same work unit; an attempt that was not accepted is charged with nothing.\<close>

theorem accepted_cost_is_the_lineage:
  assumes "export_outcomes H outcomes observations = Some (Inr doc)"
  shows "\<exists>exported. json_field doc ''attempts'' = Some (JList exported)
    \<and> list_all2 (\<lambda>item j. json_field j ''attempt_id'' = Some (JStr (outcome_id item))
        \<and> accepted_cost outcomes item (json_field j ''cost_attempt_ids'')) outcomes exported"
proof (cases rule: export_outcomes_cases[of H outcomes observations])
  case (exported s exported)
  have "accepted_cost outcomes item (json_field (export_item H (oi_receipts s) item cost) ''cost_attempt_ids'')"
    if item: "item \<in> set outcomes" and ids: "cost_attempt_ids outcomes item = Some (Inr cost)" for item cost
  proof -
    obtain path where path: "lineage outcomes (parent_of item) path" "distinct (outcome_id item # path)"
        "chain outcomes item = Some (Inr (rev (outcome_id item # path)))"
      using exported(1) item by (rule item_lineage)
    have field: "json_field (export_item H (oi_receipts s) item cost) ''cost_attempt_ids''
        = Some (JOpt (\<lambda>ids. JList (map JStr ids)) cost)"
      by (simp add: export_item_def Let_def)
    show ?thesis
    proof (cases "ao_acceptance_id item = None")
      case True
      then show ?thesis unfolding accepted_cost_def field using ids by (auto simp: cost_attempt_ids_def)
    next
      case False
      then have "cost = Some (rev path @ [outcome_id item])" using ids path(3) by (simp add: cost_attempt_ids_def)
      moreover have "\<forall>p \<in> set path. \<exists>parent \<in> set outcomes. outcome_id parent = p
             \<and> as_program_id (ao_attempt parent) = as_program_id (ao_attempt item)
             \<and> as_work_unit_id (ao_attempt parent) = as_work_unit_id (ao_attempt item)"
        using lineage_same_unit[OF exported(1) item path(1)] by blast
      ultimately show ?thesis using False path(1,2) unfolding accepted_cost_def field by auto
    qed
  qed
  moreover have "json_field (export_item H (oi_receipts s) item cost) ''attempt_id'' = Some (JStr (outcome_id item))" for item cost
    by (simp add: export_item_def Let_def)
  ultimately have "list_all2 (\<lambda>item j. json_field j ''attempt_id'' = Some (JStr (outcome_id item))
        \<and> accepted_cost outcomes item (json_field j ''cost_attempt_ids'')) outcomes exported"
    using exported(5) by (auto elim!: list.rel_mono_strong)
  moreover have "json_field doc ''attempts'' = Some (JList exported)" using assms exported(4) by auto
  ultimately show ?thesis by blast
qed (use assms in simp)

text \<open>Usage is counted once per receipt: the effective usage of an exported attempt lists exactly the
  observations of that attempt that no later observation supersedes, each once.\<close>

theorem effective_usage_is_the_latest:
  assumes "export_outcomes H outcomes observations = Some (Inr doc)"
  shows "\<exists>exported. json_field doc ''attempts'' = Some (JList exported)
    \<and> list_all2 (\<lambda>item j. \<exists>facts. json_field j ''effective_usage'' = Some (JList (map observation_payload facts))
        \<and> distinct facts
        \<and> set facts = {u \<in> set observations. uo_attempt_id u = outcome_id item
            \<and> (\<forall>v \<in> set observations. uo_supersedes_id v \<noteq> Some (uo_observation_id u))}) outcomes exported"
proof (cases rule: export_outcomes_cases[of H outcomes observations])
  case (exported s exported)
  let ?facts = "\<lambda>item. effective_usage (oi_receipts s) (outcome_id item)"
  have field: "json_field (export_item H (oi_receipts s) item cost) ''effective_usage'' = Some (JList (map observation_payload (?facts item)))" for item cost
    by (simp add: export_item_def Let_def)
  have "distinct (?facts item)" for item unfolding effective_usage_def using index_values(2)[OF exported(3)] by (rule distinct_filter)
  moreover have "set (?facts item) = {u \<in> set observations. uo_attempt_id u = outcome_id item
      \<and> (\<forall>v \<in> set observations. uo_supersedes_id v \<noteq> Some (uo_observation_id u))}" for item
    unfolding effective_usage_def set_filter index_values(1)[OF exported(3)] by blast
  ultimately have "list_all2 (\<lambda>item j. \<exists>facts. json_field j ''effective_usage'' = Some (JList (map observation_payload facts))
        \<and> distinct facts
        \<and> set facts = {u \<in> set observations. uo_attempt_id u = outcome_id item
            \<and> (\<forall>v \<in> set observations. uo_supersedes_id v \<noteq> Some (uo_observation_id u))}) outcomes exported"
    using exported(5) field by (elim list.rel_mono_strong) blast
  moreover have "json_field doc ''attempts'' = Some (JList exported)" using assms exported(4) by auto
  ultimately show ?thesis by blast
qed (use assms in simp)

section \<open>An accepted remediation with a corrected receipt\<close>

definition demo_outcome_attempt :: "string \<Rightarrow> string option \<Rightarrow> attempt_spec" where
  "demo_outcome_attempt i parent = \<lparr>as_attempt_id = i, as_program_id = ''p'', as_work_unit_id = ''u'', as_spec_revision = 1,
     as_spec_digest = ''d'', as_effective_inputs = [], as_allocation_reference = None, as_agent_definition_reference = None,
     as_workspace_reference = None, as_context_reference = None, as_remediation_of = parent\<rparr>"

definition demo_outcome :: "string \<Rightarrow> string option \<Rightarrow> string option \<Rightarrow> attempt_outcome" where
  "demo_outcome i parent accepted = \<lparr>ao_attempt = demo_outcome_attempt i parent, ao_work_unit_class = ''c'',
     ao_requested = \<lparr>id_runtime_id = None, id_provider_id = None, id_model_id = None, id_reasoning_effort = None\<rparr>,
     ao_resolved = None, ao_observed = None, ao_quota = None, ao_validation = None, ao_finding_ids = [],
     ao_remediation_of = None, ao_review_operation_id = None, ao_review_operation_status = None, ao_review_id = None,
     ao_review_verdict = None, ao_acceptance_id = accepted, ao_intervention_ids = []\<rparr>"

definition demo_outcomes :: "attempt_outcome list" where
  "demo_outcomes = [demo_outcome ''b'' (Some ''a'') (Some ''ok''), demo_outcome ''a'' None None]"

definition demo_observation :: "string \<Rightarrow> string option \<Rightarrow> usage_observation" where
  "demo_observation i supersedes = \<lparr>uo_observation_id = i, uo_attempt_id = ''b'', uo_receipt_id = ''r'', uo_metric = ''tokens'',
     uo_unit = ''token'', uo_quantity = Some (Finite False 5 0), uo_provenance = MEASUREMENT, uo_source = ''s'',
     uo_observed_at = 1, uo_supersedes_id = supersedes\<rparr>"

definition demo_observations :: "usage_observation list" where
  "demo_observations = [demo_observation ''1'' None, demo_observation ''2'' (Some ''1'')]"

lemma demo_export: "\<exists>doc. export_outcomes (\<lambda>s. s) demo_outcomes demo_observations = Some (Inr doc)"
proof -
  have "case export_outcomes (\<lambda>s. s) demo_outcomes demo_observations of Some (Inr doc) \<Rightarrow> True | _ \<Rightarrow> False" by code_simp
  then show ?thesis by (simp split: option.splits sum.splits)
qed

theorem accepted_cost_is_the_lineage_witness:
  "\<exists>doc exported. export_outcomes (\<lambda>s. s) demo_outcomes demo_observations = Some (Inr doc)
    \<and> json_field doc ''attempts'' = Some (JList exported)
    \<and> list_all2 (\<lambda>item j. json_field j ''attempt_id'' = Some (JStr (outcome_id item))
        \<and> accepted_cost demo_outcomes item (json_field j ''cost_attempt_ids'')) demo_outcomes exported"
proof -
  obtain doc where doc: "export_outcomes (\<lambda>s. s) demo_outcomes demo_observations = Some (Inr doc)" using demo_export ..
  show ?thesis using doc accepted_cost_is_the_lineage[OF doc] by (intro exI[of _ doc]) simp
qed

theorem effective_usage_is_the_latest_witness:
  "\<exists>doc exported. export_outcomes (\<lambda>s. s) demo_outcomes demo_observations = Some (Inr doc)
    \<and> json_field doc ''attempts'' = Some (JList exported)
    \<and> list_all2 (\<lambda>item j. \<exists>facts. json_field j ''effective_usage'' = Some (JList (map observation_payload facts))
        \<and> distinct facts
        \<and> set facts = {u \<in> set demo_observations. uo_attempt_id u = outcome_id item
            \<and> (\<forall>v \<in> set demo_observations. uo_supersedes_id v \<noteq> Some (uo_observation_id u))}) demo_outcomes exported"
proof -
  obtain doc where doc: "export_outcomes (\<lambda>s. s) demo_outcomes demo_observations = Some (Inr doc)" using demo_export ..
  show ?thesis using doc effective_usage_is_the_latest[OF doc] by (intro exI[of _ doc]) simp
qed

end
