(* ===== verification/Fake_Workspace.thy ===== *)
theory Fake_Workspace
  imports Execution_Values Command_Machine
begin

text \<open>
  \<open>FakeWorkspace\<close> of adapters/fake_execution.py: the policy simulation of the workspace port. One
  operation of it, \<open>materialize\<close>, changes state and then raises, so every operation returns its outcome
  together with the state after it.
\<close>

record fake_workspace =
  fw_network :: "string fset"
  fw_mounts :: "string fset"
  fw_handles :: "string \<rightharpoonup> workspace_handle"
  fw_manifests :: "string \<rightharpoonup> artifact_manifest"
  fw_lost :: "string fset"
  fw_partial_launch :: bool

definition new_workspace :: "string fset \<Rightarrow> string fset \<Rightarrow> fake_workspace" where
  "new_workspace network mounts = \<lparr>fw_network = network, fw_mounts = mounts, fw_handles = Map.empty,
     fw_manifests = Map.empty, fw_lost = {||}, fw_partial_launch = False\<rparr>"

definition fail_next_materialize :: "fake_workspace \<Rightarrow> fake_workspace" where
  "fail_next_materialize w = w\<lparr>fw_partial_launch := True\<rparr>"

definition materialize ::
  "fake_workspace \<Rightarrow> string \<Rightarrow> workspace_spec \<Rightarrow> workspace_handle xres \<times> fake_workspace" where
  "materialize w key spec =
     (if ws_trust_mode spec \<noteq> TRUSTED_DEVELOPMENT then (Inl UnsupportedExecution, w)
      else if \<not> ws_network_destinations spec |\<subseteq>| fw_network w \<or> \<not> ws_mounts spec |\<subseteq>| fw_mounts w
      then (Inl UnsupportedExecution, w)
      else case fw_handles w key of
        Some existing \<Rightarrow> if wh_spec existing \<noteq> spec then (Inl ExecutionConflict, w) else (Inr existing, w)
      | None \<Rightarrow>
          if key |\<in>| fw_lost w then (Inl ExecutionConflict, w)
          else if fw_partial_launch w
          then (Inl ExecutionConflict, w\<lparr>fw_partial_launch := False, fw_lost := finsert key (fw_lost w)\<rparr>)
          else let handle = \<lparr>wh_key = key, wh_spec = spec\<rparr>
            in (Inr handle, w\<lparr>fw_handles := (fw_handles w)(key \<mapsto> handle),
                 fw_manifests := (fw_manifests w)(key \<mapsto> \<lparr>am_workspace_key = key, am_artifacts = []\<rparr>)\<rparr>))"

definition require_handle :: "fake_workspace \<Rightarrow> workspace_handle \<Rightarrow> unit xres" where
  "require_handle w handle = guard (fw_handles w (wh_key handle) = Some handle) ExecutionConflict"

definition inside_scope :: "worker_scope \<Rightarrow> string \<Rightarrow> unit xres" where
  "inside_scope scope p =
     rbind (validate_relative_path p) (\<lambda>_.
     guard (fBex (sc_paths scope) (\<lambda>root. p = root \<or> prefix (root @ ''/'') p)) ExecutionConflict)"

definition access ::
  "fake_workspace \<Rightarrow> workspace_handle \<Rightarrow> worker_scope \<Rightarrow> int \<Rightarrow> string \<Rightarrow> string option \<Rightarrow> string option \<Rightarrow>
   string option \<Rightarrow> string option \<Rightarrow> unit xres" where
  "access w handle scope now operation path symlink_target network mount =
     rbind (require_handle w handle) (\<lambda>_.
     rbind (guard (\<not> (sc_workspace_key scope \<noteq> wh_key handle \<or> now \<ge> sc_expires_at scope
         \<or> operation |\<notin>| sc_operations scope)) ExecutionConflict) (\<lambda>_.
     rbind (guard (operation \<notin> {''grant'', ''accept'', ''gate'', ''control'', ''credentials''})
       ExecutionConflict) (\<lambda>_.
     rbind (case path of None \<Rightarrow> Inr () | Some p \<Rightarrow> inside_scope scope p) (\<lambda>_.
     rbind (case symlink_target of None \<Rightarrow> Inr () | Some p \<Rightarrow> inside_scope scope p) (\<lambda>_.
     rbind (guard (case network of None \<Rightarrow> True | Some n \<Rightarrow>
         n |\<in>| sc_network_destinations scope \<and> n |\<in>| ws_network_destinations (wh_spec handle)) ExecutionConflict) (\<lambda>_.
     guard (case mount of None \<Rightarrow> True | Some m \<Rightarrow> m |\<in>| sc_mounts scope \<and> m |\<in>| ws_mounts (wh_spec handle))
       ExecutionConflict))))))"

definition manifest_of :: "fake_workspace \<Rightarrow> string \<Rightarrow> artifact_manifest xres" where
  "manifest_of w key = (case fw_manifests w key of None \<Rightarrow> Inl ExecutionKeyError | Some m \<Rightarrow> Inr m)"

definition publish_artifact ::
  "fake_workspace \<Rightarrow> workspace_handle \<Rightarrow> worker_scope \<Rightarrow> artifact \<Rightarrow> int \<Rightarrow> (artifact_manifest \<times> fake_workspace) xres" where
  "publish_artifact w handle scope a now =
     rbind (access w handle scope now ''write'' (Some (ar_path a)) None None None) (\<lambda>_.
     rbind (manifest_of w (wh_key handle)) (\<lambda>previous.
     rbind (guard (\<not> list_ex (\<lambda>item. ar_path item = ar_path a \<and> item \<noteq> a) (am_artifacts previous))
       ExecutionConflict) (\<lambda>_.
     if a \<in> set (am_artifacts previous) then Inr (previous, w)
     else let manifest = \<lparr>am_workspace_key = wh_key handle, am_artifacts = am_artifacts previous @ [a]\<rparr>
       in Inr (manifest, w\<lparr>fw_manifests := (fw_manifests w)(wh_key handle \<mapsto> manifest)\<rparr>))))"

definition collect :: "fake_workspace \<Rightarrow> workspace_handle \<Rightarrow> artifact_manifest xres" where
  "collect w handle = rbind (require_handle w handle) (\<lambda>_. manifest_of w (wh_key handle))"

definition lose_workspace :: "fake_workspace \<Rightarrow> string \<Rightarrow> fake_workspace" where
  "lose_workspace w key =
     (if fw_handles w key = None then w
      else w\<lparr>fw_lost := finsert key (fw_lost w), fw_handles := (fw_handles w)(key := None)\<rparr>)"

definition reconcile_workspace :: "fake_workspace \<Rightarrow> string \<Rightarrow> string option \<Rightarrow> lookup" where
  "reconcile_workspace w key handle =
     (if key |\<in>| fw_lost w then \<lparr>lk_presence = PresenceUnknown, lk_handle = None\<rparr>
      else case fw_handles w key of
        Some found \<Rightarrow>
          if handle = None \<or> handle = Some (wh_key found)
          then \<lparr>lk_presence = PresenceFound, lk_handle = Some (wh_key found)\<rparr>
          else \<lparr>lk_presence = PresenceUnknown, lk_handle = None\<rparr>
      | None \<Rightarrow> \<lparr>lk_presence = PresenceAbsent, lk_handle = None\<rparr>)"

definition cleanup_workspace :: "fake_workspace \<Rightarrow> workspace_handle \<Rightarrow> bool \<Rightarrow> fake_workspace xres" where
  "cleanup_workspace w handle worker_settled =
     rbind (require_handle w handle) (\<lambda>_.
     rbind (guard worker_settled ExecutionConflict) (\<lambda>_.
     Inr (w\<lparr>fw_handles := (fw_handles w)(wh_key handle := None)\<rparr>)))"

section \<open>Sequences of calls\<close>

text \<open>The calls that change state. A call that raises leaves the state it had reached.\<close>

datatype workspace_call =
    FailNext
  | Materialize string workspace_spec
  | PublishArtifact workspace_handle worker_scope artifact int
  | Lose string
  | Cleanup workspace_handle bool

fun workspace_step :: "fake_workspace \<Rightarrow> workspace_call \<Rightarrow> fake_workspace xres" where
  "workspace_step w FailNext = Inr (fail_next_materialize w)"
| "workspace_step w (Materialize key spec) = Inr (snd (materialize w key spec))"
| "workspace_step w (PublishArtifact handle scope a now) = map_sum id snd (publish_artifact w handle scope a now)"
| "workspace_step w (Lose key) = Inr (lose_workspace w key)"
| "workspace_step w (Cleanup handle settled) = cleanup_workspace w handle settled"

definition workspace_inv :: "fake_workspace \<Rightarrow> bool" where
  "workspace_inv w \<longleftrightarrow>
     (\<forall>key h. fw_handles w key = Some h \<longrightarrow> wh_key h = key \<and> key |\<notin>| fw_lost w
        \<and> ws_trust_mode (wh_spec h) = TRUSTED_DEVELOPMENT
        \<and> ws_network_destinations (wh_spec h) |\<subseteq>| fw_network w \<and> ws_mounts (wh_spec h) |\<subseteq>| fw_mounts w
        \<and> fw_manifests w key \<noteq> None)
     \<and> (\<forall>key m. fw_manifests w key = Some m \<longrightarrow> am_workspace_key m = key
        \<and> distinct (map ar_path (am_artifacts m)))"

text \<open>Losing is permanent, and the policy of the workspace host is fixed.\<close>

definition workspace_extends :: "fake_workspace \<Rightarrow> fake_workspace \<Rightarrow> bool" where
  "workspace_extends w v \<longleftrightarrow> fw_lost w |\<subseteq>| fw_lost v \<and> fw_network v = fw_network w \<and> fw_mounts v = fw_mounts w"

lemma workspace_invI:
  assumes "\<And>key h. fw_handles w key = Some h \<Longrightarrow> wh_key h = key \<and> key |\<notin>| fw_lost w
        \<and> ws_trust_mode (wh_spec h) = TRUSTED_DEVELOPMENT
        \<and> ws_network_destinations (wh_spec h) |\<subseteq>| fw_network w \<and> ws_mounts (wh_spec h) |\<subseteq>| fw_mounts w
        \<and> fw_manifests w key \<noteq> None"
    and "\<And>key m. fw_manifests w key = Some m \<Longrightarrow> am_workspace_key m = key \<and> distinct (map ar_path (am_artifacts m))"
  shows "workspace_inv w"
  unfolding workspace_inv_def using assms by blast

lemma workspace_invD:
  assumes "workspace_inv w"
  shows "fw_handles w key = Some h \<Longrightarrow> wh_key h = key \<and> key |\<notin>| fw_lost w
        \<and> ws_trust_mode (wh_spec h) = TRUSTED_DEVELOPMENT
        \<and> ws_network_destinations (wh_spec h) |\<subseteq>| fw_network w \<and> ws_mounts (wh_spec h) |\<subseteq>| fw_mounts w
        \<and> fw_manifests w key \<noteq> None"
    and "fw_manifests w key = Some m \<Longrightarrow> am_workspace_key m = key \<and> distinct (map ar_path (am_artifacts m))"
  using assms unfolding workspace_inv_def by blast+

lemma new_workspace_inv: "workspace_inv (new_workspace network mounts)"
  by (simp add: workspace_inv_def new_workspace_def)

text \<open>What a successful call changes.\<close>

lemma materialize_state:
  obtains (same) "snd (materialize w key spec) = w"
    | (partial) "fw_handles w key = None"
        "snd (materialize w key spec) = w\<lparr>fw_partial_launch := False, fw_lost := finsert key (fw_lost w)\<rparr>"
    | (launched) "fw_handles w key = None" "key |\<notin>| fw_lost w" "ws_trust_mode spec = TRUSTED_DEVELOPMENT"
        "ws_network_destinations spec |\<subseteq>| fw_network w" "ws_mounts spec |\<subseteq>| fw_mounts w"
        "snd (materialize w key spec) = w\<lparr>fw_handles := (fw_handles w)(key \<mapsto> \<lparr>wh_key = key, wh_spec = spec\<rparr>),
           fw_manifests := (fw_manifests w)(key \<mapsto> \<lparr>am_workspace_key = key, am_artifacts = []\<rparr>)\<rparr>"
proof (cases "ws_trust_mode spec = TRUSTED_DEVELOPMENT \<and> ws_network_destinations spec |\<subseteq>| fw_network w
    \<and> ws_mounts spec |\<subseteq>| fw_mounts w \<and> fw_handles w key = None \<and> key |\<notin>| fw_lost w")
  case True
  then show thesis
    by (cases "fw_partial_launch w") (auto simp: materialize_def Let_def intro: partial launched)
next
  case False
  then have "snd (materialize w key spec) = w" by (auto simp: materialize_def split: option.split)
  then show thesis by (rule same)
qed

lemma publish_artifact_state:
  assumes "publish_artifact w h scope a now = Inr (m, w')"
  obtains "w' = w"
    | previous where "fw_handles w (wh_key h) = Some h" "fw_manifests w (wh_key h) = Some previous"
        "ar_path a \<notin> ar_path ` set (am_artifacts previous)"
        "w' = w\<lparr>fw_manifests := (fw_manifests w)(wh_key h \<mapsto>
           \<lparr>am_workspace_key = wh_key h, am_artifacts = am_artifacts previous @ [a]\<rparr>)\<rparr>"
proof -
  obtain previous where h: "fw_handles w (wh_key h) = Some h" and m: "fw_manifests w (wh_key h) = Some previous"
    and free: "\<not> list_ex (\<lambda>item. ar_path item = ar_path a \<and> item \<noteq> a) (am_artifacts previous)"
    using assms
    by (auto simp: publish_artifact_def access_def require_handle_def manifest_of_def res_simps split: option.splits)
  show thesis
  proof (cases "a \<in> set (am_artifacts previous)")
    case True
    then show thesis using assms m
      by (intro that(1)) (auto simp: publish_artifact_def manifest_of_def res_simps)
  next
    case False
    with free have "ar_path a \<notin> ar_path ` set (am_artifacts previous)" by (auto simp: list_ex_iff)
    moreover have "w' = w\<lparr>fw_manifests := (fw_manifests w)(wh_key h \<mapsto>
        \<lparr>am_workspace_key = wh_key h, am_artifacts = am_artifacts previous @ [a]\<rparr>)\<rparr>"
      using assms m False by (auto simp: publish_artifact_def manifest_of_def res_simps Let_def)
    ultimately show thesis using h m by (intro that(2))
  qed
qed

lemma materialize_inv:
  assumes I: "workspace_inv w"
  shows "workspace_inv (snd (materialize w key spec))"
proof (cases rule: materialize_state[of w key spec])
  case partial
  show ?thesis
  proof (rule workspace_invI)
    fix k h assume k: "fw_handles (snd (materialize w key spec)) k = Some h"
    then have "k \<noteq> key" "fw_handles w k = Some h" using partial by auto
    with workspace_invD(1)[OF I, of k h] partial(2) show "wh_key h = k \<and> k |\<notin>| fw_lost (snd (materialize w key spec))
        \<and> ws_trust_mode (wh_spec h) = TRUSTED_DEVELOPMENT
        \<and> ws_network_destinations (wh_spec h) |\<subseteq>| fw_network (snd (materialize w key spec))
        \<and> ws_mounts (wh_spec h) |\<subseteq>| fw_mounts (snd (materialize w key spec))
        \<and> fw_manifests (snd (materialize w key spec)) k \<noteq> None" by simp
  qed (use partial(2) workspace_invD(2)[OF I] in simp)
next
  case launched
  show ?thesis
  proof (rule workspace_invI)
    fix k h assume k: "fw_handles (snd (materialize w key spec)) k = Some h"
    with workspace_invD(1)[OF I, of k h] launched show "wh_key h = k \<and> k |\<notin>| fw_lost (snd (materialize w key spec))
        \<and> ws_trust_mode (wh_spec h) = TRUSTED_DEVELOPMENT
        \<and> ws_network_destinations (wh_spec h) |\<subseteq>| fw_network (snd (materialize w key spec))
        \<and> ws_mounts (wh_spec h) |\<subseteq>| fw_mounts (snd (materialize w key spec))
        \<and> fw_manifests (snd (materialize w key spec)) k \<noteq> None" by (cases "k = key") auto
  next
    fix k m assume "fw_manifests (snd (materialize w key spec)) k = Some m"
    with workspace_invD(2)[OF I, of k m] launched(6)
    show "am_workspace_key m = k \<and> distinct (map ar_path (am_artifacts m))" by (cases "k = key") auto
  qed
qed (use I in simp)

lemma workspace_inv_drop:
  assumes I: "workspace_inv w"
  shows "workspace_inv (w\<lparr>fw_handles := (fw_handles w)(key := None)\<rparr>)"
    and "workspace_inv (w\<lparr>fw_lost := finsert key (fw_lost w), fw_handles := (fw_handles w)(key := None)\<rparr>)"
  using I unfolding workspace_inv_def by simp_all

lemma workspace_step_inv:
  assumes I: "workspace_inv w" and "workspace_step w call = Inr w'"
  shows "workspace_inv w'"
proof (cases call)
  case FailNext
  with assms(2) have "w' = w\<lparr>fw_partial_launch := True\<rparr>" by (simp add: fail_next_materialize_def)
  then show ?thesis using I unfolding workspace_inv_def by simp
next
  case (Materialize key spec)
  with assms materialize_inv[OF I] show ?thesis by auto
next
  case (PublishArtifact h scope a now)
  with assms(2) obtain m where "publish_artifact w h scope a now = Inr (m, w')"
    by (cases "publish_artifact w h scope a now") auto
  then show ?thesis
  proof (cases rule: publish_artifact_state)
    case (2 previous)
    note old = workspace_invD(2)[OF I 2(2)]
    show ?thesis
    proof (rule workspace_invI)
      fix k n assume "fw_manifests w' k = Some n"
      with workspace_invD(2)[OF I, of k n] old 2(3,4)
      show "am_workspace_key n = k \<and> distinct (map ar_path (am_artifacts n))" by (cases "k = wh_key h") auto
    qed (use workspace_invD(1)[OF I] 2(4) in auto)
  qed (use I in simp)
next
  case (Lose key)
  with assms workspace_inv_drop(2)[OF I, of key] show ?thesis by (auto simp: lose_workspace_def split: if_splits)
next
  case (Cleanup h settled)
  with assms workspace_inv_drop(1)[OF I, of "wh_key h"] show ?thesis
    by (auto simp: cleanup_workspace_def res_simps)
qed

lemma workspace_step_extends:
  assumes "workspace_step w call = Inr w'"
  shows "workspace_extends w w'"
proof (cases call)
  case (Materialize key spec)
  with assms show ?thesis
    by (cases rule: materialize_state[of w key spec]) (auto simp: workspace_extends_def)
next
  case (PublishArtifact h scope a now)
  with assms obtain m where "publish_artifact w h scope a now = Inr (m, w')"
    by (cases "publish_artifact w h scope a now") auto
  then show ?thesis by (cases rule: publish_artifact_state) (auto simp: workspace_extends_def)
qed (use assms in \<open>auto simp: workspace_extends_def fail_next_materialize_def lose_workspace_def
  cleanup_workspace_def res_simps split: if_splits\<close>)

interpretation fake_workspaces: recording_machine workspace_step "\<lambda>_. True" "\<lambda>w. \<exists>n m. w = new_workspace n m"
  workspace_inv workspace_extends
  by unfold_locales
    (auto simp: new_workspace_inv intro: workspace_step_inv workspace_step_extends,
     auto simp: workspace_extends_def)

section \<open>Properties\<close>

text \<open>A workspace whose outcome became unknown, by loss or by a partial launch, stays unknown: after any
  further calls it can be neither reconciled to found or absent nor materialised again, and no manifest
  can be collected under its key.\<close>

theorem lost_workspace_stays_unknown:
  assumes "reaches workspace_step (\<lambda>_. True) (new_workspace network mounts) w"
    and "key |\<in>| fw_lost w" and "reaches workspace_step (\<lambda>_. True) w w'"
  shows "reconcile_workspace w' key handle = \<lparr>lk_presence = PresenceUnknown, lk_handle = None\<rparr>
    \<and> (\<exists>e. materialize w' key spec = (Inl e, w')) \<and> (wh_key h = key \<longrightarrow> collect w' h = Inl ExecutionConflict)"
proof -
  have I: "workspace_inv w" using fake_workspaces.reachable_inv[OF _ assms(1)] by blast
  have I': "workspace_inv w'" by (rule fake_workspaces.reaches_inv[OF assms(3) I])
  have lost: "key |\<in>| fw_lost w'"
    using fake_workspaces.reaches_extends[OF assms(3) I] assms(2) by (auto simp: workspace_extends_def)
  have none: "fw_handles w' key = None"
    using workspace_invD(1)[OF I', of key] lost by (cases "fw_handles w' key") auto
  show ?thesis using lost none
    by (simp add: reconcile_workspace_def materialize_def collect_def require_handle_def guard_def)
qed

text \<open>Confinement: an access that is allowed is for a live handle, before the scope expires, for an
  operation of the scope that is no control action, and its path lies, component by component, at or
  below a root of the scope and never climbs with a parent component.\<close>

theorem access_is_confined:
  assumes "access w h scope now operation (Some p) symlink_target network mount = Inr ()"
  shows "fw_handles w (wh_key h) = Some h \<and> now < sc_expires_at scope \<and> operation |\<in>| sc_operations scope
    \<and> operation \<notin> {''grant'', ''accept'', ''gate'', ''control'', ''credentials''}
    \<and> ''..'' \<notin> set (split_on CHR ''/'' p)
    \<and> (\<exists>root. root |\<in>| sc_paths scope \<and> prefix (split_on CHR ''/'' root) (split_on CHR ''/'' p))"
proof -
  from assms have "inside_scope scope p = Inr ()" by (auto simp: access_def res_simps)
  then obtain root where "root |\<in>| sc_paths scope" "p = root \<or> prefix (root @ ''/'') p"
    and valid: "validate_relative_path p = Inr ()"
    by (auto simp: inside_scope_def res_simps)
  then have "\<exists>root. root |\<in>| sc_paths scope \<and> prefix (split_on CHR ''/'' root) (split_on CHR ''/'' p)"
    using strict_extension_split[of root "CHR ''/''" p] by (auto simp: strict_prefix_def)
  moreover have "''..'' \<notin> set (split_on CHR ''/'' p)" using valid by (auto simp: validate_relative_path_iff)
  ultimately show ?thesis using assms by (auto simp: access_def require_handle_def res_simps)
qed

section \<open>Witnesses\<close>

definition demo_workspace_spec :: workspace_spec where
  "demo_workspace_spec = \<lparr>ws_repository = ''r'', ws_base_revision = ''b'', ws_overlays = [],
     ws_toolchain_digest = ''t'', ws_enforcement_profile = ''e'', ws_trust_mode = TRUSTED_DEVELOPMENT,
     ws_network_destinations = {||}, ws_mounts = {||}\<rparr>"

definition demo_handle :: workspace_handle where
  "demo_handle = \<lparr>wh_key = ''k'', wh_spec = demo_workspace_spec\<rparr>"

definition demo_scope :: worker_scope where
  "demo_scope = \<lparr>sc_workspace_key = ''k'', sc_attempt_id = ''a'', sc_fence = 1, sc_expires_at = 10,
     sc_paths = {|''src''|}, sc_operations = {|''write''|}, sc_network_destinations = {||}, sc_mounts = {||}\<rparr>"

lemma demo_materialized:
  "snd (materialize (new_workspace {||} {||}) ''k'' demo_workspace_spec) =
    \<lparr>fw_network = {||}, fw_mounts = {||}, fw_handles = [''k'' \<mapsto> demo_handle],
     fw_manifests = [''k'' \<mapsto> \<lparr>am_workspace_key = ''k'', am_artifacts = []\<rparr>], fw_lost = {||}, fw_partial_launch = False\<rparr>"
  by (simp add: materialize_def new_workspace_def demo_workspace_spec_def demo_handle_def Let_def)

lemma demo_partial:
  "reaches workspace_step (\<lambda>_. True) (new_workspace {||} {||})
    ((new_workspace {||} {||})\<lparr>fw_lost := {|''k''|}\<rparr>)"
  by (rule reaches_run[of _ _ "[FailNext, Materialize ''k'' demo_workspace_spec]"])
    (simp_all add: materialize_def new_workspace_def demo_workspace_spec_def fail_next_materialize_def)

theorem lost_workspace_stays_unknown_witness:
  "reconcile_workspace ((new_workspace {||} {||})\<lparr>fw_lost := {|''k''|}\<rparr>) ''k'' None =
    \<lparr>lk_presence = PresenceUnknown, lk_handle = None\<rparr>"
  using lost_workspace_stays_unknown[OF demo_partial _ reaches_refl, of "''k''" None] by simp

lemma demo_inside: "inside_scope demo_scope ''src/main.py'' = Inr ()"
proof -
  have "validate_relative_path ''src/main.py'' = Inr ()" by code_simp
  moreover have "prefix (''src'' @ ''/'') ''src/main.py''" by simp
  ultimately show ?thesis by (simp add: inside_scope_def demo_scope_def)
qed

lemma demo_access:
  "access (snd (materialize (new_workspace {||} {||}) ''k'' demo_workspace_spec)) demo_handle demo_scope 5 ''write''
    (Some ''src/main.py'') None None None = Inr ()"
proof -
  have "require_handle (snd (materialize (new_workspace {||} {||}) ''k'' demo_workspace_spec)) demo_handle = Inr ()"
    unfolding demo_materialized by (simp add: require_handle_def demo_handle_def)
  then show ?thesis by (simp add: access_def demo_inside) (simp add: demo_scope_def demo_handle_def)
qed

theorem access_is_confined_witness:
  "\<exists>root. root |\<in>| sc_paths demo_scope \<and> prefix (split_on CHR ''/'' root) (split_on CHR ''/'' ''src/main.py'')"
  using access_is_confined[OF demo_access] by (elim conjE)

end
