(* ===== verification/Fake_Runtime.thy ===== *)
theory Fake_Runtime
  imports Execution_Values Command_Machine
begin

text \<open>
  \<open>FakeRuntime\<close> of adapters/fake_execution.py. The program keeps one mutable \<open>_Execution\<close> object per effect
  key and refers to it from two dictionaries, by key and by handle; the model is the store of these
  objects (\<open>rt_by_key\<close>, the effect key as address) and the handles that point into it
  (\<open>rt_by_handle\<close>). \<open>H\<close> is the hash behind the digest of an attempt.
\<close>

record execution =
  ex_request :: execution_request
  ex_observation :: runtime_observation
  ex_candidate :: "candidate option"

record fake_runtime =
  rt_recoverable :: bool
  rt_identity_supported :: bool
  rt_by_key :: "string \<rightharpoonup> execution"
  rt_by_handle :: "string \<rightharpoonup> string"
  rt_lost :: "string fset"

definition new_runtime :: "bool \<Rightarrow> bool \<Rightarrow> fake_runtime" where
  "new_runtime recoverable identity_supported = \<lparr>rt_recoverable = recoverable,
     rt_identity_supported = identity_supported, rt_by_key = Map.empty, rt_by_handle = Map.empty, rt_lost = {||}\<rparr>"

abbreviation request_key :: "execution_request \<Rightarrow> string" where
  "request_key r \<equiv> ok_effect_key (er_operation r)"

definition start_runtime :: "fake_runtime \<Rightarrow> execution_request \<Rightarrow> (string \<times> fake_runtime) xres" where
  "start_runtime rt request =
     (let key = request_key request in
      case rt_by_key rt key of
        Some previous \<Rightarrow>
          if ex_request previous \<noteq> request then Inl ExecutionConflict
          else Inr (ro_handle (ex_observation previous), rt)
      | None \<Rightarrow>
          let handle = ''fake:'' @ key;
              identity = (if rt_identity_supported rt then er_identity request
                else (er_identity request)\<lparr>ri_resolved := None, ri_observed := None\<rparr>);
              observation = \<lparr>ro_handle = handle, ro_activity = ActivityRunning, ro_observed_at = 0,
                ro_fresh_until = 0, ro_identity = identity, ro_cancellation_requested = False,
                ro_owned_group_settled = None, ro_owned_group_reference = None\<rparr>;
              ex = \<lparr>ex_request = request, ex_observation = observation, ex_candidate = None\<rparr>
          in Inr (handle, rt\<lparr>rt_by_key := (rt_by_key rt)(key \<mapsto> ex),
               rt_by_handle := (rt_by_handle rt)(handle \<mapsto> key)\<rparr>))"

text \<open>The object a handle points to, with its address; \<open>missing\<close> is what the caller raises for an
  unknown handle (\<open>KeyError\<close> of a subscript, or its own exception).\<close>

definition deref :: "execution_error \<Rightarrow> fake_runtime \<Rightarrow> string \<Rightarrow> (string \<times> execution) xres" where
  "deref missing rt handle = (case rt_by_handle rt handle of
     None \<Rightarrow> Inl missing
   | Some key \<Rightarrow> (case rt_by_key rt key of None \<Rightarrow> Inl missing | Some ex \<Rightarrow> Inr (key, ex)))"

definition store_execution :: "fake_runtime \<Rightarrow> string \<Rightarrow> execution \<Rightarrow> fake_runtime" where
  "store_execution rt key ex = rt\<lparr>rt_by_key := (rt_by_key rt)(key \<mapsto> ex)\<rparr>"

definition observe_runtime :: "fake_runtime \<Rightarrow> string \<Rightarrow> int \<Rightarrow> runtime_observation xres" where
  "observe_runtime rt handle now =
     rbind (deref ExecutionConflict rt handle) (\<lambda>(key, ex).
     let observation = ex_observation ex in
     if ro_activity observation \<noteq> ActivityTerminal \<and> now > ro_fresh_until observation
     then Inr (observation\<lparr>ro_activity := ActivityUnknown\<rparr>)
     else Inr observation)"

definition progress_runtime ::
  "fake_runtime \<Rightarrow> string \<Rightarrow> int \<Rightarrow> int \<Rightarrow> bool \<Rightarrow> (runtime_observation \<times> fake_runtime) xres" where
  "progress_runtime rt handle now fresh_for waiting =
     rbind (deref ExecutionKeyError rt handle) (\<lambda>(key, ex).
     rbind (guard (\<not> (ro_activity (ex_observation ex) = ActivityTerminal \<or> fresh_for < 0)) ExecutionConflict) (\<lambda>_.
     let observation = (ex_observation ex)\<lparr>
           ro_activity := (if waiting then ActivityWaiting else ActivityRunning),
           ro_observed_at := now, ro_fresh_until := now + fresh_for\<rparr>
     in Inr (observation, store_execution rt key (ex\<lparr>ex_observation := observation\<rparr>))))"

definition publish_candidate ::
  "hash \<Rightarrow> fake_runtime \<Rightarrow> string \<Rightarrow> worker_scope \<Rightarrow> candidate \<Rightarrow> int \<Rightarrow> fake_runtime xres" where
  "publish_candidate H rt handle scope cand now =
     rbind (deref ExecutionKeyError rt handle) (\<lambda>(key, ex).
     let request = ex_request ex in
     rbind (guard (\<not> (sc_attempt_id scope \<noteq> as_attempt_id (er_attempt request)
         \<or> sc_workspace_key scope \<noteq> wh_key (er_workspace request)
         \<or> sc_fence scope \<noteq> er_fence request \<or> now \<ge> sc_expires_at scope
         \<or> ''publish_candidate'' |\<notin>| sc_operations scope)) ExecutionConflict) (\<lambda>_.
     rbind (guard (\<not> (cd_attempt_id cand \<noteq> as_attempt_id (er_attempt request)
         \<or> cd_spec_digest cand \<noteq> attempt_digest H (er_attempt request))) ExecutionConflict) (\<lambda>_.
     rbind (guard (am_workspace_key (cd_artifacts cand) = wh_key (er_workspace request)) ExecutionConflict) (\<lambda>_.
     case ex_candidate ex of
       Some c \<Rightarrow> if c \<noteq> cand then Inl ExecutionConflict else Inr rt
     | None \<Rightarrow> Inr (store_execution rt key (ex\<lparr>ex_candidate := Some cand,
         ex_observation := (ex_observation ex)\<lparr>ro_activity := ActivityTerminal, ro_observed_at := now,
           ro_fresh_until := now\<rparr>\<rparr>))))))"

definition runtime_candidate :: "fake_runtime \<Rightarrow> string \<Rightarrow> candidate option xres" where
  "runtime_candidate rt handle = rbind (deref ExecutionKeyError rt handle) (\<lambda>(key, ex). Inr (ex_candidate ex))"

definition cancel_runtime :: "fake_runtime \<Rightarrow> string \<Rightarrow> (runtime_observation \<times> fake_runtime) xres" where
  "cancel_runtime rt handle =
     rbind (deref ExecutionKeyError rt handle) (\<lambda>(key, ex).
     let observation = (ex_observation ex)\<lparr>ro_cancellation_requested := True\<rparr>
     in Inr (observation, store_execution rt key (ex\<lparr>ex_observation := observation\<rparr>)))"

definition lose_runtime :: "fake_runtime \<Rightarrow> string \<Rightarrow> fake_runtime xres" where
  "lose_runtime rt handle =
     rbind (deref ExecutionKeyError rt handle) (\<lambda>(key, ex).
     Inr (rt\<lparr>rt_by_handle := (rt_by_handle rt)(handle := None),
       rt_lost := finsert (request_key (ex_request ex)) (rt_lost rt)\<rparr>))"

definition reconcile_runtime :: "fake_runtime \<Rightarrow> operation_key \<Rightarrow> string option \<Rightarrow> lookup xres" where
  "reconcile_runtime rt operation handle =
     (if \<not> rt_recoverable rt then Inr \<lparr>lk_presence = PresenceUnknown, lk_handle = None\<rparr>
      else case rt_by_key rt (ok_effect_key operation) of
        None \<Rightarrow> Inr \<lparr>lk_presence = PresenceAbsent, lk_handle = None\<rparr>
      | Some ex \<Rightarrow>
          if er_operation (ex_request ex) \<noteq> operation then Inl ExecutionConflict
          else if ok_effect_key operation |\<in>| rt_lost rt then Inr \<lparr>lk_presence = PresenceUnknown, lk_handle = None\<rparr>
          else if handle \<noteq> None \<and> handle \<noteq> Some (ro_handle (ex_observation ex))
          then Inr \<lparr>lk_presence = PresenceUnknown, lk_handle = None\<rparr>
          else Inr \<lparr>lk_presence = PresenceFound, lk_handle = Some (ro_handle (ex_observation ex))\<rparr>)"

section \<open>Sequences of calls\<close>

datatype runtime_call =
    Start execution_request
  | Advance string int int bool
  | Publish string worker_scope candidate int
  | Cancel string
  | LoseHandle string

fun runtime_step :: "hash \<Rightarrow> fake_runtime \<Rightarrow> runtime_call \<Rightarrow> fake_runtime xres" where
  "runtime_step H rt (Start request) = map_sum id snd (start_runtime rt request)"
| "runtime_step H rt (Advance handle now fresh_for waiting) =
     map_sum id snd (progress_runtime rt handle now fresh_for waiting)"
| "runtime_step H rt (Publish handle scope cand now) = publish_candidate H rt handle scope cand now"
| "runtime_step H rt (Cancel handle) = map_sum id snd (cancel_runtime rt handle)"
| "runtime_step H rt (LoseHandle handle) = lose_runtime rt handle"

text \<open>An execution filed under a key: it is for that effect, its handle names the key, it is terminal
  exactly when it has a candidate, and the candidate is for its attempt and workspace.\<close>

definition execution_ok :: "hash \<Rightarrow> string \<Rightarrow> execution \<Rightarrow> bool" where
  "execution_ok H key ex \<longleftrightarrow> request_key (ex_request ex) = key
     \<and> ro_handle (ex_observation ex) = ''fake:'' @ key
     \<and> (ro_activity (ex_observation ex) = ActivityTerminal \<longleftrightarrow> ex_candidate ex \<noteq> None)
     \<and> (\<forall>c. ex_candidate ex = Some c \<longrightarrow> cd_attempt_id c = as_attempt_id (er_attempt (ex_request ex))
          \<and> cd_spec_digest c = attempt_digest H (er_attempt (ex_request ex))
          \<and> am_workspace_key (cd_artifacts c) = wh_key (er_workspace (ex_request ex)))"

definition runtime_inv :: "hash \<Rightarrow> fake_runtime \<Rightarrow> bool" where
  "runtime_inv H rt \<longleftrightarrow> (\<forall>key ex. rt_by_key rt key = Some ex \<longrightarrow> execution_ok H key ex)
     \<and> (\<forall>handle key. rt_by_handle rt handle = Some key \<longrightarrow>
          handle = ''fake:'' @ key \<and> rt_by_key rt key \<noteq> None \<and> key |\<notin>| rt_lost rt)
     \<and> (\<forall>key. rt_by_key rt key \<noteq> None \<longrightarrow> rt_by_handle rt (''fake:'' @ key) = None \<longrightarrow> key |\<in>| rt_lost rt)
     \<and> (\<forall>key. key |\<in>| rt_lost rt \<longrightarrow> rt_by_key rt key \<noteq> None)"

definition execution_evolves :: "execution \<Rightarrow> execution \<Rightarrow> bool" where
  "execution_evolves ex ex' \<longleftrightarrow> ex_request ex' = ex_request ex
     \<and> (ex_candidate ex \<noteq> None \<longrightarrow> ex_candidate ex' = ex_candidate ex)
     \<and> (ro_cancellation_requested (ex_observation ex) \<longrightarrow> ro_cancellation_requested (ex_observation ex'))"

definition runtime_extends :: "fake_runtime \<Rightarrow> fake_runtime \<Rightarrow> bool" where
  "runtime_extends rt rt' \<longleftrightarrow> rt_lost rt |\<subseteq>| rt_lost rt' \<and> rt_recoverable rt' = rt_recoverable rt
     \<and> (\<forall>key ex. rt_by_key rt key = Some ex \<longrightarrow> (\<exists>ex'. rt_by_key rt' key = Some ex' \<and> execution_evolves ex ex'))"

lemma deref_eq_Inr:
  "deref missing rt handle = Inr (key, ex) \<longleftrightarrow> rt_by_handle rt handle = Some key \<and> rt_by_key rt key = Some ex"
  by (auto simp: deref_def split: option.splits)

lemma runtime_step_cases [consumes 1, case_names same started updated lost]:
  assumes "runtime_step H rt call = Inr rt'"
  obtains (same) "rt' = rt"
    | (started) key ex where "rt_by_key rt key = None" "execution_ok H key ex" "ex_candidate ex = None"
        "rt' = rt\<lparr>rt_by_key := (rt_by_key rt)(key \<mapsto> ex), rt_by_handle := (rt_by_handle rt)(''fake:'' @ key \<mapsto> key)\<rparr>"
    | (updated) key ex ex' where "rt_by_key rt key = Some ex" "execution_ok H key ex \<Longrightarrow> execution_ok H key ex'"
        "execution_evolves ex ex'" "rt' = store_execution rt key ex'"
    | (lost) handle key ex where "rt_by_handle rt handle = Some key" "rt_by_key rt key = Some ex"
        "rt' = rt\<lparr>rt_by_handle := (rt_by_handle rt)(handle := None),
           rt_lost := finsert (request_key (ex_request ex)) (rt_lost rt)\<rparr>"
proof (cases call)
  case (Start request)
  show thesis
  proof (cases "rt_by_key rt (request_key request)")
    case None
    with assms Start show thesis
      by (intro started[OF None]) (auto simp: start_runtime_def Let_def execution_ok_def)
  next
    case (Some ex)
    with assms Start show thesis by (intro same) (auto simp: start_runtime_def Let_def split: if_splits)
  qed
next
  case (Advance handle now fresh_for waiting)
  with assms obtain key ex where ex: "rt_by_handle rt handle = Some key" "rt_by_key rt key = Some ex"
    and open': "ro_activity (ex_observation ex) \<noteq> ActivityTerminal"
    and rt': "rt' = store_execution rt key (ex\<lparr>ex_observation := (ex_observation ex)\<lparr>
           ro_activity := (if waiting then ActivityWaiting else ActivityRunning),
           ro_observed_at := now, ro_fresh_until := now + fresh_for\<rparr>\<rparr>)"
    by (auto simp: progress_runtime_def res_simps deref_eq_Inr Let_def)
  show thesis
    by (rule updated[OF ex(2) _ _ rt']) (use open' in \<open>auto simp: execution_ok_def execution_evolves_def\<close>)
next
  case (Publish handle scope cand now)
  with assms obtain key ex where ex: "rt_by_handle rt handle = Some key" "rt_by_key rt key = Some ex"
    and binds: "cd_attempt_id cand = as_attempt_id (er_attempt (ex_request ex))"
      "cd_spec_digest cand = attempt_digest H (er_attempt (ex_request ex))"
      "am_workspace_key (cd_artifacts cand) = wh_key (er_workspace (ex_request ex))"
    and rest: "(case ex_candidate ex of
       Some c \<Rightarrow> if c \<noteq> cand then Inl ExecutionConflict else Inr rt
     | None \<Rightarrow> Inr (store_execution rt key (ex\<lparr>ex_candidate := Some cand,
         ex_observation := (ex_observation ex)\<lparr>ro_activity := ActivityTerminal, ro_observed_at := now,
           ro_fresh_until := now\<rparr>\<rparr>))) = Inr rt'"
    by (auto simp: publish_candidate_def res_simps deref_eq_Inr Let_def)
  show thesis
  proof (cases "ex_candidate ex")
    case None
    with rest have rt': "rt' = store_execution rt key (ex\<lparr>ex_candidate := Some cand,
         ex_observation := (ex_observation ex)\<lparr>ro_activity := ActivityTerminal, ro_observed_at := now,
           ro_fresh_until := now\<rparr>\<rparr>)" by simp
    show thesis
      by (rule updated[OF ex(2) _ _ rt']) (use binds None in \<open>auto simp: execution_ok_def execution_evolves_def\<close>)
  next
    case (Some c)
    with rest show thesis by (intro same) (auto split: if_splits)
  qed
next
  case (Cancel handle)
  with assms obtain key ex where ex: "rt_by_handle rt handle = Some key" "rt_by_key rt key = Some ex"
    and rt': "rt' = store_execution rt key (ex\<lparr>ex_observation := (ex_observation ex)\<lparr>ro_cancellation_requested := True\<rparr>\<rparr>)"
    by (auto simp: cancel_runtime_def res_simps deref_eq_Inr Let_def)
  show thesis
    by (rule updated[OF ex(2) _ _ rt']) (auto simp: execution_ok_def execution_evolves_def)
next
  case (LoseHandle handle)
  with assms show thesis by (auto simp: lose_runtime_def res_simps deref_eq_Inr intro: lost)
qed

lemma runtime_invI:
  assumes "\<And>key ex. rt_by_key rt key = Some ex \<Longrightarrow> execution_ok H key ex"
    and "\<And>handle key. rt_by_handle rt handle = Some key \<Longrightarrow>
      handle = ''fake:'' @ key \<and> rt_by_key rt key \<noteq> None \<and> key |\<notin>| rt_lost rt"
    and "\<And>key. rt_by_key rt key \<noteq> None \<Longrightarrow> rt_by_handle rt (''fake:'' @ key) = None \<Longrightarrow> key |\<in>| rt_lost rt"
    and "\<And>key. key |\<in>| rt_lost rt \<Longrightarrow> rt_by_key rt key \<noteq> None"
  shows "runtime_inv H rt"
  unfolding runtime_inv_def using assms by meson

lemma runtime_invD:
  assumes "runtime_inv H rt"
  shows "rt_by_key rt key = Some ex \<Longrightarrow> execution_ok H key ex"
    and "rt_by_handle rt handle = Some key \<Longrightarrow>
      handle = ''fake:'' @ key \<and> rt_by_key rt key \<noteq> None \<and> key |\<notin>| rt_lost rt"
    and "rt_by_key rt key \<noteq> None \<Longrightarrow> rt_by_handle rt (''fake:'' @ key) = None \<Longrightarrow> key |\<in>| rt_lost rt"
    and "key |\<in>| rt_lost rt \<Longrightarrow> rt_by_key rt key \<noteq> None"
  using assms unfolding runtime_inv_def by meson+

lemma new_runtime_inv: "runtime_inv H (new_runtime r i)"
  by (simp add: runtime_inv_def new_runtime_def)

lemma runtime_step_inv:
  assumes I: "runtime_inv H rt" and "runtime_step H rt call = Inr rt'"
  shows "runtime_inv H rt'"
  using assms(2)
proof (cases rule: runtime_step_cases)
  case (started key ex)
  have fresh: "key |\<notin>| rt_lost rt" using runtime_invD(4)[OF I, of key] started(1) by blast
  show ?thesis
  proof (rule runtime_invI)
    fix k e assume "rt_by_key rt' k = Some e"
    then show "execution_ok H k e"
      using runtime_invD(1)[OF I, of k e] started by (cases "k = key") simp_all
  next
    fix h k assume "rt_by_handle rt' h = Some k"
    then show "h = ''fake:'' @ k \<and> rt_by_key rt' k \<noteq> None \<and> k |\<notin>| rt_lost rt'"
      using runtime_invD(2)[OF I, of h k] started fresh by (cases "h = ''fake:'' @ key") simp_all
  next
    fix k assume "rt_by_key rt' k \<noteq> None" "rt_by_handle rt' (''fake:'' @ k) = None"
    then show "k |\<in>| rt_lost rt'"
      using runtime_invD(3)[OF I, of k] started by (cases "k = key") simp_all
  next
    fix k assume "k |\<in>| rt_lost rt'"
    then show "rt_by_key rt' k \<noteq> None" using runtime_invD(4)[OF I, of k] started by simp
  qed
next
  case (updated key ex ex')
  show ?thesis
  proof (rule runtime_invI)
    fix k e assume "rt_by_key rt' k = Some e"
    then show "execution_ok H k e"
      using runtime_invD(1)[OF I, of k] updated by (cases "k = key") (simp_all add: store_execution_def)
  next
    fix h k assume "rt_by_handle rt' h = Some k"
    then show "h = ''fake:'' @ k \<and> rt_by_key rt' k \<noteq> None \<and> k |\<notin>| rt_lost rt'"
      using runtime_invD(2)[OF I, of h k] updated(4) by (simp add: store_execution_def)
  next
    fix k assume "rt_by_key rt' k \<noteq> None" "rt_by_handle rt' (''fake:'' @ k) = None"
    then show "k |\<in>| rt_lost rt'"
      using runtime_invD(3)[OF I, of k] updated(1,4) by (cases "k = key") (simp_all add: store_execution_def)
  next
    fix k assume "k |\<in>| rt_lost rt'"
    then show "rt_by_key rt' k \<noteq> None" using runtime_invD(4)[OF I, of k] updated(4) by (simp add: store_execution_def)
  qed
next
  case (lost handle key ex)
  have key: "request_key (ex_request ex) = key" using runtime_invD(1)[OF I lost(2)] by (simp add: execution_ok_def)
  have handle: "handle = ''fake:'' @ key" using runtime_invD(2)[OF I lost(1)] by blast
  show ?thesis
  proof (rule runtime_invI)
    fix k e assume "rt_by_key rt' k = Some e"
    then show "execution_ok H k e" using runtime_invD(1)[OF I, of k e] lost(3) by simp
  next
    fix h k assume h: "rt_by_handle rt' h = Some k"
    then have "h \<noteq> handle" "rt_by_handle rt h = Some k" using lost(3) by (auto split: if_splits)
    with runtime_invD(2)[OF I, of h k] key handle lost(3)
    show "h = ''fake:'' @ k \<and> rt_by_key rt' k \<noteq> None \<and> k |\<notin>| rt_lost rt'" by auto
  next
    fix k assume "rt_by_key rt' k \<noteq> None" "rt_by_handle rt' (''fake:'' @ k) = None"
    then show "k |\<in>| rt_lost rt'"
      using runtime_invD(3)[OF I, of k] key handle lost(3) by (cases "k = key") simp_all
  next
    fix k assume "k |\<in>| rt_lost rt'"
    then show "rt_by_key rt' k \<noteq> None" using runtime_invD(4)[OF I, of k] key lost(2,3) by auto
  qed
qed (use I in simp)

lemma execution_evolves_refl [simp]: "execution_evolves ex ex"
  by (simp add: execution_evolves_def)

lemma runtime_step_extends:
  assumes "runtime_step H rt call = Inr rt'"
  shows "runtime_extends rt rt'"
  using assms by (cases rule: runtime_step_cases) (auto simp: runtime_extends_def store_execution_def)

lemma runtime_extends_trans:
  assumes "runtime_extends r s" and "runtime_extends s t"
  shows "runtime_extends r t"
proof -
  have "\<exists>e'. rt_by_key t key = Some e' \<and> execution_evolves ex e'" if r: "rt_by_key r key = Some ex" for key ex
  proof -
    obtain f where f: "rt_by_key s key = Some f" "execution_evolves ex f"
      using r assms(1) unfolding runtime_extends_def by blast
    then obtain g where "rt_by_key t key = Some g" "execution_evolves f g"
      using assms(2) unfolding runtime_extends_def by blast
    with f(2) show ?thesis by (auto simp: execution_evolves_def)
  qed
  then show ?thesis using assms unfolding runtime_extends_def by auto
qed

interpretation fake_runtimes: recording_machine "runtime_step H" "\<lambda>_. True" "\<lambda>rt. \<exists>r i. rt = new_runtime r i"
  "runtime_inv H" runtime_extends for H
  by unfold_locales
    (auto simp: new_runtime_inv intro: runtime_step_inv runtime_step_extends runtime_extends_trans,
     auto simp: runtime_extends_def)

section \<open>Properties\<close>

text \<open>A runtime that has reached some state by any sequence of calls performs each effect once: after a
  successful start, starting the same request again returns the same handle and changes nothing, and a
  different request under the same effect key is refused, now and after any further calls.\<close>

theorem effect_starts_once:
  assumes "reaches (runtime_step H) (\<lambda>_. True) (new_runtime r i) rt"
    and "start_runtime rt request = Inr (handle, rt')"
    and "reaches (runtime_step H) (\<lambda>_. True) rt' rt''"
  shows "start_runtime rt'' request = Inr (handle, rt'')
    \<and> (request_key other = request_key request \<and> other \<noteq> request \<longrightarrow> start_runtime rt'' other = Inl ExecutionConflict)"
proof -
  have I: "runtime_inv H rt" using fake_runtimes.reachable_inv[OF _ assms(1)] by blast
  have step: "runtime_step H rt (Start request) = Inr rt'" using assms(2) by simp
  have I': "runtime_inv H rt'" by (rule runtime_step_inv[OF I step])
  obtain ex where ex: "rt_by_key rt' (request_key request) = Some ex" "ex_request ex = request"
    using assms(2) by (auto simp: start_runtime_def Let_def split: option.splits if_splits)
  have h: "handle = ''fake:'' @ request_key request"
    using assms(2) runtime_invD(1)[OF I, of "request_key request"]
    by (auto simp: start_runtime_def Let_def execution_ok_def split: option.splits if_splits)
  obtain ex' where ex': "rt_by_key rt'' (request_key request) = Some ex'" "ex_request ex' = request"
    using fake_runtimes.reaches_extends[OF assms(3) I'] ex
    unfolding runtime_extends_def execution_evolves_def by metis
  have "ro_handle (ex_observation ex') = handle"
    using runtime_invD(1)[OF fake_runtimes.reaches_inv[OF assms(3) I'] ex'(1)] h by (simp add: execution_ok_def)
  with ex' show ?thesis by (simp add: start_runtime_def)
qed

text \<open>A published candidate is for the attempt and the workspace of the execution it was published for,
  is what every later read of that execution returns, and ends the activity for good.\<close>

theorem published_candidate_is_final:
  assumes "reaches (runtime_step H) (\<lambda>_. True) (new_runtime r i) rt"
    and "publish_candidate H rt handle scope cand now = Inr rt'"
    and "reaches (runtime_step H) (\<lambda>_. True) rt' rt''"
    and "deref ExecutionKeyError rt'' handle = Inr (key, ex)"
  shows "runtime_candidate rt'' handle = Inr (Some cand)
    \<and> cd_spec_digest cand = attempt_digest H (er_attempt (ex_request ex))
    \<and> am_workspace_key (cd_artifacts cand) = wh_key (er_workspace (ex_request ex))
    \<and> progress_runtime rt'' handle later fresh_for waiting = Inl ExecutionConflict"
proof -
  have I: "runtime_inv H rt" using fake_runtimes.reachable_inv[OF _ assms(1)] by blast
  have step: "runtime_step H rt (Publish handle scope cand now) = Inr rt'" using assms(2) by simp
  have I': "runtime_inv H rt'" by (rule runtime_step_inv[OF I step])
  have I'': "runtime_inv H rt''" by (rule fake_runtimes.reaches_inv[OF assms(3) I'])
  have key: "rt_by_handle rt'' handle = Some key" "rt_by_key rt'' key = Some ex"
    using assms(4) by (auto simp: deref_eq_Inr)
  obtain k e where "rt_by_handle rt handle = Some k" "rt_by_key rt' k = Some e" "ex_candidate e = Some cand"
    using assms(2) by (auto simp: publish_candidate_def res_simps deref_eq_Inr Let_def store_execution_def
        split: option.splits if_splits)
  moreover have "k = key" if "rt_by_handle rt handle = Some k"
    using runtime_invD(2)[OF I that] runtime_invD(2)[OF I'' key(1)] by simp
  ultimately obtain e where "rt_by_key rt' key = Some e" "ex_candidate e = Some cand" by blast
  then have cand: "ex_candidate ex = Some cand"
    using fake_runtimes.reaches_extends[OF assms(3) I'] key(2)
    unfolding runtime_extends_def execution_evolves_def by (metis option.distinct(1) option.inject)
  have ok: "execution_ok H key ex" by (rule runtime_invD(1)[OF I'' key(2)])
  have "runtime_candidate rt'' handle = Inr (Some cand)"
    using key cand by (simp add: runtime_candidate_def deref_def)
  moreover have "progress_runtime rt'' handle later fresh_for waiting = Inl ExecutionConflict"
    using key cand ok by (simp add: progress_runtime_def deref_def execution_ok_def)
  ultimately show ?thesis using ok cand by (simp add: execution_ok_def)
qed

section \<open>Witnesses\<close>

definition demo_run_attempt :: attempt_spec where
  "demo_run_attempt = \<lparr>as_attempt_id = ''a'', as_program_id = ''p'', as_work_unit_id = ''w'',
     as_spec_revision = 1, as_spec_digest = ''s'', as_effective_inputs = [], as_allocation_reference = Some ''l'',
     as_agent_definition_reference = Some ''v'', as_workspace_reference = Some ''k'',
     as_context_reference = Some ''c'', as_remediation_of = None\<rparr>"

definition demo_request :: execution_request where
  "demo_request = \<lparr>er_operation = \<lparr>ok_operation_id = ''op'', ok_effect_key = ''e'', ok_request_digest = ''q''\<rparr>,
     er_attempt = demo_run_attempt,
     er_workspace = \<lparr>wh_key = ''k'', wh_spec = \<lparr>ws_repository = ''r'', ws_base_revision = ''b'', ws_overlays = [],
       ws_toolchain_digest = ''t'', ws_enforcement_profile = ''e'', ws_trust_mode = TRUSTED_DEVELOPMENT,
       ws_network_destinations = {||}, ws_mounts = {||}\<rparr>\<rparr>,
     er_context_reference = ''c'', er_allocation_reference = ''l'', er_capability_reference = ''x'',
     er_identity = \<lparr>ri_requested = ''m'', ri_resolved = None, ri_observed = None, ri_agent_definition_version = ''v'',
       ri_requested_provider = None, ri_resolved_provider = None, ri_observed_provider = None,
       ri_requested_effort = None, ri_resolved_effort = None, ri_observed_effort = None\<rparr>,
     er_fence = 1, er_allocation = None\<rparr>"

definition demo_execution :: execution where
  "demo_execution = \<lparr>ex_request = demo_request, ex_observation = \<lparr>ro_handle = ''fake:e'',
     ro_activity = ActivityRunning, ro_observed_at = 0, ro_fresh_until = 0, ro_identity = er_identity demo_request,
     ro_cancellation_requested = False, ro_owned_group_settled = None, ro_owned_group_reference = None\<rparr>,
     ex_candidate = None\<rparr>"

definition demo_runtime :: fake_runtime where
  "demo_runtime = (new_runtime True True)\<lparr>rt_by_key := [''e'' \<mapsto> demo_execution], rt_by_handle := [''fake:e'' \<mapsto> ''e'']\<rparr>"

definition demo_candidate :: candidate where
  "demo_candidate = \<lparr>cd_attempt_id = ''a'', cd_spec_digest = ''d'',
     cd_artifacts = \<lparr>am_workspace_key = ''k'', am_artifacts = []\<rparr>\<rparr>"

definition demo_publish_scope :: worker_scope where
  "demo_publish_scope = \<lparr>sc_workspace_key = ''k'', sc_attempt_id = ''a'', sc_fence = 1, sc_expires_at = 10,
     sc_paths = {||}, sc_operations = {|''publish_candidate''|}, sc_network_destinations = {||}, sc_mounts = {||}\<rparr>"

definition demo_published :: execution where
  "demo_published = demo_execution\<lparr>ex_candidate := Some demo_candidate,
     ex_observation := (ex_observation demo_execution)\<lparr>ro_activity := ActivityTerminal, ro_observed_at := 5,
       ro_fresh_until := 5\<rparr>\<rparr>"

lemma demo_start: "start_runtime (new_runtime True True) demo_request = Inr (''fake:e'', demo_runtime)"
  by (simp add: start_runtime_def new_runtime_def demo_runtime_def demo_execution_def demo_request_def Let_def)

lemma demo_started: "reaches (runtime_step H) (\<lambda>_. True) (new_runtime True True) demo_runtime"
  by (rule reaches_single[of _ _ "Start demo_request"]) (simp_all add: demo_start)

lemma demo_publish:
  "publish_candidate (\<lambda>_. ''d'') demo_runtime ''fake:e'' demo_publish_scope demo_candidate 5 =
    Inr (store_execution demo_runtime ''e'' demo_published)"
proof -
  have "deref ExecutionKeyError demo_runtime ''fake:e'' = Inr (''e'', demo_execution)"
    by (simp add: deref_def demo_runtime_def)
  then show ?thesis
    by (simp add: publish_candidate_def demo_published_def)
      (simp add: demo_execution_def demo_request_def demo_run_attempt_def demo_candidate_def
        demo_publish_scope_def attempt_digest_def json_digest_def)
qed

theorem effect_starts_once_witness:
  "start_runtime demo_runtime demo_request = Inr (''fake:e'', demo_runtime)"
  using effect_starts_once[OF reaches_refl[of "runtime_step id"] demo_start reaches_refl] by blast

theorem published_candidate_is_final_witness:
  "runtime_candidate (store_execution demo_runtime ''e'' demo_published) ''fake:e'' = Inr (Some demo_candidate)"
proof -
  have "deref ExecutionKeyError (store_execution demo_runtime ''e'' demo_published) ''fake:e'' = Inr (''e'', demo_published)"
    by (simp add: deref_eq_Inr store_execution_def demo_runtime_def)
  from published_candidate_is_final[OF demo_started demo_publish reaches_refl this] show ?thesis by (rule conjunct1)
qed

end
