(* ===== verification/Operation_Journal.thy ===== *)
theory Operation_Journal
  imports Codec_Roundtrip Work_Budget
begin

text \<open>
  The operation journal of adapters/sqlite_store.py: \<open>_insert_intent\<close>, \<open>_claim_operation\<close>,
  \<open>record_transport\<close>, \<open>observe\<close>, \<open>reconcile\<close>, the artifact references and \<open>_validate_operation_records\<close>.
  A table is the list of its rows in the order of insertion. One method is one transaction: an exception
  rolls back, so a failing call has no next state. The constraints of the tables are guards that raise
  \<open>StoreIntegrityError\<close>. What the ownership and budget guards decide about a reserved operation is an
  argument of the operations that consult them.
\<close>

declare canon.simps(6) [simp del]

datatype store_error = StoreValueError | StoreIntegrityError | OperationConflict | StoreBudgetRefused
  | StoreOwnershipConflict | CorruptHistory | ProgramNotFound | ProgramAlreadyExists | IdempotencyConflict
  | StoreRecordError codec_error | StoreDomainError domain_error | StoreShapeError

text \<open>\<open>StoreShapeError\<close>: a \<open>KeyError\<close>, \<open>TypeError\<close> or \<open>decimal.InvalidOperation\<close> on a stored record that is not of
  the shape its writer gives it.\<close>

type_synonym 'a sres = "store_error + 'a"

datatype operation_status = OpIntent | OpDispatched | OpAccepted | OpRejected | OpRunning | OpWaiting | OpTerminal | OpUnknown

datatype reconcile_outcome = OutcomeAbsent | OutcomeIdempotent | OutcomeFound | OutcomeUnknown

definition parse_kind :: "string \<Rightarrow> operation_status option" where
  "parse_kind kind = map_of [(''accepted'', OpAccepted), (''rejected'', OpRejected), (''running'', OpRunning),
     (''waiting'', OpWaiting), (''terminal'', OpTerminal), (''unknown'', OpUnknown)] kind"

definition parse_outcome :: "string \<Rightarrow> reconcile_outcome option" where
  "parse_outcome outcome = map_of [(''absent'', OutcomeAbsent), (''idempotent'', OutcomeIdempotent),
     (''found'', OutcomeFound), (''unknown'', OutcomeUnknown)] outcome"

section \<open>Tables\<close>

record operation_row =
  op_id :: string
  op_effect_key :: string
  op_request_json :: string
  op_request_digest :: string
  op_fence :: int
  op_lease_until :: "int option"
  op_status :: operation_status
  op_accepted_reference :: "string option"
  op_retry_proof :: "reconcile_outcome option"

record delivery_row =
  dl_operation :: string
  dl_fence :: int
  dl_claimed_at :: int
  dl_lease_until :: int

record observation_row =
  ob_id :: string
  ob_operation :: string
  ob_fence :: int
  ob_kind :: operation_status
  ob_reference :: "string option"

record transport_row =
  tr_operation :: string
  tr_fence :: int
  tr_succeeded :: bool

record reconciliation_row =
  rn_operation :: string
  rn_fence :: int
  rn_outcome :: reconcile_outcome
  rn_reference :: "string option"
  rn_evidence :: string
  rn_matched_digest :: "string option"
  rn_authoritative_absence :: bool

record artifact_row =
  ar_operation :: string
  ar_name :: string
  ar_digest :: string
  ar_size :: int

text \<open>\<open>jn_blobs\<close> is the artifact directory: the bytes of each file by its name.\<close>

record journal =
  jn_operations :: "operation_row list"
  jn_outbox :: "string list"
  jn_deliveries :: "delivery_row list"
  jn_observations :: "observation_row list"
  jn_transports :: "transport_row list"
  jn_reconciliations :: "reconciliation_row list"
  jn_artifacts :: "artifact_row list"
  jn_blobs :: "(string \<times> string) list"

definition empty_journal :: journal where
  "empty_journal = \<lparr>jn_operations = [], jn_outbox = [], jn_deliveries = [], jn_observations = [], jn_transports = [],
     jn_reconciliations = [], jn_artifacts = [], jn_blobs = []\<rparr>"

text \<open>An \<open>INSERT\<close> into a table with a primary key.\<close>

definition insert_row :: "('r \<Rightarrow> 'k) \<Rightarrow> 'r \<Rightarrow> 'r list \<Rightarrow> 'r list sres" where
  "insert_row key row rows = (if key row \<in> key ` set rows then Inl StoreIntegrityError else Inr (rows @ [row]))"

definition update_operation :: "string \<Rightarrow> (operation_row \<Rightarrow> operation_row) \<Rightarrow> operation_row list \<Rightarrow> operation_row list" where
  "update_operation operation_id f rows = map (\<lambda>row. if op_id row = operation_id then f row else row) rows"

abbreviation delivery_key :: "delivery_row \<Rightarrow> string \<times> int" where
  "delivery_key d \<equiv> (dl_operation d, dl_fence d)"

definition deliveries_of :: "journal \<Rightarrow> string \<Rightarrow> delivery_row list" where
  "deliveries_of J operation_id = filter (\<lambda>d. dl_operation d = operation_id) (jn_deliveries J)"

definition find_row :: "journal \<Rightarrow> string \<Rightarrow> operation_row option" where
  "find_row J operation_id = List.find (\<lambda>row. op_id row = operation_id) (jn_operations J)"

section \<open>Intents\<close>

definition request_envelope :: "(string \<times> json) list \<Rightarrow> string" where
  "request_envelope request = canonical_json (JObj [(''version'', JInt 1), (''request'', JObj request)])"

definition insert_intent :: "hash \<Rightarrow> bool \<Rightarrow> string \<Rightarrow> string \<Rightarrow> (string \<times> json) list \<Rightarrow> journal \<Rightarrow> journal sres" where
  "insert_intent H allow_existing operation_id effect_key request J =
     (let request_json = request_envelope request; digest = H request_json;
          existing = filter (\<lambda>row. op_id row = operation_id \<or> op_effect_key row = effect_key) (jn_operations J) in
      if existing \<noteq> [] then
        rbind (guard allow_existing OperationConflict) (\<lambda>_.
        rbind (guard (\<not> (length existing \<noteq> 1 \<or> list_ex (\<lambda>row. op_id row \<noteq> operation_id \<or> op_effect_key row \<noteq> effect_key
          \<or> op_request_digest row \<noteq> digest) existing)) OperationConflict) (\<lambda>_. Inr J))
      else
        rbind (guard (length digest = 64) StoreIntegrityError) (\<lambda>_.
        rbind (insert_row id operation_id (jn_outbox J)) (\<lambda>outbox.
        Inr (J\<lparr>jn_operations := jn_operations J @ [\<lparr>op_id = operation_id, op_effect_key = effect_key,
               op_request_json = request_json, op_request_digest = digest, op_fence = 0, op_lease_until = None,
               op_status = OpIntent, op_accepted_reference = None, op_retry_proof = None\<rparr>],
             jn_outbox := outbox\<rparr>))))"

text \<open>\<open>operation\<close>: the row and the number of its delivery attempts.\<close>

definition operation :: "journal \<Rightarrow> string \<Rightarrow> (operation_row \<times> nat) sres" where
  "operation J operation_id =
     rbind (guard (nonblank operation_id) StoreValueError) (\<lambda>_.
     case find_row J operation_id of
       None \<Rightarrow> Inl OperationConflict
     | Some row \<Rightarrow> Inr (row, length (deliveries_of J operation_id)))"

definition intent :: "hash \<Rightarrow> string \<Rightarrow> string \<Rightarrow> (string \<times> json) list \<Rightarrow> journal \<Rightarrow> journal sres" where
  "intent H operation_id effect_key request J =
     rbind (guard (nonblank operation_id \<and> nonblank effect_key) StoreValueError) (\<lambda>_.
     insert_intent H True operation_id effect_key request J)"

definition request_of :: "operation_row \<Rightarrow> (string \<times> json) list sres" where
  "request_of row = (case loads (op_request_json row) of
     Some (JObj envelope) \<Rightarrow> (case map_of envelope ''request'' of Some (JObj request) \<Rightarrow> Inr request | _ \<Rightarrow> Inl StoreValueError)
   | _ \<Rightarrow> Inl StoreValueError)"

definition work_key :: "hash \<Rightarrow> string \<Rightarrow> string \<Rightarrow> string" where
  "work_key H record_type identity = ''work-budget:v1:'' @ record_type @ '':'' @ H identity"

definition work_record :: "hash \<Rightarrow> journal \<Rightarrow> string \<Rightarrow> string \<Rightarrow> (string \<times> json) list option sres" where
  "work_record H J record_type identity = (case find_row J (work_key H record_type identity) of
     None \<Rightarrow> Inr None
   | Some row \<Rightarrow> rbind (request_of row) (\<lambda>request. Inr (Some request)))"

type_synonym work_fact = "string \<times> string \<times> (string \<times> json) list"

definition work_fields :: "work_fact \<Rightarrow> (string \<times> json) list" where
  "work_fields w = (case w of (record_type, _, entries) \<Rightarrow>
     [(''kind'', JStr ''work-budget-record''), (''type'', JStr record_type)] @ entries)"

definition write_work_record :: "hash \<Rightarrow> work_fact \<Rightarrow> journal \<Rightarrow> journal sres" where
  "write_work_record H w J = (case w of (record_type, identity, _) \<Rightarrow>
     let key = work_key H record_type identity in insert_intent H True key key (work_fields w) J)"

primrec write_work_records :: "hash \<Rightarrow> work_fact list \<Rightarrow> journal \<Rightarrow> journal sres" where
  "write_work_records H [] J = Inr J"
| "write_work_records H (w # ws) J = rbind (write_work_record H w J) (write_work_records H ws)"

section \<open>Delivery\<close>

text \<open>
  \<open>granted\<close> is what the budget and ownership guards decide about a reserved operation: an exception, or
  the decision time and the work records they write for a retry.
\<close>

type_synonym grant = "store_error + int \<times> work_fact list"

definition claim_authority :: "hash \<Rightarrow> grant \<Rightarrow> bool \<Rightarrow> string \<Rightarrow> int \<Rightarrow> journal \<Rightarrow> (journal \<times> int) sres" where
  "claim_authority H granted owned operation_id now J =
     rbind (work_record H J ''reservation'' operation_id) (\<lambda>reservation.
     rbind (guard (\<not> (owned \<and> reservation = None)) StoreOwnershipConflict) (\<lambda>_.
     case reservation of
       Some _ \<Rightarrow> rbind granted (\<lambda>(time, facts). rbind (write_work_records H facts J) (\<lambda>J'. Inr (J', time)))
     | None \<Rightarrow>
         if take 8 operation_id = ''runtime:'' then Inl StoreBudgetRefused
         else rbind (work_record H J ''unbound-attempt'' operation_id) (\<lambda>unbound.
           rbind (guard (unbound = None) StoreBudgetRefused) (\<lambda>_. Inr (J, now)))))"

definition final_statuses :: "operation_status set" where
  "final_statuses = {OpAccepted, OpRunning, OpWaiting, OpTerminal, OpRejected}"

definition claim_operation ::
    "hash \<Rightarrow> grant \<Rightarrow> bool \<Rightarrow> string \<Rightarrow> int \<Rightarrow> int \<Rightarrow> journal \<Rightarrow> (int \<times> journal) sres" where
  "claim_operation H granted owned operation_id now lease_seconds J =
     rbind (guard (0 < lease_seconds) StoreValueError) (\<lambda>_.
     rbind (operation J operation_id) (\<lambda>(op, attempts).
     rbind (claim_authority H granted owned operation_id now J) (\<lambda>(J', time).
     rbind (request_of op) (\<lambda>request.
     rbind (guard (map_of request ''kind'' \<noteq> Some (JStr ''ordinary-intake-record'')) OperationConflict) (\<lambda>_.
     rbind (guard (map_of request ''kind'' \<noteq> Some (JStr ''work-budget-record'')) OperationConflict) (\<lambda>_.
     rbind (guard (\<not> (case op_lease_until op of None \<Rightarrow> False | Some lease \<Rightarrow> time < lease)) OperationConflict) (\<lambda>_.
     rbind (guard (op_status op \<notin> final_statuses) OperationConflict) (\<lambda>_.
     rbind (guard (\<not> (attempts \<noteq> 0 \<and> op_retry_proof op \<notin> {Some OutcomeAbsent, Some OutcomeIdempotent})) OperationConflict) (\<lambda>_.
     let fence = op_fence op + 1 in
     rbind (insert_row delivery_key \<lparr>dl_operation = operation_id, dl_fence = fence, dl_claimed_at = time,
         dl_lease_until = time + lease_seconds\<rparr> (jn_deliveries J')) (\<lambda>deliveries.
     Inr (fence, J'\<lparr>jn_operations := update_operation operation_id (\<lambda>row. row\<lparr>op_fence := fence,
           op_lease_until := Some (time + lease_seconds), op_status := OpDispatched, op_retry_proof := None\<rparr>) (jn_operations J'),
         jn_deliveries := deliveries\<rparr>)))))))))))"

definition record_transport :: "string \<Rightarrow> int \<Rightarrow> bool \<Rightarrow> journal \<Rightarrow> journal sres" where
  "record_transport operation_id fence succeeded J =
     rbind (operation J operation_id) (\<lambda>(op, attempts).
     rbind (guard (\<not> (op_fence op \<noteq> fence \<or> attempts = 0 \<or> op_retry_proof op \<noteq> None)) OperationConflict) (\<lambda>_.
     case List.find (\<lambda>t. tr_operation t = operation_id \<and> tr_fence t = fence) (jn_transports J) of
       Some prior \<Rightarrow> rbind (guard (tr_succeeded prior = succeeded) OperationConflict) (\<lambda>_. Inr J)
     | None \<Rightarrow>
         rbind (guard ((operation_id, fence) \<in> delivery_key ` set (jn_deliveries J)) StoreIntegrityError) (\<lambda>_.
         Inr (J\<lparr>jn_transports := jn_transports J @ [\<lparr>tr_operation = operation_id, tr_fence = fence, tr_succeeded = succeeded\<rparr>]\<rparr>))))"

section \<open>Observations\<close>

definition coalesce :: "'a option \<Rightarrow> 'a option \<Rightarrow> 'a option" where
  "coalesce a b = (case a of None \<Rightarrow> b | Some x \<Rightarrow> Some x)"

text \<open>The guards of a new observation on the row it is about.\<close>

definition check_observation :: "operation_row \<Rightarrow> operation_status \<Rightarrow> string option \<Rightarrow> unit sres" where
  "check_observation op kind reference =
     rbind (guard (\<not> (op_status op \<in> {OpTerminal, OpRejected}
       \<or> op_status op \<in> {OpAccepted, OpRunning, OpWaiting} \<and> kind = OpRejected)) OperationConflict) (\<lambda>_.
     rbind (guard (\<not> (kind \<in> {OpRunning, OpWaiting, OpTerminal} \<and> op_accepted_reference op = None)) OperationConflict) (\<lambda>_.
     rbind (guard (\<not> (kind \<in> {OpRunning, OpWaiting, OpTerminal} \<and> reference \<noteq> op_accepted_reference op)) OperationConflict) (\<lambda>_.
     rbind (guard (\<not> (kind = OpAccepted \<and> op_accepted_reference op \<notin> {None, reference})) OperationConflict) (\<lambda>_.
     rbind (guard (\<not> (kind = OpAccepted \<and> op_status op \<in> {OpRunning, OpWaiting})) OperationConflict) (\<lambda>_.
     guard (\<not> (kind \<in> {OpRunning, OpWaiting} \<and> op_status op = OpUnknown)) OperationConflict)))))"

definition next_operation_status :: "operation_status \<Rightarrow> operation_status \<Rightarrow> operation_status" where
  "next_operation_status status kind =
     (if kind \<noteq> OpUnknown \<or> status \<notin> {OpAccepted, OpRunning, OpWaiting} then kind else status)"

text \<open>Inside the transaction: a repeated observation changes nothing, a new one is stored with its effect on the row.\<close>

definition record_observation ::
    "operation_row \<Rightarrow> string \<Rightarrow> int \<Rightarrow> string \<Rightarrow> operation_status \<Rightarrow> string option \<Rightarrow> journal \<Rightarrow> journal sres" where
  "record_observation op operation_id fence observation_id kind reference J =
     (case List.find (\<lambda>o'. ob_id o' = observation_id) (jn_observations J) of
       Some duplicate \<Rightarrow> rbind (guard ((ob_operation duplicate, ob_fence duplicate, ob_kind duplicate, ob_reference duplicate)
           = (operation_id, fence, kind, reference)) OperationConflict) (\<lambda>_. Inr J)
     | None \<Rightarrow>
         rbind (check_observation op kind reference) (\<lambda>_.
         rbind (guard ((operation_id, fence) \<in> delivery_key ` set (jn_deliveries J)) StoreIntegrityError) (\<lambda>_.
         Inr (J\<lparr>jn_observations := jn_observations J @ [\<lparr>ob_id = observation_id, ob_operation = operation_id, ob_fence = fence,
               ob_kind = kind, ob_reference = reference\<rparr>],
             jn_operations := update_operation operation_id (\<lambda>row. row\<lparr>op_status := next_operation_status (op_status op) kind,
               op_accepted_reference := coalesce (op_accepted_reference row) (if kind = OpAccepted then reference else None)\<rparr>)
               (jn_operations J)\<rparr>))))"

definition observe :: "string \<Rightarrow> int \<Rightarrow> string \<Rightarrow> string \<Rightarrow> string option \<Rightarrow> journal \<Rightarrow> journal sres" where
  "observe operation_id fence observation_id kind_text reference J =
     rbind (guard (nonblank observation_id) StoreValueError) (\<lambda>_.
     case parse_kind kind_text of None \<Rightarrow> Inl StoreValueError | Some kind \<Rightarrow>
     rbind (guard (\<not> (kind \<in> {OpAccepted, OpWaiting} \<and> (case reference of None \<Rightarrow> True | Some r \<Rightarrow> \<not> nonblank r))) OperationConflict) (\<lambda>_.
     rbind (operation J operation_id) (\<lambda>(op, attempts).
     rbind (guard (\<not> (op_fence op \<noteq> fence \<or> attempts = 0)) OperationConflict) (\<lambda>_.
     rbind (guard (op_retry_proof op = None) OperationConflict) (\<lambda>_.
     record_observation op operation_id fence observation_id kind reference J)))))"

section \<open>Reconciliation\<close>

definition check_reconciliation ::
    "operation_row \<Rightarrow> reconcile_outcome \<Rightarrow> int \<Rightarrow> string option \<Rightarrow> string option \<Rightarrow> bool \<Rightarrow> unit sres" where
  "check_reconciliation op outcome now reference matched_digest authoritative_absence =
     rbind (guard (\<not> (case op_lease_until op of None \<Rightarrow> False | Some lease \<Rightarrow> now < lease)) OperationConflict) (\<lambda>_.
     rbind (guard (\<not> (outcome \<in> {OutcomeFound, OutcomeIdempotent} \<and> matched_digest \<noteq> Some (op_request_digest op))) OperationConflict) (\<lambda>_.
     rbind (guard (\<not> (outcome = OutcomeAbsent \<and> \<not> authoritative_absence)) OperationConflict) (\<lambda>_.
     rbind (guard (\<not> (outcome = OutcomeFound \<and> (reference \<in> {None, Some []} \<or> op_accepted_reference op \<notin> {None, reference}))) OperationConflict) (\<lambda>_.
     guard (\<not> (outcome \<in> {OutcomeAbsent, OutcomeIdempotent} \<and> op_accepted_reference op \<noteq> None)) OperationConflict))))"

definition reconcile ::
    "string \<Rightarrow> int \<Rightarrow> string \<Rightarrow> int \<Rightarrow> string \<Rightarrow> string option \<Rightarrow> string option \<Rightarrow> bool \<Rightarrow> journal \<Rightarrow> journal sres" where
  "reconcile operation_id fence outcome_text now evidence reference matched_digest authoritative_absence J =
     (case parse_outcome outcome_text of None \<Rightarrow> Inl StoreValueError | Some outcome \<Rightarrow>
     rbind (guard (nonblank evidence) OperationConflict) (\<lambda>_.
     rbind (operation J operation_id) (\<lambda>(op, attempts).
     rbind (guard (\<not> (op_fence op \<noteq> fence \<or> attempts = 0 \<or> op_status op \<notin> {OpDispatched, OpUnknown})) OperationConflict) (\<lambda>_.
     rbind (check_reconciliation op outcome now reference matched_digest authoritative_absence) (\<lambda>_.
     rbind (guard ((operation_id, fence) \<in> delivery_key ` set (jn_deliveries J)) StoreIntegrityError) (\<lambda>_.
     Inr (J\<lparr>jn_reconciliations := jn_reconciliations J @ [\<lparr>rn_operation = operation_id, rn_fence = fence, rn_outcome = outcome,
           rn_reference = reference, rn_evidence = evidence, rn_matched_digest = matched_digest,
           rn_authoritative_absence = authoritative_absence\<rparr>],
         jn_operations := update_operation operation_id (\<lambda>row. row\<lparr>
           op_status := (if outcome = OutcomeFound then OpAccepted else OpUnknown),
           op_accepted_reference := coalesce (op_accepted_reference row) (if outcome = OutcomeFound then reference else None),
           op_retry_proof := (if outcome \<in> {OutcomeAbsent, OutcomeIdempotent} then Some outcome else None),
           op_lease_until := None\<rparr>) (jn_operations J)\<rparr>)))))))"

section \<open>Artifacts\<close>

definition verify_blob :: "hash \<Rightarrow> journal \<Rightarrow> string \<Rightarrow> int \<Rightarrow> string sres" where
  "verify_blob H J digest length_of = (case map_of (jn_blobs J) digest of
     None \<Rightarrow> Inl CorruptHistory
   | Some data \<Rightarrow> if int (length data) = length_of \<and> H data = digest then Inr data else Inl CorruptHistory)"

definition stage_blob :: "hash \<Rightarrow> string \<Rightarrow> string \<Rightarrow> journal \<Rightarrow> journal sres" where
  "stage_blob H digest data J = (case map_of (jn_blobs J) digest of
     Some _ \<Rightarrow> rbind (verify_blob H J digest (int (length data))) (\<lambda>_. Inr J)
   | None \<Rightarrow> Inr (J\<lparr>jn_blobs := (digest, data) # jn_blobs J\<rparr>))"

abbreviation artifact_key :: "artifact_row \<Rightarrow> string \<times> string" where
  "artifact_key a \<equiv> (ar_operation a, ar_name a)"

definition find_artifact_row :: "journal \<Rightarrow> string \<Rightarrow> string \<Rightarrow> artifact_row option" where
  "find_artifact_row J operation_id name = List.find (\<lambda>a. ar_operation a = operation_id \<and> ar_name a = name) (jn_artifacts J)"

text \<open>\<open>budget\<close> is the verdict of \<open>_check_owned_artifact_budget\<close>.\<close>

definition finalize_artifact :: "hash \<Rightarrow> unit sres \<Rightarrow> string \<Rightarrow> string \<Rightarrow> string \<Rightarrow> journal \<Rightarrow> journal sres" where
  "finalize_artifact H budget operation_id name data J =
     rbind (operation J operation_id) (\<lambda>_.
     rbind (guard (nonblank name) StoreValueError) (\<lambda>_.
     let digest = H data in
     rbind budget (\<lambda>_.
     rbind (stage_blob H digest data J) (\<lambda>J'.
     case find_artifact_row J' operation_id name of
       Some existing \<Rightarrow>
         rbind (guard ((ar_digest existing, ar_size existing) = (digest, int (length data))) OperationConflict) (\<lambda>_. Inr J')
     | None \<Rightarrow>
         rbind (guard (length digest = 64) StoreIntegrityError) (\<lambda>_.
         Inr (J'\<lparr>jn_artifacts := jn_artifacts J' @ [\<lparr>ar_operation = operation_id, ar_name = name, ar_digest = digest,
           ar_size = int (length data)\<rparr>]\<rparr>))))))"

definition find_artifact :: "hash \<Rightarrow> journal \<Rightarrow> string \<Rightarrow> string \<Rightarrow> string option sres" where
  "find_artifact H J operation_id name = (case find_artifact_row J operation_id name of
     None \<Rightarrow> Inr None
   | Some row \<Rightarrow> rbind (verify_blob H J (ar_digest row) (ar_size row)) (\<lambda>data. Inr (Some data)))"

definition read_artifact :: "hash \<Rightarrow> journal \<Rightarrow> string \<Rightarrow> string \<Rightarrow> string sres" where
  "read_artifact H J operation_id name = rbind (find_artifact H J operation_id name) (\<lambda>found.
     case found of None \<Rightarrow> Inl OperationConflict | Some data \<Rightarrow> Inr data)"

section \<open>Startup validation\<close>

definition accepted_receipt :: "journal \<Rightarrow> string \<Rightarrow> string option \<Rightarrow> bool" where
  "accepted_receipt J operation_id reference = (case reference of None \<Rightarrow> False | Some r \<Rightarrow>
     list_ex (\<lambda>o'. ob_operation o' = operation_id \<and> ob_kind o' = OpAccepted \<and> ob_reference o' = Some r) (jn_observations J)
     \<or> list_ex (\<lambda>n. rn_operation n = operation_id \<and> rn_outcome n = OutcomeFound \<and> rn_reference n = Some r) (jn_reconciliations J))"

definition canonical_request :: "hash \<Rightarrow> operation_row \<Rightarrow> bool" where
  "canonical_request H row = (case loads (op_request_json row) of
     Some (JObj envelope) \<Rightarrow> json_keys envelope = {''version'', ''request''} \<and> equals_one (map_of envelope ''version'')
       \<and> (case map_of envelope ''request'' of Some (JObj _) \<Rightarrow> True | _ \<Rightarrow> False)
       \<and> canonical_json (JObj envelope) = op_request_json row \<and> H (op_request_json row) = op_request_digest row
   | _ \<Rightarrow> False)"

definition validate_operation :: "hash \<Rightarrow> journal \<Rightarrow> operation_row \<Rightarrow> unit sres" where
  "validate_operation H J row =
     (let attempts = deliveries_of J (op_id row); accepted = accepted_receipt J (op_id row) (op_accepted_reference row) in
      guard (canonical_request H row
        \<and> op_id row \<in> set (jn_outbox J)
        \<and> \<not> (op_fence row \<noteq> int (length attempts) \<or> attempts \<noteq> [] \<and> op_fence row \<noteq> Max (dl_fence ` set attempts))
        \<and> (op_status row = OpIntent) = (attempts = [])
        \<and> (op_accepted_reference row \<noteq> None) = accepted
        \<and> \<not> (op_status row \<in> {OpAccepted, OpRunning, OpWaiting, OpTerminal} \<and> \<not> accepted)
        \<and> (op_status row \<in> {OpRejected, OpRunning, OpWaiting, OpTerminal} \<longrightarrow>
             list_ex (\<lambda>o'. ob_operation o' = op_id row \<and> ob_kind o' = op_status row) (jn_observations J))
        \<and> (op_retry_proof row \<noteq> None \<longrightarrow> list_ex (\<lambda>n. rn_operation n = op_id row \<and> rn_fence n = op_fence row
             \<and> Some (rn_outcome n) = op_retry_proof row) (jn_reconciliations J))) CorruptHistory)"

definition validate_operation_records :: "hash \<Rightarrow> journal \<Rightarrow> unit sres" where
  "validate_operation_records H J =
     rbind (each (validate_operation H J) (jn_operations J)) (\<lambda>_.
     each (\<lambda>a. rbind (verify_blob H J (ar_digest a) (ar_size a)) (\<lambda>_. Inr ())) (jn_artifacts J))"

section \<open>The fake delivery\<close>

text \<open>Each call commits by itself; the callback runs only after the claim has been committed.\<close>

definition deliver_fake ::
    "hash \<Rightarrow> string \<Rightarrow> string \<Rightarrow> int \<Rightarrow> int \<Rightarrow> (string \<Rightarrow> string \<Rightarrow> bool \<times> string option \<times> string option) \<Rightarrow> grant \<Rightarrow>
     journal \<Rightarrow> (operation_row \<times> nat) sres \<times> journal" where
  "deliver_fake H operation_id observation_id now lease_seconds fake granted J =
     (case claim_operation H granted False operation_id now lease_seconds J of
        Inl e \<Rightarrow> (Inl e, J)
      | Inr (fence, J1) \<Rightarrow> (case operation J1 operation_id of
          Inl e \<Rightarrow> (Inl e, J1)
        | Inr (op, _) \<Rightarrow> (case fake (op_effect_key op) (op_request_json op) of (transported, kind, reference) \<Rightarrow>
            (case record_transport operation_id fence transported J1 of
               Inl e \<Rightarrow> (Inl e, J1)
             | Inr J2 \<Rightarrow> (case kind of
                 Some k \<Rightarrow> if \<not> transported then (operation J2 operation_id, J2)
                   else (case observe operation_id fence observation_id k reference J2 of
                     Inl e \<Rightarrow> (Inl e, J2)
                   | Inr J3 \<Rightarrow> (operation J3 operation_id, J3))
               | None \<Rightarrow> (operation J2 operation_id, J2))))))"

end
