(* ===== verification/Program_Store.thy ===== *)
theory Program_Store
  imports Operation_Journal
begin

text \<open>
  The program side of adapters/sqlite_store.py: the append-only history, the recorded results of command
  keys and the projections, written by \<open>_create\<close> and \<open>_admit_decision\<close>, read by \<open>load\<close> and \<open>history\<close>, and
  rebuilt by \<open>rebuild_projections\<close>. The constraints of the tables are guards that raise
  \<open>StoreIntegrityError\<close>; a method runs in one transaction, so a failing call has no next state. What the
  ownership, budget and workspace checks decide about one command is the argument \<open>verdicts\<close>; its budget
  part is computed by \<open>admission_budget\<close> in \<open>Work_Reservations\<close>.
\<close>

declare canon.simps(6) [simp del]

section \<open>Tables\<close>

record history_row =
  hs_program :: string
  hs_sequence :: int
  hs_schema_version :: int
  hs_command_key :: string
  hs_command_type :: string
  hs_actor_id :: string
  hs_input_digest :: string
  hs_input_json :: string
  hs_aggregate_revision :: int
  hs_facts_digest :: string
  hs_facts_json :: string

record admission_row =
  cm_command_key :: string
  cm_program :: string
  cm_command_type :: string
  cm_input_digest :: string
  cm_result_sequence :: int
  cm_result_digest :: string
  cm_result_json :: string

record program_row =
  pr_program :: string
  pr_revision :: int
  pr_sequence :: int
  pr_schema_version :: int
  pr_facts_digest :: string
  pr_json :: string

record unit_row =
  un_program :: string
  un_id :: string
  un_status :: string
  un_active_attempt :: "string option"
  un_satisfaction :: "string option"

record attempt_row =
  at_program :: string
  at_row_id :: string
  at_row_status :: string
  at_json :: string

record store =
  st_history :: "history_row list"
  st_admissions :: "admission_row list"
  st_programs :: "program_row list"
  st_units :: "unit_row list"
  st_attempts :: "attempt_row list"
  st_journal :: journal

definition empty_store :: store where
  "empty_store = \<lparr>st_history = [], st_admissions = [], st_programs = [], st_units = [], st_attempts = [],
     st_journal = empty_journal\<rparr>"

abbreviation history_key :: "history_row \<Rightarrow> string \<times> int" where
  "history_key r \<equiv> (hs_program r, hs_sequence r)"

definition records_of :: "store \<Rightarrow> string \<Rightarrow> history_row list" where
  "records_of S program_id = sort_key hs_sequence (filter (\<lambda>r. hs_program r = program_id) (st_history S))"

text \<open>\<open>ORDER BY sequence DESC LIMIT 1\<close>\<close>

definition latest_record :: "store \<Rightarrow> string \<Rightarrow> history_row option" where
  "latest_record S program_id = (case rev (records_of S program_id) of [] \<Rightarrow> None | r # _ \<Rightarrow> Some r)"

definition find_program_row :: "store \<Rightarrow> string \<Rightarrow> program_row option" where
  "find_program_row S program_id = List.find (\<lambda>r. pr_program r = program_id) (st_programs S)"

definition find_admission :: "store \<Rightarrow> string \<Rightarrow> admission_row option" where
  "find_admission S command_key = List.find (\<lambda>r. cm_command_key r = command_key) (st_admissions S)"

section \<open>Reading\<close>

definition lift_record :: "'a cres \<Rightarrow> 'a sres" where
  "lift_record r = map_sum StoreRecordError id r"

definition lift_refusal :: "'a dres \<Rightarrow> 'a sres" where
  "lift_refusal r = map_sum StoreDomainError id r"

text \<open>\<open>except RecordCodecError as error: raise CorruptHistory\<close>\<close>

definition or_corrupt :: "'a cres \<Rightarrow> 'a sres" where
  "or_corrupt r = (case r of Inl RecordCodecError \<Rightarrow> Inl CorruptHistory | _ \<Rightarrow> lift_record r)"

definition decode_facts :: "hash \<Rightarrow> string \<Rightarrow> string \<Rightarrow> int \<Rightarrow> program sres" where
  "decode_facts H raw program_id revision =
     rbind (or_corrupt (program_from_json H raw)) (\<lambda>program.
     rbind (guard (\<not> (pg_id program \<noteq> program_id \<or> pg_revision program \<noteq> revision)) CorruptHistory) (\<lambda>_. Inr program))"

definition load_head :: "hash \<Rightarrow> store \<Rightarrow> string \<Rightarrow> program sres" where
  "load_head H S program_id = (case find_program_row S program_id of
     None \<Rightarrow> Inl ProgramNotFound
   | Some row \<Rightarrow>
       rbind (guard (H (pr_json row) = pr_facts_digest row) CorruptHistory) (\<lambda>_.
       rbind (decode_facts H (pr_json row) program_id (pr_revision row)) (\<lambda>program.
       case latest_record S program_id of
         None \<Rightarrow> Inl CorruptHistory
       | Some newest \<Rightarrow>
           rbind (guard (\<not> (hs_sequence newest \<noteq> pr_sequence row \<or> hs_facts_digest newest \<noteq> pr_facts_digest row
             \<or> pr_schema_version row \<noteq> codec_version)) CorruptHistory) (\<lambda>_. Inr program))))"

definition load :: "hash \<Rightarrow> store \<Rightarrow> string \<Rightarrow> program sres" where
  "load H S program_id = rbind (guard (nonblank program_id) StoreValueError) (\<lambda>_. load_head H S program_id)"

definition history :: "store \<Rightarrow> string \<Rightarrow> history_row list sres" where
  "history S program_id = rbind (guard (nonblank program_id) StoreValueError) (\<lambda>_. Inr (records_of S program_id))"

definition duplicate_result :: "hash \<Rightarrow> store \<Rightarrow> string \<Rightarrow> string \<Rightarrow> program option sres" where
  "duplicate_result H S command_key input_digest = (case find_admission S command_key of
     None \<Rightarrow> Inr None
   | Some row \<Rightarrow>
       rbind (guard (cm_input_digest row = input_digest) IdempotencyConflict) (\<lambda>_.
       rbind (guard (H (cm_result_json row) = cm_result_digest row) CorruptHistory) (\<lambda>_.
       rbind (or_corrupt (program_from_json H (cm_result_json row))) (\<lambda>program. Inr (Some program)))))"

section \<open>Writing\<close>

definition insert_history :: "history_row \<Rightarrow> store \<Rightarrow> store sres" where
  "insert_history row S =
     rbind (guard (0 < hs_sequence row \<and> 0 < hs_schema_version row \<and> length (hs_input_digest row) = 64
       \<and> 0 \<le> hs_aggregate_revision row \<and> length (hs_facts_digest row) = 64) StoreIntegrityError) (\<lambda>_.
     rbind (guard (hs_command_key row \<notin> hs_command_key ` set (st_history S)) StoreIntegrityError) (\<lambda>_.
     rbind (insert_row history_key row (st_history S)) (\<lambda>rows. Inr (S\<lparr>st_history := rows\<rparr>))))"

primrec insert_rows :: "('r \<Rightarrow> 'k) \<Rightarrow> 'r list \<Rightarrow> 'r list \<Rightarrow> 'r list sres" where
  "insert_rows key [] rows = Inr rows"
| "insert_rows key (x # xs) rows = rbind (insert_row key x rows) (insert_rows key xs)"

text \<open>\<open>DELETE FROM program_projection\<close> cascades to the projections of units and attempts.\<close>

definition delete_projection :: "(string \<Rightarrow> bool) \<Rightarrow> store \<Rightarrow> store" where
  "delete_projection P S = S\<lparr>st_programs := filter (\<lambda>r. \<not> P (pr_program r)) (st_programs S),
     st_units := filter (\<lambda>r. \<not> P (un_program r)) (st_units S),
     st_attempts := filter (\<lambda>r. \<not> P (at_program r)) (st_attempts S)\<rparr>"

definition unit_rows :: "program \<Rightarrow> unit_row list" where
  "unit_rows p = map (\<lambda>s. \<lparr>un_program = pg_id p, un_id = us_work_unit_id s, un_status = unit_status_value (us_status s),
     un_active_attempt = us_active_attempt_id s, un_satisfaction = us_satisfaction_id s\<rparr>) (pg_states p)"

definition attempt_rows :: "program \<Rightarrow> attempt_row list" where
  "attempt_rows p = map (\<lambda>a. \<lparr>at_program = pg_id p, at_row_id = at_id a, at_row_status = attempt_status_value (at_status a),
     at_json = attempt_projection_json a\<rparr>) (pg_attempts p)"

definition program_row_of :: "program \<Rightarrow> int \<Rightarrow> string \<Rightarrow> string \<Rightarrow> program_row" where
  "program_row_of p sequence facts_json facts_digest = \<lparr>pr_program = pg_id p, pr_revision = pg_revision p, pr_sequence = sequence,
     pr_schema_version = codec_version, pr_facts_digest = facts_digest, pr_json = facts_json\<rparr>"

definition write_projections :: "program \<Rightarrow> int \<Rightarrow> string \<Rightarrow> string \<Rightarrow> store \<Rightarrow> store sres" where
  "write_projections p sequence facts_json facts_digest S =
     (let S1 = delete_projection (\<lambda>i. i = pg_id p) S in
      rbind (guard (0 \<le> pg_revision p \<and> 0 < sequence \<and> length facts_digest = 64
        \<and> (pg_id p, sequence) \<in> history_key ` set (st_history S)) StoreIntegrityError) (\<lambda>_.
      rbind (insert_row pr_program (program_row_of p sequence facts_json facts_digest) (st_programs S1)) (\<lambda>programs.
      rbind (insert_rows (\<lambda>r. (un_program r, un_id r)) (unit_rows p) (st_units S1)) (\<lambda>units.
      rbind (insert_rows (\<lambda>r. (at_program r, at_row_id r)) (attempt_rows p) (st_attempts S1)) (\<lambda>attempts.
      Inr (S1\<lparr>st_programs := programs, st_units := units, st_attempts := attempts\<rparr>))))))"

definition insert_command_result :: "admission_row \<Rightarrow> store \<Rightarrow> store sres" where
  "insert_command_result row S =
     rbind (guard (length (cm_input_digest row) = 64 \<and> length (cm_result_digest row) = 64
       \<and> (cm_program row, cm_result_sequence row) \<in> history_key ` set (st_history S)) StoreIntegrityError) (\<lambda>_.
     rbind (insert_row cm_command_key row (st_admissions S)) (\<lambda>rows. Inr (S\<lparr>st_admissions := rows\<rparr>)))"

text \<open>\<open>digest_json(json.loads(input_json))\<close>\<close>

definition input_digest_of :: "hash \<Rightarrow> string \<Rightarrow> string sres" where
  "input_digest_of H raw = (case loads raw of None \<Rightarrow> Inl StoreValueError | Some v \<Rightarrow> Inr (digest_json H v))"

text \<open>The three writes at the end of \<open>_create\<close> and \<open>_admit_decision\<close>.\<close>

definition record_result ::
    "hash \<Rightarrow> string \<Rightarrow> int \<Rightarrow> string \<Rightarrow> string \<Rightarrow> string \<Rightarrow> string \<Rightarrow> string \<Rightarrow> program \<Rightarrow> store \<Rightarrow> store sres" where
  "record_result H program_id sequence command_key command_type actor_id input_digest input_json p S =
     rbind (lift_record (program_json H p)) (\<lambda>facts_json.
     let facts_digest = H facts_json in
     rbind (insert_history \<lparr>hs_program = program_id, hs_sequence = sequence, hs_schema_version = codec_version,
         hs_command_key = command_key, hs_command_type = command_type, hs_actor_id = actor_id, hs_input_digest = input_digest,
         hs_input_json = input_json, hs_aggregate_revision = pg_revision p, hs_facts_digest = facts_digest,
         hs_facts_json = facts_json\<rparr> S) (\<lambda>S1.
     rbind (write_projections p sequence facts_json facts_digest S1) (\<lambda>S2.
     insert_command_result \<lparr>cm_command_key = command_key, cm_program = program_id, cm_command_type = command_type,
       cm_input_digest = input_digest, cm_result_sequence = sequence, cm_result_digest = facts_digest,
       cm_result_json = facts_json\<rparr> S2)))"

definition create_program :: "hash \<Rightarrow> program_spec \<Rightarrow> string \<Rightarrow> store \<Rightarrow> (program \<times> store) sres" where
  "create_program H sp command_key S =
     rbind (guard (nonblank command_key) StoreValueError) (\<lambda>_.
     let input_json = create_input_json sp in
     rbind (input_digest_of H input_json) (\<lambda>input_digest.
     rbind (duplicate_result H S command_key input_digest) (\<lambda>duplicate. case duplicate of
       Some p \<Rightarrow> Inr (p, S)
     | None \<Rightarrow>
         rbind (guard (find_program_row S (ps_program_id sp) = None) ProgramAlreadyExists) (\<lambda>_.
         rbind (lift_refusal (create sp)) (\<lambda>initial.
         rbind (record_result H (ps_program_id sp) 1 command_key ''create_program'' (ae_owner_id (ps_authority sp))
           input_digest input_json initial S) (\<lambda>S'. Inr (initial, S')))))))"

section \<open>Admission\<close>

text \<open>
  What the checks outside the history say about one command: \<open>_check_ownership_command\<close>; for a bound program
  the work records of \<open>_record_work_completion\<close> and \<open>_reserve_work\<close>; the record of \<open>_bind_work_dispatch\<close>; and
  the record of an observed physical workspace.
\<close>

record verdicts =
  vd_ownership :: "unit sres"
  vd_budget :: "work_fact list sres"
  vd_dispatch :: "work_fact list sres"
  vd_workspace :: "work_fact list sres"

type_synonym effect_intent = "string \<times> string \<times> (string \<times> json) list"

definition write_facts :: "hash \<Rightarrow> work_fact list \<Rightarrow> store \<Rightarrow> store sres" where
  "write_facts H facts S = rbind (write_work_records H facts (st_journal S)) (\<lambda>J. Inr (S\<lparr>st_journal := J\<rparr>))"

definition bound :: "hash \<Rightarrow> store \<Rightarrow> string \<Rightarrow> bool sres" where
  "bound H S program_id = rbind (work_record H (st_journal S) ''binding'' program_id) (\<lambda>r. Inr (r \<noteq> None))"

definition unbound_fact :: "string \<Rightarrow> string \<Rightarrow> string \<Rightarrow> work_fact" where
  "unbound_fact program_id attempt_id operation_id = (''unbound-attempt'', operation_id,
     [(''program'', JStr program_id), (''attempt'', JStr attempt_id), (''operation'', JStr operation_id)])"

definition admission_facts ::
    "verdicts \<Rightarrow> bool \<Rightarrow> string \<Rightarrow> domain_command \<Rightarrow> effect_intent option \<Rightarrow> work_fact list sres" where
  "admission_facts vd binding program_id c effect = (case c of
     SatisfyWorkUnit _ _ _ \<Rightarrow> if binding then vd_budget vd else Inr []
   | PrepareAttempt _ _ att \<Rightarrow> if binding then vd_budget vd
       else (case effect of None \<Rightarrow> Inr [] | Some (operation_id, _) \<Rightarrow> Inr [unbound_fact program_id (as_attempt_id att) operation_id])
   | _ \<Rightarrow> Inr [])"

definition insert_effect :: "hash \<Rightarrow> effect_intent option \<Rightarrow> store \<Rightarrow> store sres" where
  "insert_effect H effect S = (case effect of
     None \<Rightarrow> Inr S
   | Some (operation_id, effect_key, request) \<Rightarrow>
       rbind (insert_intent H False operation_id effect_key request (st_journal S)) (\<lambda>J. Inr (S\<lparr>st_journal := J\<rparr>)))"

definition is_prepare :: "domain_command \<Rightarrow> bool" where
  "is_prepare c = (case c of PrepareAttempt _ _ _ \<Rightarrow> True | _ \<Rightarrow> False)"

definition matching_effect :: "effect_intent option \<Rightarrow> store \<Rightarrow> bool" where
  "matching_effect effect S = (case effect of
     None \<Rightarrow> True
   | Some (operation_id, effect_key, request) \<Rightarrow> (case find_row (st_journal S) operation_id of
       None \<Rightarrow> False
     | Some row \<Rightarrow> (op_effect_key row, op_request_json row) = (effect_key, request_envelope request)))"

definition admit_decision ::
    "hash \<Rightarrow> verdicts \<Rightarrow> string \<Rightarrow> string \<Rightarrow> domain_command \<Rightarrow> effect_intent option \<Rightarrow> store \<Rightarrow> (program \<times> store) sres" where
  "admit_decision H vd program_id command_key c effect S =
     rbind (guard (nonblank program_id) StoreValueError) (\<lambda>_.
     rbind (guard (nonblank command_key) StoreValueError) (\<lambda>_.
     let input_json = command_input_json program_id c in
     rbind (input_digest_of H input_json) (\<lambda>input_digest.
     rbind (duplicate_result H S command_key input_digest) (\<lambda>duplicate. case duplicate of
       Some p \<Rightarrow> rbind (guard (matching_effect effect S) OperationConflict) (\<lambda>_. Inr (p, S))
     | None \<Rightarrow>
         rbind (load_head H S program_id) (\<lambda>current.
         rbind (vd_ownership vd) (\<lambda>_.
         rbind (lift_refusal (apply_command H current c)) (\<lambda>next_program.
         rbind (bound H S program_id) (\<lambda>binding.
         rbind (admission_facts vd binding program_id c effect) (\<lambda>facts.
         rbind (write_facts H facts S) (\<lambda>S1.
         rbind (guard (pg_id next_program = program_id) CorruptHistory) (\<lambda>_.
         case find_program_row S1 program_id of
           None \<Rightarrow> Inl ProgramNotFound
         | Some head \<Rightarrow>
             rbind (record_result H program_id (pr_sequence head + 1) command_key (fst (command_parameters c)) (cmd_actor_id c)
               input_digest input_json next_program S1) (\<lambda>S2.
             rbind (insert_effect H effect S2) (\<lambda>S3.
             rbind (if effect \<noteq> None \<and> is_prepare c \<and> binding then vd_dispatch vd else Inr []) (\<lambda>dispatch_facts.
             rbind (write_facts H dispatch_facts S3) (\<lambda>S4.
             rbind (if is_prepare c then vd_workspace vd else Inr []) (\<lambda>workspace_facts.
             rbind (write_facts H workspace_facts S4) (\<lambda>S5.
             Inr (next_program, S5))))))))))))))))))"

text \<open>\<open>admit_with_intent\<close> checks the two keys first; \<open>admit\<close> has no effect.\<close>

definition admit ::
    "hash \<Rightarrow> verdicts \<Rightarrow> string \<Rightarrow> string \<Rightarrow> domain_command \<Rightarrow> effect_intent option \<Rightarrow> store \<Rightarrow> (program \<times> store) sres" where
  "admit H vd program_id command_key c effect S =
     rbind (guard (case effect of None \<Rightarrow> True | Some (operation_id, effect_key, _) \<Rightarrow> nonblank operation_id \<and> nonblank effect_key)
       StoreValueError) (\<lambda>_.
     admit_decision H vd program_id command_key c effect S)"

section \<open>Rebuilding\<close>

text \<open>\<open>latest\<close>: the newest program, its sequence, text and digest of each program, in the order they are met.\<close>

type_synonym rebuild_state = "(string \<times> program \<times> int \<times> string \<times> string) list"

definition check_input :: "hash \<Rightarrow> rebuild_state \<Rightarrow> history_row \<Rightarrow> unit sres" where
  "check_input H heads row =
     (if hs_command_type row = ''create_program'' then
        rbind (guard (\<not> (hs_sequence row \<noteq> 1 \<or> map_of heads (hs_program row) \<noteq> None)) CorruptHistory) (\<lambda>_.
        lift_record (validate_create_input H (hs_input_json row) (hs_input_digest row) (hs_program row) (hs_actor_id row)))
      else
        rbind (guard (map_of heads (hs_program row) \<noteq> None) CorruptHistory) (\<lambda>_.
        lift_record (validate_history_input H (hs_input_json row) (hs_input_digest row) (hs_program row) (hs_command_type row)
          (hs_actor_id row))))"

definition check_admission :: "store \<Rightarrow> history_row \<Rightarrow> unit sres" where
  "check_admission S row = (case find_admission S (hs_command_key row) of
     None \<Rightarrow> Inl CorruptHistory
   | Some a \<Rightarrow> guard (\<not> (cm_program a \<noteq> hs_program row \<or> cm_command_type a \<noteq> hs_command_type row
       \<or> cm_input_digest a \<noteq> hs_input_digest row \<or> cm_result_sequence a \<noteq> hs_sequence row
       \<or> cm_result_digest a \<noteq> hs_facts_digest row \<or> cm_result_json a \<noteq> hs_facts_json row)) CorruptHistory)"

definition rebuild_row :: "hash \<Rightarrow> store \<Rightarrow> rebuild_state \<Rightarrow> history_row \<Rightarrow> rebuild_state sres" where
  "rebuild_row H S heads row =
     rbind (guard (hs_schema_version row = codec_version) CorruptHistory) (\<lambda>_.
     rbind (guard (nonblank (hs_command_key row)) CorruptHistory) (\<lambda>_.
     rbind (guard (H (hs_facts_json row) = hs_facts_digest row) CorruptHistory) (\<lambda>_.
     let previous = map_of heads (hs_program row);
         previous_sequence = (case previous of None \<Rightarrow> 0 | Some (_, n, _) \<Rightarrow> n) in
     rbind (guard (hs_sequence row = previous_sequence + 1) CorruptHistory) (\<lambda>_.
     rbind (check_input H heads row) (\<lambda>_.
     rbind (decode_facts H (hs_facts_json row) (hs_program row) (hs_aggregate_revision row)) (\<lambda>p.
     rbind (guard (\<not> (case previous of None \<Rightarrow> False | Some (q, _) \<Rightarrow> pg_revision p < pg_revision q)) CorruptHistory) (\<lambda>_.
     rbind (guard (\<not> (hs_sequence row = 1 \<and> (pg_revision p \<noteq> 0 \<or> pg_status p \<noteq> ProgramDraft))) CorruptHistory) (\<lambda>_.
     rbind (check_admission S row) (\<lambda>_.
     Inr (AList.update (hs_program row) (p, hs_sequence row, hs_facts_json row, hs_facts_digest row) heads))))))))))"

primrec rebuild_rows :: "hash \<Rightarrow> store \<Rightarrow> rebuild_state \<Rightarrow> history_row list \<Rightarrow> rebuild_state sres" where
  "rebuild_rows H S heads [] = Inr heads"
| "rebuild_rows H S heads (row # rows) = rbind (rebuild_row H S heads row) (\<lambda>heads'. rebuild_rows H S heads' rows)"

primrec write_all :: "rebuild_state \<Rightarrow> store \<Rightarrow> store sres" where
  "write_all [] S = Inr S"
| "write_all (e # es) S = (case e of (_, p, sequence, facts_json, facts_digest) \<Rightarrow>
     rbind (write_projections p sequence facts_json facts_digest S) (write_all es))"

definition rebuild_projections :: "hash \<Rightarrow> store \<Rightarrow> (nat \<times> store) sres" where
  "rebuild_projections H S =
     rbind (rebuild_rows H S [] (sort_key history_key (st_history S))) (\<lambda>heads.
     rbind (write_all heads (delete_projection (\<lambda>_. True) S)) (\<lambda>S'. Inr (length heads, S')))"

end
