(* ===== verification/Journal_Invariant.thy ===== *)
theory Journal_Invariant
  imports Operation_Journal Command_Machine
begin

text \<open>
  What holds of every journal the store can write: each row agrees with its delivery attempts, receipts
  and reconciliations. The calls of the store are the commands of a \<open>recording_machine\<close>: they preserve the
  invariant, and no call rewrites a request, moves a fence back or withdraws an acceptance.
\<close>

declare canon.simps(6) [simp del]

section \<open>Calls\<close>

datatype journal_call =
    CallIntent string string "(string \<times> json) list"
  | CallClaim grant bool string int int
  | CallTransport string int bool
  | CallObserve string int string string "string option"
  | CallReconcile string int string int string "string option" "string option" bool
  | CallFinalize "unit sres" string string string

fun journal_step :: "hash \<Rightarrow> journal \<Rightarrow> journal_call \<Rightarrow> journal sres" where
  "journal_step H J (CallIntent operation_id effect_key request) = intent H operation_id effect_key request J"
| "journal_step H J (CallClaim granted owned operation_id now lease_seconds) =
     map_sum id snd (claim_operation H granted owned operation_id now lease_seconds J)"
| "journal_step H J (CallTransport operation_id fence succeeded) = record_transport operation_id fence succeeded J"
| "journal_step H J (CallObserve operation_id fence observation_id kind reference) =
     observe operation_id fence observation_id kind reference J"
| "journal_step H J (CallReconcile operation_id fence outcome now evidence reference matched absence) =
     reconcile operation_id fence outcome now evidence reference matched absence J"
| "journal_step H J (CallFinalize budget operation_id name data) = finalize_artifact H budget operation_id name data J"

text \<open>A Python dictionary has one value per key.\<close>

fun call_ok :: "journal_call \<Rightarrow> bool" where
  "call_ok (CallIntent _ _ request) = unique_keys (JObj request)"
| "call_ok (CallClaim granted _ _ _ _) = (case granted of Inl _ \<Rightarrow> True
     | Inr (_, facts) \<Rightarrow> (\<forall>w \<in> set facts. unique_keys (JObj (work_fields w))))"
| "call_ok _ = True"

abbreviation journal_reaches :: "hash \<Rightarrow> journal \<Rightarrow> journal \<Rightarrow> bool" where
  "journal_reaches H \<equiv> reaches (journal_step H) call_ok"

section \<open>Invariant\<close>

definition proven :: "journal \<Rightarrow> operation_row \<Rightarrow> reconcile_outcome \<Rightarrow> bool" where
  "proven J row p \<longleftrightarrow> (\<exists>n \<in> set (jn_reconciliations J). rn_operation n = op_id row \<and> rn_fence n = op_fence row
     \<and> rn_outcome n = p \<and> nonblank (rn_evidence n)
     \<and> (p = OutcomeAbsent \<and> rn_authoritative_absence n \<or> p = OutcomeIdempotent \<and> rn_matched_digest n = Some (op_request_digest row)))"

definition observed_as :: "journal \<Rightarrow> string \<Rightarrow> operation_status \<Rightarrow> bool" where
  "observed_as J operation_id kind \<longleftrightarrow> (\<exists>o' \<in> set (jn_observations J). ob_operation o' = operation_id \<and> ob_kind o' = kind)"

definition enveloped :: "hash \<Rightarrow> operation_row \<Rightarrow> bool" where
  "enveloped H row \<longleftrightarrow> (\<exists>request. unique_keys (JObj request) \<and> op_request_json row = request_envelope request)
     \<and> op_request_digest row = H (op_request_json row)"

definition attempts_ok :: "journal \<Rightarrow> operation_row \<Rightarrow> bool" where
  "attempts_ok J row \<longleftrightarrow> 0 \<le> op_fence row \<and> map dl_fence (deliveries_of J (op_id row)) = [1..op_fence row]
     \<and> (op_status row = OpIntent \<longleftrightarrow> op_fence row = 0)"

definition receipts_ok :: "journal \<Rightarrow> operation_row \<Rightarrow> bool" where
  "receipts_ok J row \<longleftrightarrow>
     (op_accepted_reference row \<noteq> None \<longleftrightarrow> op_status row \<in> {OpAccepted, OpRunning, OpWaiting, OpTerminal})
     \<and> (op_accepted_reference row \<noteq> None \<longrightarrow> accepted_receipt J (op_id row) (op_accepted_reference row))
     \<and> (op_status row \<in> {OpRejected, OpRunning, OpWaiting, OpTerminal} \<longrightarrow> observed_as J (op_id row) (op_status row))
     \<and> (\<forall>p. op_retry_proof row = Some p \<longrightarrow> op_status row = OpUnknown \<and> proven J row p)"

definition row_ok :: "hash \<Rightarrow> journal \<Rightarrow> operation_row \<Rightarrow> bool" where
  "row_ok H J row \<longleftrightarrow> enveloped H row \<and> attempts_ok J row \<and> receipts_ok J row"

definition blobs_ok :: "hash \<Rightarrow> journal \<Rightarrow> bool" where
  "blobs_ok H J \<longleftrightarrow> (\<forall>a \<in> set (jn_artifacts J). \<exists>data. verify_blob H J (ar_digest a) (ar_size a) = Inr data)"

definition journal_ok :: "hash \<Rightarrow> journal \<Rightarrow> bool" where
  "journal_ok H J \<longleftrightarrow> distinct (map op_id (jn_operations J)) \<and> distinct (map op_effect_key (jn_operations J)) \<and> jn_outbox J = map op_id (jn_operations J)
     \<and> dl_operation ` set (jn_deliveries J) \<subseteq> op_id ` set (jn_operations J)
     \<and> (\<forall>row \<in> set (jn_operations J). row_ok H J row) \<and> blobs_ok H J"

lemma journal_okD:
  assumes "journal_ok H J"
  shows "distinct (map op_id (jn_operations J))" "jn_outbox J = map op_id (jn_operations J)"
    "dl_operation ` set (jn_deliveries J) \<subseteq> op_id ` set (jn_operations J)"
    "row \<in> set (jn_operations J) \<Longrightarrow> row_ok H J row" "blobs_ok H J" "distinct (map op_effect_key (jn_operations J))"
  using assms by (simp_all add: journal_ok_def)

lemma empty_journal_ok: "journal_ok H empty_journal"
  by (simp add: journal_ok_def empty_journal_def blobs_ok_def)

text \<open>What the other rows see of a call on one operation.\<close>

definition grows :: "journal \<Rightarrow> journal \<Rightarrow> bool" where
  "grows J J' \<longleftrightarrow> set (jn_observations J) \<subseteq> set (jn_observations J') \<and> set (jn_reconciliations J) \<subseteq> set (jn_reconciliations J')"

lemma accepted_receipt_mono: "grows J J' \<Longrightarrow> accepted_receipt J i r \<Longrightarrow> accepted_receipt J' i r"
  by (cases r) (auto simp: accepted_receipt_def grows_def list_ex_iff)

lemma receipts_ok_mono: "grows J J' \<Longrightarrow> receipts_ok J row \<Longrightarrow> receipts_ok J' row"
  unfolding receipts_ok_def observed_as_def proven_def using accepted_receipt_mono grows_def by fast

lemma row_ok_mono:
  "grows J J' \<Longrightarrow> deliveries_of J' (op_id row) = deliveries_of J (op_id row) \<Longrightarrow> row_ok H J row \<Longrightarrow> row_ok H J' row"
  by (simp add: row_ok_def attempts_ok_def receipts_ok_mono)

section \<open>Rows\<close>

lemma find_row_SomeD: "find_row J i = Some row \<Longrightarrow> row \<in> set (jn_operations J) \<and> op_id row = i"
  by (auto simp: find_row_def find_Some_iff)

lemma operation_Inr:
  "operation J i = Inr (row, n) \<longleftrightarrow> nonblank i \<and> find_row J i = Some row \<and> n = length (deliveries_of J i)"
  by (auto simp: operation_def res_simps split: option.splits)

lemma update_operation_ids [simp]:
  "(\<And>row. op_id (f row) = op_id row) \<Longrightarrow> map op_id (update_operation i f rows) = map op_id rows"
  "(\<And>row. op_effect_key (f row) = op_effect_key row) \<Longrightarrow> map op_effect_key (update_operation i f rows) = map op_effect_key rows"
  by (induction rows) (simp_all add: update_operation_def)

lemma in_update_operation:
  "row \<in> set (update_operation i f rows) \<longleftrightarrow>
     (row \<in> set rows \<and> op_id row \<noteq> i) \<or> (\<exists>old \<in> set rows. op_id old = i \<and> row = f old)"
  by (auto simp: update_operation_def image_iff)

text \<open>A call that rewrites the row of one operation and adds to the other tables.\<close>

lemma journal_ok_update:
  assumes ok: "journal_ok H J" and op: "find_row J i = Some op"
    and f: "\<And>row. op_id (f row) = op_id row" and e: "\<And>row. op_effect_key (f row) = op_effect_key row"
    and J': "jn_operations J' = update_operation i f (jn_operations J)" "jn_outbox J' = jn_outbox J"
      "jn_artifacts J' = jn_artifacts J" "jn_blobs J' = jn_blobs J"
    and grow: "grows J J'" and dl: "dl_operation ` set (jn_deliveries J') \<subseteq> insert i (dl_operation ` set (jn_deliveries J))"
    and same: "\<And>j. j \<noteq> i \<Longrightarrow> deliveries_of J' j = deliveries_of J j"
    and new: "row_ok H J' (f op)"
  shows "journal_ok H J'"
proof -
  note J = journal_okD[OF ok]
  have o: "op \<in> set (jn_operations J)" "op_id op = i" using find_row_SomeD[OF op] by simp_all
  have ids: "op_id ` set (update_operation i f (jn_operations J)) = op_id ` set (jn_operations J)"
    using arg_cong[OF update_operation_ids(1)[of f i "jn_operations J", OF f], of set] by simp
  have "row_ok H J' row" if row: "row \<in> set (jn_operations J')" for row
  proof (cases "op_id row = i")
    case True
    obtain old where "old \<in> set (jn_operations J)" "op_id old = i" "row = f old"
      using row[unfolded J'(1) in_update_operation] True by blast
    then have "row = f op" using o J(1) by (metis distinct_map inj_onD)
    then show ?thesis using new by simp
  next
    case False
    then have "row \<in> set (jn_operations J)" using row f by (auto simp: J'(1) in_update_operation)
    then show ?thesis using row_ok_mono[OF grow same[OF False] J(4)] by simp
  qed
  moreover have "blobs_ok H J'" using J(5) by (simp add: blobs_ok_def verify_blob_def J')
  moreover have "dl_operation ` set (jn_deliveries J') \<subseteq> op_id ` set (jn_operations J')"
    using dl J(3) o unfolding J'(1) ids by blast
  ultimately show ?thesis using J(1,2,6) f e by (simp add: journal_ok_def J')
qed

section \<open>Intents\<close>

lemma unique_keys_envelope:
  "unique_keys (JObj request) \<Longrightarrow> unique_keys (JObj [(''version'', JInt 1), (''request'', JObj request)])"
  by (simp add: unique_keys_JObj[of "[_, _]"])

lemma deliveries_of_unknown:
  assumes "journal_ok H J" and "i \<notin> op_id ` set (jn_operations J)"
  shows "deliveries_of J i = []"
  using journal_okD(3)[OF assms(1)] assms(2) by (auto simp: deliveries_of_def filter_empty_conv)

lemma row_ok_intent:
  assumes "unique_keys (JObj request)" and "deliveries_of J i = []"
  shows "row_ok H J \<lparr>op_id = i, op_effect_key = e, op_request_json = request_envelope request,
     op_request_digest = H (request_envelope request), op_fence = 0, op_lease_until = None, op_status = OpIntent,
     op_accepted_reference = None, op_retry_proof = None\<rparr>"
  using assms by (auto simp: row_ok_def enveloped_def attempts_ok_def receipts_ok_def)

lemma insert_intent_ok:
  assumes "journal_ok H J" and "unique_keys (JObj request)" and "insert_intent H allow i e request J = Inr J'"
  shows "journal_ok H J'"
proof (cases "filter (\<lambda>row. op_id row = i \<or> op_effect_key row = e) (jn_operations J) = []")
  case False
  then show ?thesis using assms(1,3) by (simp add: insert_intent_def Let_def res_simps)
next
  case True
  let ?row = "\<lparr>op_id = i, op_effect_key = e, op_request_json = request_envelope request,
     op_request_digest = H (request_envelope request), op_fence = 0, op_lease_until = None, op_status = OpIntent,
     op_accepted_reference = None, op_retry_proof = None\<rparr>"
  note J = journal_okD[OF assms(1)]
  from True have new: "i \<notin> op_id ` set (jn_operations J)" "e \<notin> op_effect_key ` set (jn_operations J)" by (auto simp: filter_empty_conv)
  have J': "J' = J\<lparr>jn_operations := jn_operations J @ [?row], jn_outbox := jn_outbox J @ [i]\<rparr>"
    using assms(3) True by (auto simp: insert_intent_def Let_def res_simps insert_row_def split: if_splits)
  have "grows J J'" by (simp add: grows_def J')
  then have "row_ok H J' row" if "row \<in> set (jn_operations J)" for row
    by (rule row_ok_mono) (simp_all add: deliveries_of_def J' J(4)[OF that])
  moreover have "row_ok H J' ?row"
    by (rule row_ok_intent[OF assms(2)]) (use deliveries_of_unknown[OF assms(1) new(1)] in \<open>simp add: deliveries_of_def J'\<close>)
  moreover have "dl_operation ` set (jn_deliveries J) \<subseteq> insert i (op_id ` set (jn_operations J))" using J(3) by blast
  moreover have "blobs_ok H J'" using J(5) by (simp add: blobs_ok_def verify_blob_def J')
  ultimately show ?thesis using J(1,2,6) new by (simp add: journal_ok_def J')
qed

lemma intent_ok: "journal_ok H J \<Longrightarrow> unique_keys (JObj request) \<Longrightarrow> intent H i e request J = Inr J' \<Longrightarrow> journal_ok H J'"
  by (auto simp: intent_def res_simps intro: insert_intent_ok)

lemma write_work_records_ok:
  "journal_ok H J \<Longrightarrow> \<forall>w \<in> set ws. unique_keys (JObj (work_fields w)) \<Longrightarrow> write_work_records H ws J = Inr J' \<Longrightarrow> journal_ok H J'"
  by (induction ws arbitrary: J)
    (auto simp: write_work_record_def Let_def rbind_eq_Inr dest: insert_intent_ok split: prod.splits)

text \<open>What an insertion leaves alone.\<close>

definition keeps :: "journal \<Rightarrow> journal \<Rightarrow> bool" where
  "keeps J J' \<longleftrightarrow> (\<exists>rows. jn_operations J' = jn_operations J @ rows) \<and> jn_deliveries J' = jn_deliveries J
     \<and> jn_observations J' = jn_observations J \<and> jn_transports J' = jn_transports J
     \<and> jn_reconciliations J' = jn_reconciliations J \<and> jn_artifacts J' = jn_artifacts J \<and> jn_blobs J' = jn_blobs J"

lemma keeps_refl: "keeps J J"
  by (simp add: keeps_def)

lemma keeps_trans: "keeps J J' \<Longrightarrow> keeps J' J'' \<Longrightarrow> keeps J J''"
  by (auto simp: keeps_def)

lemma insert_intent_keeps: "insert_intent H allow i e request J = Inr J' \<Longrightarrow> keeps J J'"
  by (auto simp: insert_intent_def Let_def res_simps keeps_def split: if_splits)

lemma write_work_records_keeps: "write_work_records H ws J = Inr J' \<Longrightarrow> keeps J J'"
proof (induction ws arbitrary: J)
  case (Cons w ws)
  then obtain J1 where J1: "write_work_record H w J = Inr J1" "write_work_records H ws J1 = Inr J'" by (auto simp: rbind_eq_Inr)
  have "keeps J J1" using J1(1) by (auto simp: write_work_record_def Let_def intro: insert_intent_keeps split: prod.splits)
  then show ?case using Cons.IH[OF J1(2)] by (rule keeps_trans)
qed (simp add: keeps_refl)

lemma find_append_Some: "List.find P xs = Some x \<Longrightarrow> List.find P (xs @ ys) = Some x"
  by (induction xs) auto

lemma keeps_find_row: "keeps J J' \<Longrightarrow> find_row J i = Some row \<Longrightarrow> find_row J' i = Some row"
  by (auto simp: keeps_def find_row_def find_append_Some)

lemma claim_authority_cases:
  assumes "claim_authority H granted owned i now J = Inr (J', time)"
  obtains (plain) "J' = J" "time = now" | (reserved) facts where "granted = Inr (time, facts)" "write_work_records H facts J = Inr J'"
  using assms by (auto simp: claim_authority_def rbind_eq_Inr guard_def split: option.splits if_splits)

lemma claim_authority_ok:
  assumes "claim_authority H granted owned i now J = Inr (J', time)"
  shows "keeps J J'" and "journal_ok H J \<Longrightarrow> call_ok (CallClaim granted owned i now l) \<Longrightarrow> journal_ok H J'"
  using assms by (cases rule: claim_authority_cases; simp add: keeps_refl write_work_records_keeps write_work_records_ok)+

section \<open>Claims\<close>

lemma claim_operation_Inr:
  assumes "claim_operation H granted owned i now lease J = Inr (fence, J')"
  obtains op J1 time request where "find_row J i = Some op" "claim_authority H granted owned i now J = Inr (J1, time)"
    "nonblank i" "request_of op = Inr request" "\<And>l. op_lease_until op = Some l \<Longrightarrow> l \<le> time" "op_status op \<notin> final_statuses"
    "deliveries_of J i = [] \<or> op_retry_proof op \<in> {Some OutcomeAbsent, Some OutcomeIdempotent}" "fence = op_fence op + 1" "0 < lease"
    "J' = J1\<lparr>jn_operations := update_operation i (\<lambda>row. row\<lparr>op_fence := fence, op_lease_until := Some (time + lease),
        op_status := OpDispatched, op_retry_proof := None\<rparr>) (jn_operations J1),
      jn_deliveries := jn_deliveries J1 @ [\<lparr>dl_operation = i, dl_fence = fence, dl_claimed_at = time, dl_lease_until = time + lease\<rparr>]\<rparr>"
proof -
  from assms obtain op n J1 time request ds where
      op: "operation J i = Inr (op, n)" and auth: "claim_authority H granted owned i now J = Inr (J1, time)"
    and req: "request_of op = Inr request" and lease: "\<not> (case op_lease_until op of None \<Rightarrow> False | Some l \<Rightarrow> time < l)"
    and st: "op_status op \<notin> final_statuses" and retry: "\<not> (n \<noteq> 0 \<and> op_retry_proof op \<notin> {Some OutcomeAbsent, Some OutcomeIdempotent})"
    and ds: "insert_row delivery_key \<lparr>dl_operation = i, dl_fence = op_fence op + 1, dl_claimed_at = time,
         dl_lease_until = time + lease\<rparr> (jn_deliveries J1) = Inr ds"
    and pos: "0 < lease" and fence: "fence = op_fence op + 1"
    and J': "J' = J1\<lparr>jn_operations := update_operation i (\<lambda>row. row\<lparr>op_fence := op_fence op + 1,
           op_lease_until := Some (time + lease), op_status := OpDispatched, op_retry_proof := None\<rparr>) (jn_operations J1),
         jn_deliveries := ds\<rparr>"
    unfolding claim_operation_def Let_def rbind_eq_Inr guard_eq_Inr by (auto simp: rbind_eq_Inr guard_eq_Inr)
  have "ds = jn_deliveries J1 @ [\<lparr>dl_operation = i, dl_fence = fence, dl_claimed_at = time, dl_lease_until = time + lease\<rparr>]"
    using ds by (simp add: insert_row_def fence split: if_splits)
  then show ?thesis
    using that[OF _ auth _ req _ st _ fence pos] op lease retry J' by (auto simp: operation_Inr fence split: option.splits)
qed

lemma upto_snoc: "0 \<le> n \<Longrightarrow> [1..n] @ [n + 1] = [1..n + 1]"
  using upto_rec2[of 1 "n + 1"] by simp

lemma deliveries_of_append:
  "deliveries_of (J\<lparr>jn_operations := ops, jn_deliveries := jn_deliveries J @ [d]\<rparr>) i
     = deliveries_of J i @ (if dl_operation d = i then [d] else [])"
  by (simp add: deliveries_of_def)

lemma claim_operation_ok:
  assumes "journal_ok H J" and "call_ok (CallClaim granted owned i now lease)"
    and "claim_operation H granted owned i now lease J = Inr (fence, J')"
  shows "journal_ok H J'"
  using assms(3)
proof (cases rule: claim_operation_Inr)
  case (1 op J1 time request)
  let ?f = "\<lambda>row. row\<lparr>op_fence := fence, op_lease_until := Some (time + lease), op_status := OpDispatched, op_retry_proof := None\<rparr>"
  have ok: "journal_ok H J1" by (rule claim_authority_ok(2)[OF 1(2) assms(1,2)])
  have kept: "keeps J J1" by (rule claim_authority_ok(1)[OF 1(2)])
  have op: "find_row J1 i = Some op" by (rule keeps_find_row[OF kept 1(1)])
  then have o: "row_ok H J1 op" "op_id op = i" using journal_okD(4)[OF ok] find_row_SomeD by blast+
  have dl: "deliveries_of J' j = deliveries_of J1 j @ (if i = j
      then [\<lparr>dl_operation = i, dl_fence = fence, dl_claimed_at = time, dl_lease_until = time + lease\<rparr>] else [])" for j
    by (simp add: 1(10) deliveries_of_append)
  show ?thesis
  proof (rule journal_ok_update[OF ok op, where f = ?f])
    show "grows J1 J'" by (simp add: grows_def 1(10))
    have "op_accepted_reference op = None" "op_status op \<in> {OpIntent, OpDispatched, OpUnknown}"
      using o(1) 1(6) by (cases "op_status op"; simp add: row_ok_def receipts_ok_def final_statuses_def)+
    then have "receipts_ok J' (?f op)" by (simp add: receipts_ok_def)
    moreover have "attempts_ok J' (?f op)"
      using o upto_snoc[of "op_fence op"] by (simp add: row_ok_def attempts_ok_def dl 1(8))
    moreover have "enveloped H (?f op)" using o(1) by (simp add: row_ok_def enveloped_def)
    ultimately show "row_ok H J' (?f op)" by (simp add: row_ok_def)
  qed (simp_all add: 1(10) dl deliveries_of_append)
qed

section \<open>Transport reports\<close>

lemma record_transport_Inr:
  assumes "record_transport i fence b J = Inr J'"
  shows "J' = J \<or> J' = J\<lparr>jn_transports := jn_transports J @ [\<lparr>tr_operation = i, tr_fence = fence, tr_succeeded = b\<rparr>]\<rparr>"
  using assms by (auto simp: record_transport_def rbind_eq_Inr guard_eq_Inr split: option.splits)

lemma record_transport_ok:
  assumes "journal_ok H J" and "record_transport i fence b J = Inr J'"
  shows "journal_ok H J'"
proof -
  let ?J = "J\<lparr>jn_transports := jn_transports J @ [\<lparr>tr_operation = i, tr_fence = fence, tr_succeeded = b\<rparr>]\<rparr>"
  have "row_ok H ?J row \<longleftrightarrow> row_ok H J row" for row
    by (cases "op_accepted_reference row")
      (simp_all add: row_ok_def attempts_ok_def deliveries_of_def receipts_ok_def accepted_receipt_def observed_as_def proven_def)
  then have "journal_ok H ?J \<longleftrightarrow> journal_ok H J" by (simp add: journal_ok_def blobs_ok_def verify_blob_def)
  then show ?thesis using record_transport_Inr[OF assms(2)] assms(1) by auto
qed

section \<open>Observations\<close>

lemma observe_Inr:
  assumes "observe i fence oid k reference J = Inr J'"
  obtains (again) "J' = J"
  | (new) op kind where "find_row J i = Some op" "op_fence op = fence" "deliveries_of J i \<noteq> []" "op_retry_proof op = None"
      "check_observation op kind reference = Inr ()" "kind \<notin> {OpIntent, OpDispatched}" "kind = OpAccepted \<Longrightarrow> reference \<noteq> None"
      "J' = J\<lparr>jn_observations := jn_observations J @ [\<lparr>ob_id = oid, ob_operation = i, ob_fence = fence, ob_kind = kind, ob_reference = reference\<rparr>],
         jn_operations := update_operation i (\<lambda>row. row\<lparr>op_status := next_operation_status (op_status op) kind,
           op_accepted_reference := coalesce (op_accepted_reference row) (if kind = OpAccepted then reference else None)\<rparr>)
           (jn_operations J)\<rparr>"
proof -
  from assms obtain kind where kind: "parse_kind k = Some kind" by (cases "parse_kind k") (auto simp: observe_def rbind_eq_Inr)
  from assms obtain op n where ref: "\<not> (kind \<in> {OpAccepted, OpWaiting} \<and> (case reference of None \<Rightarrow> True | Some r \<Rightarrow> \<not> nonblank r))"
    and op: "operation J i = Inr (op, n)" and g: "\<not> (op_fence op \<noteq> fence \<or> n = 0)" "op_retry_proof op = None"
    and rest: "record_observation op i fence oid kind reference J = Inr J'"
    by (auto simp: observe_def kind rbind_eq_Inr guard_eq_Inr)
  show ?thesis
  proof (cases "List.find (\<lambda>o'. ob_id o' = oid) (jn_observations J)")
    case None
    have "kind \<notin> {OpIntent, OpDispatched}" using kind by (auto simp: parse_kind_def split: if_splits)
    moreover have "kind = OpAccepted \<Longrightarrow> reference \<noteq> None" using ref by (auto split: option.splits)
    ultimately show ?thesis using new[of op kind] rest None op g
      by (simp add: record_observation_def rbind_eq_Inr guard_eq_Inr operation_Inr)
  next
    case (Some d)
    then show ?thesis using again rest by (simp add: record_observation_def rbind_eq_Inr guard_eq_Inr)
  qed
qed

lemma observed_row_ok:
  assumes "row_ok H J op" and "op_retry_proof op = None" and "0 < op_fence op"
    and "check_observation op kind reference = Inr ()" and "kind \<notin> {OpIntent, OpDispatched}" and "kind = OpAccepted \<Longrightarrow> reference \<noteq> None"
    and grow: "grows J J'" and dl: "deliveries_of J' (op_id op) = deliveries_of J (op_id op)"
    and new: "\<lparr>ob_id = oid, ob_operation = op_id op, ob_fence = fence, ob_kind = kind, ob_reference = reference\<rparr> \<in> set (jn_observations J')"
  shows "row_ok H J' (op\<lparr>op_status := next_operation_status (op_status op) kind,
     op_accepted_reference := coalesce (op_accepted_reference op) (if kind = OpAccepted then reference else None)\<rparr>)" (is "row_ok H J' ?row")
proof -
  note old = row_ok_mono[OF grow dl assms(1), unfolded row_ok_def]
  note C = assms(4)[unfolded check_observation_def rbind_eq_Inr guard_eq_Inr]
  have r: "receipts_ok J' op" using old by simp
  have obs: "observed_as J' (op_id op) kind" using new by (force simp: observed_as_def)
  have acc: "accepted_receipt J' (op_id op) reference" if "kind = OpAccepted"
    using new that assms(6) by (cases reference) (force simp: accepted_receipt_def list_ex_iff)+
  have s: "op_status op \<noteq> OpIntent" using old assms(3) by (simp add: attempts_ok_def)
  have "receipts_ok J' ?row"
    using r C obs acc s assms(2,5,6)
    by (cases "op_status op"; cases kind) (auto simp: receipts_ok_def next_operation_status_def coalesce_def split: option.splits)
  moreover have "attempts_ok J' ?row"
    using old s assms(3,5) by (cases kind) (simp_all add: attempts_ok_def next_operation_status_def)
  ultimately show ?thesis using old by (simp add: row_ok_def enveloped_def)
qed

lemma fence_positive:
  assumes "row_ok H J op" and "op_id op = i" and "deliveries_of J i \<noteq> []"
  shows "0 < op_fence op"
proof (rule ccontr)
  assume "\<not> 0 < op_fence op"
  then have "map dl_fence (deliveries_of J i) = []" using assms(1,2) by (simp add: row_ok_def attempts_ok_def)
  then show False using assms(3) by simp
qed

lemma observe_ok:
  assumes "journal_ok H J" and "observe i fence oid k reference J = Inr J'"
  shows "journal_ok H J'"
  using assms(2)
proof (cases rule: observe_Inr)
  case again
  then show ?thesis using assms(1) by simp
next
  case (new op kind)
  let ?f = "\<lambda>row. row\<lparr>op_status := next_operation_status (op_status op) kind,
     op_accepted_reference := coalesce (op_accepted_reference row) (if kind = OpAccepted then reference else None)\<rparr>"
  have o: "row_ok H J op" "op_id op = i" using journal_okD(4)[OF assms(1)] find_row_SomeD[OF new(1)] by blast+
  have dl: "deliveries_of J' j = deliveries_of J j" for j by (simp add: deliveries_of_def new(8))
  have g: "grows J J'" by (auto simp: grows_def new(8))
  show ?thesis
  proof (rule journal_ok_update[OF assms(1) new(1), where f = ?f])
    show "grows J J'" by (rule g)
    show "row_ok H J' (?f op)"
      by (rule observed_row_ok[OF o(1) new(4) fence_positive[OF o new(3)] new(5-7) g dl, of oid fence]) (simp_all add: new(8) o(2))
  qed (auto simp: new(8) deliveries_of_def)
qed

section \<open>Reconciliations\<close>

lemma reconcile_Inr:
  assumes "reconcile i fence outcome_text now evidence reference matched absence J = Inr J'"
  obtains op outcome where "find_row J i = Some op" "op_fence op = fence" "deliveries_of J i \<noteq> []"
    "op_status op \<in> {OpDispatched, OpUnknown}" "nonblank evidence" "parse_outcome outcome_text = Some outcome"
    "check_reconciliation op outcome now reference matched absence = Inr ()"
    "J' = J\<lparr>jn_reconciliations := jn_reconciliations J @ [\<lparr>rn_operation = i, rn_fence = fence, rn_outcome = outcome,
           rn_reference = reference, rn_evidence = evidence, rn_matched_digest = matched, rn_authoritative_absence = absence\<rparr>],
       jn_operations := update_operation i (\<lambda>row. row\<lparr>op_status := (if outcome = OutcomeFound then OpAccepted else OpUnknown),
           op_accepted_reference := coalesce (op_accepted_reference row) (if outcome = OutcomeFound then reference else None),
           op_retry_proof := (if outcome \<in> {OutcomeAbsent, OutcomeIdempotent} then Some outcome else None),
           op_lease_until := None\<rparr>) (jn_operations J)\<rparr>"
proof -
  from assms obtain outcome where outcome: "parse_outcome outcome_text = Some outcome"
    by (cases "parse_outcome outcome_text") (auto simp: reconcile_def)
  from assms obtain op n where "nonblank evidence" "operation J i = Inr (op, n)"
    "\<not> (op_fence op \<noteq> fence \<or> n = 0 \<or> op_status op \<notin> {OpDispatched, OpUnknown})"
    "check_reconciliation op outcome now reference matched absence = Inr ()"
    "J' = J\<lparr>jn_reconciliations := jn_reconciliations J @ [\<lparr>rn_operation = i, rn_fence = fence, rn_outcome = outcome,
           rn_reference = reference, rn_evidence = evidence, rn_matched_digest = matched, rn_authoritative_absence = absence\<rparr>],
       jn_operations := update_operation i (\<lambda>row. row\<lparr>op_status := (if outcome = OutcomeFound then OpAccepted else OpUnknown),
           op_accepted_reference := coalesce (op_accepted_reference row) (if outcome = OutcomeFound then reference else None),
           op_retry_proof := (if outcome \<in> {OutcomeAbsent, OutcomeIdempotent} then Some outcome else None),
           op_lease_until := None\<rparr>) (jn_operations J)\<rparr>"
    unfolding reconcile_def outcome option.case rbind_eq_Inr guard_eq_Inr by (auto simp: rbind_eq_Inr guard_eq_Inr)
  then show ?thesis using that[OF _ _ _ _ _ outcome] by (simp add: operation_Inr)
qed

lemma reconciled_row_ok:
  assumes "row_ok H J op" and "op_status op \<in> {OpDispatched, OpUnknown}" and "0 < op_fence op"
    and "check_reconciliation op outcome now reference matched absence = Inr ()" and "nonblank evidence"
    and grow: "grows J J'" and dl: "deliveries_of J' (op_id op) = deliveries_of J (op_id op)"
    and new: "\<lparr>rn_operation = op_id op, rn_fence = op_fence op, rn_outcome = outcome, rn_reference = reference,
        rn_evidence = evidence, rn_matched_digest = matched, rn_authoritative_absence = absence\<rparr> \<in> set (jn_reconciliations J')"
  shows "row_ok H J' (op\<lparr>op_status := (if outcome = OutcomeFound then OpAccepted else OpUnknown),
     op_accepted_reference := coalesce (op_accepted_reference op) (if outcome = OutcomeFound then reference else None),
     op_retry_proof := (if outcome \<in> {OutcomeAbsent, OutcomeIdempotent} then Some outcome else None), op_lease_until := None\<rparr>)"
    (is "row_ok H J' ?row")
proof -
  note old = row_ok_mono[OF grow dl assms(1), unfolded row_ok_def]
  note C = assms(4)[unfolded check_reconciliation_def rbind_eq_Inr guard_eq_Inr]
  have none: "op_accepted_reference op = None" using old assms(2) by (auto simp: receipts_ok_def)
  have acc: "accepted_receipt J' (op_id op) reference" if "outcome = OutcomeFound"
    using new that C by (cases reference) (force simp: accepted_receipt_def list_ex_iff)+
  have proof': "proven J' ?row outcome" if "outcome \<in> {OutcomeAbsent, OutcomeIdempotent}"
    unfolding proven_def by (rule bexI[OF _ new]) (use that C assms(5) in auto)
  have "receipts_ok J' ?row"
    using none acc proof' C by (cases outcome) (auto simp: receipts_ok_def coalesce_def)
  moreover have "attempts_ok J' ?row" using old assms(2,3) by (auto simp: attempts_ok_def)
  ultimately show ?thesis using old by (simp add: row_ok_def enveloped_def)
qed

lemma reconcile_ok:
  assumes "journal_ok H J" and "reconcile i fence outcome_text now evidence reference matched absence J = Inr J'"
  shows "journal_ok H J'"
  using assms(2)
proof (cases rule: reconcile_Inr)
  case (1 op outcome)
  let ?f = "\<lambda>row. row\<lparr>op_status := (if outcome = OutcomeFound then OpAccepted else OpUnknown),
     op_accepted_reference := coalesce (op_accepted_reference row) (if outcome = OutcomeFound then reference else None),
     op_retry_proof := (if outcome \<in> {OutcomeAbsent, OutcomeIdempotent} then Some outcome else None), op_lease_until := None\<rparr>"
  have o: "row_ok H J op" "op_id op = i" using journal_okD(4)[OF assms(1)] find_row_SomeD[OF 1(1)] by blast+
  have dl: "deliveries_of J' j = deliveries_of J j" for j by (simp add: deliveries_of_def 1(8))
  have g: "grows J J'" by (auto simp: grows_def 1(8))
  show ?thesis
  proof (rule journal_ok_update[OF assms(1) 1(1), where f = ?f])
    show "grows J J'" by (rule g)
    show "row_ok H J' (?f op)"
      by (rule reconciled_row_ok[OF o(1) 1(4) fence_positive[OF o 1(3)] 1(7) 1(5) g dl]) (simp add: 1(8) 1(2) o(2))
  qed (auto simp: 1(8) deliveries_of_def)
qed

section \<open>Artifacts\<close>

lemma stage_blob_cases:
  assumes "stage_blob H digest data J = Inr J'" and "digest = H data"
  obtains (stored) "J' = J" "\<exists>d. verify_blob H J digest (int (length data)) = Inr d"
  | (new) "map_of (jn_blobs J) digest = None" "J' = J\<lparr>jn_blobs := (digest, data) # jn_blobs J\<rparr>"
  using assms by (cases "map_of (jn_blobs J) digest") (auto simp: stage_blob_def rbind_eq_Inr)

lemma stage_blob_keeps:
  assumes "stage_blob H (H data) data J = Inr J'" and "verify_blob H J d l = Inr x"
  shows "verify_blob H J' d l = Inr x"
  using assms(1) refl
proof (cases rule: stage_blob_cases)
  case stored
  then show ?thesis using assms(2) by simp
next
  case new
  then have "d \<noteq> H data" using assms(2) by (auto simp: verify_blob_def)
  then show ?thesis using assms(2) new(2) by (simp add: verify_blob_def)
qed

lemma stage_blob_verifies:
  assumes "stage_blob H (H data) data J = Inr J'"
  obtains d where "verify_blob H J' (H data) (int (length data)) = Inr d" "H d = H data"
  using assms refl
proof (cases rule: stage_blob_cases)
  case stored
  then obtain d where d: "verify_blob H J (H data) (int (length data)) = Inr d" by blast
  then have "H d = H data" by (auto simp: verify_blob_def split: option.splits if_splits)
  then show ?thesis using that d stored(1) by simp
next
  case new
  then show ?thesis using that[of data] by (simp add: verify_blob_def)
qed

lemma stage_blob_tables: "stage_blob H digest data J = Inr J' \<Longrightarrow> J' = J\<lparr>jn_blobs := jn_blobs J'\<rparr>"
  by (auto simp: stage_blob_def rbind_eq_Inr split: option.splits)

lemma finalize_artifact_Inr:
  assumes "finalize_artifact H budget i name data J = Inr J'"
  obtains J1 where "stage_blob H (H data) data J = Inr J1" "find_row J i \<noteq> None"
    "J' = J1 \<and> (\<exists>a. find_artifact_row J i name = Some a \<and> ar_digest a = H data \<and> ar_size a = int (length data))
     \<or> find_artifact_row J i name = None \<and> J' = J1\<lparr>jn_artifacts := jn_artifacts J1 @ [\<lparr>ar_operation = i, ar_name = name,
         ar_digest = H data, ar_size = int (length data)\<rparr>]\<rparr>"
proof -
  from assms obtain op n J1 where op: "operation J i = Inr (op, n)" and J1: "stage_blob H (H data) data J = Inr J1"
    and rest: "(case find_artifact_row J1 i name of
       Some existing \<Rightarrow> rbind (guard ((ar_digest existing, ar_size existing) = (H data, int (length data))) OperationConflict) (\<lambda>_. Inr J1)
     | None \<Rightarrow> rbind (guard (length (H data) = 64) StoreIntegrityError) (\<lambda>_.
         Inr (J1\<lparr>jn_artifacts := jn_artifacts J1 @ [\<lparr>ar_operation = i, ar_name = name, ar_digest = H data,
           ar_size = int (length data)\<rparr>]\<rparr>))) = Inr J'"
    by (auto simp: finalize_artifact_def Let_def rbind_eq_Inr guard_eq_Inr)
  have same: "find_artifact_row J1 i name = find_artifact_row J i name"
    by (subst stage_blob_tables[OF J1]) (simp add: find_artifact_row_def)
  show ?thesis
  proof (cases "find_artifact_row J i name")
    case None
    then show ?thesis using that[OF J1] rest op same by (simp add: operation_Inr rbind_eq_Inr guard_eq_Inr)
  next
    case (Some a)
    then show ?thesis using that[OF J1] rest op same by (simp add: operation_Inr rbind_eq_Inr guard_eq_Inr)
  qed
qed

lemma row_ok_tables: "row_ok H (J\<lparr>jn_blobs := b\<rparr>) row = row_ok H J row" "row_ok H (J\<lparr>jn_artifacts := a\<rparr>) row = row_ok H J row"
  by (cases "op_accepted_reference row";
    simp add: row_ok_def attempts_ok_def deliveries_of_def receipts_ok_def accepted_receipt_def observed_as_def proven_def)+

lemma verify_blob_tables: "verify_blob H (J\<lparr>jn_artifacts := a\<rparr>) d l = verify_blob H J d l"
  by (simp add: verify_blob_def)

lemma stage_blob_ok:
  assumes "journal_ok H J" and "stage_blob H (H data) data J = Inr J1"
  shows "journal_ok H J1"
proof -
  have J1: "J1 = J\<lparr>jn_blobs := jn_blobs J1\<rparr>" by (rule stage_blob_tables[OF assms(2)])
  have "blobs_ok H J1"
    using journal_okD(5)[OF assms(1)] stage_blob_keeps[OF assms(2)] arg_cong[OF J1, of jn_artifacts]
    by (fastforce simp: blobs_ok_def)
  then show ?thesis using assms(1) by (subst (asm) J1, subst J1) (simp add: journal_ok_def row_ok_tables)
qed

lemma finalize_artifact_ok:
  assumes "journal_ok H J" and "finalize_artifact H budget i name data J = Inr J'"
  shows "journal_ok H J'"
  using assms(2)
proof (cases rule: finalize_artifact_Inr)
  case (1 J1)
  have ok: "journal_ok H J1" by (rule stage_blob_ok[OF assms(1) 1(1)])
  obtain d where d: "verify_blob H J1 (H data) (int (length data)) = Inr d" by (rule stage_blob_verifies[OF 1(1)])
  have "journal_ok H (J1\<lparr>jn_artifacts := jn_artifacts J1 @ [\<lparr>ar_operation = i, ar_name = name, ar_digest = H data,
           ar_size = int (length data)\<rparr>]\<rparr>)"
    using ok d by (auto simp: journal_ok_def row_ok_tables blobs_ok_def verify_blob_tables)
  then show ?thesis using 1(3) ok by auto
qed

section \<open>The machine\<close>

lemma journal_step_ok:
  assumes "journal_ok H J" and "call_ok c" and "journal_step H J c = Inr J'"
  shows "journal_ok H J'"
proof (cases c)
  case (CallClaim granted owned i now lease)
  then obtain fence where "claim_operation H granted owned i now lease J = Inr (fence, J')"
    using assms(3) by (cases "claim_operation H granted owned i now lease J") auto
  then show ?thesis using claim_operation_ok[OF assms(1)] assms(2) CallClaim by simp
qed (use assms in \<open>auto intro: intent_ok record_transport_ok observe_ok reconcile_ok finalize_artifact_ok\<close>)

end
