(* ===== verification/Journal_Theorems.thy ===== *)
theory Journal_Theorems
  imports Journal_Invariant Spec_Digests
begin

text \<open>
  The promises of the operation journal: the store's own startup validation accepts every journal it can
  write, an accepted effect is final, a repeated delivery has durable proof, one identity per effect,
  immutable artifacts, and no constraint of the tables is ever violated.
\<close>

declare canon.simps(6) [simp del]

section \<open>What a call leaves in place\<close>

definition op_extends :: "operation_row \<Rightarrow> operation_row \<Rightarrow> bool" where
  "op_extends row row' \<longleftrightarrow> op_id row' = op_id row \<and> op_effect_key row' = op_effect_key row
     \<and> op_request_json row' = op_request_json row \<and> op_request_digest row' = op_request_digest row
     \<and> op_fence row \<le> op_fence row'
     \<and> (op_status row \<in> {OpTerminal, OpRejected} \<longrightarrow> op_status row' = op_status row \<and> op_fence row' = op_fence row)
     \<and> (op_accepted_reference row \<noteq> None \<longrightarrow> op_accepted_reference row' = op_accepted_reference row \<and> op_fence row' = op_fence row)"

definition journal_extends :: "hash \<Rightarrow> journal \<Rightarrow> journal \<Rightarrow> bool" where
  "journal_extends H J J' \<longleftrightarrow> (\<forall>row \<in> set (jn_operations J). \<exists>row' \<in> set (jn_operations J'). op_extends row row')
     \<and> (\<exists>ds. jn_deliveries J' = jn_deliveries J @ ds) \<and> (\<exists>os. jn_observations J' = jn_observations J @ os)
     \<and> (\<exists>ts. jn_transports J' = jn_transports J @ ts) \<and> (\<exists>rs. jn_reconciliations J' = jn_reconciliations J @ rs)
     \<and> (\<exists>as. jn_artifacts J' = jn_artifacts J @ as)
     \<and> (\<forall>d l x. verify_blob H J d l = Inr x \<longrightarrow> verify_blob H J' d l = Inr x)"

lemma op_extends_refl: "op_extends row row"
  by (simp add: op_extends_def)

lemma op_extends_trans: "op_extends a b \<Longrightarrow> op_extends b c \<Longrightarrow> op_extends a c"
  by (auto simp: op_extends_def)

lemma journal_extends_refl: "journal_extends H J J"
  using op_extends_refl by (auto simp: journal_extends_def)

lemma journal_extends_trans:
  assumes "journal_extends H J J'" and "journal_extends H J' J''"
  shows "journal_extends H J J''"
proof -
  have "\<exists>row'' \<in> set (jn_operations J''). op_extends row row''" if "row \<in> set (jn_operations J)" for row
    using assms that op_extends_trans unfolding journal_extends_def by metis
  then show ?thesis using assms by (auto simp: journal_extends_def)
qed

lemma journal_extends_same:
  assumes "jn_operations J' = jn_operations J" and "\<exists>ts. jn_transports J' = jn_transports J @ ts"
    and "\<exists>as. jn_artifacts J' = jn_artifacts J @ as" and "jn_deliveries J' = jn_deliveries J"
    and "jn_observations J' = jn_observations J" and "jn_reconciliations J' = jn_reconciliations J"
    and "\<And>d l x. verify_blob H J d l = Inr x \<Longrightarrow> verify_blob H J' d l = Inr x"
  shows "journal_extends H J J'"
proof -
  have "\<exists>row' \<in> set (jn_operations J'). op_extends row row'" if "row \<in> set (jn_operations J)" for row
    using that assms(1) op_extends_refl[of row] by auto
  then show ?thesis using assms unfolding journal_extends_def by simp
qed

lemma keeps_extends: "keeps J J' \<Longrightarrow> journal_extends H J J'"
  using op_extends_refl by (fastforce simp: keeps_def journal_extends_def verify_blob_def)

lemma update_extends:
  assumes "journal_ok H J" and "find_row J i = Some op" and "op_extends op (f op)" and "row \<in> set (jn_operations J)"
  shows "\<exists>row' \<in> set (update_operation i f (jn_operations J)). op_extends row row'"
proof (cases "op_id row = i")
  case True
  then have "row = op" using journal_okD(1)[OF assms(1)] find_row_SomeD[OF assms(2)] assms(4) by (metis distinct_map inj_onD)
  then show ?thesis using assms(3,4) True by (intro bexI[of _ "f op"]) (auto simp: in_update_operation)
next
  case False
  then show ?thesis using assms(4) op_extends_refl by (intro bexI[of _ row]) (auto simp: in_update_operation)
qed

lemma no_acceptance:
  assumes "journal_ok H J" and "find_row J i = Some op" and "op_status op \<notin> {OpAccepted, OpRunning, OpWaiting, OpTerminal}"
  shows "op_accepted_reference op = None"
  using journal_okD(4)[OF assms(1), of op] find_row_SomeD[OF assms(2)] assms(3) by (simp add: row_ok_def receipts_ok_def)

lemma claim_extends:
  assumes "journal_ok H J" and "call_ok (CallClaim granted owned i now lease)"
    and "claim_operation H granted owned i now lease J = Inr (fence, J')"
  shows "journal_extends H J J'"
  using assms(3)
proof (cases rule: claim_operation_Inr)
  case (1 op J1 time request)
  let ?f = "\<lambda>row. row\<lparr>op_fence := fence, op_lease_until := Some (time + lease), op_status := OpDispatched, op_retry_proof := None\<rparr>"
  have kept: "keeps J J1" and ok: "journal_ok H J1"
    using claim_authority_ok[OF 1(2)] assms(1,2) by blast+
  have op: "find_row J1 i = Some op" by (rule keeps_find_row[OF kept 1(1)])
  have "op_extends op (?f op)"
    using 1(6) no_acceptance[OF ok op] by (simp add: op_extends_def final_statuses_def 1(8))
  note upd = update_extends[where f = ?f, OF ok op this]
  have "journal_extends H J1 J'" using upd by (simp add: journal_extends_def 1(10) verify_blob_def)
  then show ?thesis by (rule journal_extends_trans[OF keeps_extends[OF kept]])
qed

lemma observe_extends:
  assumes "journal_ok H J" and "observe i fence oid k reference J = Inr J'"
  shows "journal_extends H J J'"
  using assms(2)
proof (cases rule: observe_Inr)
  case again
  then show ?thesis by (simp add: journal_extends_refl)
next
  case (new op kind)
  let ?f = "\<lambda>row. row\<lparr>op_status := next_operation_status (op_status op) kind,
     op_accepted_reference := coalesce (op_accepted_reference row) (if kind = OpAccepted then reference else None)\<rparr>"
  have "op_extends op (?f op)"
    using new(5) by (auto simp: op_extends_def check_observation_def rbind_eq_Inr guard_eq_Inr coalesce_def)
  note upd = update_extends[where f = ?f, OF assms(1) new(1) this]
  show ?thesis using upd by (simp add: journal_extends_def new(8) verify_blob_def)
qed

lemma reconcile_extends:
  assumes "journal_ok H J" and "reconcile i fence outcome_text now evidence reference matched absence J = Inr J'"
  shows "journal_extends H J J'"
  using assms(2)
proof (cases rule: reconcile_Inr)
  case (1 op outcome)
  let ?f = "\<lambda>row. row\<lparr>op_status := (if outcome = OutcomeFound then OpAccepted else OpUnknown),
     op_accepted_reference := coalesce (op_accepted_reference row) (if outcome = OutcomeFound then reference else None),
     op_retry_proof := (if outcome \<in> {OutcomeAbsent, OutcomeIdempotent} then Some outcome else None), op_lease_until := None\<rparr>"
  have "op_accepted_reference op = None" using no_acceptance[OF assms(1) 1(1)] 1(4) by auto
  then have "op_extends op (?f op)" using 1(4) by (auto simp: op_extends_def)
  note upd = update_extends[where f = ?f, OF assms(1) 1(1) this]
  show ?thesis using upd by (simp add: journal_extends_def 1(8) verify_blob_def)
qed

lemma finalize_extends:
  assumes "finalize_artifact H budget i name data J = Inr J'"
  shows "journal_extends H J J'"
  using assms
proof (cases rule: finalize_artifact_Inr)
  case (1 J1)
  have J1: "J1 = J\<lparr>jn_blobs := jn_blobs J1\<rparr>" by (rule stage_blob_tables[OF 1(1)])
  have "journal_extends H J J1"
    by (rule journal_extends_same) (use arg_cong[OF J1, of jn_operations] arg_cong[OF J1, of jn_transports]
      arg_cong[OF J1, of jn_artifacts] arg_cong[OF J1, of jn_deliveries] arg_cong[OF J1, of jn_observations]
      arg_cong[OF J1, of jn_reconciliations] stage_blob_keeps[OF 1(1)] in \<open>simp_all\<close>)
  moreover have "journal_extends H J1 J'"
    by (rule journal_extends_same) (use 1(3) in \<open>auto simp: verify_blob_tables\<close>)
  ultimately show ?thesis by (rule journal_extends_trans)
qed

lemma journal_step_extends:
  assumes "journal_ok H J" and "call_ok c" and "journal_step H J c = Inr J'"
  shows "journal_extends H J J'"
proof (cases c)
  case (CallIntent i e request)
  then have "keeps J J'" using assms(3) insert_intent_keeps by (auto simp: intent_def rbind_eq_Inr)
  then show ?thesis by (rule keeps_extends)
next
  case (CallClaim granted owned i now lease)
  then obtain fence where "claim_operation H granted owned i now lease J = Inr (fence, J')"
    using assms(3) by (cases "claim_operation H granted owned i now lease J") auto
  then show ?thesis using claim_extends[OF assms(1)] assms(2) CallClaim by simp
next
  case (CallTransport i fence b)
  then have "J' = J \<or> J' = J\<lparr>jn_transports := jn_transports J @ [\<lparr>tr_operation = i, tr_fence = fence, tr_succeeded = b\<rparr>]\<rparr>"
    using record_transport_Inr[of i fence b J J'] assms(3) by simp
  then show ?thesis by (intro journal_extends_same) (auto simp: verify_blob_def)
qed (use assms in \<open>auto intro: observe_extends reconcile_extends finalize_extends\<close>)

interpretation journals: recording_machine "journal_step H" call_ok "\<lambda>J. J = empty_journal" "journal_ok H" "journal_extends H" for H
  by unfold_locales
    (auto intro: empty_journal_ok journal_step_ok journal_extends_refl journal_extends_trans journal_step_extends)

lemma reachable_journal_ok: "journal_reaches H empty_journal J \<Longrightarrow> journal_ok H J"
  using journals.reachable_inv[OF refl] by blast

lemma journal_reaches_extends: "journal_reaches H empty_journal J \<Longrightarrow> journal_reaches H J J' \<Longrightarrow> journal_extends H J J'"
  using journals.reaches_extends reachable_journal_ok by blast

section \<open>Startup validation\<close>

lemma map_of_map_prod: "map_of (map (map_prod id f) kvs) k = map_option f (map_of kvs k)"
  by (induction kvs) auto

lemma map_of_canon_fields:
  assumes "distinct (map fst kvs)"
  shows "map_of (canon_fields kvs) k = map_option canon (map_of kvs k)"
proof -
  have "map_of (sort_key fst (map (map_prod id canon) kvs)) = map_of (map (map_prod id canon) kvs)"
    using assms by (intro map_of_inject_set[THEN iffD2]) (simp_all add: comp_def)
  then show ?thesis by (simp add: canon_fields_def map_of_map_prod)
qed

lemma envelope_loads:
  assumes "unique_keys (JObj request)"
  shows "loads (request_envelope request) = Some (JObj (canon_fields [(''version'', JInt 1), (''request'', JObj request)]))"
  using loads_dumps(1)[OF unique_keys_envelope[OF assms]] by (simp add: request_envelope_def canonical_json_def canon_JObj)

lemma envelope_canonical:
  "canonical_json (JObj (canon_fields [(''version'', JInt 1), (''request'', JObj request)])) = request_envelope request"
  using canonical_again[of "JObj [(''version'', JInt 1), (''request'', JObj request)]"]
  by (simp add: request_envelope_def canon_JObj)

lemma enveloped_canonical:
  assumes "enveloped H row"
  shows "canonical_request H row"
proof -
  obtain request where r: "unique_keys (JObj request)" "op_request_json row = request_envelope request"
      "op_request_digest row = H (op_request_json row)"
    using assms by (auto simp: enveloped_def)
  have "map_of (canon_fields [(''version'', JInt 1), (''request'', JObj request)]) ''version'' = Some (JInt 1)"
      "map_of (canon_fields [(''version'', JInt 1), (''request'', JObj request)]) ''request'' = Some (JObj (canon_fields request))"
      "json_keys (canon_fields [(''version'', JInt 1), (''request'', JObj request)]) = {''version'', ''request''}"
    by (simp_all add: map_of_canon_fields json_keys_canon_fields canon_JObj)
  then show ?thesis using r by (simp add: canonical_request_def envelope_loads envelope_canonical)
qed

lemma enveloped_request:
  assumes "enveloped H row"
  obtains request where "op_request_json row = request_envelope request" "unique_keys (JObj request)" "request_of row = Inr (canon_fields request)"
proof -
  obtain request where r: "unique_keys (JObj request)" "op_request_json row = request_envelope request"
    using assms by (auto simp: enveloped_def)
  have "map_of (canon_fields [(''version'', JInt 1), (''request'', JObj request)]) ''request'' = Some (JObj (canon_fields request))"
    by (simp add: map_of_canon_fields canon_JObj)
  then show ?thesis using that[OF r(2,1)] r by (simp add: request_of_def envelope_loads)
qed

lemma Max_fences:
  assumes "map dl_fence ds = [1..n]" and "ds \<noteq> []"
  shows "Max (dl_fence ` set ds) = n"
proof -
  have s: "dl_fence ` set ds = {1..n}" using assms(1) by (metis set_map set_upto)
  have "1 \<le> n" using assms by (cases "1 \<le> n") auto
  then show ?thesis unfolding s by (intro Max_eqI) auto
qed

lemma validate_operation_ok:
  assumes "journal_ok H J" and "row \<in> set (jn_operations J)"
  shows "validate_operation H J row = Inr ()"
proof -
  have ok: "enveloped H row" "attempts_ok J row" "receipts_ok J row"
    using journal_okD(4)[OF assms] by (simp_all add: row_ok_def)
  let ?ds = "deliveries_of J (op_id row)"
  have fences: "map dl_fence ?ds = [1..op_fence row]" "0 \<le> op_fence row" "op_status row = OpIntent \<longleftrightarrow> op_fence row = 0"
    using ok(2) by (simp_all add: attempts_ok_def)
  have n: "op_fence row = int (length ?ds)" using fences(2) arg_cong[OF fences(1), of length] by simp
  have e: "?ds = [] \<longleftrightarrow> op_fence row = 0" using n by simp
  have acc: "(op_accepted_reference row \<noteq> None) = accepted_receipt J (op_id row) (op_accepted_reference row)"
    using ok(3) by (cases "op_accepted_reference row") (simp_all add: receipts_ok_def accepted_receipt_def)
  show ?thesis
    unfolding validate_operation_def Let_def guard_eq_Inr
  proof (intro conjI)
    show "canonical_request H row" by (rule enveloped_canonical[OF ok(1)])
    show "op_id row \<in> set (jn_outbox J)" using journal_okD(2)[OF assms(1)] assms(2) by simp
    show "\<not> (op_fence row \<noteq> int (length ?ds) \<or> ?ds \<noteq> [] \<and> op_fence row \<noteq> Max (dl_fence ` set ?ds))"
      using n Max_fences[OF fences(1)] by (cases "?ds = []") simp_all
    show "(op_status row = OpIntent) = (?ds = [])" using fences(3) e by simp
    show "(op_accepted_reference row \<noteq> None) = accepted_receipt J (op_id row) (op_accepted_reference row)" by (rule acc)
    show "\<not> (op_status row \<in> {OpAccepted, OpRunning, OpWaiting, OpTerminal}
        \<and> \<not> accepted_receipt J (op_id row) (op_accepted_reference row))"
      unfolding acc[symmetric] using ok(3) by (auto simp: receipts_ok_def)
    show "op_status row \<in> {OpRejected, OpRunning, OpWaiting, OpTerminal} \<longrightarrow>
        list_ex (\<lambda>o'. ob_operation o' = op_id row \<and> ob_kind o' = op_status row) (jn_observations J)"
      using ok(3) by (simp add: receipts_ok_def observed_as_def list_ex_iff)
    show "op_retry_proof row \<noteq> None \<longrightarrow> list_ex (\<lambda>m. rn_operation m = op_id row \<and> rn_fence m = op_fence row
        \<and> Some (rn_outcome m) = op_retry_proof row) (jn_reconciliations J)"
      using ok(3) by (auto simp: receipts_ok_def proven_def list_ex_iff)
  qed
qed

text \<open>
  (C19) Every journal that any sequence of intents, claims, transport reports, observations, reconciliations
  and artifacts can leave behind passes the validation at the next start, whatever the budget and
  ownership guards decide: requests are canonical and digest-valid, fences count the delivery attempts,
  and every acceptance, outcome and retry proof has its durable receipt.
\<close>

theorem reachable_journals_validate:
  assumes "journal_reaches H empty_journal J"
  shows "validate_operation_records H J = Inr ()"
proof -
  have ok: "journal_ok H J" by (rule reachable_journal_ok[OF assms])
  have "rbind (verify_blob H J (ar_digest a) (ar_size a)) (\<lambda>_. Inr ()) = Inr ()" if "a \<in> set (jn_artifacts J)" for a
    using journal_okD(5)[OF ok] that by (auto simp: blobs_ok_def rbind_eq_Inr)
  then show ?thesis
    using validate_operation_ok[OF ok] by (simp add: validate_operation_records_def rbind_eq_Inr each_Inr_iff)
qed

section \<open>Delivery\<close>

lemma claim_final:
  assumes "find_row J i = Some row" and "op_status row \<in> final_statuses"
  shows "\<exists>e. claim_operation H granted owned i now lease J = Inl e"
proof (cases "claim_operation H granted owned i now lease J")
  case (Inr r)
  then obtain fence J' where "claim_operation H granted owned i now lease J = Inr (fence, J')" by (cases r) simp
  then show ?thesis using assms by (cases rule: claim_operation_Inr) simp
qed simp

text \<open>
  (C20) An accepted effect is final. Once the row of an operation has an accepted reference, no later call
  changes the reference, the fence or the request, and no claim of it ever succeeds again.
\<close>

theorem accepted_effects_are_final:
  assumes "journal_reaches H empty_journal J" and "find_row J i = Some row" and "op_accepted_reference row = Some r"
    and "journal_reaches H J J'"
  shows "\<exists>row'. find_row J' i = Some row' \<and> op_accepted_reference row' = Some r \<and> op_fence row' = op_fence row
    \<and> op_request_json row' = op_request_json row
    \<and> (\<forall>granted owned now lease. \<exists>e. claim_operation H granted owned i now lease J' = Inl e)"
proof -
  have ok: "journal_ok H J'" using journals.reaches_inv[OF assms(4) reachable_journal_ok[OF assms(1)]] .
  obtain row' where row': "row' \<in> set (jn_operations J')" "op_extends row row'"
    using journal_reaches_extends[OF assms(1,4)] find_row_SomeD[OF assms(2)] by (auto simp: journal_extends_def)
  have id: "op_id row' = i" using row'(2) find_row_SomeD[OF assms(2)] by (simp add: op_extends_def)
  have found: "find_row J' i = Some row'"
    using row'(1) id journal_okD(1)[OF ok] find_distinct_key[of op_id "jn_operations J'" row'] by (simp add: find_row_def)
  have acc: "op_accepted_reference row' = Some r" "op_fence row' = op_fence row" "op_request_json row' = op_request_json row"
    using row'(2) assms(3) by (simp_all add: op_extends_def)
  have "op_status row' \<in> final_statuses"
    using journal_okD(4)[OF ok row'(1)] acc(1) by (auto simp: row_ok_def receipts_ok_def final_statuses_def)
  note refused = claim_final[OF found this]
  then show ?thesis using found acc by blast
qed

text \<open>
  (C21) A repeated delivery needs durable proof. When a claim succeeds on an operation that was delivered
  before, the journal holds a reconciliation of exactly the current fence, with nonblank evidence, that
  either is an authoritative absence of the effect or an idempotency guarantee for exactly the original
  request digest; the new fence is the next one, and nothing was accepted.
\<close>

theorem redelivery_needs_proof:
  assumes "journal_reaches H empty_journal J" and "claim_operation H granted owned i now lease J = Inr (fence, J')"
    and "deliveries_of J i \<noteq> []"
  shows "\<exists>row n. find_row J i = Some row \<and> fence = op_fence row + 1 \<and> op_accepted_reference row = None
    \<and> n \<in> set (jn_reconciliations J) \<and> rn_operation n = i \<and> rn_fence n = op_fence row \<and> nonblank (rn_evidence n)
    \<and> (rn_outcome n = OutcomeAbsent \<and> rn_authoritative_absence n
       \<or> rn_outcome n = OutcomeIdempotent \<and> rn_matched_digest n = Some (op_request_digest row))"
  using assms(2)
proof (cases rule: claim_operation_Inr)
  case (1 op J1 time request)
  note ok = reachable_journal_ok[OF assms(1)]
  have o: "row_ok H J op" "op_id op = i" using journal_okD(4)[OF ok] find_row_SomeD[OF 1(1)] by blast+
  obtain p where p: "op_retry_proof op = Some p" using 1(7) assms(3) by auto
  then have "proven J op p" using o(1) by (simp add: row_ok_def receipts_ok_def)
  moreover have "op_accepted_reference op = None" using no_acceptance[OF ok 1(1)] 1(6) by (auto simp: final_statuses_def)
  ultimately show ?thesis using 1(1,8) o(2) by (auto simp: proven_def)
qed

section \<open>Effect identity\<close>

lemma filter_one: "distinct xs \<Longrightarrow> x \<in> set xs \<Longrightarrow> filter (\<lambda>y. y = x) xs = [x]"
  by (induction xs) (auto simp: filter_empty_conv)

lemma existing_row:
  assumes "journal_ok H J" and "row \<in> set (jn_operations J)"
  shows "filter (\<lambda>x. op_id x = op_id row \<or> op_effect_key x = op_effect_key row) (jn_operations J) = [row]"
proof -
  note J = journal_okD[OF assms(1)]
  have "op_id x = op_id row \<or> op_effect_key x = op_effect_key row \<longleftrightarrow> x = row" if "x \<in> set (jn_operations J)" for x
    using J(1,6) that assms(2) by (metis distinct_map inj_onD)
  then have "filter (\<lambda>x. op_id x = op_id row \<or> op_effect_key x = op_effect_key row) (jn_operations J)
      = filter (\<lambda>x. x = row) (jn_operations J)" by (intro filter_cong) simp_all
  also have "\<dots> = [row]" using J(1) assms(2) by (intro filter_one) (simp_all add: distinct_map)
  finally show ?thesis .
qed

lemma insert_intent_row:
  assumes "journal_ok H J" and "insert_intent H allow i e request J = Inr J'"
  shows "\<exists>row \<in> set (jn_operations J'). op_id row = i \<and> op_effect_key row = e \<and> op_request_digest row = H (request_envelope request)"
proof (cases "filter (\<lambda>row. op_id row = i \<or> op_effect_key row = e) (jn_operations J)")
  case Nil
  then show ?thesis using assms(2) by (auto simp: insert_intent_def Let_def rbind_eq_Inr guard_eq_Inr)
next
  case (Cons row rows)
  then have "row \<in> set (jn_operations J)" by (metis filter_is_subset list.set_intros(1) subsetD)
  then show ?thesis using assms(2) Cons by (auto simp: insert_intent_def Let_def rbind_eq_Inr guard_eq_Inr)
qed

lemma insert_intent_known:
  assumes "journal_ok H J" and "row \<in> set (jn_operations J)" and "i = op_id row \<or> e = op_effect_key row"
    and "insert_intent H allow i e request J = Inr J'"
  shows "J' = J \<and> i = op_id row \<and> e = op_effect_key row \<and> H (request_envelope request) = op_request_digest row"
proof -
  define found where "found = filter (\<lambda>x. op_id x = i \<or> op_effect_key x = e) (jn_operations J)"
  have mem: "row \<in> set found" using assms(2,3) by (auto simp: found_def)
  then have ne: "found \<noteq> []" by auto
  have "insert_intent H allow i e request J = (if found \<noteq> [] then
      rbind (guard allow OperationConflict) (\<lambda>_.
      rbind (guard (\<not> (length found \<noteq> 1 \<or> list_ex (\<lambda>row. op_id row \<noteq> i \<or> op_effect_key row \<noteq> e
        \<or> op_request_digest row \<noteq> H (request_envelope request)) found)) OperationConflict) (\<lambda>_. Inr J))
      else insert_intent H allow i e request J)"
    by (simp add: insert_intent_def Let_def found_def)
  then have "J' = J" "\<not> list_ex (\<lambda>row. op_id row \<noteq> i \<or> op_effect_key row \<noteq> e
        \<or> op_request_digest row \<noteq> H (request_envelope request)) found"
    using assms(4) ne by (simp_all add: res_simps)
  then show ?thesis using mem by (auto simp: list_ex_iff)
qed

lemma envelope_eqD:
  assumes "request_envelope a = request_envelope b"
  shows "canon (JObj a) = canon (JObj b)"
proof -
  let ?f = "\<lambda>r. canon_fields [(''version'', JInt 1), (''request'', JObj r)]"
  have "?f a = ?f b"
    using assms by (simp add: request_envelope_def canonical_json_def dumps_eq_iff canon_JObj)
  then have "map_of (?f a) ''request'' = map_of (?f b) ''request''" by simp
  then show ?thesis by (simp add: map_of_canon_fields)
qed

text \<open>
  (C22) One identity per effect. After an intent was recorded, at any later time the same intent is accepted
  again without any change, and an intent that reuses its operation identity or its effect key is accepted
  only when all of it is the same, the request up to the order of its fields, unless the hash collides.
\<close>

theorem effect_identity_is_bound:
  assumes "journal_reaches H empty_journal J" and "intent H i e request J = Inr J'" and "unique_keys (JObj request)"
    and "journal_reaches H J' J''"
  shows "intent H i e request J'' = Inr J''
    \<and> (\<forall>i' e' request' J3. (i' = i \<or> e' = e) \<and> intent H i' e' request' J'' = Inr J3 \<longrightarrow>
         collides H \<or> J3 = J'' \<and> i' = i \<and> e' = e \<and> canon (JObj request') = canon (JObj request))"
proof -
  note ok = reachable_journal_ok[OF assms(1)]
  have args: "nonblank i" "nonblank e" and ins: "insert_intent H True i e request J = Inr J'"
    using assms(2) by (auto simp: intent_def rbind_eq_Inr guard_eq_Inr)
  have ok': "journal_ok H J'" by (rule insert_intent_ok[OF ok assms(3) ins])
  have ok'': "journal_ok H J''" by (rule journals.reaches_inv[OF assms(4) ok'])
  obtain row where row: "row \<in> set (jn_operations J'')" "op_id row = i" "op_effect_key row = e"
      "op_request_digest row = H (request_envelope request)"
    using insert_intent_row[OF ok ins] journals.reaches_extends[OF assms(4) ok'] by (auto simp: journal_extends_def op_extends_def)
  have "intent H i e request J'' = Inr J''"
    using existing_row[OF ok'' row(1)] args row by (simp add: intent_def insert_intent_def Let_def)
  moreover have "collides H \<or> J3 = J'' \<and> i' = i \<and> e' = e \<and> canon (JObj request') = canon (JObj request)"
    if "(i' = i \<or> e' = e) \<and> intent H i' e' request' J'' = Inr J3" for i' e' request' J3
  proof -
    have "insert_intent H True i' e' request' J'' = Inr J3" using that by (auto simp: intent_def rbind_eq_Inr)
    from insert_intent_known[OF ok'' row(1) _ this] that row
    have same: "J3 = J''" "i' = i" "e' = e" "H (request_envelope request') = H (request_envelope request)" by auto
    show ?thesis
    proof (cases "request_envelope request' = request_envelope request")
      case True
      then show ?thesis using same envelope_eqD by blast
    next
      case False
      then show ?thesis using same(4) by (auto simp: collides_def)
    qed
  qed
  ultimately show ?thesis by blast
qed

section \<open>Artifacts\<close>

lemma find_artifact_row_append:
  "find_artifact_row J i name = Some a \<Longrightarrow> jn_artifacts J' = jn_artifacts J @ as \<Longrightarrow> find_artifact_row J' i name = Some a"
  by (simp add: find_artifact_row_def find_append_Some)

lemma find_append_None: "List.find P xs = None \<Longrightarrow> P x \<Longrightarrow> List.find P (xs @ [x]) = Some x"
  by (induction xs) (auto split: if_splits)

text \<open>
  (C23) Artifacts are immutable. What was finalised under a name can be read at any later time, whatever
  calls happen in between, and the bytes read have the digest of the bytes given, so they are the same
  bytes unless the hash collides.
\<close>

theorem artifacts_are_immutable:
  assumes "journal_reaches H empty_journal J" and "finalize_artifact H budget i name data J = Inr J'"
    and "journal_reaches H J' J''"
  shows "\<exists>d. read_artifact H J'' i name = Inr d \<and> (d = data \<or> collides H)"
  using assms(2)
proof (cases rule: finalize_artifact_Inr)
  case (1 J1)
  have ok': "journal_ok H J'" by (rule finalize_artifact_ok[OF reachable_journal_ok[OF assms(1)] assms(2)])
  have arts: "jn_artifacts J1 = jn_artifacts J" using arg_cong[OF stage_blob_tables[OF 1(1)], of jn_artifacts] by simp
  have "\<exists>a. find_artifact_row J' i name = Some a \<and> ar_digest a = H data \<and> ar_size a = int (length data)"
    using 1(3) arts by (auto simp: find_artifact_row_def find_append_None)
  then obtain a where a: "find_artifact_row J' i name = Some a" "ar_digest a = H data" "ar_size a = int (length data)" by blast
  obtain d where d: "verify_blob H J1 (H data) (int (length data)) = Inr d" "H d = H data" by (rule stage_blob_verifies[OF 1(1)])
  have "verify_blob H J' (H data) (int (length data)) = Inr d" using d(1) 1(3) by (auto simp: verify_blob_tables)
  then have blob: "verify_blob H J'' (H data) (int (length data)) = Inr d"
    using journals.reaches_extends[OF assms(3) ok'] by (simp add: journal_extends_def)
  obtain as where "jn_artifacts J'' = jn_artifacts J' @ as"
    using journals.reaches_extends[OF assms(3) ok'] by (auto simp: journal_extends_def)
  from find_artifact_row_append[OF a(1) this]
  have "read_artifact H J'' i name = Inr d" using a blob by (simp add: read_artifact_def find_artifact_def)
  then show ?thesis using d(2) by (auto simp: collides_def)
qed

section \<open>The constraints of the tables\<close>

definition hex_digest :: "hash \<Rightarrow> bool" where
  "hex_digest H \<longleftrightarrow> (\<forall>x. length (H x) = 64)"

lemma insert_intent_constraints:
  assumes "hex_digest H" and "journal_ok H J"
  shows "insert_intent H allow i e request J \<noteq> Inl StoreIntegrityError"
proof (cases "filter (\<lambda>row. op_id row = i \<or> op_effect_key row = e) (jn_operations J) = []")
  case True
  then have "i \<notin> set (jn_outbox J)" using journal_okD(2)[OF assms(2)] by (auto simp: filter_empty_conv)
  then show ?thesis using assms(1) True by (simp add: insert_intent_def Let_def insert_row_def hex_digest_def)
next
  case False
  then show ?thesis by (auto simp: insert_intent_def Let_def res_simps)
qed

lemma write_work_records_constraints:
  "hex_digest H \<Longrightarrow> journal_ok H J \<Longrightarrow> \<forall>w \<in> set ws. unique_keys (JObj (work_fields w)) \<Longrightarrow>
    write_work_records H ws J \<noteq> Inl StoreIntegrityError"
proof (induction ws arbitrary: J)
  case (Cons w ws)
  obtain t i fs where w: "w = (t, i, fs)" by (cases w)
  show ?case
  proof (cases "write_work_record H w J")
    case (Inl x)
    then show ?thesis using insert_intent_constraints[OF Cons.prems(1,2)] by (auto simp: write_work_record_def w Let_def)
  next
    case (Inr J1)
    then have "journal_ok H J1" using insert_intent_ok[OF Cons.prems(2)] Cons.prems(3) by (auto simp: write_work_record_def w Let_def)
    then show ?thesis using Cons.IH[OF Cons.prems(1)] Cons.prems(3) Inr by simp
  qed
qed simp

lemma request_of_errors: "request_of row \<noteq> Inl StoreIntegrityError" "work_record H J t i \<noteq> Inl StoreIntegrityError"
  "operation J i \<noteq> Inl StoreIntegrityError" "verify_blob H J d l \<noteq> Inl StoreIntegrityError"
  by (auto simp: request_of_def work_record_def operation_def verify_blob_def res_simps split: option.splits json.splits if_splits)

lemma claim_authority_constraints:
  assumes "hex_digest H" and "journal_ok H J" and "call_ok (CallClaim granted owned i now lease)"
    and "claim_authority H granted owned i now J = Inl StoreIntegrityError"
  shows "granted = Inl StoreIntegrityError"
proof (cases granted)
  case (Inl e)
  then show ?thesis using assms(4) request_of_errors(2)[of H J]
    by (auto simp: claim_authority_def rbind_eq_Inl guard_eq_Inl split: option.splits if_splits)
next
  case (Inr r)
  obtain time facts where r: "r = (time, facts)" by (cases r)
  have "write_work_records H facts J \<noteq> Inl StoreIntegrityError"
    using write_work_records_constraints[OF assms(1,2)] assms(3) by (simp add: Inr r)
  then show ?thesis using assms(4) request_of_errors(2)[of H J]
    by (auto simp: claim_authority_def rbind_eq_Inl guard_eq_Inl Inr r split: option.splits if_splits)
qed

lemma current_fence_delivered:
  assumes "journal_ok H J" and "find_row J i = Some op" and "deliveries_of J i \<noteq> []"
  shows "(i, op_fence op) \<in> delivery_key ` set (jn_deliveries J)"
proof -
  have o: "row_ok H J op" "op_id op = i" using journal_okD(4)[OF assms(1)] find_row_SomeD[OF assms(2)] by blast+
  have fences: "dl_fence ` set (deliveries_of J i) = {1..op_fence op}"
    using o by (metis attempts_ok_def row_ok_def set_map set_upto)
  have "op_fence op \<in> dl_fence ` set (deliveries_of J i)"
    unfolding fences using fence_positive[OF o assms(3)] by simp
  then show ?thesis by (auto simp: deliveries_of_def image_iff)
qed

lemma next_fence_fresh:
  assumes "journal_ok H J" and "find_row J i = Some op"
  shows "(i, op_fence op + 1) \<notin> delivery_key ` set (jn_deliveries J)"
proof
  assume "(i, op_fence op + 1) \<in> delivery_key ` set (jn_deliveries J)"
  then have "op_fence op + 1 \<in> dl_fence ` set (deliveries_of J i)" by (auto simp: deliveries_of_def)
  moreover have o: "row_ok H J op" "op_id op = i" using journal_okD(4)[OF assms(1)] find_row_SomeD[OF assms(2)] by blast+
  then have "dl_fence ` set (deliveries_of J i) = {1..op_fence op}" by (metis attempts_ok_def row_ok_def set_map set_upto)
  ultimately show False by simp
qed

lemma claim_constraints:
  assumes "hex_digest H" and "journal_ok H J" and "call_ok (CallClaim granted owned i now lease)"
    and "claim_operation H granted owned i now lease J = Inl StoreIntegrityError"
  shows "granted = Inl StoreIntegrityError"
proof (cases "operation J i")
  case (Inl e)
  then show ?thesis using assms(4) request_of_errors(3)[of J i] by (auto simp: claim_operation_def rbind_eq_Inl guard_eq_Inl)
next
  case (Inr r)
  obtain op n where r: "r = (op, n)" by (cases r)
  have op: "find_row J i = Some op" using Inr r by (simp add: operation_Inr)
  show ?thesis
  proof (cases "claim_authority H granted owned i now J")
    case (Inl e)
    then show ?thesis using assms(4) claim_authority_constraints[OF assms(1-3)] \<open>operation J i = Inr r\<close> r
      by (auto simp: claim_operation_def rbind_eq_Inl guard_eq_Inl)
  next
    case (Inr a)
    obtain J1 time where a: "a = (J1, time)" by (cases a)
    have "jn_deliveries J1 = jn_deliveries J" using claim_authority_ok(1)[of H granted owned i now J J1 time] Inr a by (simp add: keeps_def)
    then have "insert_row delivery_key \<lparr>dl_operation = i, dl_fence = op_fence op + 1, dl_claimed_at = time,
        dl_lease_until = time + lease\<rparr> (jn_deliveries J1) \<noteq> Inl StoreIntegrityError"
      using next_fence_fresh[OF assms(2) op] by (simp add: insert_row_def)
    then show ?thesis using assms(4) request_of_errors(1)[of op] \<open>operation J i = Inr r\<close> r Inr a
      by (auto simp: claim_operation_def Let_def rbind_eq_Inl guard_eq_Inl)
  qed
qed

lemma report_constraints:
  assumes "journal_ok H J"
  shows "record_transport i fence b J \<noteq> Inl StoreIntegrityError" and "observe i fence oid k ref J \<noteq> Inl StoreIntegrityError"
    and "reconcile i fence out now ev ref m a J \<noteq> Inl StoreIntegrityError"
proof -
  have delivered: "(i, fence) \<in> delivery_key ` set (jn_deliveries J)"
    if "operation J i = Inr (op, n)" "op_fence op = fence" "n \<noteq> 0" for op n
    using current_fence_delivered[OF assms, of i op] that by (simp add: operation_Inr)
  have check: "check_observation op kind ref \<noteq> Inl StoreIntegrityError" "check_reconciliation op out' now ref m a \<noteq> Inl StoreIntegrityError" for op kind out'
    by (auto simp: check_observation_def check_reconciliation_def rbind_eq_Inl guard_eq_Inl)
  show "record_transport i fence b J \<noteq> Inl StoreIntegrityError"
    using delivered request_of_errors(3)[of J i]
    by (auto simp: record_transport_def rbind_eq_Inl guard_eq_Inl guard_eq_Inr split: option.splits)
  have "record_observation op i fence oid kind ref J \<noteq> Inl StoreIntegrityError"
    if "operation J i = Inr (op, n)" "op_fence op = fence" "n \<noteq> 0" for op n kind
    using delivered[OF that] check(1)[of op kind] by (auto simp: record_observation_def rbind_eq_Inl guard_eq_Inl split: option.splits)
  then show "observe i fence oid k ref J \<noteq> Inl StoreIntegrityError"
    using request_of_errors(3)[of J i] by (auto simp: observe_def rbind_eq_Inl guard_eq_Inl guard_eq_Inr split: option.splits)
  show "reconcile i fence out now ev ref m a J \<noteq> Inl StoreIntegrityError"
    using delivered check(2) request_of_errors(3)[of J i]
    by (auto simp: reconcile_def rbind_eq_Inl guard_eq_Inl guard_eq_Inr split: option.splits)
qed

lemma finalize_constraints:
  assumes "hex_digest H" and "finalize_artifact H budget i name data J = Inl StoreIntegrityError"
  shows "budget = Inl StoreIntegrityError"
proof -
  have "stage_blob H (H data) data J \<noteq> Inl StoreIntegrityError"
    using request_of_errors(4)[of H J] by (auto simp: stage_blob_def rbind_eq_Inl split: option.splits)
  then show ?thesis using assms request_of_errors(3)[of J i]
    by (auto simp: finalize_artifact_def Let_def rbind_eq_Inl guard_eq_Inl hex_digest_def split: option.splits)
qed

text \<open>
  On a reachable journal no call ever violates a constraint of the tables (primary keys, unique effect
  keys, foreign keys to the delivery attempts, 64 character digests): an \<open>sqlite3.IntegrityError\<close> can only
  be one that the budget or ownership guards raised themselves.
\<close>

theorem journal_constraints_hold:
  assumes "hex_digest H" and "journal_reaches H empty_journal J" and "call_ok c"
    and "journal_step H J c = Inl StoreIntegrityError"
  shows "(\<exists>owned i now lease. c = CallClaim (Inl StoreIntegrityError) owned i now lease)
    \<or> (\<exists>i name data. c = CallFinalize (Inl StoreIntegrityError) i name data)"
proof -
  note ok = reachable_journal_ok[OF assms(2)]
  show ?thesis
  proof (cases c)
    case (CallIntent i e request)
    then show ?thesis using assms(4) insert_intent_constraints[OF assms(1) ok] by (auto simp: intent_def rbind_eq_Inl guard_eq_Inl)
  next
    case (CallClaim granted owned i now lease)
    then have "claim_operation H granted owned i now lease J = Inl StoreIntegrityError"
      using assms(4) by (cases "claim_operation H granted owned i now lease J") auto
    then show ?thesis using claim_constraints[OF assms(1) ok, of granted owned i now lease] assms(3) CallClaim by blast
  next
    case (CallFinalize budget i name data)
    then show ?thesis using assms(4) finalize_constraints[OF assms(1)] by auto
  qed (use assms(4) report_constraints[OF ok] in auto)
qed

section \<open>A small run\<close>

definition hex_hash :: hash where
  "hex_hash s = replicate 64 CHR ''d''"

definition demo_calls :: "journal_call list" where
  "demo_calls = [CallIntent ''op'' ''key'' [], CallClaim (Inl StoreBudgetRefused) False ''op'' 0 10,
     CallReconcile ''op'' 1 ''absent'' 10 ''looked'' None None True]"

definition demo_accepting :: "journal_call list" where
  "demo_accepting = [CallClaim (Inl StoreBudgetRefused) False ''op'' 10 10,
     CallObserve ''op'' 2 ''o1'' ''accepted'' (Some ''r''), CallFinalize (Inr ()) ''op'' ''log'' ''bytes'']"

definition demo_journal :: "journal_call list \<Rightarrow> journal" where
  "demo_journal cs = projr (run (journal_step hex_hash) empty_journal cs)"

lemma demo_runs:
  "isl (run (journal_step hex_hash) empty_journal demo_calls) = False"
  "isl (run (journal_step hex_hash) empty_journal (demo_calls @ demo_accepting)) = False"
  "isl (run (journal_step hex_hash) empty_journal (demo_calls @ take 1 demo_accepting)) = False"
  by code_simp+

lemma unique_keys_Nil [simp]: "unique_keys (JObj [])"
  by (simp add: unique_keys_JObj)

lemma demo_run:
  assumes "isl (run (journal_step hex_hash) empty_journal cs) = False"
  shows "run (journal_step hex_hash) empty_journal cs = Inr (demo_journal cs)"
  using assms by (cases "run (journal_step hex_hash) empty_journal cs") (simp_all add: demo_journal_def)

lemma demo_journal_reaches:
  "journal_reaches hex_hash empty_journal (demo_journal demo_calls)"
  "journal_reaches hex_hash empty_journal (demo_journal (demo_calls @ demo_accepting))"
  by (rule reaches_run[OF demo_run[OF demo_runs(1)]], simp add: demo_calls_def)
    (rule reaches_run[OF demo_run[OF demo_runs(2)]], simp add: demo_calls_def demo_accepting_def)

theorem reachable_journals_validate_witness: "validate_operation_records hex_hash (demo_journal (demo_calls @ demo_accepting)) = Inr ()"
  by (rule reachable_journals_validate[OF demo_journal_reaches(2)])

lemma demo_accepted:
  "map_option op_accepted_reference (find_row (demo_journal (demo_calls @ demo_accepting)) ''op'') = Some (Some ''r'')"
  by code_simp

theorem accepted_effects_are_final_witness:
  "\<exists>e. claim_operation hex_hash (Inr (0, [])) False ''op'' 100 5 (demo_journal (demo_calls @ demo_accepting)) = Inl e"
proof -
  obtain row where row: "find_row (demo_journal (demo_calls @ demo_accepting)) ''op'' = Some row" "op_accepted_reference row = Some ''r''"
    using demo_accepted by auto
  show ?thesis using accepted_effects_are_final[OF demo_journal_reaches(2) row reaches_refl] by blast
qed

lemma demo_redelivery:
  "isl (claim_operation hex_hash (Inl StoreBudgetRefused) False ''op'' 10 10 (demo_journal demo_calls)) = False"
  "deliveries_of (demo_journal demo_calls) ''op'' \<noteq> []"
  by code_simp+

theorem redelivery_needs_proof_witness:
  "\<exists>n \<in> set (jn_reconciliations (demo_journal demo_calls)). rn_operation n = ''op'' \<and> nonblank (rn_evidence n)"
proof -
  obtain fence J' where claim: "claim_operation hex_hash (Inl StoreBudgetRefused) False ''op'' 10 10 (demo_journal demo_calls) = Inr (fence, J')"
    using demo_redelivery(1) by (cases "claim_operation hex_hash (Inl StoreBudgetRefused) False ''op'' 10 10 (demo_journal demo_calls)") auto
  show ?thesis using redelivery_needs_proof[OF demo_journal_reaches(1) claim demo_redelivery(2)] by blast
qed

lemma demo_intent: "intent hex_hash ''op'' ''key'' [] empty_journal = Inr (demo_journal (take 1 demo_calls))"
  by code_simp

lemma demo_intent_reaches:
  "journal_reaches hex_hash (demo_journal (take 1 demo_calls)) (demo_journal demo_calls)"
proof -
  have "run (journal_step hex_hash) empty_journal demo_calls
      = run (journal_step hex_hash) (demo_journal (take 1 demo_calls)) (drop 1 demo_calls)"
    using demo_intent by (simp add: demo_calls_def)
  then have "run (journal_step hex_hash) (demo_journal (take 1 demo_calls)) (drop 1 demo_calls) = Inr (demo_journal demo_calls)"
    using demo_run[OF demo_runs(1)] by simp
  then show ?thesis by (rule reaches_run) (simp add: demo_calls_def)
qed

theorem effect_identity_is_bound_witness:
  "intent hex_hash ''op'' ''key'' [] (demo_journal demo_calls) = Inr (demo_journal demo_calls)"
  using effect_identity_is_bound[OF reaches_refl demo_intent unique_keys_Nil demo_intent_reaches] by (rule conjunct1)

lemma demo_finalize:
  "finalize_artifact hex_hash (Inr ()) ''op'' ''log'' ''bytes'' (demo_journal (demo_calls @ take 2 demo_accepting))
     = Inr (demo_journal (demo_calls @ demo_accepting))"
  by code_simp

lemma demo_journal_reaches_2: "journal_reaches hex_hash empty_journal (demo_journal (demo_calls @ take 2 demo_accepting))"
proof -
  have "isl (run (journal_step hex_hash) empty_journal (demo_calls @ take 2 demo_accepting)) = False" by code_simp
  from demo_run[OF this] show ?thesis by (rule reaches_run) (simp add: demo_calls_def demo_accepting_def)
qed

theorem artifacts_are_immutable_witness:
  "\<exists>d. read_artifact hex_hash (demo_journal (demo_calls @ demo_accepting)) ''op'' ''log'' = Inr d"
  using artifacts_are_immutable[OF demo_journal_reaches_2 demo_finalize reaches_refl] by blast

theorem journal_constraints_hold_witness:
  "journal_step hex_hash (demo_journal demo_calls) (CallObserve ''op'' 1 ''o1'' ''accepted'' (Some ''r'')) \<noteq> Inl StoreIntegrityError"
proof
  have H: "hex_digest hex_hash" by (simp add: hex_digest_def hex_hash_def)
  assume "journal_step hex_hash (demo_journal demo_calls) (CallObserve ''op'' 1 ''o1'' ''accepted'' (Some ''r'')) = Inl StoreIntegrityError"
  from journal_constraints_hold[OF H demo_journal_reaches(1) _ this] show False by simp
qed

end
