(* ===== verification/Store_Invariant.thy ===== *)
theory Store_Invariant
  imports Program_Store Codec_History Journal_Theorems
begin

text \<open>
  What holds of every store the kernel can write. The records of one program are its log: a creation and
  then accepted commands, each with the text and digest of the program it left behind. The recorded
  results of command keys are the history itself, and the projections are those of the last record. The
  calls of the store are the commands of a \<open>recording_machine\<close>.
\<close>

declare canon.simps(6) [simp del]

section \<open>The log of a program\<close>

definition recorded_as :: "hash \<Rightarrow> history_row \<Rightarrow> program \<Rightarrow> bool" where
  "recorded_as H r p \<longleftrightarrow> program_json H p = Inr (hs_facts_json r) \<and> program_from_json H (hs_facts_json r) = Inr p
     \<and> hs_facts_digest r = H (hs_facts_json r)
     \<and> hs_aggregate_revision r = pg_revision p \<and> hs_program r = pg_id p \<and> hs_schema_version r = codec_version
     \<and> nonblank (hs_command_key r) \<and> hs_input_digest r = H (hs_input_json r)"

definition records_creation :: "history_row \<Rightarrow> program_spec \<Rightarrow> bool" where
  "records_creation r sp \<longleftrightarrow> hs_sequence r = 1 \<and> hs_command_type r = ''create_program''
     \<and> hs_actor_id r = ae_owner_id (ps_authority sp) \<and> hs_input_json r = create_input_json sp"

definition records_command :: "history_row \<Rightarrow> int \<Rightarrow> domain_command \<Rightarrow> bool" where
  "records_command r n c \<longleftrightarrow> hs_sequence r = n \<and> hs_command_type r = fst (command_parameters c)
     \<and> hs_actor_id r = cmd_actor_id c \<and> hs_input_json r = command_input_json (hs_program r) c"

inductive logged :: "hash \<Rightarrow> program_spec \<Rightarrow> history_row list \<Rightarrow> program \<Rightarrow> bool" for H sp where
  logged_create: "wf_spec sp \<Longrightarrow> create sp = Inr p \<Longrightarrow> records_creation r sp \<Longrightarrow> recorded_as H r p \<Longrightarrow> logged H sp [r] p"
| logged_command: "logged H sp rows p \<Longrightarrow> made_command c \<Longrightarrow> apply_command H p c = Inr p' \<Longrightarrow>
    records_command r (int (length rows) + 1) c \<Longrightarrow> recorded_as H r p' \<Longrightarrow> logged H sp (rows @ [r]) p'"

lemma logged_reachable: "logged H sp rows p \<Longrightarrow> wf_spec sp \<and> reachable H sp p"
  by (induction rule: logged.induct) (auto simp: made_command_def intro: reaches.intros)

lemma logged_not_Nil: "logged H sp rows p \<Longrightarrow> rows \<noteq> []"
  by (induction rule: logged.induct) simp_all

lemma logged_last: "logged H sp rows p \<Longrightarrow> recorded_as H (last rows) p"
  by (induction rule: logged.induct) simp_all

lemma logged_sequences: "logged H sp rows p \<Longrightarrow> map hs_sequence rows = [1..int (length rows)]"
  by (induction rule: logged.induct) (simp_all add: records_creation_def records_command_def upto_snoc add.commute[of 1])

lemma logged_rows:
  "logged H sp rows p \<Longrightarrow> r \<in> set rows \<Longrightarrow> \<exists>q. reachable H sp q \<and> recorded_as H r q"
proof (induction rule: logged.induct)
  case (logged_create p r')
  moreover have "reachable H sp p" using logged_create(2) by (blast intro: reaches_refl)
  ultimately show ?case by auto
next
  case (logged_command rows p c p' r')
  then have "reachable H sp p'" using logged_reachable[OF logged.logged_command] by blast
  then show ?case using logged_command by auto
qed

lemma logged_snocE:
  assumes "logged H sp (rows @ [r]) p'"
  obtains (creation) "rows = []" "wf_spec sp" "create sp = Inr p'" "records_creation r sp" "recorded_as H r p'"
  | (command) p c where "logged H sp rows p" "made_command c" "apply_command H p c = Inr p'"
      "records_command r (int (length rows) + 1) c" "recorded_as H r p'"
  using assms by (cases rule: logged.cases) (auto intro: that)

lemma sorted_log:
  assumes "map hs_sequence rows = [1..int (length rows)]"
  shows "sort_key hs_sequence rows = rows"
  by (rule sort_key_id_if_sorted) (use assms in \<open>simp add: sorted_upto\<close>)

section \<open>Invariant\<close>

definition rows_of :: "store \<Rightarrow> string \<Rightarrow> history_row list" where
  "rows_of S i = filter (\<lambda>r. hs_program r = i) (st_history S)"

definition admission_of :: "history_row \<Rightarrow> admission_row" where
  "admission_of r = \<lparr>cm_command_key = hs_command_key r, cm_program = hs_program r, cm_command_type = hs_command_type r,
     cm_input_digest = hs_input_digest r, cm_result_sequence = hs_sequence r, cm_result_digest = hs_facts_digest r,
     cm_result_json = hs_facts_json r\<rparr>"

lemma rows_of_empty: "rows_of S i = [] \<longleftrightarrow> i \<notin> hs_program ` set (st_history S)"
  by (auto simp: rows_of_def filter_empty_conv)

text \<open>The authoritative tables; the projections may be anything.\<close>

definition archive_ok :: "hash \<Rightarrow> store \<Rightarrow> bool" where
  "archive_ok H S \<longleftrightarrow> distinct (map hs_command_key (st_history S)) \<and> st_admissions S = map admission_of (st_history S)
     \<and> (\<forall>i. rows_of S i \<noteq> [] \<longrightarrow> (\<exists>sp p. logged H sp (rows_of S i) p \<and> pg_id p = i))"

definition projected :: "hash \<Rightarrow> store \<Rightarrow> string \<Rightarrow> program \<Rightarrow> bool" where
  "projected H S i p \<longleftrightarrow> (\<exists>raw. program_json H p = Inr raw
     \<and> filter (\<lambda>r. pr_program r = i) (st_programs S) = [program_row_of p (int (length (rows_of S i))) raw (H raw)]
     \<and> filter (\<lambda>r. un_program r = i) (st_units S) = unit_rows p
     \<and> filter (\<lambda>r. at_program r = i) (st_attempts S) = attempt_rows p)"

definition unprojected :: "store \<Rightarrow> string \<Rightarrow> bool" where
  "unprojected S i \<longleftrightarrow> filter (\<lambda>r. pr_program r = i) (st_programs S) = []
     \<and> filter (\<lambda>r. un_program r = i) (st_units S) = [] \<and> filter (\<lambda>r. at_program r = i) (st_attempts S) = []"

definition projections_ok :: "hash \<Rightarrow> store \<Rightarrow> bool" where
  "projections_ok H S \<longleftrightarrow> (\<forall>i. if rows_of S i = [] then unprojected S i
     else \<forall>sp p. logged H sp (rows_of S i) p \<longrightarrow> projected H S i p)"

definition store_ok :: "hash \<Rightarrow> store \<Rightarrow> bool" where
  "store_ok H S \<longleftrightarrow> digest_like H \<and> archive_ok H S \<and> projections_ok H S \<and> journal_ok H (st_journal S)"

lemma logged_unique: "logged H sp rows p \<Longrightarrow> logged H sp' rows p' \<Longrightarrow> p' = p"
  using logged_last[of H sp rows p] logged_last[of H sp' rows p'] by (simp add: recorded_as_def)

lemma archive_okD:
  assumes "archive_ok H S"
  shows "distinct (map hs_command_key (st_history S))" "st_admissions S = map admission_of (st_history S)"
    "rows_of S i \<noteq> [] \<Longrightarrow> \<exists>sp p. logged H sp (rows_of S i) p \<and> pg_id p = i"
  using assms by (simp_all add: archive_ok_def)

lemma records_of_rows: "archive_ok H S \<Longrightarrow> records_of S i = rows_of S i"
  using sorted_log[OF logged_sequences] archive_okD(3)[of H S i]
  by (cases "rows_of S i = []") (auto simp: records_of_def rows_of_def[symmetric])

lemma archived_row:
  assumes "archive_ok H S" and "r \<in> set (st_history S)"
  obtains p where "recorded_as H r p"
proof -
  have r: "r \<in> set (rows_of S (hs_program r))" using assms(2) by (simp add: rows_of_def)
  then obtain sp p where l: "logged H sp (rows_of S (hs_program r)) p"
    using archive_okD(3)[OF assms(1), of "hs_program r"] by (metis empty_iff list.set(1))
  then show ?thesis using that logged_rows[OF l r] by blast
qed

lemma empty_store_ok: "digest_like H \<Longrightarrow> store_ok H empty_store"
  by (simp add: store_ok_def archive_ok_def projections_ok_def unprojected_def rows_of_def empty_store_def empty_journal_ok)

section \<open>Writing\<close>

lemma insert_row_Inr: "insert_row key x rows = Inr rows' \<Longrightarrow> rows' = rows @ [x] \<and> key x \<notin> key ` set rows"
  by (auto simp: insert_row_def split: if_splits)

lemma insert_rows_Inr: "insert_rows key xs rows = Inr rows' \<Longrightarrow> rows' = rows @ xs"
  by (induction xs arbitrary: rows) (fastforce simp: rbind_eq_Inr dest: insert_row_Inr)+

lemma insert_rows_total:
  assumes "distinct (map key xs)" and "key ` set xs \<inter> key ` set rows = {}"
  shows "insert_rows key xs rows = Inr (rows @ xs)"
  using assms by (induction xs arbitrary: rows) (auto simp: insert_row_def)

lemma write_projections_Inr:
  assumes "write_projections p n raw dg S = Inr S'"
  shows "S' = S\<lparr>st_programs := filter (\<lambda>r. pr_program r \<noteq> pg_id p) (st_programs S) @ [program_row_of p n raw dg],
     st_units := filter (\<lambda>r. un_program r \<noteq> pg_id p) (st_units S) @ unit_rows p,
     st_attempts := filter (\<lambda>r. at_program r \<noteq> pg_id p) (st_attempts S) @ attempt_rows p\<rparr>"
  using assms
  by (auto simp: write_projections_def delete_projection_def Let_def rbind_eq_Inr dest!: insert_row_Inr insert_rows_Inr)

lemma lift_Inr [res_simps]:
  "lift_record x = Inr y \<longleftrightarrow> x = Inr y" "lift_refusal x' = Inr y' \<longleftrightarrow> x' = Inr y'"
  by (cases x; simp add: lift_record_def) (cases x'; simp add: lift_refusal_def)

definition new_row ::
    "hash \<Rightarrow> string \<Rightarrow> int \<Rightarrow> string \<Rightarrow> string \<Rightarrow> string \<Rightarrow> string \<Rightarrow> string \<Rightarrow> program \<Rightarrow> string \<Rightarrow> history_row" where
  "new_row H i n key ct actor dg input p raw = \<lparr>hs_program = i, hs_sequence = n, hs_schema_version = codec_version,
     hs_command_key = key, hs_command_type = ct, hs_actor_id = actor, hs_input_digest = dg, hs_input_json = input,
     hs_aggregate_revision = pg_revision p, hs_facts_digest = H raw, hs_facts_json = raw\<rparr>"

lemma new_row_simps [simp]:
  "hs_program (new_row H i n key ct actor dg input p raw) = i" "hs_sequence (new_row H i n key ct actor dg input p raw) = n"
  "hs_schema_version (new_row H i n key ct actor dg input p raw) = codec_version"
  "hs_command_key (new_row H i n key ct actor dg input p raw) = key"
  "hs_command_type (new_row H i n key ct actor dg input p raw) = ct"
  "hs_actor_id (new_row H i n key ct actor dg input p raw) = actor"
  "hs_input_digest (new_row H i n key ct actor dg input p raw) = dg"
  "hs_input_json (new_row H i n key ct actor dg input p raw) = input"
  "hs_aggregate_revision (new_row H i n key ct actor dg input p raw) = pg_revision p"
  "hs_facts_digest (new_row H i n key ct actor dg input p raw) = H raw"
  "hs_facts_json (new_row H i n key ct actor dg input p raw) = raw"
  by (simp_all add: new_row_def)

text \<open>The store after \<open>record_result\<close>.\<close>

definition written :: "hash \<Rightarrow> history_row \<Rightarrow> program \<Rightarrow> store \<Rightarrow> store" where
  "written H r p S = S\<lparr>st_history := st_history S @ [r], st_admissions := st_admissions S @ [admission_of r],
     st_programs := filter (\<lambda>q. pr_program q \<noteq> pg_id p) (st_programs S)
       @ [program_row_of p (hs_sequence r) (hs_facts_json r) (hs_facts_digest r)],
     st_units := filter (\<lambda>q. un_program q \<noteq> pg_id p) (st_units S) @ unit_rows p,
     st_attempts := filter (\<lambda>q. at_program q \<noteq> pg_id p) (st_attempts S) @ attempt_rows p\<rparr>"

lemma insert_history_Inr:
  "insert_history r S = Inr S' \<Longrightarrow> S' = S\<lparr>st_history := st_history S @ [r]\<rparr> \<and> hs_command_key r \<notin> hs_command_key ` set (st_history S)"
  by (auto simp: insert_history_def rbind_eq_Inr guard_eq_Inr dest!: insert_row_Inr)

lemma insert_command_result_Inr:
  "insert_command_result a S = Inr S' \<Longrightarrow> S' = S\<lparr>st_admissions := st_admissions S @ [a]\<rparr>"
  by (auto simp: insert_command_result_def rbind_eq_Inr guard_eq_Inr dest!: insert_row_Inr)

lemma record_result_Inr:
  assumes "record_result H i n key ct actor dg input p S = Inr S'"
  obtains raw where "program_json H p = Inr raw" "key \<notin> hs_command_key ` set (st_history S)"
    "S' = written H (new_row H i n key ct actor dg input p raw) p S"
proof -
  from assms obtain raw S1 S2 where raw: "program_json H p = Inr raw" and w:
      "insert_history (new_row H i n key ct actor dg input p raw) S = Inr S1" "write_projections p n raw (H raw) S1 = Inr S2"
      "insert_command_result (admission_of (new_row H i n key ct actor dg input p raw)) S2 = Inr S'"
    by (auto simp: record_result_def Let_def res_simps new_row_def admission_of_def)
  show ?thesis
    using that[OF raw] insert_history_Inr[OF w(1)] write_projections_Inr[OF w(2)] insert_command_result_Inr[OF w(3)]
    by (simp add: written_def)
qed

lemma filter_others:
  "j \<noteq> i \<Longrightarrow> filter (\<lambda>r. f r \<noteq> i \<and> f r = j) xs = filter (\<lambda>r. f r = j) xs"
  "filter (\<lambda>r. f r \<noteq> i \<and> f r = i) xs = []"
  by (auto simp: filter_empty_conv intro: filter_cong)

lemma filter_unit_rows: "filter (\<lambda>r. un_program r = j) (unit_rows p) = (if j = pg_id p then unit_rows p else [])"
  by (auto simp: unit_rows_def filter_empty_conv intro: filter_True)

lemma filter_attempt_rows: "filter (\<lambda>r. at_program r = j) (attempt_rows p) = (if j = pg_id p then attempt_rows p else [])"
  by (auto simp: attempt_rows_def filter_empty_conv intro: filter_True)

lemma rows_of_written: "rows_of (written H r p S) j = rows_of S j @ (if hs_program r = j then [r] else [])"
  by (simp add: rows_of_def written_def)

lemma projected_other:
  assumes "j \<noteq> pg_id p" and "hs_program r = pg_id p"
  shows "projected H (written H r p S) j q = projected H S j q" and "unprojected (written H r p S) j = unprojected S j"
  using assms
  by (simp_all add: projected_def unprojected_def rows_of_def written_def filter_others filter_unit_rows filter_attempt_rows
      program_row_of_def)

lemma written_ok:
  assumes ok: "archive_ok H S" "projections_ok H S"
    and log: "logged H sp (rows_of S (pg_id p) @ [r]) p" and fresh: "hs_command_key r \<notin> hs_command_key ` set (st_history S)"
  shows "archive_ok H (written H r p S)" and "projections_ok H (written H r p S)"
proof -
  have r: "recorded_as H r p" using logged_last[OF log] by simp
  then have id: "hs_program r = pg_id p" by (simp add: recorded_as_def)
  have rows: "rows_of (written H r p S) j = (if j = pg_id p then rows_of S j @ [r] else rows_of S j)" for j
    by (simp add: rows_of_written id)
  show "archive_ok H (written H r p S)"
    unfolding archive_ok_def
  proof (intro conjI allI impI)
    show "distinct (map hs_command_key (st_history (written H r p S)))" "st_admissions (written H r p S) = map admission_of (st_history (written H r p S))"
      using archive_okD(1,2)[OF ok(1)] fresh by (simp_all add: written_def)
    fix j assume "rows_of (written H r p S) j \<noteq> []"
    then show "\<exists>sp q. logged H sp (rows_of (written H r p S) j) q \<and> pg_id q = j"
      using archive_okD(3)[OF ok(1), of j] log by (cases "j = pg_id p") (auto simp: rows)
  qed
  have "hs_sequence r = int (length (rows_of S (pg_id p))) + 1"
    using arg_cong[OF logged_sequences[OF log], of last] by (simp add: upto_rec2)
  then have new: "projected H (written H r p S) (pg_id p) p"
    using r by (simp add: projected_def rows)
      (simp add: written_def filter_others filter_unit_rows filter_attempt_rows program_row_of_def recorded_as_def add.commute)
  have "(if rows_of (written H r p S) j = [] then unprojected (written H r p S) j
      else \<forall>sp q. logged H sp (rows_of (written H r p S) j) q \<longrightarrow> projected H (written H r p S) j q)" for j
  proof (cases "j = pg_id p")
    case True
    then show ?thesis using new logged_unique[OF log] by (auto simp: rows)
  next
    case False
    then show ?thesis using ok(2) by (simp add: rows projections_ok_def projected_other[OF False id])
  qed
  then show "projections_ok H (written H r p S)" by (simp add: projections_ok_def)
qed

lemma journal_tables [simp]:
  "archive_ok H (S\<lparr>st_journal := J\<rparr>) = archive_ok H S" "projections_ok H (S\<lparr>st_journal := J\<rparr>) = projections_ok H S"
  "rows_of (S\<lparr>st_journal := J\<rparr>) i = rows_of S i"
  by (simp_all add: archive_ok_def projections_ok_def rows_of_def projected_def unprojected_def)

section \<open>Reading\<close>

lemma find_filter: "List.find P xs = (case filter P xs of [] \<Rightarrow> None | x # _ \<Rightarrow> Some x)"
  by (induction xs) auto

lemma projections_okD:
  assumes "projections_ok H S"
  shows "rows_of S i = [] \<Longrightarrow> unprojected S i" "logged H sp (rows_of S i) p \<Longrightarrow> projected H S i p"
  using assms[unfolded projections_ok_def, THEN spec, of i] logged_not_Nil[of H sp "rows_of S i" p] by (auto split: if_splits)

lemma find_program_row:
  assumes "projections_ok H S"
  shows "rows_of S i = [] \<Longrightarrow> find_program_row S i = None"
    and "logged H sp (rows_of S i) p \<Longrightarrow> pg_id p = i \<Longrightarrow>
      find_program_row S i = Some (program_row_of p (int (length (rows_of S i))) (hs_facts_json (last (rows_of S i))) (hs_facts_digest (last (rows_of S i))))"
proof -
  show "find_program_row S i = None" if "rows_of S i = []"
    using projections_okD(1)[OF assms that] by (simp add: unprojected_def find_program_row_def find_filter)
  show "find_program_row S i = Some (program_row_of p (int (length (rows_of S i))) (hs_facts_json (last (rows_of S i))) (hs_facts_digest (last (rows_of S i))))"
    if l: "logged H sp (rows_of S i) p" "pg_id p = i"
  proof -
    show ?thesis using projections_okD(2)[OF assms l(1)] logged_last[OF l(1)] by (auto simp: projected_def find_program_row_def find_filter recorded_as_def)
  qed
qed

text \<open>\<open>load\<close> reads what the log says.\<close>

lemma load_head_logged:
  assumes "archive_ok H S" and "projections_ok H S" and l: "logged H sp (rows_of S i) p" and "pg_id p = i"
  shows "load_head H S i = Inr p"
proof -
  note row = find_program_row(2)[OF assms(2,3,4)]
  have last: "recorded_as H (last (rows_of S i)) p" by (rule logged_last[OF l])
  have "rev (records_of S i) = last (rows_of S i) # tl (rev (rows_of S i))"
    using records_of_rows[OF assms(1), of i] logged_not_Nil[OF l] by (metis hd_rev list.collapse rev_is_Nil_conv)
  moreover have "hs_sequence (last (rows_of S i)) = int (length (rows_of S i))"
    using arg_cong[OF logged_sequences[OF l], of last] logged_not_Nil[OF l] by (simp add: last_map upto_rec2 Suc_le_eq)
  ultimately show ?thesis
    using last assms(4)
    by (simp add: load_head_def row program_row_of_def decode_facts_def or_corrupt_def lift_record_def latest_record_def recorded_as_def)
qed

lemma load_head_unknown:
  assumes "projections_ok H S" and "rows_of S i = []"
  shows "load_head H S i = Inl ProgramNotFound"
  using find_program_row(1)[OF assms] by (simp add: load_head_def)

lemma load_head_cases:
  assumes "archive_ok H S" and "projections_ok H S"
  obtains (unknown) "rows_of S i = []" "load_head H S i = Inl ProgramNotFound"
  | (known) sp p where "logged H sp (rows_of S i) p" "pg_id p = i" "load_head H S i = Inr p"
proof (cases "rows_of S i = []")
  case True
  then show ?thesis using unknown load_head_unknown[OF assms(2)] by blast
next
  case False
  then obtain sp p where "logged H sp (rows_of S i) p" "pg_id p = i" using archive_okD(3)[OF assms(1)] by blast
  then show ?thesis using known load_head_logged[OF assms] by blast
qed

lemma find_admission:
  assumes "archive_ok H S"
  shows "find_admission S key = map_option admission_of (List.find (\<lambda>r. hs_command_key r = key) (st_history S))"
proof -
  have "List.find (\<lambda>a. cm_command_key a = key) (map admission_of rs) = map_option admission_of (List.find (\<lambda>r. hs_command_key r = key) rs)" for rs
    by (induction rs) (simp_all add: admission_of_def)
  then show ?thesis using archive_okD(2)[OF assms] by (simp add: find_admission_def)
qed

section \<open>Command keys\<close>

lemma input_digests:
  "input_digest_of H (create_input_json sp) = Inr (H (create_input_json sp))"
  "input_digest_of H (command_input_json i c) = Inr (H (command_input_json i c))"
proof -
  have "loads (create_input_json sp) = Some (canon (create_input_value sp))"
    using loads_dumps(1)[OF unique_keys_create] by (simp add: create_input_json_def canonical_json_def)
  then show "input_digest_of H (create_input_json sp) = Inr (H (create_input_json sp))"
    using canonical_again[of "create_input_value sp"] by (simp add: input_digest_of_def digest_json_def create_input_json_def)
  show "input_digest_of H (command_input_json i c) = Inr (H (command_input_json i c))"
    by (simp add: input_digest_of_def input_loads digest_json_def canonical_input)
qed

lemma duplicate_unknown:
  assumes "archive_ok H S" and "key \<notin> hs_command_key ` set (st_history S)"
  shows "duplicate_result H S key d = Inr None"
proof -
  have "List.find (\<lambda>r. hs_command_key r = key) (st_history S) = None" using assms(2) by (auto simp: find_None_iff)
  then show ?thesis by (simp add: duplicate_result_def find_admission[OF assms(1)])
qed

lemma duplicate_known:
  assumes "archive_ok H S" and "r \<in> set (st_history S)" and "recorded_as H r p"
  shows "duplicate_result H S (hs_command_key r) d = (if hs_input_digest r = d then Inr (Some p) else Inl IdempotencyConflict)"
  using assms(3) find_distinct_key[OF archive_okD(1)[OF assms(1)] assms(2)]
  by (simp add: duplicate_result_def find_admission[OF assms(1)] admission_of_def recorded_as_def or_corrupt_def lift_record_def)

lemma duplicate_cases:
  assumes "archive_ok H S"
  obtains (unknown) "key \<notin> hs_command_key ` set (st_history S)" "duplicate_result H S key d = Inr None"
  | (known) r p where "r \<in> set (st_history S)" "hs_command_key r = key" "recorded_as H r p"
      "duplicate_result H S key d = (if hs_input_digest r = d then Inr (Some p) else Inl IdempotencyConflict)"
proof (cases "key \<in> hs_command_key ` set (st_history S)")
  case False
  then show ?thesis using unknown duplicate_unknown[OF assms False] by blast
next
  case True
  then obtain r where r: "r \<in> set (st_history S)" "hs_command_key r = key" by blast
  obtain p where p: "recorded_as H r p" by (rule archived_row[OF assms r(1)])
  show ?thesis using known[OF r p] duplicate_known[OF assms r(1) p] r(2) by simp
qed

section \<open>Creation and admission\<close>

lemma stored_row:
  assumes "digest_like H" and "wf_spec sp" and "reachable H sp p" and "program_json H p = Inr raw" and "nonblank key"
  shows "recorded_as H (new_row H (pg_id p) n key ct actor (H input) input p raw) p"
proof -
  obtain raw' where "program_json H p = Inr raw'" "program_from_json H raw' = Inr p"
    by (rule stored_program[OF assms(1-3)])
  then show ?thesis using assms(4,5) by (simp add: recorded_as_def)
qed

lemma create_program_cases:
  assumes "digest_like H" and ok: "archive_ok H S" "projections_ok H S" and "wf_spec sp" and c: "create_program H sp key S = Inr (p, S')"
  obtains (again) r where "S' = S" "r \<in> set (st_history S)" "hs_command_key r = key" "hs_input_digest r = H (create_input_json sp)"
      "recorded_as H r p"
  | (fresh) r where "S' = written H r p S" "logged H sp (rows_of S (pg_id p) @ [r]) p" "create sp = Inr p"
      "hs_command_key r = key" "hs_command_key r \<notin> hs_command_key ` set (st_history S)" "hs_input_json r = create_input_json sp"
proof -
  have c': "nonblank key" "rbind (duplicate_result H S key (H (create_input_json sp))) (\<lambda>duplicate. case duplicate of
       Some p \<Rightarrow> Inr (p, S)
     | None \<Rightarrow>
         rbind (guard (find_program_row S (ps_program_id sp) = None) ProgramAlreadyExists) (\<lambda>_.
         rbind (lift_refusal (create sp)) (\<lambda>initial.
         rbind (record_result H (ps_program_id sp) 1 key ''create_program'' (ae_owner_id (ps_authority sp))
           (H (create_input_json sp)) (create_input_json sp) initial S) (\<lambda>S'. Inr (initial, S'))))) = Inr (p, S')"
    using c by (simp_all add: create_program_def input_digests Let_def res_simps)
  from ok(1) show ?thesis
  proof (cases rule: duplicate_cases[where key = key and d = "H (create_input_json sp)"])
    case (known r q)
    then show ?thesis using c'(2) again[of r] by (auto split: if_splits)
  next
    case unknown
    then have new: "find_program_row S (ps_program_id sp) = None" "create sp = Inr p"
        "record_result H (ps_program_id sp) 1 key ''create_program'' (ae_owner_id (ps_authority sp))
           (H (create_input_json sp)) (create_input_json sp) p S = Inr S'"
      using c'(2) by (auto simp: res_simps)
    have id: "pg_id p = ps_program_id sp" using new(2) by (auto simp: create_def res_simps)
    have rows: "rows_of S (ps_program_id sp) = []"
    proof (rule ccontr)
      assume "rows_of S (ps_program_id sp) \<noteq> []"
      then obtain sp' q where "logged H sp' (rows_of S (ps_program_id sp)) q" "pg_id q = ps_program_id sp"
        using archive_okD(3)[OF ok(1)] by blast
      then show False using find_program_row(2)[OF ok(2)] new(1) by simp
    qed
    from new(3) obtain raw where w: "program_json H p = Inr raw"
        "S' = written H (new_row H (ps_program_id sp) 1 key ''create_program'' (ae_owner_id (ps_authority sp))
           (H (create_input_json sp)) (create_input_json sp) p raw) p S"
      by (rule record_result_Inr)
    have "reachable H sp p" using new(2) by (blast intro: reaches_refl)
    from stored_row[OF assms(1,4) this w(1) c'(1)] have
        "logged H sp [new_row H (ps_program_id sp) 1 key ''create_program'' (ae_owner_id (ps_authority sp))
           (H (create_input_json sp)) (create_input_json sp) p raw] p"
      unfolding id by (intro logged_create[OF assms(4) new(2)]) (simp_all add: records_creation_def)
    then show ?thesis using fresh[OF w(2)] unknown(1) rows new(2) by (simp add: id)
  qed
qed

lemma write_facts_Inr:
  assumes "write_facts H facts S = Inr S'"
  obtains J where "S' = S\<lparr>st_journal := J\<rparr>" "write_work_records H facts (st_journal S) = Inr J"
  using assms by (auto simp: write_facts_def rbind_eq_Inr)

lemma insert_effect_Inr:
  assumes "insert_effect H effect S = Inr S'"
  obtains J where "S' = S\<lparr>st_journal := J\<rparr>" "keeps (st_journal S) J" "matching_effect effect S'"
    "journal_ok H (st_journal S) \<Longrightarrow> (case effect of None \<Rightarrow> True | Some (_, _, request) \<Rightarrow> unique_keys (JObj request)) \<Longrightarrow> journal_ok H J"
proof (cases effect)
  case None
  then show ?thesis using assms that[of "st_journal S"] by (simp add: insert_effect_def keeps_refl matching_effect_def)
next
  case (Some e)
  obtain i k request where e: "e = (i, k, request)" by (cases e)
  obtain J where J: "insert_intent H False i k request (st_journal S) = Inr J" "S' = S\<lparr>st_journal := J\<rparr>"
    using assms Some e by (auto simp: insert_effect_def rbind_eq_Inr)
  have none: "filter (\<lambda>row. op_id row = i \<or> op_effect_key row = k) (jn_operations (st_journal S)) = []"
    using J(1) by (auto simp: insert_intent_def Let_def rbind_eq_Inr guard_eq_Inr split: if_splits)
  then have "find_row (st_journal S) i = None" by (auto simp: find_row_def find_None_iff filter_empty_conv)
  then have "\<exists>row. find_row J i = Some row \<and> op_effect_key row = k \<and> op_request_json row = request_envelope request"
    using J(1) none by (auto simp: insert_intent_def Let_def rbind_eq_Inr guard_eq_Inr find_row_def find_filter split: list.splits)
  then have "matching_effect effect S'" using J(2) Some e by (auto simp: matching_effect_def)
  then show ?thesis using that[OF J(2) insert_intent_keeps[OF J(1)]] insert_intent_ok[OF _ _ J(1)] Some e by simp
qed

lemma written_journal: "written H r p (S\<lparr>st_journal := J\<rparr>) = (written H r p S)\<lparr>st_journal := J\<rparr>"
  by (simp add: written_def)

lemma matching_effect_keeps: "matching_effect effect S \<Longrightarrow> keeps (st_journal S) J \<Longrightarrow> matching_effect effect (S'\<lparr>st_journal := J\<rparr>)"
  by (auto simp: matching_effect_def keeps_find_row split: option.splits)

definition facts_made :: "work_fact list sres \<Rightarrow> bool" where
  "facts_made r \<longleftrightarrow> (case r of Inl _ \<Rightarrow> True | Inr facts \<Rightarrow> \<forall>w \<in> set facts. unique_keys (JObj (work_fields w)))"

text \<open>The arguments of an admission are Python dictionaries and constructed commands.\<close>

definition admission_ok :: "verdicts \<Rightarrow> domain_command \<Rightarrow> effect_intent option \<Rightarrow> bool" where
  "admission_ok vd c effect \<longleftrightarrow> made_command c \<and> facts_made (vd_budget vd) \<and> facts_made (vd_dispatch vd) \<and> facts_made (vd_workspace vd)
     \<and> (case effect of None \<Rightarrow> True | Some (_, _, request) \<Rightarrow> unique_keys (JObj request))"

lemma admission_facts_made:
  assumes "facts_made (vd_budget vd)" and "admission_facts vd b i c effect = Inr facts"
  shows "\<forall>w \<in> set facts. unique_keys (JObj (work_fields w))"
  using assms
  by (auto simp: admission_facts_def facts_made_def unbound_fact_def work_fields_def unique_keys_JObj
      split: domain_command.splits if_splits option.splits)

text \<open>A decision on a new key, up to its three parts: the domain, the history and the journal.\<close>

lemma admit_decision_steps:
  assumes "admit_decision H vd i key c effect S = Inr (p, S')" and "duplicate_result H S key (H (command_input_json i c)) = Inr None"
  obtains cur b facts J1 head S2 J3 dfacts J4 wfacts J5 where
    "nonblank i" "nonblank key" "load_head H S i = Inr cur" "vd_ownership vd = Inr ()" "apply_command H cur c = Inr p"
    "admission_facts vd b i c effect = Inr facts" "write_work_records H facts (st_journal S) = Inr J1" "pg_id p = i"
    "find_program_row (S\<lparr>st_journal := J1\<rparr>) i = Some head"
    "record_result H i (pr_sequence head + 1) key (fst (command_parameters c)) (cmd_actor_id c)
       (H (command_input_json i c)) (command_input_json i c) p (S\<lparr>st_journal := J1\<rparr>) = Inr S2"
    "insert_effect H effect S2 = Inr (S2\<lparr>st_journal := J3\<rparr>)"
    "dfacts = [] \<or> vd_dispatch vd = Inr dfacts" "write_work_records H dfacts J3 = Inr J4"
    "wfacts = [] \<or> vd_workspace vd = Inr wfacts" "write_work_records H wfacts J4 = Inr J5" "S' = S2\<lparr>st_journal := J5\<rparr>"
proof -
  from assms obtain cur b facts S1 head S2 S3 dfacts S4 wfacts where d:
    "nonblank i" "nonblank key" "load_head H S i = Inr cur" "vd_ownership vd = Inr ()" "apply_command H cur c = Inr p"
    "admission_facts vd b i c effect = Inr facts" "write_facts H facts S = Inr S1" "pg_id p = i"
    "find_program_row S1 i = Some head"
    "record_result H i (pr_sequence head + 1) key (fst (command_parameters c)) (cmd_actor_id c)
       (H (command_input_json i c)) (command_input_json i c) p S1 = Inr S2"
    "insert_effect H effect S2 = Inr S3" "dfacts = [] \<or> vd_dispatch vd = Inr dfacts" "write_facts H dfacts S3 = Inr S4"
    "wfacts = [] \<or> vd_workspace vd = Inr wfacts" "write_facts H wfacts S4 = Inr S'"
    unfolding admit_decision_def Let_def input_digests
    by (simp add: res_simps split: option.splits) (elim exE conjE, fastforce split: if_splits)
  obtain J1 where J1: "S1 = S\<lparr>st_journal := J1\<rparr>" "write_work_records H facts (st_journal S) = Inr J1" using d(7) by (rule write_facts_Inr)
  obtain J3 where J3: "S3 = S2\<lparr>st_journal := J3\<rparr>" using d(11) by (rule insert_effect_Inr)
  obtain J4 where J4: "S4 = S3\<lparr>st_journal := J4\<rparr>" "write_work_records H dfacts (st_journal S3) = Inr J4" using d(13) by (rule write_facts_Inr)
  obtain J5 where J5: "S' = S4\<lparr>st_journal := J5\<rparr>" "write_work_records H wfacts (st_journal S4) = Inr J5" using d(15) by (rule write_facts_Inr)
  show ?thesis
    by (rule that[OF d(1-6) J1(2) d(8) _ _ _ d(12) _ d(14)]) (use d J1(1) J3 J4 J5 in simp_all)
qed

lemma admit_cases:
  assumes H: "digest_like H" and ok: "archive_ok H S" "projections_ok H S" and c: "admission_ok vd c effect"
    and a: "admit_decision H vd i key c effect S = Inr (p, S')"
  obtains (again) r where "S' = S" "r \<in> set (st_history S)" "hs_command_key r = key" "hs_input_digest r = H (command_input_json i c)"
      "recorded_as H r p" "matching_effect effect S"
  | (fresh) sp q r J where "logged H sp (rows_of S i) q" "pg_id q = i" "apply_command H q c = Inr p" "pg_id p = i"
      "logged H sp (rows_of S i @ [r]) p" "S' = (written H r p S)\<lparr>st_journal := J\<rparr>" "keeps (st_journal S) J"
      "matching_effect effect S'" "journal_ok H (st_journal S) \<Longrightarrow> journal_ok H J"
      "hs_command_key r = key" "hs_command_key r \<notin> hs_command_key ` set (st_history S)" "hs_input_json r = command_input_json i c"
  using ok(1)
proof (cases rule: duplicate_cases[where key = key and d = "H (command_input_json i c)"])
  case (known r q)
  then have "S' = S" "q = p" "matching_effect effect S" "hs_input_digest r = H (command_input_json i c)"
    using a by (auto simp: admit_decision_def input_digests Let_def res_simps split: if_splits)
  then show ?thesis using again[of r] known by simp
next
  case unknown
  from a unknown(2) show ?thesis
  proof (cases rule: admit_decision_steps)
    case (1 cur b facts J1 head S2 J3 dfacts J4 wfacts J5)
    from load_head_cases[OF ok, of i] 1(3) obtain sp where l: "logged H sp (rows_of S i) cur" "pg_id cur = i"
      by (metis Inl_Inr_False Inr_inject)
    have head: "pr_sequence head = int (length (rows_of S i))"
      using find_program_row(2)[of H "S\<lparr>st_journal := J1\<rparr>" sp i cur] ok(2) l 1(9) by (simp add: program_row_of_def)
    obtain raw where w: "program_json H p = Inr raw"
        "S2 = written H (new_row H i (pr_sequence head + 1) key (fst (command_parameters c)) (cmd_actor_id c)
           (H (command_input_json i c)) (command_input_json i c) p raw) p (S\<lparr>st_journal := J1\<rparr>)"
      using 1(10) by (rule record_result_Inr)
    let ?r = "new_row H i (pr_sequence head + 1) key (fst (command_parameters c)) (cmd_actor_id c)
       (H (command_input_json i c)) (command_input_json i c) p raw"
    have made: "made_command c" using c by (simp add: admission_ok_def)
    have sp: "wf_spec sp" "reachable H sp cur" using logged_reachable[OF l(1)] by blast+
    have "reachable H sp p" using sp(2) 1(5) made by (auto simp: made_command_def intro: reaches_step)
    from stored_row[OF H sp(1) this w(1) 1(2)] have rec: "recorded_as H ?r p" unfolding 1(8) .
    have log: "logged H sp (rows_of S i @ [?r]) p"
      by (rule logged_command[OF l(1) made 1(5) _ rec]) (simp add: records_command_def head)
    obtain J where J: "S2\<lparr>st_journal := J3\<rparr> = S2\<lparr>st_journal := J\<rparr>" "keeps (st_journal S2) J" "matching_effect effect (S2\<lparr>st_journal := J3\<rparr>)"
      "journal_ok H (st_journal S2) \<Longrightarrow> (case effect of None \<Rightarrow> True | Some (_, _, request) \<Rightarrow> unique_keys (JObj request)) \<Longrightarrow> journal_ok H J"
      by (rule insert_effect_Inr[OF 1(11)]) (rule that)
    have J3: "J = J3" using arg_cong[OF J(1), of st_journal] by simp
    have S2: "st_journal S2 = J1" by (simp add: w(2) written_def)
    have later: "keeps J3 J5"
      using write_work_records_keeps[OF 1(13)] write_work_records_keeps[OF 1(15)] keeps_trans by blast
    have kept: "keeps (st_journal S) J5"
      using write_work_records_keeps[OF 1(7)] J(2) later keeps_trans unfolding J3 S2 by blast
    have jok: "journal_ok H J5" if j: "journal_ok H (st_journal S)"
    proof -
      note facts = c[unfolded admission_ok_def facts_made_def]
      have "journal_ok H J1" using write_work_records_ok[OF j admission_facts_made[OF _ 1(6)] 1(7)] c by (simp add: admission_ok_def)
      then have "journal_ok H J3" using J(4) facts unfolding S2 J3 by blast
      from write_work_records_ok[OF this _ 1(13)] have "journal_ok H J4" using 1(12) facts by auto
      from write_work_records_ok[OF this _ 1(15)] show ?thesis using 1(14) facts by auto
    qed
    have "S' = (written H ?r p S)\<lparr>st_journal := J5\<rparr>" unfolding 1(16) w(2) written_journal by simp
    moreover have "matching_effect effect S'"
      using matching_effect_keeps[OF J(3), of J5 S2] later unfolding 1(16) by simp
    ultimately show ?thesis
      using fresh[OF l 1(5,8) log _ kept _ jok] unknown(1) by simp
  qed
qed

section \<open>Rebuilding\<close>

lemma sorted_history:
  assumes "archive_ok H S"
  shows "filter (\<lambda>r. hs_program r = i) (sort_key history_key (st_history S)) = rows_of S i"
proof -
  have "sorted (map history_key (rows_of S i))"
  proof (cases "rows_of S i = []")
    case False
    then obtain sp p where "logged H sp (rows_of S i) p" using archive_okD(3)[OF assms] by blast
    then have "sorted (map hs_sequence (rows_of S i))" using logged_sequences sorted_upto by metis
    moreover have "map history_key (rows_of S i) = map (Pair i) (map hs_sequence (rows_of S i))" by (auto simp: rows_of_def)
    ultimately show ?thesis by (simp only:) (simp add: sorted_map)
  qed simp
  then show ?thesis by (simp add: filter_sort rows_of_def sort_key_id_if_sorted)
qed

definition heads_ok :: "hash \<Rightarrow> rebuild_state \<Rightarrow> history_row list \<Rightarrow> bool" where
  "heads_ok H heads rows \<longleftrightarrow> distinct (map fst heads)
     \<and> (\<forall>i. filter (\<lambda>r. hs_program r = i) rows = [] \<longrightarrow> map_of heads i = None)
     \<and> (\<forall>i sp p. logged H sp (filter (\<lambda>r. hs_program r = i) rows) p \<longrightarrow>
          map_of heads i = Some (p, int (length (filter (\<lambda>r. hs_program r = i) rows)),
            hs_facts_json (last (filter (\<lambda>r. hs_program r = i) rows)), hs_facts_digest (last (filter (\<lambda>r. hs_program r = i) rows))))"

lemma heads_ok_update:
  assumes "heads_ok H heads rows" and "logged H sp (filter (\<lambda>q. hs_program q = hs_program r) rows @ [r]) p"
  shows "heads_ok H (AList.update (hs_program r) (p, hs_sequence r, hs_facts_json r, hs_facts_digest r) heads) (rows @ [r])"
proof -
  have "hs_sequence r = int (length (filter (\<lambda>q. hs_program q = hs_program r) rows)) + 1"
    using arg_cong[OF logged_sequences[OF assms(2)], of last] by (simp add: upto_rec2)
  then show ?thesis
    using assms(1) logged_unique[OF assms(2)] by (auto simp: heads_ok_def update_conv' distinct_update add.commute)
qed

lemma command_not_creation: "fst (command_parameters c) \<noteq> ''create_program''"
  by (cases c) simp_all

lemma logged_sound:
  assumes "digest_like H" and "logged H sp rows p"
  shows "sound H p"
  using logged_reachable[OF assms(2)] reachable_sound[OF assms(1)] by blast

lemma sound_program_id: "sound H p \<Longrightarrow> nonblank (pg_id p)"
  using inv_wf(1)[of H p] by (simp add: sound_def wf_spec_def)

lemma check_admission_ok:
  assumes "archive_ok H S" and "r \<in> set (st_history S)"
  shows "check_admission S r = Inr ()"
  using find_distinct_key[OF archive_okD(1)[OF assms(1)] assms(2)]
  by (simp add: check_admission_def find_admission[OF assms(1)] admission_of_def)

lemma rebuild_row_ok:
  assumes H: "digest_like H" and ok: "archive_ok H S" and r: "r \<in> set (st_history S)" and heads: "heads_ok H heads rows"
    and log: "logged H sp (filter (\<lambda>q. hs_program q = hs_program r) rows @ [r]) p"
  shows "rebuild_row H S heads r = Inr (AList.update (hs_program r) (p, hs_sequence r, hs_facts_json r, hs_facts_digest r) heads)"
proof -
  let ?rows = "filter (\<lambda>q. hs_program q = hs_program r) rows"
  have rec: "recorded_as H r p" using logged_last[OF log] by simp
  have facts: "H (hs_facts_json r) = hs_facts_digest r" "hs_schema_version r = codec_version" "nonblank (hs_command_key r)"
      "decode_facts H (hs_facts_json r) (hs_program r) (hs_aggregate_revision r) = Inr p"
    using rec by (simp_all add: recorded_as_def decode_facts_def or_corrupt_def lift_record_def)
  have adm: "check_admission S r = Inr ()" by (rule check_admission_ok[OF ok r])
  from log show ?thesis
  proof (cases rule: logged_snocE)
    case creation
    then have none: "map_of heads (hs_program r) = None" using heads by (simp add: heads_ok_def)
    have p: "pg_revision p = 0" "pg_status p = ProgramDraft" "pg_id p = ps_program_id sp"
      using creation(3) by (auto simp: create_def res_simps)
    have "check_input H heads r = Inr ()"
      using creation(4) none created_specs_are_stored[OF creation(2), of H] rec p(3)
      by (simp add: check_input_def records_creation_def recorded_as_def lift_record_def)
    then show ?thesis
      using facts adm none p creation(4) by (simp add: rebuild_row_def Let_def records_creation_def)
  next
    case (command q c)
    have some: "map_of heads (hs_program r) = Some (q, int (length ?rows), hs_facts_json (last ?rows), hs_facts_digest (last ?rows))"
      using heads command(1) by (simp add: heads_ok_def)
    have snd: "sound H q" by (rule logged_sound[OF H command(1)])
    have c: "wf_command c" using command(2) by (simp add: made_command_def)
    have ext: "extends q p" using program_machine.step_extends[OF snd c command(3)] .
    have "nonblank (hs_program r)"
      using sound_program_id[OF logged_sound[OF H log]] rec by (simp add: recorded_as_def)
    from input_accepted[OF command(2) this, of H] have "check_input H heads r = Inr ()"
      using command(4) some rec command_not_creation[of c]
      by (simp add: check_input_def records_command_def recorded_as_def lift_record_def)
    moreover have "0 < length ?rows" using logged_not_Nil[OF command(1)] by simp
    ultimately show ?thesis
      using facts adm some command(4) ext by (simp add: rebuild_row_def Let_def records_command_def extends_def)
  qed
qed

lemma logged_prefix:
  assumes "logged H sp (xs @ r # ys) p"
  shows "\<exists>q. logged H sp (xs @ [r]) q"
  using assms
proof (induction ys arbitrary: p rule: rev_induct)
  case (snoc y ys)
  from snoc.prems have "logged H sp ((xs @ r # ys) @ [y]) p" by simp
  then show ?case using snoc.IH by (cases rule: logged_snocE) auto
qed auto

lemma rebuild_rows_append: "rebuild_rows H S heads (xs @ ys) = rbind (rebuild_rows H S heads xs) (\<lambda>h. rebuild_rows H S h ys)"
  by (induction xs arbitrary: heads) (simp_all add: rbind_assoc)

text \<open>Every prefix of the sorted history is accepted, and the heads are the last records of their programs.\<close>

lemma rebuild_rows_ok:
  assumes H: "digest_like H" and ok: "archive_ok H S" and "xs @ ys = sort_key history_key (st_history S)"
  shows "\<exists>heads. rebuild_rows H S [] xs = Inr heads \<and> heads_ok H heads xs"
  using assms(3)
proof (induction xs arbitrary: ys rule: rev_induct)
  case Nil
  have "\<not> logged H sp [] p" for sp p using logged_not_Nil by blast
  then show ?case by (simp add: heads_ok_def)
next
  case (snoc r xs)
  then obtain heads where heads: "rebuild_rows H S [] xs = Inr heads" "heads_ok H heads xs" by fastforce
  have r: "r \<in> set (st_history S)" using arg_cong[OF snoc.prems, of set] by auto
  have rows: "rows_of S (hs_program r) = filter (\<lambda>q. hs_program q = hs_program r) xs @ r # filter (\<lambda>q. hs_program q = hs_program r) ys"
    using sorted_history[OF ok, of "hs_program r"] unfolding snoc.prems[symmetric] by simp
  then obtain sp p where "logged H sp (filter (\<lambda>q. hs_program q = hs_program r) xs @ r # filter (\<lambda>q. hs_program q = hs_program r) ys) p"
    using archive_okD(3)[OF ok, of "hs_program r"] by auto
  from logged_prefix[OF this] obtain q where log: "logged H sp (filter (\<lambda>q. hs_program q = hs_program r) xs @ [r]) q" by blast
  show ?case
    using rebuild_row_ok[OF H ok r heads(2) log] heads_ok_update[OF heads(2) log] heads(1) by (simp add: rebuild_rows_append)
qed

definition shows_program :: "store \<Rightarrow> string \<Rightarrow> program \<Rightarrow> int \<Rightarrow> string \<Rightarrow> string \<Rightarrow> bool" where
  "shows_program S i p n raw dg \<longleftrightarrow> filter (\<lambda>r. pr_program r = i) (st_programs S) = [program_row_of p n raw dg]
     \<and> filter (\<lambda>r. un_program r = i) (st_units S) = unit_rows p \<and> filter (\<lambda>r. at_program r = i) (st_attempts S) = attempt_rows p"

definition same_view :: "store \<Rightarrow> store \<Rightarrow> string \<Rightarrow> bool" where
  "same_view S S' i \<longleftrightarrow> filter (\<lambda>r. pr_program r = i) (st_programs S') = filter (\<lambda>r. pr_program r = i) (st_programs S)
     \<and> filter (\<lambda>r. un_program r = i) (st_units S') = filter (\<lambda>r. un_program r = i) (st_units S)
     \<and> filter (\<lambda>r. at_program r = i) (st_attempts S') = filter (\<lambda>r. at_program r = i) (st_attempts S)"

lemma write_projections_effect:
  assumes "write_projections p n raw dg S = Inr S'"
  shows "st_history S' = st_history S" "st_admissions S' = st_admissions S" "st_journal S' = st_journal S"
    "shows_program S' (pg_id p) p n raw dg" "i \<noteq> pg_id p \<Longrightarrow> same_view S S' i"
  using write_projections_Inr[OF assms]
  by (simp_all add: shows_program_def same_view_def filter_others filter_unit_rows filter_attempt_rows program_row_of_def)

lemma write_all_effect:
  assumes "write_all es S = Inr S'" and "distinct (map fst es)" and "\<forall>(i, p, _) \<in> set es. pg_id p = i"
  shows "st_history S' = st_history S \<and> st_admissions S' = st_admissions S \<and> st_journal S' = st_journal S
    \<and> (case map_of es i of None \<Rightarrow> same_view S S' i | Some (p, n, raw, dg) \<Rightarrow> shows_program S' i p n raw dg)"
  using assms
proof (induction es arbitrary: S)
  case Nil
  then show ?case by (simp add: same_view_def)
next
  case (Cons e es)
  obtain j p n raw dg where e: "e = (j, p, n, raw, dg)" by (cases e)
  obtain S1 where S1: "write_projections p n raw dg S = Inr S1" "write_all es S1 = Inr S'"
    using Cons.prems(1) e by (auto simp: rbind_eq_Inr)
  have j: "pg_id p = j" "j \<notin> fst ` set es" using Cons.prems(2,3) e by simp_all
  then have "map_of es j = None" by (simp add: map_of_eq_None_iff)
  then show ?case
    using Cons.IH[OF S1(2)] Cons.prems(2,3) write_projections_effect[OF S1(1)] j(1)
    by (cases "i = j"; cases "map_of es i") (auto simp: e same_view_def shows_program_def)
qed

lemma write_projections_total:
  assumes "hex_digest H" and "sound H p" and "0 < n" and "(pg_id p, n) \<in> history_key ` set (st_history S)"
  shows "\<exists>S'. write_projections p n raw (H raw) S = Inr S'"
proof -
  have ok: "program_ok H p" using assms(2) by (simp add: sound_def)
  let ?S = "delete_projection (\<lambda>i. i = pg_id p) S"
  have d: "distinct (map us_work_unit_id (pg_states p))" "distinct (map at_id (pg_attempts p))"
    using inv_states_ids[OF ok] inv_wf(1,4)[OF ok] wf_specD(2) by auto
  have keys: "map (\<lambda>r. (un_program r, un_id r)) (unit_rows p) = map (Pair (pg_id p)) (map us_work_unit_id (pg_states p))"
      "map (\<lambda>r. (at_program r, at_row_id r)) (attempt_rows p) = map (Pair (pg_id p)) (map at_id (pg_attempts p))"
    by (simp_all add: unit_rows_def attempt_rows_def)
  have pairs: "distinct (map (Pair (pg_id p)) xs) = distinct xs" for xs by (simp add: distinct_map inj_on_def)
  have "insert_row pr_program (program_row_of p n raw (H raw)) (st_programs ?S) = Inr (st_programs ?S @ [program_row_of p n raw (H raw)])"
    by (auto simp: insert_row_def delete_projection_def program_row_of_def)
  moreover have "insert_rows (\<lambda>r. (un_program r, un_id r)) (unit_rows p) (st_units ?S) = Inr (st_units ?S @ unit_rows p)"
    by (rule insert_rows_total) (simp only: keys pairs d, auto simp: delete_projection_def unit_rows_def)
  moreover have "insert_rows (\<lambda>r. (at_program r, at_row_id r)) (attempt_rows p) (st_attempts ?S) = Inr (st_attempts ?S @ attempt_rows p)"
    by (rule insert_rows_total) (simp only: keys pairs d, auto simp: delete_projection_def attempt_rows_def)
  moreover have "0 \<le> pg_revision p" using ok by (simp add: program_ok_def)
  ultimately show ?thesis
    using assms(1,3,4) by (simp add: write_projections_def Let_def hex_digest_def)
qed

lemma write_all_total:
  assumes "hex_digest H" and "\<forall>(i, p, n, raw, dg) \<in> set es. sound H p \<and> 0 < n \<and> pg_id p = i \<and> (i, n) \<in> history_key ` set (st_history S) \<and> dg = H raw"
  shows "\<exists>S'. write_all es S = Inr S'"
  using assms(2)
proof (induction es arbitrary: S)
  case (Cons e es)
  obtain j p n raw dg where e: "e = (j, p, n, raw, dg)" by (cases e)
  then obtain S1 where S1: "write_projections p n raw dg S = Inr S1"
    using write_projections_total[OF assms(1), of p n S raw] Cons.prems by auto
  then have "\<exists>S'. write_all es S1 = Inr S'"
    using Cons.IH[of S1] Cons.prems write_projections_effect(1)[OF S1] by auto
  then show ?case by (simp add: e S1)
qed simp

lemma rebuild_heads:
  assumes "digest_like H" and "archive_ok H S"
  obtains heads where "rebuild_rows H S [] (sort_key history_key (st_history S)) = Inr heads" "distinct (map fst heads)"
    "\<And>i. rows_of S i = [] \<Longrightarrow> map_of heads i = None"
    "\<And>i sp p. logged H sp (rows_of S i) p \<Longrightarrow> map_of heads i =
       Some (p, int (length (rows_of S i)), hs_facts_json (last (rows_of S i)), hs_facts_digest (last (rows_of S i)))"
proof -
  obtain heads where "rebuild_rows H S [] (sort_key history_key (st_history S)) = Inr heads"
      "heads_ok H heads (sort_key history_key (st_history S))"
    using rebuild_rows_ok[OF assms, of "sort_key history_key (st_history S)" "[]"] by auto
  then show ?thesis using that[of heads] by (simp add: heads_ok_def sorted_history[OF assms(2)])
qed

text \<open>What an entry of the heads stands for.\<close>

lemma rebuild_head_entry:
  assumes "archive_ok H S" and "distinct (map fst heads)" and "(i, p, n, raw, dg) \<in> set heads"
    and "\<And>i. rows_of S i = [] \<Longrightarrow> map_of heads i = None"
    and "\<And>i sp p. logged H sp (rows_of S i) p \<Longrightarrow> map_of heads i =
       Some (p, int (length (rows_of S i)), hs_facts_json (last (rows_of S i)), hs_facts_digest (last (rows_of S i)))"
  obtains sp where "logged H sp (rows_of S i) p" "pg_id p = i" "n = int (length (rows_of S i))"
    "raw = hs_facts_json (last (rows_of S i))" "dg = hs_facts_digest (last (rows_of S i))"
proof -
  have m: "map_of heads i = Some (p, n, raw, dg)" using assms(2,3) by simp
  then have "rows_of S i \<noteq> []" using assms(4) by fastforce
  then obtain sp q where "logged H sp (rows_of S i) q" "pg_id q = i" using archive_okD(3)[OF assms(1)] by blast
  then show ?thesis using that assms(5)[of sp i q] m by simp
qed

lemma rebuild_ok:
  assumes "digest_like H" and ok: "archive_ok H S" and "rebuild_projections H S = Inr (n, S')"
  shows "st_history S' = st_history S \<and> st_admissions S' = st_admissions S \<and> st_journal S' = st_journal S \<and> projections_ok H S'
    \<and> n = card (hs_program ` set (st_history S))"
proof -
  obtain heads where heads: "rebuild_rows H S [] (sort_key history_key (st_history S)) = Inr heads" "distinct (map fst heads)"
    and none: "\<And>i. rows_of S i = [] \<Longrightarrow> map_of heads i = None"
    and some: "\<And>i sp p. logged H sp (rows_of S i) p \<Longrightarrow> map_of heads i =
       Some (p, int (length (rows_of S i)), hs_facts_json (last (rows_of S i)), hs_facts_digest (last (rows_of S i)))"
    by (rule rebuild_heads[OF assms(1,2)]) (rule that)
  let ?S = "delete_projection (\<lambda>_. True) S"
  have w: "write_all heads ?S = Inr S'" and n: "n = length heads"
    using assms(3) heads(1) by (auto simp: rebuild_projections_def rbind_eq_Inr)
  have ids: "\<forall>(i, p, _) \<in> set heads. pg_id p = i"
    by (auto elim: rebuild_head_entry[OF ok heads(2) _ none some])
  note eff = write_all_effect[OF w heads(2) ids]
  have rows: "rows_of S' i = rows_of S i" for i using eff by (simp add: rows_of_def delete_projection_def)
  have "if rows_of S' i = [] then unprojected S' i else \<forall>sp p. logged H sp (rows_of S' i) p \<longrightarrow> projected H S' i p" for i
  proof (cases "rows_of S i = []")
    case True
    then show ?thesis using eff[of i] none[OF True] by (simp add: rows same_view_def unprojected_def delete_projection_def)
  next
    case False
    have "projected H S' i p" if l: "logged H sp (rows_of S i) p" for sp p
      using eff[of i] some[OF l] logged_last[OF l] by (simp add: projected_def shows_program_def rows recorded_as_def)
    then show ?thesis using False by (simp add: rows)
  qed
  then have "projections_ok H S'" by (simp add: projections_ok_def)
  moreover have "fst ` set heads = hs_program ` set (st_history S)"
  proof -
    have "map_of heads i \<noteq> None" if known: "rows_of S i \<noteq> []" for i
    proof -
      obtain sp p where "logged H sp (rows_of S i) p" using archive_okD(3)[OF ok known] by blast
      then show ?thesis using some by simp
    qed
    then have "map_of heads i = None \<longleftrightarrow> i \<notin> hs_program ` set (st_history S)" for i
      using none[of i] rows_of_empty[of S i] by blast
    then show ?thesis unfolding map_of_eq_None_iff by blast
  qed
  ultimately show ?thesis using eff distinct_card[OF heads(2)] n by (simp add: delete_projection_def)
qed

lemma rebuild_total:
  assumes "digest_like H" and "hex_digest H" and ok: "archive_ok H S"
  shows "\<exists>n S'. rebuild_projections H S = Inr (n, S')"
proof -
  obtain heads where heads: "rebuild_rows H S [] (sort_key history_key (st_history S)) = Inr heads" "distinct (map fst heads)"
    and none: "\<And>i. rows_of S i = [] \<Longrightarrow> map_of heads i = None"
    and some: "\<And>i sp p. logged H sp (rows_of S i) p \<Longrightarrow> map_of heads i =
       Some (p, int (length (rows_of S i)), hs_facts_json (last (rows_of S i)), hs_facts_digest (last (rows_of S i)))"
    by (rule rebuild_heads[OF assms(1,3)]) (rule that)
  have "sound H p \<and> 0 < n \<and> pg_id p = i \<and> (i, n) \<in> history_key ` set (st_history (delete_projection (\<lambda>_. True) S)) \<and> dg = H raw"
    if entry: "(i, p, n, raw, dg) \<in> set heads" for i p n raw dg
  proof -
    from rebuild_head_entry[OF ok heads(2) entry none some] obtain sp where e: "logged H sp (rows_of S i) p" "pg_id p = i"
        "n = int (length (rows_of S i))" "raw = hs_facts_json (last (rows_of S i))" "dg = hs_facts_digest (last (rows_of S i))" .
    have nonempty: "rows_of S i \<noteq> []" by (rule logged_not_Nil[OF e(1)])
    have "hs_sequence (last (rows_of S i)) = n"
      using arg_cong[OF logged_sequences[OF e(1)], of last] nonempty e(3) by (simp add: last_map upto_rec2 Suc_le_eq)
    moreover have "last (rows_of S i) \<in> set (st_history S)" "hs_program (last (rows_of S i)) = i"
      using last_in_set[OF nonempty] by (simp_all add: rows_of_def)
    ultimately have "(i, n) \<in> history_key ` set (st_history S)" by force
    then show ?thesis
      using logged_sound[OF assms(1) e(1)] logged_last[OF e(1)] e nonempty by (simp add: recorded_as_def delete_projection_def)
  qed
  then have "\<exists>S'. write_all heads (delete_projection (\<lambda>_. True) S) = Inr S'"
    by (intro write_all_total[OF assms(2)]) auto
  then show ?thesis using heads(1) by (auto simp: rebuild_projections_def)
qed

end
