(* ===== verification/Store_Theorems.thy ===== *)
theory Store_Theorems
  imports Store_Invariant
begin

text \<open>
  The promises of the program store: it refines the aggregate, its history replays, command keys are
  idempotent, the projections can be rebuilt from the history and a damaged projection is never believed,
  and nothing a program recorded is ever lost.
\<close>

declare canon.simps(6) [simp del]

section \<open>The store as a recording machine\<close>

datatype store_call =
    CallCreate program_spec string
  | CallAdmit verdicts string string domain_command "effect_intent option"
  | CallRebuild
  | CallJournal journal_call

fun store_step :: "hash \<Rightarrow> store \<Rightarrow> store_call \<Rightarrow> store sres" where
  "store_step H S (CallCreate sp key) = map_sum id snd (create_program H sp key S)"
| "store_step H S (CallAdmit vd i key c effect) = map_sum id snd (admit H vd i key c effect S)"
| "store_step H S CallRebuild = map_sum id snd (rebuild_projections H S)"
| "store_step H S (CallJournal c) = rbind (journal_step H (st_journal S) c) (\<lambda>J. Inr (S\<lparr>st_journal := J\<rparr>))"

fun store_call_ok :: "store_call \<Rightarrow> bool" where
  "store_call_ok (CallCreate sp _) = wf_spec sp"
| "store_call_ok (CallAdmit vd _ _ c effect) = admission_ok vd c effect"
| "store_call_ok CallRebuild = True"
| "store_call_ok (CallJournal c) = call_ok c"

abbreviation store_reaches :: "hash \<Rightarrow> store \<Rightarrow> store \<Rightarrow> bool" where
  "store_reaches H \<equiv> reaches (store_step H) store_call_ok"

definition store_extends :: "hash \<Rightarrow> store \<Rightarrow> store \<Rightarrow> bool" where
  "store_extends H S S' \<longleftrightarrow> (\<exists>rs. st_history S' = st_history S @ rs) \<and> journal_extends H (st_journal S) (st_journal S')"

lemma store_okD:
  "store_ok H S \<Longrightarrow> digest_like H" "store_ok H S \<Longrightarrow> archive_ok H S" "store_ok H S \<Longrightarrow> projections_ok H S"
  "store_ok H S \<Longrightarrow> journal_ok H (st_journal S)"
  by (simp_all add: store_ok_def)

lemma admit_Inr: "admit H vd i key c effect S = Inr r \<Longrightarrow> admit_decision H vd i key c effect S = Inr r"
  by (simp add: admit_def res_simps)

lemma map_snd_Inr: "map_sum id snd r = Inr S' \<longleftrightarrow> (\<exists>x. r = Inr (x, S'))"
  by (cases r) auto

lemma written_journal_same [simp]: "st_journal (written H r p S) = st_journal S" "st_history (written H r p S) = st_history S @ [r]"
  by (simp_all add: written_def)

lemma store_extends_refl: "store_extends H S S"
  by (simp add: store_extends_def journal_extends_refl)

lemma store_step_ok:
  assumes ok: "store_ok H S" and c: "store_call_ok c" and s: "store_step H S c = Inr S'"
  shows "store_ok H S' \<and> store_extends H S S'"
proof (cases c)
  case (CallCreate sp key)
  then obtain p where created: "create_program H sp key S = Inr (p, S')" using s by (auto simp: map_snd_Inr)
  have "wf_spec sp" using c CallCreate by simp
  from store_okD(1-3)[OF ok] this created show ?thesis
  proof (cases rule: create_program_cases)
    case again
    show ?thesis using ok store_extends_refl again(1) by simp
  next
    case (fresh r)
    then show ?thesis
      using ok written_ok[OF store_okD(2,3)[OF ok] fresh(2,5)] by (simp add: store_ok_def store_extends_def journal_extends_refl)
  qed
next
  case (CallAdmit vd i key cm effect)
  then obtain p where admitted: "admit_decision H vd i key cm effect S = Inr (p, S')" using s admit_Inr by (auto simp: map_snd_Inr)
  have "admission_ok vd cm effect" using c CallAdmit by simp
  from store_okD(1-3)[OF ok] this admitted show ?thesis
  proof (cases rule: admit_cases)
    case again
    show ?thesis using ok store_extends_refl again(1) by simp
  next
    case (fresh sp q r J)
    have log: "logged H sp (rows_of S (pg_id p) @ [r]) p" using fresh(4,5) by simp
    show ?thesis
      using ok written_ok[OF store_okD(2,3)[OF ok] log fresh(11)] fresh(6,9) keeps_extends[OF fresh(7)]
      by (simp add: store_ok_def store_extends_def)
  qed
next
  case CallRebuild
  then obtain n where r: "rebuild_projections H S = Inr (n, S')" using s by (auto simp: map_snd_Inr)
  have eff: "st_history S' = st_history S" "st_admissions S' = st_admissions S" "st_journal S' = st_journal S" "projections_ok H S'"
    using rebuild_ok[OF store_okD(1,2)[OF ok] r] by blast+
  have "archive_ok H S' = archive_ok H S" by (simp add: archive_ok_def rows_of_def eff(1,2))
  then show ?thesis using ok eff by (simp add: store_ok_def store_extends_def journal_extends_refl)
next
  case (CallJournal jc)
  then obtain J where J: "journal_step H (st_journal S) jc = Inr J" "S' = S\<lparr>st_journal := J\<rparr>" using s by (auto simp: rbind_eq_Inr)
  have "call_ok jc" using c CallJournal by simp
  then show ?thesis
    using ok journal_step_ok[OF store_okD(4)[OF ok] _ J(1)] journal_step_extends[OF store_okD(4)[OF ok] _ J(1)] J(2)
    by (simp add: store_ok_def store_extends_def)
qed

lemma store_extends_trans:
  assumes "store_extends H S S'" and "store_extends H S' S''"
  shows "store_extends H S S''"
  using assms journal_extends_trans[of H "st_journal S" "st_journal S'" "st_journal S''"] by (auto simp: store_extends_def)

interpretation stores: recording_machine "store_step H" store_call_ok "\<lambda>S. digest_like H \<and> S = empty_store" "store_ok H" "store_extends H" for H
proof
  show "digest_like H \<and> S = empty_store \<Longrightarrow> store_ok H S" for S using empty_store_ok by blast
  show "store_ok H S \<Longrightarrow> store_call_ok c \<Longrightarrow> store_step H S c = Inr S' \<Longrightarrow> store_ok H S'" for S c S'
    using store_step_ok by blast
  show "store_extends H S S" for S by (rule store_extends_refl)
  show "store_extends H S S' \<Longrightarrow> store_extends H S' S'' \<Longrightarrow> store_extends H S S''" for S S' S'' by (rule store_extends_trans)
  show "store_ok H S \<Longrightarrow> store_call_ok c \<Longrightarrow> store_step H S c = Inr S' \<Longrightarrow> store_extends H S S'" for S c S'
    using store_step_ok by blast
qed

lemma reachable_store_ok: "digest_like H \<Longrightarrow> store_reaches H empty_store S \<Longrightarrow> store_ok H S"
  using stores.reachable_inv[of H empty_store S] by simp

lemma load_cases:
  assumes "store_ok H S" and "nonblank i"
  obtains (unknown) "rows_of S i = []" "load H S i = Inl ProgramNotFound"
  | (known) sp p where "logged H sp (rows_of S i) p" "pg_id p = i" "load H S i = Inr p"
proof -
  have l: "load H S i = load_head H S i" using assms(2) by (simp add: load_def)
  from store_okD(2,3)[OF assms(1)] show ?thesis
    by (cases rule: load_head_cases[where i = i]) (use unknown known l in simp_all)
qed

lemma load_Inr:
  assumes "store_ok H S" and "load H S i = Inr p"
  obtains sp where "logged H sp (rows_of S i) p" "pg_id p = i" "nonblank i"
proof -
  have i: "nonblank i" using assms(2) by (simp add: load_def res_simps)
  from assms(1) i show ?thesis by (cases rule: load_cases) (use assms(2) that i in auto)
qed

lemma load_same_rows:
  assumes "store_ok H S" and "store_ok H S'" and "rows_of S' i = rows_of S i"
  shows "load H S' i = load H S i"
proof (cases "nonblank i")
  case True
  with assms(1) show ?thesis
  proof (cases rule: load_cases)
    case unknown
    then show ?thesis using load_head_unknown[OF store_okD(3)[OF assms(2)], of i] assms(3) True by (simp add: load_def)
  next
    case (known sp p)
    then show ?thesis using load_head_logged[OF store_okD(2,3)[OF assms(2)], of sp i p] assms(3) True by (simp add: load_def)
  qed
qed (simp add: load_def)

section \<open>Replay\<close>

text \<open>
  The specification of the history: a program is what its recorded inputs make of it. The first record is
  decoded as a creation, every other one as a command, and the commands are applied in order.
\<close>

definition replay_creation :: "history_row \<Rightarrow> program sres" where
  "replay_creation r = (case loads (hs_input_json r) of
     Some (JObj kvs) \<Rightarrow> rbind (lift_record (spec_from (field kvs ''spec''))) (\<lambda>sp. lift_refusal (create sp))
   | _ \<Rightarrow> Inl CorruptHistory)"

definition replay_command :: "hash \<Rightarrow> program \<Rightarrow> history_row \<Rightarrow> program sres" where
  "replay_command H p r = (case loads (hs_input_json r) of
     Some (JObj kvs) \<Rightarrow> rbind (lift_record (command_from kvs)) (\<lambda>c. lift_refusal (apply_command H p c))
   | _ \<Rightarrow> Inl CorruptHistory)"

fun replay :: "hash \<Rightarrow> history_row list \<Rightarrow> program sres" where
  "replay H [] = Inl ProgramNotFound"
| "replay H (r # rs) = foldl (\<lambda>state row. rbind state (\<lambda>p. replay_command H p row)) (replay_creation r) rs"

lemma replay_snoc: "rows \<noteq> [] \<Longrightarrow> replay H (rows @ [r]) = rbind (replay H rows) (\<lambda>p. replay_command H p r)"
  by (cases rows) simp_all

lemma creation_read:
  assumes "wf_spec sp"
  shows "\<exists>kvs. loads (create_input_json sp) = Some (JObj kvs) \<and> spec_from (field kvs ''spec'') = Inr sp"
proof -
  obtain kvs where kvs: "create_input_value sp = JObj kvs" by (simp add: create_input_value_def)
  have "loads (create_input_json sp) = Some (JObj (canon_fields kvs))"
    using loads_dumps(1)[OF unique_keys_create, of sp] by (simp add: create_input_json_def canonical_json_def kvs canon_JObj)
  moreover have "field (canon_fields kvs) ''spec'' = canon (spec_payload sp)"
    using kvs by (auto simp: create_input_value_def codec_simps)
  ultimately show ?thesis using spec_from_payload[OF assms] by simp
qed

lemma logged_replays:
  assumes "digest_like H" and "logged H sp rows p"
  shows "replay H rows = Inr p"
  using assms(2)
proof (induction rule: logged.induct)
  case (logged_create p r)
  then show ?case
    using creation_read[OF logged_create(1)] by (auto simp: replay_creation_def records_creation_def lift_record_def lift_refusal_def)
next
  case (logged_command rows p c p' r)
  have ok: "program_ok H p" using logged_sound[OF assms(1) logged_command(1)] by (simp add: sound_def)
  have "nonblank (hs_program r)"
    using sound_program_id[OF logged_sound[OF assms(1) logged.logged_command[OF logged_command(1-5)]]] logged_command(5)
    by (simp add: recorded_as_def)
  note c = command_from_input[OF logged_command(2) this] input_loads[of "hs_program r" c] apply_sent_command[OF ok logged_command(2,3)]
  have "replay_command H p r = Inr p'"
    using logged_command(4) c by (simp add: replay_command_def records_command_def lift_record_def lift_refusal_def)
  then show ?case using logged_command.IH logged_not_Nil[OF logged_command(1)] by (simp add: replay_snoc)
qed

text \<open>
  (C24) The store refines its history. In every store that any sequence of creations, admissions,
  rebuilds and journal calls can produce, \<open>load\<close> returns exactly what replaying the stored inputs of the
  program gives, and it never fails on a program that has records.
\<close>

theorem load_replays_the_history:
  assumes "digest_like H" and "store_reaches H empty_store S" and "nonblank i"
  shows "load H S i = replay H (records_of S i) \<and> (records_of S i \<noteq> [] \<longrightarrow> (\<exists>p. load H S i = Inr p))"
proof -
  have ok: "store_ok H S" by (rule reachable_store_ok[OF assms(1,2)])
  note rows = records_of_rows[OF store_okD(2)[OF ok], of i]
  from ok assms(3) show ?thesis
    by (cases rule: load_cases) (use rows logged_replays[OF assms(1)] in simp_all)
qed

section \<open>Admission\<close>

text \<open>
  (C25) One admission, end to end. On a new command key the store loads the program, applies exactly the
  requested command and returns its result; afterwards \<open>load\<close> returns that result, the history of the
  program has grown by one record of this command, and no other program has changed.
\<close>

theorem admission_applies_the_command:
  assumes "digest_like H" and "store_reaches H empty_store S" and "admission_ok vd c effect"
    and "admit H vd i key c effect S = Inr (p', S')" and "find_admission S key = None"
  shows "\<exists>p r. load H S i = Inr p \<and> apply_command H p c = Inr p' \<and> load H S' i = Inr p'
    \<and> records_of S' i = records_of S i @ [r] \<and> hs_command_key r = key \<and> hs_input_json r = command_input_json i c
    \<and> (\<forall>j. j \<noteq> i \<longrightarrow> load H S' j = load H S j \<and> records_of S' j = records_of S j)"
proof -
  have ok: "store_ok H S" by (rule reachable_store_ok[OF assms(1,2)])
  have S': "store_ok H S'"
    using store_step_ok[OF ok, of "CallAdmit vd i key c effect" S'] assms(3,4) by simp
  note a = admit_Inr[OF assms(4)]
  have i: "nonblank i" using a by (simp add: admit_decision_def res_simps)
  from store_okD(1-3)[OF ok] assms(3) a show ?thesis
  proof (cases rule: admit_cases)
    case (again r)
    then show ?thesis using assms(5) find_admission[OF store_okD(2)[OF ok], of key] by (auto simp: find_None_iff)
  next
    case (fresh sp q r J)
    have rows: "rows_of S' j = (if j = i then rows_of S j @ [r] else rows_of S j)" for j
      using logged_last[OF fresh(5)] fresh(4) by (auto simp: fresh(6) rows_of_written recorded_as_def)
    have "load H S i = Inr q" using load_head_logged[OF store_okD(2,3)[OF ok] fresh(1,2)] i by (simp add: load_def)
    moreover have "load H S' i = Inr p'"
      using load_head_logged[OF store_okD(2,3)[OF S'], of sp i p'] fresh(4,5) rows i by (simp add: load_def)
    moreover have "load H S' j = load H S j" if "j \<noteq> i" for j
      using load_same_rows[OF ok S', of j] rows that by simp
    ultimately show ?thesis
      using fresh(3,10,12) rows records_of_rows[OF store_okD(2)[OF ok]] records_of_rows[OF store_okD(2)[OF S']] by auto
  qed
qed

lemma record_result_total:
  assumes "hex_digest H" and snd: "sound H p" and "program_json H p = Inr raw" and "archive_ok H S" and "pg_id p = i" and "0 < n"
    and key: "key \<notin> hs_command_key ` set (st_history S)" and fresh: "(i, n) \<notin> history_key ` set (st_history S)" and "length dg = 64"
  shows "\<exists>S'. record_result H i n key ct actor dg input p S = Inr S'"
proof -
  let ?r = "new_row H i n key ct actor dg input p raw"
  have "0 \<le> pg_revision p" using snd by (simp add: sound_def program_ok_def)
  then have h: "insert_history ?r S = Inr (S\<lparr>st_history := st_history S @ [?r]\<rparr>)"
    using assms(1,6,9) key fresh by (simp add: insert_history_def insert_row_def hex_digest_def codec_version_def)
  have "(pg_id p, n) \<in> history_key ` set (st_history (S\<lparr>st_history := st_history S @ [?r]\<rparr>))" using assms(5) by simp
  from write_projections_total[OF assms(1) snd assms(6) this, of raw] obtain S2 where
    S2: "write_projections p n raw (H raw) (S\<lparr>st_history := st_history S @ [?r]\<rparr>) = Inr S2" by blast
  have "key \<notin> cm_command_key ` set (st_admissions S2)"
    using key archive_okD(2)[OF assms(4)] write_projections_effect(2)[OF S2] by (auto simp: admission_of_def)
  then have "\<exists>S'. insert_command_result (admission_of ?r) S2 = Inr S'"
    using assms(1,9) write_projections_effect(1)[OF S2]
    by (simp add: insert_command_result_def insert_row_def hex_digest_def admission_of_def)
  then show ?thesis
    using assms(3) h S2 by (auto simp: record_result_def lift_record_def Let_def new_row_def admission_of_def)
qed

lemma work_record_total:
  assumes "journal_ok H J"
  shows "\<exists>r. work_record H J record_type identity = Inr r"
proof (cases "find_row J (work_key H record_type identity)")
  case None
  then show ?thesis by (simp add: work_record_def)
next
  case (Some row)
  then have "enveloped H row" using journal_okD(4)[OF assms] find_row_SomeD by (fastforce simp: row_ok_def)
  then obtain request where "request_of row = Inr request" by (rule enveloped_request)
  then show ?thesis using Some by (simp add: work_record_def)
qed

definition unrestricted :: verdicts where
  "unrestricted = \<lparr>vd_ownership = Inr (), vd_budget = Inr [], vd_dispatch = Inr [], vd_workspace = Inr []\<rparr>"

lemma unrestricted_ok: "made_command c \<Longrightarrow> admission_ok unrestricted c None"
  by (simp add: admission_ok_def unrestricted_def facts_made_def)

text \<open>
  An admission without an effect that the checks do not object to succeeds when \<open>load\<close>, the domain and the
  writing of its work records do: its own rows violate no constraint.
\<close>

lemma archive_journal [simp]: "archive_ok H (S\<lparr>st_journal := J\<rparr>) = archive_ok H S"
  by (simp add: archive_ok_def rows_of_def)

lemma admission_total:
  assumes "digest_like H" and "hex_digest H" and ok: "store_ok H S" and "made_command c" and "nonblank key"
    and "find_admission S key = None" and l: "load H S i = Inr q" and a: "apply_command H q c = Inr p" and b: "bound H S i = Inr b"
    and "vd_ownership vd = Inr ()" and f: "admission_facts vd b i c None = Inr facts" "write_facts H facts S = Inr S1"
    and "vd_workspace vd = Inr []"
  shows "\<exists>S'. admit H vd i key c None S = Inr (p, S')"
proof -
  have key: "key \<notin> hs_command_key ` set (st_history S)"
    using assms(6) by (auto simp: find_admission[OF store_okD(2)[OF ok]] find_None_iff)
  note dup = duplicate_unknown[OF store_okD(2)[OF ok] key, of "H (command_input_json i c)"]
  have head: "nonblank i" "load_head H S i = Inr q" using l by (simp_all add: load_def res_simps)
  obtain sp where known: "logged H sp (rows_of S i) q" "pg_id q = i" by (rule load_Inr[OF ok l])
  have wf: "wf_command c" using assms(4) by (simp add: made_command_def)
  have snd: "sound H q" by (rule logged_sound[OF assms(1) known(1)])
  have sndp: "sound H p" by (rule apply_command_sound[OF snd wf a])
  have "extends q p" by (rule program_machine.step_extends[OF snd wf a])
  then have id: "pg_id p = i" using known(2) by (simp add: extends_def)
  obtain J where S1: "S1 = S\<lparr>st_journal := J\<rparr>" using f(2) by (auto simp: write_facts_def rbind_eq_Inr)
  have row: "find_program_row S1 i = Some (program_row_of q (int (length (rows_of S i))) (hs_facts_json (last (rows_of S i))) (hs_facts_digest (last (rows_of S i))))"
    using find_program_row(2)[OF store_okD(3)[OF ok] known] by (simp add: S1 find_program_row_def)
  have "wf_spec sp" "reachable H sp p" using logged_reachable[OF known(1)] wf a by (auto intro: reaches_step)
  from stored_program[OF assms(1) this] obtain raw where raw: "program_json H p = Inr raw" by blast
  have fresh: "(i, int (length (rows_of S i)) + 1) \<notin> history_key ` set (st_history S)"
  proof
    assume "(i, int (length (rows_of S i)) + 1) \<in> history_key ` set (st_history S)"
    then have "int (length (rows_of S i)) + 1 \<in> set (map hs_sequence (rows_of S i))" by (auto simp: rows_of_def)
    then show False unfolding logged_sequences[OF known(1)] by simp
  qed
  have n: "0 < int (length (rows_of S i)) + 1" "length (H (command_input_json i c)) = 64"
    using assms(2) by (simp_all add: hex_digest_def)
  have "\<exists>S'. record_result H i (int (length (rows_of S i)) + 1) key (fst (command_parameters c)) (cmd_actor_id c)
      (H (command_input_json i c)) (command_input_json i c) p S1 = Inr S'"
    by (rule record_result_total[OF assms(2) sndp raw _ id n(1) _ _ n(2)]) (use store_okD(2)[OF ok] key fresh in \<open>simp_all add: S1\<close>)
  then obtain S' where "record_result H i (int (length (rows_of S i)) + 1) key (fst (command_parameters c)) (cmd_actor_id c)
      (H (command_input_json i c)) (command_input_json i c) p S1 = Inr S'" by blast
  moreover have "write_facts H [] T = Inr T" for T by (simp add: write_facts_def)
  ultimately show ?thesis
    using assms(5,10,13) head a b f dup id row
    by (auto simp: admit_def admit_decision_def input_digests Let_def lift_refusal_def insert_effect_def program_row_of_def)
qed

lemma admission_outcome:
  assumes "digest_like H" and "hex_digest H" and "store_reaches H empty_store S" and "made_command c"
    and "nonblank i" and "nonblank key" and "find_admission S key = None"
  shows "map_sum id fst (admit H unrestricted i key c None S)
    = rbind (load H S i) (\<lambda>p. lift_refusal (apply_command H p c))"
proof -
  have ok: "store_ok H S" by (rule reachable_store_ok[OF assms(1,3)])
  have key: "key \<notin> hs_command_key ` set (st_history S)"
    using assms(7) by (auto simp: find_admission[OF store_okD(2)[OF ok]] find_None_iff)
  note dup = duplicate_unknown[OF store_okD(2)[OF ok] key, of "H (command_input_json i c)"]
  obtain r where "work_record H (st_journal S) ''binding'' i = Inr r" using work_record_total[OF store_okD(4)[OF ok]] by blast
  then have b: "bound H S i = Inr (r \<noteq> None)" by (simp add: bound_def)
  note admit_steps = admit_def admit_decision_def input_digests Let_def
  from ok assms(5) show ?thesis
  proof (cases rule: load_cases)
    case unknown
    then show ?thesis using assms(5,6) dup by (simp add: admit_steps load_def)
  next
    case (known sp q)
    have head: "load_head H S i = Inr q" using known(3) assms(5) by (simp add: load_def)
    show ?thesis
    proof (cases "apply_command H q c")
      case (Inl e)
      then show ?thesis using assms(5,6) dup known(3) head by (simp add: admit_steps lift_refusal_def unrestricted_def)
    next
      case (Inr p)
      have facts: "admission_facts unrestricted (r \<noteq> None) i c None = Inr []"
        by (auto simp: admission_facts_def unrestricted_def split: domain_command.splits)
      have "\<exists>S'. admit H unrestricted i key c None S = Inr (p, S')"
        by (rule admission_total[OF assms(1,2) ok assms(4,6,7) known(3) Inr b _ facts, where ?S1.0 = S])
          (simp_all add: unrestricted_def write_facts_def)
      then show ?thesis using known(3) Inr by (auto simp: lift_refusal_def)
    qed
  qed
qed


section \<open>Command keys\<close>

lemma extended_row:
  assumes "journal_extends H J J'" and "journal_ok H J'" and "find_row J i = Some row"
  obtains row' where "find_row J' i = Some row'" "op_extends row row'"
proof -
  obtain row' where row': "row' \<in> set (jn_operations J')" "op_extends row row'"
    using assms(1) find_row_SomeD[OF assms(3)] by (auto simp: journal_extends_def)
  then have "op_id row' = i" using find_row_SomeD[OF assms(3)] by (simp add: op_extends_def)
  then show ?thesis
    using that row' journal_okD(1)[OF assms(2)] find_distinct_key[of op_id "jn_operations J'" row'] by (simp add: find_row_def)
qed

lemma matching_effect_extends:
  assumes "matching_effect effect S" and "journal_extends H (st_journal S) (st_journal S')" and "journal_ok H (st_journal S')"
  shows "matching_effect effect S'"
proof (cases effect)
  case (Some e)
  obtain i k request where e: "e = (i, k, request)" by (cases e)
  obtain row where row: "find_row (st_journal S) i = Some row" "op_effect_key row = k" "op_request_json row = request_envelope request"
    using assms(1) Some e by (auto simp: matching_effect_def split: option.splits)
  from assms(2,3) row(1) obtain row' where "find_row (st_journal S') i = Some row'" "op_extends row row'" by (rule extended_row)
  then show ?thesis using row Some e by (simp add: matching_effect_def op_extends_def)
qed (simp add: matching_effect_def)

text \<open>What an accepted admission leaves behind under its key.\<close>

lemma admitted_key:
  assumes ok: "store_ok H S" and c: "admission_ok vd c effect" and a: "admit H vd i key c effect S = Inr (p, S')"
  obtains r where "r \<in> set (st_history S')" "hs_command_key r = key" "recorded_as H r p"
    "hs_input_digest r = H (command_input_json i c)" "matching_effect effect S'"
  using store_okD(1-3)[OF ok] c admit_Inr[OF a]
proof (cases rule: admit_cases)
  case (again r)
  then show ?thesis using that[of r] by simp
next
  case (fresh sp q r J)
  have "recorded_as H r p" using logged_last[OF fresh(5)] by simp
  then show ?thesis using that[of r] fresh by (simp add: recorded_as_def)
qed

lemma admit_known:
  assumes ok: "store_ok H S" and r: "r \<in> set (st_history S)" "hs_command_key r = key" "recorded_as H r p"
  shows "admit H vd i key c effect S = Inr (p', S') \<longleftrightarrow>
    (case effect of None \<Rightarrow> True | Some (operation_id, effect_key, _) \<Rightarrow> nonblank operation_id \<and> nonblank effect_key)
    \<and> nonblank i \<and> nonblank key \<and> hs_input_digest r = H (command_input_json i c) \<and> matching_effect effect S \<and> p' = p \<and> S' = S"
  using duplicate_known[OF store_okD(2)[OF ok] r(1,3)] r(2)
  by (auto simp: admit_def admit_decision_def input_digests Let_def res_simps)

text \<open>
  (C27) Command keys are idempotent for ever. After an accepted admission, in any later store, the same key with
  the same command and effect returns the original result and changes nothing, whatever the checks would
  say now; and a call that succeeds under that key had exactly the same input, unless the hash function
  collides.
\<close>

theorem command_keys_are_idempotent:
  assumes "digest_like H" and "store_reaches H empty_store S" and "admission_ok vd c effect"
    and "admit H vd i key c effect S = Inr (p, S')" and "store_reaches H S' S''"
  shows "admit H vd' i key c effect S'' = Inr (p, S'')
    \<and> (\<forall>vd2 i2 c2 effect2 p2 S3. admit H vd2 i2 key c2 effect2 S'' = Inr (p2, S3) \<longrightarrow>
         collides H \<or> p2 = p \<and> S3 = S'' \<and> command_input_json i2 c2 = command_input_json i c)"
proof -
  have ok: "store_ok H S" by (rule reachable_store_ok[OF assms(1,2)])
  have ok': "store_ok H S'" using store_step_ok[OF ok, of "CallAdmit vd i key c effect" S'] assms(3,4) by simp
  have ok'': "store_ok H S''" by (rule stores.reaches_inv[OF assms(5) ok'])
  have ext: "store_extends H S' S''" by (rule stores.reaches_extends[OF assms(5) ok'])
  obtain r where r: "r \<in> set (st_history S')" "hs_command_key r = key" "recorded_as H r p"
      "hs_input_digest r = H (command_input_json i c)" "matching_effect effect S'"
    by (rule admitted_key[OF ok assms(3,4)])
  have r'': "r \<in> set (st_history S'')" using r(1) ext by (auto simp: store_extends_def)
  have match: "matching_effect effect S''"
    using matching_effect_extends[OF r(5) _ store_okD(4)[OF ok'']] ext by (simp add: store_extends_def)
  have guards: "nonblank i" "nonblank key"
      "case effect of None \<Rightarrow> True | Some (operation_id, effect_key, _) \<Rightarrow> nonblank operation_id \<and> nonblank effect_key"
    using assms(4) by (auto simp: admit_def admit_decision_def res_simps split: option.splits)
  note known = admit_known[OF ok'' r'' r(2,3)]
  have "admit H vd' i key c effect S'' = Inr (p, S'')" unfolding known using guards match r(4) by simp
  moreover have "collides H \<or> command_input_json i2 c2 = command_input_json i c" if "hs_input_digest r = H (command_input_json i2 c2)" for i2 c2
    using that r(4) unfolding collides_def by metis
  ultimately show ?thesis unfolding known by blast
qed

section \<open>Projections\<close>

lemma set_eq_filters:
  assumes "\<And>i. filter (\<lambda>r. f r = i) xs = filter (\<lambda>r. f r = i) ys"
  shows "set xs = set ys"
proof (rule set_eqI)
  fix x
  show "x \<in> set xs \<longleftrightarrow> x \<in> set ys" using arg_cong[OF assms[of "f x"], of "\<lambda>zs. x \<in> set zs"] by simp
qed

text \<open>
  (C28) Rebuilding restores the projections. Take any database whose history and admissions are those of a
  reachable store, whatever its projections hold: \<open>rebuild_projections\<close> accepts the history, counts its
  programs, and afterwards every program loads as in the original store.
\<close>

theorem rebuild_restores_the_projections:
  assumes "digest_like H" and "hex_digest H" and "store_reaches H empty_store S"
    and "st_history D = st_history S" and "st_admissions D = st_admissions S" and "st_journal D = st_journal S"
  shows "\<exists>D'. rebuild_projections H D = Inr (card (hs_program ` set (st_history S)), D')
    \<and> st_history D' = st_history S \<and> (\<forall>i. load H D' i = load H S i)
    \<and> set (st_programs D') = set (st_programs S) \<and> set (st_units D') = set (st_units S) \<and> set (st_attempts D') = set (st_attempts S)"
proof -
  have ok: "store_ok H S" by (rule reachable_store_ok[OF assms(1,3)])
  have rows: "rows_of D i = rows_of S i" for i by (simp add: rows_of_def assms(4))
  have D: "archive_ok H D" using store_okD(2)[OF ok] by (simp add: archive_ok_def rows assms(4,5))
  obtain n D' where r: "rebuild_projections H D = Inr (n, D')" using rebuild_total[OF assms(1,2) D] by blast
  have eff: "st_history D' = st_history D" "st_admissions D' = st_admissions D" "st_journal D' = st_journal D" "projections_ok H D'"
      "n = card (hs_program ` set (st_history D))"
    using rebuild_ok[OF assms(1) D r] by blast+
  have rows': "rows_of D' i = rows_of S i" for i by (simp add: rows_of_def eff(1) assms(4))
  have ok': "store_ok H D'"
    using ok eff(4) by (simp add: store_ok_def archive_ok_def rows' eff(1,2,3) assms(4,5,6))
  have same: "same_view S D' i" for i
  proof (cases "rows_of S i = []")
    case True
    then show ?thesis
      using projections_okD(1)[OF store_okD(3)[OF ok] True] projections_okD(1)[OF eff(4), of i] rows'[of i]
      by (simp add: same_view_def unprojected_def)
  next
    case False
    then obtain sp p where l: "logged H sp (rows_of S i) p" using archive_okD(3)[OF store_okD(2)[OF ok]] by blast
    then show ?thesis
      using projections_okD(2)[OF store_okD(3)[OF ok] l] projections_okD(2)[OF eff(4), of sp i p] rows'[of i]
      by (auto simp: same_view_def projected_def)
  qed
  have "set (st_programs D') = set (st_programs S)" "set (st_units D') = set (st_units S)" "set (st_attempts D') = set (st_attempts S)"
    by (rule set_eq_filters[of pr_program], use same in \<open>simp add: same_view_def\<close>)
      (rule set_eq_filters[of un_program], use same in \<open>simp add: same_view_def\<close>,
       rule set_eq_filters[of at_program], use same in \<open>simp add: same_view_def\<close>)
  moreover have "load H D' i = load H S i" for i by (rule load_same_rows[OF ok ok' rows'])
  ultimately show ?thesis using r eff(1,5) assms(4) by simp
qed

text \<open>
  (C29) A damaged projection is never believed. Whatever the projections of a database hold, if its history is
  that of a reachable store, a successful \<open>load\<close> returns the true program, unless the hash function collides.
\<close>

theorem damaged_projections_are_detected:
  assumes "digest_like H" and "store_reaches H empty_store S" and "st_history D = st_history S" and "load H D i = Inr p"
  shows "load H S i = Inr p \<or> collides H"
proof -
  have ok: "store_ok H S" by (rule reachable_store_ok[OF assms(1,2)])
  have i: "nonblank i" and l: "load_head H D i = Inr p" using assms(4) by (simp_all add: load_def res_simps)
  have newest: "latest_record D i = latest_record S i" by (simp add: latest_record_def records_of_def assms(3))
  obtain row where found: "find_program_row D i = Some row" using l by (auto simp: load_head_def split: option.splits)
  then obtain r where row: "H (pr_json row) = pr_facts_digest row" "decode_facts H (pr_json row) i (pr_revision row) = Inr p"
      "latest_record S i = Some r" "hs_facts_digest r = pr_facts_digest row"
    using l newest by (auto simp: load_head_def res_simps split: option.splits)
  have decoded: "program_from_json H (pr_json row) = Inr p"
    using row(2) by (auto simp: decode_facts_def or_corrupt_def lift_record_def res_simps split: sum.splits codec_error.splits)
  from ok i show ?thesis
  proof (cases rule: load_cases)
    case unknown
    then show ?thesis using row(3) records_of_rows[OF store_okD(2)[OF ok], of i] by (simp add: latest_record_def)
  next
    case (known sp q)
    have "rev (records_of S i) = last (rows_of S i) # tl (rev (rows_of S i))"
      using records_of_rows[OF store_okD(2)[OF ok], of i] logged_not_Nil[OF known(1)] by (metis hd_rev list.collapse rev_is_Nil_conv)
    then have "r = last (rows_of S i)" using row(3) by (simp add: latest_record_def)
    then have r: "recorded_as H r q" using logged_last[OF known(1)] by simp
    show ?thesis
    proof (cases "pr_json row = hs_facts_json r")
      case True
      then show ?thesis using r decoded known(3) by (simp add: recorded_as_def)
    next
      case False
      then show ?thesis using r row(1,4) by (auto simp: recorded_as_def collides_def)
    qed
  qed
qed

section \<open>Durability\<close>

lemma logged_continues:
  assumes "logged H sp (xs @ ys) p'" and "xs \<noteq> []"
  shows "\<exists>p. logged H sp xs p \<and> reaches (apply_command H) wf_command p p'"
  using assms(1)
proof (induction ys arbitrary: p' rule: rev_induct)
  case (snoc y ys)
  from snoc.prems have "logged H sp ((xs @ ys) @ [y]) p'" by simp
  then show ?case
  proof (cases rule: logged_snocE)
    case (command p c)
    then obtain q where "logged H sp xs q" "reaches (apply_command H) wf_command q p" using snoc.IH by blast
    then show ?thesis using command(2,3) by (auto simp: made_command_def intro: reaches_step)
  qed (use assms(2) in simp)
qed (auto intro: reaches_refl)

text \<open>
  (C30) Nothing a program recorded is ever lost. Along every run of the store the records of a program are only
  appended, the program stays loadable, and it keeps its identity and all its facts: attempts only advance
  and every other record is only appended to.
\<close>

theorem stored_facts_survive:
  assumes "digest_like H" and "store_reaches H empty_store S" and "store_reaches H S S'" and "load H S i = Inr p"
  shows "\<exists>p'. load H S' i = Inr p' \<and> prefix (records_of S i) (records_of S' i) \<and> extends p p'
    \<and> reaches (apply_command H) wf_command p p'"
proof -
  have ok: "store_ok H S" by (rule reachable_store_ok[OF assms(1,2)])
  have ok': "store_ok H S'" by (rule stores.reaches_inv[OF assms(3) ok])
  obtain rs where rs: "st_history S' = st_history S @ rs"
    using stores.reaches_extends[OF assms(3) ok] by (auto simp: store_extends_def)
  obtain sp where l: "logged H sp (rows_of S i) p" "pg_id p = i" "nonblank i" by (rule load_Inr[OF ok assms(4)])
  have rows: "rows_of S' i = rows_of S i @ filter (\<lambda>r. hs_program r = i) rs" by (simp add: rows_of_def rs)
  then have "rows_of S' i \<noteq> []" using logged_not_Nil[OF l(1)] by simp
  then obtain sp' p' where l': "logged H sp' (rows_of S' i) p'" "pg_id p' = i"
    using archive_okD(3)[OF store_okD(2)[OF ok']] by blast
  obtain q where q: "logged H sp' (rows_of S i) q" "reaches (apply_command H) wf_command q p'"
    using logged_continues[OF l'(1)[unfolded rows] logged_not_Nil[OF l(1)]] by blast
  have "q = p" by (rule logged_unique[OF l(1) q(1)])
  then have run: "reaches (apply_command H) wf_command p p'" using q(2) by simp
  have "extends p p'" by (rule program_machine.reaches_extends[OF run logged_sound[OF assms(1) l(1)]])
  moreover have "load H S' i = Inr p'"
    using load_head_logged[OF store_okD(2,3)[OF ok'] l'] l(3) by (simp add: load_def)
  moreover have "prefix (records_of S i) (records_of S' i)"
    using records_of_rows[OF store_okD(2)[OF ok], of i] records_of_rows[OF store_okD(2)[OF ok'], of i] rows by simp
  ultimately show ?thesis using run by blast
qed

section \<open>A concrete store\<close>

lemma create_total:
  assumes "hex_digest H" and ok: "store_ok H S" and sp: "wf_spec sp" "create sp = Inr p" and "nonblank key"
    and key: "key \<notin> hs_command_key ` set (st_history S)" and none: "rows_of S (ps_program_id sp) = []"
  shows "\<exists>S'. create_program H sp key S = Inr (p, S')"
proof -
  have H: "digest_like H" by (rule store_okD(1)[OF ok])
  have id: "pg_id p = ps_program_id sp" using sp(2) by (auto simp: create_def res_simps)
  have r: "reachable H sp p" using sp(2) by (blast intro: reaches_refl)
  obtain raw where raw: "program_json H p = Inr raw" by (rule stored_program[OF H sp(1) r])
  have fresh: "(ps_program_id sp, 1) \<notin> history_key ` set (st_history S)"
    using none by (auto simp: rows_of_empty)
  have len: "length (H (create_input_json sp)) = 64" using assms(1) by (simp add: hex_digest_def)
  have one: "(0 :: int) < 1" by simp
  from record_result_total[OF assms(1) reachable_sound[OF H sp(1) r] raw store_okD(2)[OF ok] id one key fresh len] obtain S' where
    "record_result H (ps_program_id sp) 1 key ''create_program'' (ae_owner_id (ps_authority sp)) (H (create_input_json sp))
       (create_input_json sp) p S = Inr S'" by blast
  then show ?thesis
    using duplicate_unknown[OF store_okD(2)[OF ok] key] find_program_row(1)[OF store_okD(3)[OF ok] none] sp(2) assms(5)
    by (simp add: create_program_def input_digests Let_def lift_refusal_def)
qed

lemma hex_hash_ok: "digest_like hex_hash" "hex_digest hex_hash"
  by (simp_all add: digest_like_def hex_hash_def nonblank_def isspace_def hex_digest_def)

definition demo_store_1 :: store where
  "demo_store_1 = snd (projr (create_program hex_hash demo_spec ''k1'' empty_store))"

definition demo_store_2 :: store where
  "demo_store_2 = snd (projr (admit hex_hash unrestricted ''P'' ''k2'' (ActivateProgram 0 ''owner'') None demo_store_1))"

lemma demo_key: "nonblank ''k1''" "nonblank ''k2''" "nonblank ''P''"
  by (simp_all add: nonblank_def isspace_def)

lemma demo_created: "create_program hex_hash demo_spec ''k1'' empty_store = Inr (demo_0, demo_store_1)"
proof -
  have "\<exists>S'. create_program hex_hash demo_spec ''k1'' empty_store = Inr (demo_0, S')"
    by (rule create_total[OF hex_hash_ok(2) empty_store_ok[OF hex_hash_ok(1)] demo_spec_wf demo_create demo_key(1)])
      (simp_all add: empty_store_def rows_of_def)
  then show ?thesis by (auto simp: demo_store_1_def)
qed

lemma demo_store_1_reaches: "store_reaches hex_hash empty_store demo_store_1"
  by (rule reaches_single[of _ _ "CallCreate demo_spec ''k1''"]) (simp_all add: demo_created demo_spec_wf)

lemma demo_store_1_ok: "store_ok hex_hash demo_store_1"
  by (rule reachable_store_ok[OF hex_hash_ok(1) demo_store_1_reaches])

lemma demo_store_1_log:
  obtains r where "st_history demo_store_1 = [r]" "hs_command_key r = ''k1''" "logged hex_hash demo_spec (rows_of demo_store_1 ''P'') demo_0"
proof -
  have id: "pg_id demo_0 = ''P''" by (simp add: demo_0_def demo_spec_def)
  have e: "rows_of empty_store i = []" for i by (simp add: rows_of_def empty_store_def)
  from hex_hash_ok(1) store_okD(2,3)[OF empty_store_ok[OF hex_hash_ok(1)]] demo_spec_wf demo_created show ?thesis
  proof (cases rule: create_program_cases)
    case (again r)
    have "st_history empty_store = []" by (simp add: empty_store_def)
    then show ?thesis using again(2) unfolding again(1) by simp
  next
    case (fresh r)
    have prog: "hs_program r = ''P''" using logged_last[OF fresh(2)] id by (simp add: recorded_as_def)
    have "st_history demo_store_1 = [r]" unfolding fresh(1) by (simp add: empty_store_def)
    moreover have "rows_of demo_store_1 ''P'' = [r]" unfolding fresh(1) by (simp add: rows_of_written e prog)
    ultimately show ?thesis using that[of r] fresh(2,4) id e by simp
  qed
qed

lemma demo_store_1_load: "load hex_hash demo_store_1 ''P'' = Inr demo_0"
proof -
  obtain r where "logged hex_hash demo_spec (rows_of demo_store_1 ''P'') demo_0" by (rule demo_store_1_log)
  then show ?thesis
    using load_head_logged[OF store_okD(2,3)[OF demo_store_1_ok]] demo_key(3) by (simp add: load_def demo_0_def demo_spec_def)
qed

lemma demo_store_1_key: "find_admission demo_store_1 ''k2'' = None"
proof -
  obtain r where "st_history demo_store_1 = [r]" "hs_command_key r = ''k1''" by (rule demo_store_1_log)
  then show ?thesis by (simp add: find_admission[OF store_okD(2)[OF demo_store_1_ok]])
qed

lemma demo_hex_step: "apply_command hex_hash demo_0 (ActivateProgram 0 ''owner'') = Inr demo_1"
  by code_simp

lemma demo_admitted: "admit hex_hash unrestricted ''P'' ''k2'' (ActivateProgram 0 ''owner'') None demo_store_1 = Inr (demo_1, demo_store_2)"
proof -
  have "map_sum id fst (admit hex_hash unrestricted ''P'' ''k2'' (ActivateProgram 0 ''owner'') None demo_store_1) = Inr demo_1"
    using admission_outcome[OF hex_hash_ok demo_store_1_reaches demo_made_commands(1) demo_key(3,2) demo_store_1_key]
    by (simp add: demo_store_1_load demo_hex_step lift_refusal_def)
  then show ?thesis
    by (cases "admit hex_hash unrestricted ''P'' ''k2'' (ActivateProgram 0 ''owner'') None demo_store_1") (auto simp: demo_store_2_def)
qed

lemma demo_store_2_step: "store_reaches hex_hash demo_store_1 demo_store_2"
  by (rule reaches_single[of _ _ "CallAdmit unrestricted ''P'' ''k2'' (ActivateProgram 0 ''owner'') None"])
    (simp_all add: demo_admitted unrestricted_ok demo_made_commands(1))

lemma demo_store_2_reaches: "store_reaches hex_hash empty_store demo_store_2"
  by (rule reaches_trans[OF demo_store_1_reaches demo_store_2_step])

theorem load_replays_the_history_witness:
  "load hex_hash demo_store_2 ''P'' = replay hex_hash (records_of demo_store_2 ''P'')"
  using load_replays_the_history[OF hex_hash_ok(1) demo_store_2_reaches demo_key(3)] by blast

theorem admission_applies_the_command_witness:
  "\<exists>r. load hex_hash demo_store_2 ''P'' = Inr demo_1 \<and> records_of demo_store_2 ''P'' = records_of demo_store_1 ''P'' @ [r]
     \<and> hs_command_key r = ''k2''"
  using admission_applies_the_command[OF hex_hash_ok(1) demo_store_1_reaches unrestricted_ok[OF demo_made_commands(1)]
      demo_admitted demo_store_1_key] by blast


theorem command_keys_are_idempotent_witness:
  "admit hex_hash unrestricted ''P'' ''k2'' (ActivateProgram 0 ''owner'') None demo_store_2 = Inr (demo_1, demo_store_2)"
  by (rule command_keys_are_idempotent[OF hex_hash_ok(1) demo_store_1_reaches unrestricted_ok[OF demo_made_commands(1)]
      demo_admitted reaches_refl, THEN conjunct1])

theorem rebuild_restores_the_projections_witness:
  "\<exists>n D'. rebuild_projections hex_hash (demo_store_2\<lparr>st_programs := [], st_units := []\<rparr>) = Inr (n, D')
     \<and> load hex_hash D' ''P'' = load hex_hash demo_store_2 ''P''"
  using rebuild_restores_the_projections[OF hex_hash_ok demo_store_2_reaches, of "demo_store_2\<lparr>st_programs := [], st_units := []\<rparr>"]
  by auto

lemma demo_store_2_load: "load hex_hash (demo_store_2\<lparr>st_units := []\<rparr>) ''P'' = Inr demo_1"
proof -
  have ok: "store_ok hex_hash demo_store_2" by (rule reachable_store_ok[OF hex_hash_ok(1) demo_store_2_reaches])
  obtain r where r: "r \<in> set (st_history demo_store_2)" "hs_command_key r = ''k2''" "recorded_as hex_hash r demo_1"
    by (rule admitted_key[OF demo_store_1_ok unrestricted_ok[OF demo_made_commands(1)] demo_admitted])
  from store_okD(1-3)[OF demo_store_1_ok] unrestricted_ok[OF demo_made_commands(1)] admit_Inr[OF demo_admitted]
  have "load hex_hash demo_store_2 ''P'' = Inr demo_1"
  proof (cases rule: admit_cases)
    case (again q)
    then show ?thesis using demo_store_1_key by (auto simp: find_admission[OF store_okD(2)[OF demo_store_1_ok]] find_None_iff)
  next
    case (fresh sp q r J)
    have "rows_of demo_store_2 ''P'' = rows_of demo_store_1 ''P'' @ [r]"
      using logged_last[OF fresh(5)] fresh(4) by (simp add: fresh(6) rows_of_written recorded_as_def)
    then show ?thesis
      using load_head_logged[OF store_okD(2,3)[OF ok], of sp "''P''" demo_1] fresh(4,5) demo_key(3) by (simp add: load_def)
  qed
  then show ?thesis
    by (simp add: load_def load_head_def find_program_row_def latest_record_def records_of_def cong: option.case_cong)
qed

theorem damaged_projections_are_detected_witness:
  "load hex_hash demo_store_2 ''P'' = Inr demo_1 \<or> collides hex_hash"
  by (rule damaged_projections_are_detected[OF hex_hash_ok(1) demo_store_2_reaches _ demo_store_2_load]) simp

theorem stored_facts_survive_witness:
  "\<exists>p'. load hex_hash demo_store_2 ''P'' = Inr p' \<and> extends demo_0 p'"
  using stored_facts_survive[OF hex_hash_ok(1) demo_store_1_reaches demo_store_2_step demo_store_1_load] by blast

end
