(* ===== verification/Work_Ledger.thy ===== *)
theory Work_Ledger
  imports Program_Store Deadlines
begin

text \<open>
  The work budget of adapters/sqlite_store.py, first part: the records the store keeps of approved budgets
  as inert operations of its journal, \<open>_configure_work_budget\<close>, the clock of a decision
  (\<open>work_decision_time\<close>), \<open>check_work_authority\<close> and the revocation of a budget. The fields of a stored
  record are read with the type their writer gave them; another type is a \<open>StoreShapeError\<close>.
\<close>

declare canon.simps(6) [simp del]

section \<open>Records\<close>

type_synonym entries = "(string \<times> json) list"

definition work_prefix :: "string \<Rightarrow> string" where
  "work_prefix record_type = ''work-budget:v1:'' @ record_type @ '':''"

definition operations_with :: "string \<Rightarrow> journal \<Rightarrow> operation_row list" where
  "operations_with start J = filter (\<lambda>row. prefix start (op_id row)) (sort_key op_id (jn_operations J))"

definition work_records :: "journal \<Rightarrow> string \<Rightarrow> entries list sres" where
  "work_records J record_type = mapM request_of (operations_with (work_prefix record_type) J)"

definition entry :: "entries \<Rightarrow> string \<Rightarrow> json sres" where
  "entry r name = (case map_of r name of None \<Rightarrow> Inl StoreShapeError | Some v \<Rightarrow> Inr v)"

definition entry_str :: "entries \<Rightarrow> string \<Rightarrow> string sres" where
  "entry_str r name = (case as_str (map_of r name) of None \<Rightarrow> Inl StoreShapeError | Some s \<Rightarrow> Inr s)"

definition entry_int :: "entries \<Rightarrow> string \<Rightarrow> int sres" where
  "entry_int r name = (case as_int (map_of r name) of None \<Rightarrow> Inl StoreShapeError | Some i \<Rightarrow> Inr i)"

text \<open>Equality of two dictionaries of Python: the order of the keys does not matter.\<close>

definition same_json :: "json \<Rightarrow> json \<Rightarrow> bool" where
  "same_json a b \<longleftrightarrow> canon a = canon b"

definition lift_budget :: "'a bres \<Rightarrow> 'a sres" where
  "lift_budget r = map_sum (\<lambda>e. case e of BudgetValueError \<Rightarrow> StoreValueError | BudgetInvalidOperation \<Rightarrow> StoreShapeError) id r"

definition lift_deadline :: "'a tres \<Rightarrow> 'a sres" where
  "lift_deadline r = map_sum (\<lambda>_. StoreValueError) id r"

definition entry_policy :: "entries \<Rightarrow> work_budget_policy sres" where
  "entry_policy r = rbind (entry r ''policy'') (\<lambda>v. lift_budget (decode_policy v))"

definition entry_projection :: "entries \<Rightarrow> deadline_projection sres" where
  "entry_projection r = rbind (entry r ''projection'') (\<lambda>v. lift_deadline (decode_deadline v))"

text \<open>\<open>canonical_json([program_id, digest])\<close>\<close>

definition revision_identity :: "string \<Rightarrow> string \<Rightarrow> string" where
  "revision_identity program_id digest = canonical_json (JList [JStr program_id, JStr digest])"

definition work_binding :: "hash \<Rightarrow> store \<Rightarrow> string \<Rightarrow> entries option sres" where
  "work_binding H S program_id =
     rbind (work_record H (st_journal S) ''binding'' program_id) (\<lambda>original. case original of
       None \<Rightarrow> Inr None
     | Some _ \<Rightarrow>
         rbind (load_head H S program_id) (\<lambda>head.
         rbind (work_record H (st_journal S) ''binding-revision''
           (revision_identity program_id (spec_digest H (pg_spec head)))) (\<lambda>revised.
         Inr (case revised of None \<Rightarrow> original | Some r \<Rightarrow> Some r))))"

definition has_work_budget :: "hash \<Rightarrow> store \<Rightarrow> string \<Rightarrow> bool sres" where
  "has_work_budget H S program_id = rbind (work_binding H S program_id) (\<lambda>b. Inr (b \<noteq> None))"

section \<open>Approval\<close>

definition project_fact :: "string \<Rightarrow> work_budget_policy \<Rightarrow> work_fact" where
  "project_fact project_id policy = (''project'', project_id, [(''project'', JStr project_id), (''policy'', policy_document policy)])"

definition binding_fields :: "string \<Rightarrow> string \<Rightarrow> work_budget_policy \<Rightarrow> deadline_projection \<Rightarrow> string \<Rightarrow> entries" where
  "binding_fields program_id project_id policy projection digest =
     [(''program'', JStr program_id), (''project'', JStr project_id), (''policy'', policy_document policy),
      (''projection'', deadline_payload projection), (''spec_digest'', JStr digest)]"

text \<open>A prepared clock origin must agree with the projection and, before the first binding, with the specification.\<close>

definition check_origin :: "hash \<Rightarrow> store \<Rightarrow> string \<Rightarrow> bool \<Rightarrow> deadline_projection \<Rightarrow> unit sres" where
  "check_origin H S program_id first projection =
     rbind (work_record H (st_journal S) ''clock-origin'' program_id) (\<lambda>origin. case origin of
       None \<Rightarrow> Inr ()
     | Some o' \<Rightarrow>
         rbind (entry_projection o') (\<lambda>original.
         rbind (guard (projection = original) StoreBudgetRefused) (\<lambda>_.
         if first then rbind (entry_str o' ''spec_digest'') (\<lambda>digest. rbind (load_head H S program_id) (\<lambda>head.
             guard (digest = spec_digest H (pg_spec head)) StoreBudgetRefused))
         else Inr ())))"

text \<open>The record of the decision: the original binding, or the binding of a later specification, which must have the
  program, project, policy and projection of the current one.\<close>

definition same_envelope :: "entries \<Rightarrow> entries \<Rightarrow> unit sres" where
  "same_envelope existing wanted = each (\<lambda>name.
     rbind (entry existing name) (\<lambda>old. rbind (entry wanted name) (\<lambda>new. guard (same_json old new) StoreBudgetRefused)))
     [''program'', ''project'', ''policy'', ''projection'']"

definition binding_fact :: "entries option \<Rightarrow> entries option \<Rightarrow> string \<Rightarrow> string \<Rightarrow> entries \<Rightarrow> work_fact sres" where
  "binding_fact existing original program_id digest wanted = (case (existing, original) of
     (Some e, Some o') \<Rightarrow>
       rbind (entry_str o' ''spec_digest'') (\<lambda>first_digest.
       if first_digest \<noteq> digest
       then rbind (same_envelope e wanted) (\<lambda>_. Inr (''binding-revision'', revision_identity program_id digest, wanted))
       else Inr (''binding'', program_id, wanted))
   | _ \<Rightarrow> Inr (''binding'', program_id, wanted))"

definition bind_budget ::
    "hash \<Rightarrow> string \<Rightarrow> string \<Rightarrow> work_budget_policy \<Rightarrow> work_budget_policy \<Rightarrow> deadline_projection \<Rightarrow> store \<Rightarrow> store sres" where
  "bind_budget H program_id project_id project_policy task_policy projection S =
     rbind (work_binding H S program_id) (\<lambda>existing.
     rbind (if existing = None then rbind (load_head H S program_id) (\<lambda>head. guard (pg_attempts head = []) StoreBudgetRefused)
       else Inr ()) (\<lambda>_.
     rbind (check_origin H S program_id (existing = None) projection) (\<lambda>_.
     rbind (write_facts H [project_fact project_id project_policy] S) (\<lambda>S1.
     rbind (load_head H S1 program_id) (\<lambda>head.
     let digest = spec_digest H (pg_spec head);
         wanted = binding_fields program_id project_id task_policy projection digest in
     rbind (work_record H (st_journal S1) ''binding'' program_id) (\<lambda>original.
     rbind (binding_fact existing original program_id digest wanted) (\<lambda>fact.
     write_facts H [fact] S1)))))))"

definition configurable :: "string \<Rightarrow> string \<Rightarrow> work_budget_policy \<Rightarrow> work_budget_policy \<Rightarrow> unit sres" where
  "configurable program_id project_id project_policy task_policy =
     rbind (guard (nonblank program_id) StoreValueError) (\<lambda>_.
     rbind (guard (nonblank project_id) StoreValueError) (\<lambda>_.
     guard (\<not> (wb_strict_inference project_policy \<or> wb_strict_inference task_policy)) StoreBudgetRefused))"

definition configure_work_budget ::
    "hash \<Rightarrow> string \<Rightarrow> string \<Rightarrow> work_budget_policy \<Rightarrow> work_budget_policy \<Rightarrow> deadline_projection \<Rightarrow> store \<Rightarrow> store sres" where
  "configure_work_budget H program_id project_id project_policy task_policy projection S =
     rbind (configurable program_id project_id project_policy task_policy) (\<lambda>_.
     bind_budget H program_id project_id project_policy task_policy projection S)"

section \<open>The clock of a decision\<close>

text \<open>
  What the store has of the clock of one program when it decides: the \<open>pending\<close> column of its row in
  \<open>work_clock_state\<close> (\<open>None\<close>: no row), the reading captured for it (\<open>None\<close>: not captured; \<open>Some None\<close>:
  the clock failed) and the committed floor of its earlier readings.
\<close>

record clock_view =
  cv_pending :: "bool option"
  cv_reading :: "boot_clock_reading option option"
  cv_floor :: "boot_clock_reading option"

text \<open>\<open>None\<close> is a \<open>KeyError\<close>: no floor has been committed for the program.\<close>

definition check_floor :: "boot_clock_reading option \<Rightarrow> boot_clock_reading option \<Rightarrow> unit sres" where
  "check_floor previous reading = (case (previous, reading) of
     (Some floor_reading, Some r) \<Rightarrow>
       guard (\<not> (bc_wall r < bc_wall floor_reading \<or> bc_boot_ns r < bc_boot_ns floor_reading)) StoreBudgetRefused
   | _ \<Rightarrow> Inl StoreShapeError)"

definition work_decision_time :: "hash \<Rightarrow> store \<Rightarrow> clock_view \<Rightarrow> string \<Rightarrow> int sres" where
  "work_decision_time H S view program_id =
     rbind (work_binding H S program_id) (\<lambda>b. case b of None \<Rightarrow> Inl StoreBudgetRefused | Some binding \<Rightarrow>
     rbind (entry_projection binding) (\<lambda>projection.
     if cv_pending view \<noteq> Some False then Inl StoreBudgetRefused
     else (case cv_reading view of
       None \<Rightarrow> Inl StoreBudgetRefused
     | Some reading \<Rightarrow>
         rbind (guard (verifiable projection reading) StoreBudgetRefused) (\<lambda>_.
         rbind (check_floor (cv_floor view) reading) (\<lambda>_.
         Inr (decision_time projection reading))))))"

definition check_work_authority :: "hash \<Rightarrow> store \<Rightarrow> clock_view \<Rightarrow> string \<Rightarrow> unit sres" where
  "check_work_authority H S view program_id =
     rbind (work_binding H S program_id) (\<lambda>b. case b of None \<Rightarrow> Inl StoreBudgetRefused | Some binding \<Rightarrow>
     rbind (entry_str binding ''spec_digest'') (\<lambda>digest.
     rbind (load_head H S program_id) (\<lambda>head.
     rbind (guard (digest = spec_digest H (pg_spec head)) StoreBudgetRefused) (\<lambda>_.
     rbind (entry_projection binding) (\<lambda>projection.
     rbind (work_decision_time H S view program_id) (\<lambda>now.
     rbind (guard (now < dp_wall_deadline projection) StoreBudgetRefused) (\<lambda>_.
     rbind (work_record H (st_journal S) ''revoked'' program_id) (\<lambda>revoked.
     guard (\<not> (revoked \<noteq> None \<or> pg_status head = ProgramCancelled)) StoreBudgetRefused))))))))"

definition pending_work_projection :: "hash \<Rightarrow> store \<Rightarrow> program_spec \<Rightarrow> deadline_projection option sres" where
  "pending_work_projection H S sp =
     rbind (work_record H (st_journal S) ''clock-origin'' (ps_program_id sp)) (\<lambda>origin. case origin of
       None \<Rightarrow> Inr None
     | Some o' \<Rightarrow>
         rbind (work_binding H S (ps_program_id sp)) (\<lambda>b. case b of
           Some _ \<Rightarrow> Inr None
         | None \<Rightarrow>
             rbind (entry_str o' ''spec_digest'') (\<lambda>digest.
             rbind (guard (digest = spec_digest H sp) StoreBudgetRefused) (\<lambda>_.
             rbind (entry_projection o') (\<lambda>projection. Inr (Some projection))))))"

definition original_work_deadline :: "hash \<Rightarrow> store \<Rightarrow> string \<Rightarrow> int option sres" where
  "original_work_deadline H S program_id =
     rbind (work_binding H S program_id) (\<lambda>binding.
     rbind (case binding of Some _ \<Rightarrow> Inr binding | None \<Rightarrow> work_record H (st_journal S) ''clock-origin'' program_id) (\<lambda>origin.
     case origin of None \<Rightarrow> Inr None
     | Some o' \<Rightarrow> rbind (entry_projection o') (\<lambda>projection. Inr (Some (dp_wall_deadline projection)))))"

section \<open>Revocation\<close>

definition revoked_fact :: "string \<Rightarrow> string \<Rightarrow> work_fact" where
  "revoked_fact program_id evidence = (''revoked'', program_id, [(''program'', JStr program_id), (''evidence'', JStr evidence)])"

definition record_revocation :: "hash \<Rightarrow> string \<Rightarrow> string \<Rightarrow> store \<Rightarrow> store sres" where
  "record_revocation H program_id evidence S =
     rbind (work_record H (st_journal S) ''revoked'' program_id) (\<lambda>revoked.
     if revoked = None then write_facts H [revoked_fact program_id evidence] S else Inr S)"

definition revoke_work_budget :: "hash \<Rightarrow> string \<Rightarrow> string \<Rightarrow> int option \<Rightarrow> store \<Rightarrow> store sres" where
  "revoke_work_budget H program_id evidence expected_revision S =
     rbind (guard (nonblank evidence) StoreValueError) (\<lambda>_.
     rbind (case expected_revision of None \<Rightarrow> Inr ()
       | Some n \<Rightarrow> rbind (load_head H S program_id) (\<lambda>head. guard (pg_revision head = n) StoreOwnershipConflict)) (\<lambda>_.
     record_revocation H program_id evidence S))"

definition work_budget_revoked :: "hash \<Rightarrow> store \<Rightarrow> string \<Rightarrow> bool option sres" where
  "work_budget_revoked H S program_id =
     rbind (work_binding H S program_id) (\<lambda>b. case b of
       None \<Rightarrow> Inr None
     | Some _ \<Rightarrow> rbind (work_record H (st_journal S) ''revoked'' program_id) (\<lambda>revoked. Inr (Some (revoked \<noteq> None))))"

text \<open>\<open>stop_ordinary_program\<close>: the cancellation and the revocation in one transaction.\<close>

definition stop_ordinary_program ::
    "hash \<Rightarrow> verdicts \<Rightarrow> string \<Rightarrow> string \<Rightarrow> string \<Rightarrow> string \<Rightarrow> int option \<Rightarrow> store \<Rightarrow> (program \<times> store) sres" where
  "stop_ordinary_program H vd program_id command_key actor evidence expected_revision S =
     rbind (guard (nonblank command_key) StoreValueError) (\<lambda>_.
     rbind (guard (nonblank evidence) StoreValueError) (\<lambda>_.
     rbind (load_head H S program_id) (\<lambda>p.
     rbind (guard (case expected_revision of None \<Rightarrow> True | Some n \<Rightarrow> pg_revision p = n) StoreOwnershipConflict) (\<lambda>_.
     rbind (if pg_status p \<notin> {ProgramCancelled, ProgramCompleted}
       then (let c = CancelProgram (pg_revision p) actor in
         rbind (guard (command_ok c) (StoreDomainError InvalidDomainValue)) (\<lambda>_.
         admit_decision H vd program_id command_key c None S))
       else Inr (p, S)) (\<lambda>(p', S1).
     rbind (record_revocation H program_id evidence S1) (\<lambda>S2. Inr (p', S2)))))))"

end
