(* ===== verification/Work_Clocks.thy ===== *)
theory Work_Clocks
  imports Work_Ledger
begin

text \<open>
  The clocks of the work budget in adapters/sqlite_store.py: the table \<open>work_clock_state\<close>, the floors cached
  from it, the samples that are captured and not yet committed, \<open>_flush_clock_observations\<close> and
  \<open>_prepare_work_clocks\<close>, with \<open>_check_work_projection\<close> and \<open>_new_work_projection\<close>. What happens outside the
  process (whether the commits succeed, what the boot clock answers, whether its callback changed the store)
  is an argument, \<open>clock_events\<close>. Restarting the process loses the floors and the samples, not the table.
\<close>

declare canon.simps(6) [simp del]

section \<open>State\<close>

record clock_row =
  ck_wall :: int
  ck_boot_ns :: int
  ck_boot_id :: string
  ck_clock :: string
  ck_pending :: bool

record clocks =
  cs_rows :: "string \<Rightarrow> clock_row option"
  cs_marks :: "string \<Rightarrow> boot_clock_reading option"
  cs_uncommitted :: "(string \<times> boot_clock_reading option) list"

definition no_clocks :: clocks where
  "no_clocks = \<lparr>cs_rows = (\<lambda>_. None), cs_marks = (\<lambda>_. None), cs_uncommitted = []\<rparr>"

record clock_events =
  ce_flush :: bool
  ce_mark :: bool
  ce_reading :: "boot_clock_reading option"
  ce_changed :: bool
  ce_commit :: bool

type_synonym readings = "(string \<times> boot_clock_reading option) list"

section \<open>Committing samples\<close>

definition raise_floor :: "boot_clock_reading option \<Rightarrow> clock_row \<Rightarrow> clock_row" where
  "raise_floor reading row = (case reading of
     None \<Rightarrow> row
   | Some r \<Rightarrow> if bc_boot_id r = ck_boot_id row \<and> bc_clock r = ck_clock row
       then row\<lparr>ck_wall := max (ck_wall row) (bc_wall r), ck_boot_ns := max (ck_boot_ns row) (bc_boot_ns r)\<rparr> else row)"

fun flush_rows :: "readings \<Rightarrow> (string \<Rightarrow> clock_row option) \<Rightarrow> (string \<Rightarrow> clock_row option) option" where
  "flush_rows [] rows = Some rows"
| "flush_rows ((program_id, reading) # rest) rows = (case rows program_id of
     None \<Rightarrow> None
   | Some row \<Rightarrow> flush_rows rest (rows(program_id \<mapsto> (raise_floor reading row)\<lparr>ck_pending := False\<rparr>)))"

definition floor_of :: "clock_row \<Rightarrow> boot_clock_reading" where
  "floor_of row = \<lparr>bc_wall = ck_wall row, bc_boot_ns = ck_boot_ns row, bc_boot_id = ck_boot_id row, bc_clock = ck_clock row\<rparr>"

text \<open>\<open>None\<close>: the flush raised and was rolled back.\<close>

definition flush_clock_observations :: "bool \<Rightarrow> clocks \<Rightarrow> clocks option" where
  "flush_clock_observations commits C = (if cs_uncommitted C = [] then Some C
     else (case flush_rows (cs_uncommitted C) (cs_rows C) of
       None \<Rightarrow> None
     | Some rows \<Rightarrow> if \<not> commits then None
         else Some \<lparr>cs_rows = rows,
           cs_marks = (\<lambda>p. if p \<in> fst ` set (cs_uncommitted C) then map_option floor_of (rows p) else cs_marks C p),
           cs_uncommitted = []\<rparr>))"

section \<open>Preparing the clocks\<close>

definition with_program :: "entries \<Rightarrow> (string \<times> entries) sres" where
  "with_program e = rbind (entry_str e ''program'') (\<lambda>program_id. Inr (program_id, e))"

definition clock_bindings :: "journal \<Rightarrow> (string \<times> entries) list sres" where
  "clock_bindings J =
     rbind (work_records J ''binding'') (\<lambda>records. rbind (mapM with_program records) (\<lambda>listed.
     rbind (work_records J ''clock-origin'') (\<lambda>origins. rbind (mapM with_program origins) (\<lambda>prepared.
     Inr (listed @ filter (\<lambda>e. fst e \<notin> fst ` set listed) prepared)))))"

text \<open>The row of a program that has none, from its projection and the clock records of an older version.\<close>

definition first_clock_row :: "hash \<Rightarrow> journal \<Rightarrow> string \<Rightarrow> entries \<Rightarrow> clock_row sres" where
  "first_clock_row H J program_id e =
     rbind (entry_projection e) (\<lambda>projection.
     rbind (work_records J (''clock-'' @ H program_id)) (\<lambda>legacy.
     rbind (mapM (\<lambda>item. entry_int item ''wall'') legacy) (\<lambda>walls.
     rbind (mapM (\<lambda>item. entry_int item ''boot_ns'') legacy) (\<lambda>boots.
     Inr \<lparr>ck_wall = foldl max (dp_wall_anchor projection) walls, ck_boot_ns = foldl max (dp_boot_anchor_ns projection) boots,
       ck_boot_id = dp_boot_id projection, ck_clock = dp_clock projection, ck_pending = False\<rparr>))))"

fun mark_clocks ::
    "hash \<Rightarrow> journal \<Rightarrow> (string \<times> entries) list \<Rightarrow> (string \<Rightarrow> clock_row option) \<times> string list \<Rightarrow>
     ((string \<Rightarrow> clock_row option) \<times> string list) sres" where
  "mark_clocks H J [] (rows, eligible) = Inr (rows, eligible)"
| "mark_clocks H J ((program_id, e) # rest) (rows, eligible) = (case rows program_id of
     None \<Rightarrow> rbind (first_clock_row H J program_id e) (\<lambda>row.
       mark_clocks H J rest (rows(program_id \<mapsto> row\<lparr>ck_pending := True\<rparr>), eligible @ [program_id]))
   | Some row \<Rightarrow>
       if ck_pending row then mark_clocks H J rest (rows, eligible)
       else mark_clocks H J rest (rows(program_id \<mapsto> row\<lparr>ck_pending := True\<rparr>), eligible @ [program_id]))"

text \<open>The dictionary of the call: the captured sample for the eligible programs, nothing for the others.\<close>

definition readings_of :: "(string \<times> entries) list \<Rightarrow> string list \<Rightarrow> boot_clock_reading option \<Rightarrow> readings" where
  "readings_of listed eligible reading = map (\<lambda>e. (fst e, if fst e \<in> set eligible then reading else None)) listed"

text \<open>
  The samples of the eligible programs are recorded before they are committed; if the commit fails they stay
  and the programs stay pending.
\<close>

definition capture :: "clock_events \<Rightarrow> (string \<times> entries) list \<Rightarrow> string list \<Rightarrow> clocks \<Rightarrow> readings \<times> clocks" where
  "capture ev listed eligible C =
     (let C' = C\<lparr>cs_uncommitted := cs_uncommitted C @ map (\<lambda>p. (p, ce_reading ev)) eligible\<rparr> in
      case flush_clock_observations (ce_commit ev) C' of
        None \<Rightarrow> (readings_of listed [] None, C')
      | Some C'' \<Rightarrow> (readings_of listed eligible (if ce_changed ev then None else ce_reading ev), C''))"

text \<open>
  Called outside a transaction on a store of the current schema. The first component is the dictionary it
  returns or the exception it raises, the second the clocks it leaves.
\<close>

definition prepare_work_clocks :: "hash \<Rightarrow> journal \<Rightarrow> clock_events \<Rightarrow> clocks \<Rightarrow> readings sres \<times> clocks" where
  "prepare_work_clocks H J ev C = (case clock_bindings J of
     Inl e \<Rightarrow> (Inl e, C)
   | Inr listed \<Rightarrow>
       if listed = [] then (Inr [], C)
       else (case flush_clock_observations (ce_flush ev) C of
         None \<Rightarrow> (Inr (readings_of listed [] None), C)
       | Some C1 \<Rightarrow>
           (case mark_clocks H J listed (cs_rows C1, []) of
             Inl e \<Rightarrow> (Inl e, C1)
           | Inr (rows, eligible) \<Rightarrow>
               if \<not> ce_mark ev then (Inr (readings_of listed [] None), C1)
               else if eligible = [] then (Inr (readings_of listed [] None), C1\<lparr>cs_rows := rows\<rparr>)
               else (case capture ev listed eligible (C1\<lparr>cs_rows := rows\<rparr>) of
                   (found, C2) \<Rightarrow> (Inr found, C2)))))"

text \<open>What a decision sees of the clocks in the transaction that captured \<open>found\<close>.\<close>

definition view_of :: "readings \<Rightarrow> clocks \<Rightarrow> string \<Rightarrow> clock_view" where
  "view_of found C program_id = \<lparr>cv_pending = map_option ck_pending (cs_rows C program_id),
     cv_reading = map_of found program_id, cv_floor = cs_marks C program_id\<rparr>"

section \<open>Projections of an approval\<close>

definition check_work_projection :: "clocks \<Rightarrow> string \<Rightarrow> deadline_projection \<Rightarrow> boot_clock_reading option \<Rightarrow> unit sres" where
  "check_work_projection C program_id projection reading =
     rbind (guard (reading \<noteq> None) StoreBudgetRefused) (\<lambda>_.
     rbind (guard (verifiable projection reading) StoreBudgetRefused) (\<lambda>_.
     rbind (check_floor (cs_marks C program_id) reading) (\<lambda>_.
     guard (decision_time projection reading < dp_wall_deadline projection) StoreBudgetRefused)))"

datatype deadline_request = WallDeadline int | GivenProjection deadline_projection

definition no_rollback :: "clocks \<Rightarrow> boot_clock_reading \<Rightarrow> string \<Rightarrow> unit sres" where
  "no_rollback C r program_id = (case cs_marks C program_id of
     None \<Rightarrow> Inl StoreShapeError
   | Some previous \<Rightarrow> guard (\<not> (bc_boot_id previous = bc_boot_id r
       \<and> (bc_wall r < bc_wall previous \<or> bc_boot_ns r < bc_boot_ns previous))) StoreBudgetRefused)"

definition project_deadline :: "deadline_request \<Rightarrow> boot_clock_reading option \<Rightarrow> deadline_projection sres" where
  "project_deadline deadline reading = (case reading of
     None \<Rightarrow> Inl StoreBudgetRefused
   | Some r \<Rightarrow> (case deadline of
       GivenProjection projection \<Rightarrow>
         rbind (guard (verifiable projection reading \<and> decision_time projection reading < dp_wall_deadline projection)
           StoreBudgetRefused) (\<lambda>_. Inr projection)
     | WallDeadline wall \<Rightarrow> lift_deadline (bind_deadline wall r)))"

text \<open>\<open>now\<close> is the answer of the boot clock when no reading was captured.\<close>

definition new_work_projection ::
    "clocks \<Rightarrow> boot_clock_reading option \<Rightarrow> deadline_request \<Rightarrow> readings \<Rightarrow> deadline_projection sres" where
  "new_work_projection C now deadline found = (case found of
     [] \<Rightarrow> (case deadline of
         GivenProjection projection \<Rightarrow> Inr projection
       | WallDeadline _ \<Rightarrow> project_deadline deadline now)
   | (_, first) # _ \<Rightarrow>
       rbind (guard (\<not> list_ex (\<lambda>e. snd e = None) found) StoreBudgetRefused) (\<lambda>_.
       rbind (case first of None \<Rightarrow> Inr () | Some r \<Rightarrow> each (no_rollback C r) (map fst found)) (\<lambda>_.
       project_deadline deadline first)))"

text \<open>\<open>_transaction\<close> prepares the clocks before it begins; \<open>body\<close> sees what was captured.\<close>

definition transaction :: "hash \<Rightarrow> clock_events \<Rightarrow> (readings \<Rightarrow> clocks \<Rightarrow> 'a sres) \<Rightarrow> journal \<Rightarrow> clocks \<Rightarrow> 'a sres \<times> clocks" where
  "transaction H ev body J C = (case prepare_work_clocks H J ev C of
     (Inl e, C') \<Rightarrow> (Inl e, C')
   | (Inr found, C') \<Rightarrow> (body found C', C'))"

definition first_projection :: "hash \<Rightarrow> string \<Rightarrow> int \<Rightarrow> clock_events \<Rightarrow> store \<Rightarrow> clocks \<Rightarrow> deadline_projection sres \<times> clocks" where
  "first_projection H program_id deadline ev S C =
     (case rbind (work_binding H S program_id) (\<lambda>existing. case existing of
          Some b \<Rightarrow> Inr (Some b)
        | None \<Rightarrow> work_record H (st_journal S) ''clock-origin'' program_id) of
       Inl e \<Rightarrow> (Inl e, C)
     | Inr (Some o') \<Rightarrow>
         (rbind (entry_projection o') (\<lambda>projection.
          rbind (guard (dp_wall_deadline projection = deadline) StoreBudgetRefused) (\<lambda>_. Inr projection)), C)
     | Inr None \<Rightarrow>
         (case work_records (st_journal S) ''binding'' of
           Inl e \<Rightarrow> (Inl e, C)
         | Inr [] \<Rightarrow> (new_work_projection C (ce_reading ev) (WallDeadline deadline) [], C)
         | Inr (_ # _) \<Rightarrow> transaction H ev (\<lambda>found C'. new_work_projection C' (ce_reading ev) (WallDeadline deadline) found) (st_journal S) C))"

definition bind_work_budget ::
    "hash \<Rightarrow> string \<Rightarrow> string \<Rightarrow> work_budget_policy \<Rightarrow> work_budget_policy \<Rightarrow> int \<Rightarrow> clock_events \<Rightarrow> clock_events \<Rightarrow> store \<Rightarrow>
     clocks \<Rightarrow> store sres \<times> clocks" where
  "bind_work_budget H program_id project_id project_policy task_policy deadline ev ev' S C =
     (case first_projection H program_id deadline ev S C of
       (Inl e, C') \<Rightarrow> (Inl e, C')
     | (Inr projection, C') \<Rightarrow>
         (case configurable program_id project_id project_policy task_policy of
           Inl e \<Rightarrow> (Inl e, C')
         | Inr _ \<Rightarrow> transaction H ev' (\<lambda>_ _. bind_budget H program_id project_id project_policy task_policy projection S)
             (st_journal S) C'))"

end
