(* ===== verification/Clock_Theorems.thy ===== *)
theory Clock_Theorems
  imports Work_Clocks Command_Machine
begin

text \<open>
  The promises of the work clocks. Preparations of the clocks, whatever fails in them, and restarts of the
  process form a \<open>recording_machine\<close>: committed floors only rise, so the decision times of a program never
  go back, and a sample lost between its mark and its commit ends the authority of the program.
\<close>

section \<open>The machine of the clocks\<close>

datatype clock_call = PrepareClocks journal clock_events | RestartClocks

definition restarted :: "clocks \<Rightarrow> clocks" where
  "restarted C = C\<lparr>cs_marks := (\<lambda>_. None), cs_uncommitted := []\<rparr>"

fun clock_step :: "hash \<Rightarrow> clocks \<Rightarrow> clock_call \<Rightarrow> unit + clocks" where
  "clock_step H C (PrepareClocks J ev) = Inr (snd (prepare_work_clocks H J ev C))"
| "clock_step H C RestartClocks = Inr (restarted C)"

text \<open>The journal has one projection for the program: an original binding is never replaced and agrees with the
  prepared origin.\<close>

fun keeps_projection :: "string \<Rightarrow> deadline_projection \<Rightarrow> clock_call \<Rightarrow> bool" where
  "keeps_projection p d (PrepareClocks J ev) \<longleftrightarrow> (case clock_bindings J of
     Inl _ \<Rightarrow> True | Inr listed \<Rightarrow> list_all (\<lambda>e. fst e = p \<longrightarrow> entry_projection (snd e) = Inr d) listed)"
| "keeps_projection p d RestartClocks \<longleftrightarrow> True"

definition row_le :: "clock_row \<Rightarrow> clock_row \<Rightarrow> bool" where
  "row_le row row' \<longleftrightarrow> ck_boot_id row' = ck_boot_id row \<and> ck_clock row' = ck_clock row
     \<and> ck_wall row \<le> ck_wall row' \<and> ck_boot_ns row \<le> ck_boot_ns row'"

definition rows_le :: "(string \<Rightarrow> clock_row option) \<Rightarrow> (string \<Rightarrow> clock_row option) \<Rightarrow> bool" where
  "rows_le rows rows' \<longleftrightarrow> (\<forall>p row. rows p = Some row \<longrightarrow> (\<exists>row'. rows' p = Some row' \<and> row_le row row'))"

lemma row_le_refl [simp]: "row_le row row"
  by (simp add: row_le_def)

lemma row_le_pending [simp]: "row_le row (row'\<lparr>ck_pending := b\<rparr>) \<longleftrightarrow> row_le row row'"
  by (simp add: row_le_def)

lemma row_le_trans: "row_le a b \<Longrightarrow> row_le b c \<Longrightarrow> row_le a c"
  by (auto simp: row_le_def)

lemma rows_le_refl [simp]: "rows_le rows rows"
  by (simp add: rows_le_def)

lemma rows_le_trans: "rows_le a b \<Longrightarrow> rows_le b c \<Longrightarrow> rows_le a c"
  unfolding rows_le_def using row_le_trans by meson

lemma rows_le_upd: "rows p = Some row \<Longrightarrow> row_le row row' \<Longrightarrow> rows_le rows (rows(p \<mapsto> row'))"
  by (auto simp: rows_le_def)

lemma rows_le_new: "rows p = None \<Longrightarrow> rows_le rows (rows(p \<mapsto> row'))"
  by (auto simp: rows_le_def)

lemma raise_floor_le: "row_le row (raise_floor reading row)"
  by (simp add: row_le_def raise_floor_def split: option.split)

lemma floor_pending [simp]: "floor_of (row\<lparr>ck_pending := b\<rparr>) = floor_of row"
  by (simp add: floor_of_def)

section \<open>Flushing\<close>

lemma flush_rows_le: "flush_rows us rows = Some rows' \<Longrightarrow> rows_le rows rows'"
proof (induction us rows rule: flush_rows.induct)
  case (2 p reading rest rows)
  then obtain row where row: "rows p = Some row" "flush_rows rest (rows(p \<mapsto> (raise_floor reading row)\<lparr>ck_pending := False\<rparr>)) = Some rows'"
    by (auto split: option.splits)
  have "rows_le rows (rows(p \<mapsto> (raise_floor reading row)\<lparr>ck_pending := False\<rparr>))"
    by (rule rows_le_upd[where row = row]) (simp_all add: row(1) raise_floor_le)
  then show ?case using 2(1)[OF row(1,2)] by (rule rows_le_trans)
qed simp

lemma flush_rows_other: "flush_rows us rows = Some rows' \<Longrightarrow> p \<notin> fst ` set us \<Longrightarrow> rows' p = rows p"
  by (induction us rows rule: flush_rows.induct) (auto split: option.splits)

lemma flush_rows_known: "flush_rows us rows = Some rows' \<Longrightarrow> rows' p = None \<longleftrightarrow> rows p = None"
  by (induction us rows rule: flush_rows.induct) (auto split: option.splits if_splits)

lemma flush_rows_sample:
  assumes "flush_rows us rows = Some rows'" and "(p, Some r) \<in> set us" and "rows p = Some row"
    and "bc_boot_id r = ck_boot_id row" and "bc_clock r = ck_clock row"
  shows "\<exists>row'. rows' p = Some row' \<and> bc_wall r \<le> ck_wall row' \<and> bc_boot_ns r \<le> ck_boot_ns row'"
  using assms
proof (induction us rows arbitrary: row rule: flush_rows.induct)
  case (2 q reading rest rows)
  then obtain old where old: "rows q = Some old" "flush_rows rest (rows(q \<mapsto> (raise_floor reading old)\<lparr>ck_pending := False\<rparr>)) = Some rows'"
    by (auto split: option.splits)
  let ?new = "(raise_floor reading old)\<lparr>ck_pending := False\<rparr>"
  show ?case
  proof (cases "(q, reading) = (p, Some r)")
    case True
    then have "old = row" using old(1) 2(4) by simp
    then have new: "bc_wall r \<le> ck_wall ?new" "bc_boot_ns r \<le> ck_boot_ns ?new" using True 2(5,6) by (simp_all add: raise_floor_def)
    have "rows_le (rows(q \<mapsto> ?new)) rows'" by (rule flush_rows_le[OF old(2)])
    moreover have "(rows(q \<mapsto> ?new)) p = Some ?new" using True by simp
    ultimately obtain row' where "rows' p = Some row'" "row_le ?new row'" unfolding rows_le_def by blast
    then show ?thesis using new by (auto simp: row_le_def)
  next
    case False
    then have p: "(p, Some r) \<in> set rest" using 2(3) by auto
    show ?thesis
    proof (cases "q = p")
      case True
      then have "old = row" using old(1) 2(4) by simp
      then have "row_le row ?new" by (simp add: raise_floor_le)
      then show ?thesis using 2(1)[OF old p, of ?new] True 2(5,6) by (simp add: row_le_def)
    next
      case False
      then show ?thesis using 2(1)[OF old p, of row] 2(4-6) by simp
    qed
  qed
qed simp

lemma flush_cases:
  assumes "flush_clock_observations b C = Some C'"
  obtains (idle) "cs_uncommitted C = []" "C' = C"
  | (flushed) rows where "flush_rows (cs_uncommitted C) (cs_rows C) = Some rows" "C' = \<lparr>cs_rows = rows,
      cs_marks = (\<lambda>p. if p \<in> fst ` set (cs_uncommitted C) then map_option floor_of (rows p) else cs_marks C p), cs_uncommitted = []\<rparr>"
  using assms by (auto simp: flush_clock_observations_def split: if_splits option.splits)

section \<open>Marking\<close>

lemma mark_clocks_le: "mark_clocks H J listed (rows, el) = Inr (rows', el') \<Longrightarrow> rows_le rows rows'"
proof (induction H J listed "(rows, el)" arbitrary: rows el rule: mark_clocks.induct)
  case (2 H J p e rest rows el)
  show ?case
  proof (cases "rows p")
    case None
    then obtain row where row: "first_clock_row H J p e = Inr row"
        "mark_clocks H J rest (rows(p \<mapsto> row\<lparr>ck_pending := True\<rparr>), el @ [p]) = Inr (rows', el')"
      using 2(4) by (auto simp: rbind_eq_Inr)
    have "rows_le rows (rows(p \<mapsto> row\<lparr>ck_pending := True\<rparr>))" by (rule rows_le_new[where p = p]) (rule None)
    then show ?thesis using 2(1)[OF None row] by (rule rows_le_trans)
  next
    case (Some row)
    show ?thesis
    proof (cases "ck_pending row")
      case True
      then show ?thesis using 2(2)[OF Some True] 2(4) Some by simp
    next
      case False
      have "mark_clocks H J rest (rows(p \<mapsto> row\<lparr>ck_pending := True\<rparr>), el @ [p]) = Inr (rows', el')" using 2(4) Some False by simp
      note rest = 2(3)[OF Some False this]
      have "rows_le rows (rows(p \<mapsto> row\<lparr>ck_pending := True\<rparr>))" by (rule rows_le_upd[where row = row]) (simp_all add: Some)
      then show ?thesis using rest by (rule rows_le_trans)
    qed
  qed
qed simp

lemma mark_clocks_pending:
  assumes "mark_clocks H J listed (rows, el) = Inr (rows', el')" and "rows p = Some row" and "ck_pending row"
  shows "rows' p = Some row \<and> (p \<in> set el' \<longleftrightarrow> p \<in> set el)"
  using assms
proof (induction H J listed "(rows, el)" arbitrary: rows el rule: mark_clocks.induct)
  case (2 H J q e rest rows el)
  show ?case
  proof (cases "rows q")
    case None
    then obtain new where new: "first_clock_row H J q e = Inr new"
        "mark_clocks H J rest (rows(q \<mapsto> new\<lparr>ck_pending := True\<rparr>), el @ [q]) = Inr (rows', el')"
      using 2(4) by (auto simp: rbind_eq_Inr)
    have "q \<noteq> p" using None 2(5) by auto
    then show ?thesis using 2(1)[OF None new] 2(5,6) by simp
  next
    case (Some old)
    show ?thesis
    proof (cases "ck_pending old")
      case True
      then show ?thesis using 2(2)[OF Some True] 2(4-6) Some by simp
    next
      case False
      then have q: "q \<noteq> p" using Some 2(5,6) by auto
      have "mark_clocks H J rest (rows(q \<mapsto> old\<lparr>ck_pending := True\<rparr>), el @ [q]) = Inr (rows', el')" using 2(4) Some False by simp
      from 2(3)[OF Some False this] show ?thesis using q 2(5,6) by simp
    qed
  qed
qed simp

text \<open>A row that is already there keeps its floor; a new one has the boot of its projection.\<close>

lemma mark_clocks_row:
  assumes "mark_clocks H J listed (rows, el) = Inr (rows', el')" and "rows' p = Some row'"
  shows "(\<exists>row. rows p = Some row \<and> floor_of row' = floor_of row)
    \<or> (rows p = None \<and> (\<exists>e d. (p, e) \<in> set listed \<and> entry_projection e = Inr d \<and> ck_boot_id row' = dp_boot_id d \<and> ck_clock row' = dp_clock d))"
  using assms
proof (induction H J listed "(rows, el)" arbitrary: rows el rule: mark_clocks.induct)
  case (2 H J q e rest rows el)
  show ?case
  proof (cases "rows q")
    case None
    then obtain new where new: "first_clock_row H J q e = Inr new"
        "mark_clocks H J rest (rows(q \<mapsto> new\<lparr>ck_pending := True\<rparr>), el @ [q]) = Inr (rows', el')"
      using 2(4) by (auto simp: rbind_eq_Inr)
    obtain d where d: "entry_projection e = Inr d" "ck_boot_id new = dp_boot_id d" "ck_clock new = dp_clock d"
      using new(1) by (auto simp: first_clock_row_def rbind_eq_Inr)
    show ?thesis
    proof (cases "q = p")
      case True
      then have "floor_of row' = floor_of new" using 2(1)[OF None new 2(5)] by auto
      then show ?thesis using d None True by (auto simp: floor_of_def)
    next
      case False
      then show ?thesis using 2(1)[OF None new 2(5)] by auto
    qed
  next
    case (Some old)
    show ?thesis
    proof (cases "ck_pending old")
      case True
      then show ?thesis using 2(2)[OF Some True] 2(4,5) Some by auto
    next
      case False
      have "mark_clocks H J rest (rows(q \<mapsto> old\<lparr>ck_pending := True\<rparr>), el @ [q]) = Inr (rows', el')" using 2(4) Some False by simp
      from 2(3)[OF Some False this 2(5)] show ?thesis using Some by (auto split: if_splits)
    qed
  qed
qed auto

section \<open>Preparing\<close>

text \<open>What every flush and every mark keeps, a preparation keeps.\<close>

lemma prepare_keeps:
  assumes p: "prepare_work_clocks H J ev C = (res, C')" and C: "Q C"
    and flush: "\<And>b C C'. Q C \<Longrightarrow> flush_clock_observations b C = Some C' \<Longrightarrow> Q C'"
    and mark: "\<And>C listed rows el us. Q C \<Longrightarrow> clock_bindings J = Inr listed \<Longrightarrow> mark_clocks H J listed (cs_rows C, []) = Inr (rows, el)
      \<Longrightarrow> fst ` set us \<subseteq> set el \<Longrightarrow> Q (C\<lparr>cs_rows := rows, cs_uncommitted := cs_uncommitted C @ us\<rparr>)"
  shows "Q C'"
proof (cases "clock_bindings J")
  case (Inl e)
  then show ?thesis using p C by (simp add: prepare_work_clocks_def)
next
  case (Inr listed)
  show ?thesis
  proof (cases "flush_clock_observations (ce_flush ev) C")
    case None
    then show ?thesis using p C Inr by (simp add: prepare_work_clocks_def split: if_splits)
  next
    case (Some C1)
    have C1: "Q C1" by (rule flush[OF C Some])
    show ?thesis
    proof (cases "mark_clocks H J listed (cs_rows C1, [])")
      case (Inl e)
      then show ?thesis using p C C1 Inr Some by (simp add: prepare_work_clocks_def split: if_splits)
    next
      case m: (Inr marked)
      obtain rows el where rows: "marked = (rows, el)" by (cases marked)
      let ?us = "map (\<lambda>p. (p, ce_reading ev)) el"
      have plain: "Q (C1\<lparr>cs_rows := rows\<rparr>)" using mark[OF C1 Inr m[unfolded rows], of "[]"] by simp
      have samples: "Q (C1\<lparr>cs_rows := rows, cs_uncommitted := cs_uncommitted C1 @ ?us\<rparr>)"
        by (rule mark[OF C1 Inr m[unfolded rows]]) auto
      show ?thesis
        using p C C1 Inr Some m rows plain samples flush[OF samples, of "ce_commit ev"]
        by (auto simp: prepare_work_clocks_def capture_def Let_def split: if_splits option.splits)
    qed
  qed
qed

lemma no_reading: "map_of (readings_of listed [] None) p \<noteq> Some (Some r)"
  by (induction listed) (auto simp: readings_of_def)

lemma reading_of: "map_of (readings_of listed el reading) p = Some (Some r) \<Longrightarrow> p \<in> set el \<and> reading = Some r"
  by (induction listed) (auto simp: readings_of_def split: if_splits)

lemma prepare_reading:
  assumes "prepare_work_clocks H J ev C = (Inr found, C')" and "map_of found p = Some (Some r)"
  obtains C1 where "flush_clock_observations (ce_commit ev) C1 = Some C'" "(p, Some r) \<in> set (cs_uncommitted C1)"
proof -
  obtain listed where l: "clock_bindings J = Inr listed" using assms(1) by (cases "clock_bindings J") (simp_all add: prepare_work_clocks_def)
  have ne: "listed \<noteq> []" using assms l by (auto simp: prepare_work_clocks_def)
  obtain C1 where C1: "flush_clock_observations (ce_flush ev) C = Some C1"
    using assms l ne by (cases "flush_clock_observations (ce_flush ev) C") (auto simp: prepare_work_clocks_def no_reading)
  obtain rows el where m: "mark_clocks H J listed (cs_rows C1, []) = Inr (rows, el)"
    using assms l ne C1 by (cases "mark_clocks H J listed (cs_rows C1, [])") (auto simp: prepare_work_clocks_def)
  let ?C2 = "C1\<lparr>cs_rows := rows, cs_uncommitted := cs_uncommitted C1 @ map (\<lambda>p. (p, ce_reading ev)) el\<rparr>"
  have "capture ev listed el (C1\<lparr>cs_rows := rows\<rparr>) = (found, C')"
    using assms l ne C1 m by (auto simp: prepare_work_clocks_def no_reading split: if_splits prod.splits)
  then have c: "flush_clock_observations (ce_commit ev) ?C2 = Some C'" "found = readings_of listed el (if ce_changed ev then None else ce_reading ev)"
    using assms(2) by (auto simp: capture_def Let_def no_reading split: option.splits)
  then have "p \<in> set el" "(if ce_changed ev then None else ce_reading ev) = Some r"
    using reading_of[of listed el "if ce_changed ev then None else ce_reading ev" p r] assms(2) by simp_all
  then have "p \<in> set el" "ce_reading ev = Some r" by (auto split: if_splits)
  then show ?thesis using that[OF c(1)] by auto
qed

section \<open>Floors\<close>

definition floors_ok :: "string \<Rightarrow> deadline_projection \<Rightarrow> clocks \<Rightarrow> bool" where
  "floors_ok p d C \<longleftrightarrow> (\<forall>row. cs_rows C p = Some row \<longrightarrow> ck_boot_id row = dp_boot_id d \<and> ck_clock row = dp_clock d)
     \<and> (\<forall>m. cs_marks C p = Some m \<longrightarrow> map_option floor_of (cs_rows C p) = Some m)"

lemma flush_le: "flush_clock_observations b C = Some C' \<Longrightarrow> rows_le (cs_rows C) (cs_rows C')"
  by (erule flush_cases) (auto simp: flush_rows_le)

lemma flush_floors:
  assumes ok: "floors_ok p d C" and f: "flush_clock_observations b C = Some C'"
  shows "floors_ok p d C'"
  using f
proof (cases rule: flush_cases)
  case idle
  then show ?thesis using ok by simp
next
  case (flushed rows)
  have boot: "ck_boot_id row' = dp_boot_id d \<and> ck_clock row' = dp_clock d" if row': "rows p = Some row'" for row'
  proof -
    obtain row where row: "cs_rows C p = Some row" using flush_rows_known[OF flushed(1), of p] row' by (cases "cs_rows C p") auto
    then have "row_le row row'" using flush_rows_le[OF flushed(1)] row' by (force simp: rows_le_def)
    then show ?thesis using ok row by (simp add: floors_ok_def row_le_def)
  qed
  moreover have "rows p = cs_rows C p" if "p \<notin> fst ` set (cs_uncommitted C)" by (rule flush_rows_other[OF flushed(1) that])
  ultimately show ?thesis using ok by (auto simp: floors_ok_def flushed(2))
qed

lemma mark_floors:
  assumes ok: "floors_ok p d C" and m: "mark_clocks H J listed (cs_rows C, []) = Inr (rows, el)"
    and d: "list_all (\<lambda>e. fst e = p \<longrightarrow> entry_projection (snd e) = Inr d) listed"
  shows "floors_ok p d (C\<lparr>cs_rows := rows, cs_uncommitted := us\<rparr>)"
proof -
  have "ck_boot_id row' = dp_boot_id d \<and> ck_clock row' = dp_clock d" if row': "rows p = Some row'" for row'
    using mark_clocks_row[OF m row']
  proof
    assume "\<exists>row. cs_rows C p = Some row \<and> floor_of row' = floor_of row"
    then show ?thesis using ok by (auto simp: floors_ok_def floor_of_def)
  next
    assume "cs_rows C p = None \<and> (\<exists>e d. (p, e) \<in> set listed \<and> entry_projection e = Inr d \<and> ck_boot_id row' = dp_boot_id d \<and> ck_clock row' = dp_clock d)"
    then obtain e d' where "(p, e) \<in> set listed" "entry_projection e = Inr d'" "ck_boot_id row' = dp_boot_id d'" "ck_clock row' = dp_clock d'"
      by blast
    then show ?thesis using d by (auto simp: list_all_iff)
  qed
  moreover have "map_option floor_of (rows p) = Some f" if f: "cs_marks C p = Some f" for f
  proof -
    obtain row where row: "cs_rows C p = Some row" "f = floor_of row" using ok f by (auto simp: floors_ok_def)
    then obtain row' where row': "rows p = Some row'" using mark_clocks_le[OF m] by (auto simp: rows_le_def)
    then show ?thesis using mark_clocks_row[OF m row'] row by auto
  qed
  ultimately show ?thesis by (simp add: floors_ok_def)
qed

lemma prepare_floors:
  assumes ok: "floors_ok p d C" and k: "keeps_projection p d (PrepareClocks J ev)" and prep: "prepare_work_clocks H J ev C = (res, C')"
  shows "floors_ok p d C'"
  by (rule prepare_keeps[OF prep, where Q = "floors_ok p d"]) (use ok k in \<open>auto intro: flush_floors mark_floors\<close>)

lemma prepare_le:
  assumes "prepare_work_clocks H J ev C = (res, C')"
  shows "rows_le (cs_rows C) (cs_rows C')"
  by (rule prepare_keeps[OF assms, where Q = "\<lambda>C'. rows_le (cs_rows C) (cs_rows C')"])
    (auto intro: rows_le_trans flush_le mark_clocks_le)

interpretation work_clocks: recording_machine "clock_step H" "keeps_projection p d" "\<lambda>C. C = no_clocks" "floors_ok p d"
  "\<lambda>C C'. rows_le (cs_rows C) (cs_rows C')" for H p d
proof
  show "C = no_clocks \<Longrightarrow> floors_ok p d C" for C by (simp add: floors_ok_def no_clocks_def)
  show "floors_ok p d C'" if "floors_ok p d C" "keeps_projection p d c" "clock_step H C c = Inr C'" for C c C'
  proof (cases c)
    case (PrepareClocks J ev)
    then show ?thesis using that prepare_floors[of p d C J ev H] by (metis clock_step.simps(1) Inr_inject prod.collapse)
  next
    case RestartClocks
    then show ?thesis using that by (auto simp: restarted_def floors_ok_def)
  qed
  show "rows_le (cs_rows C) (cs_rows C)" for C by simp
  show "rows_le (cs_rows C) (cs_rows C') \<Longrightarrow> rows_le (cs_rows C') (cs_rows C'') \<Longrightarrow> rows_le (cs_rows C) (cs_rows C'')" for C C' C''
    by (rule rows_le_trans)
  show "rows_le (cs_rows C) (cs_rows C')" if "clock_step H C c = Inr C'" for C c C'
  proof (cases c)
    case (PrepareClocks J ev)
    then show ?thesis using that prepare_le[of H J ev C] by (metis clock_step.simps(1) Inr_inject prod.collapse)
  next
    case RestartClocks
    then show ?thesis using that by (auto simp: restarted_def)
  qed
qed

section \<open>Decisions\<close>

lemma decision_Inr:
  assumes "work_decision_time H S (view_of found C p) p = Inr t" and "work_binding H S p = Inr (Some b)" and "entry_projection b = Inr d"
  obtains row r m where "cs_rows C p = Some row" "\<not> ck_pending row" "map_of found p = Some (Some r)" "verifiable d (Some r)"
    "cs_marks C p = Some m" "bc_wall m \<le> bc_wall r" "bc_boot_ns m \<le> bc_boot_ns r" "t = decision_time d (Some r)"
proof -
  obtain row where row: "cs_rows C p = Some row" "\<not> ck_pending row"
    using assms by (cases "cs_rows C p") (auto simp: work_decision_time_def view_of_def split: if_splits)
  obtain reading where reading: "map_of found p = Some reading"
    using assms row by (cases "map_of found p") (auto simp: work_decision_time_def view_of_def)
  have t: "verifiable d reading" "check_floor (cs_marks C p) reading = Inr ()" "t = decision_time d reading"
    using assms row reading by (auto simp: work_decision_time_def view_of_def rbind_eq_Inr guard_eq_Inr)
  then obtain r where r: "reading = Some r" by (cases reading) auto
  then obtain m where "cs_marks C p = Some m" "bc_wall m \<le> bc_wall r" "bc_boot_ns m \<le> bc_boot_ns r"
    using t(2) by (cases "cs_marks C p") (auto simp: check_floor_def guard_eq_Inr not_less)
  then show ?thesis using that row reading t r by simp
qed

text \<open>
  (C35) Decision times never go back. Two decisions about a program with one original projection, in this order,
  each on the clocks its transaction captured, with any preparations, failed commits, failing clocks and
  restarts of the process before, between and after them: the second is not taken at an earlier time.
\<close>

theorem decision_times_never_go_back:
  assumes "reaches (clock_step H) (keeps_projection p d) no_clocks C"
    and "keeps_projection p d (PrepareClocks J ev)" and "prepare_work_clocks H J ev C = (Inr found, C1)"
    and "work_binding H S p = Inr (Some b)" and "entry_projection b = Inr d"
    and "work_decision_time H S (view_of found C1 p) p = Inr t"
    and "reaches (clock_step H) (keeps_projection p d) C1 C2"
    and "keeps_projection p d (PrepareClocks J' ev')" and "prepare_work_clocks H J' ev' C2 = (Inr found', C3)"
    and "work_binding H S' p = Inr (Some b')" and "entry_projection b' = Inr d"
    and "work_decision_time H S' (view_of found' C3 p) p = Inr t'"
  shows "t \<le> t'"
proof -
  have ok: "floors_ok p d C" by (rule work_clocks.reachable_inv[OF refl assms(1)])
  note ok1 = prepare_floors[OF ok assms(2,3)]
  have ok2: "floors_ok p d C2" by (rule work_clocks.reaches_inv[OF assms(7) ok1])
  note ok3 = prepare_floors[OF ok2 assms(8,9)]
  from assms(6,4,5) obtain row r m where r: "cs_rows C1 p = Some row" "map_of found p = Some (Some r)" "verifiable d (Some r)"
      "t = decision_time d (Some r)" by (rule decision_Inr)
  from assms(12,10,11) obtain row' r' m' where r': "cs_rows C3 p = Some row'" "map_of found' p = Some (Some r')" "verifiable d (Some r')"
      "cs_marks C3 p = Some m'" "bc_wall m' \<le> bc_wall r'" "bc_boot_ns m' \<le> bc_boot_ns r'" "t' = decision_time d (Some r')"
    by (rule decision_Inr)
  from assms(3) r(2) obtain C0 where f: "flush_clock_observations (ce_commit ev) C0 = Some C1" "(p, Some r) \<in> set (cs_uncommitted C0)"
    by (rule prepare_reading)
  have same: "bc_boot_id r = dp_boot_id d" "bc_clock r = dp_clock d" "bc_boot_id r' = dp_boot_id d" "bc_clock r' = dp_clock d"
    using r(3) r'(3) by (simp_all add: verifiable_Some)
  from f(1) have high: "bc_wall r \<le> ck_wall row \<and> bc_boot_ns r \<le> ck_boot_ns row"
  proof (cases rule: flush_cases)
    case idle
    then show ?thesis using f(2) by simp
  next
    case (flushed rows)
    obtain old where old: "cs_rows C0 p = Some old"
      using flush_rows_known[OF flushed(1), of p] r(1) flushed(2) by (cases "cs_rows C0 p") auto
    then have "row_le old row" using flush_le[OF f(1)] r(1) by (force simp: rows_le_def)
    then have "bc_boot_id r = ck_boot_id old" "bc_clock r = ck_clock old"
      using ok1 r(1) same by (simp_all add: floors_ok_def row_le_def)
    from flush_rows_sample[OF flushed(1) f(2) old this] show ?thesis using r(1) flushed(2) by auto
  qed
  have "rows_le (cs_rows C1) (cs_rows C2)" by (rule work_clocks.reaches_extends[OF assms(7) ok1])
  then have "rows_le (cs_rows C1) (cs_rows C3)" using prepare_le[OF assms(9)] by (rule rows_le_trans)
  then have "row_le row row'" using r(1) r'(1) by (force simp: rows_le_def)
  moreover have "m' = floor_of row'" using ok3 r'(1,4) by (simp add: floors_ok_def)
  ultimately have "bc_wall r \<le> bc_wall r'" "bc_boot_ns r \<le> bc_boot_ns r'"
    using high r'(5,6) by (auto simp: row_le_def floor_of_def)
  then show ?thesis using decision_time_mono(2)[OF r(3), of r'] same r(4) r'(7) by simp
qed

definition lost :: "string \<Rightarrow> clocks \<Rightarrow> bool" where
  "lost p C \<longleftrightarrow> (\<exists>row. cs_rows C p = Some row \<and> ck_pending row) \<and> p \<notin> fst ` set (cs_uncommitted C)"

lemma flush_lost: "lost p C \<Longrightarrow> flush_clock_observations b C = Some C' \<Longrightarrow> lost p C'"
  by (erule flush_cases) (auto simp: lost_def dest: flush_rows_other)

lemma mark_lost:
  assumes "lost p C" and "mark_clocks H J listed (cs_rows C, []) = Inr (rows, el)" and "fst ` set us \<subseteq> set el"
  shows "lost p (C\<lparr>cs_rows := rows, cs_uncommitted := cs_uncommitted C @ us\<rparr>)"
proof -
  obtain row where row: "cs_rows C p = Some row" "ck_pending row" using assms(1) by (auto simp: lost_def)
  have "rows p = Some row" "p \<notin> set el" using mark_clocks_pending[OF assms(2) row] by simp_all
  then show ?thesis using assms(1,3) row(2) by (auto simp: lost_def)
qed

lemma lost_stays: "reaches (clock_step H) ok C C' \<Longrightarrow> lost p C \<Longrightarrow> lost p C'"
proof (induction rule: reaches.induct)
  case (reaches_step C' c C'')
  then have l: "lost p C'" by blast
  show ?case
  proof (cases c)
    case (PrepareClocks J ev)
    then obtain res where prep: "prepare_work_clocks H J ev C' = (res, C'')" using reaches_step(3) by (cases "prepare_work_clocks H J ev C'") auto
    show ?thesis by (rule prepare_keeps[OF prep, where Q = "lost p"]) (use l in \<open>auto intro: flush_lost mark_lost\<close>)
  next
    case RestartClocks
    then show ?thesis using l reaches_step(3) by (auto simp: restarted_def lost_def)
  qed
qed

text \<open>
  (C36) A lost sample is never replaced. When the process ends while a program is marked as being sampled, no
  later preparation, whatever its clock answers, gives a decision time for that program again, so nothing is
  authorized for it any more.
\<close>

theorem lost_samples_end_authority:
  assumes "cs_rows C p = Some row" and "ck_pending row" and "reaches (clock_step H) (\<lambda>_. True) (restarted C) C'"
  shows "work_decision_time H' S (view_of found C' p) p \<noteq> Inr t \<and> check_work_authority H' S (view_of found C' p) p \<noteq> Inr ()"
proof -
  have "lost p C'" by (rule lost_stays[OF assms(3)]) (simp add: lost_def restarted_def assms(1,2))
  then obtain row' where row': "cs_rows C' p = Some row'" "ck_pending row'" by (auto simp: lost_def)
  have refused: "work_decision_time H' S (view_of found C' p) p \<noteq> Inr t" for t
    using row' by (auto simp: work_decision_time_def view_of_def rbind_eq_Inr split: option.splits)
  moreover have "check_work_authority H' S (view_of found C' p) p \<noteq> Inr ()"
    using refused by (auto simp: check_work_authority_def rbind_eq_Inr split: option.splits)
  ultimately show ?thesis by blast
qed

end
