(* ===== verification/Work_Reservations.thy ===== *)
theory Work_Reservations
  imports Work_Ledger
begin

text \<open>
  The work budget of adapters/sqlite_store.py, second part: \<open>_reserve_work\<close> with its capacity checks on
  the program and on its project, the calls that reserve (an admission, a budgeted intent, a retry), the
  completion and settlement of reserved work, retained bytes, and \<open>_check_work_dispatch\<close>. What the workspace
  and ownership checks and the observed resource ceilings decide is an argument (\<open>work_guards\<close>).
\<close>

declare canon.simps(6) [simp del]

section \<open>Reservations\<close>

record reservation =
  rv_program :: string
  rv_project :: string
  rv_attempt :: string
  rv_operation :: string
  rv_category :: work_kind
  rv_retained :: int

definition reservation_fields :: "reservation \<Rightarrow> entries" where
  "reservation_fields r = [(''program'', JStr (rv_program r)), (''project'', JStr (rv_project r)), (''attempt'', JStr (rv_attempt r)),
     (''operation'', JStr (rv_operation r)), (''category'', JStr (work_kind_value (rv_category r))), (''retained_bytes'', JInt (rv_retained r))]"

definition reservation_fact :: "reservation \<Rightarrow> work_fact" where
  "reservation_fact r = (''reservation'', rv_operation r, reservation_fields r)"

definition read_reservation :: "entries \<Rightarrow> reservation sres" where
  "read_reservation e =
     rbind (entry_str e ''program'') (\<lambda>program_id. rbind (entry_str e ''project'') (\<lambda>project_id.
     rbind (entry_str e ''attempt'') (\<lambda>attempt_id. rbind (entry_str e ''operation'') (\<lambda>operation_id.
     rbind (entry_str e ''category'') (\<lambda>category. rbind (lift_budget (parse_work_kind category)) (\<lambda>kind.
     rbind (entry_int e ''retained_bytes'') (\<lambda>bytes.
     Inr \<lparr>rv_program = program_id, rv_project = project_id, rv_attempt = attempt_id, rv_operation = operation_id,
       rv_category = kind, rv_retained = bytes\<rparr>)))))))"

definition reservations :: "journal \<Rightarrow> reservation list sres" where
  "reservations J = rbind (work_records J ''reservation'') (mapM read_reservation)"

definition find_reservation :: "hash \<Rightarrow> journal \<Rightarrow> string \<Rightarrow> reservation option sres" where
  "find_reservation H J operation_id = rbind (work_record H J ''reservation'' operation_id) (\<lambda>e. case e of
     None \<Rightarrow> Inr None | Some found \<Rightarrow> rbind (read_reservation found) (\<lambda>r. Inr (Some r)))"

text \<open>
  Per attempt, whether it has a work claim; then the verdicts of \<open>_check_workspace_claims\<close>, of the checks of a
  claimed attempt, of \<open>_check_resource_headroom\<close>, of \<open>_check_report_revision\<close> and of the settlement of the
  workspace before a publication; whether the attempt has a physical workspace; and the clock.
\<close>

record work_guards =
  wg_claimed :: "string \<Rightarrow> string \<Rightarrow> bool"
  wg_workspace :: "unit sres"
  wg_claim :: "unit sres"
  wg_headroom :: "unit sres"
  wg_report :: "unit sres"
  wg_settled :: "unit sres"
  wg_physical :: bool
  wg_clock :: clock_view

section \<open>Capacity\<close>

text \<open>\<open>SUM(size)\<close> over the distinct digests and sizes of the artifacts of an operation.\<close>

definition artifact_bytes :: "journal \<Rightarrow> string \<Rightarrow> int" where
  "artifact_bytes J operation_id =
     sum_list (map snd (remdups (map (\<lambda>a. (ar_digest a, ar_size a)) (filter (\<lambda>a. ar_operation a = operation_id) (jn_artifacts J)))))"

definition retained_work_bytes :: "hash \<Rightarrow> journal \<Rightarrow> (string \<Rightarrow> string \<Rightarrow> bool) \<Rightarrow> reservation \<Rightarrow> int sres" where
  "retained_work_bytes H J claimed r =
     rbind (work_record H J ''retained'' (rv_operation r)) (\<lambda>final.
     rbind (case final of None \<Rightarrow> Inr (rv_retained r) | Some e \<Rightarrow> entry_int e ''bytes'') (\<lambda>held.
     Inr (if claimed (rv_program r) (rv_attempt r) then max held (artifact_bytes J (rv_operation r)) else held)))"

definition active_in :: "hash \<Rightarrow> journal \<Rightarrow> reservation \<Rightarrow> (string \<times> string) list sres" where
  "active_in H J r = (if rv_category r \<in> count_only_work then Inr []
     else rbind (work_record H J ''settlement'' (rv_operation r)) (\<lambda>settled.
       Inr (if settled = None then [(rv_program r, rv_attempt r)] else [])))"

definition active_work :: "hash \<Rightarrow> journal \<Rightarrow> reservation list \<Rightarrow> (string \<times> string) list sres" where
  "active_work H J scoped = rbind (mapM (active_in H J) scoped) (\<lambda>found. Inr (remdups (concat found)))"

definition kind_count :: "work_kind \<Rightarrow> reservation list \<Rightarrow> int" where
  "kind_count category scoped = int (length (filter (\<lambda>r. rv_category r = category) scoped))"

definition check_scope_capacity ::
    "hash \<Rightarrow> journal \<Rightarrow> (string \<Rightarrow> string \<Rightarrow> bool) \<Rightarrow> work_budget_policy \<Rightarrow> reservation list \<Rightarrow> reservation \<Rightarrow> unit sres" where
  "check_scope_capacity H J claimed policy scoped r = (case map_of (wb_counts policy) (rv_category r) of
     None \<Rightarrow> Inl StoreShapeError
   | Some limit \<Rightarrow>
       rbind (guard (\<not> limit \<le> kind_count (rv_category r) scoped) StoreBudgetRefused) (\<lambda>_.
       rbind (active_work H J scoped) (\<lambda>active.
       rbind (guard (\<not> ((rv_program r, rv_attempt r) \<notin> set active \<and> wb_max_active policy \<le> int (length active))) StoreBudgetRefused) (\<lambda>_.
       rbind (mapM (retained_work_bytes H J claimed) scoped) (\<lambda>held.
       guard (\<not> wb_retained_bytes policy < sum_list held + rv_retained r) StoreBudgetRefused)))))"

text \<open>Both scopes are decoded before the first is checked.\<close>

definition check_capacity :: "hash \<Rightarrow> store \<Rightarrow> work_guards \<Rightarrow> entries \<Rightarrow> reservation \<Rightarrow> unit sres" where
  "check_capacity H S g binding r =
     rbind (reservations (st_journal S)) (\<lambda>records.
     rbind (guard (\<not> (rv_category r = WorkAttempt \<and> list_ex (\<lambda>item. rv_program item = rv_program r \<and> rv_attempt item = rv_attempt r
       \<and> rv_category item = rv_category r) records)) StoreBudgetRefused) (\<lambda>_.
     rbind (work_record H (st_journal S) ''project'' (rv_project r)) (\<lambda>found. case found of
       None \<Rightarrow> Inl StoreBudgetRefused
     | Some project_record \<Rightarrow>
         rbind (entry_policy binding) (\<lambda>task_policy.
         rbind (entry_policy project_record) (\<lambda>project_policy.
         rbind (check_scope_capacity H (st_journal S) (wg_claimed g) task_policy
           (filter (\<lambda>item. rv_program item = rv_program r) records) r) (\<lambda>_.
         check_scope_capacity H (st_journal S) (wg_claimed g) project_policy
           (filter (\<lambda>item. rv_project item = rv_project r) records) r))))))"

text \<open>What \<open>_reserve_work\<close> writes: nothing when the same reservation is already recorded.\<close>

definition reservation_facts ::
    "hash \<Rightarrow> store \<Rightarrow> work_guards \<Rightarrow> string \<Rightarrow> string \<Rightarrow> string \<Rightarrow> work_kind \<Rightarrow> int \<Rightarrow> work_fact list sres" where
  "reservation_facts H S g program_id attempt_id operation_id category bytes =
     rbind (guard (\<not> bytes < 0) StoreValueError) (\<lambda>_.
     rbind (work_binding H S program_id) (\<lambda>b. case b of None \<Rightarrow> Inl StoreBudgetRefused | Some binding \<Rightarrow>
     rbind (entry_str binding ''project'') (\<lambda>project_id.
     let r = \<lparr>rv_program = program_id, rv_project = project_id, rv_attempt = attempt_id, rv_operation = operation_id,
       rv_category = category, rv_retained = bytes\<rparr> in
     rbind (work_record H (st_journal S) ''reservation'' operation_id) (\<lambda>prior.
     rbind (load_head H S program_id) (\<lambda>head.
     rbind (if list_ex (\<lambda>a. at_id a = attempt_id) (pg_attempts head) then wg_workspace g else Inr ()) (\<lambda>_.
     case prior of
       Some stored \<Rightarrow>
         rbind (guard (same_json (JObj stored) (JObj (work_fields (reservation_fact r)))) StoreBudgetRefused) (\<lambda>_. Inr [])
     | None \<Rightarrow>
         rbind (check_work_authority H S (wg_clock g) program_id) (\<lambda>_.
         rbind (if wg_claimed g program_id attempt_id then wg_claim g else Inr ()) (\<lambda>_.
         rbind (check_capacity H S g binding r) (\<lambda>_.
         rbind (wg_headroom g) (\<lambda>_. Inr [reservation_fact r]))))))))))"

definition reserve_work ::
    "hash \<Rightarrow> work_guards \<Rightarrow> string \<Rightarrow> string \<Rightarrow> string \<Rightarrow> work_kind \<Rightarrow> int \<Rightarrow> store \<Rightarrow> store sres" where
  "reserve_work H g program_id attempt_id operation_id category bytes S =
     rbind (reservation_facts H S g program_id attempt_id operation_id category bytes) (\<lambda>facts. write_facts H facts S)"

definition available_retained_bytes :: "hash \<Rightarrow> store \<Rightarrow> (string \<Rightarrow> string \<Rightarrow> bool) \<Rightarrow> string \<Rightarrow> int sres" where
  "available_retained_bytes H S claimed program_id =
     rbind (work_binding H S program_id) (\<lambda>b. case b of None \<Rightarrow> Inl StoreBudgetRefused | Some binding \<Rightarrow>
     rbind (entry_str binding ''project'') (\<lambda>project_id.
     rbind (work_record H (st_journal S) ''project'' project_id) (\<lambda>found. case found of None \<Rightarrow> Inl StoreBudgetRefused | Some project_record \<Rightarrow>
     rbind (reservations (st_journal S)) (\<lambda>records.
     rbind (entry_policy binding) (\<lambda>task_policy.
     rbind (entry_policy project_record) (\<lambda>project_policy.
     rbind (mapM (retained_work_bytes H (st_journal S) claimed) (filter (\<lambda>r. rv_program r = program_id) records)) (\<lambda>own.
     rbind (mapM (retained_work_bytes H (st_journal S) claimed) (filter (\<lambda>r. rv_project r = project_id) records)) (\<lambda>shared.
     Inr (max 0 (min (wb_retained_bytes task_policy - sum_list own) (wb_retained_bytes project_policy - sum_list shared)))))))))))"

definition work_program_for_attempt :: "hash \<Rightarrow> store \<Rightarrow> string \<Rightarrow> string sres" where
  "work_program_for_attempt H S attempt_id =
     rbind (reservations (st_journal S)) (\<lambda>records.
     case remdups (map rv_program (filter (\<lambda>r. rv_attempt r = attempt_id) records)) of
       [program_id] \<Rightarrow> rbind (load_head H S program_id) (\<lambda>head.
         rbind (guard (list_ex (\<lambda>a. at_id a = attempt_id) (pg_attempts head)) StoreBudgetRefused) (\<lambda>_. Inr program_id))
     | _ \<Rightarrow> Inl StoreBudgetRefused)"

text \<open>The next retry of an operation counts the retries already reserved.\<close>

definition retry_work :: "hash \<Rightarrow> work_guards \<Rightarrow> string \<Rightarrow> store \<Rightarrow> store sres" where
  "retry_work H g operation_id S =
     rbind (find_reservation H (st_journal S) operation_id) (\<lambda>found. case found of None \<Rightarrow> Inl StoreBudgetRefused | Some original \<Rightarrow>
     let start = ''work-retry:'' @ operation_id @ '':'' in
     rbind (reservations (st_journal S)) (\<lambda>records.
     reserve_work H g (rv_program original) (rv_attempt original)
       (start @ show_nat (length (filter (\<lambda>r. prefix start (rv_operation r)) records) + 1)) WorkRetry 0 S))"

section \<open>Completion and settlement\<close>

definition settlement_fact :: "string \<Rightarrow> string \<Rightarrow> work_fact" where
  "settlement_fact operation_id evidence =
     (''settlement'', operation_id, [(''operation'', JStr operation_id), (''evidence'', JStr evidence)])"

definition settle_facts :: "hash \<Rightarrow> journal \<Rightarrow> string \<Rightarrow> string \<Rightarrow> work_fact list sres" where
  "settle_facts H J operation_id evidence = rbind (work_record H J ''settlement'' operation_id) (\<lambda>settled.
     Inr (if settled = None then [settlement_fact operation_id evidence] else []))"

record settled_effect =
  se_attempt :: "attempt_spec option"
  se_operation :: "operation_row option"

definition settled_effect_of :: "hash \<Rightarrow> store \<Rightarrow> reservation \<Rightarrow> settled_effect sres" where
  "settled_effect_of H S r =
     rbind (load_head H S (rv_program r)) (\<lambda>head.
     rbind (case operation (st_journal S) (rv_operation r) of
         Inr (row, _) \<Rightarrow> Inr (Some row)
       | Inl e \<Rightarrow> if e = OperationConflict then Inr None else Inl e) (\<lambda>row.
     Inr \<lparr>se_attempt = map_option at_spec (List.find (\<lambda>a. at_id a = rv_attempt r) (pg_attempts head)), se_operation = row\<rparr>))"

definition or_null :: "('a \<Rightarrow> json) \<Rightarrow> 'a option \<Rightarrow> json" where
  "or_null f v = (case v of None \<Rightarrow> JNull | Some x \<Rightarrow> f x)"

definition settlement_subject :: "hash \<Rightarrow> reservation \<Rightarrow> settled_effect \<Rightarrow> entries" where
  "settlement_subject H r e =
     [(''operation'', JStr (rv_operation r)), (''program'', JStr (rv_program r)), (''attempt'', JStr (rv_attempt r)),
      (''category'', JStr (work_kind_value (rv_category r))),
      (''attempt_digest'', or_null (\<lambda>a. JStr (attempt_digest H a)) (se_attempt e)),
      (''workspace_reference'', or_null (\<lambda>a. JOptStr (as_workspace_reference a)) (se_attempt e)),
      (''effect_key'', or_null (\<lambda>row. JStr (op_effect_key row)) (se_operation e)),
      (''request_digest'', or_null (\<lambda>row. JStr (op_request_digest row)) (se_operation e)),
      (''fence'', or_null (\<lambda>row. JInt (op_fence row)) (se_operation e))]"

definition settlement_identity :: "reservation \<Rightarrow> settled_effect \<Rightarrow> string \<Rightarrow> string" where
  "settlement_identity r e basis = canonical_json (JList [JStr (rv_operation r), JStr basis,
     or_null (\<lambda>row. JStr (op_request_digest row)) (se_operation e), or_null (\<lambda>row. JInt (op_fence row)) (se_operation e)])"

definition basis_facts :: "hash \<Rightarrow> store \<Rightarrow> reservation \<Rightarrow> string \<Rightarrow> string \<Rightarrow> work_fact list sres" where
  "basis_facts H S r evidence basis =
     rbind (guard (rv_category r \<notin> count_only_work) StoreBudgetRefused) (\<lambda>_.
     rbind (settled_effect_of H S r) (\<lambda>e.
     let identity = settlement_identity r e basis in
     rbind (work_record H (st_journal S) ''ownership-settlement'' identity) (\<lambda>found.
     Inr (if found = None then [(''ownership-settlement'', identity,
       settlement_subject H r e @ [(''basis'', JStr basis), (''evidence'', JStr evidence)])] else []))))"

definition completion_facts :: "hash \<Rightarrow> store \<Rightarrow> reservation \<Rightarrow> string \<Rightarrow> work_fact list sres" where
  "completion_facts H S r evidence =
     rbind (settle_facts H (st_journal S) (rv_operation r) evidence) (\<lambda>settled.
     rbind (write_facts H settled S) (\<lambda>S1.
     rbind (basis_facts H S1 r evidence ''logical-completion'') (\<lambda>based. Inr (settled @ based))))"

definition record_work_completion :: "hash \<Rightarrow> string \<Rightarrow> string \<Rightarrow> store \<Rightarrow> store sres" where
  "record_work_completion H operation_id evidence S =
     rbind (guard (nonblank evidence) StoreValueError) (\<lambda>_.
     rbind (find_reservation H (st_journal S) operation_id) (\<lambda>found. case found of None \<Rightarrow> Inl StoreBudgetRefused | Some r \<Rightarrow>
     rbind (completion_facts H S r evidence) (\<lambda>facts. write_facts H facts S)))"

definition record_work_settlement :: "hash \<Rightarrow> work_guards \<Rightarrow> string \<Rightarrow> string \<Rightarrow> int option \<Rightarrow> store \<Rightarrow> store sres" where
  "record_work_settlement H g operation_id evidence expected_fence S =
     rbind (guard (nonblank evidence) StoreValueError) (\<lambda>_.
     rbind (guard (case expected_fence of None \<Rightarrow> True | Some n \<Rightarrow> \<not> n < 0) StoreOwnershipConflict) (\<lambda>_.
     rbind (find_reservation H (st_journal S) operation_id) (\<lambda>found. case found of None \<Rightarrow> Inl StoreBudgetRefused | Some r \<Rightarrow>
     rbind (if wg_claimed g (rv_program r) (rv_attempt r) then wg_claim g else Inr ()) (\<lambda>_.
     rbind (settled_effect_of H S r) (\<lambda>e.
     rbind (guard (case expected_fence of None \<Rightarrow> True | Some n \<Rightarrow> map_option op_fence (se_operation e) = Some n) StoreOwnershipConflict) (\<lambda>_.
     rbind (basis_facts H S r evidence ''trusted-profile'') (\<lambda>based.
     rbind (write_facts H based S) (\<lambda>S1.
     rbind (settle_facts H (st_journal S1) operation_id evidence) (\<lambda>settled. write_facts H settled S1)))))))))"

definition record_retained_bytes :: "hash \<Rightarrow> string \<Rightarrow> int \<Rightarrow> store \<Rightarrow> store sres" where
  "record_retained_bytes H operation_id bytes S =
     rbind (find_reservation H (st_journal S) operation_id) (\<lambda>found.
     rbind (guard (\<not> (case found of None \<Rightarrow> True | Some r \<Rightarrow> \<not> (0 \<le> bytes \<and> bytes \<le> rv_retained r))) StoreBudgetRefused) (\<lambda>_.
     write_facts H [(''retained'', operation_id, [(''operation'', JStr operation_id), (''bytes'', JInt bytes)])] S))"

section \<open>Dispatch\<close>

definition dispatch_fields :: "hash \<Rightarrow> string \<Rightarrow> string \<Rightarrow> attempt_spec \<Rightarrow> operation_row \<Rightarrow> entries" where
  "dispatch_fields H program_id attempt_id a row =
     [(''program'', JStr program_id), (''attempt'', JStr attempt_id), (''attempt_digest'', JStr (attempt_digest H a)),
      (''spec_digest'', JStr (as_spec_digest a)), (''spec_revision'', JInt (as_spec_revision a)), (''operation'', JStr (op_id row)),
      (''effect_key'', JStr (op_effect_key row)), (''request_digest'', JStr (op_request_digest row))]"

definition bind_work_dispatch :: "hash \<Rightarrow> string \<Rightarrow> string \<Rightarrow> string \<Rightarrow> store \<Rightarrow> store sres" where
  "bind_work_dispatch H program_id attempt_id operation_id S =
     rbind (load_head H S program_id) (\<lambda>head.
     rbind (lift_refusal (program_attempt head attempt_id)) (\<lambda>a.
     rbind (operation (st_journal S) operation_id) (\<lambda>(row, _).
     write_facts H [(''dispatch-binding'', operation_id, dispatch_fields H program_id attempt_id (at_spec a) row)] S)))"

text \<open>Without a dispatch binding, the typed request itself must name the attempt.\<close>

definition typed_request :: "entries \<Rightarrow> reservation \<Rightarrow> string \<Rightarrow> string \<Rightarrow> bool" where
  "typed_request request r digest spec_dg \<longleftrightarrow>
     (rv_category r = WorkAttempt \<and> map_of request ''attempt'' = Some (JStr digest))
     \<or> (case map_of request ''subject'' of
          Some (JObj named) \<Rightarrow> map_of named ''attempt_digest'' = Some (JStr digest) \<and> map_of named ''spec_digest'' = Some (JStr spec_dg)
        | _ \<Rightarrow> False)"

definition dispatch_permitted :: "program \<Rightarrow> reservation \<Rightarrow> attempt \<Rightarrow> work_unit_state \<Rightarrow> bool" where
  "dispatch_permitted p r a state = (case rv_category r of
     WorkAttempt \<Rightarrow> pg_status p = ProgramActive \<and> at_status a \<in> {AttemptPrepared, AttemptExecuting}
       \<and> us_status state = UnitActive \<and> us_active_attempt_id state = Some (rv_attempt r)
   | WorkAuxiliary \<Rightarrow> pg_status p \<in> {ProgramActive, ProgramCompleted} \<and> at_status a = AttemptFinished \<and> us_status state = UnitSatisfied
       \<and> list_ex (\<lambda>t. Some (ts_reference_id t) = us_satisfaction_id state \<and> ts_source_attempt_id t = rv_attempt r) (pg_satisfactions p)
   | _ \<Rightarrow> pg_status p = ProgramActive \<and> at_status a = AttemptFinished \<and> us_status state = UnitReady
       \<and> (case List.find (\<lambda>x. as_work_unit_id (at_spec x) = as_work_unit_id (at_spec a)) (rev (pg_attempts p)) of
            None \<Rightarrow> False | Some newest \<Rightarrow> at_id newest = rv_attempt r))"

definition trusted_settlement :: "journal \<Rightarrow> string \<Rightarrow> bool sres" where
  "trusted_settlement J operation_id =
     rbind (work_records J ''ownership-settlement'') (\<lambda>records.
     rbind (mapM (\<lambda>e. rbind (entry e ''operation'') (\<lambda>i. rbind (entry e ''basis'') (\<lambda>basis.
       Inr (i = JStr operation_id \<and> basis = JStr ''trusted-profile'')))) records) (\<lambda>found. Inr (True \<in> set found)))"

definition check_dispatch_binding :: "hash \<Rightarrow> journal \<Rightarrow> reservation \<Rightarrow> string \<Rightarrow> attempt_spec \<Rightarrow> string \<Rightarrow> operation_row \<Rightarrow> unit sres" where
  "check_dispatch_binding H J r operation_id a spec_dg row =
     rbind (work_record H J ''dispatch-binding'' operation_id) (\<lambda>found. case found of
       None \<Rightarrow> rbind (request_of row) (\<lambda>request. guard (typed_request request r (attempt_digest H a) spec_dg) StoreBudgetRefused)
     | Some stored \<Rightarrow> guard (same_json (JObj stored) (JObj (work_fields (''dispatch-binding'', operation_id,
         dispatch_fields H (rv_program r) (rv_attempt r) a row)))) StoreBudgetRefused)"

definition check_work_dispatch :: "hash \<Rightarrow> work_guards \<Rightarrow> string \<Rightarrow> store \<Rightarrow> unit sres" where
  "check_work_dispatch H g operation_id S =
     rbind (find_reservation H (st_journal S) operation_id) (\<lambda>found. case found of None \<Rightarrow> Inl StoreBudgetRefused | Some r \<Rightarrow>
     rbind (wg_report g) (\<lambda>_.
     rbind (check_work_authority H S (wg_clock g) (rv_program r)) (\<lambda>_.
     rbind (load_head H S (rv_program r)) (\<lambda>p.
     case program_attempt p (rv_attempt r) of Inl _ \<Rightarrow> Inl StoreBudgetRefused | Inr a \<Rightarrow>
     rbind (wg_workspace g) (\<lambda>_.
     rbind (trusted_settlement (st_journal S) operation_id) (\<lambda>closed.
     rbind (guard (\<not> closed) StoreOwnershipConflict) (\<lambda>_.
     rbind (guard ((as_spec_revision (at_spec a), as_spec_digest (at_spec a)) = (ps_revision (pg_spec p), spec_digest H (pg_spec p)))
       StoreBudgetRefused) (\<lambda>_.
     rbind (operation (st_journal S) operation_id) (\<lambda>(row, _).
     rbind (check_dispatch_binding H (st_journal S) r operation_id (at_spec a) (spec_digest H (pg_spec p)) row) (\<lambda>_.
     rbind (lift_refusal (program_state p (as_work_unit_id (at_spec a)))) (\<lambda>state.
     rbind (if wg_claimed g (rv_program r) (rv_attempt r) then wg_claim g
       else if rv_category r = WorkAuxiliary then wg_settled g else Inr ()) (\<lambda>_.
     rbind (request_of row) (\<lambda>request.
     rbind (guard (\<not> (rv_category r = WorkAttempt \<and> map_of request ''attempt'' \<noteq> Some (JStr (attempt_digest H (at_spec a)))))
       StoreBudgetRefused) (\<lambda>_.
     rbind (guard (dispatch_permitted p r a state) StoreBudgetRefused) (\<lambda>_.
     wg_headroom g)))))))))))))))"

section \<open>The calls that reserve\<close>

definition budgeted_intent ::
    "hash \<Rightarrow> work_guards \<Rightarrow> string \<Rightarrow> string \<Rightarrow> work_kind \<Rightarrow> string \<Rightarrow> string \<Rightarrow> entries \<Rightarrow> int \<Rightarrow> store \<Rightarrow> store sres" where
  "budgeted_intent H g program_id attempt_id category operation_id effect_key request bytes S =
     rbind (wg_report g) (\<lambda>_.
     rbind (work_record H (st_journal S) ''reservation'' operation_id) (\<lambda>existed.
     let fresh = (existed = None \<or> find_row (st_journal S) operation_id = None) in
     rbind (reserve_work H g program_id attempt_id operation_id category bytes S) (\<lambda>S1.
     rbind (insert_intent H True operation_id effect_key request (st_journal S1)) (\<lambda>J.
     let S2 = S1\<lparr>st_journal := J\<rparr> in
     rbind (if fresh then bind_work_dispatch H program_id attempt_id operation_id S2 else Inr S2) (\<lambda>S3.
     rbind (if fresh \<and> category = WorkAuxiliary \<and> wg_physical g then check_work_dispatch H g operation_id S3 else Inr ()) (\<lambda>_.
     Inr S3))))))"

text \<open>
  What \<open>_admit_decision\<close> writes for a bound program: the completion of the accepted attempt, or the
  reservations of a prepared one. A second reservation sees the first.
\<close>

definition admission_budget ::
    "hash \<Rightarrow> store \<Rightarrow> work_guards \<Rightarrow> string \<Rightarrow> domain_command \<Rightarrow> effect_intent option \<Rightarrow> int \<Rightarrow> work_fact list sres" where
  "admission_budget H S g program_id c effect bytes = (case c of
     SatisfyWorkUnit _ _ sat \<Rightarrow>
       rbind (check_work_authority H S (wg_clock g) program_id) (\<lambda>_.
       rbind (reservations (st_journal S)) (\<lambda>records.
       case filter (\<lambda>r. rv_program r = program_id \<and> rv_attempt r = ts_source_attempt_id sat \<and> rv_category r = WorkAttempt) records of
         [r] \<Rightarrow> completion_facts H S r (ts_reference_id sat)
       | _ \<Rightarrow> Inl StoreBudgetRefused))
   | PrepareAttempt _ _ a \<Rightarrow>
       rbind (if as_remediation_of a = None then Inr []
         else reservation_facts H S g program_id (as_attempt_id a) (''remediation:'' @ as_attempt_id a) WorkRemediation 0) (\<lambda>first.
       rbind (write_facts H first S) (\<lambda>S1.
       rbind (reservation_facts H S1 g program_id (as_attempt_id a)
         (case effect of None \<Rightarrow> ''runtime:'' @ as_attempt_id a | Some (operation_id, _) \<Rightarrow> operation_id) WorkAttempt bytes) (\<lambda>second.
       Inr (first @ second))))
   | _ \<Rightarrow> Inr [])"

definition budgeted_admit ::
    "hash \<Rightarrow> work_guards \<Rightarrow> verdicts \<Rightarrow> string \<Rightarrow> string \<Rightarrow> domain_command \<Rightarrow> effect_intent option \<Rightarrow> int \<Rightarrow> store \<Rightarrow>
     (program \<times> store) sres" where
  "budgeted_admit H g vd program_id command_key c effect bytes S =
     admit H (vd\<lparr>vd_budget := admission_budget H S g program_id c effect bytes\<rparr>) program_id command_key c effect S"

text \<open>
  The reserved branch of \<open>_claim_operation\<close>: an owned operation is decided at the clock of its program, and a
  repeated delivery reserves a retry under the next fence.
\<close>

definition delivery_grant :: "hash \<Rightarrow> work_guards \<Rightarrow> bool \<Rightarrow> string \<Rightarrow> int \<Rightarrow> store \<Rightarrow> grant" where
  "delivery_grant H g owned operation_id now S =
     rbind (find_reservation H (st_journal S) operation_id) (\<lambda>found. case found of None \<Rightarrow> Inl StoreBudgetRefused | Some r \<Rightarrow>
     rbind (wg_report g) (\<lambda>_.
     let claimed = wg_claimed g (rv_program r) (rv_attempt r) in
     rbind (guard (\<not> (claimed \<and> \<not> owned)) StoreOwnershipConflict) (\<lambda>_.
     rbind (if claimed \<or> owned then wg_claim g else Inr ()) (\<lambda>_.
     rbind (if claimed then work_decision_time H S (wg_clock g) (rv_program r) else Inr now) (\<lambda>time.
     rbind (check_work_dispatch H g operation_id S) (\<lambda>_.
     rbind (operation (st_journal S) operation_id) (\<lambda>(row, attempts).
     rbind (if attempts = 0 then Inr []
       else reservation_facts H S g (rv_program r) (rv_attempt r)
         (''retry:'' @ operation_id @ '':'' @ show_int (op_fence row + 1)) WorkRetry 0) (\<lambda>facts.
     Inr (time, facts)))))))))"

definition budgeted_claim :: "hash \<Rightarrow> work_guards \<Rightarrow> bool \<Rightarrow> string \<Rightarrow> int \<Rightarrow> int \<Rightarrow> store \<Rightarrow> (int \<times> store) sres" where
  "budgeted_claim H g owned operation_id now lease_seconds S =
     rbind (claim_operation H (delivery_grant H g owned operation_id now S) owned operation_id now lease_seconds (st_journal S)) (\<lambda>(fence, J).
     Inr (fence, S\<lparr>st_journal := J\<rparr>))"

end
