(* ===== verification/Ledger_Books.thy ===== *)
theory Ledger_Books
  imports Work_Reservations Store_Theorems
begin

text \<open>
  What the budget records of a journal amount to. The lookups of the ledger depend only on the identities
  and requests of the operations, which no call rewrites (\<open>requests\<close>); \<open>books\<close> is the invariant of these
  pairs: every reservation and retained-bytes record is one the store wrote, and no project exceeds its
  stored policy. Each kind of record preserves it under the condition its writer checks.
\<close>

declare canon.simps(6) [simp del]

section \<open>Requests\<close>

definition requests :: "journal \<Rightarrow> (string \<times> string) list" where
  "requests J = map (\<lambda>row. (op_id row, op_request_json row)) (jn_operations J)"

definition request_in :: "string \<Rightarrow> entries sres" where
  "request_in raw = (case loads raw of
     Some (JObj envelope) \<Rightarrow> (case map_of envelope ''request'' of Some (JObj request) \<Rightarrow> Inr request | _ \<Rightarrow> Inl StoreValueError)
   | _ \<Rightarrow> Inl StoreValueError)"

definition look :: "hash \<Rightarrow> (string \<times> string) list \<Rightarrow> string \<Rightarrow> string \<Rightarrow> entries option sres" where
  "look H L record_type identity = (case map_of L (work_key H record_type identity) of
     None \<Rightarrow> Inr None | Some raw \<Rightarrow> rbind (request_in raw) (\<lambda>r. Inr (Some r)))"

lemma request_of_in: "request_of row = request_in (op_request_json row)"
  by (simp add: request_of_def request_in_def)

lemma map_of_requests: "map_of (requests J) i = map_option op_request_json (find_row J i)"
proof -
  have "map_of (map (\<lambda>row. (op_id row, op_request_json row)) rows) i
      = map_option op_request_json (List.find (\<lambda>row. op_id row = i) rows)" for rows
    by (induction rows) auto
  then show ?thesis by (simp add: requests_def find_row_def)
qed

lemma work_record_look: "work_record H J t i = look H (requests J) t i"
  by (simp add: work_record_def look_def map_of_requests request_of_in split: option.split)

lemma request_in_envelope:
  assumes "unique_keys (JObj fs)"
  shows "request_in (request_envelope fs) = Inr (canon_fields fs)"
proof -
  have "map_of (canon_fields [(''version'', JInt 1), (''request'', JObj fs)]) ''request'' = Some (JObj (canon_fields fs))"
    by (simp add: map_of_canon_fields canon_JObj)
  then show ?thesis by (simp add: request_in_def envelope_loads[OF assms])
qed

lemma requests_update [simp]:
  assumes "\<And>row. op_id (f row) = op_id row" and "\<And>row. op_request_json (f row) = op_request_json row"
  shows "requests (J\<lparr>jn_operations := update_operation i f rows\<rparr>) = requests (J\<lparr>jn_operations := rows\<rparr>)"
  using assms by (simp add: requests_def update_operation_def)

section \<open>Keys\<close>

lemma append_sep_inject:
  assumes "x \<notin> set s" and "x \<notin> set t"
  shows "s @ x # u = t @ x # v \<longleftrightarrow> s = t \<and> u = v"
  using assms
proof (induction s arbitrary: t)
  case Nil
  then show ?case by (cases t) auto
next
  case (Cons a s)
  then show ?case by (cases t) auto
qed

definition plain_type :: "string \<Rightarrow> bool" where
  "plain_type t \<longleftrightarrow> CHR '':'' \<notin> set t"

lemma work_key_eq:
  assumes "plain_type t" and "plain_type t'"
  shows "work_key H t i = work_key H t' i' \<longleftrightarrow> t = t' \<and> H i = H i'"
  using append_sep_inject[of "CHR '':''" t t' "H i" "H i'"] assms by (simp add: work_key_def plain_type_def)

lemma prefix_work_key:
  assumes "plain_type t" and "plain_type t'"
  shows "prefix (work_prefix t) (work_key H t' i) \<longleftrightarrow> t = t'"
proof -
  have "prefix (work_prefix t) (work_key H t' i) \<longleftrightarrow> (\<exists>u. t' @ CHR '':'' # H i = t @ CHR '':'' # u)"
    by (auto simp: work_prefix_def work_key_def prefix_def)
  also have "\<dots> \<longleftrightarrow> t = t'" using append_sep_inject[of "CHR '':''" t' t "H i"] assms by (auto simp: plain_type_def)
  finally show ?thesis .
qed

lemma plain_types [simp]: "plain_type ''reservation''" "plain_type ''project''" "plain_type ''settlement''" "plain_type ''retained''"
  "plain_type ''binding''" "plain_type ''binding-revision''" "plain_type ''revoked''" "plain_type ''dispatch-binding''"
  "plain_type ''ownership-settlement''" "plain_type ''ownership-workspace''" "plain_type ''unbound-attempt''" "plain_type ''clock-origin''"
  by (simp_all add: plain_type_def)

definition foreign :: "string \<Rightarrow> bool" where
  "foreign i \<longleftrightarrow> \<not> prefix ''work-budget:v1:'' i"

lemma foreign_no_key: "foreign i \<Longrightarrow> i \<noteq> work_key H t x" "foreign i \<Longrightarrow> \<not> prefix (work_prefix t) i"
  by (auto simp: foreign_def work_key_def work_prefix_def prefix_def)

section \<open>Bookings\<close>

lemma unique_work_fields: "distinct (map fst fs) \<Longrightarrow> \<forall>kv \<in> set fs. unique_keys (snd kv) \<Longrightarrow> ''kind'' \<notin> fst ` set fs \<Longrightarrow>
    ''type'' \<notin> fst ` set fs \<Longrightarrow> unique_keys (JObj (work_fields (t, i, fs)))"
  by (simp add: work_fields_def unique_keys_JObj)

lemma unique_reservation: "unique_keys (JObj (work_fields (reservation_fact r)))"
  unfolding reservation_fact_def by (rule unique_work_fields) (simp_all add: reservation_fields_def)

lemma map_of_work_fields:
  assumes "unique_keys (JObj (work_fields (t, i, fs)))" and "k \<noteq> ''kind''" and "k \<noteq> ''type''"
  shows "map_of (canon_fields (work_fields (t, i, fs))) k = map_option canon (map_of fs k)"
proof -
  have "distinct (map fst (work_fields (t, i, fs)))" using assms(1) by (simp add: unique_keys_JObj)
  then show ?thesis using assms(2,3) by (simp add: map_of_canon_fields) (simp add: work_fields_def)
qed

lemma read_own_reservation: "read_reservation (canon_fields (work_fields (reservation_fact r))) = Inr r"
proof -
  note look = map_of_work_fields[OF unique_reservation[unfolded reservation_fact_def]]
  show ?thesis
    by (simp add: reservation_fact_def read_reservation_def entry_str_def entry_int_def look)
      (simp add: reservation_fields_def lift_budget_def)
qed

definition booking :: "string \<times> string \<Rightarrow> reservation" where
  "booking e = projr (rbind (request_in (snd e)) read_reservation)"

definition bookings :: "(string \<times> string) list \<Rightarrow> reservation list" where
  "bookings L = map booking (filter (\<lambda>e. prefix (work_prefix ''reservation'') (fst e)) L)"

definition retained_fields :: "string \<Rightarrow> int \<Rightarrow> entries" where
  "retained_fields operation_id bytes = [(''operation'', JStr operation_id), (''bytes'', JInt bytes)]"

definition active_pairs :: "hash \<Rightarrow> (string \<times> string) list \<Rightarrow> reservation list \<Rightarrow> (string \<times> string) set" where
  "active_pairs H L rs = (\<lambda>r. (rv_program r, rv_attempt r)) `
     {r \<in> set rs. rv_category r \<notin> count_only_work \<and> look H L ''settlement'' (rv_operation r) = Inr None}"

definition held :: "hash \<Rightarrow> (string \<times> string) list \<Rightarrow> reservation \<Rightarrow> int" where
  "held H L r = (case look H L ''retained'' (rv_operation r) of
     Inr (Some e) \<Rightarrow> (case entry_int e ''bytes'' of Inr b \<Rightarrow> b | Inl _ \<Rightarrow> rv_retained r)
   | _ \<Rightarrow> rv_retained r)"

definition within :: "hash \<Rightarrow> (string \<times> string) list \<Rightarrow> work_budget_policy \<Rightarrow> reservation list \<Rightarrow> bool" where
  "within H L policy rs \<longleftrightarrow> (\<forall>k limit. map_of (wb_counts policy) k = Some limit \<longrightarrow> kind_count k rs \<le> limit)
     \<and> int (card (active_pairs H L rs)) \<le> wb_max_active policy
     \<and> sum_list (map (held H L) rs) \<le> wb_retained_bytes policy"

definition in_project :: "string \<Rightarrow> reservation list \<Rightarrow> reservation list" where
  "in_project q rs = filter (\<lambda>r. rv_project r = q) rs"

definition reservation_entry :: "hash \<Rightarrow> (string \<times> string) list \<Rightarrow> string \<times> string \<Rightarrow> bool" where
  "reservation_entry H L e \<longleftrightarrow> (\<exists>r. e = (work_key H ''reservation'' (rv_operation r), request_envelope (work_fields (reservation_fact r)))
     \<and> work_key H ''project'' (rv_project r) \<in> fst ` set L)"

definition retained_entry :: "hash \<Rightarrow> (string \<times> string) list \<Rightarrow> string \<times> string \<Rightarrow> bool" where
  "retained_entry H L e \<longleftrightarrow> (\<exists>i b. e = (work_key H ''retained'' i, request_envelope (work_fields (''retained'', i, retained_fields i b)))
     \<and> work_key H ''reservation'' i \<in> fst ` set L)"

definition canonical_text :: "string \<Rightarrow> bool" where
  "canonical_text raw \<longleftrightarrow> (\<exists>fs. unique_keys (JObj fs) \<and> raw = request_envelope fs)"

text \<open>One capacity reservation per attempt.\<close>

definition exclusive :: "reservation list \<Rightarrow> bool" where
  "exclusive rs \<longleftrightarrow> (\<forall>r \<in> set rs. \<forall>r' \<in> set rs. rv_category r = WorkAttempt \<and> rv_category r' = WorkAttempt
     \<and> rv_program r = rv_program r' \<and> rv_attempt r = rv_attempt r' \<longrightarrow> r = r')"

definition books :: "hash \<Rightarrow> (string \<times> string) list \<Rightarrow> bool" where
  "books H L \<longleftrightarrow> distinct (map fst L) \<and> (\<forall>e \<in> set L. canonical_text (snd e)) \<and> exclusive (bookings L)
     \<and> (\<forall>e \<in> set L. prefix (work_prefix ''reservation'') (fst e) \<longrightarrow> reservation_entry H L e)
     \<and> (\<forall>e \<in> set L. prefix (work_prefix ''retained'') (fst e) \<longrightarrow> retained_entry H L e)
     \<and> (\<forall>q e policy. look H L ''project'' q = Inr (Some e) \<longrightarrow> entry_policy e = Inr policy \<longrightarrow>
          within H L policy (in_project q (bookings L)))"

lemma booking_entry [simp]: "booking (i, request_envelope (work_fields (reservation_fact r))) = r"
  by (simp add: booking_def request_in_envelope[OF unique_reservation] read_own_reservation)

lemma booked_key:
  assumes "books H L" and "r \<in> set (bookings L)"
  shows "work_key H ''reservation'' (rv_operation r) \<in> fst ` set L" and "work_key H ''project'' (rv_project r) \<in> fst ` set L"
proof -
  obtain e where e: "e \<in> set L" "prefix (work_prefix ''reservation'') (fst e)" "r = booking e"
    using assms(2) by (auto simp: bookings_def)
  have "reservation_entry H L e" using assms(1) e(1,2) unfolding books_def by blast
  then obtain r' where "e = (work_key H ''reservation'' (rv_operation r'), request_envelope (work_fields (reservation_fact r')))"
      "work_key H ''project'' (rv_project r') \<in> fst ` set L"
    unfolding reservation_entry_def by blast
  then show "work_key H ''reservation'' (rv_operation r) \<in> fst ` set L" "work_key H ''project'' (rv_project r) \<in> fst ` set L"
    using e by (force, simp)
qed

section \<open>Posting a record\<close>

lemma work_key_prefix: "prefix (work_prefix t) (work_key H t x)"
  by (simp add: work_prefix_def work_key_def)

lemma look_old: "work_key H t x \<noteq> i \<Longrightarrow> look H (L @ [(i, raw)]) t x = look H L t x"
  by (cases "map_of L (work_key H t x)") (auto simp: look_def map_add_def)

lemma look_other: "\<not> prefix (work_prefix t) i \<Longrightarrow> look H (L @ [(i, raw)]) t x = look H L t x"
  using work_key_prefix[of t H x] by (intro look_old) auto

lemma look_none: "work_key H t x \<notin> fst ` set L \<Longrightarrow> look H L t x = Inr None"
  by (auto simp: look_def map_of_eq_None_iff[symmetric])

lemma look_kept: "look H L t x = Inr (Some e) \<Longrightarrow> look H (L @ N) t x = Inr (Some e)"
  by (auto simp: look_def map_add_def split: option.splits)

lemma look_posted: "i \<notin> fst ` set L \<Longrightarrow> work_key H t x = i \<Longrightarrow> look H (L @ [(i, raw)]) t x = rbind (request_in raw) (\<lambda>r. Inr (Some r))"
  by (auto simp: look_def map_add_def map_of_eq_None_iff[symmetric])

lemma bookings_other: "\<not> prefix (work_prefix ''reservation'') i \<Longrightarrow> bookings (L @ [(i, raw)]) = bookings L"
  by (simp add: bookings_def)

lemma within_mono:
  assumes "within H L policy rs"
    and "\<And>r. r \<in> set rs \<Longrightarrow> look H L' ''settlement'' (rv_operation r) = Inr None \<Longrightarrow> look H L ''settlement'' (rv_operation r) = Inr None"
    and "\<And>r. r \<in> set rs \<Longrightarrow> held H L' r \<le> held H L r"
  shows "within H L' policy rs"
proof -
  have "active_pairs H L' rs \<subseteq> active_pairs H L rs" using assms(2) by (auto simp: active_pairs_def)
  moreover have "finite (active_pairs H L rs)" by (simp add: active_pairs_def)
  ultimately have "card (active_pairs H L' rs) \<le> card (active_pairs H L rs)" by (rule card_mono[rotated])
  moreover have "sum_list (map (held H L') rs) \<le> sum_list (map (held H L) rs)" using assms(3) by (rule sum_list_mono)
  ultimately show ?thesis using assms(1) by (simp add: within_def)
qed

lemma in_project_subset: "r \<in> set (in_project q rs) \<Longrightarrow> r \<in> set rs"
  by (simp add: in_project_def)

lemma canonical_fact: "unique_keys (JObj fs) \<Longrightarrow> canonical_text (request_envelope fs)"
  by (auto simp: canonical_text_def)

lemma books_post:
  assumes ok: "books H L" and new: "i \<notin> fst ` set L" and raw: "canonical_text raw"
    and res: "prefix (work_prefix ''reservation'') i \<Longrightarrow> reservation_entry H (L @ [(i, raw)]) (i, raw)"
    and ret: "prefix (work_prefix ''retained'') i \<Longrightarrow> retained_entry H (L @ [(i, raw)]) (i, raw)"
    and excl: "exclusive (bookings (L @ [(i, raw)]))"
    and cap: "\<And>q e policy. look H (L @ [(i, raw)]) ''project'' q = Inr (Some e) \<Longrightarrow> entry_policy e = Inr policy \<Longrightarrow>
      within H (L @ [(i, raw)]) policy (in_project q (bookings (L @ [(i, raw)])))"
  shows "books H (L @ [(i, raw)])"
proof -
  have "reservation_entry H (L @ [(i, raw)]) e" if "reservation_entry H L e" for e
    using that unfolding reservation_entry_def by fastforce
  moreover have "retained_entry H (L @ [(i, raw)]) e" if "retained_entry H L e" for e
    using that unfolding retained_entry_def by fastforce
  moreover have "distinct (map fst (L @ [(i, raw)]))" using ok new by (simp add: books_def)
  ultimately show ?thesis using ok raw res ret excl cap unfolding books_def by fastforce
qed

lemma booksD:
  "books H L \<Longrightarrow> look H L ''project'' q = Inr (Some e) \<Longrightarrow> entry_policy e = Inr policy \<Longrightarrow>
    within H L policy (in_project q (bookings L))"
  "books H L \<Longrightarrow> distinct (map fst L)"
  "books H L \<Longrightarrow> x \<in> set L \<Longrightarrow> prefix (work_prefix ''reservation'') (fst x) \<Longrightarrow> reservation_entry H L x"
  "books H L \<Longrightarrow> x \<in> set L \<Longrightarrow> prefix (work_prefix ''retained'') (fst x) \<Longrightarrow> retained_entry H L x"
  "books H L \<Longrightarrow> x \<in> set L \<Longrightarrow> canonical_text (snd x)"
  "books H L \<Longrightarrow> exclusive (bookings L)"
  unfolding books_def by blast+

text \<open>Operations outside the ledger and the records that no capacity depends on.\<close>

lemma books_other:
  assumes ok: "books H L" and new: "i \<notin> fst ` set L" and raw: "canonical_text raw"
    and other: "\<not> prefix (work_prefix ''reservation'') i" "\<not> prefix (work_prefix ''project'') i"
      "\<not> prefix (work_prefix ''settlement'') i" "\<not> prefix (work_prefix ''retained'') i"
  shows "books H (L @ [(i, raw)])"
proof (rule books_post[OF ok new raw])
  fix q e policy
  assume "look H (L @ [(i, raw)]) ''project'' q = Inr (Some e)" and p: "entry_policy e = Inr policy"
  then have "look H L ''project'' q = Inr (Some e)" using look_other[OF other(2)] by simp
  from booksD(1)[OF ok this p] have "within H (L @ [(i, raw)]) policy (in_project q (bookings L))"
    by (rule within_mono) (simp_all add: look_other[OF other(3)] look_other[OF other(4)] held_def)
  then show "within H (L @ [(i, raw)]) policy (in_project q (bookings (L @ [(i, raw)])))" by (simp add: bookings_other[OF other(1)])
qed (use other booksD(6)[OF ok] in \<open>simp_all add: bookings_other\<close>)

lemma books_settlement:
  assumes ok: "books H L" and new: "work_key H ''settlement'' x \<notin> fst ` set L" and raw: "canonical_text raw"
  shows "books H (L @ [(work_key H ''settlement'' x, raw)])"
proof (rule books_post[OF ok new raw])
  let ?i = "work_key H ''settlement'' x"
  have other: "\<not> prefix (work_prefix ''reservation'') ?i" "\<not> prefix (work_prefix ''project'') ?i" "\<not> prefix (work_prefix ''retained'') ?i"
    by (simp_all add: prefix_work_key)
  fix q e policy
  assume "look H (L @ [(?i, raw)]) ''project'' q = Inr (Some e)" and p: "entry_policy e = Inr policy"
  then have "look H L ''project'' q = Inr (Some e)" using look_other[OF other(2)] by simp
  from booksD(1)[OF ok this p] have "within H (L @ [(?i, raw)]) policy (in_project q (bookings L))"
  proof (rule within_mono)
    fix r assume "look H (L @ [(?i, raw)]) ''settlement'' (rv_operation r) = Inr None"
    then show "look H L ''settlement'' (rv_operation r) = Inr None"
      using look_none[of H "''settlement''" "rv_operation r" L] new look_old[of H "''settlement''" "rv_operation r" ?i L raw]
      by (cases "work_key H ''settlement'' (rv_operation r) = ?i") auto
  qed (simp add: look_other[OF other(3)] held_def)
  then show "within H (L @ [(?i, raw)]) policy (in_project q (bookings (L @ [(?i, raw)])))" by (simp add: bookings_other[OF other(1)])
qed (simp_all add: prefix_work_key bookings_other booksD(6)[OF ok])

lemma policy_bounds:
  assumes "entry_policy e = Inr policy"
  shows "wf_policy_budget policy" and "map_of (wb_counts policy) k = Some limit \<Longrightarrow> 0 \<le> limit"
    and "0 < wb_max_active policy" and "0 < wb_retained_bytes policy"
proof -
  obtain v where "lift_budget (decode_policy v) = Inr policy" using assms by (auto simp: entry_policy_def rbind_eq_Inr)
  then have "decode_policy v = Inr policy" by (cases "decode_policy v") (simp_all add: lift_budget_def)
  then show wf: "wf_policy_budget policy" by (rule decode_policy_wf)
  then show "0 < wb_max_active policy" "0 < wb_retained_bytes policy"
    by (auto simp: wf_policy_budget_def check_WorkBudgetPolicy_def res_simps)
  show "0 \<le> limit" if "map_of (wb_counts policy) k = Some limit"
    using wf map_of_SomeD[OF that] by (auto simp: wf_policy_budget_def check_WorkBudgetPolicy_def res_simps list_ex_iff)
qed

lemma within_Nil: "entry_policy e = Inr policy \<Longrightarrow> within H L policy []"
  using policy_bounds[of e policy] by (simp add: within_def kind_count_def active_pairs_def)

lemma books_project:
  assumes ok: "books H L" and new: "work_key H ''project'' x \<notin> fst ` set L" and raw: "canonical_text raw"
  shows "books H (L @ [(work_key H ''project'' x, raw)])"
proof (rule books_post[OF ok new raw])
  let ?i = "work_key H ''project'' x"
  have other: "\<not> prefix (work_prefix ''reservation'') ?i" "\<not> prefix (work_prefix ''settlement'') ?i" "\<not> prefix (work_prefix ''retained'') ?i"
    by (simp_all add: prefix_work_key)
  fix q e policy
  assume l: "look H (L @ [(?i, raw)]) ''project'' q = Inr (Some e)" and p: "entry_policy e = Inr policy"
  have "within H (L @ [(?i, raw)]) policy (in_project q (bookings L))"
  proof (cases "work_key H ''project'' q = ?i")
    case True
    then have "in_project q (bookings L) = []"
      using booked_key(2)[OF ok] new True unfolding in_project_def filter_empty_conv by metis
    then show ?thesis using within_Nil[OF p] by simp
  next
    case False
    then have "look H L ''project'' q = Inr (Some e)" using l look_old by metis
    from booksD(1)[OF ok this p] show ?thesis
      by (rule within_mono) (simp_all add: look_other[OF other(2)] look_other[OF other(3)] held_def)
  qed
  then show "within H (L @ [(?i, raw)]) policy (in_project q (bookings (L @ [(?i, raw)])))" by (simp add: bookings_other[OF other(1)])
qed (simp_all add: prefix_work_key bookings_other booksD(6)[OF ok])

lemma same_key: "work_key H t x = work_key H t y \<longleftrightarrow> H x = H y"
  by (simp add: work_key_def)

lemma unique_retained: "unique_keys (JObj (work_fields (''retained'', x, retained_fields x b)))"
  by (rule unique_work_fields) (simp_all add: retained_fields_def)

lemma read_own_bytes: "entry_int (canon_fields (work_fields (''retained'', x, retained_fields x b))) ''bytes'' = Inr b"
  by (simp add: entry_int_def map_of_work_fields[OF unique_retained]) (simp add: retained_fields_def)

lemma books_retained:
  assumes ok: "books H L" and new: "work_key H ''retained'' x \<notin> fst ` set L"
    and reserved: "work_key H ''reservation'' x \<in> fst ` set L"
    and bytes: "\<And>r. r \<in> set (bookings L) \<Longrightarrow> H (rv_operation r) = H x \<Longrightarrow> b \<le> rv_retained r"
  shows "books H (L @ [(work_key H ''retained'' x, request_envelope (work_fields (''retained'', x, retained_fields x b)))])"
    (is "books H (L @ [(?i, ?raw)])")
proof (rule books_post[OF ok new canonical_fact[OF unique_retained]])
  have other: "\<not> prefix (work_prefix ''reservation'') ?i" "\<not> prefix (work_prefix ''project'') ?i" "\<not> prefix (work_prefix ''settlement'') ?i"
    by (simp_all add: prefix_work_key)
  show "retained_entry H (L @ [(?i, ?raw)]) (?i, ?raw)"
    unfolding retained_entry_def using reserved by (intro exI[of _ x] exI[of _ b]) simp
  fix q e policy
  assume "look H (L @ [(?i, ?raw)]) ''project'' q = Inr (Some e)" and p: "entry_policy e = Inr policy"
  then have "look H L ''project'' q = Inr (Some e)" using look_other[OF other(2)] by simp
  from booksD(1)[OF ok this p] have "within H (L @ [(?i, ?raw)]) policy (in_project q (bookings L))"
  proof (rule within_mono)
    fix r assume r: "r \<in> set (in_project q (bookings L))"
    show "held H (L @ [(?i, ?raw)]) r \<le> held H L r"
    proof (cases "H (rv_operation r) = H x")
      case True
      then have key: "work_key H ''retained'' (rv_operation r) = ?i" by (simp add: same_key)
      have "held H L r = rv_retained r" using look_none[of H "''retained''" "rv_operation r" L] new key by (simp add: held_def)
      moreover have "held H (L @ [(?i, ?raw)]) r = b"
        by (simp add: held_def look_posted[OF new key] request_in_envelope[OF unique_retained] read_own_bytes)
      ultimately show ?thesis using bytes[OF in_project_subset[OF r] True] by simp
    next
      case False
      then have "work_key H ''retained'' (rv_operation r) \<noteq> ?i" by (simp add: same_key)
      then show ?thesis by (simp add: held_def look_old)
    qed
  qed (simp add: look_other[OF other(3)])
  then show "within H (L @ [(?i, ?raw)]) policy (in_project q (bookings (L @ [(?i, ?raw)])))" by (simp add: bookings_other[OF other(1)])
qed (simp_all add: prefix_work_key bookings_other booksD(6)[OF ok])

text \<open>The condition of \<open>_reserve_work\<close>: one more reservation still fits.\<close>

definition fits :: "hash \<Rightarrow> (string \<times> string) list \<Rightarrow> work_budget_policy \<Rightarrow> reservation list \<Rightarrow> reservation \<Rightarrow> bool" where
  "fits H L policy rs r \<longleftrightarrow> (\<forall>limit. map_of (wb_counts policy) (rv_category r) = Some limit \<longrightarrow> kind_count (rv_category r) rs < limit)
     \<and> ((rv_program r, rv_attempt r) \<in> active_pairs H L rs \<or> int (card (active_pairs H L rs)) < wb_max_active policy)
     \<and> sum_list (map (held H L) rs) + rv_retained r \<le> wb_retained_bytes policy"

lemma within_snoc:
  assumes w: "within H L policy rs" and f: "fits H L policy rs r" and "held H L r = rv_retained r"
  shows "within H L policy (rs @ [r])"
proof -
  let ?old = "active_pairs H L rs" and ?pair = "(rv_program r, rv_attempt r)"
  have fin: "finite ?old" by (simp add: active_pairs_def)
  have "active_pairs H L (rs @ [r]) \<subseteq> insert ?pair ?old" by (auto simp: active_pairs_def)
  then have "card (active_pairs H L (rs @ [r])) \<le> card (insert ?pair ?old)" using fin by (intro card_mono) auto
  moreover have "int (card (insert ?pair ?old)) \<le> wb_max_active policy"
    using f w fin by (cases "?pair \<in> ?old") (simp_all add: fits_def within_def insert_absorb)
  ultimately have "int (card (active_pairs H L (rs @ [r]))) \<le> wb_max_active policy" by simp
  moreover have "kind_count k (rs @ [r]) \<le> limit" if "map_of (wb_counts policy) k = Some limit" for k limit
    using w f that by (cases "rv_category r = k") (auto simp: within_def fits_def kind_count_def)
  ultimately show ?thesis using f assms(3) by (simp add: within_def fits_def)
qed

lemma books_reservation:
  assumes ok: "books H L" and new: "work_key H ''reservation'' (rv_operation r) \<notin> fst ` set L"
    and proj: "work_key H ''project'' (rv_project r) \<in> fst ` set L"
    and first: "\<not> (rv_category r = WorkAttempt \<and> (\<exists>x \<in> set (bookings L). rv_program x = rv_program r \<and> rv_attempt x = rv_attempt r
      \<and> rv_category x = rv_category r))"
    and fit: "\<And>e policy. look H L ''project'' (rv_project r) = Inr (Some e) \<Longrightarrow> entry_policy e = Inr policy \<Longrightarrow>
      fits H L policy (in_project (rv_project r) (bookings L)) r"
  shows "books H (L @ [(work_key H ''reservation'' (rv_operation r), request_envelope (work_fields (reservation_fact r)))])"
    (is "books H (L @ [(?i, ?raw)])")
proof (rule books_post[OF ok new canonical_fact[OF unique_reservation]])
  have other: "\<not> prefix (work_prefix ''project'') ?i" "\<not> prefix (work_prefix ''settlement'') ?i" "\<not> prefix (work_prefix ''retained'') ?i"
    by (simp_all add: prefix_work_key)
  show "reservation_entry H (L @ [(?i, ?raw)]) (?i, ?raw)"
    unfolding reservation_entry_def using proj by (intro exI[of _ r]) simp
  have booked: "bookings (L @ [(?i, ?raw)]) = bookings L @ [r]" by (simp add: bookings_def prefix_work_key)
  show "exclusive (bookings (L @ [(?i, ?raw)]))"
    using booksD(6)[OF ok] first unfolding booked exclusive_def by fastforce
  have "work_key H ''retained'' (rv_operation r) \<notin> fst ` set L"
  proof
    assume "work_key H ''retained'' (rv_operation r) \<in> fst ` set L"
    then obtain x where x: "x \<in> set L" "fst x = work_key H ''retained'' (rv_operation r)" by auto
    then have "retained_entry H L x" using booksD(4)[OF ok] by (simp add: prefix_work_key)
    then obtain j where j: "fst x = work_key H ''retained'' j" "work_key H ''reservation'' j \<in> fst ` set L"
      unfolding retained_entry_def by (metis fst_conv)
    then have "H j = H (rv_operation r)" using x(2) by (simp add: same_key)
    then have "work_key H ''reservation'' j = ?i" by (simp add: same_key)
    then show False using j(2) new by simp
  qed
  then have h: "held H L r = rv_retained r" by (simp add: held_def look_none)
  have same: "within H (L @ [(?i, ?raw)]) policy rs" if "within H L policy rs" for policy rs
    using that by (rule within_mono) (simp_all add: look_other[OF other(2)] look_other[OF other(3)] held_def)
  fix q e policy
  assume "look H (L @ [(?i, ?raw)]) ''project'' q = Inr (Some e)" and p: "entry_policy e = Inr policy"
  then have l: "look H L ''project'' q = Inr (Some e)" using look_other[OF other(1)] by simp
  note w = booksD(1)[OF ok l p]
  show "within H (L @ [(?i, ?raw)]) policy (in_project q (bookings (L @ [(?i, ?raw)])))"
  proof (cases "rv_project r = q")
    case True
    with fit l p have "fits H L policy (in_project q (bookings L)) r" by blast
    from within_snoc[OF w this h] show ?thesis using same True by (simp add: booked in_project_def)
  next
    case False
    then show ?thesis using same[OF w] by (simp add: booked in_project_def)
  qed
qed (simp_all add: prefix_work_key)

section \<open>Reading the books\<close>

lemma mset_operations_with:
  "mset (operations_with start J) = mset (filter (\<lambda>row. prefix start (op_id row)) (jn_operations J))"
  unfolding operations_with_def by (metis mset_filter mset_sort)

lemma mapM_map_fun: "mapM f (map g xs) = mapM (\<lambda>x. f (g x)) xs"
  by (induction xs) simp_all

lemma bookings_requests:
  "bookings (requests J) = map (\<lambda>row. booking (op_id row, op_request_json row))
     (filter (\<lambda>row. prefix (work_prefix ''reservation'') (op_id row)) (jn_operations J))"
  by (simp add: bookings_def requests_def filter_map comp_def)

lemma reservations_of_books:
  assumes "books H (requests J)"
  obtains rs where "reservations J = Inr rs" "mset rs = mset (bookings (requests J))"
proof -
  let ?rows = "operations_with (work_prefix ''reservation'') J"
  have row: "request_of row = Inr (projr (request_of row))
      \<and> read_reservation (projr (request_of row)) = Inr (booking (op_id row, op_request_json row))" if "row \<in> set ?rows" for row
  proof -
    have "(op_id row, op_request_json row) \<in> set (requests J)" "prefix (work_prefix ''reservation'') (op_id row)"
      using that by (auto simp: operations_with_def requests_def)
    then obtain r where "op_request_json row = request_envelope (work_fields (reservation_fact r))"
      using booksD(3)[OF assms] unfolding reservation_entry_def by fastforce
    then show ?thesis by (simp add: request_of_in request_in_envelope[OF unique_reservation] read_own_reservation)
  qed
  have "work_records J ''reservation'' = Inr (map (\<lambda>row. projr (request_of row)) ?rows)"
    unfolding work_records_def using row by (intro mapM_total) blast
  moreover have "mapM (\<lambda>row. read_reservation (projr (request_of row))) ?rows
      = Inr (map (\<lambda>row. booking (op_id row, op_request_json row)) ?rows)"
    using row by (intro mapM_total) blast
  ultimately have "reservations J = Inr (map (\<lambda>row. booking (op_id row, op_request_json row)) ?rows)"
    by (simp add: reservations_def mapM_map_fun)
  moreover have "mset (map (\<lambda>row. booking (op_id row, op_request_json row)) ?rows) = mset (bookings (requests J))"
    by (simp add: bookings_requests mset_operations_with)
  ultimately show ?thesis by (rule that)
qed

lemma look_total:
  assumes "books H L"
  obtains r where "look H L t x = Inr r"
proof (cases "map_of L (work_key H t x)")
  case None
  then show ?thesis using that by (simp add: look_def)
next
  case (Some raw)
  then have "canonical_text raw" using booksD(5)[OF assms map_of_SomeD[OF Some]] by simp
  then obtain fs where "unique_keys (JObj fs)" "raw = request_envelope fs" by (auto simp: canonical_text_def)
  then show ?thesis using that Some by (simp add: look_def request_in_envelope)
qed

lemma same_reservations:
  assumes "mset rs = mset rs'"
  shows "mset (filter P rs) = mset (filter P rs')" and "set rs = set rs'" and "kind_count k rs = kind_count k rs'"
    and "active_pairs H L rs = active_pairs H L rs'" and "sum_list (map (held H L) rs) = sum_list (map (held H L) rs')"
proof -
  show "mset (filter P rs) = mset (filter P rs')" for P using assms by simp
  from this[of "\<lambda>r. rv_category r = k"] have "length (filter (\<lambda>r. rv_category r = k) rs) = length (filter (\<lambda>r. rv_category r = k) rs')"
    by (metis size_mset)
  then show "kind_count k rs = kind_count k rs'" by (simp add: kind_count_def)
  show s: "set rs = set rs'" using assms by (rule mset_eq_setD)
  show "active_pairs H L rs = active_pairs H L rs'" by (simp add: active_pairs_def s)
  have "mset (map (held H L) rs) = mset (map (held H L) rs')" using assms by simp
  then show "sum_list (map (held H L) rs) = sum_list (map (held H L) rs')" by (metis sum_mset_sum_list)
qed

lemma active_work_pairs:
  assumes "active_work H J rs = Inr active"
  shows "set active = active_pairs H (requests J) rs" and "length active = card (active_pairs H (requests J) rs)"
proof -
  obtain found where f: "mapM (active_in H J) rs = Inr found" "active = remdups (concat found)"
    using assms by (auto simp: active_work_def rbind_eq_Inr)
  have one: "set ps = active_pairs H (requests J) [r]" if "active_in H J r = Inr ps" for r ps
    using that by (auto simp: active_in_def active_pairs_def work_record_look rbind_eq_Inr split: if_splits)
  have cons: "active_pairs H (requests J) (r # rs) = active_pairs H (requests J) [r] \<union> active_pairs H (requests J) rs" for r rs
    by (auto simp: active_pairs_def)
  have empty: "active_pairs H (requests J) [] = {}" by (simp add: active_pairs_def)
  have "set (concat found) = active_pairs H (requests J) rs"
    using f(1)
  proof (induction rs arbitrary: found)
    case (Cons r rs)
    then obtain ps ls where "active_in H J r = Inr ps" "mapM (active_in H J) rs = Inr ls" "found = ps # ls"
      by (auto simp: rbind_eq_Inr)
    then show ?case using Cons.IH one cons[of r rs] by simp
  qed (simp add: empty)
  then show s: "set active = active_pairs H (requests J) rs" by (simp add: f(2))
  have "distinct active" by (simp add: f(2))
  then show "length active = card (active_pairs H (requests J) rs)" using s by (metis distinct_card)
qed

lemma retained_bytes_held:
  assumes "mapM (retained_work_bytes H J claimed) rs = Inr hs"
  shows "sum_list (map (held H (requests J)) rs) \<le> sum_list hs"
  using assms
proof (induction rs arbitrary: hs)
  case (Cons r rs)
  then obtain h hs' where h: "retained_work_bytes H J claimed r = Inr h" "mapM (retained_work_bytes H J claimed) rs = Inr hs'" "hs = h # hs'"
    by (auto simp: rbind_eq_Inr)
  obtain final kept where k: "look H (requests J) ''retained'' (rv_operation r) = Inr final"
      "(case final of None \<Rightarrow> Inr (rv_retained r) | Some e \<Rightarrow> entry_int e ''bytes'') = Inr kept" "kept \<le> h"
    using h(1) by (auto simp: retained_work_bytes_def work_record_look rbind_eq_Inr split: if_splits)
  then have "held H (requests J) r \<le> h" by (cases final) (simp_all add: held_def)
  then show ?case using Cons.IH[OF h(2)] h(3) by simp
qed simp

lemma check_scope_fits:
  assumes c: "check_scope_capacity H J claimed policy rs r = Inr ()" and m: "mset rs = mset rs'"
  shows "fits H (requests J) policy rs' r"
proof -
  obtain limit active hs where s: "map_of (wb_counts policy) (rv_category r) = Some limit" "\<not> limit \<le> kind_count (rv_category r) rs"
    "active_work H J rs = Inr active" "\<not> ((rv_program r, rv_attempt r) \<notin> set active \<and> wb_max_active policy \<le> int (length active))"
    "mapM (retained_work_bytes H J claimed) rs = Inr hs" "\<not> wb_retained_bytes policy < sum_list hs + rv_retained r"
  proof -
    obtain limit where l: "map_of (wb_counts policy) (rv_category r) = Some limit"
      using c by (cases "map_of (wb_counts policy) (rv_category r)") (simp_all add: check_scope_capacity_def)
    show ?thesis using c that[OF l] unfolding check_scope_capacity_def l option.case rbind_eq_Inr guard_eq_Inr by blast
  qed
  note p = active_work_pairs[OF s(3)] and h = retained_bytes_held[OF s(5)]
  have "kind_count (rv_category r) rs < limit" using s(2) by simp
  moreover have "(rv_program r, rv_attempt r) \<in> active_pairs H (requests J) rs
      \<or> int (card (active_pairs H (requests J) rs)) < wb_max_active policy"
    using s(4) unfolding p by linarith
  moreover have "sum_list (map (held H (requests J)) rs) + rv_retained r \<le> wb_retained_bytes policy" using s(6) h by linarith
  ultimately have "fits H (requests J) policy rs r" using s(1) by (simp add: fits_def)
  then show ?thesis using same_reservations(3-5)[OF m] by (simp add: fits_def)
qed

lemma check_capacity_fits:
  assumes b: "books H (requests (st_journal S))" and c: "check_capacity H S g binding r = Inr ()"
  shows "work_key H ''project'' (rv_project r) \<in> fst ` set (requests (st_journal S))"
    and "\<not> (rv_category r = WorkAttempt \<and> (\<exists>x \<in> set (bookings (requests (st_journal S))). rv_program x = rv_program r
      \<and> rv_attempt x = rv_attempt r \<and> rv_category x = rv_category r))"
    and "look H (requests (st_journal S)) ''project'' (rv_project r) = Inr (Some e) \<Longrightarrow> entry_policy e = Inr policy \<Longrightarrow>
      fits H (requests (st_journal S)) policy (in_project (rv_project r) (bookings (requests (st_journal S)))) r"
proof -
  obtain rs where rs: "reservations (st_journal S) = Inr rs" "mset rs = mset (bookings (requests (st_journal S)))"
    by (rule reservations_of_books[OF b])
  obtain record_e task_policy project_policy where s: "look H (requests (st_journal S)) ''project'' (rv_project r) = Inr (Some record_e)"
      "entry_policy record_e = Inr project_policy"
      "check_scope_capacity H (st_journal S) (wg_claimed g) project_policy (filter (\<lambda>item. rv_project item = rv_project r) rs) r = Inr ()"
    using c rs(1) by (auto simp: check_capacity_def work_record_look rbind_eq_Inr split: option.splits)
  show "work_key H ''project'' (rv_project r) \<in> fst ` set (requests (st_journal S))"
  proof (rule ccontr)
    assume "work_key H ''project'' (rv_project r) \<notin> fst ` set (requests (st_journal S))"
    then show False using look_none s(1) by fastforce
  qed
  have "\<not> (rv_category r = WorkAttempt \<and> (\<exists>x \<in> set rs. rv_program x = rv_program r \<and> rv_attempt x = rv_attempt r
      \<and> rv_category x = rv_category r))"
    using c rs(1) by (auto simp: check_capacity_def rbind_eq_Inr guard_eq_Inr list_ex_iff)
  then show "\<not> (rv_category r = WorkAttempt \<and> (\<exists>x \<in> set (bookings (requests (st_journal S))). rv_program x = rv_program r
      \<and> rv_attempt x = rv_attempt r \<and> rv_category x = rv_category r))"
    unfolding same_reservations(2)[OF rs(2)] .
  have "mset (filter (\<lambda>item. rv_project item = rv_project r) rs) = mset (in_project (rv_project r) (bookings (requests (st_journal S))))"
    unfolding in_project_def by (rule same_reservations(1)[OF rs(2)])
  from check_scope_fits[OF s(3) this]
  show "look H (requests (st_journal S)) ''project'' (rv_project r) = Inr (Some e) \<Longrightarrow> entry_policy e = Inr policy \<Longrightarrow>
      fits H (requests (st_journal S)) policy (in_project (rv_project r) (bookings (requests (st_journal S)))) r"
    using s(1,2) by simp
qed

end
