(* ===== verification/Ledger_Theorems.thy ===== *)
theory Ledger_Theorems
  imports Ledger_Books
begin

text \<open>
  The promises of the work budget. The calls that write the ledger, interleaved with every other call of the
  store, form a \<open>recording_machine\<close>: no project ever exceeds its stored policy, no work is reserved without
  current authority, a revocation is final and an approved budget is never replaced.
\<close>

declare canon.simps(6) [simp del]

section \<open>Safe changes of a journal\<close>

text \<open>Artifacts are only added, and stored bytes stay.\<close>

definition archives :: "journal \<Rightarrow> journal \<Rightarrow> bool" where
  "archives J J' \<longleftrightarrow> (\<exists>new. jn_artifacts J' = jn_artifacts J @ new)
     \<and> (\<forall>d data. map_of (jn_blobs J) d = Some data \<longrightarrow> map_of (jn_blobs J') d = Some data)"

definition posts :: "journal \<Rightarrow> journal \<Rightarrow> bool" where
  "posts J J' \<longleftrightarrow> (\<exists>N. requests J' = requests J @ N) \<and> archives J J'"

definition safe :: "hash \<Rightarrow> journal \<Rightarrow> journal \<Rightarrow> bool" where
  "safe H J J' \<longleftrightarrow> posts J J' \<and> (books H (requests J) \<longrightarrow> books H (requests J'))"

lemma archives_same: "jn_artifacts J' = jn_artifacts J \<Longrightarrow> jn_blobs J' = jn_blobs J \<Longrightarrow> archives J J'"
  by (simp add: archives_def)

lemma archives_refl: "archives J J"
  by (simp add: archives_same)

lemma archives_trans: "archives J J' \<Longrightarrow> archives J' J'' \<Longrightarrow> archives J J''"
  by (auto simp: archives_def)

lemma insert_intent_archives: "insert_intent H allow i e request J = Inr J' \<Longrightarrow> archives J J'"
  by (drule insert_intent_keeps) (simp add: keeps_def archives_same)

lemma finalize_archives:
  assumes "finalize_artifact H budget i name data J = Inr J'"
  shows "archives J J'"
  using assms
proof (cases rule: finalize_artifact_Inr)
  case (1 J1)
  have "jn_artifacts J1 = jn_artifacts J" by (subst stage_blob_tables[OF 1(1)]) simp
  moreover have "map_of (jn_blobs J) d = Some x \<Longrightarrow> map_of (jn_blobs J1) d = Some x" for d x
    using 1(1) by (auto simp: stage_blob_def rbind_eq_Inr split: option.splits)
  ultimately show ?thesis using 1(3) by (auto simp: archives_def)
qed

lemma posts_refl: "posts J J"
  by (simp add: posts_def archives_refl)

lemma posts_trans: "posts J J' \<Longrightarrow> posts J' J'' \<Longrightarrow> posts J J''"
  by (auto simp: posts_def intro: archives_trans)

lemma safe_same: "requests J' = requests J \<Longrightarrow> archives J J' \<Longrightarrow> safe H J J'"
  by (simp add: safe_def posts_def)

lemma safe_refl [simp]: "safe H J J"
  by (simp add: safe_same archives_refl)

lemma safe_trans: "safe H J J' \<Longrightarrow> safe H J' J'' \<Longrightarrow> safe H J J''"
  by (auto simp: safe_def intro: posts_trans)

lemma insert_intent_requests:
  assumes "insert_intent H allow i e request J = Inr J'"
  shows "J' = J \<or> (i \<notin> fst ` set (requests J) \<and> requests J' = requests J @ [(i, request_envelope request)])"
proof (cases "filter (\<lambda>row. op_id row = i \<or> op_effect_key row = e) (jn_operations J) = []")
  case True
  then have "i \<notin> op_id ` set (jn_operations J)" by (auto simp: filter_empty_conv)
  moreover have "requests J' = requests J @ [(i, request_envelope request)]"
    using assms True by (auto simp: insert_intent_def Let_def rbind_eq_Inr guard_eq_Inr requests_def)
  ultimately show ?thesis by (auto simp: requests_def)
next
  case False
  then show ?thesis using assms by (simp add: insert_intent_def Let_def rbind_eq_Inr guard_eq_Inr)
qed

text \<open>A record, made as a Python dictionary, that changes no reservation and no retained bytes.\<close>

definition harmless :: "work_fact \<Rightarrow> bool" where
  "harmless w \<longleftrightarrow> plain_type (fst w) \<and> fst w \<noteq> ''reservation'' \<and> fst w \<noteq> ''retained'' \<and> unique_keys (JObj (work_fields w))"

lemma insert_foreign_safe:
  assumes "insert_intent H allow i e request J = Inr J'" and "foreign i" and "unique_keys (JObj request)"
  shows "safe H J J'"
  using insert_intent_requests[OF assms(1)] books_other[of H "requests J" i] foreign_no_key(2)[OF assms(2)] canonical_fact[OF assms(3)]
    insert_intent_archives[OF assms(1)]
  by (auto simp: safe_def posts_def)

lemma write_harmless_safe:
  assumes "write_work_record H w J = Inr J'" and "harmless w"
  shows "safe H J J'"
proof -
  obtain t x fs where w: "w = (t, x, fs)" by (cases w)
  have t: "plain_type t" "t \<noteq> ''reservation''" "t \<noteq> ''retained''" and u: "canonical_text (request_envelope (work_fields w))"
    using assms(2) by (simp_all add: harmless_def w canonical_fact)
  have ins: "insert_intent H True (work_key H t x) (work_key H t x) (work_fields w) J = Inr J'"
    using assms(1) by (simp add: write_work_record_def w Let_def)
  from insert_intent_requests[OF ins] show ?thesis
  proof
    assume new: "work_key H t x \<notin> fst ` set (requests J) \<and> requests J' = requests J @ [(work_key H t x, request_envelope (work_fields w))]"
    have "books H (requests J')" if ok: "books H (requests J)"
    proof (cases "t = ''settlement'' \<or> t = ''project''")
      case True
      then show ?thesis using books_settlement[OF ok _ u] books_project[OF ok _ u] new by auto
    next
      case False
      have "\<not> prefix (work_prefix u) (work_key H t x)" if "u \<noteq> t" "plain_type u" for u
        using prefix_work_key[OF that(2) t(1)] that(1) by simp
      then have "books H (requests J @ [(work_key H t x, request_envelope (work_fields w))])"
        using new False t u by (intro books_other[OF ok]) auto
      then show ?thesis using new by simp
    qed
    then show ?thesis using new insert_intent_archives[OF ins] by (simp add: safe_def posts_def)
  qed simp
qed

lemma write_all_harmless:
  "write_work_records H ws J = Inr J' \<Longrightarrow> \<forall>w \<in> set ws. harmless w \<Longrightarrow> safe H J J'"
  by (induction ws arbitrary: J) (auto simp: rbind_eq_Inr intro: safe_trans[OF write_harmless_safe])

lemma write_facts_journal: "write_facts H ws S = Inr S' \<longleftrightarrow> write_work_records H ws (st_journal S) = Inr (st_journal S') \<and> S' = S\<lparr>st_journal := st_journal S'\<rparr>"
  by (auto simp: write_facts_def rbind_eq_Inr)

lemma write_facts_harmless: "write_facts H ws S = Inr S' \<Longrightarrow> \<forall>w \<in> set ws. harmless w \<Longrightarrow> safe H (st_journal S) (st_journal S')"
  using write_all_harmless by (auto simp: write_facts_journal)

section \<open>Reservations\<close>

lemma reservation_facts_Inr:
  assumes "reservation_facts H S g p a i k n = Inr facts"
  obtains (again) binding q stored where "facts = []" "work_binding H S p = Inr (Some binding)" "entry_str binding ''project'' = Inr q"
      "work_record H (st_journal S) ''reservation'' i = Inr (Some stored)"
      "same_json (JObj stored) (JObj (work_fields (reservation_fact \<lparr>rv_program = p, rv_project = q, rv_attempt = a,
         rv_operation = i, rv_category = k, rv_retained = n\<rparr>)))"
  | (fresh) binding q where "facts = [reservation_fact \<lparr>rv_program = p, rv_project = q, rv_attempt = a, rv_operation = i,
         rv_category = k, rv_retained = n\<rparr>]" "work_binding H S p = Inr (Some binding)" "entry_str binding ''project'' = Inr q"
      "work_record H (st_journal S) ''reservation'' i = Inr None" "0 \<le> n" "check_work_authority H S (wg_clock g) p = Inr ()"
      "check_capacity H S g binding \<lparr>rv_program = p, rv_project = q, rv_attempt = a, rv_operation = i, rv_category = k, rv_retained = n\<rparr> = Inr ()"
proof -
  obtain b where b: "work_binding H S p = Inr b" "0 \<le> n" using assms by (auto simp: reservation_facts_def rbind_eq_Inr guard_eq_Inr)
  then obtain binding where binding: "b = Some binding" using assms by (cases b) (auto simp: reservation_facts_def rbind_eq_Inr)
  obtain q where q: "entry_str binding ''project'' = Inr q" using assms b binding by (auto simp: reservation_facts_def rbind_eq_Inr)
  obtain prior where prior: "work_record H (st_journal S) ''reservation'' i = Inr prior"
    using assms b binding q by (auto simp: reservation_facts_def rbind_eq_Inr Let_def)
  note eq = assms[unfolded reservation_facts_def b(1) binding q prior rbind.simps option.case Let_def]
  show ?thesis
  proof (cases prior)
    case None
    then show ?thesis using eq fresh[of q binding] b binding q prior by (auto simp: rbind_eq_Inr guard_eq_Inr)
  next
    case (Some stored)
    then show ?thesis using eq again[of binding q stored] b binding q prior by (auto simp: rbind_eq_Inr guard_eq_Inr)
  qed
qed

lemma reservation_safe:
  assumes "reservation_facts H S g p a i k n = Inr facts" and "write_facts H facts S = Inr S'"
  shows "safe H (st_journal S) (st_journal S')"
  using assms(1)
proof (cases rule: reservation_facts_Inr)
  case again
  then show ?thesis using assms(2) by (simp add: write_facts_def)
next
  case (fresh binding q)
  let ?r = "\<lparr>rv_program = p, rv_project = q, rv_attempt = a, rv_operation = i, rv_category = k, rv_retained = n\<rparr>"
  let ?key = "work_key H ''reservation'' (rv_operation ?r)" and ?raw = "request_envelope (work_fields (reservation_fact ?r))"
  have ins: "insert_intent H True ?key ?key (work_fields (reservation_fact ?r)) (st_journal S) = Inr (st_journal S')"
    using assms(2) by (auto simp: fresh(1) write_facts_journal rbind_eq_Inr write_work_record_def reservation_fact_def Let_def)
  from insert_intent_requests[OF ins] show ?thesis
  proof
    assume new: "?key \<notin> fst ` set (requests (st_journal S)) \<and> requests (st_journal S') = requests (st_journal S) @ [(?key, ?raw)]"
    have "books H (requests (st_journal S'))" if ok: "books H (requests (st_journal S))"
      using books_reservation[OF ok _ check_capacity_fits[OF ok fresh(7)]] new by simp
    then show ?thesis using new insert_intent_archives[OF ins] by (auto simp: safe_def posts_def)
  qed simp
qed

lemma reserve_work_safe: "reserve_work H g p a i k n S = Inr S' \<Longrightarrow> safe H (st_journal S) (st_journal S')"
  using reservation_safe by (auto simp: reserve_work_def rbind_eq_Inr)

section \<open>Completion, settlement and retained bytes\<close>

lemma harmless_fact:
  assumes "plain_type t" and "t \<noteq> ''reservation''" and "t \<noteq> ''retained''" and "distinct (map fst fs)" and "\<forall>kv \<in> set fs. unique_keys (snd kv)"
    and "''kind'' \<notin> fst ` set fs" and "''type'' \<notin> fst ` set fs"
  shows "harmless (t, x, fs)"
  using assms by (simp add: harmless_def unique_work_fields)

lemma unique_or_null: "(\<And>y. unique_keys (f y)) \<Longrightarrow> unique_keys (or_null f v)"
  by (simp add: or_null_def split: option.split)

lemma unique_policy:
  assumes "wf_policy_budget w"
  shows "unique_keys (policy_document w)"
proof -
  have w: "length (wb_counts w) = length work_kinds" "fst ` set (wb_counts w) = set work_kinds"
    using assms by (auto simp: wf_policy_budget_def check_WorkBudgetPolicy_def res_simps)
  have "card (set (map fst (wb_counts w))) = length (map fst (wb_counts w))"
    using w work_kinds_UNIV(2) by (simp add: distinct_card)
  then have "distinct (map fst (wb_counts w))" by (rule card_distinct)
  moreover have "inj work_kind_value" by (metis injI parse_work_kind_value Inr_inject)
  ultimately have "distinct (map work_kind_value (map fst (wb_counts w)))" by (subst distinct_map) (auto intro: inj_on_subset)
  then have d: "distinct (map (\<lambda>x. work_kind_value (fst x)) (wb_counts w))" by (simp add: comp_def)
  have "unique_keys (JObj (map (\<lambda>(k, limit). (work_kind_value k, JInt limit)) (wb_counts w)))"
    using d by (auto simp: unique_keys_JObj comp_def case_prod_beta)
  moreover have "unique_keys (ceiling_payload c)" for c by (simp add: ceiling_payload_def unique_keys_JObj)
  then have "unique_keys (JList (map ceiling_payload cs))" for cs by (simp add: hook_ok_JList)
  ultimately show ?thesis by (auto simp: policy_document_def unique_keys_JObj)
qed

lemma harmless_types [simp]:
  "harmless (settlement_fact i e)" "harmless (revoked_fact p e)" "harmless (unbound_fact p a i)"
  "harmless (''dispatch-binding'', x, dispatch_fields H p a sp row)"
  "harmless (''ownership-settlement'', x, settlement_subject H r eff @ [(''basis'', JStr u), (''evidence'', JStr v)])"
  "wf_policy_budget policy \<Longrightarrow> harmless (project_fact q policy)"
  unfolding settlement_fact_def revoked_fact_def unbound_fact_def project_fact_def dispatch_fields_def settlement_subject_def
  by (rule harmless_fact; simp add: unique_or_null unique_policy split: option.split)+

lemma settle_facts_harmless: "settle_facts H J i e = Inr facts \<Longrightarrow> \<forall>w \<in> set facts. harmless w"
  by (auto simp: settle_facts_def rbind_eq_Inr)

lemma basis_facts_harmless: "basis_facts H S r e basis = Inr facts \<Longrightarrow> \<forall>w \<in> set facts. harmless w"
  by (auto simp: basis_facts_def rbind_eq_Inr Let_def)

lemma completion_facts_harmless: "completion_facts H S r e = Inr facts \<Longrightarrow> \<forall>w \<in> set facts. harmless w"
  using settle_facts_harmless basis_facts_harmless by (fastforce simp: completion_facts_def rbind_eq_Inr)

lemma completion_safe: "record_work_completion H i e S = Inr S' \<Longrightarrow> safe H (st_journal S) (st_journal S')"
proof -
  assume a: "record_work_completion H i e S = Inr S'"
  obtain found where "find_reservation H (st_journal S) i = Inr found" using a by (auto simp: record_work_completion_def rbind_eq_Inr)
  with a obtain r facts where "completion_facts H S r e = Inr facts" "write_facts H facts S = Inr S'"
    by (cases found) (auto simp: record_work_completion_def rbind_eq_Inr)
  then show ?thesis by (meson write_facts_harmless completion_facts_harmless)
qed

lemma settlement_safe: "record_work_settlement H g i e f S = Inr S' \<Longrightarrow> safe H (st_journal S) (st_journal S')"
proof -
  assume a: "record_work_settlement H g i e f S = Inr S'"
  obtain found where "find_reservation H (st_journal S) i = Inr found" using a by (auto simp: record_work_settlement_def rbind_eq_Inr)
  with a obtain r based S1 settled where "basis_facts H S r e ''trusted-profile'' = Inr based" "write_facts H based S = Inr S1"
      "settle_facts H (st_journal S1) i e = Inr settled" "write_facts H settled S1 = Inr S'"
    by (cases found) (auto simp: record_work_settlement_def rbind_eq_Inr)
  then show ?thesis by (meson safe_trans write_facts_harmless basis_facts_harmless settle_facts_harmless)
qed

lemma booked_look:
  assumes ok: "books H L" and r: "r \<in> set (bookings L)"
  shows "look H L ''reservation'' (rv_operation r) = Inr (Some (canon_fields (work_fields (reservation_fact r))))"
proof -
  obtain e where e: "e \<in> set L" "prefix (work_prefix ''reservation'') (fst e)" "r = booking e" using r by (auto simp: bookings_def)
  from booksD(3)[OF ok e(1,2)] obtain r' where
    r': "e = (work_key H ''reservation'' (rv_operation r'), request_envelope (work_fields (reservation_fact r')))"
    by (auto simp: reservation_entry_def)
  then have "r' = r" using e(3) by simp
  then have "map_of L (work_key H ''reservation'' (rv_operation r)) = Some (request_envelope (work_fields (reservation_fact r)))"
    using e(1) r' booksD(2)[OF ok] by simp
  then show ?thesis by (simp add: look_def request_in_envelope[OF unique_reservation])
qed

lemma same_hash_look: "H x = H y \<Longrightarrow> look H L t x = look H L t y"
  by (simp add: look_def work_key_def)

lemma retained_safe:
  assumes "record_retained_bytes H i b S = Inr S'"
  shows "safe H (st_journal S) (st_journal S')"
proof -
  obtain found where f: "find_reservation H (st_journal S) i = Inr found" using assms by (auto simp: record_retained_bytes_def rbind_eq_Inr)
  obtain r where r: "find_reservation H (st_journal S) i = Inr (Some r)" "b \<le> rv_retained r"
      and w: "write_facts H [(''retained'', i, retained_fields i b)] S = Inr S'"
    using assms f by (cases found) (simp_all add: record_retained_bytes_def rbind_eq_Inr guard_eq_Inr retained_fields_def)
  let ?L = "requests (st_journal S)" and ?key = "work_key H ''retained'' i"
    and ?raw = "request_envelope (work_fields (''retained'', i, retained_fields i b))"
  obtain e where e: "look H ?L ''reservation'' i = Inr (Some e)" "read_reservation e = Inr r"
    using r(1) by (auto simp: find_reservation_def work_record_look rbind_eq_Inr split: option.splits)
  have key: "work_key H ''reservation'' i \<in> fst ` set ?L"
    using e(1) look_none[of H "''reservation''" i ?L] by fastforce
  have bytes: "b \<le> rv_retained r'" if ok: "books H ?L" "r' \<in> set (bookings ?L)" "H (rv_operation r') = H i" for r'
  proof -
    have "look H ?L ''reservation'' i = Inr (Some (canon_fields (work_fields (reservation_fact r'))))"
      using booked_look[OF ok(1,2)] same_hash_look[where H = H and x = "rv_operation r'" and y = i, OF ok(3)] by simp
    then have "r' = r" using e read_own_reservation[of r'] by simp
    then show ?thesis using r(2) by simp
  qed
  have ins: "insert_intent H True ?key ?key (work_fields (''retained'', i, retained_fields i b)) (st_journal S) = Inr (st_journal S')"
    using w by (auto simp: write_facts_journal rbind_eq_Inr write_work_record_def Let_def)
  from insert_intent_requests[OF ins] show ?thesis
  proof
    assume new: "?key \<notin> fst ` set ?L \<and> requests (st_journal S') = ?L @ [(?key, ?raw)]"
    have "books H (requests (st_journal S'))" if ok: "books H ?L"
    proof -
      have "books H (?L @ [(?key, ?raw)])"
        by (rule books_retained[OF ok conjunct1[OF new] key]) (rule bytes[OF ok])
      then show ?thesis using new by simp
    qed
    then show ?thesis using new insert_intent_archives[OF ins] by (auto simp: safe_def posts_def)
  qed simp
qed

section \<open>Approval and revocation\<close>

lemma binding_fields_harmless:
  assumes "wf_policy_budget T" and "plain_type t" and "t \<noteq> ''reservation''" and "t \<noteq> ''retained''"
  shows "harmless (t, x, binding_fields p q T D d)"
  by (rule harmless_fact) (use assms unique_policy in \<open>simp_all add: binding_fields_def deadline_payload_def unique_keys_JObj\<close>)

lemma binding_fact_harmless:
  "binding_fact e o' p d (binding_fields p q T D d) = Inr w \<Longrightarrow> wf_policy_budget T \<Longrightarrow> harmless w"
  by (auto simp: binding_fact_def rbind_eq_Inr binding_fields_harmless split: option.splits if_splits)

lemma configure_safe:
  assumes "configure_work_budget H p q P T D S = Inr S'" and "wf_policy_budget P" and "wf_policy_budget T"
  shows "safe H (st_journal S) (st_journal S')"
proof -
  have b: "bind_budget H p q P T D S = Inr S'" using assms(1) by (simp add: configure_work_budget_def configurable_def rbind_eq_Inr guard_eq_Inr)
  obtain S1 w existing o' d where w: "write_facts H [project_fact q P] S = Inr S1" "binding_fact existing o' p d (binding_fields p q T D d) = Inr w"
      "write_facts H [w] S1 = Inr S'"
    using b unfolding bind_budget_def Let_def rbind_eq_Inr by blast
  note w(1,3) binding_fact_harmless[OF w(2) assms(3)]
  then show ?thesis using write_facts_harmless[of H "[project_fact q P]" S S1] write_facts_harmless[of H "[w]" S1 S'] assms(2)
    by (auto intro: safe_trans)
qed

lemma revocation_safe: "record_revocation H p e S = Inr S' \<Longrightarrow> safe H (st_journal S) (st_journal S')"
  using write_facts_harmless[of H "[revoked_fact p e]" S S'] by (auto simp: record_revocation_def rbind_eq_Inr split: if_splits)

lemma revoke_safe: "revoke_work_budget H p e n S = Inr S' \<Longrightarrow> safe H (st_journal S) (st_journal S')"
  by (auto simp: revoke_work_budget_def rbind_eq_Inr intro: revocation_safe)

section \<open>Admissions and deliveries\<close>

lemma record_result_journal: "record_result H i n key ct actor dg input p S = Inr S' \<Longrightarrow> st_journal S' = st_journal S"
  by (erule record_result_Inr) simp

lemma create_journal: "create_program H sp key S = Inr (p, S') \<Longrightarrow> st_journal S' = st_journal S"
  by (auto simp: create_program_def Let_def rbind_eq_Inr split: option.splits dest: record_result_journal)

lemma admission_journal:
  assumes "admit_decision H vd i key c effect S = Inr (p, S')"
  obtains (again) "S' = S" "find_admission S key \<noteq> None"
  | (fresh) b facts S1 S2 S3 dfacts S4 wfacts where "admission_facts vd b i c effect = Inr facts" "write_facts H facts S = Inr S1"
      "st_journal S2 = st_journal S1" "insert_effect H effect S2 = Inr S3"
      "dfacts = [] \<or> is_prepare c \<and> vd_dispatch vd = Inr dfacts" "write_facts H dfacts S3 = Inr S4"
      "wfacts = [] \<or> is_prepare c \<and> vd_workspace vd = Inr wfacts" "write_facts H wfacts S4 = Inr S'" "bound H S i = Inr b"
proof -
  obtain dg dup where dup: "input_digest_of H (command_input_json i c) = Inr dg" "duplicate_result H S key dg = Inr dup"
    using assms by (auto simp: admit_decision_def Let_def rbind_eq_Inr)
  show ?thesis
  proof (cases dup)
    case (Some q)
    then have "find_admission S key \<noteq> None" using dup(2) by (cases "find_admission S key") (simp_all add: duplicate_result_def)
    then show ?thesis using assms again dup Some by (auto simp: admit_decision_def Let_def rbind_eq_Inr)
  next
    case None
    obtain cur nxt b facts S1 where f: "load_head H S i = Inr cur" "lift_refusal (apply_command H cur c) = Inr nxt" "bound H S i = Inr b"
        "admission_facts vd b i c effect = Inr facts" "write_facts H facts S = Inr S1"
      using assms dup None by (auto simp: admit_decision_def Let_def rbind_eq_Inr)
    obtain head where head: "find_program_row S1 i = Some head"
      using assms dup None f by (cases "find_program_row S1 i") (auto simp: admit_decision_def Let_def rbind_eq_Inr)
    obtain S2 S3 dfacts S4 wfacts where r:
        "record_result H i (pr_sequence head + 1) key (fst (command_parameters c)) (cmd_actor_id c) dg (command_input_json i c) nxt S1 = Inr S2"
        "insert_effect H effect S2 = Inr S3"
        "(if effect \<noteq> None \<and> is_prepare c \<and> b then vd_dispatch vd else Inr []) = Inr dfacts" "write_facts H dfacts S3 = Inr S4"
        "(if is_prepare c then vd_workspace vd else Inr []) = Inr wfacts" "write_facts H wfacts S4 = Inr S'"
      using assms dup None f head by (auto simp: admit_decision_def Let_def rbind_eq_Inr simp del: split_paired_Ex)
    have "dfacts = [] \<or> is_prepare c \<and> vd_dispatch vd = Inr dfacts" "wfacts = [] \<or> is_prepare c \<and> vd_workspace vd = Inr wfacts"
      using r(3,5) by (auto split: if_splits)
    then show ?thesis using fresh[OF f(4,5) record_result_journal[OF r(1)] r(2) _ r(4) _ r(6) f(3)] by blast
  qed
qed

lemma write_facts_append: "write_facts H (xs @ ys) S = rbind (write_facts H xs S) (write_facts H ys)"
proof (induction xs arbitrary: S)
  case (Cons x xs)
  have c: "write_facts H (w # ws) T = rbind (write_facts H [w] T) (write_facts H ws)" for w ws T
    by (cases "write_work_record H w (st_journal T)") (simp_all add: write_facts_def)
  have ih: "write_facts H (xs @ ys) = (\<lambda>T. rbind (write_facts H xs T) (write_facts H ys))" using Cons.IH by auto
  show ?case unfolding append_Cons c[of x "xs @ ys"] c[of x xs] rbind_assoc ih by simp
qed (simp add: write_facts_def)

lemma admission_budget_safe:
  assumes b: "admission_budget H S g p c effect n = Inr facts" and w: "write_facts H facts S = Inr S'"
  shows "safe H (st_journal S) (st_journal S')"
proof (cases c)
  case (SatisfyWorkUnit v actor sat)
  obtain rs where rs: "reservations (st_journal S) = Inr rs" using b by (auto simp: admission_budget_def SatisfyWorkUnit rbind_eq_Inr)
  then have "\<exists>r. completion_facts H S r (ts_reference_id sat) = Inr facts"
    using b by (auto simp: admission_budget_def SatisfyWorkUnit rbind_eq_Inr split: list.splits)
  then show ?thesis using w completion_facts_harmless write_facts_harmless by blast
next
  case (PrepareAttempt v actor a)
  let ?op = "case effect of None \<Rightarrow> ''runtime:'' @ as_attempt_id a | Some (operation_id, _) \<Rightarrow> operation_id"
  obtain first S1 second where f: "(if as_remediation_of a = None then Inr []
        else reservation_facts H S g p (as_attempt_id a) (''remediation:'' @ as_attempt_id a) WorkRemediation 0) = Inr first"
      "write_facts H first S = Inr S1" "reservation_facts H S1 g p (as_attempt_id a) ?op WorkAttempt n = Inr second" "facts = first @ second"
    using b unfolding admission_budget_def PrepareAttempt domain_command.case rbind_eq_Inr by blast
  have "safe H (st_journal S) (st_journal S1)"
  proof (cases "as_remediation_of a")
    case None
    then show ?thesis using f(1,2) by (simp add: write_facts_def)
  next
    case (Some x)
    then show ?thesis using f(1,2) reservation_safe by simp
  qed
  moreover have "write_facts H second S1 = Inr S'" using w f(2,4) by (simp add: write_facts_append)
  then have "safe H (st_journal S1) (st_journal S')" by (rule reservation_safe[OF f(3)])
  ultimately show ?thesis by (rule safe_trans)
qed (use b w in \<open>simp_all add: admission_budget_def write_facts_def\<close>)

definition foreign_effect :: "effect_intent option \<Rightarrow> bool" where
  "foreign_effect effect \<longleftrightarrow> (case effect of None \<Rightarrow> True | Some (i, _, request) \<Rightarrow> foreign i \<and> unique_keys (JObj request))"

definition harmless_facts :: "work_fact list sres \<Rightarrow> bool" where
  "harmless_facts r \<longleftrightarrow> (case r of Inl _ \<Rightarrow> True | Inr ws \<Rightarrow> list_all harmless ws)"

lemma insert_effect_safe: "insert_effect H effect S = Inr S' \<Longrightarrow> foreign_effect effect \<Longrightarrow> safe H (st_journal S) (st_journal S')"
  using insert_foreign_safe by (cases effect) (fastforce simp: insert_effect_def foreign_effect_def rbind_eq_Inr)+

lemma admission_safe:
  assumes a: "admit_decision H vd i key c effect S = Inr (p, S')" and e: "foreign_effect effect"
    and v: "is_prepare c \<Longrightarrow> harmless_facts (vd_dispatch vd)" "is_prepare c \<Longrightarrow> harmless_facts (vd_workspace vd)"
    and b: "\<And>b facts S1. admission_facts vd b i c effect = Inr facts \<Longrightarrow> write_facts H facts S = Inr S1 \<Longrightarrow> safe H (st_journal S) (st_journal S1)"
  shows "safe H (st_journal S) (st_journal S')"
  using a
proof (cases rule: admission_journal)
  case (fresh bd facts S1 S2 S3 dfacts S4 wfacts)
  have "safe H (st_journal S) (st_journal S1)" by (rule b[OF fresh(1,2)])
  moreover have "safe H (st_journal S1) (st_journal S2)" using fresh(3) by simp
  moreover have "safe H (st_journal S2) (st_journal S3)" by (rule insert_effect_safe[OF fresh(4) e])
  moreover have "safe H (st_journal S3) (st_journal S4)"
    by (rule write_facts_harmless[OF fresh(6)]) (use fresh(5) v(1) in \<open>auto simp: harmless_facts_def list_all_iff\<close>)
  moreover have "safe H (st_journal S4) (st_journal S')"
    by (rule write_facts_harmless[OF fresh(8)]) (use fresh(7) v(2) in \<open>auto simp: harmless_facts_def list_all_iff\<close>)
  ultimately show ?thesis by (meson safe_trans)
qed simp

lemma admission_facts_cases:
  assumes "admission_facts vd b i c effect = Inr facts"
  shows "facts = [] \<or> (\<exists>a x. facts = [unbound_fact i a x]) \<or> vd_budget vd = Inr facts"
proof (cases b)
  case True
  then show ?thesis using assms by (cases c) (simp_all add: admission_facts_def)
next
  case False
  show ?thesis
  proof (cases effect)
    case None
    then show ?thesis using assms False by (cases c) (simp_all add: admission_facts_def)
  next
    case (Some e)
    obtain x k request where e: "e = (x, k, request)" by (cases e)
    show ?thesis using assms False Some e by (cases c) (simp_all add: admission_facts_def, metis)
  qed
qed

lemma budgeted_admit_safe:
  assumes a: "budgeted_admit H g vd i key c effect n S = Inr (p, S')" and "foreign_effect effect"
    and "harmless_facts (vd_dispatch vd)" and "harmless_facts (vd_workspace vd)"
  shows "safe H (st_journal S) (st_journal S')"
proof (rule admission_safe[OF admit_Inr[OF a[unfolded budgeted_admit_def]]])
  fix b facts S1
  assume f: "admission_facts (vd\<lparr>vd_budget := admission_budget H S g i c effect n\<rparr>) b i c effect = Inr facts"
    and w: "write_facts H facts S = Inr S1"
  have "facts = [] \<or> (\<exists>a x. facts = [unbound_fact i a x]) \<or> admission_budget H S g i c effect n = Inr facts"
    using admission_facts_cases[OF f] by simp
  then show "safe H (st_journal S) (st_journal S1)"
  proof (elim disjE)
    assume "facts = []"
    then show ?thesis using w by (simp add: write_facts_def)
  next
    assume "\<exists>a x. facts = [unbound_fact i a x]"
    then show ?thesis using write_facts_harmless[OF w] by auto
  next
    assume "admission_budget H S g i c effect n = Inr facts"
    then show ?thesis by (rule admission_budget_safe[OF _ w])
  qed
qed (use assms in simp_all)

lemma stop_safe:
  assumes "stop_ordinary_program H vd i key actor e n S = Inr (p', S')"
  shows "safe H (st_journal S) (st_journal S')"
proof -
  obtain p S1 where p: "(if pg_status p \<notin> {ProgramCancelled, ProgramCompleted}
       then (let c = CancelProgram (pg_revision p) actor in
         rbind (guard (command_ok c) (StoreDomainError InvalidDomainValue)) (\<lambda>_. admit_decision H vd i key c None S))
       else Inr (p, S)) = Inr (p', S1)" "record_revocation H i e S1 = Inr S'"
    using assms by (auto simp: stop_ordinary_program_def rbind_eq_Inr)
  have "safe H (st_journal S) (st_journal S1)"
  proof (cases "pg_status p \<in> {ProgramCancelled, ProgramCompleted}")
    case True
    then show ?thesis using p(1) by simp
  next
    case False
    then have "admit_decision H vd i key (CancelProgram (pg_revision p) actor) None S = Inr (p', S1)"
      using p(1) by (simp add: Let_def rbind_eq_Inr guard_eq_Inr)
    then show ?thesis
      by (rule admission_safe) (auto simp: foreign_effect_def is_prepare_def admission_facts_def write_facts_def)
  qed
  then show ?thesis using revocation_safe[OF p(2)] by (rule safe_trans)
qed

lemma claim_safe:
  assumes "claim_operation H granted owned i now lease J = Inr (fence, J')"
    and "\<And>time facts J1. granted = Inr (time, facts) \<Longrightarrow> write_work_records H facts J = Inr J1 \<Longrightarrow> safe H J J1"
  shows "safe H J J'"
  using assms(1)
proof (cases rule: claim_operation_Inr)
  case (1 op J1 time request)
  have "safe H J J1"
    using 1(2) by (cases rule: claim_authority_cases) (use assms(2) in auto)
  moreover have "safe H J1 J'" by (rule safe_same) (simp_all add: 1(10) requests_def update_operation_def archives_same)
  ultimately show ?thesis by (rule safe_trans)
qed

lemma delivery_grant_facts:
  assumes "delivery_grant H g owned i now S = Inr (time, facts)"
  shows "facts = [] \<or> (\<exists>p a x. reservation_facts H S g p a x WorkRetry 0 = Inr facts)"
proof -
  obtain found where f: "find_reservation H (st_journal S) i = Inr found" using assms by (auto simp: delivery_grant_def rbind_eq_Inr)
  obtain r where r: "found = Some r" using assms f by (cases found) (auto simp: delivery_grant_def)
  show ?thesis
    using assms unfolding delivery_grant_def f r rbind.simps option.case Let_def by (auto simp: rbind_eq_Inr split: if_splits)
qed

lemma budgeted_claim_safe:
  assumes "budgeted_claim H g owned i now lease S = Inr (fence, S')"
  shows "safe H (st_journal S) (st_journal S')"
proof -
  obtain J where J: "claim_operation H (delivery_grant H g owned i now S) owned i now lease (st_journal S) = Inr (fence, J)" "st_journal S' = J"
    using assms by (auto simp: budgeted_claim_def rbind_eq_Inr)
  show ?thesis unfolding J(2)
  proof (rule claim_safe[OF J(1)])
    fix time facts J1
    assume d: "delivery_grant H g owned i now S = Inr (time, facts)" and w: "write_work_records H facts (st_journal S) = Inr J1"
    from delivery_grant_facts[OF d] show "safe H (st_journal S) J1"
    proof
      assume "facts = []"
      then show ?thesis using w by simp
    next
      assume "\<exists>p a x. reservation_facts H S g p a x WorkRetry 0 = Inr facts"
      then obtain p a x where r: "reservation_facts H S g p a x WorkRetry 0 = Inr facts" by blast
      have "write_facts H facts S = Inr (S\<lparr>st_journal := J1\<rparr>)" using w by (simp add: write_facts_def)
      from reservation_safe[OF r this] show ?thesis by simp
    qed
  qed
qed

lemma rebuild_journal:
  assumes "rebuild_projections H S = Inr (n, S')"
  shows "st_journal S' = st_journal S"
proof -
  have all: "st_journal T' = st_journal T" if "write_all es T = Inr T'" for es T T'
    using that
  proof (induction es arbitrary: T)
    case (Cons e es)
    obtain i p q raw dg where e: "e = (i, p, q, raw, dg)" by (cases e)
    obtain T1 where "write_projections p q raw dg T = Inr T1" "write_all es T1 = Inr T'" using Cons.prems by (auto simp: e rbind_eq_Inr)
    then show ?case using Cons.IH write_projections_effect(3) by metis
  qed simp
  obtain heads where "write_all heads (delete_projection (\<lambda>_. True) S) = Inr S'"
    using assms by (auto simp: rebuild_projections_def rbind_eq_Inr)
  from all[OF this] show ?thesis by (simp add: delete_projection_def)
qed

lemma budgeted_intent_safe:
  assumes "budgeted_intent H g p a k i e request n S = Inr S'" and f: "foreign i" "unique_keys (JObj request)"
  shows "safe H (st_journal S) (st_journal S')"
proof -
  obtain existed :: "entries option" and S1 J S3 where r: "reserve_work H g p a i k n S = Inr S1" "insert_intent H True i e request (st_journal S1) = Inr J"
      "(if existed = None \<or> find_row (st_journal S) i = None then bind_work_dispatch H p a i (S1\<lparr>st_journal := J\<rparr>)
        else Inr (S1\<lparr>st_journal := J\<rparr>)) = Inr S3" "S' = S3"
    using assms(1) unfolding budgeted_intent_def Let_def rbind_eq_Inr sum.inject by blast
  have "safe H J (st_journal S')"
  proof (cases "existed = None \<or> find_row (st_journal S) i = None")
    case True
    then obtain sp row where "write_facts H [(''dispatch-binding'', i, dispatch_fields H p a sp row)] (S1\<lparr>st_journal := J\<rparr>) = Inr S'"
      using r(3,4) by (auto simp: bind_work_dispatch_def rbind_eq_Inr)
    from write_facts_harmless[OF this] show ?thesis by simp
  next
    case False
    then show ?thesis using r(3,4) by auto
  qed
  with reserve_work_safe[OF r(1)] insert_foreign_safe[OF r(2) f] show ?thesis by (meson safe_trans)
qed

section \<open>The ledger machine\<close>

datatype ledger_call =
    LedgerCreate program_spec string
  | LedgerRebuild
  | LedgerJournal journal_call
  | LedgerConfigure string string work_budget_policy work_budget_policy deadline_projection
  | LedgerReserve work_guards string string string work_kind int
  | LedgerRetry work_guards string
  | LedgerIntent work_guards string string work_kind string string entries int
  | LedgerAdmit work_guards verdicts string string domain_command "effect_intent option" int
  | LedgerStop verdicts string string string string "int option"
  | LedgerClaim work_guards bool string int int
  | LedgerComplete string string
  | LedgerSettle work_guards string string "int option"
  | LedgerRetain string int
  | LedgerRevoke string string "int option"

fun ledger_step :: "hash \<Rightarrow> store \<Rightarrow> ledger_call \<Rightarrow> store sres" where
  "ledger_step H S (LedgerCreate sp key) = map_sum id snd (create_program H sp key S)"
| "ledger_step H S LedgerRebuild = map_sum id snd (rebuild_projections H S)"
| "ledger_step H S (LedgerJournal c) = rbind (journal_step H (st_journal S) c) (\<lambda>J. Inr (S\<lparr>st_journal := J\<rparr>))"
| "ledger_step H S (LedgerConfigure p q P T D) = configure_work_budget H p q P T D S"
| "ledger_step H S (LedgerReserve g p a i k n) = reserve_work H g p a i k n S"
| "ledger_step H S (LedgerRetry g i) = retry_work H g i S"
| "ledger_step H S (LedgerIntent g p a k i e request n) = budgeted_intent H g p a k i e request n S"
| "ledger_step H S (LedgerAdmit g vd p key c effect n) = map_sum id snd (budgeted_admit H g vd p key c effect n S)"
| "ledger_step H S (LedgerStop vd p key actor evidence n) = map_sum id snd (stop_ordinary_program H vd p key actor evidence n S)"
| "ledger_step H S (LedgerClaim g owned i now lease) = map_sum id snd (budgeted_claim H g owned i now lease S)"
| "ledger_step H S (LedgerComplete i evidence) = record_work_completion H i evidence S"
| "ledger_step H S (LedgerSettle g i evidence fence) = record_work_settlement H g i evidence fence S"
| "ledger_step H S (LedgerRetain i n) = record_retained_bytes H i n S"
| "ledger_step H S (LedgerRevoke p evidence n) = revoke_work_budget H p evidence n S"

text \<open>
  Callers name operations outside the store's own \<open>work-budget:v1:\<close> identities and pass constructed policies
  and dictionaries. A claim goes through \<open>LedgerClaim\<close>, which decides its budget.
\<close>

fun ledger_call_ok :: "ledger_call \<Rightarrow> bool" where
  "ledger_call_ok (LedgerJournal (CallIntent i _ request)) \<longleftrightarrow> foreign i \<and> unique_keys (JObj request)"
| "ledger_call_ok (LedgerJournal (CallClaim _ _ _ _ _)) \<longleftrightarrow> False"
| "ledger_call_ok (LedgerConfigure _ _ P T _) \<longleftrightarrow> wf_policy_budget P \<and> wf_policy_budget T"
| "ledger_call_ok (LedgerIntent _ _ _ _ i _ request _) \<longleftrightarrow> foreign i \<and> unique_keys (JObj request)"
| "ledger_call_ok (LedgerAdmit _ vd _ _ _ effect _) \<longleftrightarrow>
     foreign_effect effect \<and> harmless_facts (vd_dispatch vd) \<and> harmless_facts (vd_workspace vd)"
| "ledger_call_ok _ \<longleftrightarrow> True"

abbreviation ledger_reaches :: "hash \<Rightarrow> store \<Rightarrow> store \<Rightarrow> bool" where
  "ledger_reaches H \<equiv> reaches (ledger_step H) ledger_call_ok"

lemma journal_call_safe:
  assumes "journal_step H J c = Inr J'" and ok: "ledger_call_ok (LedgerJournal c)"
  shows "safe H J J'"
proof (cases c)
  case (CallIntent i e request)
  then show ?thesis using assms insert_foreign_safe by (auto simp: intent_def rbind_eq_Inr)
next
  case (CallClaim granted owned i now lease)
  then show ?thesis using ok by simp
next
  case (CallTransport i fence b)
  then have "J' = J \<or> J' = J\<lparr>jn_transports := jn_transports J @ [\<lparr>tr_operation = i, tr_fence = fence, tr_succeeded = b\<rparr>]\<rparr>"
    using record_transport_Inr[of i fence b J J'] assms(1) by simp
  then show ?thesis by (intro safe_same) (auto simp: requests_def intro: archives_same)
next
  case (CallObserve i fence oid k ref)
  then have "observe i fence oid k ref J = Inr J'" using assms(1) by simp
  then show ?thesis by (cases rule: observe_Inr) (auto intro!: safe_same archives_same simp: requests_def update_operation_def)
next
  case (CallReconcile i fence out now ev ref m ab)
  then have "reconcile i fence out now ev ref m ab J = Inr J'" using assms(1) by simp
  then show ?thesis by (cases rule: reconcile_Inr) (auto intro!: safe_same archives_same simp: requests_def update_operation_def)
next
  case (CallFinalize budget i name data)
  then have "finalize_artifact H budget i name data J = Inr J'" using assms(1) by simp
  then show ?thesis
  proof (cases rule: finalize_artifact_Inr)
    case (1 J1)
    have "requests J1 = requests J" by (subst stage_blob_tables[OF 1(1)]) (simp add: requests_def)
    then show ?thesis using 1(3) finalize_archives[of H budget i name data J J'] CallFinalize assms(1)
      by (intro safe_same) (auto simp: requests_def)
  qed
qed

lemma retry_safe:
  assumes "retry_work H g i S = Inr S'"
  shows "safe H (st_journal S) (st_journal S')"
proof -
  obtain found where f: "find_reservation H (st_journal S) i = Inr found" using assms by (auto simp: retry_work_def rbind_eq_Inr)
  with assms have "\<exists>p a x. reserve_work H g p a x WorkRetry 0 S = Inr S'"
    by (cases found) (auto simp: retry_work_def Let_def rbind_eq_Inr)
  then show ?thesis using reserve_work_safe by blast
qed

lemma ledger_step_safe:
  assumes c: "ledger_call_ok c" and s: "ledger_step H S c = Inr S'"
  shows "safe H (st_journal S) (st_journal S')"
proof (cases c)
  case (LedgerCreate sp key)
  then show ?thesis using s create_journal by (fastforce simp: map_snd_Inr)
next
  case LedgerRebuild
  then show ?thesis using s rebuild_journal by (fastforce simp: map_snd_Inr)
next
  case (LedgerJournal jc)
  then show ?thesis using s c journal_call_safe[of H "st_journal S" jc] by (auto simp: rbind_eq_Inr)
next
  case (LedgerAdmit g vd p key cm effect n)
  then show ?thesis using s c budgeted_admit_safe[of H g vd p key cm effect n S] by (auto simp: map_snd_Inr)
next
  case (LedgerStop vd p key actor e n)
  then show ?thesis using s stop_safe by (fastforce simp: map_snd_Inr)
next
  case (LedgerClaim g owned i now lease)
  then show ?thesis using s budgeted_claim_safe by (fastforce simp: map_snd_Inr)
qed (use s c in \<open>auto intro: configure_safe reserve_work_safe retry_safe budgeted_intent_safe completion_safe settlement_safe
    retained_safe revoke_safe\<close>)

lemma books_empty: "books H (requests (st_journal empty_store))"
  by (simp add: books_def requests_def empty_store_def empty_journal_def look_def exclusive_def bookings_def)

interpretation ledgers: recording_machine "ledger_step H" ledger_call_ok "\<lambda>S. S = empty_store" "\<lambda>S. books H (requests (st_journal S))"
  "\<lambda>S S'. posts (st_journal S) (st_journal S')" for H
proof
  show "S = empty_store \<Longrightarrow> books H (requests (st_journal S))" for S using books_empty by blast
  show "books H (requests (st_journal S)) \<Longrightarrow> ledger_call_ok c \<Longrightarrow> ledger_step H S c = Inr S' \<Longrightarrow> books H (requests (st_journal S'))" for S c S'
    using ledger_step_safe by (auto simp: safe_def)
  show "posts (st_journal S) (st_journal S)" for S by (rule posts_refl)
  show "posts (st_journal S) (st_journal S') \<Longrightarrow> posts (st_journal S') (st_journal S'') \<Longrightarrow> posts (st_journal S) (st_journal S'')" for S S' S''
    by (rule posts_trans)
  show "books H (requests (st_journal S)) \<Longrightarrow> ledger_call_ok c \<Longrightarrow> ledger_step H S c = Inr S' \<Longrightarrow> posts (st_journal S) (st_journal S')" for S c S'
    using ledger_step_safe by (auto simp: safe_def)
qed

lemma reachable_books: "ledger_reaches H empty_store S \<Longrightarrow> books H (requests (st_journal S))"
  using ledgers.reachable_inv[of empty_store H S] by blast

section \<open>Capacity\<close>

lemma active_work_total:
  assumes "books H (requests J)"
  shows "\<exists>active. active_work H J rs = Inr active"
proof -
  have "active_in H J r = Inr (projr (active_in H J r))" for r
  proof -
    obtain s where "look H (requests J) ''settlement'' (rv_operation r) = Inr s" by (rule look_total[OF assms])
    then show ?thesis by (simp add: active_in_def work_record_look)
  qed
  then have "mapM (active_in H J) rs = Inr (map (\<lambda>r. projr (active_in H J r)) rs)" by (intro mapM_total) blast
  then show ?thesis by (simp add: active_work_def)
qed

lemma held_total:
  assumes ok: "books H (requests J)"
  shows "mapM (retained_work_bytes H J (\<lambda>_ _. False)) rs = Inr (map (held H (requests J)) rs)"
proof (rule mapM_total)
  fix r :: reservation
  let ?L = "requests J" and ?i = "rv_operation r"
  obtain final where f: "look H ?L ''retained'' ?i = Inr final" by (rule look_total[OF ok])
  show "retained_work_bytes H J (\<lambda>_ _. False) r = Inr (held H ?L r)"
  proof (cases final)
    case None
    then show ?thesis using f by (simp add: retained_work_bytes_def held_def work_record_look)
  next
    case (Some e)
    obtain raw where raw: "map_of ?L (work_key H ''retained'' ?i) = Some raw" "request_in raw = Inr e"
      using f Some by (auto simp: look_def rbind_eq_Inr split: option.splits)
    have "retained_entry H ?L (work_key H ''retained'' ?i, raw)"
      using booksD(4)[OF ok map_of_SomeD[OF raw(1)]] by (simp add: prefix_work_key)
    then obtain x b where "raw = request_envelope (work_fields (''retained'', x, retained_fields x b))" by (auto simp: retained_entry_def)
    then have "e = canon_fields (work_fields (''retained'', x, retained_fields x b))"
      using raw(2) request_in_envelope[OF unique_retained] by simp
    then have "entry_int e ''bytes'' = Inr b" by (simp add: read_own_bytes)
    then show ?thesis using f Some by (simp add: retained_work_bytes_def held_def work_record_look)
  qed
qed


section \<open>Authority\<close>

lemma authority_needs:
  assumes "check_work_authority H S view p = Inr ()"
  obtains binding head projection r previous where "work_binding H S p = Inr (Some binding)" "load_head H S p = Inr head"
    "entry_str binding ''spec_digest'' = Inr (spec_digest H (pg_spec head))" "entry_projection binding = Inr projection"
    "cv_pending view = Some False" "cv_reading view = Some (Some r)" "verifiable projection (Some r)"
    "cv_floor view = Some previous" "bc_wall previous \<le> bc_wall r" "bc_boot_ns previous \<le> bc_boot_ns r"
    "decision_time projection (Some r) < dp_wall_deadline projection"
    "work_record H (st_journal S) ''revoked'' p = Inr None" "pg_status head \<noteq> ProgramCancelled"
proof -
  obtain b where b: "work_binding H S p = Inr b" using assms by (auto simp: check_work_authority_def rbind_eq_Inr)
  obtain binding where binding: "b = Some binding" using assms b by (cases b) (auto simp: check_work_authority_def)
  obtain head projection now where a: "load_head H S p = Inr head" "entry_str binding ''spec_digest'' = Inr (spec_digest H (pg_spec head))"
      "entry_projection binding = Inr projection" "work_decision_time H S view p = Inr now" "now < dp_wall_deadline projection"
      "work_record H (st_journal S) ''revoked'' p = Inr None" "pg_status head \<noteq> ProgramCancelled"
    using assms by (auto simp: check_work_authority_def b binding rbind_eq_Inr guard_eq_Inr)
  have pending: "cv_pending view = Some False" using a(4) b binding a(3) by (auto simp: work_decision_time_def split: if_splits)
  obtain reading where reading: "cv_reading view = Some reading"
    using a(4) b binding a(3) pending by (cases "cv_reading view") (auto simp: work_decision_time_def)
  have t: "verifiable projection reading" "now = decision_time projection reading"
      "check_floor (cv_floor view) reading = Inr ()"
    using a(4) b binding a(3) pending reading by (simp_all add: work_decision_time_def rbind_eq_Inr guard_eq_Inr)
  then obtain r where r: "reading = Some r" by (cases reading) simp_all
  then obtain previous where "cv_floor view = Some previous" "bc_wall previous \<le> bc_wall r" "bc_boot_ns previous \<le> bc_boot_ns r"
    using t(3) by (cases "cv_floor view") (simp_all add: check_floor_def guard_eq_Inr not_less)
  then show ?thesis using that[of binding head projection r previous] b binding a pending reading t r by simp
qed

lemma entry_projection_wf: "entry_projection e = Inr projection \<Longrightarrow> wf_deadline projection"
proof -
  assume "entry_projection e = Inr projection"
  then obtain v where "lift_deadline (decode_deadline v) = Inr projection" by (auto simp: entry_projection_def rbind_eq_Inr)
  then have "decode_deadline v = Inr projection" by (cases "decode_deadline v") (simp_all add: lift_deadline_def)
  then show ?thesis using deadline_roundtrip[of projection v projection] by simp
qed

lemma check_scope_Inr:
  assumes "check_scope_capacity H J claimed policy rs r = Inr ()"
  obtains limit active bytes where "map_of (wb_counts policy) (rv_category r) = Some limit" "kind_count (rv_category r) rs + 1 \<le> limit"
    "active_work H J rs = Inr active" "(rv_program r, rv_attempt r) \<in> set active \<or> int (length active) + 1 \<le> wb_max_active policy"
    "mapM (retained_work_bytes H J claimed) rs = Inr bytes" "sum_list bytes + rv_retained r \<le> wb_retained_bytes policy"
proof -
  obtain limit where l: "map_of (wb_counts policy) (rv_category r) = Some limit"
    using assms by (cases "map_of (wb_counts policy) (rv_category r)") (simp_all add: check_scope_capacity_def)
  obtain active bytes where s: "\<not> limit \<le> kind_count (rv_category r) rs" "active_work H J rs = Inr active"
      "\<not> ((rv_program r, rv_attempt r) \<notin> set active \<and> wb_max_active policy \<le> int (length active))"
      "mapM (retained_work_bytes H J claimed) rs = Inr bytes" "\<not> wb_retained_bytes policy < sum_list bytes + rv_retained r"
    using assms unfolding check_scope_capacity_def l option.case rbind_eq_Inr guard_eq_Inr by blast
  have "kind_count (rv_category r) rs + 1 \<le> limit" using s(1) by simp
  moreover have "(rv_program r, rv_attempt r) \<in> set active \<or> int (length active) + 1 \<le> wb_max_active policy" using s(3) by linarith
  moreover have "sum_list bytes + rv_retained r \<le> wb_retained_bytes policy" using s(5) by linarith
  ultimately show ?thesis by (rule that[OF l _ s(2) _ s(4)])
qed

text \<open>
  (C33) No work is reserved without current authority. A new reservation succeeds only if the program is bound to
  a budget for exactly its current specification, is neither cancelled nor revoked, both clocks stand
  before the approved deadline and not behind their committed floors, and the reservation fits the policy
  of the program together with everything already reserved for it.
\<close>

theorem reservations_need_authority:
  assumes "reserve_work H g p a i k n S = Inr S'" and "work_record H (st_journal S) ''reservation'' i = Inr None"
  shows "\<exists>binding head projection r previous policy records limit active bytes.
    work_binding H S p = Inr (Some binding) \<and> load_head H S p = Inr head \<and> pg_status head \<noteq> ProgramCancelled
    \<and> entry_str binding ''spec_digest'' = Inr (spec_digest H (pg_spec head))
    \<and> work_record H (st_journal S) ''revoked'' p = Inr None
    \<and> entry_projection binding = Inr projection \<and> cv_reading (wg_clock g) = Some (Some r)
    \<and> bc_wall r < dp_wall_deadline projection \<and> bc_boot_ns r < dp_boot_deadline_ns projection
    \<and> cv_floor (wg_clock g) = Some previous \<and> bc_wall previous \<le> bc_wall r \<and> bc_boot_ns previous \<le> bc_boot_ns r
    \<and> entry_policy binding = Inr policy \<and> reservations (st_journal S) = Inr records
    \<and> map_of (wb_counts policy) k = Some limit \<and> kind_count k (filter (\<lambda>x. rv_program x = p) records) + 1 \<le> limit
    \<and> active_work H (st_journal S) (filter (\<lambda>x. rv_program x = p) records) = Inr active
    \<and> ((p, a) \<in> set active \<or> int (length active) + 1 \<le> wb_max_active policy)
    \<and> mapM (retained_work_bytes H (st_journal S) (wg_claimed g)) (filter (\<lambda>x. rv_program x = p) records) = Inr bytes
    \<and> sum_list bytes + n \<le> wb_retained_bytes policy"
proof -
  obtain facts where f: "reservation_facts H S g p a i k n = Inr facts" using assms(1) by (auto simp: reserve_work_def rbind_eq_Inr)
  then show ?thesis
  proof (cases rule: reservation_facts_Inr)
    case (again binding q stored)
    then show ?thesis using assms(2) by simp
  next
    case (fresh binding q)
    let ?r = "\<lparr>rv_program = p, rv_project = q, rv_attempt = a, rv_operation = i, rv_category = k, rv_retained = n\<rparr>"
    obtain head projection r previous where a: "load_head H S p = Inr head" "entry_str binding ''spec_digest'' = Inr (spec_digest H (pg_spec head))"
        "entry_projection binding = Inr projection" "cv_reading (wg_clock g) = Some (Some r)" "verifiable projection (Some r)"
        "cv_floor (wg_clock g) = Some previous" "bc_wall previous \<le> bc_wall r" "bc_boot_ns previous \<le> bc_boot_ns r"
        "decision_time projection (Some r) < dp_wall_deadline projection"
        "work_record H (st_journal S) ''revoked'' p = Inr None" "pg_status head \<noteq> ProgramCancelled"
      using fresh(6) fresh(2) by (auto elim: authority_needs)
    have "\<not> dp_wall_deadline projection \<le> decision_time projection (Some r)" using a(9) by simp
    then have clocks: "bc_wall r < dp_wall_deadline projection" "bc_boot_ns r < dp_boot_deadline_ns projection"
      using deadline_expires_exactly[OF entry_projection_wf[OF a(3)], of "Some r"] a(5) by simp_all
    obtain records policy where c: "reservations (st_journal S) = Inr records" "entry_policy binding = Inr policy"
        "check_scope_capacity H (st_journal S) (wg_claimed g) policy (filter (\<lambda>x. rv_program x = rv_program ?r) records) ?r = Inr ()"
      using fresh(7) by (auto simp: check_capacity_def rbind_eq_Inr split: option.splits)
    from c(3) show ?thesis
    proof (cases rule: check_scope_Inr)
      case (1 limit active bytes)
      then show ?thesis using fresh(2) a clocks c(1,2) by auto
    qed
  qed
qed

section \<open>Revocation\<close>

lemma look_None_iff: "look H L t x = Inr None \<longleftrightarrow> work_key H t x \<notin> fst ` set L"
proof
  assume l: "look H L t x = Inr None"
  then have "map_of L (work_key H t x) = None" by (cases "map_of L (work_key H t x)") (auto simp: look_def rbind_eq_Inr)
  then show "work_key H t x \<notin> fst ` set L" by (simp add: map_of_eq_None_iff)
qed (rule look_none)

lemma insert_intent_present:
  assumes "insert_intent H allow i e request J = Inr J'"
  shows "i \<in> fst ` set (requests J')"
proof (cases "filter (\<lambda>row. op_id row = i \<or> op_effect_key row = e) (jn_operations J) = []")
  case True
  then show ?thesis using assms by (auto simp: insert_intent_def Let_def rbind_eq_Inr guard_eq_Inr requests_def)
next
  case False
  let ?found = "filter (\<lambda>row. op_id row = i \<or> op_effect_key row = e) (jn_operations J)"
  have found: "J' = J \<and> \<not> (length ?found \<noteq> 1 \<or> list_ex (\<lambda>row. op_id row \<noteq> i \<or> op_effect_key row \<noteq> e
      \<or> op_request_digest row \<noteq> H (request_envelope request)) ?found)"
    using assms False unfolding insert_intent_def Let_def by (simp only: if_True not_False_eq_True rbind_eq_Inr guard_eq_Inr sum.inject) blast
  obtain row where row: "row \<in> set ?found" using False by (cases ?found) auto
  have "\<not> list_ex (\<lambda>row. op_id row \<noteq> i \<or> op_effect_key row \<noteq> e \<or> op_request_digest row \<noteq> H (request_envelope request)) ?found"
    using found by blast
  then have "op_id row = i" using row unfolding list_ex_iff by meson
  moreover have "row \<in> set (jn_operations J)" using row by simp
  ultimately show ?thesis unfolding conjunct1[OF found] by (force simp: requests_def)
qed

lemma revocation_recorded:
  assumes "revoke_work_budget H p evidence n S = Inr S'"
  shows "work_key H ''revoked'' p \<in> fst ` set (requests (st_journal S'))"
proof -
  have r: "record_revocation H p evidence S = Inr S'" using assms by (auto simp: revoke_work_budget_def rbind_eq_Inr)
  obtain found where f: "look H (requests (st_journal S)) ''revoked'' p = Inr found"
    using r by (auto simp: record_revocation_def rbind_eq_Inr work_record_look)
  show ?thesis
  proof (cases found)
    case None
    then have "insert_intent H True (work_key H ''revoked'' p) (work_key H ''revoked'' p) (work_fields (revoked_fact p evidence)) (st_journal S)
        = Inr (st_journal S')"
      using r f by (auto simp: record_revocation_def work_record_look write_facts_journal rbind_eq_Inr write_work_record_def
        revoked_fact_def Let_def)
    then show ?thesis by (rule insert_intent_present)
  next
    case (Some e)
    then have "S' = S" using r f by (auto simp: record_revocation_def work_record_look rbind_eq_Inr)
    then show ?thesis using f Some look_None_iff[of H "requests (st_journal S)" "''revoked''" p] by simp
  qed
qed

lemma posts_keys: "posts J J' \<Longrightarrow> k \<in> fst ` set (requests J) \<Longrightarrow> k \<in> fst ` set (requests J')"
  by (auto simp: posts_def)

lemma revoked_no_authority:
  assumes "work_key H ''revoked'' p \<in> fst ` set (requests (st_journal S))"
  shows "check_work_authority H S view p \<noteq> Inr ()"
proof
  assume "check_work_authority H S view p = Inr ()"
  then have "work_record H (st_journal S) ''revoked'' p = Inr None" by (auto elim: authority_needs)
  then show False using assms by (simp add: work_record_look look_None_iff)
qed

text \<open>
  (C34) A revocation is final. Once the budget of a program is revoked, no later state of the store gives it
  authority again: a reservation that still succeeds is the replay of a recorded one and changes nothing,
  and none of its reserved operations may be dispatched, whatever clocks and checks say.
\<close>

theorem revoked_budgets_stay_revoked:
  assumes "ledger_reaches H empty_store S" and "revoke_work_budget H p evidence n S = Inr S1" and "ledger_reaches H S1 S2"
  shows "(\<forall>view. check_work_authority H S2 view p \<noteq> Inr ())
    \<and> (\<forall>g a i k b S3. reserve_work H g p a i k b S2 = Inr S3 \<longrightarrow> S3 = S2 \<and> work_record H (st_journal S2) ''reservation'' i \<noteq> Inr None)
    \<and> (\<forall>g i r. find_reservation H (st_journal S2) i = Inr (Some r) \<longrightarrow> rv_program r = p \<longrightarrow> check_work_dispatch H g i S2 \<noteq> Inr ())"
proof -
  have "ledger_reaches H empty_store S1"
    by (rule reaches_step[OF assms(1), of "LedgerRevoke p evidence n"]) (simp_all add: assms(2))
  then have "posts (st_journal S1) (st_journal S2)" using ledgers.reaches_extends[OF assms(3) reachable_books] by blast
  then have key: "work_key H ''revoked'' p \<in> fst ` set (requests (st_journal S2))"
    using revocation_recorded[OF assms(2)] by (rule posts_keys)
  note none = revoked_no_authority[OF key]
  have "S3 = S2 \<and> work_record H (st_journal S2) ''reservation'' i \<noteq> Inr None" if r: "reserve_work H g p a i k b S2 = Inr S3" for g a i k b S3
  proof -
    obtain facts where f: "reservation_facts H S2 g p a i k b = Inr facts" "write_facts H facts S2 = Inr S3"
      using r by (auto simp: reserve_work_def rbind_eq_Inr)
    from f(1) show ?thesis
    proof (cases rule: reservation_facts_Inr)
      case again
      then show ?thesis using f(2) by (simp add: write_facts_def)
    next
      case fresh
      then show ?thesis using none by blast
    qed
  qed
  moreover have "check_work_dispatch H g i S2 \<noteq> Inr ()" if "find_reservation H (st_journal S2) i = Inr (Some r)" "rv_program r = p" for g i r
  proof
    assume "check_work_dispatch H g i S2 = Inr ()"
    then have "check_work_authority H S2 (wg_clock g) p = Inr ()" using that by (auto simp: check_work_dispatch_def rbind_eq_Inr)
    then show False using none by blast
  qed
  ultimately show ?thesis using none by blast
qed

section \<open>Admitted attempts\<close>

lemma stored_reservation:
  assumes ok: "books H L" and l: "look H L ''reservation'' i = Inr (Some e)"
  obtains r where "e = canon_fields (work_fields (reservation_fact r))" "read_reservation e = Inr r" "r \<in> set (bookings L)"
proof -
  obtain raw where raw: "map_of L (work_key H ''reservation'' i) = Some raw" "request_in raw = Inr e"
    using l by (auto simp: look_def rbind_eq_Inr split: option.splits)
  have entry: "(work_key H ''reservation'' i, raw) \<in> set L" by (rule map_of_SomeD[OF raw(1)])
  have "reservation_entry H L (work_key H ''reservation'' i, raw)" using booksD(3)[OF ok entry] by (simp add: prefix_work_key)
  then obtain r where r: "raw = request_envelope (work_fields (reservation_fact r))" by (auto simp: reservation_entry_def)
  then have "e = canon_fields (work_fields (reservation_fact r))" using raw(2) request_in_envelope[OF unique_reservation] by simp
  moreover have "booking (work_key H ''reservation'' i, raw) \<in> set (bookings L)" using entry by (auto simp: bookings_def prefix_work_key)
  then have "r \<in> set (bookings L)" by (simp add: r)
  ultimately show ?thesis using that read_own_reservation by simp
qed

lemma same_reservation_fact:
  assumes "same_json (JObj (canon_fields (work_fields (reservation_fact r')))) (JObj (work_fields (reservation_fact r)))"
  shows "r' = r"
proof -
  have "canon (JObj (canon_fields fs)) = JObj (canon_fields fs)" for fs using canon_idem[of "JObj fs"] by (simp add: canon_JObj)
  then have "canon_fields (work_fields (reservation_fact r')) = canon_fields (work_fields (reservation_fact r))"
    using assms by (simp add: same_json_def canon_JObj)
  then show ?thesis using read_own_reservation by (metis Inr_inject)
qed

lemma reserved_after:
  assumes ok: "books H (requests (st_journal S))" and f: "reservation_facts H S g p a i k n = Inr facts" and w: "write_facts H facts S = Inr S'"
  shows "\<exists>q. find_reservation H (st_journal S') i = Inr (Some \<lparr>rv_program = p, rv_project = q, rv_attempt = a, rv_operation = i,
    rv_category = k, rv_retained = n\<rparr>)"
  using f
proof (cases rule: reservation_facts_Inr)
  case (again binding q stored)
  then have l: "look H (requests (st_journal S)) ''reservation'' i = Inr (Some stored)" by (simp add: work_record_look)
  from stored_reservation[OF ok l] obtain r where r: "stored = canon_fields (work_fields (reservation_fact r))" "read_reservation stored = Inr r" .
  have "r = \<lparr>rv_program = p, rv_project = q, rv_attempt = a, rv_operation = i, rv_category = k, rv_retained = n\<rparr>"
    by (rule same_reservation_fact) (use again(5) r(1) in simp)
  moreover have "S' = S" using w again(1) by (simp add: write_facts_def)
  ultimately show ?thesis using again(4) r(2) by (auto simp: find_reservation_def)
next
  case (fresh binding q)
  let ?r = "\<lparr>rv_program = p, rv_project = q, rv_attempt = a, rv_operation = i, rv_category = k, rv_retained = n\<rparr>"
  let ?key = "work_key H ''reservation'' i" and ?raw = "request_envelope (work_fields (reservation_fact ?r))"
  have ins: "insert_intent H True ?key ?key (work_fields (reservation_fact ?r)) (st_journal S) = Inr (st_journal S')"
    using w by (auto simp: fresh(1) write_facts_journal rbind_eq_Inr write_work_record_def reservation_fact_def Let_def)
  note posted = insert_intent_requests[OF this] insert_intent_present[OF this]
  have new: "?key \<notin> fst ` set (requests (st_journal S))" using fresh(4) by (simp add: work_record_look look_None_iff)
  then have r: "requests (st_journal S') = requests (st_journal S) @ [(?key, ?raw)]" using posted by auto
  have "look H (requests (st_journal S')) ''reservation'' i = Inr (Some (canon_fields (work_fields (reservation_fact ?r))))"
    unfolding r using look_posted[OF new refl] by (simp add: request_in_envelope[OF unique_reservation])
  then show ?thesis using read_own_reservation[of ?r] by (simp add: find_reservation_def work_record_look)
qed

lemma find_reservation_kept:
  "find_reservation H J i = Inr (Some r) \<Longrightarrow> posts J J' \<Longrightarrow> find_reservation H J' i = Inr (Some r)"
  by (auto simp: find_reservation_def work_record_look posts_def rbind_eq_Inr dest: look_kept split: option.splits)

lemma budget_reserved:
  assumes ok: "books H (requests (st_journal S))" and b: "admission_budget H S g p (PrepareAttempt v actor a) effect n = Inr facts"
    and w: "write_facts H facts S = Inr S'"
  shows "\<exists>q. find_reservation H (st_journal S') (case effect of None \<Rightarrow> ''runtime:'' @ as_attempt_id a | Some (i, _) \<Rightarrow> i)
      = Inr (Some \<lparr>rv_program = p, rv_project = q, rv_attempt = as_attempt_id a, rv_operation = (case effect of
          None \<Rightarrow> ''runtime:'' @ as_attempt_id a | Some (i, _) \<Rightarrow> i), rv_category = WorkAttempt, rv_retained = n\<rparr>)"
    and "as_remediation_of a \<noteq> None \<Longrightarrow> \<exists>q. find_reservation H (st_journal S') (''remediation:'' @ as_attempt_id a)
      = Inr (Some \<lparr>rv_program = p, rv_project = q, rv_attempt = as_attempt_id a, rv_operation = ''remediation:'' @ as_attempt_id a,
          rv_category = WorkRemediation, rv_retained = 0\<rparr>)"
proof -
  let ?op = "case effect of None \<Rightarrow> ''runtime:'' @ as_attempt_id a | Some (operation_id, _) \<Rightarrow> operation_id"
  obtain first S1 second where f: "(if as_remediation_of a = None then Inr []
        else reservation_facts H S g p (as_attempt_id a) (''remediation:'' @ as_attempt_id a) WorkRemediation 0) = Inr first"
      "write_facts H first S = Inr S1" "reservation_facts H S1 g p (as_attempt_id a) ?op WorkAttempt n = Inr second" "facts = first @ second"
    using b unfolding admission_budget_def domain_command.case rbind_eq_Inr by blast
  have w2: "write_facts H second S1 = Inr S'" using w f(2,4) by (simp add: write_facts_append)
  have posted: "posts (st_journal S1) (st_journal S')" using reservation_safe[OF f(3) w2] by (simp add: safe_def)
  have "safe H (st_journal S) (st_journal S1)"
    using f(1,2) reservation_safe[of H S g] by (cases "as_remediation_of a") (auto simp: write_facts_def)
  then have ok1: "books H (requests (st_journal S1))" using ok by (simp add: safe_def)
  show "\<exists>q. find_reservation H (st_journal S') ?op = Inr (Some \<lparr>rv_program = p, rv_project = q, rv_attempt = as_attempt_id a,
      rv_operation = ?op, rv_category = WorkAttempt, rv_retained = n\<rparr>)"
    by (rule reserved_after[OF ok1 f(3) w2])
  assume remediation: "as_remediation_of a \<noteq> None"
  from reserved_after[OF ok f(1)[unfolded if_not_P[OF remediation]] f(2)] show "\<exists>q. find_reservation H (st_journal S') (''remediation:'' @ as_attempt_id a)
      = Inr (Some \<lparr>rv_program = p, rv_project = q, rv_attempt = as_attempt_id a, rv_operation = ''remediation:'' @ as_attempt_id a,
          rv_category = WorkRemediation, rv_retained = 0\<rparr>)"
    using find_reservation_kept[OF _ posted] by blast
qed

lemma distinct_bookings:
  assumes "books H L"
  shows "distinct (bookings L)"
proof -
  let ?es = "filter (\<lambda>e. prefix (work_prefix ''reservation'') (fst e)) L"
  have form: "e = (work_key H ''reservation'' (rv_operation (booking e)), request_envelope (work_fields (reservation_fact (booking e))))"
    if "e \<in> set ?es" for e
  proof -
    have "e \<in> set L" "prefix (work_prefix ''reservation'') (fst e)" using that by simp_all
    from booksD(3)[OF assms this] obtain r where
      r: "e = (work_key H ''reservation'' (rv_operation r), request_envelope (work_fields (reservation_fact r)))"
      by (auto simp: reservation_entry_def)
    show ?thesis unfolding r by simp
  qed
  have "inj_on booking (set ?es)"
  proof (rule inj_onI)
    fix x y assume xy: "x \<in> set ?es" "y \<in> set ?es" "booking x = booking y"
    show "x = y" by (rule trans[OF form[OF xy(1)], unfolded xy(3), OF form[OF xy(2), symmetric]])
  qed
  moreover have "distinct ?es" using booksD(2)[OF assms] by (simp add: distinct_map)
  ultimately show ?thesis by (simp add: bookings_def distinct_map)
qed

lemma filter_single:
  assumes "distinct xs" and "x \<in> set xs" and "P x" and "\<And>y. y \<in> set xs \<Longrightarrow> P y \<Longrightarrow> y = x"
  shows "filter P xs = [x]"
proof -
  have "y = x" if "y \<in> set (filter P xs)" for y by (rule assms(4)) (use that in simp_all)
  moreover have "x \<in> set (filter P xs)" using assms(2,3) by simp
  ultimately have "set (filter P xs) = {x}" by blast
  moreover have "distinct (filter P xs)" using assms(1) by simp
  ultimately have "length (filter P xs) = 1" by (metis distinct_card card.empty card_insert_disjoint empty_iff finite.emptyI One_nat_def)
  then obtain y where "filter P xs = [y]" by (metis One_nat_def length_0_conv length_Suc_conv)
  then show ?thesis using \<open>set (filter P xs) = {x}\<close> by simp
qed

lemma only_reservation:
  assumes ok: "books H (requests J)" and f: "find_reservation H J i = Inr (Some r)" and "rv_category r = WorkAttempt"
  shows "\<exists>records. reservations J = Inr records
    \<and> filter (\<lambda>x. rv_program x = rv_program r \<and> rv_attempt x = rv_attempt r \<and> rv_category x = WorkAttempt) records = [r]"
proof -
  obtain e where e: "look H (requests J) ''reservation'' i = Inr (Some e)" "read_reservation e = Inr r"
    using f by (auto simp: find_reservation_def work_record_look rbind_eq_Inr split: option.splits)
  from stored_reservation[OF ok e(1)] have r: "r \<in> set (bookings (requests J))" using e(2) by (metis Inr_inject)
  obtain records where records: "reservations J = Inr records" "mset records = mset (bookings (requests J))"
    by (rule reservations_of_books[OF ok])
  have s: "set records = set (bookings (requests J))" "distinct records"
    using same_reservations(2)[OF records(2)] distinct_bookings[OF ok] mset_eq_imp_distinct_iff[OF records(2)] by simp_all
  have "filter (\<lambda>x. rv_program x = rv_program r \<and> rv_attempt x = rv_attempt r \<and> rv_category x = WorkAttempt) records = [r]"
  proof (rule filter_single)
    fix y assume y: "y \<in> set records" "rv_program y = rv_program r \<and> rv_attempt y = rv_attempt r \<and> rv_category y = WorkAttempt"
    then show "y = r" using booksD(6)[OF ok] r assms(3) unfolding exclusive_def s(1) by blast
  qed (use r s assms(3) in simp_all)
  then show ?thesis using records(1) by blast
qed

text \<open>
  (C32) No attempt of a budgeted program is prepared without capacity. When the store admits a new
  \<open>PrepareAttempt\<close> for a bound program, the attempt has a reservation under the operation that will run it,
  with the retained bytes of the call, and a remediation has a second one; in every later store they are
  still there, and no other reservation of kind attempt exists for this attempt.
\<close>

theorem prepared_attempts_are_reserved:
  assumes "ledger_reaches H empty_store S" and "ledger_call_ok (LedgerAdmit g vd p key c effect n)" and "c = PrepareAttempt v actor a"
    and "bound H S p = Inr True" and "find_admission S key = None"
    and "budgeted_admit H g vd p key c effect n S = Inr (p', S')" and "ledger_reaches H S' S''"
    and "i = (case effect of None \<Rightarrow> ''runtime:'' @ as_attempt_id a | Some (operation_id, _) \<Rightarrow> operation_id)"
  shows "\<exists>q records. find_reservation H (st_journal S'') i = Inr (Some \<lparr>rv_program = p, rv_project = q, rv_attempt = as_attempt_id a,
      rv_operation = i, rv_category = WorkAttempt, rv_retained = n\<rparr>)
    \<and> reservations (st_journal S'') = Inr records
    \<and> filter (\<lambda>r. rv_program r = p \<and> rv_attempt r = as_attempt_id a \<and> rv_category r = WorkAttempt) records
        = [\<lparr>rv_program = p, rv_project = q, rv_attempt = as_attempt_id a, rv_operation = i, rv_category = WorkAttempt, rv_retained = n\<rparr>]
    \<and> (as_remediation_of a \<noteq> None \<longrightarrow> (\<exists>r. find_reservation H (st_journal S'') (''remediation:'' @ as_attempt_id a) = Inr (Some r)
        \<and> rv_program r = p \<and> rv_attempt r = as_attempt_id a \<and> rv_category r = WorkRemediation))"
proof -
  have a: "budgeted_admit H g vd p key (PrepareAttempt v actor a) effect n S = Inr (p', S')" using assms(3,6) by simp
  let ?vd = "vd\<lparr>vd_budget := admission_budget H S g p (PrepareAttempt v actor a) effect n\<rparr>"
  have ok: "books H (requests (st_journal S))" by (rule reachable_books[OF assms(1)])
  have ok': "ledger_reaches H empty_store S'" by (rule reaches_step[OF assms(1,2)]) (simp add: assms(6))
  have later: "posts (st_journal S') (st_journal S'')" by (rule ledgers.reaches_extends[OF assms(7) reachable_books[OF ok']])
  have ok'': "books H (requests (st_journal S''))" by (rule reachable_books[OF reaches_trans[OF ok' assms(7)]])
  have call: "foreign_effect effect" "harmless_facts (vd_dispatch vd)" "harmless_facts (vd_workspace vd)" using assms(2) by simp_all
  from admit_Inr[OF a[unfolded budgeted_admit_def]] obtain S1 where
    S1: "\<exists>facts. admission_budget H S g p (PrepareAttempt v actor a) effect n = Inr facts \<and> write_facts H facts S = Inr S1"
      "posts (st_journal S1) (st_journal S')"
  proof (cases rule: admission_journal)
    case again
    then show ?thesis using assms(5) by simp
  next
    case (fresh b facts S1 S2 S3 dfacts S4 wfacts)
    have "admission_budget H S g p (PrepareAttempt v actor a) effect n = Inr facts"
      using fresh(1,9) assms(4) by (simp add: admission_facts_def)
    moreover have "safe H (st_journal S2) (st_journal S3)" by (rule insert_effect_safe[OF fresh(4) call(1)])
    moreover have "safe H (st_journal S3) (st_journal S4)"
      by (rule write_facts_harmless[OF fresh(6)]) (use fresh(5) call(2) in \<open>auto simp: harmless_facts_def list_all_iff\<close>)
    moreover have "safe H (st_journal S4) (st_journal S')"
      by (rule write_facts_harmless[OF fresh(8)]) (use fresh(7) call(3) in \<open>auto simp: harmless_facts_def list_all_iff\<close>)
    ultimately show ?thesis using that[of S1] fresh(2,3) by (auto simp: safe_def intro: posts_trans)
  qed
  obtain facts where facts: "admission_budget H S g p (PrepareAttempt v actor a) effect n = Inr facts" "write_facts H facts S = Inr S1"
    using S1(1) by blast
  note kept = find_reservation_kept[OF _ posts_trans[OF S1(2) later]]
  obtain q where q: "find_reservation H (st_journal S'') i = Inr (Some \<lparr>rv_program = p, rv_project = q, rv_attempt = as_attempt_id a,
      rv_operation = i, rv_category = WorkAttempt, rv_retained = n\<rparr>)"
    using budget_reserved(1)[OF ok facts] kept assms(8) by blast
  moreover have "\<exists>r. find_reservation H (st_journal S'') (''remediation:'' @ as_attempt_id a) = Inr (Some r)
        \<and> rv_program r = p \<and> rv_attempt r = as_attempt_id a \<and> rv_category r = WorkRemediation" if "as_remediation_of a \<noteq> None"
    using budget_reserved(2)[OF ok facts that] kept by fastforce
  moreover from only_reservation[OF ok'' q] have "\<exists>records. reservations (st_journal S'') = Inr records
    \<and> filter (\<lambda>r. rv_program r = p \<and> rv_attempt r = as_attempt_id a \<and> rv_category r = WorkAttempt) records
        = [\<lparr>rv_program = p, rv_project = q, rv_attempt = as_attempt_id a, rv_operation = i, rv_category = WorkAttempt, rv_retained = n\<rparr>]"
    by simp
  ultimately show ?thesis by blast
qed

end
