(* ===== verification/Ledger_Witnesses.thy ===== *)
theory Ledger_Witnesses
  imports Ledger_Theorems
begin

text \<open>A small budget: the demonstration program bound to a project, one reservation, one admitted attempt, a revocation.\<close>

declare canon.simps(6) [simp del]

section \<open>Writing to a small ledger\<close>

text \<open>The identities of a ledger with nothing else in the journal.\<close>

definition tidy :: "journal \<Rightarrow> bool" where
  "tidy J \<longleftrightarrow> jn_outbox J = map op_id (jn_operations J) \<and> map op_effect_key (jn_operations J) = map op_id (jn_operations J)"

lemma write_fresh:
  assumes "tidy J" and "hex_digest H" and "work_key H t x \<notin> fst ` set (requests J)"
  shows "\<exists>J'. write_work_record H (t, x, fs) J = Inr J' \<and> tidy J'
    \<and> requests J' = requests J @ [(work_key H t x, request_envelope (work_fields (t, x, fs)))]"
proof -
  let ?k = "work_key H t x"
  have ids: "?k \<notin> op_id ` set (jn_operations J)" using assms(3) by (auto simp: requests_def image_image)
  moreover have "op_effect_key ` set (jn_operations J) = op_id ` set (jn_operations J)"
    using assms(1) by (metis tidy_def set_map)
  ultimately have "filter (\<lambda>row. op_id row = ?k \<or> op_effect_key row = ?k) (jn_operations J) = []"
    unfolding filter_empty_conv by (metis image_eqI)
  then show ?thesis
    using assms ids by (simp add: write_work_record_def insert_intent_def Let_def insert_row_def hex_digest_def tidy_def requests_def)
qed

definition demo_allowance :: work_budget_policy where
  "demo_allowance = \<lparr>wb_counts = map (\<lambda>k. (k, 1)) [WorkAttempt, WorkAuxiliary, WorkHelper, WorkRemediation, WorkRetry, WorkReview,
       WorkTool, WorkVerification], wb_max_active = 1, wb_retained_bytes = 100, wb_resources = [], wb_strict_inference = False\<rparr>"

lemma demo_allowance_wf: "wf_policy_budget demo_allowance"
  by code_simp

lemma demo_allowance_read: "entry_policy (canon_fields (work_fields (project_fact ''proj'' demo_allowance))) = Inr demo_allowance"
  by code_simp

definition demo_binding :: entries where
  "demo_binding = binding_fields ''P'' ''proj'' demo_allowance demo_deadline (replicate 64 CHR ''d'')"

lemma demo_binding_read:
  "entry_policy (canon_fields (work_fields (''binding'', ''P'', demo_binding))) = Inr demo_allowance"
  "entry_projection (canon_fields (work_fields (''binding'', ''P'', demo_binding))) = Inr demo_deadline"
  "entry_str (canon_fields (work_fields (''binding'', ''P'', demo_binding))) ''project'' = Inr ''proj''"
  "entry_str (canon_fields (work_fields (''binding'', ''P'', demo_binding))) ''spec_digest'' = Inr (replicate 64 CHR ''d'')"
  by (code_simp, code_simp, code_simp, code_simp)

section \<open>An active program\<close>

lemma load_head_journal [simp]: "load_head H (S\<lparr>st_journal := J\<rparr>) i = load_head H S i"
  by (simp add: load_head_def find_program_row_def latest_record_def records_of_def cong: option.case_cong)

lemma demo_head: "load_head hex_hash demo_store_2 ''P'' = Inr demo_1"
proof -
  have "load_head hex_hash (demo_store_2\<lparr>st_units := []\<rparr>) ''P'' = load_head hex_hash demo_store_2 ''P''"
    by (simp add: load_head_def find_program_row_def latest_record_def records_of_def cong: option.case_cong)
  then show ?thesis using demo_store_2_load demo_key(3) by (simp add: load_def)
qed

lemma demo_activation:
  "budgeted_admit hex_hash g unrestricted ''P'' ''k2'' (ActivateProgram 0 ''owner'') None n demo_store_1 = Inr (demo_1, demo_store_2)"
proof -
  have "budgeted_admit hex_hash g unrestricted ''P'' ''k2'' (ActivateProgram 0 ''owner'') None n demo_store_1
      = admit hex_hash unrestricted ''P'' ''k2'' (ActivateProgram 0 ''owner'') None demo_store_1"
    by (simp add: budgeted_admit_def admit_def admit_decision_def admission_facts_def is_prepare_def Let_def cong: option.case_cong if_cong)
  then show ?thesis by (simp add: demo_admitted)
qed

lemma demo_ledger_start: "ledger_reaches hex_hash empty_store demo_store_2"
proof (rule reaches_step[OF reaches_single])
  show "ledger_step hex_hash empty_store (LedgerCreate demo_spec ''k1'') = Inr demo_store_1" by (simp add: demo_created)
  show "ledger_step hex_hash demo_store_1 (LedgerAdmit g unrestricted ''P'' ''k2'' (ActivateProgram 0 ''owner'') None 0) = Inr demo_store_2" for g
    by (simp add: demo_activation)
qed (simp_all add: foreign_effect_def harmless_facts_def unrestricted_def)

lemma demo_no_records: "st_journal demo_store_2 = empty_journal"
proof -
  have "st_journal demo_store_1 = empty_journal" using create_journal[OF demo_created] by (simp add: empty_store_def)
  moreover from admit_Inr[OF demo_admitted] have "st_journal demo_store_2 = st_journal demo_store_1"
    by (cases rule: admission_journal) (simp_all add: admission_facts_def insert_effect_def is_prepare_def write_facts_def)
  ultimately show ?thesis by simp
qed

section \<open>Its budget\<close>

definition demo_ledger :: store where
  "demo_ledger = projr (configure_work_budget hex_hash ''P'' ''proj'' demo_allowance demo_allowance demo_deadline demo_store_2)"

text \<open>The hash is constant, so a ledger has at most one record of a type.\<close>

definition demo_key_of :: "string \<Rightarrow> string" where
  "demo_key_of t = ''work-budget:v1:'' @ t @ '':'' @ replicate 64 CHR ''d''"

lemma demo_keys: "work_key hex_hash t x = demo_key_of t"
  by (simp add: work_key_def hex_hash_def demo_key_of_def)

lemma demo_keys_eq: "plain_type t \<Longrightarrow> plain_type u \<Longrightarrow> demo_key_of t = demo_key_of u \<longleftrightarrow> t = u"
  using work_key_eq[of t u hex_hash "[]" "[]"] by (simp add: demo_keys)

abbreviation demo_entry :: "work_fact \<Rightarrow> string \<times> string" where
  "demo_entry w \<equiv> (demo_key_of (fst w), request_envelope (work_fields w))"

lemma demo_digest_of: "spec_digest hex_hash sp = replicate 64 CHR ''d''"
  by (simp add: spec_digest_def json_digest_def hex_hash_def)

lemma demo_work_record:
  "work_record hex_hash J t x = (case map_of (requests J) (demo_key_of t) of None \<Rightarrow> Inr None | Some raw \<Rightarrow> rbind (request_in raw) (\<lambda>r. Inr (Some r)))"
  unfolding work_record_look look_def demo_keys ..

lemma demo_unique: "unique_keys (JObj (work_fields (project_fact ''proj'' demo_allowance)))" "unique_keys (JObj (work_fields (''binding'', ''P'', demo_binding)))"
  using harmless_types(6)[OF demo_allowance_wf, of "''proj''"] binding_fields_harmless[OF demo_allowance_wf, of "''binding''"]
  unfolding demo_binding_def harmless_def by simp_all

lemma demo_configured:
  "configure_work_budget hex_hash ''P'' ''proj'' demo_allowance demo_allowance demo_deadline demo_store_2 = Inr demo_ledger"
  "requests (st_journal demo_ledger) = [demo_entry (project_fact ''proj'' demo_allowance), demo_entry (''binding'', ''P'', demo_binding)]"
  "tidy (st_journal demo_ledger)" "demo_ledger = demo_store_2\<lparr>st_journal := st_journal demo_ledger\<rparr>"
  "journal_ok hex_hash (st_journal demo_ledger)"
proof -
  have e: "requests (st_journal demo_store_2) = []" "tidy (st_journal demo_store_2)"
    by (simp_all add: demo_no_records requests_def empty_journal_def tidy_def)
  obtain J1 where J1: "write_work_record hex_hash (project_fact ''proj'' demo_allowance) (st_journal demo_store_2) = Inr J1" "tidy J1"
      "requests J1 = [demo_entry (project_fact ''proj'' demo_allowance)]"
    using write_fresh[OF e(2) hex_hash_ok(2), of "''project''" "''proj''" "snd (snd (project_fact ''proj'' demo_allowance))"]
    by (auto simp: e project_fact_def demo_keys)
  have "demo_key_of ''binding'' \<notin> fst ` set (requests J1)" by (simp add: J1(3) project_fact_def demo_keys_eq)
  then obtain J2 where J2: "write_work_record hex_hash (''binding'', ''P'', demo_binding) J1 = Inr J2" "tidy J2"
      "requests J2 = requests J1 @ [demo_entry (''binding'', ''P'', demo_binding)]"
    using write_fresh[OF J1(2) hex_hash_ok(2), of "''binding''" "''P''" demo_binding] by (auto simp: demo_keys)
  have none: "work_record hex_hash (st_journal demo_store_2) t x = Inr None" for t x by (simp add: demo_work_record e)
  have none': "work_record hex_hash J1 ''binding'' x = Inr None" for x
    by (simp add: demo_work_record J1(3) project_fact_def demo_keys_eq)
  have "configure_work_budget hex_hash ''P'' ''proj'' demo_allowance demo_allowance demo_deadline demo_store_2 = Inr (demo_store_2\<lparr>st_journal := J2\<rparr>)"
    using J1(1) J2(1) demo_key(3)
    by (simp add: configure_work_budget_def configurable_def bind_budget_def work_binding_def none none' check_origin_def write_facts_def demo_head Let_def
      binding_fact_def demo_binding_def demo_digest_of demo_allowance_def demo_1_def demo_0_def nonblank_def isspace_def)
  then show "configure_work_budget hex_hash ''P'' ''proj'' demo_allowance demo_allowance demo_deadline demo_store_2 = Inr demo_ledger"
      "requests (st_journal demo_ledger) = [demo_entry (project_fact ''proj'' demo_allowance), demo_entry (''binding'', ''P'', demo_binding)]"
      "tidy (st_journal demo_ledger)" "demo_ledger = demo_store_2\<lparr>st_journal := st_journal demo_ledger\<rparr>"
    using J1(3) J2(2,3) by (simp_all add: demo_ledger_def)
  have "journal_ok hex_hash J2"
  proof (rule write_work_records_ok)
    show "journal_ok hex_hash (st_journal demo_store_2)" by (simp add: demo_no_records empty_journal_ok)
    show "\<forall>w \<in> set [project_fact ''proj'' demo_allowance, (''binding'', ''P'', demo_binding)]. unique_keys (JObj (work_fields w))"
      using demo_unique by simp
    show "write_work_records hex_hash [project_fact ''proj'' demo_allowance, (''binding'', ''P'', demo_binding)] (st_journal demo_store_2) = Inr J2"
      by (simp add: J1(1) J2(1))
  qed
  then show "journal_ok hex_hash (st_journal demo_ledger)"
    using \<open>configure_work_budget hex_hash ''P'' ''proj'' demo_allowance demo_allowance demo_deadline demo_store_2 = Inr (demo_store_2\<lparr>st_journal := J2\<rparr>)\<close>
    by (simp add: demo_ledger_def)
qed

lemma demo_ledger_reaches: "ledger_reaches hex_hash empty_store demo_ledger"
  by (rule reaches_step[OF demo_ledger_start, of "LedgerConfigure ''P'' ''proj'' demo_allowance demo_allowance demo_deadline"])
    (simp_all add: demo_configured(1) demo_allowance_wf)

lemma demo_ledger_records:
  "work_record hex_hash (st_journal demo_ledger) ''project'' x = Inr (Some (canon_fields (work_fields (project_fact ''proj'' demo_allowance))))"
  "work_record hex_hash (st_journal demo_ledger) ''binding'' x = Inr (Some (canon_fields (work_fields (''binding'', ''P'', demo_binding))))"
  "plain_type t \<Longrightarrow> t \<noteq> ''project'' \<Longrightarrow> t \<noteq> ''binding'' \<Longrightarrow> work_record hex_hash (st_journal demo_ledger) t x = Inr None"
  using request_in_envelope[OF demo_unique(1)] request_in_envelope[OF demo_unique(2)]
  by (simp_all add: demo_work_record demo_configured(2) demo_keys_eq project_fact_def)

lemma demo_ledger_head: "load_head hex_hash demo_ledger ''P'' = Inr demo_1"
  by (subst demo_configured(4)) (simp add: demo_head)

lemma demo_ledger_binding:
  "work_binding hex_hash demo_ledger ''P'' = Inr (Some (canon_fields (work_fields (''binding'', ''P'', demo_binding))))"
  by (simp add: work_binding_def demo_ledger_records demo_ledger_head)

definition demo_guards :: work_guards where
  "demo_guards = \<lparr>wg_claimed = (\<lambda>_ _. False), wg_workspace = Inr (), wg_claim = Inr (), wg_headroom = Inr (), wg_report = Inr (),
     wg_settled = Inr (), wg_physical = False,
     wg_clock = \<lparr>cv_pending = Some False, cv_reading = Some (Some demo_reading), cv_floor = Some demo_reading\<rparr>\<rparr>"

lemma demo_decision: "verifiable demo_deadline (Some demo_reading)" "decision_time demo_deadline (Some demo_reading) = 1000"
  by code_simp+

lemma demo_authorized: "check_work_authority hex_hash demo_ledger (wg_clock demo_guards) ''P'' = Inr ()"
  by (simp add: check_work_authority_def work_decision_time_def demo_ledger_binding demo_ledger_records demo_ledger_head demo_binding_read
    demo_guards_def demo_decision check_floor_def demo_deadline_def[THEN arg_cong[where f = dp_wall_deadline]] demo_1_def demo_0_def demo_digest_of)

lemma demo_unreserved: "reservations (st_journal demo_ledger) = Inr []"
proof -
  obtain rs where "reservations (st_journal demo_ledger) = Inr rs" "mset rs = mset (bookings (requests (st_journal demo_ledger)))"
    by (rule reservations_of_books[OF reachable_books[OF demo_ledger_reaches]])
  moreover have "\<not> prefix (work_prefix ''reservation'') (demo_key_of ''project'')" "\<not> prefix (work_prefix ''reservation'') (demo_key_of ''binding'')"
    using prefix_work_key[of "''reservation''" _ hex_hash "[]"] by (simp_all add: demo_keys)
  ultimately show ?thesis by (simp add: demo_configured(2) bookings_def project_fact_def)
qed

lemma demo_facts:
  assumes "0 \<le> n" and "n \<le> 100"
  shows "reservation_facts hex_hash demo_ledger demo_guards ''P'' a i WorkAttempt n = Inr [reservation_fact \<lparr>rv_program = ''P'', rv_project = ''proj'',
    rv_attempt = a, rv_operation = i, rv_category = WorkAttempt, rv_retained = n\<rparr>]" (is "_ = Inr [reservation_fact ?r]")
proof -
  have "check_scope_capacity hex_hash (st_journal demo_ledger) claimed demo_allowance [] ?r = Inr ()" for claimed
    using assms by (simp add: check_scope_capacity_def demo_allowance_def kind_count_def active_work_def)
  then have "check_capacity hex_hash demo_ledger demo_guards (canon_fields (work_fields (''binding'', ''P'', demo_binding))) ?r = Inr ()"
    by (simp add: check_capacity_def demo_unreserved demo_ledger_records demo_binding_read demo_allowance_read)
  moreover have "wg_workspace demo_guards = Inr ()" "wg_headroom demo_guards = Inr ()" "\<not> wg_claimed demo_guards ''P'' a"
    by (simp_all add: demo_guards_def)
  ultimately show ?thesis
    using assms(1) by (simp add: reservation_facts_def demo_ledger_binding demo_binding_read Let_def demo_ledger_records demo_ledger_head demo_authorized)
qed

definition demo_reserved :: store where
  "demo_reserved = projr (reserve_work hex_hash demo_guards ''P'' ''a1'' ''runtime:a1'' WorkAttempt 10 demo_ledger)"

lemma demo_write_reservation: "\<exists>S'. write_facts hex_hash [reservation_fact r] demo_ledger = Inr S'"
proof -
  have "work_key hex_hash ''reservation'' (rv_operation r) \<notin> fst ` set (requests (st_journal demo_ledger))"
    by (simp add: demo_keys demo_configured(2) demo_keys_eq project_fact_def)
  from write_fresh[OF demo_configured(3) hex_hash_ok(2) this, of "reservation_fields r"] show ?thesis
    by (auto simp: write_facts_def reservation_fact_def)
qed

lemma demo_reserves: "reserve_work hex_hash demo_guards ''P'' ''a1'' ''runtime:a1'' WorkAttempt 10 demo_ledger = Inr demo_reserved"
proof -
  have "\<exists>S'. reserve_work hex_hash demo_guards ''P'' ''a1'' ''runtime:a1'' WorkAttempt 10 demo_ledger = Inr S'"
    using demo_write_reservation by (simp add: reserve_work_def demo_facts)
  then show ?thesis by (auto simp: demo_reserved_def)
qed

lemma demo_reserved_reaches: "ledger_reaches hex_hash empty_store demo_reserved"
  by (rule reaches_step[OF demo_ledger_reaches, of "LedgerReserve demo_guards ''P'' ''a1'' ''runtime:a1'' WorkAttempt 10"])
    (simp_all add: demo_reserves)


lemma demo_kept:
  assumes "ledger_step hex_hash demo_ledger c = Inr S" and "ledger_call_ok c"
  shows "work_record hex_hash (st_journal S) ''project'' x = work_record hex_hash (st_journal demo_ledger) ''project'' x"
proof -
  have "posts (st_journal demo_ledger) (st_journal S)" using ledger_step_safe[OF assms(2,1)] by (simp add: safe_def)
  then obtain N where "requests (st_journal S) = requests (st_journal demo_ledger) @ N" by (auto simp: posts_def)
  then show ?thesis using look_kept[of hex_hash "requests (st_journal demo_ledger)" "''project''" x _ N] demo_ledger_records(1)[of x]
    by (simp add: work_record_look)
qed


theorem reservations_need_authority_witness:
  "\<exists>binding head projection r previous policy records limit active bytes.
    work_binding hex_hash demo_ledger ''P'' = Inr (Some binding) \<and> load_head hex_hash demo_ledger ''P'' = Inr head \<and> pg_status head \<noteq> ProgramCancelled
    \<and> entry_str binding ''spec_digest'' = Inr (spec_digest hex_hash (pg_spec head))
    \<and> work_record hex_hash (st_journal demo_ledger) ''revoked'' ''P'' = Inr None
    \<and> entry_projection binding = Inr projection \<and> cv_reading (wg_clock demo_guards) = Some (Some r)
    \<and> bc_wall r < dp_wall_deadline projection \<and> bc_boot_ns r < dp_boot_deadline_ns projection
    \<and> cv_floor (wg_clock demo_guards) = Some previous \<and> bc_wall previous \<le> bc_wall r \<and> bc_boot_ns previous \<le> bc_boot_ns r
    \<and> entry_policy binding = Inr policy \<and> reservations (st_journal demo_ledger) = Inr records
    \<and> map_of (wb_counts policy) WorkAttempt = Some limit \<and> kind_count WorkAttempt (filter (\<lambda>x. rv_program x = ''P'') records) + 1 \<le> limit
    \<and> active_work hex_hash (st_journal demo_ledger) (filter (\<lambda>x. rv_program x = ''P'') records) = Inr active
    \<and> ((''P'', ''a1'') \<in> set active \<or> int (length active) + 1 \<le> wb_max_active policy)
    \<and> mapM (retained_work_bytes hex_hash (st_journal demo_ledger) (wg_claimed demo_guards)) (filter (\<lambda>x. rv_program x = ''P'') records) = Inr bytes
    \<and> sum_list bytes + 10 \<le> wb_retained_bytes policy"
  by (rule reservations_need_authority[OF demo_reserves demo_ledger_records(3)]) simp_all

section \<open>Its revocation\<close>

definition demo_withdrawn :: store where
  "demo_withdrawn = projr (revoke_work_budget hex_hash ''P'' ''stop'' None demo_ledger)"

lemma demo_revokes:
  "revoke_work_budget hex_hash ''P'' ''stop'' None demo_ledger = Inr demo_withdrawn"
  "requests (st_journal demo_withdrawn) = requests (st_journal demo_ledger) @ [demo_entry (revoked_fact ''P'' ''stop'')]"
proof -
  have "work_key hex_hash ''revoked'' ''P'' \<notin> fst ` set (requests (st_journal demo_ledger))"
    by (simp add: demo_keys demo_configured(2) demo_keys_eq project_fact_def)
  from write_fresh[OF demo_configured(3) hex_hash_ok(2) this, of "snd (snd (revoked_fact ''P'' ''stop''))"]
  obtain J where J: "write_work_record hex_hash (revoked_fact ''P'' ''stop'') (st_journal demo_ledger) = Inr J"
      "requests J = requests (st_journal demo_ledger) @ [demo_entry (revoked_fact ''P'' ''stop'')]"
    by (auto simp: revoked_fact_def demo_keys)
  then have "revoke_work_budget hex_hash ''P'' ''stop'' None demo_ledger = Inr (demo_ledger\<lparr>st_journal := J\<rparr>)"
    by (simp add: revoke_work_budget_def record_revocation_def demo_ledger_binding demo_ledger_records write_facts_def nonblank_def isspace_def)
  then show "revoke_work_budget hex_hash ''P'' ''stop'' None demo_ledger = Inr demo_withdrawn"
      "requests (st_journal demo_withdrawn) = requests (st_journal demo_ledger) @ [demo_entry (revoked_fact ''P'' ''stop'')]"
    using J(2) by (simp_all add: demo_withdrawn_def)
qed

theorem revoked_budgets_stay_revoked_witness:
  "check_work_authority hex_hash demo_ledger (wg_clock demo_guards) ''P'' = Inr ()
    \<and> check_work_authority hex_hash demo_withdrawn (wg_clock demo_guards) ''P'' \<noteq> Inr ()
    \<and> reserve_work hex_hash demo_guards ''P'' ''a1'' ''runtime:a1'' WorkAttempt 10 demo_withdrawn \<noteq> Inr demo_reserved"
proof -
  have "work_record hex_hash (st_journal demo_withdrawn) ''reservation'' i = Inr None" for i
    by (simp add: demo_work_record demo_revokes(2) demo_configured(2) demo_keys_eq project_fact_def revoked_fact_def)
  then show ?thesis
    using revoked_budgets_stay_revoked[OF demo_ledger_reaches demo_revokes(1) reaches_refl] demo_authorized by blast
qed

section \<open>Its first attempt\<close>

definition demo_hex_attempt :: attempt_spec where
  "demo_hex_attempt = demo_attempt\<lparr>as_spec_digest := replicate 64 CHR ''d''\<rparr>"

definition demo_prepared :: program where
  "demo_prepared = projr (apply_command hex_hash demo_1 (PrepareAttempt 1 ''worker'' demo_hex_attempt))"

lemma demo_hex_prepare: "apply_command hex_hash demo_1 (PrepareAttempt 1 ''worker'' demo_hex_attempt) = Inr demo_prepared"
proof -
  have "(case apply_command hex_hash demo_1 (PrepareAttempt 1 ''worker'' demo_hex_attempt) of Inl _ \<Rightarrow> False | Inr _ \<Rightarrow> True)"
    by code_simp
  then show ?thesis by (auto simp: demo_prepared_def split: sum.splits)
qed

lemma demo_hex_made: "made_command (PrepareAttempt 1 ''worker'' demo_hex_attempt)"
  using demo_commands_wf(2)
  by (simp add: made_command_def wf_command_def command_ok_def demo_hex_attempt_def wf_attempt_spec_def nonblank_def isspace_def)

lemma demo_store_2_history:
  obtains r s where "st_history demo_store_2 = [r, s]" "hs_command_key r = ''k1''" "hs_command_key s = ''k2''"
proof -
  obtain r where r: "st_history demo_store_1 = [r]" "hs_command_key r = ''k1''" by (rule demo_store_1_log)
  from hex_hash_ok(1) store_okD(2,3)[OF demo_store_1_ok] unrestricted_ok[OF demo_made_commands(1)] admit_Inr[OF demo_admitted]
  show ?thesis
  proof (cases rule: admit_cases)
    case (again t)
    then show ?thesis using r by simp
  next
    case (fresh sp q t J)
    have "st_history demo_store_2 = [r, t]" unfolding fresh(6) by (simp add: r(1))
    then show ?thesis using that[of r t] r(2) fresh(10) by simp
  qed
qed

lemma demo_ledger_ok: "store_ok hex_hash demo_ledger"
proof -
  have "store_ok hex_hash demo_store_2" by (rule reachable_store_ok[OF hex_hash_ok(1) demo_store_2_reaches])
  then have "archive_ok hex_hash demo_ledger" "projections_ok hex_hash demo_ledger"
    by (subst demo_configured(4), simp add: store_ok_def)+
  then show ?thesis using hex_hash_ok(1) demo_configured(5) by (simp add: store_ok_def)
qed

lemma demo_ledger_key: "find_admission demo_ledger ''k3'' = None"
proof -
  obtain r s where h: "st_history demo_store_2 = [r, s]" "hs_command_key r = ''k1''" "hs_command_key s = ''k2''" by (rule demo_store_2_history)
  have "st_history demo_ledger = [r, s]" by (subst demo_configured(4)) (simp add: h(1))
  then show ?thesis using h(2,3) by (simp add: find_admission[OF store_okD(2)[OF demo_ledger_ok]])
qed

lemma demo_bound: "bound hex_hash demo_ledger ''P'' = Inr True"
  by (simp add: bound_def demo_ledger_records)

definition demo_after :: store where
  "demo_after = snd (projr (budgeted_admit hex_hash demo_guards unrestricted ''P'' ''k3'' (PrepareAttempt 1 ''worker'' demo_hex_attempt)
     None 10 demo_ledger))"

lemma demo_hex_admitted:
  "budgeted_admit hex_hash demo_guards unrestricted ''P'' ''k3'' (PrepareAttempt 1 ''worker'' demo_hex_attempt) None 10 demo_ledger
    = Inr (demo_prepared, demo_after)"
proof -
  let ?c = "PrepareAttempt 1 ''worker'' demo_hex_attempt"
  let ?r = "\<lparr>rv_program = ''P'', rv_project = ''proj'', rv_attempt = ''a1'', rv_operation = ''runtime:a1'', rv_category = WorkAttempt, rv_retained = 10\<rparr>"
  have a: "as_remediation_of demo_hex_attempt = None" "as_attempt_id demo_hex_attempt = ''a1''"
    by (simp_all add: demo_hex_attempt_def demo_attempt_def)
  have budget: "admission_budget hex_hash demo_ledger demo_guards ''P'' ?c None 10 = Inr [reservation_fact ?r]"
    by (simp add: admission_budget_def a write_facts_def demo_facts)
  obtain S1 where S1: "write_facts hex_hash [reservation_fact ?r] demo_ledger = Inr S1" using demo_write_reservation by blast
  have l: "load hex_hash demo_ledger ''P'' = Inr demo_1" using demo_key(3) by (simp add: load_def demo_ledger_head)
  have key: "nonblank ''k3''" by (simp add: nonblank_def isspace_def)
  have "\<exists>S'. admit hex_hash (unrestricted\<lparr>vd_budget := admission_budget hex_hash demo_ledger demo_guards ''P'' ?c None 10\<rparr>)
      ''P'' ''k3'' ?c None demo_ledger = Inr (demo_prepared, S')"
    by (rule admission_total[OF hex_hash_ok demo_ledger_ok demo_hex_made key demo_ledger_key l demo_hex_prepare demo_bound _ _ S1])
      (simp_all add: unrestricted_def admission_facts_def budget)
  then show ?thesis by (auto simp: budgeted_admit_def demo_after_def)
qed

theorem prepared_attempts_are_reserved_witness:
  "\<exists>q records. find_reservation hex_hash (st_journal demo_after) ''runtime:a1'' = Inr (Some \<lparr>rv_program = ''P'', rv_project = q,
      rv_attempt = ''a1'', rv_operation = ''runtime:a1'', rv_category = WorkAttempt, rv_retained = 10\<rparr>)
    \<and> reservations (st_journal demo_after) = Inr records
    \<and> filter (\<lambda>r. rv_program r = ''P'' \<and> rv_attempt r = ''a1'' \<and> rv_category r = WorkAttempt) records
        = [\<lparr>rv_program = ''P'', rv_project = q, rv_attempt = ''a1'', rv_operation = ''runtime:a1'', rv_category = WorkAttempt, rv_retained = 10\<rparr>]"
proof -
  have id: "as_attempt_id demo_hex_attempt = ''a1''" by (simp add: demo_hex_attempt_def demo_attempt_def)
  have call: "ledger_call_ok (LedgerAdmit demo_guards unrestricted ''P'' ''k3'' (PrepareAttempt 1 ''worker'' demo_hex_attempt) None 10)"
    by (simp add: foreign_effect_def harmless_facts_def unrestricted_def)
  from prepared_attempts_are_reserved[OF demo_ledger_reaches call refl demo_bound demo_ledger_key demo_hex_admitted reaches_refl refl]
  show ?thesis unfolding id option.case by fastforce
qed

end
