(* ===== verification/Clock_Witnesses.thy ===== *)
theory Clock_Witnesses
  imports Clock_Theorems Ledger_Witnesses
begin

text \<open>The clocks of the demonstration budget: two decisions in order, and a sample lost in a restart.\<close>

declare canon.simps(6) [simp del]

section \<open>The bindings of the small ledger\<close>

lemma operations_one:
  assumes "filter (\<lambda>e. prefix start (fst e)) (requests J) = [(i, request_envelope fs)]" and "unique_keys (JObj fs)"
  shows "mapM request_of (operations_with start J) = Inr [canon_fields fs]"
proof -
  have "map (\<lambda>row. (op_id row, op_request_json row)) (filter (\<lambda>row. prefix start (op_id row)) (jn_operations J)) = [(i, request_envelope fs)]"
    using assms(1) by (simp add: requests_def filter_map comp_def)
  then obtain row where row: "filter (\<lambda>row. prefix start (op_id row)) (jn_operations J) = [row]" "op_request_json row = request_envelope fs"
    by auto
  then have "mset (operations_with start J) = {#row#}" by (simp add: mset_operations_with)
  then have "operations_with start J = [row]" by simp
  then show ?thesis using row(2) by (simp add: request_of_in request_in_envelope[OF assms(2)])
qed

lemma operations_none:
  assumes "filter (\<lambda>e. prefix start (fst e)) (requests J) = []"
  shows "operations_with start J = []"
proof -
  have "filter (\<lambda>row. prefix start (op_id row)) (jn_operations J) = []"
    using assms by (simp add: requests_def filter_map comp_def)
  then have "mset (operations_with start J) = {#}" by (simp add: mset_operations_with)
  then show ?thesis by simp
qed

abbreviation demo_bound_entry :: entries where
  "demo_bound_entry \<equiv> canon_fields (work_fields (''binding'', ''P'', demo_binding))"

lemma demo_prefixes:
  "\<not> prefix (work_prefix ''binding'') (demo_key_of ''project'')" "prefix (work_prefix ''binding'') (demo_key_of ''binding'')"
  "\<not> prefix (work_prefix ''clock-origin'') (demo_key_of t)" if "t \<in> {''project'', ''binding''}"
  using that by (auto simp: work_prefix_def demo_key_of_def)

lemma demo_clock_bindings: "clock_bindings (st_journal demo_ledger) = Inr [(''P'', demo_bound_entry)]"
proof -
  have "work_records (st_journal demo_ledger) ''binding'' = Inr [demo_bound_entry]"
    unfolding work_records_def
    by (rule operations_one[OF _ demo_unique(2)])
      (simp add: demo_configured(2) project_fact_def work_prefix_def demo_key_of_def)
  moreover have "work_records (st_journal demo_ledger) ''clock-origin'' = Inr []"
    unfolding work_records_def
    by (subst operations_none) (simp_all add: demo_configured(2) project_fact_def work_prefix_def demo_key_of_def)
  moreover have "entry_str demo_bound_entry ''program'' = Inr ''P''" by code_simp
  ultimately show ?thesis by (simp add: clock_bindings_def with_program_def)
qed

lemma demo_keeps_projection: "keeps_projection ''P'' demo_deadline (PrepareClocks (st_journal demo_ledger) ev)"
  by (simp add: demo_clock_bindings demo_binding_read)

section \<open>Two samples\<close>

definition demo_later :: boot_clock_reading where
  "demo_later = demo_reading\<lparr>bc_wall := bc_wall demo_reading + 1, bc_boot_ns := bc_boot_ns demo_reading + 1000000000\<rparr>"

definition demo_sample :: "boot_clock_reading \<Rightarrow> clock_events" where
  "demo_sample r = \<lparr>ce_flush = True, ce_mark = True, ce_reading = Some r, ce_changed = False, ce_commit = True\<rparr>"

definition demo_row :: "boot_clock_reading \<Rightarrow> clock_row" where
  "demo_row r = \<lparr>ck_wall = bc_wall r, ck_boot_ns = bc_boot_ns r, ck_boot_id = bc_boot_id r, ck_clock = bc_clock r, ck_pending = False\<rparr>"

definition demo_clocks :: "boot_clock_reading \<Rightarrow> clocks" where
  "demo_clocks r = \<lparr>cs_rows = [''P'' \<mapsto> demo_row r], cs_marks = [''P'' \<mapsto> r], cs_uncommitted = []\<rparr>"

lemma demo_no_legacy: "work_records (st_journal demo_ledger) (''clock-'' @ hex_hash ''P'') = Inr []"
  unfolding work_records_def
  by (subst operations_none) (simp_all add: demo_configured(2) project_fact_def work_prefix_def demo_key_of_def)

lemma demo_first_row: "first_clock_row hex_hash (st_journal demo_ledger) ''P'' demo_bound_entry
    = Inr \<lparr>ck_wall = dp_wall_anchor demo_deadline, ck_boot_ns = dp_boot_anchor_ns demo_deadline, ck_boot_id = dp_boot_id demo_deadline,
        ck_clock = dp_clock demo_deadline, ck_pending = False\<rparr>"
  using demo_no_legacy by (simp add: first_clock_row_def demo_binding_read)

definition demo_readings :: "boot_clock_reading list" where
  "demo_readings = [demo_reading, demo_later]"

lemma demo_readings_ok:
  assumes "r \<in> set demo_readings"
  shows "bc_boot_id r = dp_boot_id demo_deadline" "bc_clock r = dp_clock demo_deadline" "dp_wall_anchor demo_deadline \<le> bc_wall r"
    "dp_boot_anchor_ns demo_deadline \<le> bc_boot_ns r" "bc_wall demo_reading \<le> bc_wall r" "bc_boot_ns demo_reading \<le> bc_boot_ns r"
  using assms by (auto simp: demo_readings_def demo_later_def demo_reading_def demo_deadline_def)

lemma floor_demo_row [simp]: "floor_of (demo_row r) = r"
  by (simp add: floor_of_def demo_row_def)

lemma demo_prepare_first:
  assumes "r \<in> set demo_readings"
  shows "prepare_work_clocks hex_hash (st_journal demo_ledger) (demo_sample r) no_clocks = (Inr [(''P'', Some r)], demo_clocks r)"
proof -
  have row: "(raise_floor (Some r) \<lparr>ck_wall = dp_wall_anchor demo_deadline, ck_boot_ns = dp_boot_anchor_ns demo_deadline,
      ck_boot_id = dp_boot_id demo_deadline, ck_clock = dp_clock demo_deadline, ck_pending = True\<rparr>)\<lparr>ck_pending := False\<rparr> = demo_row r"
    using demo_readings_ok[OF assms] by (simp add: raise_floor_def demo_row_def max_def)
  show ?thesis
    by (simp add: prepare_work_clocks_def demo_clock_bindings flush_clock_observations_def no_clocks_def demo_first_row demo_sample_def
      capture_def readings_of_def row demo_clocks_def fun_eq_iff)
qed

lemma demo_prepare_next:
  assumes "r \<in> set demo_readings"
  shows "prepare_work_clocks hex_hash (st_journal demo_ledger) (demo_sample r) (demo_clocks demo_reading) = (Inr [(''P'', Some r)], demo_clocks r)"
proof -
  have row: "(raise_floor (Some r) ((demo_row demo_reading)\<lparr>ck_pending := True\<rparr>))\<lparr>ck_pending := False\<rparr> = demo_row r"
    using demo_readings_ok[OF assms] demo_readings_ok(1,2)[of demo_reading]
    by (simp add: raise_floor_def demo_row_def max_def demo_readings_def)
  have p: "\<not> ck_pending (demo_row demo_reading)" by (simp add: demo_row_def)
  show ?thesis
    by (simp add: prepare_work_clocks_def demo_clock_bindings flush_clock_observations_def demo_sample_def p
      capture_def readings_of_def row demo_clocks_def fun_eq_iff)
qed

lemma demo_decides:
  assumes "r \<in> set demo_readings"
  shows "work_decision_time hex_hash demo_ledger (view_of [(''P'', Some r)] (demo_clocks r) ''P'') ''P'' = Inr (decision_time demo_deadline (Some r))"
  using demo_readings_ok[OF assms]
  by (simp add: work_decision_time_def demo_ledger_binding demo_binding_read view_of_def demo_clocks_def demo_row_def verifiable_Some check_floor_def)

theorem decision_times_never_go_back_witness:
  "decision_time demo_deadline (Some demo_reading) \<le> decision_time demo_deadline (Some demo_later)"
proof -
  have r: "demo_reading \<in> set demo_readings" "demo_later \<in> set demo_readings" by (simp_all add: demo_readings_def)
  show ?thesis
    by (rule decision_times_never_go_back[OF reaches_refl demo_keeps_projection demo_prepare_first[OF r(1)] demo_ledger_binding demo_binding_read(2)
      demo_decides[OF r(1)] reaches_refl demo_keeps_projection demo_prepare_next[OF r(2)] demo_ledger_binding demo_binding_read(2) demo_decides[OF r(2)]])
qed

section \<open>A lost sample\<close>

definition demo_interrupted :: clocks where
  "demo_interrupted = snd (prepare_work_clocks hex_hash (st_journal demo_ledger) ((demo_sample demo_later)\<lparr>ce_commit := False\<rparr>) (demo_clocks demo_reading))"

lemma demo_interrupted_row: "cs_rows demo_interrupted ''P'' = Some ((demo_row demo_reading)\<lparr>ck_pending := True\<rparr>)"
proof -
  have p: "\<not> ck_pending (demo_row demo_reading)" by (simp add: demo_row_def)
  show ?thesis
    by (simp add: demo_interrupted_def prepare_work_clocks_def demo_clock_bindings flush_clock_observations_def demo_sample_def p capture_def demo_clocks_def)
qed

theorem lost_samples_end_authority_witness:
  "work_decision_time hex_hash demo_ledger (view_of [(''P'', Some demo_later)] (restarted demo_interrupted) ''P'') ''P'' \<noteq> Inr 1001
    \<and> check_work_authority hex_hash demo_ledger (view_of [(''P'', Some demo_later)] (restarted demo_interrupted) ''P'') ''P'' \<noteq> Inr ()"
  by (rule lost_samples_end_authority[OF demo_interrupted_row _ reaches_refl]) simp

end
