(* ===== verification/Product_Review.thy ===== *)
theory Product_Review
  imports Verification Work_Reservations
begin

text \<open>
  ports/verification.py: the durable product review. A review request is an operation of the store; the
  receipt of the reviewer is an artifact of that operation, in a canonical text; \<open>dispatch_product_review\<close>
  composes the calls of the store, each of which commits by itself, so a run that raises keeps what it has
  committed. What the reviewer and the transport answer, and what the guards of the store see in each call,
  is an argument, \<open>review_outside\<close>.
\<close>

declare canon.simps(6) [simp del]

section \<open>Snapshots\<close>

type_synonym snapshot = "(string \<times> string) list"

text \<open>Path, a zero byte and the digest of the content; \<open>raw\<close> is the digest as 32 bytes instead of 64 hexadecimal digits.\<close>

definition snapshot_digest :: "hash \<Rightarrow> (string \<Rightarrow> string) \<Rightarrow> snapshot \<Rightarrow> string" where
  "snapshot_digest H raw files = H (concat (map (\<lambda>(path, content). path @ [CHR 0x00] @ raw content) files))"

section \<open>The request\<close>

definition subject_data :: "evidence_subject \<Rightarrow> entries" where
  "subject_data s = [
     (''attempt_digest'', JStr (es_attempt_digest s)),
     (''base_revision'', JStr (es_base_revision s)),
     (''candidate_digest'', JStr (es_candidate_digest s)),
     (''head_revision'', JStr (es_head_revision s)),
     (''policy_digest'', JStr (es_policy_digest s)),
     (''repository'', JStr (es_repository s)),
     (''spec_digest'', JStr (es_spec_digest s))]"

definition review_request_bytes :: "hash \<Rightarrow> product_review_request \<Rightarrow> string" where
  "review_request_bytes H rq = dumps (JObj [
     (''author_actor_id'', JStr (rq_author_actor_id rq)),
     (''author_attempt_id'', JStr (rq_author_attempt_id rq)),
     (''candidate_digest'', JStr (candidate_digest H (rq_candidate rq))),
     (''input_digest'', JStr (input_digest H rq)),
     (''input_reference'', JStr (input_reference H rq)),
     (''policy'', policy_payload (rq_policy rq)),
     (''subject'', JObj (subject_data (rq_subject rq))),
     (''version'', JInt 1)])"

definition product_review_operation_id :: "hash \<Rightarrow> product_review_request \<Rightarrow> string" where
  "product_review_operation_id H rq = ''product-review:'' @ H (review_request_bytes H rq)"

section \<open>The receipt\<close>

definition verdict_text :: "product_review_verdict \<Rightarrow> string" where
  "verdict_text v = (case v of APPROVE \<Rightarrow> ''approve'' | REQUEST_CHANGES \<Rightarrow> ''request_changes'' | COMMENT \<Rightarrow> ''comment''
     | OWNER_DECISION_NEEDED \<Rightarrow> ''owner_decision_needed'')"

definition parse_verdict :: "string \<Rightarrow> product_review_verdict option" where
  "parse_verdict s = List.find (\<lambda>v. verdict_text v = s) [APPROVE, REQUEST_CHANGES, COMMENT, OWNER_DECISION_NEEDED]"

definition finding_data :: "finding \<Rightarrow> entries" where
  "finding_data f = [
     (''finding_id'', JStr (fi_finding_id f)),
     (''fingerprint'', JStr (fi_fingerprint f)),
     (''reason'', JStr (fi_reason f)),
     (''subject'', JObj (subject_data (fi_subject f)))]"

definition receipt_data :: "product_review_receipt \<Rightarrow> entries" where
  "receipt_data r = [
     (''findings'', JList (map (\<lambda>f. JObj (finding_data f)) (rr_findings r))),
     (''fresh_until'', JInt (rr_fresh_until r)),
     (''observed_at'', JInt (rr_observed_at r)),
     (''owner_decision_options'', JList (map JStr (rr_owner_decision_options r))),
     (''owner_decision_reason'', JOptStr (rr_owner_decision_reason r)),
     (''owner_decision_reference'', JOptStr (rr_owner_decision_reference r)),
     (''request_digest'', JStr (rr_request_digest r)),
     (''review_id'', JStr (rr_review_id r)),
     (''reviewer_id'', JStr (rr_reviewer_id r)),
     (''reviewer_session'', JStr (rr_reviewer_session r)),
     (''subject'', JObj (subject_data (rr_subject r))),
     (''verdict'', JStr (verdict_text (rr_verdict r))),
     (''version'', JInt 2)]"

definition receipt_bytes :: "product_review_receipt \<Rightarrow> string" where
  "receipt_bytes r = dumps (JObj (receipt_data r))"

definition lift_value :: "'a dres \<Rightarrow> 'a sres" where
  "lift_value r = map_sum StoreDomainError id r"

definition value_text :: "entries \<Rightarrow> string \<Rightarrow> string sres" where
  "value_text e name = (case as_str (map_of e name) of None \<Rightarrow> Inl StoreValueError | Some s \<Rightarrow> Inr s)"

definition value_int :: "entries \<Rightarrow> string \<Rightarrow> int sres" where
  "value_int e name = (case as_int (map_of e name) of None \<Rightarrow> Inl StoreValueError | Some i \<Rightarrow> Inr i)"

definition decode_subject :: "json \<Rightarrow> evidence_subject sres" where
  "decode_subject v = (case v of
     JObj e \<Rightarrow>
       rbind (guard (json_keys e = {''attempt_digest'', ''base_revision'', ''candidate_digest'', ''head_revision'',
         ''policy_digest'', ''repository'', ''spec_digest''}) StoreValueError) (\<lambda>_.
       rbind (value_text e ''candidate_digest'') (\<lambda>candidate. rbind (value_text e ''attempt_digest'') (\<lambda>attempt_dg.
       rbind (value_text e ''spec_digest'') (\<lambda>spec_dg. rbind (value_text e ''policy_digest'') (\<lambda>policy_dg.
       rbind (value_text e ''repository'') (\<lambda>repo. rbind (value_text e ''base_revision'') (\<lambda>base.
       rbind (value_text e ''head_revision'') (\<lambda>head.
       lift_value (check_EvidenceSubject \<lparr>es_candidate_digest = candidate, es_attempt_digest = attempt_dg, es_spec_digest = spec_dg,
         es_policy_digest = policy_dg, es_repository = repo, es_base_revision = base, es_head_revision = head\<rparr>)))))))))
   | _ \<Rightarrow> Inl StoreValueError)"

definition decode_finding :: "json \<Rightarrow> finding sres" where
  "decode_finding v = (case v of
     JObj e \<Rightarrow>
       rbind (guard (json_keys e = {''finding_id'', ''fingerprint'', ''reason'', ''subject''}) StoreValueError) (\<lambda>_.
       rbind (value_text e ''finding_id'') (\<lambda>finding_id. rbind (value_text e ''fingerprint'') (\<lambda>print.
       rbind (value_text e ''reason'') (\<lambda>reason.
       case map_of e ''subject'' of None \<Rightarrow> Inl StoreValueError | Some s \<Rightarrow>
       rbind (decode_subject s) (\<lambda>subj.
       Inr \<lparr>fi_finding_id = finding_id, fi_fingerprint = print, fi_subject = subj, fi_reason = reason\<rparr>)))))
   | _ \<Rightarrow> Inl StoreValueError)"

definition receipt_names :: "string set" where
  "receipt_names = {''findings'', ''fresh_until'', ''observed_at'', ''owner_decision_options'', ''owner_decision_reason'',
     ''owner_decision_reference'', ''request_digest'', ''review_id'', ''reviewer_id'', ''reviewer_session'', ''subject'', ''verdict'',
     ''version''}"

definition owner_names :: "string set" where
  "owner_names = {''owner_decision_options'', ''owner_decision_reason'', ''owner_decision_reference''}"

text \<open>A receipt of version 1 has no owner decision.\<close>

definition receipt_fields :: "entries \<Rightarrow> entries sres" where
  "receipt_fields e =
     (if json_keys e = receipt_names \<and> map_of e ''version'' = Some (JInt 2) then Inr e
      else if json_keys e = receipt_names - owner_names \<and> equals_one (map_of e ''version'')
      then Inr (e @ [(''owner_decision_options'', JList []), (''owner_decision_reason'', JNull), (''owner_decision_reference'', JNull)])
      else Inl StoreValueError)"

text \<open>A value that is neither \<open>None\<close> nor a string is refused by the constructor of the receipt.\<close>

definition owner_text :: "entries \<Rightarrow> string \<Rightarrow> string option sres" where
  "owner_text e name = (case map_of e name of
     Some JNull \<Rightarrow> Inr None
   | Some (JStr s) \<Rightarrow> Inr (Some s)
   | _ \<Rightarrow> Inl (StoreDomainError InvalidDomainValue))"

definition list_of :: "entries \<Rightarrow> string \<Rightarrow> json list sres" where
  "list_of e name = (case map_of e name of Some (JList xs) \<Rightarrow> Inr xs | _ \<Rightarrow> Inl StoreValueError)"

definition option_texts :: "json list \<Rightarrow> string list sres" where
  "option_texts xs = mapM (\<lambda>x. case x of JStr s \<Rightarrow> Inr s | _ \<Rightarrow> Inl StoreValueError) xs"

definition receipt_from :: "entries \<Rightarrow> product_review_receipt sres" where
  "receipt_from e =
     rbind (list_of e ''findings'') (\<lambda>items. rbind (mapM decode_finding items) (\<lambda>found.
     rbind (value_text e ''request_digest'') (\<lambda>request_dg. rbind (value_text e ''review_id'') (\<lambda>review_id.
     rbind (value_text e ''reviewer_id'') (\<lambda>reviewer_id. rbind (value_text e ''reviewer_session'') (\<lambda>session.
     rbind (value_int e ''observed_at'') (\<lambda>observed_at. rbind (value_int e ''fresh_until'') (\<lambda>fresh_until.
     rbind (list_of e ''owner_decision_options'') (\<lambda>raw_options. rbind (option_texts raw_options) (\<lambda>options.
     case map_of e ''subject'' of None \<Rightarrow> Inl StoreValueError | Some s \<Rightarrow>
     rbind (decode_subject s) (\<lambda>subj. rbind (value_text e ''verdict'') (\<lambda>verdict.
     case parse_verdict verdict of None \<Rightarrow> Inl StoreValueError | Some v \<Rightarrow>
     rbind (owner_text e ''owner_decision_reference'') (\<lambda>reference. rbind (owner_text e ''owner_decision_reason'') (\<lambda>reason.
     lift_value (check_ProductReviewReceipt \<lparr>rr_review_id = review_id, rr_request_digest = request_dg, rr_subject = subj,
       rr_reviewer_id = reviewer_id, rr_reviewer_session = session, rr_verdict = v, rr_findings = found, rr_observed_at = observed_at,
       rr_fresh_until = fresh_until, rr_owner_decision_reference = reference, rr_owner_decision_reason = reason,
       rr_owner_decision_options = options\<rparr>)))))))))))))))"

definition decode_product_review_receipt :: "string \<Rightarrow> product_review_receipt sres" where
  "decode_product_review_receipt data = (case loads data of
     Some (JObj e) \<Rightarrow> rbind (receipt_fields e) receipt_from
   | _ \<Rightarrow> Inl StoreValueError)"

section \<open>Outcomes\<close>

datatype review_status = ReviewApproved | ReviewChangesRequested | ReviewComment | ReviewOwnerDecision | ReviewInvalid | ReviewUnknown

record review_result =
  vw_status :: review_status
  vw_operation :: "operation_row \<times> nat"
  vw_receipt :: "product_review_receipt option"
  vw_evidence :: "evidence option"

definition review_outcome :: "hash \<Rightarrow> product_review_request \<Rightarrow> product_review_receipt \<Rightarrow> (review_status \<times> evidence option) dres" where
  "review_outcome H rq r =
     (if \<not> product_review_matches_request H rq r then Inr (ReviewInvalid, None)
      else rbind (validate_product_review H rq r) (\<lambda>found.
        Inr (case found of
            Some _ \<Rightarrow> ReviewApproved
          | None \<Rightarrow> (case rr_verdict r of APPROVE \<Rightarrow> ReviewInvalid | REQUEST_CHANGES \<Rightarrow> ReviewChangesRequested
              | OWNER_DECISION_NEEDED \<Rightarrow> ReviewOwnerDecision | COMMENT \<Rightarrow> ReviewComment), found)))"

definition validate_review_receipt :: "hash \<Rightarrow> product_review_request \<Rightarrow> product_review_receipt \<Rightarrow> unit sres" where
  "validate_review_receipt H rq r = guard (\<not> (rr_request_digest r \<noteq> input_digest H rq \<or> rr_subject r \<noteq> rq_subject rq)) StoreValueError"

section \<open>Runs of calls\<close>

text \<open>A call commits or leaves the store as it was; a run keeps the calls before an exception.\<close>

type_synonym 'a calls = "store \<Rightarrow> 'a sres \<times> store"

definition ask :: "(store \<Rightarrow> 'a sres) \<Rightarrow> 'a calls" where
  "ask f S = (f S, S)"

definition answer :: "'a \<Rightarrow> 'a calls" where
  "answer x S = (Inr x, S)"

definition perform :: "(store \<Rightarrow> store sres) \<Rightarrow> unit calls" where
  "perform f S = (case f S of Inl e \<Rightarrow> (Inl e, S) | Inr S' \<Rightarrow> (Inr (), S'))"

definition obtains_from :: "(store \<Rightarrow> ('a \<times> store) sres) \<Rightarrow> 'a calls" where
  "obtains_from f S = (case f S of Inl e \<Rightarrow> (Inl e, S) | Inr (x, S') \<Rightarrow> (Inr x, S'))"

definition and_then :: "'a calls \<Rightarrow> ('a \<Rightarrow> 'b calls) \<Rightarrow> 'b calls" where
  "and_then m f S = (case m S of (Inl e, S') \<Rightarrow> (Inl e, S') | (Inr x, S') \<Rightarrow> f x S')"

definition in_journal :: "(journal \<Rightarrow> journal sres) \<Rightarrow> store \<Rightarrow> store sres" where
  "in_journal f S = rbind (f (st_journal S)) (\<lambda>J. Inr (S\<lparr>st_journal := J\<rparr>))"

section \<open>Dispatch\<close>

datatype review_lookup = LookupFound product_review_receipt | LookupAbsent | LookupUnknown

text \<open>
  The guards of \<open>budgeted_intent\<close>, \<open>claim\<close>, \<open>check_work_dispatch\<close> and \<open>record_work_settlement\<close>; the verdicts
  on the artifact budget of the request and of the receipt; whether a claim is made for an owner; what the
  dispatcher answers to a lookup and to a dispatch, where \<open>None\<close> is an exception it raises. A lookup that raises ends the
  run with the calls made so far, like any other exception, and has no value here.
\<close>

record review_outside =
  ro_intent :: work_guards
  ro_claim :: work_guards
  ro_check :: work_guards
  ro_settle :: work_guards
  ro_request_budget :: "unit sres"
  ro_receipt_budget :: "unit sres"
  ro_owned :: bool
  ro_lookup :: review_lookup
  ro_dispatch :: "product_review_receipt option"

definition review_request :: "hash \<Rightarrow> product_review_request \<Rightarrow> entries" where
  "review_request H rq = [(''candidate'', JStr (candidate_digest H (rq_candidate rq))), (''input'', JStr (input_digest H rq)),
     (''kind'', JStr ''product-review''), (''subject'', JObj (subject_data (rq_subject rq)))]"

definition conclude_review ::
    "hash \<Rightarrow> review_outside \<Rightarrow> product_review_request \<Rightarrow> product_review_receipt \<Rightarrow> string \<Rightarrow> int \<Rightarrow> operation_row \<times> nat \<Rightarrow>
     review_result calls" where
  "conclude_review H out rq r reference fence op =
     and_then (ask (\<lambda>_. lift_value (review_outcome H rq r))) (\<lambda>(status, found).
     and_then (perform (record_work_settlement H (ro_settle out) (product_review_operation_id H rq) reference (Some fence))) (\<lambda>_.
     answer \<lparr>vw_status = status, vw_operation = op, vw_receipt = Some r, vw_evidence = found\<rparr>))"

definition unknown_review :: "operation_row \<times> nat \<Rightarrow> review_result" where
  "unknown_review op = \<lparr>vw_status = ReviewUnknown, vw_operation = op, vw_receipt = None, vw_evidence = None\<rparr>"

text \<open>A receipt found in the store is observed if the delivery was left uncertain.\<close>

definition recovered_operation ::
    "hash \<Rightarrow> product_review_request \<Rightarrow> string \<Rightarrow> operation_row \<times> nat \<Rightarrow> (operation_row \<times> nat) calls" where
  "recovered_operation H rq data op =
     (let i = product_review_operation_id H rq in
      if op_status (fst op) \<in> {OpDispatched, OpUnknown}
      then and_then (perform (in_journal (observe i (op_fence (fst op)) (''product-review-recovered:'' @ H data) ''accepted''
          (Some (''sha256:'' @ H data))))) (\<lambda>_. ask (\<lambda>S. operation (st_journal S) i))
      else answer op)"

definition recorded_review ::
    "hash \<Rightarrow> review_outside \<Rightarrow> product_review_request \<Rightarrow> string \<Rightarrow> operation_row \<times> nat \<Rightarrow> review_result calls" where
  "recorded_review H out rq data op =
     and_then (ask (\<lambda>_. decode_product_review_receipt data)) (\<lambda>r.
     and_then (ask (\<lambda>_. validate_review_receipt H rq r)) (\<lambda>_.
     and_then (recovered_operation H rq data op) (\<lambda>op'.
     conclude_review H out rq r (''sha256:'' @ H data) (op_fence (fst op')) op')))"

definition store_receipt :: "hash \<Rightarrow> review_outside \<Rightarrow> product_review_request \<Rightarrow> product_review_receipt \<Rightarrow> unit calls" where
  "store_receipt H out rq r = perform (in_journal (finalize_artifact H (ro_receipt_budget out) (product_review_operation_id H rq)
     ''review-receipt'' (receipt_bytes r)))"

text \<open>An uncertain delivery is reconciled first; \<open>None\<close> means that the review is to be dispatched.\<close>

definition reconcile_review ::
    "hash \<Rightarrow> review_outside \<Rightarrow> int \<Rightarrow> product_review_request \<Rightarrow> operation_row \<times> nat \<Rightarrow> review_result option calls" where
  "reconcile_review H out now rq op =
     (let i = product_review_operation_id H rq; fence = op_fence (fst op); evidence = ''product-review-lookup:'' @ show_int now in
      if (case op_lease_until (fst op) of None \<Rightarrow> False | Some lease \<Rightarrow> now < lease) then answer (Some (unknown_review op))
      else (case ro_lookup out of
        LookupUnknown \<Rightarrow>
          and_then (perform (in_journal (reconcile i fence ''unknown'' now (evidence @ '':unknown'') None None False))) (\<lambda>_.
          and_then (ask (\<lambda>S. operation (st_journal S) i)) (\<lambda>op'. answer (Some (unknown_review op'))))
      | LookupFound r \<Rightarrow>
          and_then (ask (\<lambda>_. validate_review_receipt H rq r)) (\<lambda>_.
          and_then (store_receipt H out rq r) (\<lambda>_.
          let reference = ''sha256:'' @ H (receipt_bytes r) in
          and_then (perform (in_journal (reconcile i fence ''found'' now (evidence @ '':found'') (Some reference)
            (Some (op_request_digest (fst op))) False))) (\<lambda>_.
          and_then (ask (\<lambda>S. operation (st_journal S) i)) (\<lambda>op'.
          and_then (conclude_review H out rq r reference (op_fence (fst op')) op') (\<lambda>result. answer (Some result))))))
      | LookupAbsent \<Rightarrow>
          and_then (perform (in_journal (reconcile i fence ''absent'' now (evidence @ '':absent'') None
            (Some (op_request_digest (fst op))) True))) (\<lambda>_. answer None)))"

text \<open>The claim, the final check and the call of the dispatcher.\<close>

definition deliver_review :: "hash \<Rightarrow> review_outside \<Rightarrow> int \<Rightarrow> int \<Rightarrow> product_review_request \<Rightarrow> review_result calls" where
  "deliver_review H out now lease_seconds rq =
     (let i = product_review_operation_id H rq in
      and_then (obtains_from (budgeted_claim H (ro_claim out) (ro_owned out) i (if ro_owned out then 0 else now) lease_seconds)) (\<lambda>fence.
      and_then (ask (\<lambda>S. operation (st_journal S) i)) (\<lambda>_.
      and_then (ask (check_work_dispatch H (ro_check out) i)) (\<lambda>_.
      case ro_dispatch out of
        None \<Rightarrow>
          and_then (perform (in_journal (record_transport i fence False))) (\<lambda>_.
          and_then (perform (in_journal (observe i fence (''product-review-unknown:'' @ show_int fence) ''unknown'' None))) (\<lambda>_.
          and_then (ask (\<lambda>S. operation (st_journal S) i)) (\<lambda>op. answer (unknown_review op))))
      | Some r \<Rightarrow>
          and_then (ask (\<lambda>_. validate_review_receipt H rq r)) (\<lambda>_.
          and_then (perform (in_journal (record_transport i fence True))) (\<lambda>_.
          and_then (store_receipt H out rq r) (\<lambda>_.
          let data = receipt_bytes r; reference = ''sha256:'' @ H data in
          and_then (perform (in_journal (observe i fence (''product-review:'' @ H data) ''accepted'' (Some reference)))) (\<lambda>_.
          and_then (ask (\<lambda>S. operation (st_journal S) i)) (\<lambda>op.
          conclude_review H out rq r reference fence op)))))))))"

definition review_of_attempt :: "hash \<Rightarrow> product_review_request \<Rightarrow> program \<Rightarrow> unit sres" where
  "review_of_attempt H rq p = rbind (lift_value (program_attempt p (rq_author_attempt_id rq))) (\<lambda>a.
     guard (\<not> (es_attempt_digest (rq_subject rq) \<noteq> attempt_digest H (at_spec a)
       \<or> es_spec_digest (rq_subject rq) \<noteq> as_spec_digest (at_spec a))) StoreValueError)"

definition store_request :: "hash \<Rightarrow> review_outside \<Rightarrow> product_review_request \<Rightarrow> string option \<Rightarrow> unit calls" where
  "store_request H out rq stored = (case stored of
     None \<Rightarrow> perform (in_journal (finalize_artifact H (ro_request_budget out) (product_review_operation_id H rq) ''review-request''
       (review_request_bytes H rq)))
   | Some old \<Rightarrow> ask (\<lambda>_. guard (old = review_request_bytes H rq) StoreValueError))"

definition dispatch_product_review ::
    "hash \<Rightarrow> review_outside \<Rightarrow> int \<Rightarrow> int \<Rightarrow> product_review_request \<Rightarrow> review_result calls" where
  "dispatch_product_review H out now lease_seconds rq =
     (let i = product_review_operation_id H rq in
      and_then (ask (\<lambda>S. work_program_for_attempt H S (rq_author_attempt_id rq))) (\<lambda>program_id.
      and_then (ask (\<lambda>S. load H S program_id)) (\<lambda>p.
      and_then (ask (\<lambda>_. review_of_attempt H rq p)) (\<lambda>_.
      and_then (perform (budgeted_intent H (ro_intent out) program_id (rq_author_attempt_id rq) WorkReview i i (review_request H rq) 0)) (\<lambda>_.
      and_then (ask (\<lambda>S. find_artifact H (st_journal S) i ''review-request'')) (\<lambda>stored.
      and_then (store_request H out rq stored) (\<lambda>_.
      and_then (ask (\<lambda>S. find_artifact H (st_journal S) i ''review-receipt'')) (\<lambda>found.
      and_then (ask (\<lambda>S. operation (st_journal S) i)) (\<lambda>op.
      case found of
        Some data \<Rightarrow> recorded_review H out rq data op
      | None \<Rightarrow>
          and_then (if op_status (fst op) \<in> {OpDispatched, OpUnknown} then reconcile_review H out now rq op else answer None) (\<lambda>decided.
          case decided of Some result \<Rightarrow> answer result | None \<Rightarrow> deliver_review H out now lease_seconds rq))))))))))"

end
