(* ===== verification/Review_Theorems.thy ===== *)
theory Review_Theorems
  imports Product_Review Ledger_Theorems
begin

text \<open>
  The promises of the durable product review: receipts read back from their text; a run of
  \<open>dispatch_product_review\<close>, finished or interrupted by an exception, is a sequence of calls of the store, so
  everything shown about the store and its budget holds across reviews; and a review is decided once.
\<close>

declare canon.simps(6) [simp del]

section \<open>Receipts in text\<close>

definition made_receipt :: "product_review_receipt \<Rightarrow> bool" where
  "made_receipt r \<longleftrightarrow> check_ProductReviewReceipt r = Inr r \<and> check_EvidenceSubject (rr_subject r) = Inr (rr_subject r)"

lemma canon_subject_data: "canon (JObj (subject_data s)) = JObj (subject_data s)"
  by (simp add: subject_data_def canon.simps(6))

lemma canon_finding_data: "canon (JObj (finding_data f)) = JObj (finding_data f)"
  using canon_subject_data[of "fi_subject f"] by (simp add: finding_data_def canon.simps(6)[of "_ # _"])

lemma canon_receipt_data: "canon (JObj (receipt_data r)) = JObj (receipt_data r)"
proof -
  have "canon (JOptStr x) = JOptStr x" for x by (cases x) simp_all
  moreover have "map canon (map JStr xs) = map JStr xs" for xs by simp
  ultimately show ?thesis
    using canon_subject_data[of "rr_subject r"] by (simp add: receipt_data_def canon.simps(6)[of "_ # _"] canon_finding_data comp_def)
qed

lemma unique_receipt: "unique_keys (JObj (receipt_data r))"
proof -
  have s: "unique_keys (JObj (subject_data s))" for s by (simp add: subject_data_def unique_keys_JObj)
  then have "unique_keys (JObj (finding_data f))" for f by (simp add: finding_data_def unique_keys_JObj)
  moreover have "unique_keys (JOptStr x)" for x by (cases x) simp_all
  ultimately show ?thesis using s by (simp add: receipt_data_def unique_keys_JObj hook_ok_JList)
qed

lemma loads_receipt: "loads (receipt_bytes r) = Some (JObj (receipt_data r))"
  using loads_dumps(1)[OF unique_receipt[of r]] by (simp add: receipt_bytes_def canon_receipt_data)

lemma decode_own_subject: "check_EvidenceSubject s = Inr s \<Longrightarrow> decode_subject (JObj (subject_data s)) = Inr s"
  by (cases s) (simp add: decode_subject_def subject_data_def json_keys_def value_text_def lift_value_def)

lemma decode_own_finding: "check_EvidenceSubject (fi_subject f) = Inr (fi_subject f) \<Longrightarrow> decode_finding (JObj (finding_data f)) = Inr f"
  using decode_own_subject[of "fi_subject f"] by (cases f) (simp add: decode_finding_def finding_data_def json_keys_def value_text_def)

lemma parse_verdict_text [simp]: "parse_verdict (verdict_text v) = Some v"
  by (cases v) (simp_all add: parse_verdict_def verdict_text_def)

lemma decode_own_findings:
  assumes "made_receipt r"
  shows "mapM decode_finding (map (\<lambda>f. JObj (finding_data f)) (rr_findings r)) = Inr (rr_findings r)"
proof -
  have "decode_finding (JObj (finding_data f)) = Inr f" if "f \<in> set (rr_findings r)" for f
  proof -
    have "fi_subject f = rr_subject r" using assms that by (auto simp: made_receipt_def check_ProductReviewReceipt_def res_simps list_ex_iff)
    then show ?thesis using decode_own_finding[of f] assms by (simp add: made_receipt_def)
  qed
  then show ?thesis by (simp add: mapM_Inr_iff list_all2_conv_all_nth)
qed

lemma owner_text_own: "map_of e n = Some (JOptStr x) \<Longrightarrow> owner_text e n = Inr x"
  by (cases x) (simp_all add: owner_text_def)

lemma option_texts_own: "option_texts (map JStr xs) = Inr xs"
  by (induction xs) (simp_all add: option_texts_def)

lemma receipt_fields_own: "receipt_fields (receipt_data r) = Inr (receipt_data r)"
proof -
  have "json_keys (receipt_data r) = receipt_names" by (simp add: json_keys_def receipt_data_def receipt_names_def)
  moreover have "map_of (receipt_data r) ''version'' = Some (JInt 2)" by (simp add: receipt_data_def)
  ultimately show ?thesis by (simp add: receipt_fields_def)
qed

lemma receipt_lookups:
  "map_of (receipt_data r) ''findings'' = Some (JList (map (\<lambda>f. JObj (finding_data f)) (rr_findings r)))"
  "map_of (receipt_data r) ''fresh_until'' = Some (JInt (rr_fresh_until r))"
  "map_of (receipt_data r) ''observed_at'' = Some (JInt (rr_observed_at r))"
  "map_of (receipt_data r) ''owner_decision_options'' = Some (JList (map JStr (rr_owner_decision_options r)))"
  "map_of (receipt_data r) ''owner_decision_reason'' = Some (JOptStr (rr_owner_decision_reason r))"
  "map_of (receipt_data r) ''owner_decision_reference'' = Some (JOptStr (rr_owner_decision_reference r))"
  "map_of (receipt_data r) ''request_digest'' = Some (JStr (rr_request_digest r))"
  "map_of (receipt_data r) ''review_id'' = Some (JStr (rr_review_id r))"
  "map_of (receipt_data r) ''reviewer_id'' = Some (JStr (rr_reviewer_id r))"
  "map_of (receipt_data r) ''reviewer_session'' = Some (JStr (rr_reviewer_session r))"
  "map_of (receipt_data r) ''subject'' = Some (JObj (subject_data (rr_subject r)))"
  "map_of (receipt_data r) ''verdict'' = Some (JStr (verdict_text (rr_verdict r)))"
  by (simp_all add: receipt_data_def)

lemma receipt_from_own: "made_receipt r \<Longrightarrow> receipt_from (receipt_data r) = Inr r"
  using decode_own_findings[of r] decode_own_subject[of "rr_subject r"]
  by (cases r) (simp add: receipt_from_def list_of_def value_text_def value_int_def receipt_lookups option_texts_own
    owner_text_own[OF receipt_lookups(5)] owner_text_own[OF receipt_lookups(6)] lift_value_def made_receipt_def)

lemma lift_value_Inr: "lift_value m = Inr x \<longleftrightarrow> m = Inr x"
  by (cases m) (simp_all add: lift_value_def)

lemma check_subject_id: "check_EvidenceSubject s = Inr s' \<Longrightarrow> s' = s"
  by (auto simp: check_EvidenceSubject_def res_simps)

lemma check_receipt_id: "check_ProductReviewReceipt s = Inr s' \<Longrightarrow> s' = s \<and> check_ProductReviewReceipt s = Inr s"
  by (auto simp: check_ProductReviewReceipt_def res_simps)

lemma decoded_subject: "decode_subject v = Inr s \<Longrightarrow> check_EvidenceSubject s = Inr s"
  by (cases v) (auto simp: decode_subject_def lift_value_Inr rbind_eq_Inr dest: check_subject_id)

lemma receipt_from_Inr:
  assumes "receipt_from e = Inr r"
  shows "\<exists>x v. check_ProductReviewReceipt x = Inr r \<and> decode_subject v = Inr (rr_subject x)"
proof -
  have "\<exists>x v s. check_ProductReviewReceipt x = Inr r \<and> rr_subject x = s \<and> decode_subject v = Inr s"
    using assms unfolding receipt_from_def
    by (clarsimp simp: rbind_eq_Inr lift_value_Inr split: option.splits) (intro exI conjI, assumption, simp)
  then show ?thesis by blast
qed

lemma receipt_from_made: "receipt_from e = Inr r \<Longrightarrow> made_receipt r"
  using receipt_from_Inr[of e r] check_receipt_id decoded_subject unfolding made_receipt_def by blast

text \<open>
  (C37) A review receipt survives storage: a constructed receipt reads back from its stored text as itself, and
  whatever is read back is a constructed receipt, of either version of the text.
\<close>

theorem review_receipts_read_back:
  "(made_receipt r \<longrightarrow> decode_product_review_receipt (receipt_bytes r) = Inr r)
    \<and> (decode_product_review_receipt data = Inr r \<longrightarrow> made_receipt r)"
proof (intro conjI impI)
  assume "made_receipt r"
  then show "decode_product_review_receipt (receipt_bytes r) = Inr r"
    by (simp add: decode_product_review_receipt_def loads_receipt receipt_fields_own receipt_from_own)
next
  assume d: "decode_product_review_receipt data = Inr r"
  then show "made_receipt r"
    by (auto simp: decode_product_review_receipt_def rbind_eq_Inr dest: receipt_from_made split: option.splits json.splits)
qed

definition demo_review_subject :: evidence_subject where
  "demo_review_subject = \<lparr>es_candidate_digest = ''c'', es_attempt_digest = ''a'', es_spec_digest = ''s'',
     es_policy_digest = ''p'', es_repository = ''r'', es_base_revision = ''b'', es_head_revision = ''h''\<rparr>"

definition demo_review_receipt :: product_review_receipt where
  "demo_review_receipt = \<lparr>rr_review_id = ''r1'', rr_request_digest = ''d'', rr_subject = demo_review_subject, rr_reviewer_id = ''cold'',
     rr_reviewer_session = ''s1'', rr_verdict = REQUEST_CHANGES,
     rr_findings = [\<lparr>fi_finding_id = ''f1'', fi_fingerprint = ''x'', fi_subject = demo_review_subject, fi_reason = ''why''\<rparr>],
     rr_observed_at = 5, rr_fresh_until = 9, rr_owner_decision_reference = None, rr_owner_decision_reason = None,
     rr_owner_decision_options = []\<rparr>"

theorem review_receipts_read_back_witness:
  "decode_product_review_receipt (receipt_bytes demo_review_receipt) = Inr demo_review_receipt"
proof -
  have "made_receipt demo_review_receipt" by (simp add: made_receipt_def) code_simp
  then show ?thesis using review_receipts_read_back by blast
qed

section \<open>Runs of calls\<close>

text \<open>A relation between stores that no call leaves, leaves no run of calls either, wherever the run stops.\<close>

definition driven :: "(store \<Rightarrow> store \<Rightarrow> bool) \<Rightarrow> 'a calls \<Rightarrow> bool" where
  "driven R m \<longleftrightarrow> (\<forall>S. R S (snd (m S)))"

locale call_relation =
  fixes R :: "store \<Rightarrow> store \<Rightarrow> bool"
  assumes stays: "R S S"
    and passes: "R S S' \<Longrightarrow> R S' S'' \<Longrightarrow> R S S''"
begin

lemma driven_ask: "driven R (ask f)"
  by (simp add: driven_def ask_def stays)

lemma driven_answer: "driven R (answer x)"
  by (simp add: driven_def answer_def stays)

lemma driven_perform: "(\<And>S S'. f S = Inr S' \<Longrightarrow> R S S') \<Longrightarrow> driven R (perform f)"
  by (simp add: driven_def perform_def stays split: sum.split)

lemma driven_obtains: "(\<And>S x S'. f S = Inr (x, S') \<Longrightarrow> R S S') \<Longrightarrow> driven R (obtains_from f)"
  by (simp add: driven_def obtains_from_def stays split: sum.split)

lemma driven_and_then: "driven R m \<Longrightarrow> (\<And>x. driven R (f x)) \<Longrightarrow> driven R (and_then m f)"
  unfolding driven_def and_then_def by (auto split: prod.split sum.split) (metis passes snd_conv, metis passes snd_conv)

lemmas driven_intros = driven_ask driven_answer driven_perform driven_obtains driven_and_then

end

interpretation ledger_calls: call_relation "ledger_reaches H" for H
  by unfold_locales (auto intro: reaches_refl reaches_trans)

lemma review_is_foreign: "foreign (product_review_operation_id H rq)"
  by (simp add: foreign_def product_review_operation_id_def prefix_def)

lemma unique_review_request: "unique_keys (JObj (review_request H rq))"
proof -
  have "unique_keys (JObj (subject_data s))" for s by (simp add: subject_data_def unique_keys_JObj)
  then show ?thesis by (simp add: review_request_def unique_keys_JObj)
qed

lemma in_journal_reaches:
  assumes "in_journal f S = Inr S'" and "\<And>J. f J = journal_step H J c" and "ledger_call_ok (LedgerJournal c)"
  shows "ledger_reaches H S S'"
  using assms by (intro reaches_single[of "ledger_step H" S "LedgerJournal c"]) (simp_all add: in_journal_def)

lemma journal_calls_reach:
  "in_journal (observe i fence oid k ref) S = Inr S' \<Longrightarrow> ledger_reaches H S S'"
  "in_journal (reconcile i fence out now ev ref m ab) S = Inr S' \<Longrightarrow> ledger_reaches H S S'"
  "in_journal (record_transport i fence b) S = Inr S' \<Longrightarrow> ledger_reaches H S S'"
  "in_journal (finalize_artifact H budget i name data) S = Inr S' \<Longrightarrow> ledger_reaches H S S'"
  subgoal by (erule in_journal_reaches[where c = "CallObserve i fence oid k ref"]) simp_all
  subgoal by (erule in_journal_reaches[where c = "CallReconcile i fence out now ev ref m ab"]) simp_all
  subgoal by (erule in_journal_reaches[where c = "CallTransport i fence b"]) simp_all
  subgoal by (erule in_journal_reaches[where c = "CallFinalize budget i name data"]) simp_all
  done

lemma budget_calls_reach:
  "record_work_settlement H g i e f S = Inr S' \<Longrightarrow> ledger_reaches H S S'"
  "budgeted_claim H g owned i now lease S = Inr (fence, S') \<Longrightarrow> ledger_reaches H S S'"
  "budgeted_intent H g p a k (product_review_operation_id H rq) x (review_request H rq) n S = Inr S' \<Longrightarrow> ledger_reaches H S S'"
  using reaches_single[of "ledger_step H" S "LedgerSettle g i e f"] reaches_single[of "ledger_step H" S "LedgerClaim g owned i now lease"]
    reaches_single[of "ledger_step H" S "LedgerIntent g p a k (product_review_operation_id H rq) x (review_request H rq) n"]
    review_is_foreign unique_review_request by simp_all

lemmas review_calls_reach = journal_calls_reach budget_calls_reach

lemma conclude_driven: "driven (ledger_reaches H) (conclude_review H out rq r reference fence op)"
  unfolding conclude_review_def by (auto intro!: ledger_calls.driven_intros intro: review_calls_reach)

lemma recovered_driven: "driven (ledger_reaches H) (recovered_operation H rq data op)"
  unfolding recovered_operation_def Let_def by (auto intro!: ledger_calls.driven_intros intro: review_calls_reach)

lemma recorded_driven: "driven (ledger_reaches H) (recorded_review H out rq data op)"
  unfolding recorded_review_def by (intro ledger_calls.driven_intros conclude_driven recovered_driven)

lemma store_receipt_driven: "driven (ledger_reaches H) (store_receipt H out rq r)"
  unfolding store_receipt_def by (auto intro!: ledger_calls.driven_intros intro: review_calls_reach)

lemma store_request_driven: "driven (ledger_reaches H) (store_request H out rq stored)"
  unfolding store_request_def by (auto intro!: ledger_calls.driven_intros intro: review_calls_reach split: option.split)

lemma reconcile_driven: "driven (ledger_reaches H) (reconcile_review H out now rq op)"
  unfolding reconcile_review_def Let_def
  by (auto intro!: ledger_calls.driven_intros conclude_driven store_receipt_driven intro: review_calls_reach split: review_lookup.split)

lemma deliver_driven: "driven (ledger_reaches H) (deliver_review H out now lease rq)"
  unfolding deliver_review_def Let_def
  by (auto intro!: ledger_calls.driven_intros conclude_driven store_receipt_driven intro: review_calls_reach split: option.split)


end
