(* ===== verification/Review_Decisions.thy ===== *)
theory Review_Decisions
  imports Review_Theorems
begin

text \<open>
  Where the result of a product review comes from: every run of \<open>dispatch_product_review\<close> ends with an
  exception, undecided, or with the outcome of a receipt that is in the store; and once a receipt is in the
  store, no reviewer is asked again and every run has its outcome.
\<close>

declare canon.simps(6) [simp del]

section \<open>Artifacts along runs\<close>

lemma reaches_archives: "ledger_reaches H S S' \<Longrightarrow> archives (st_journal S) (st_journal S')"
proof (induction rule: reaches.induct)
  case (reaches_step S' c S'')
  then have "archives (st_journal S') (st_journal S'')" using ledger_step_safe[of c H S' S''] by (simp add: safe_def posts_def)
  then show ?case using reaches_step.IH archives_trans by blast
qed (rule archives_refl)

lemma archived_artifact:
  assumes "archives J J'" and "find_artifact H J i name = Inr (Some data)"
  shows "find_artifact H J' i name = Inr (Some data)"
proof -
  obtain row where row: "find_artifact_row J i name = Some row" "verify_blob H J (ar_digest row) (ar_size row) = Inr data"
    using assms(2) by (auto simp: find_artifact_def rbind_eq_Inr split: option.splits)
  obtain new where "jn_artifacts J' = jn_artifacts J @ new" using assms(1) by (auto simp: archives_def)
  with row(1) have "find_artifact_row J' i name = Some row" by (rule find_artifact_row_append)
  moreover have "verify_blob H J' (ar_digest row) (ar_size row) = Inr data"
    using row(2) assms(1) by (auto simp: verify_blob_def archives_def split: option.splits if_splits)
  ultimately show ?thesis by (simp add: find_artifact_def)
qed

lemma finalized_artifact:
  assumes "finalize_artifact H budget i name data J = Inr J'"
  shows "\<exists>d. find_artifact H J' i name = Inr (Some d) \<and> (d = data \<or> collides H)"
  using assms
proof (cases rule: finalize_artifact_Inr)
  case (1 J1)
  have arts: "jn_artifacts J1 = jn_artifacts J" by (subst stage_blob_tables[OF 1(1)]) simp
  obtain a where a: "find_artifact_row J' i name = Some a" "ar_digest a = H data" "ar_size a = int (length data)"
    using 1(3) arts by (auto simp: find_artifact_row_def find_append_None)
  obtain d where d: "verify_blob H J1 (H data) (int (length data)) = Inr d" "H d = H data" by (rule stage_blob_verifies[OF 1(1)])
  have "verify_blob H J' (H data) (int (length data)) = Inr d" using d(1) 1(3) by (auto simp: verify_blob_tables)
  then show ?thesis using a d(2) by (auto simp: find_artifact_def collides_def)
qed

section \<open>Runs that return\<close>

named_theorems calls

lemma ask_Inr [calls]: "ask f S = (Inr x, S') \<longleftrightarrow> f S = Inr x \<and> S' = S"
  by (auto simp: ask_def)

lemma answer_Inr [calls]: "answer y S = (Inr x, S') \<longleftrightarrow> x = y \<and> S' = S"
  by (auto simp: answer_def)

lemma perform_Inr [calls]: "perform f S = (Inr x, S') \<longleftrightarrow> f S = Inr S'"
  by (auto simp: perform_def split: sum.split)

lemma obtains_Inr [calls]: "obtains_from f S = (Inr x, S') \<longleftrightarrow> f S = Inr (x, S')"
  by (auto simp: obtains_from_def split: sum.split prod.split)

lemma and_then_Inr [calls]: "and_then m f S = (Inr y, S'') \<longleftrightarrow> (\<exists>x S'. m S = (Inr x, S') \<and> f x S' = (Inr y, S''))"
  by (auto simp: and_then_def split: sum.split prod.split)

lemma in_journal_Inr: "in_journal f S = Inr S' \<longleftrightarrow> (\<exists>J. f (st_journal S) = Inr J \<and> S' = S\<lparr>st_journal := J\<rparr>)"
  by (auto simp: in_journal_def rbind_eq_Inr)

lemma driven_run: "driven R m \<Longrightarrow> m S = (x, S') \<Longrightarrow> R S S'"
  unfolding driven_def by (metis snd_conv)

definition rests_on_receipt :: "hash \<Rightarrow> product_review_request \<Rightarrow> review_result \<Rightarrow> store \<Rightarrow> bool" where
  "rests_on_receipt H rq v S \<longleftrightarrow> (\<exists>r data. vw_receipt v = Some r
     \<and> find_artifact H (st_journal S) (product_review_operation_id H rq) ''review-receipt'' = Inr (Some data)
     \<and> (decode_product_review_receipt data = Inr r \<or> data = receipt_bytes r \<or> collides H)
     \<and> rr_request_digest r = input_digest H rq \<and> rr_subject r = rq_subject rq
     \<and> review_outcome H rq r = Inr (vw_status v, vw_evidence v))"

lemma conclude_rests:
  assumes "conclude_review H out rq r reference fence op S = (Inr v, S')"
    and "find_artifact H (st_journal S) (product_review_operation_id H rq) ''review-receipt'' = Inr (Some data)"
    and "decode_product_review_receipt data = Inr r \<or> data = receipt_bytes r \<or> collides H"
    and "validate_review_receipt H rq r = Inr ()"
  shows "rests_on_receipt H rq v S'"
proof -
  have "ledger_reaches H S S'" using conclude_driven assms(1) by (rule driven_run)
  then have kept: "find_artifact H (st_journal S') (product_review_operation_id H rq) ''review-receipt'' = Inr (Some data)"
    using archived_artifact[OF reaches_archives assms(2)] by blast
  have v: "vw_receipt v = Some r" "review_outcome H rq r = Inr (vw_status v, vw_evidence v)"
    using assms(1) by (auto simp: conclude_review_def calls lift_value_Inr)
  have "rr_request_digest r = input_digest H rq" "rr_subject r = rq_subject rq"
    using assms(4) by (auto simp: validate_review_receipt_def guard_eq_Inr)
  then show ?thesis unfolding rests_on_receipt_def using kept v assms(3) by blast
qed

lemma recorded_returns:
  assumes "recorded_review H out rq data op S = (Inr v, S')"
    and "find_artifact H (st_journal S) (product_review_operation_id H rq) ''review-receipt'' = Inr (Some data)"
  shows "rests_on_receipt H rq v S'" and "\<exists>r. decode_product_review_receipt data = Inr r \<and> vw_receipt v = Some r"
proof -
  obtain r u op' S1 where r: "decode_product_review_receipt data = Inr r" "validate_review_receipt H rq r = Inr (u :: unit)"
      "recovered_operation H rq data op S = (Inr op', S1)"
      "conclude_review H out rq r (''sha256:'' @ H data) (op_fence (fst op')) op' S1 = (Inr v, S')"
    using assms(1) unfolding recorded_review_def and_then_Inr ask_Inr by blast
  have "ledger_reaches H S S1" by (rule driven_run[OF recovered_driven r(3)])
  then have "find_artifact H (st_journal S1) (product_review_operation_id H rq) ''review-receipt'' = Inr (Some data)"
    using archived_artifact[OF reaches_archives assms(2)] by blast
  then show "rests_on_receipt H rq v S'" using conclude_rests[OF r(4)] r(1,2) by simp
  show "\<exists>r. decode_product_review_receipt data = Inr r \<and> vw_receipt v = Some r"
    using r(1,4) by (auto simp: conclude_review_def calls)
qed

lemma stored_then_concluded:
  assumes "store_receipt H out rq r S = (Inr x, S1)" and "ledger_reaches H S1 S2"
    and "conclude_review H out rq r reference fence op S2 = (Inr v, S')" and "validate_review_receipt H rq r = Inr ()"
  shows "rests_on_receipt H rq v S'"
proof -
  let ?i = "product_review_operation_id H rq"
  obtain J where J: "finalize_artifact H (ro_receipt_budget out) ?i ''review-receipt'' (receipt_bytes r) (st_journal S) = Inr J" "st_journal S1 = J"
    using assms(1) by (auto simp: store_receipt_def perform_Inr in_journal_Inr)
  obtain d where d: "find_artifact H (st_journal S1) ?i ''review-receipt'' = Inr (Some d)" "d = receipt_bytes r \<or> collides H"
    using finalized_artifact[OF J(1)] J(2) by blast
  have "find_artifact H (st_journal S2) (product_review_operation_id H rq) ''review-receipt'' = Inr (Some d)"
    using archived_artifact[OF reaches_archives[OF assms(2)] d(1)] .
  then show ?thesis using conclude_rests[OF assms(3) _ _ assms(4)] d(2) by blast
qed

lemma reconcile_returns:
  assumes "reconcile_review H out now rq op S = (Inr (Some v), S')"
  shows "v \<in> range unknown_review \<or> rests_on_receipt H rq v S'"
proof (cases "case op_lease_until (fst op) of None \<Rightarrow> False | Some lease \<Rightarrow> now < lease")
  case True
  then show ?thesis using assms by (simp add: reconcile_review_def Let_def answer_Inr)
next
  case False
  note run = assms[unfolded reconcile_review_def Let_def if_not_P[OF False]]
  show ?thesis
  proof (cases "ro_lookup out")
    case (LookupFound r)
    obtain u x y S1 S2 op' S3 w where r: "validate_review_receipt H rq r = Inr (u :: unit)" "store_receipt H out rq r S = (Inr x, S1)"
        "perform (in_journal (reconcile (product_review_operation_id H rq) (op_fence (fst op)) ''found'' now
          ((''product-review-lookup:'' @ show_int now) @ '':found'') (Some (''sha256:'' @ H (receipt_bytes r)))
          (Some (op_request_digest (fst op))) False)) S1 = (Inr y, S2)"
        "operation (st_journal S2) (product_review_operation_id H rq) = Inr op'"
        "conclude_review H out rq r (''sha256:'' @ H (receipt_bytes r)) (op_fence (fst op')) op' S2 = (Inr w, S3)" "v = w" "S' = S3"
      using run unfolding LookupFound review_lookup.case and_then_Inr ask_Inr answer_Inr option.inject by blast
    have "ledger_reaches H S1 S2" using r(3) unfolding perform_Inr by (rule review_calls_reach)
    from stored_then_concluded[OF r(2) this r(5)] show ?thesis using r(1,6,7) by simp
  qed (use run in \<open>auto simp: and_then_Inr answer_Inr\<close>)
qed

lemma deliver_returns:
  assumes "deliver_review H out now lease_seconds rq S = (Inr v, S')"
  shows "v \<in> range unknown_review \<or> rests_on_receipt H rq v S'"
proof (cases "ro_dispatch out")
  case None
  then show ?thesis using assms unfolding deliver_review_def Let_def None option.case and_then_Inr answer_Inr by blast
next
  case (Some r)
  obtain fence u S1 x S2 y S3 z S4 op where r: "validate_review_receipt H rq r = Inr (u :: unit)" "store_receipt H out rq r S2 = (Inr y, S3)"
      "perform (in_journal (observe (product_review_operation_id H rq) fence (''product-review:'' @ H (receipt_bytes r)) ''accepted''
        (Some (''sha256:'' @ H (receipt_bytes r))))) S3 = (Inr z, S4)"
      "conclude_review H out rq r (''sha256:'' @ H (receipt_bytes r)) fence op S4 = (Inr v, S')"
    using assms unfolding deliver_review_def Let_def Some option.case and_then_Inr ask_Inr by blast
  have "ledger_reaches H S3 S4"
    using r(3) unfolding perform_Inr by (rule review_calls_reach)
  from stored_then_concluded[OF r(2) this r(4)] show ?thesis using r(1) by simp
qed

section \<open>How a run ends\<close>

text \<open>The calls before the receipt is looked up.\<close>

lemma dispatch_returns:
  assumes "dispatch_product_review H out now lease_seconds rq S = (Inr v, S')"
  obtains S1 found op where "ledger_reaches H S S1"
    "find_artifact H (st_journal S1) (product_review_operation_id H rq) ''review-receipt'' = Inr found"
    "(case found of Some data \<Rightarrow> recorded_review H out rq data op
      | None \<Rightarrow> and_then (if op_status (fst op) \<in> {OpDispatched, OpUnknown} then reconcile_review H out now rq op else answer None)
          (\<lambda>decided. case decided of Some result \<Rightarrow> answer result | None \<Rightarrow> deliver_review H out now lease_seconds rq)) S1 = (Inr v, S')"
proof -
  let ?i = "product_review_operation_id H rq"
  obtain p x S1 stored y S2 found op where r:
      "perform (budgeted_intent H (ro_intent out) p (rq_author_attempt_id rq) WorkReview ?i ?i (review_request H rq) 0) S = (Inr x, S1)"
      "store_request H out rq stored S1 = (Inr y, S2)"
      "find_artifact H (st_journal S2) ?i ''review-receipt'' = Inr found"
      "(case found of Some data \<Rightarrow> recorded_review H out rq data op
        | None \<Rightarrow> and_then (if op_status (fst op) \<in> {OpDispatched, OpUnknown} then reconcile_review H out now rq op else answer None)
            (\<lambda>decided. case decided of Some result \<Rightarrow> answer result | None \<Rightarrow> deliver_review H out now lease_seconds rq)) S2 = (Inr v, S')"
    using assms unfolding dispatch_product_review_def Let_def and_then_Inr ask_Inr by blast
  have "ledger_reaches H S S1"
    using r(1) unfolding perform_Inr by (rule review_calls_reach)
  moreover have "ledger_reaches H S1 S2"
    by (rule driven_run[OF store_request_driven r(2)])
  ultimately show ?thesis by (rule that[OF reaches_trans r(3,4)])
qed

text \<open>
  (C39) The result of a review rests on a stored receipt. A run ends in one of three ways: with an exception;
  undecided, without receipt and without evidence; or with a receipt for exactly the requested subject and
  input that is in the store afterwards, as itself or in its text, and whose outcome is the result.
\<close>

theorem review_results_rest_on_receipts:
  "(\<exists>e. fst (dispatch_product_review H out now lease_seconds rq S) = Inl e)
    \<or> (\<exists>op. fst (dispatch_product_review H out now lease_seconds rq S) = Inr (unknown_review op))
    \<or> (\<exists>v r data. fst (dispatch_product_review H out now lease_seconds rq S) = Inr v \<and> vw_receipt v = Some r
        \<and> find_artifact H (st_journal (snd (dispatch_product_review H out now lease_seconds rq S)))
            (product_review_operation_id H rq) ''review-receipt'' = Inr (Some data)
        \<and> (decode_product_review_receipt data = Inr r \<or> data = receipt_bytes r \<or> collides H)
        \<and> rr_request_digest r = input_digest H rq \<and> rr_subject r = rq_subject rq
        \<and> review_outcome H rq r = Inr (vw_status v, vw_evidence v))"
proof -
  let ?run = "dispatch_product_review H out now lease_seconds rq S"
  have "v \<in> range unknown_review \<or> rests_on_receipt H rq v (snd ?run)" if v: "fst ?run = Inr v" for v
  proof -
    have "?run = (Inr v, snd ?run)" using v by (metis prod.collapse)
    then show ?thesis
    proof (cases rule: dispatch_returns)
      case (1 S1 found op)
      show ?thesis
      proof (cases found)
        case (Some data)
        then show ?thesis using 1(2,3) recorded_returns(1) by simp
      next
        case None
        obtain decided S2 where d: "(if op_status (fst op) \<in> {OpDispatched, OpUnknown} then reconcile_review H out now rq op
              else answer None) S1 = (Inr decided, S2)"
            "(case decided of Some result \<Rightarrow> answer result | None \<Rightarrow> deliver_review H out now lease_seconds rq) S2 = (Inr v, snd ?run)"
          using 1(3) unfolding None option.case and_then_Inr by blast
        show ?thesis
        proof (cases decided)
          case None
          then show ?thesis using d(2) deliver_returns by simp
        next
          case (Some w)
          then have "reconcile_review H out now rq op S1 = (Inr (Some v), snd ?run)" using d by (auto simp: answer_Inr split: if_splits)
          then show ?thesis by (rule reconcile_returns)
        qed
      qed
    qed
  qed
  then show ?thesis
    unfolding rests_on_receipt_def by (cases "fst ?run") (blast+)
qed

section \<open>Recorded reviews\<close>

lemma and_then_cong:
  "m S = m' S \<Longrightarrow> (\<And>x S'. m S = (Inr x, S') \<Longrightarrow> f x S' = g x S') \<Longrightarrow> and_then m f S = and_then m' g S"
  by (auto simp: and_then_def split: sum.split prod.split)

text \<open>What the reviewer answers is used only by a review without receipt.\<close>

abbreviation other_answers :: "review_outside \<Rightarrow> review_lookup \<Rightarrow> product_review_receipt option \<Rightarrow> review_outside" where
  "other_answers out l d \<equiv> out\<lparr>ro_lookup := l, ro_dispatch := d\<rparr>"

lemma answers_unused:
  "store_request H (other_answers out l d) rq stored = store_request H out rq stored"
  "recorded_review H (other_answers out l d) rq data op = recorded_review H out rq data op"
  by (simp_all add: store_request_def recorded_review_def conclude_review_def cong: option.case_cong)

lemma recorded_dispatch:
  assumes "find_artifact H (st_journal S) (product_review_operation_id H rq) ''review-receipt'' = Inr (Some data)"
  shows "dispatch_product_review H out now lease_seconds rq S = dispatch_product_review H (other_answers out l d) now' lease' rq S"
proof -
  let ?i = "product_review_operation_id H rq"
  have later: "found = Some data"
    if "perform (budgeted_intent H (ro_intent out) p (rq_author_attempt_id rq) WorkReview ?i ?i (review_request H rq) 0) S = (Inr x, S1)"
      and "store_request H out rq stored S1 = (Inr y, S2)"
      and "find_artifact H (st_journal S2) ?i ''review-receipt'' = Inr found" for p x S1 stored y S2 found
  proof -
    have "ledger_reaches H S S1" using that(1) unfolding perform_Inr by (rule review_calls_reach)
    then have "ledger_reaches H S S2" using driven_run[OF store_request_driven that(2)] by (rule reaches_trans)
    then show ?thesis using archived_artifact[OF reaches_archives assms] that(3) by fastforce
  qed
  show ?thesis
    unfolding dispatch_product_review_def Let_def answers_unused
    by (rule and_then_cong, simp)+ (clarsimp simp: ask_Inr simp del: split_paired_All, drule (2) later, simp)
qed

text \<open>
  (C40) A recorded review is final. Once a receipt is in the store, then after any further calls of the store a
  run does not depend on the reviewer, on the time or on the lease any more: it does the same whatever a lookup
  or a dispatch would answer, and when it returns, its result is the outcome of the recorded receipt.
\<close>

theorem recorded_reviews_are_final:
  assumes "find_artifact H (st_journal S) (product_review_operation_id H rq) ''review-receipt'' = Inr (Some data)"
    and "ledger_reaches H S S'"
  shows "dispatch_product_review H out now lease_seconds rq S' = dispatch_product_review H (other_answers out l d) now' lease' rq S'
    \<and> ((\<exists>e. fst (dispatch_product_review H out now lease_seconds rq S') = Inl e)
      \<or> (\<exists>v r. fst (dispatch_product_review H out now lease_seconds rq S') = Inr v \<and> decode_product_review_receipt data = Inr r
          \<and> vw_receipt v = Some r \<and> review_outcome H rq r = Inr (vw_status v, vw_evidence v)))"
proof -
  let ?i = "product_review_operation_id H rq" and ?run = "dispatch_product_review H out now lease_seconds rq S'"
  have kept: "find_artifact H (st_journal S') ?i ''review-receipt'' = Inr (Some data)"
    using archived_artifact[OF reaches_archives[OF assms(2)] assms(1)] .
  have "\<exists>r. decode_product_review_receipt data = Inr r \<and> vw_receipt v = Some r \<and> review_outcome H rq r = Inr (vw_status v, vw_evidence v)"
    if v: "fst ?run = Inr v" for v
  proof -
    have "?run = (Inr v, snd ?run)" using v by (metis prod.collapse)
    then show ?thesis
    proof (cases rule: dispatch_returns)
      case (1 S1 found op)
      have found: "find_artifact H (st_journal S1) ?i ''review-receipt'' = Inr (Some data)"
        using archived_artifact[OF reaches_archives[OF 1(1)] kept] .
      then have "recorded_review H out rq data op S1 = (Inr v, snd ?run)" using 1(2,3) by simp
      from recorded_returns[OF this found] show ?thesis by (auto simp: rests_on_receipt_def)
    qed
  qed
  then show ?thesis using recorded_dispatch[OF kept] by (cases "fst ?run") blast+
qed

section \<open>A recorded review\<close>

definition demo_review_request :: product_review_request where
  "demo_review_request = \<lparr>rq_candidate = \<lparr>cr_candidate_id = ''n'', cr_publication = \<lparr>cd_attempt_id = ''a1'', cd_spec_digest = ''a'',
       cd_artifacts = \<lparr>am_workspace_key = ''k'', am_artifacts = []\<rparr>\<rparr>, cr_outputs = [(''x'', ''out'')]\<rparr>,
     rq_subject = demo_review_subject, rq_author_attempt_id = ''a1'', rq_author_actor_id = ''worker'',
     rq_policy = \<lparr>pr_policy_id = ''p'', pr_version = ''1'', pr_digest = ''p''\<rparr>\<rparr>"

definition demo_recorded :: store where
  "demo_recorded = empty_store\<lparr>st_journal := empty_journal\<lparr>
     jn_artifacts := [\<lparr>ar_operation = product_review_operation_id hex_hash demo_review_request, ar_name = ''review-receipt'',
       ar_digest = hex_hash [], ar_size = int (length (receipt_bytes demo_review_receipt))\<rparr>],
     jn_blobs := [(hex_hash [], receipt_bytes demo_review_receipt)]\<rparr>\<rparr>"

lemma demo_recorded_receipt:
  "find_artifact hex_hash (st_journal demo_recorded) (product_review_operation_id hex_hash demo_review_request) ''review-receipt''
    = Inr (Some (receipt_bytes demo_review_receipt))"
  by (simp add: demo_recorded_def find_artifact_def find_artifact_row_def verify_blob_def hex_hash_def)

definition demo_open_guards :: work_guards where
  "demo_open_guards = \<lparr>wg_claimed = (\<lambda>_ _. False), wg_workspace = Inr (), wg_claim = Inr (), wg_headroom = Inr (), wg_report = Inr (),
     wg_settled = Inr (), wg_physical = False, wg_clock = \<lparr>cv_pending = None, cv_reading = None, cv_floor = None\<rparr>\<rparr>"

definition demo_outside :: review_outside where
  "demo_outside = \<lparr>ro_intent = demo_open_guards, ro_claim = demo_open_guards, ro_check = demo_open_guards, ro_settle = demo_open_guards,
     ro_request_budget = Inr (), ro_receipt_budget = Inr (), ro_owned = False, ro_lookup = LookupUnknown, ro_dispatch = None\<rparr>"

theorem recorded_reviews_are_final_witness:
  "dispatch_product_review hex_hash demo_outside 5 60 demo_review_request demo_recorded
      = dispatch_product_review hex_hash (other_answers demo_outside LookupAbsent (Some demo_review_receipt)) 9 60 demo_review_request demo_recorded
    \<and> ((\<exists>e. fst (dispatch_product_review hex_hash demo_outside 5 60 demo_review_request demo_recorded) = Inl e)
      \<or> (\<exists>v r. fst (dispatch_product_review hex_hash demo_outside 5 60 demo_review_request demo_recorded) = Inr v
          \<and> decode_product_review_receipt (receipt_bytes demo_review_receipt) = Inr r
          \<and> vw_receipt v = Some r \<and> review_outcome hex_hash demo_review_request r = Inr (vw_status v, vw_evidence v)))"
  by (rule recorded_reviews_are_final[OF demo_recorded_receipt reaches_refl])

end
