(* ===== verification/Spec2Isabelle.thy ===== *)
theory Spec2Isabelle
  imports Domain_Witnesses Verification_Witnesses Codec_History Deadlines Progress Ownership Authority Work_Budget Outcomes
    Fake_Workspace Fake_Runtime Store_Theorems Clock_Witnesses Review_Decisions
begin

text \<open>
  Verification of the creatidy kernel (src/creatidy_kernel).

  The kernel keeps Programs: an approved specification of work units, the attempts at them, and the facts
  that trusted issuers recorded about them. A Program is an immutable aggregate; a command is authorized,
  applied and gives the next aggregate or an exception (core/domain.py). Attempts are run by a runtime in
  a workspace under grants of an authority broker; a verifier turns the candidate of an attempt into a
  satisfaction (core/verification.py), which goes back to the aggregate as a command. The SQLite store
  records every command with its canonical input and the snapshot it produced (adapters/sqlite_codec.py,
  adapters/sqlite_store.py) and journals every external effect, so that an effect is delivered again only
  with proof.

  \<^bold>\<open>Theories and sources.\<close>
  \<^item> \<open>Kernel_Prelude\<close>: exceptions as sums, loops of checks, strings, dictionaries; \<open>Core_Prelude\<close>: what the
    value classes share. \<open>Command_Machine\<close>: the locales \<open>command_machine\<close> and \<open>recording_machine\<close>, the contract
    of everything that is driven by calls. They are interpreted on the aggregate (\<open>program_machine\<close>,
    \<open>Domain_History\<close>), on what it archives (\<open>archive\<close>, \<open>Codec_Records\<close>), on the broker, the fake workspace
    and runtime, the operation journal (\<open>journals\<close>), the store (\<open>stores\<close>), the work budget (\<open>ledgers\<close>) and its
    clocks (\<open>work_clocks\<close>). \<open>Review_Theorems\<close>: the locale \<open>call_relation\<close>, what holds along runs of calls,
    interpreted on the reachability of the work budget (\<open>ledger_calls\<close>).
  \<^item> \<open>Canonical_Json\<close>, \<open>Json_Parse\<close>: the fragment of \<open>json.dumps\<close> (sorted keys, compact, ASCII) and
    \<open>json.loads\<close> the kernel uses; dumping is injective up to the order of keys and loading inverts it.
  \<^item> core/domain.py: \<open>Domain_Values\<close>, \<open>Domain_Spec\<close>, \<open>Domain_Graph\<close> (specification and its graph),
    \<open>Domain_Facts\<close> (attempts, satisfactions, commands), \<open>Domain_Projection\<close>, \<open>Projection_Properties\<close> (states of
    the units), \<open>Domain_Program\<close> (\<open>Program\<close>: create, \<open>_validate\<close>, apply), then \<open>Domain_Invariant\<close>,
    \<open>Domain_Commands\<close>, \<open>Domain_Admission\<close>, \<open>Domain_Amendment\<close>, \<open>Domain_Preservation\<close>, \<open>Domain_Safety\<close>,
    \<open>Domain_History\<close> (the invariant, one theory per group of commands), \<open>Domain_Theorems\<close>, \<open>Domain_Effects\<close>,
    \<open>Spec_Digests\<close> (the promises), \<open>Domain_Demo\<close>, \<open>Domain_Witnesses\<close> (a concrete program).
  \<^item> core/verification.py: \<open>Verification\<close>, \<open>Verification_Properties\<close>, \<open>Verification_Admission\<close>,
    \<open>Verification_Witnesses\<close>.
  \<^item> The other core modules: \<open>Deadlines\<close>, \<open>Progress\<close> (core/served.py), \<open>Ownership\<close>, \<open>Knowledge\<close>,
    \<open>Resource_Values\<close>, \<open>Execution_Values\<close>, \<open>Authority\<close> (with adapters/fake_authority.py), \<open>Decimals\<close> and
    \<open>Work_Budget\<close>, \<open>Outcomes\<close>; \<open>Fake_Workspace\<close>, \<open>Fake_Runtime\<close> (adapters/fake_execution.py).
  \<^item> adapters/sqlite_codec.py: \<open>Sqlite_Codec\<close>, \<open>Codec_Roundtrip\<close>, \<open>Codec_Records\<close>, \<open>Codec_History\<close>.
  \<^item> adapters/sqlite_store.py: \<open>Operation_Journal\<close>, \<open>Journal_Invariant\<close>, \<open>Journal_Theorems\<close> (operations, their
    deliveries, receipts, reconciliations and artifacts), \<open>Program_Store\<close>, \<open>Store_Invariant\<close>,
    \<open>Store_Theorems\<close> (history, command keys, projections), \<open>Work_Ledger\<close>, \<open>Work_Reservations\<close> (the work
    budget), \<open>Ledger_Books\<close>, \<open>Ledger_Theorems\<close>, \<open>Ledger_Witnesses\<close> (its invariant, its promises, an example),
    \<open>Work_Clocks\<close>, \<open>Clock_Theorems\<close>, \<open>Clock_Witnesses\<close> (the clocks of its decisions).
  \<^item> ports/verification.py: \<open>Product_Review\<close> (the durable product review, \<open>dispatch_product_review\<close> over the calls of
    the store), \<open>Review_Theorems\<close> (receipts in text, runs as calls of the store), \<open>Review_Decisions\<close> (results).
\<close>

text \<open>
  \<^bold>\<open>What is shown.\<close>
  \<^item> The aggregate: every reachable program passes its own validation and no command raises an internal
    error; histories only grow, attempts follow their life cycle, live attempts are exclusive, a runnable
    unit has satisfied predecessors, a satisfied unit is justified by recorded facts; admission respects the
    budgets; an amendment keeps exactly the attempts it may keep; abandoning a unit cancels its descendants.
  \<^item> Verification: acceptance needs fresh, independent, exact evidence for every required check, an accepted
    result is admitted by the aggregate and satisfies the unit, remediation is bounded.
  \<^item> Grants, runtime, progress, ownership: single use and revocation of grants, effects start once, the
    bounded buffer refines an unbounded log, conflicts of scopes are shared paths.
  \<^item> Storage: reachable programs read back from their text; whatever loads is well-formed; the store refines
    the aggregate, its history replays, command keys are idempotent, projections can be rebuilt and a damaged
    one is never believed, and nothing recorded is lost.
  \<^item> The work budget: the reservations of a project never exceed its stored policy, an attempt of a bound
    program is prepared only with a reservation, nothing is reserved without current authority and a
    revocation is final, along every run of the store. The times of decisions never go back and a lost sample
    of the clock ends the authority of its program, through failures and restarts.
  \<^item> Product reviews: receipts read back from their text; a run is a sequence of calls of the store, so all of
    the above holds across reviews; a definite result is the outcome of a stored receipt for the exact request,
    and once there is one no reviewer is asked again.
  \<^item> The journal: it passes the startup validation, accepted effects are final, redelivery needs proof, one
    request per effect, artifacts are immutable.

  \<^bold>\<open>Conventions and parameters.\<close> A method that may raise returns \<open>Inl\<close> the exception class or \<open>Inr\<close> the
  result; an immutable or transactional state is returned updated, so an exception leaves no trace (the
  bytes an artifact call writes before it fails are not kept in the model). A frozen dataclass is a
  record, its \<open>__post_init__\<close> a function \<open>mk_\<dots>\<close> or \<open>check_\<dots>\<close>. A string is a list of code points below
  256. Integers are unbounded, as in Python. SHA-256 is a parameter \<open>H\<close>; statements about digests either
  hold for every \<open>H\<close>, need that digests are not blank (\<open>digest_like\<close>) or have 64 characters (\<open>hex_digest\<close>),
  or name the alternative that \<open>H\<close> collides (\<open>collides\<close>). Other parameters: the file system behind the scope
  check and the workspace, the producer of check evidence, clocks and the time of a decision, the callback of a
  delivery, and, in the store, what the ownership claims, the physical workspace checks and the observed
  resource ceilings decide about a call (\<open>verdicts\<close>, \<open>work_guards\<close>).

  \<^bold>\<open>Loops and fuel.\<close> Loops over tuples are recursion on the list. The topological order and the closure of a
  unit run on a measure; the lineage loops of \<open>Outcomes\<close> are shown to end. The JSON parser runs on fuel, and
  twice the length of the text is shown to be enough; Python's recursion limit, floats and the limit on
  long integers are outside the model.

  \<^bold>\<open>Not modelled.\<close> In the store: ownership claims and handoffs, the physical workspace checks and the
  observed resource ceilings, whose decisions are arguments; usage records,
  migration, backup, storage inspection and SQLite itself, whose tables are lists of rows with their
  constraints. The application step, the checks that call a product review and the ownership port, allocation records, intake and forge values. Sockets,
  subprocesses, Git, HTTP, sandboxes and file system effects (the remaining adapters and the tools), which are
  input and output around the parts modelled here.
\<close>

end
